(* ===== verification/Prelude.thy ===== *)
theory Prelude
  imports Main "HOL-Library.AList" "HOL-Library.Char_ord" "HOL-Library.List_Lexorder"
begin

text \<open>
  What every component shares: the result type of a fallible Go function, Go maps as
  association lists (the order of the list is the order in which a \<open>range\<close> loop of this
  run visits the keys, which Go leaves open), the collections of simplification rules and
  the lemmas about them.
\<close>

section \<open>Results and collections of facts\<close>

named_theorems go_std \<open>definitions of the modelled standard library\<close>
named_theorems engine_step \<open>unfolding rules of the workflow machine\<close>
named_theorems bus_simps \<open>unfolding rules of the tool bus\<close>

text \<open>A Go function returning \<open>(T, error)\<close>: \<open>Inl\<close> carries the error text.\<close>

type_synonym 'a result = "string + 'a"

fun on_ok :: "'e + 'a \<Rightarrow> ('a \<Rightarrow> 'e + 'b) \<Rightarrow> 'e + 'b" where
  "on_ok (Inl e) f = Inl e"
| "on_ok (Inr x) f = f x"

lemma on_ok_Inr_iff: "on_ok r f = Inr y \<longleftrightarrow> (\<exists>x. r = Inr x \<and> f x = Inr y)"
  by (cases r) auto

lemma on_ok_Inl_iff: "on_ok r f = Inl e \<longleftrightarrow> r = Inl e \<or> (\<exists>x. r = Inr x \<and> f x = Inl e)"
  by (cases r) auto

lemma on_ok_cong [fundef_cong]:
  "r = r' \<Longrightarrow> (\<And>x. r' = Inr x \<Longrightarrow> f x = g x) \<Longrightarrow> on_ok r f = on_ok r' g"
  by (cases r') auto

text \<open>A loop that stops at the first error: \<open>for _, x := range xs { if err := f(x) ... }\<close>.\<close>

fun first_error :: "('a \<Rightarrow> 'e option) \<Rightarrow> 'a list \<Rightarrow> 'e option" where
  "first_error f [] = None"
| "first_error f (x # xs) = (case f x of Some e \<Rightarrow> Some e | None \<Rightarrow> first_error f xs)"

lemma first_error_None_iff [simp]: "first_error f xs = None \<longleftrightarrow> (\<forall>x \<in> set xs. f x = None)"
  by (induction xs) (auto split: option.splits)

section \<open>Association lists as Go maps\<close>

type_synonym ('k, 'v) gomap = "('k \<times> 'v) list"

text \<open>A Go map holds each key once.\<close>

abbreviation gomap :: "('k, 'v) gomap \<Rightarrow> bool" where
  "gomap m \<equiv> distinct (map fst m)"

lemma gomap_update [intro, simp]: "gomap m \<Longrightarrow> gomap (AList.update k v m)"
  by (rule distinct_update)

lemma gomap_delete [intro, simp]: "gomap m \<Longrightarrow> gomap (AList.delete k m)"
  by (rule distinct_delete)

lemma map_of_AList_update [simp]: "map_of (AList.update k v m) = (map_of m)(k \<mapsto> v)"
  by (rule update_conv')

lemma map_of_AList_delete [simp]: "map_of (AList.delete k m) = (map_of m)(k := None)"
  by (rule delete_conv')

lemma map_of_map_values: "map_of (map (\<lambda>(k, v). (k, f v)) m) k = map_option f (map_of m k)"
  by (induction m) auto

lemma in_keys_iff: "k \<in> fst ` set m \<longleftrightarrow> (\<exists>v. map_of m k = Some v)"
  by (metis map_of_eq_None_iff not_Some_eq)

section \<open>Lists\<close>

lemma size_list_member: "x \<in> set xs \<Longrightarrow> f x < Suc (size_list f xs)"
  by (induction xs) auto

lemma take_eq_prefix: "take (length p) s = p \<longleftrightarrow> (\<exists>t. s = p @ t)"
  by (metis append_eq_conv_conj append_take_drop_id)

lemma set_take_le: "x \<in> set (take n xs) \<Longrightarrow> x \<in> set xs"
  by (rule in_set_takeD)

lemma split_at_eq:
  "a @ x # b = a' @ x # b' \<Longrightarrow> x \<notin> set a \<Longrightarrow> x \<notin> set a' \<Longrightarrow> a = a' \<and> b = b'"
proof (induction a arbitrary: a')
  case Nil
  then show ?case by (cases a') auto
next
  case (Cons y a)
  then show ?case by (cases a') auto
qed

end
