(* ===== verification/GoStd.thy ===== *)
theory GoStd
  imports Prelude
begin

text \<open>
  The part of Go's standard library the modelled packages call, over strings as byte lists:
  \<open>strings\<close> (TrimSpace, HasPrefix, HasSuffix, Index, Split, Contains), \<open>strconv\<close>
  (ParseInt, Atoi, ParseFloat, Itoa), the \<open>float64\<close> values with round-to-nearest-even,
  their shortest decimal form, and \<open>time.ParseDuration\<close>. Nothing of it maps to a file of
  the repository; every definition is executable.
\<close>

section \<open>Package strings\<close>

definition has_prefix :: "string \<Rightarrow> string \<Rightarrow> bool" where
  "has_prefix p s \<longleftrightarrow> take (length p) s = p"

definition has_suffix :: "string \<Rightarrow> string \<Rightarrow> bool" where
  "has_suffix p s \<longleftrightarrow> length p \<le> length s \<and> drop (length s - length p) s = p"

text \<open>\<open>strings.Index\<close>: the first offset at which \<open>p\<close> occurs.\<close>

fun index_of :: "string \<Rightarrow> string \<Rightarrow> nat option" where
  "index_of p [] = (if p = [] then Some 0 else None)"
| "index_of p (c # cs) =
     (if has_prefix p (c # cs) then Some 0 else map_option Suc (index_of p cs))"

definition contains :: "string \<Rightarrow> string \<Rightarrow> bool" where
  "contains s p \<longleftrightarrow> index_of p s \<noteq> None"

text \<open>\<open>strings.IndexByte\<close>.\<close>

definition index_byte :: "char \<Rightarrow> string \<Rightarrow> nat option" where
  "index_byte c s = (if c \<in> set s then Some (length (takeWhile (\<lambda>x. x \<noteq> c) s)) else None)"

text \<open>\<open>strings.Split(s, sep)\<close> for a one-byte separator; never the empty list.\<close>

fun split_on :: "char \<Rightarrow> string \<Rightarrow> string list" where
  "split_on d [] = [[]]"
| "split_on d (c # cs) =
     (if c = d then [] # split_on d cs
      else (case split_on d cs of [] \<Rightarrow> [[c]] | w # ws \<Rightarrow> (c # w) # ws))"

fun join_with :: "string \<Rightarrow> string list \<Rightarrow> string" where
  "join_with d [] = []"
| "join_with d [w] = w"
| "join_with d (w # v # ws) = w @ d @ join_with d (v # ws)"

text \<open>
  \<open>strings.TrimSpace\<close>: the ASCII spaces and the UTF-8 encodings of the other code points
  with the White\_Space property (U+0085, U+00A0; U+1680, U+2000--U+200A, U+2028, U+2029,
  U+202F, U+205F, U+3000).
\<close>

definition ascii_space :: "char \<Rightarrow> bool" where
  "ascii_space c \<longleftrightarrow> c = CHR '' '' \<or> (9 \<le> (of_char c :: nat) \<and> (of_char c :: nat) \<le> 13)"

definition uspace2 :: "char \<Rightarrow> char \<Rightarrow> bool" where
  "uspace2 a b \<longleftrightarrow> (of_char a :: nat) = 194 \<and> (of_char b = (133::nat) \<or> of_char b = (160::nat))"

definition uspace3 :: "char \<Rightarrow> char \<Rightarrow> char \<Rightarrow> bool" where
  "uspace3 a b c \<longleftrightarrow>
     (let x = of_char a; y = of_char b; z = (of_char c :: nat) in
        (x = (225::nat) \<and> y = (154::nat) \<and> z = 128)
      \<or> (x = 226 \<and> y = 128 \<and> (128 \<le> z \<and> z \<le> 138 \<or> z = 168 \<or> z = 169 \<or> z = 175))
      \<or> (x = 226 \<and> y = 129 \<and> z = 159)
      \<or> (x = 227 \<and> y = 128 \<and> z = 128))"

fun trim_left :: "string \<Rightarrow> string" where
  "trim_left [] = []"
| "trim_left [a] = (if ascii_space a then [] else [a])"
| "trim_left [a, b] =
     (if ascii_space a then trim_left [b] else if uspace2 a b then [] else [a, b])"
| "trim_left (a # b # c # cs) =
     (if ascii_space a then trim_left (b # c # cs)
      else if uspace2 a b then trim_left (c # cs)
      else if uspace3 a b c then trim_left cs
      else a # b # c # cs)"

text \<open>Trimming on the right reads the reversed byte list, the encodings reversed too.\<close>

fun trim_rev :: "string \<Rightarrow> string" where
  "trim_rev [] = []"
| "trim_rev [a] = (if ascii_space a then [] else [a])"
| "trim_rev [a, b] =
     (if ascii_space a then trim_rev [b] else if uspace2 b a then [] else [a, b])"
| "trim_rev (a # b # c # cs) =
     (if ascii_space a then trim_rev (b # c # cs)
      else if uspace2 b a then trim_rev (c # cs)
      else if uspace3 c b a then trim_rev cs
      else a # b # c # cs)"

definition trim_space :: "string \<Rightarrow> string" where
  "trim_space s = rev (trim_rev (rev (trim_left s)))"

lemma length_trim_left [simp]: "length (trim_left s) \<le> length s"
  by (induction s rule: trim_left.induct) auto

lemma length_trim_rev [simp]: "length (trim_rev s) \<le> length s"
  by (induction s rule: trim_rev.induct) auto

lemma length_trim_space [simp]: "length (trim_space s) \<le> length s"
  using le_trans [OF length_trim_rev [of "rev (trim_left s)"]] length_trim_left [of s]
  by (simp add: trim_space_def)

lemma trim_left_suffix: "\<exists>p. s = p @ trim_left s"
proof (induction s rule: trim_left.induct)
  case (4 a b c cs)
  show ?case
    using "4.IH" by (simp, metis append_Cons append_Nil)
qed auto

lemma set_trim_left: "set (trim_left s) \<subseteq> set s"
  using trim_left_suffix [of s] by (metis set_append sup_ge2)

lemma trim_rev_suffix: "\<exists>p. s = p @ trim_rev s"
proof (induction s rule: trim_rev.induct)
  case (4 a b c cs)
  show ?case
    using "4.IH" by (simp, metis append_Cons append_Nil)
qed auto

lemma trim_space_infix: "\<exists>p q. s = p @ trim_space s @ q"
proof -
  obtain p where p: "s = p @ trim_left s" using trim_left_suffix by blast
  obtain q where q: "rev (trim_left s) = q @ trim_rev (rev (trim_left s))"
    using trim_rev_suffix by blast
  then have "trim_left s = trim_space s @ rev q"
    unfolding trim_space_def by (metis rev_append rev_rev_ident)
  then show ?thesis using p by metis
qed

lemma set_trim_space: "set (trim_space s) \<subseteq> set s"
  using trim_space_infix [of s] by (metis set_append sup_ge1 sup_ge2 subset_trans)

lemma split_on_not_Nil [simp]: "split_on d s \<noteq> []"
  by (induction s) (auto split: list.splits)

lemma split_on_no_sep: "d \<notin> set s \<Longrightarrow> split_on d s = [s]"
  by (induction s) auto

lemma split_on_append: "d \<notin> set w \<Longrightarrow> split_on d (w @ d # s) = w # split_on d s"
  by (induction w) auto

lemma index_of_bound: "index_of p s = Some i \<Longrightarrow> i + length p \<le> length s"
proof (induction s arbitrary: i)
  case Nil
  then show ?case by (auto split: if_splits)
next
  case (Cons c cs)
  show ?case
  proof (cases "has_prefix p (c # cs)")
    case True
    then have "length p \<le> length (c # cs)"
      unfolding has_prefix_def by (metis length_take min.absorb_iff2 min.commute)
    with True Cons.prems show ?thesis by simp
  next
    case False
    with Cons show ?thesis by auto
  qed
qed

section \<open>Integers\<close>

definition is_digit :: "char \<Rightarrow> bool" where
  "is_digit c \<longleftrightarrow> 48 \<le> (of_char c :: nat) \<and> (of_char c :: nat) \<le> 57"

definition digit_val :: "char \<Rightarrow> nat" where
  "digit_val c = of_char c - 48"

definition digits_val :: "nat \<Rightarrow> string \<Rightarrow> nat" where
  "digits_val acc s = foldl (\<lambda>n c. 10 * n + digit_val c) acc s"

definition max_int64 :: int where "max_int64 = 9223372036854775807"
definition min_int64 :: int where "min_int64 = -9223372036854775808"

definition split_sign :: "string \<Rightarrow> bool \<times> string" where
  "split_sign s = (case s of
       [] \<Rightarrow> (False, [])
     | c # cs \<Rightarrow> if c = CHR ''-'' then (True, cs)
                 else if c = CHR ''+'' then (False, cs) else (False, c # cs))"

text \<open>\<open>strconv.ParseInt(s, 10, 64)\<close>, and \<open>strconv.Atoi\<close> on a 64-bit platform.\<close>

definition parse_int64 :: "string \<Rightarrow> int option" where
  "parse_int64 s =
     (let (neg, ds) = split_sign s;
          n = int (digits_val 0 ds);
          v = (if neg then - n else n)
      in if ds \<noteq> [] \<and> list_all is_digit ds \<and> min_int64 \<le> v \<and> v \<le> max_int64 then Some v
         else None)"

fun show_nat :: "nat \<Rightarrow> string" where
  "show_nat n = (if n < 10 then [char_of (48 + n)]
                 else show_nat (n div 10) @ [char_of (48 + n mod 10)])"

declare show_nat.simps [simp del]

definition show_int :: "int \<Rightarrow> string" where
  "show_int i = (if i < 0 then CHR ''-'' # show_nat (nat (- i)) else show_nat (nat i))"

lemma show_nat_not_Nil [simp]: "show_nat n \<noteq> []"
  by (subst show_nat.simps) simp

lemma is_digit_char_of: "(n::nat) < 10 \<Longrightarrow> is_digit (char_of (48 + n))"
  by (simp add: is_digit_def)

lemma digit_val_char_of: "(n::nat) < 10 \<Longrightarrow> digit_val (char_of (48 + n)) = n"
  by (simp add: digit_val_def)

lemma show_nat_digits: "list_all is_digit (show_nat n)"
proof (induction n rule: show_nat.induct)
  case (1 n)
  then show ?case
    by (subst show_nat.simps) (auto intro: is_digit_char_of)
qed

lemma digits_val_show_nat [simp]: "digits_val 0 (show_nat n) = n"
proof (induction n rule: show_nat.induct)
  case (1 n)
  then show ?case
    by (subst show_nat.simps) (auto simp: digits_val_def digit_val_char_of)
qed

section \<open>Quoting\<close>

text \<open>
  \<open>%q\<close> of a string. Bytes from 128 on are copied: the text is taken to be valid UTF-8 of
  printable characters, which \<open>strconv.Quote\<close> leaves alone.
\<close>

definition hex_digit :: "nat \<Rightarrow> char" where
  "hex_digit n = (if n < 10 then char_of (48 + n) else char_of (87 + n))"

definition quote_char :: "char \<Rightarrow> string" where
  "quote_char c =
     (let n = (of_char c :: nat)
      in if n = 34 then [CHR 0x5C, CHR 0x22]
         else if n = 92 then [CHR 0x5C, CHR 0x5C]
         else if n = 7 then [CHR 0x5C, CHR ''a''] else if n = 8 then [CHR 0x5C, CHR ''b'']
         else if n = 12 then [CHR 0x5C, CHR ''f''] else if n = 10 then [CHR 0x5C, CHR ''n'']
         else if n = 13 then [CHR 0x5C, CHR ''r''] else if n = 9 then [CHR 0x5C, CHR ''t'']
         else if n = 11 then [CHR 0x5C, CHR ''v'']
         else if n < 32 \<or> n = 127 then [CHR 0x5C, CHR ''x'', hex_digit (n div 16), hex_digit (n mod 16)]
         else [c])"

definition quote :: "string \<Rightarrow> string" where
  "quote s = [CHR 0x22] @ concat (map quote_char s) @ [CHR 0x22]"

end
