(* ===== verification/GoNum.thy ===== *)
theory GoNum
  imports GoStd
begin

text \<open>
  Go's \<open>float64\<close> (IEEE binary64) as sign, mantissa and exponent, with round to nearest,
  ties to even; \<open>strconv.ParseFloat(s, 64)\<close>, the shortest decimal form \<open>fmt\<close> prints, and
  \<open>time.ParseDuration\<close>. Library code only: nothing here maps to the repository.
\<close>

section \<open>float64\<close>

text \<open>\<open>FFin neg m e\<close> is the number \<open>m * 2^e\<close>, negated if \<open>neg\<close>.\<close>

datatype f64 = FNaN | FInf bool | FFin bool nat int

fun bitlen :: "nat \<Rightarrow> nat" where
  "bitlen n = (if n = 0 then 0 else Suc (bitlen (n div 2)))"

declare bitlen.simps [simp del]

text \<open>\<open>n / d\<close> rounded to the nearest integer, ties to even.\<close>

definition round_div :: "nat \<Rightarrow> nat \<Rightarrow> nat" where
  "round_div n d = (let q = n div d; r = n mod d
     in if 2 * r < d \<or> (2 * r = d \<and> even q) then q else q + 1)"

text \<open>\<open>p / q\<close> (with \<open>q > 0\<close>) rounded to \<open>float64\<close>; \<open>None\<close> when it overflows.\<close>

definition f64_of_ratio :: "bool \<Rightarrow> nat \<Rightarrow> nat \<Rightarrow> f64 option" where
  "f64_of_ratio neg p q =
     (if p = 0 then Some (FFin neg 0 0)
      else
        let d = int (bitlen p) - int (bitlen q);
            big = (if d \<ge> 0 then q * 2 ^ nat d \<le> p else q \<le> p * 2 ^ nat (- d));
            e = max (if big then d - 52 else d - 53) (-1074);
            m = (if e \<ge> 0 then round_div p (q * 2 ^ nat e) else round_div (p * 2 ^ nat (- e)) q);
            m' = (if m = 2 ^ 53 then 2 ^ 52 else m);
            e' = (if m = 2 ^ 53 then e + 1 else e)
        in if m' = 0 then Some (FFin neg 0 0) else if e' > 971 then None else Some (FFin neg m' e'))"

text \<open>\<open>float64(n)\<close> for an integer \<open>n\<close>; no 64-bit integer overflows.\<close>

definition f64_of_int :: "int \<Rightarrow> f64" where
  "f64_of_int n = (case f64_of_ratio (n < 0) (nat \<bar>n\<bar>) 1 of Some f \<Rightarrow> f | None \<Rightarrow> FInf (n < 0))"

lemma f64_of_ratio_not_NaN: "f64_of_ratio neg p q \<noteq> Some FNaN"
proof -
  have "(if c1 then Some (FFin a b c) else if c2 then Some (FFin a' b' c')
         else if c3 then None else Some (FFin a'' b'' c'')) \<noteq> Some FNaN" for c1 c2 c3 a b c a' b' c' a'' b'' c''
    by simp
  then show ?thesis unfolding f64_of_ratio_def Let_def .
qed

lemma f64_of_int_not_NaN [simp]: "f64_of_int n \<noteq> FNaN"
  using f64_of_ratio_not_NaN by (auto simp: f64_of_int_def split: option.splits)

definition scaled :: "bool \<Rightarrow> nat \<Rightarrow> int \<Rightarrow> int \<Rightarrow> int" where
  "scaled neg m e e0 = (if neg then - 1 else 1) * int m * 2 ^ nat (e - e0)"

fun f64_eq :: "f64 \<Rightarrow> f64 \<Rightarrow> bool" where
  "f64_eq (FInf a) (FInf b) = (a = b)"
| "f64_eq (FFin a m e) (FFin b n f) = (scaled a m e (min e f) = scaled b n f (min e f))"
| "f64_eq _ _ = False"

fun f64_less :: "f64 \<Rightarrow> f64 \<Rightarrow> bool" where
  "f64_less (FInf a) (FInf b) = (a \<and> \<not> b)"
| "f64_less (FInf a) (FFin _ _ _) = a"
| "f64_less (FFin _ _ _) (FInf b) = (\<not> b)"
| "f64_less (FFin a m e) (FFin b n f) = (scaled a m e (min e f) < scaled b n f (min e f))"
| "f64_less _ _ = False"

definition f64_le :: "f64 \<Rightarrow> f64 \<Rightarrow> bool" where
  "f64_le x y \<longleftrightarrow> f64_less x y \<or> f64_eq x y"

lemma f64_eq_sym: "f64_eq x y = f64_eq y x"
  by (induction x y rule: f64_eq.induct) (auto simp: min.commute)

lemma f64_eq_refl_iff [simp]: "f64_eq x x \<longleftrightarrow> x \<noteq> FNaN"
  by (cases x) auto

lemma f64_less_irrefl [simp]: "\<not> f64_less x x"
  by (cases x) auto

lemma f64_less_asym: "f64_less x y \<Longrightarrow> \<not> f64_less y x"
  by (induction x y rule: f64_less.induct) (auto simp: min.commute)

lemma f64_less_not_eq: "f64_less x y \<Longrightarrow> \<not> f64_eq x y"
  by (induction x y rule: f64_less.induct) auto

lemma f64_trichotomy: "x \<noteq> FNaN \<Longrightarrow> y \<noteq> FNaN \<Longrightarrow> f64_less x y \<or> f64_eq x y \<or> f64_less y x"
  by (cases x; cases y) (auto simp: min.commute)

section \<open>strconv.ParseFloat\<close>

definition lower_char :: "char \<Rightarrow> char" where
  "lower_char c = (let n = (of_char c :: nat) in if 65 \<le> n \<and> n \<le> 90 then char_of (n + 32) else c)"

definition hex_val :: "char \<Rightarrow> nat option" where
  "hex_val c = (let n = (of_char (lower_char c) :: nat) in
     if 48 \<le> n \<and> n \<le> 57 then Some (n - 48)
     else if 97 \<le> n \<and> n \<le> 102 then Some (n - 87) else None)"

definition base_digit :: "nat \<Rightarrow> char \<Rightarrow> nat option" where
  "base_digit base c = (if base = 16 then hex_val c
     else if is_digit c then Some (digit_val c) else None)"

text \<open>
  The mantissa: digits with at most one point; an underscore is skipped here and checked by
  \<open>underscore_ok\<close>. Returns the digits as an integer, the number of digits after the point,
  whether there was a digit, and the rest.
\<close>

fun scan_mant :: "nat \<Rightarrow> nat \<Rightarrow> nat \<Rightarrow> bool \<Rightarrow> bool \<Rightarrow> string \<Rightarrow> nat \<times> nat \<times> bool \<times> string" where
  "scan_mant base m k dot dig [] = (m, k, dig, [])"
| "scan_mant base m k dot dig (c # cs) =
     (if c = CHR ''_'' then scan_mant base m k dot dig cs
      else if c = CHR ''.'' then
        (if dot then (m, k, dig, c # cs) else scan_mant base m k True dig cs)
      else case base_digit base c of
          Some d \<Rightarrow> scan_mant base (base * m + d) (if dot then Suc k else k) dot True cs
        | None \<Rightarrow> (m, k, dig, c # cs))"

fun scan_exp :: "nat \<Rightarrow> string \<Rightarrow> nat \<times> string" where
  "scan_exp e [] = (e, [])"
| "scan_exp e (c # cs) =
     (if c = CHR ''_'' then scan_exp e cs
      else if is_digit c then scan_exp (if e < 10000 then 10 * e + digit_val c else e) cs
      else (e, c # cs))"

text \<open>
  \<open>underscoreOK\<close>: the state is the class of the last byte, a digit (or base prefix), an
  underscore, the start, or anything else.
\<close>

datatype us_last = UStart | UDigit | UUnder | UOther

fun underscore_scan :: "bool \<Rightarrow> us_last \<Rightarrow> string \<Rightarrow> bool" where
  "underscore_scan hex l [] = (l \<noteq> UUnder)"
| "underscore_scan hex l (c # cs) =
     (if is_digit c \<or> (hex \<and> hex_val c \<noteq> None) then underscore_scan hex UDigit cs
      else if c = CHR ''_'' then l = UDigit \<and> underscore_scan hex UUnder cs
      else l \<noteq> UUnder \<and> underscore_scan hex UOther cs)"

definition hex_prefix :: "string \<Rightarrow> bool" where
  "hex_prefix s \<longleftrightarrow> length s \<ge> 2 \<and> s ! 0 = CHR ''0'' \<and> lower_char (s ! 1) = CHR ''x''"

definition underscore_ok :: "string \<Rightarrow> bool" where
  "underscore_ok s =
     (if hex_prefix s then underscore_scan True UDigit (drop 2 s)
      else underscore_scan False UStart s)"

definition special_float :: "string \<Rightarrow> f64 option" where
  "special_float s =
     (let (neg, t) = split_sign s; l = map lower_char t
      in if l = ''inf'' \<or> l = ''infinity'' then Some (FInf neg)
         else if map lower_char s = ''nan'' then Some FNaN else None)"

definition decimal_value :: "bool \<Rightarrow> nat \<Rightarrow> int \<Rightarrow> f64 option" where
  "decimal_value neg m e = (if e \<ge> 0 then f64_of_ratio neg (m * 10 ^ nat e) 1
                            else f64_of_ratio neg m (10 ^ nat (- e)))"

definition binary_value :: "bool \<Rightarrow> nat \<Rightarrow> int \<Rightarrow> f64 option" where
  "binary_value neg m e = (if e \<ge> 0 then f64_of_ratio neg (m * 2 ^ nat e) 1
                           else f64_of_ratio neg m (2 ^ nat (- e)))"

text \<open>The exponent part after the mantissa: \<open>Some\<close> of its value and the rest.\<close>

definition scan_exponent :: "char \<Rightarrow> bool \<Rightarrow> string \<Rightarrow> (int \<times> string) option" where
  "scan_exponent mark required s = (case s of
       [] \<Rightarrow> if required then None else Some (0, [])
     | c # cs \<Rightarrow>
         if lower_char c = mark then
           (let (neg, t) = split_sign cs
            in if t \<noteq> [] \<and> is_digit (hd t)
               then (let (e, r) = scan_exp 0 t in Some (if neg then - int e else int e, r))
               else None)
         else if required then None else Some (0, c # cs))"

definition parse_float :: "string \<Rightarrow> f64 option" where
  "parse_float s = (case special_float s of
       Some f \<Rightarrow> Some f
     | None \<Rightarrow>
        (let (neg, t) = split_sign s;
             hex = (length t > 2 \<and> hex_prefix t);
             base = (if hex then 16 else 10);
             (m, k, dig, r) = scan_mant base 0 0 False False (if hex then drop 2 t else t)
         in if \<not> dig then None
            else case scan_exponent (if hex then CHR ''p'' else CHR ''e'') hex r of
                None \<Rightarrow> None
              | Some (e, rest) \<Rightarrow>
                  if rest \<noteq> [] \<or> (CHR ''_'' \<in> set t \<and> \<not> underscore_ok t) then None
                  else if hex then binary_value neg m (e - 4 * int k)
                  else decimal_value neg m (e - int k)))"

section \<open>The shortest decimal form\<close>

fun dec_len :: "nat \<Rightarrow> nat" where
  "dec_len n = (if n = 0 then 0 else Suc (dec_len (n div 10)))"

declare dec_len.simps [simp del]

text \<open>The least \<open>k\<close> with \<open>p * 10^k >= q\<close>, searched up to a bound no float64 reaches.\<close>

fun dec_shift :: "nat \<Rightarrow> nat \<Rightarrow> nat \<Rightarrow> nat" where
  "dec_shift 0 p q = 0"
| "dec_shift (Suc n) p q = (if q \<le> p then 0 else Suc (dec_shift n (10 * p) q))"

definition dec_point :: "nat \<Rightarrow> nat \<Rightarrow> int" where
  "dec_point p q = (if q \<le> p then int (dec_len (p div q)) else 1 - int (dec_shift 400 p q))"

definition round_digits :: "nat \<Rightarrow> nat \<Rightarrow> int \<Rightarrow> nat \<Rightarrow> nat \<times> int" where
  "round_digits p q dp n =
     (let s = int n - dp;
          N = (if s \<ge> 0 then round_div (p * 10 ^ nat s) q else round_div p (q * 10 ^ nat (- s)))
      in if N = 10 ^ n then (10 ^ (n - 1), dp + 1) else (N, dp))"

text \<open>Digits and decimal point of the shortest decimal that reads back as the same float.\<close>

fun shortest_from :: "nat \<Rightarrow> nat \<Rightarrow> nat \<Rightarrow> int \<Rightarrow> nat \<Rightarrow> int \<Rightarrow> nat \<times> int" where
  "shortest_from 0 p q dp m e = round_digits p q dp 17"
| "shortest_from (Suc i) p q dp m e =
     (let n = 17 - Suc i + 1; (N, dp') = round_digits p q dp n
      in if i = 0 \<or> decimal_value False N (dp' - int n) = Some (FFin False m e) then (N, dp')
         else shortest_from i p q dp m e)"

definition pad2 :: "nat \<Rightarrow> string" where
  "pad2 n = (if n < 10 then CHR ''0'' # show_nat n else show_nat n)"

text \<open>\<open>fmt\<close>'s \<open>%v\<close> of a float64: \<open>%g\<close> with the shortest precision, exponent form when the
  decimal exponent is below -4 or at least 6.\<close>

definition sprint_f64 :: "f64 \<Rightarrow> string" where
  "sprint_f64 f = (case f of
       FNaN \<Rightarrow> ''NaN''
     | FInf neg \<Rightarrow> if neg then ''-Inf'' else ''+Inf''
     | FFin neg m e \<Rightarrow>
        (if neg then ''-'' else []) @
        (if m = 0 then ''0''
         else
          (let p = (if e \<ge> 0 then m * 2 ^ nat e else m);
               q = (if e \<ge> 0 then 1 else 2 ^ nat (- e));
               (N, dp) = shortest_from 17 p q (dec_point p q) m e;
               ds = show_nat N; nd = int (length ds); ex = dp - 1
           in if ex < - 4 \<or> ex \<ge> 6 then
                [hd ds] @ (if tl ds = [] then [] else CHR ''.'' # tl ds) @ ''e''
                  @ (if ex < 0 then ''-'' else ''+'') @ pad2 (nat \<bar>ex\<bar>)
              else if dp \<le> 0 then ''0.'' @ replicate (nat (- dp)) (CHR ''0'') @ ds
              else if nd \<le> dp then ds @ replicate (nat (dp - nd)) (CHR ''0'')
              else take (nat dp) ds @ ''.'' @ drop (nat dp) ds)))"

section \<open>time.ParseDuration\<close>

definition unit_ns :: "string \<Rightarrow> nat option" where
  "unit_ns u =
     (if u = ''ns'' then Some 1
      else if u = ''us'' \<or> map of_char u = [194, 181, 115 :: nat] \<or> map of_char u = [206, 188, 115 :: nat]
        then Some 1000
      else if u = ''ms'' then Some 1000000
      else if u = ''s'' then Some 1000000000
      else if u = ''m'' then Some 60000000000
      else if u = ''h'' then Some 3600000000000 else None)"

definition two63 :: nat where "two63 = 9223372036854775808"

text \<open>\<open>leadingFraction\<close>: digits accumulate until the next would overflow an int64.\<close>

fun lead_frac :: "nat \<Rightarrow> nat \<Rightarrow> bool \<Rightarrow> string \<Rightarrow> nat \<times> nat" where
  "lead_frac f scale ov [] = (f, scale)"
| "lead_frac f scale ov (c # cs) =
     (if ov then lead_frac f scale ov cs
      else if f > (two63 - 1) div 10 then lead_frac f scale True cs
      else (let y = 10 * f + digit_val c
            in if y > two63 then lead_frac f scale True cs else lead_frac y (10 * scale) ov cs))"

definition f64_trunc :: "f64 option \<Rightarrow> nat" where
  "f64_trunc f = (case f of
       Some (FFin _ m e) \<Rightarrow> if e \<ge> 0 then m * 2 ^ nat e else m div 2 ^ nat (- e)
     | _ \<Rightarrow> 0)"

text \<open>\<open>float64(a) * float64(b)\<close> rounded once more, as the two operands are integers below \<open>2^64\<close>.\<close>

definition f64_ratio :: "f64 option \<Rightarrow> nat \<times> nat" where
  "f64_ratio f = (case f of
       Some (FFin _ m e) \<Rightarrow> if e \<ge> 0 then (m * 2 ^ nat e, 1) else (m, 2 ^ nat (- e))
     | _ \<Rightarrow> (0, 1))"

definition frac_ns :: "nat \<Rightarrow> nat \<Rightarrow> nat \<Rightarrow> nat" where
  "frac_ns f scale u =
     (let (a, b) = f64_ratio (f64_of_ratio False f 1);
          (c, d) = f64_ratio (f64_of_ratio False u scale)
      in f64_trunc (f64_of_ratio False (a * c) (b * d)))"

datatype dur_error = BadDuration | MissingUnit | UnknownUnit string

text \<open>The value of one \<open>number unit\<close> group in nanoseconds, with the rest of the text.\<close>

definition duration_group :: "string \<Rightarrow> dur_error + nat \<times> string" where
  "duration_group s =
     (let ip = takeWhile is_digit s; r1 = dropWhile is_digit s;
          pt = (r1 \<noteq> [] \<and> hd r1 = CHR ''.'');
          fp = (if pt then takeWhile is_digit (tl r1) else []);
          r2 = (if pt then dropWhile is_digit (tl r1) else r1);
          u = takeWhile (\<lambda>c. c \<noteq> CHR ''.'' \<and> \<not> is_digit c) r2;
          rest = drop (length u) r2;
          v = digits_val 0 ip; (f, scale) = lead_frac 0 1 False fp
      in if v > two63 \<or> (ip = [] \<and> fp = []) then Inl BadDuration
         else if u = [] then Inl MissingUnit
         else case unit_ns u of
             None \<Rightarrow> Inl (UnknownUnit u)
           | Some n \<Rightarrow>
               if v > two63 div n then Inl BadDuration
               else (let w = v * n + (if f > 0 then frac_ns f scale n else 0)
                     in if w > two63 then Inl BadDuration else Inr (w, rest)))"

lemma duration_group_length:
  assumes "duration_group s = Inr (w, rest)"
  shows "length rest < length s"
proof -
  let ?r1 = "dropWhile is_digit s"
  define pt where "pt \<longleftrightarrow> ?r1 \<noteq> [] \<and> hd ?r1 = CHR ''.''"
  define r2 where "r2 = (if pt then dropWhile is_digit (tl ?r1) else ?r1)"
  define u where "u = takeWhile (\<lambda>c. c \<noteq> CHR ''.'' \<and> \<not> is_digit c) r2"
  have 1: "u \<noteq> []" and 2: "rest = drop (length u) r2"
    using assms
    by (auto simp: duration_group_def Let_def u_def r2_def pt_def
             split: if_splits option.splits prod.splits)
  have "length (tl ?r1) \<le> length s"
    using length_dropWhile_le [of is_digit s] by simp
  then have "length (dropWhile is_digit (tl ?r1)) \<le> length s"
    using length_dropWhile_le [of is_digit "tl ?r1"] by linarith
  then have "length r2 \<le> length s"
    unfolding r2_def by (simp add: length_dropWhile_le)
  moreover have "length u \<le> length r2"
    unfolding u_def by (rule length_takeWhile_le)
  ultimately show ?thesis
    using 1 2 by (cases u) auto
qed

function duration_groups :: "nat \<Rightarrow> string \<Rightarrow> dur_error + nat" where
  "duration_groups d s =
     (if s = [] then Inr d
      else case duration_group s of
          Inl e \<Rightarrow> Inl e
        | Inr (w, rest) \<Rightarrow> if d + w > two63 then Inl BadDuration else duration_groups (d + w) rest)"
  by pat_completeness auto
termination
  by (relation "measure (\<lambda>(d, s). length s)") (auto dest: duration_group_length)

declare duration_groups.simps [simp del]

text \<open>Package \<open>time\<close>'s own \<open>quote\<close>: bytes outside printable ASCII are escaped one by one.\<close>

definition time_quote :: "string \<Rightarrow> string" where
  "time_quote s = [CHR 0x22] @ concat (map (\<lambda>c. let n = (of_char c :: nat) in
      if n \<ge> 128 \<or> n < 32 then [CHR 0x5C, CHR ''x'', hex_digit (n div 16), hex_digit (n mod 16)]
      else if n = 34 \<or> n = 92 then [CHR 0x5C, c] else [c]) s) @ [CHR 0x22]"

definition dur_error_text :: "dur_error \<Rightarrow> string \<Rightarrow> string" where
  "dur_error_text e s = (case e of
       BadDuration \<Rightarrow> ''time: invalid duration '' @ time_quote s
     | MissingUnit \<Rightarrow> ''time: missing unit in duration '' @ time_quote s
     | UnknownUnit u \<Rightarrow> ''time: unknown unit '' @ time_quote u @ '' in duration '' @ time_quote s)"

text \<open>\<open>time.ParseDuration\<close>, in nanoseconds.\<close>

definition parse_duration :: "string \<Rightarrow> int result" where
  "parse_duration s =
     (let (neg, t) = split_sign s
      in if t = ''0'' then Inr 0
         else if t = [] then Inl (dur_error_text BadDuration s)
         else case duration_groups 0 t of
             Inl e \<Rightarrow> Inl (dur_error_text e s)
           | Inr d \<Rightarrow> if neg then Inr (- int d)
                      else if d > two63 - 1 then Inl (dur_error_text BadDuration s) else Inr (int d))"

end
