(* ===== verification/Expr.thy ===== *)
theory Expr
  imports GoNum
begin

text \<open>
  The workflow expression evaluator, \<open>src/internal/workflow/expr/expr.go\<close>: dynamic values,
  the scope, templates (\<open>Resolve\<close>), expressions (\<open>EvalExpr\<close>, \<open>tryBool\<close>), paths
  (\<open>lookup\<close>, \<open>walk\<close>), truthiness and comparison. Then: literal templates are unchanged, a
  single \<open>${path}\<close> keeps the value's type, comparison is a trichotomy on numbers, operators
  never fail, and no expression can see a step whose id contains a dot.
\<close>

section \<open>Values and scope\<close>

text \<open>
  A Go \<open>any\<close>: the dynamic types that yaml.v3, encoding/json, \<open>ParseInt\<close> and \<open>ParseFloat\<close>
  produce have a constructor each; every other dynamic type is \<open>VOther\<close> with its type name
  and its printed form. \<open>VStep\<close> is a \<open>StepResult\<close> held as a value.
\<close>

datatype val =
    VNull
  | VBool bool
  | VInt int
  | VInt64 int
  | VFloat f64
  | VStr string
  | VList "val list"
  | VStrs "string list"
  | VMap "(string \<times> val) list"
  | VAnyMap "(val \<times> val) list"
  | VStep val string
  | VOther string string

record step_result =
  sr_output :: val
  sr_error :: string

record scope =
  sc_inputs :: "(string, val) gomap"
  sc_vars :: "(string, val) gomap"
  sc_steps :: "(string, step_result) gomap"

text \<open>\<open>%T\<close> of a value.\<close>

fun type_name :: "val \<Rightarrow> string" where
  "type_name VNull = ''<nil>''"
| "type_name (VBool _) = ''bool''"
| "type_name (VInt _) = ''int''"
| "type_name (VInt64 _) = ''int64''"
| "type_name (VFloat _) = ''float64''"
| "type_name (VStr _) = ''string''"
| "type_name (VList _) = ''[]interface {}''"
| "type_name (VStrs _) = ''[]string''"
| "type_name (VMap _) = ''map[string]interface {}''"
| "type_name (VAnyMap _) = ''map[interface {}]interface {}''"
| "type_name (VStep _ _) = ''expr.StepResult''"
| "type_name (VOther t _) = t"

text \<open>
  \<open>fmt.Sprint\<close> of one value: maps print with sorted keys; the keys of a
  \<open>map[any]any\<close> print in iteration order (\<open>fmt\<close> orders keys of different dynamic types by
  the addresses of their type descriptors).
\<close>

fun sprint :: "val \<Rightarrow> string" where
  "sprint VNull = ''<nil>''"
| "sprint (VBool b) = (if b then ''true'' else ''false'')"
| "sprint (VInt i) = show_int i"
| "sprint (VInt64 i) = show_int i"
| "sprint (VFloat f) = sprint_f64 f"
| "sprint (VStr s) = s"
| "sprint (VList vs) = ''['' @ join_with '' '' (map sprint vs) @ '']''"
| "sprint (VStrs ss) = ''['' @ join_with '' '' ss @ '']''"
| "sprint (VMap m) = ''map['' @ join_with '' ''
     (map (\<lambda>(k, t). k @ '':'' @ t) (sort_key fst (map (\<lambda>(k, v). (k, sprint v)) m))) @ '']''"
| "sprint (VAnyMap m) = ''map['' @ join_with '' ''
     (map (\<lambda>(k, v). sprint k @ '':'' @ sprint v) m) @ '']''"
| "sprint (VStep v e) = ''{'' @ sprint v @ '' '' @ e @ ''}''"
| "sprint (VOther t s) = s"

section \<open>Truthiness and comparison\<close>

definition f64_zero :: f64 where "f64_zero = FFin False 0 0"

fun truthy :: "val \<Rightarrow> bool" where
  "truthy VNull = False"
| "truthy (VBool b) = b"
| "truthy (VStr s) = (s \<noteq> [])"
| "truthy (VInt i) = (i \<noteq> 0)"
| "truthy (VInt64 i) = (i \<noteq> 0)"
| "truthy (VFloat f) = (\<not> f64_eq f f64_zero)"
| "truthy (VList vs) = (vs \<noteq> [])"
| "truthy (VMap m) = (m \<noteq> [])"
| "truthy (VAnyMap m) = (m \<noteq> [])"
| "truthy _ = True"

fun to_float :: "val \<Rightarrow> f64 option" where
  "to_float (VInt i) = Some (f64_of_int i)"
| "to_float (VInt64 i) = Some (f64_of_int i)"
| "to_float (VFloat f) = Some f"
| "to_float _ = None"

definition eq_val :: "val \<Rightarrow> val \<Rightarrow> bool" where
  "eq_val l r =
     (if l = VNull \<or> r = VNull then l = VNull \<and> r = VNull
      else case (to_float l, to_float r) of
          (Some a, Some b) \<Rightarrow> f64_eq a b
        | _ \<Rightarrow> (case l of
              VStr s \<Rightarrow> (case r of VStr t \<Rightarrow> s = t | _ \<Rightarrow> False)
            | VBool b \<Rightarrow> (case r of VBool c \<Rightarrow> b = c | _ \<Rightarrow> False)
            | _ \<Rightarrow> False))"

definition cmp_val :: "val \<Rightarrow> val \<Rightarrow> string \<Rightarrow> bool" where
  "cmp_val l r op =
     (if op = ''=='' then eq_val l r
      else if op = ''!='' then \<not> eq_val l r
      else case (to_float l, to_float r) of
          (Some a, Some b) \<Rightarrow>
            (if op = ''<'' then f64_less a b
             else if op = ''<='' then f64_le a b
             else if op = ''>'' then f64_less b a
             else if op = ''>='' then f64_le b a
             else False)
        | _ \<Rightarrow> False)"

section \<open>Paths\<close>

fun walk :: "val \<Rightarrow> string list \<Rightarrow> val result" where
  "walk cur [] = Inr cur"
| "walk cur (seg # segs) =
     (case cur of
        VNull \<Rightarrow> Inr VNull
      | VMap m \<Rightarrow> walk (case map_of m seg of Some v \<Rightarrow> v | None \<Rightarrow> VNull) segs
      | VAnyMap m \<Rightarrow> walk (case map_of m (VStr seg) of Some v \<Rightarrow> v | None \<Rightarrow> VNull) segs
      | VList vs \<Rightarrow>
          (case parse_int64 seg of
             None \<Rightarrow> Inl (''array index '' @ quote seg @ '' invalid'')
           | Some i \<Rightarrow>
               if i < 0 \<or> i \<ge> int (length vs) then Inl (''array index '' @ quote seg @ '' invalid'')
               else walk (vs ! nat i) segs)
      | _ \<Rightarrow> Inl (''cannot descend into '' @ type_name cur @ '' at '' @ quote seg))"

definition lookup :: "string \<Rightarrow> scope \<Rightarrow> val result" where
  "lookup path sc =
     (let p = trim_space path
      in if p = [] then Inl ''empty path''
         else
          (let parts = split_on (CHR ''.'') p
           in if hd parts = ''inputs'' then walk (VMap (sc_inputs sc)) (tl parts)
              else if hd parts = ''vars'' then walk (VMap (sc_vars sc)) (tl parts)
              else if hd parts = ''steps'' then
                (case tl parts of
                   [] \<Rightarrow> Inl ''steps requires step id''
                 | sid # rest \<Rightarrow>
                    (case map_of (sc_steps sc) sid of
                       None \<Rightarrow> Inl (''unknown step '' @ quote sid)
                     | Some sr \<Rightarrow>
                        (case rest of
                           [] \<Rightarrow> Inr (VStep (sr_output sr) (sr_error sr))
                         | f # below \<Rightarrow>
                            if f = ''output'' then walk (sr_output sr) below
                            else if f = ''error'' then
                              (if below \<noteq> [] then Inl (''steps.'' @ sid @ ''.error has no children'')
                               else Inr (VStr (sr_error sr)))
                            else Inl (''steps.'' @ sid @ ''.'' @ f @ '': expected output|error''))))
              else Inl (''unknown root '' @ quote (hd parts) @ '' (want inputs|vars|steps)'')))"

definition try_literal :: "string \<Rightarrow> val option" where
  "try_literal s =
     (if length s \<ge> 2 \<and> ((hd s = CHR 0x22 \<and> last s = CHR 0x22) \<or> (hd s = CHR 0x27 \<and> last s = CHR 0x27))
      then Some (VStr (butlast (tl s)))
      else if s = ''true'' then Some (VBool True)
      else if s = ''false'' then Some (VBool False)
      else if s = ''null'' \<or> s = ''nil'' then Some VNull
      else case parse_int64 s of
          Some n \<Rightarrow> Some (VInt64 n)
        | None \<Rightarrow> (case parse_float s of Some f \<Rightarrow> Some (VFloat f) | None \<Rightarrow> None))"

definition resolve_operand :: "string \<Rightarrow> scope \<Rightarrow> val result" where
  "resolve_operand s sc =
     (let t = trim_space s
      in case try_literal t of Some l \<Rightarrow> Inr l | None \<Rightarrow> lookup t sc)"

section \<open>Expressions\<close>

text \<open>\<open>splitTopLevel\<close>: \<open>pre\<close> is the scanned text, reversed; \<open>depth\<close> counts open \<open>${\<close>.\<close>

fun split_scan :: "string \<Rightarrow> nat \<Rightarrow> string \<Rightarrow> string \<Rightarrow> (string \<times> string) option" where
  "split_scan op depth pre [] = None"
| "split_scan op depth pre (c # cs) =
     (if length (c # cs) < length op then None
      else if has_prefix ''${'' (c # cs) then
        split_scan op (Suc depth) (CHR ''{'' # c # pre) (drop 1 cs)
      else if depth > 0 \<and> c = CHR ''}'' then split_scan op (depth - 1) (c # pre) cs
      else if depth = 0 \<and> has_prefix op (c # cs) then
        (if (op = ''<'' \<or> op = ''>'') \<and> has_prefix ''='' cs then split_scan op depth (c # pre) cs
         else if op = ''='' \<or> op = ''!'' then split_scan op depth (c # pre) cs
         else Some (trim_space (rev pre), trim_space (drop (length op) (c # cs))))
      else split_scan op depth (c # pre) cs)"

definition split_top_level :: "string \<Rightarrow> string \<Rightarrow> (string \<times> string) option" where
  "split_top_level s op = split_scan op 0 [] s"

lemma split_scan_length:
  "split_scan op depth pre s = Some (l, r) \<Longrightarrow> op \<noteq> [] \<Longrightarrow>
   length l + length r + length op \<le> length pre + length s"
proof (induction op depth pre s rule: split_scan.induct)
  case (1 op depth pre)
  then show ?case by simp
next
  case (2 op depth pre c cs)
  note IH = "2.IH" and eq = "2.prems"(1) and op = "2.prems"(2)
  show ?case
  proof (cases "length (c # cs) < length op")
    case True
    with eq show ?thesis by simp
  next
    case len: False
    show ?thesis
    proof (cases "has_prefix ''${'' (c # cs)")
      case True
      then have two: "length (drop 1 cs) + 2 = length (c # cs)"
        by (cases cs) (auto simp: has_prefix_def)
      have "split_scan op (Suc depth) (CHR ''{'' # c # pre) (drop 1 cs) = Some (l, r)"
        using eq len True by simp
      from IH(1) [OF len True this op] two show ?thesis by simp
    next
      case dollar: False
      show ?thesis
      proof (cases "depth > 0 \<and> c = CHR ''}''")
        case True
        have "split_scan op (depth - 1) (c # pre) cs = Some (l, r)"
          using eq len dollar True by simp
        from IH(2) [OF len dollar True this op] show ?thesis by simp
      next
        case close: False
        show ?thesis
        proof (cases "depth = 0 \<and> has_prefix op (c # cs)")
          case False
          have "split_scan op depth (c # pre) cs = Some (l, r)"
            using eq len dollar close False by (simp only: split_scan.simps if_True if_False simp_thms)
          from IH(5) [OF len dollar close False this op] show ?thesis by simp
        next
          case here: True
          consider (angle) "(op = ''<'' \<or> op = ''>'') \<and> has_prefix ''='' cs"
            | (skip) "\<not> ((op = ''<'' \<or> op = ''>'') \<and> has_prefix ''='' cs)" "op = ''='' \<or> op = ''!''"
            | (hit) "\<not> ((op = ''<'' \<or> op = ''>'') \<and> has_prefix ''='' cs)" "\<not> (op = ''='' \<or> op = ''!'')"
            by argo
          then show ?thesis
          proof cases
            case angle
            have "split_scan op depth (c # pre) cs = Some (l, r)"
              using eq len dollar close here angle by (simp only: split_scan.simps if_True if_False simp_thms)
            from IH(3) [OF len dollar close here angle this op] show ?thesis by simp
          next
            case skip
            have "split_scan op depth (c # pre) cs = Some (l, r)"
              using eq len dollar close here skip by (simp only: split_scan.simps if_True if_False simp_thms)
            from IH(4) [OF len dollar close here skip this op] show ?thesis by simp
          next
            case hit
            have "Some (trim_space (rev pre), trim_space (drop (length op) (c # cs))) = Some (l, r)"
              using eq len dollar close here hit by (simp only: split_scan.simps if_True if_False simp_thms)
            then have "length l \<le> length pre" "length r \<le> length (drop (length op) (c # cs))"
              by (metis option.inject prod.inject length_rev length_trim_space)+
            with len show ?thesis by simp
          qed
        qed
      qed
    qed
  qed
qed

lemma split_top_level_length:
  "split_top_level s op = Some (l, r) \<Longrightarrow> op \<noteq> [] \<Longrightarrow> length l + length r + length op \<le> length s"
  unfolding split_top_level_def by (drule split_scan_length) auto

text \<open>The comparison loop of \<open>tryBool\<close>: the first operator of the list that splits.\<close>

fun first_split :: "string \<Rightarrow> string list \<Rightarrow> (string \<times> string \<times> string) option" where
  "first_split x [] = None"
| "first_split x (op # ops) =
     (case split_top_level x op of
        Some (l, r) \<Rightarrow> Some (op, l, r)
      | None \<Rightarrow> first_split x ops)"

definition cmp_ops :: "string list" where
  "cmp_ops = [''=='', ''!='', ''<='', ''>='', ''<'', ''>'']"

lemma bang_length:
  assumes "has_prefix ''!'' (trim_space x)"
  shows "length (trim_space (drop 1 (trim_space x))) < length x"
proof -
  have "trim_space x \<noteq> []"
    using assms by (auto simp: has_prefix_def)
  then have "length (drop 1 (trim_space x)) < length (trim_space x)"
    by (cases "trim_space x") auto
  then show ?thesis
    using length_trim_space [of "drop 1 (trim_space x)"] length_trim_space [of x] by linarith
qed

lemma eval_measure:
  "split_top_level x ''||'' = Some (l, r) \<Longrightarrow> length l + length r < length x - 1 \<and> 1 < length x"
  "split_top_level x ''&&'' = Some (l, r) \<Longrightarrow> length l + length r < length x - 1 \<and> 1 < length x"
  using split_top_level_length [of x "''||''" l r] split_top_level_length [of x "''&&''" l r]
  by auto

function (sequential) eval_expr :: "string \<Rightarrow> scope \<Rightarrow> val result"
  and eval_bool :: "string \<Rightarrow> scope \<Rightarrow> bool result"
  and try_bool :: "string \<Rightarrow> scope \<Rightarrow> bool option" where
  "eval_expr e sc =
     (let x = trim_space e
      in if x = [] then Inl ''empty expression''
         else case try_bool x sc of
             Some b \<Rightarrow> Inr (VBool b)
           | None \<Rightarrow>
              (case lookup x sc of
                 Inr v \<Rightarrow> Inr v
               | Inl err \<Rightarrow> (case try_literal x of Some l \<Rightarrow> Inr l | None \<Rightarrow> Inl err)))"
| "eval_bool e sc = (case eval_expr e sc of Inl err \<Rightarrow> Inl err | Inr v \<Rightarrow> Inr (truthy v))"
| "try_bool x sc =
     (case split_top_level x ''||'' of
        Some (l, r) \<Rightarrow>
          (case eval_bool l sc of
             Inl err \<Rightarrow> Some False
           | Inr b \<Rightarrow>
               if b then Some True
               else (case eval_bool r sc of Inl err \<Rightarrow> Some False | Inr c \<Rightarrow> Some c))
      | None \<Rightarrow>
     (case split_top_level x ''&&'' of
        Some (l, r) \<Rightarrow>
          (case eval_bool l sc of
             Inl err \<Rightarrow> Some False
           | Inr b \<Rightarrow>
               if \<not> b then Some False
               else (case eval_bool r sc of Inl err \<Rightarrow> Some False | Inr c \<Rightarrow> Some c))
      | None \<Rightarrow>
     (case first_split x cmp_ops of
        Some (op, l, r) \<Rightarrow>
          (case (resolve_operand l sc, resolve_operand r sc) of
             (Inr a, Inr b) \<Rightarrow> Some (cmp_val a b op)
           | _ \<Rightarrow> Some False)
      | None \<Rightarrow>
          if has_prefix ''!'' (trim_space x) then
            (case eval_expr (trim_space (drop 1 (trim_space x))) sc of
               Inl err \<Rightarrow> Some False
             | Inr v \<Rightarrow> Some (\<not> truthy v))
          else None)))"
  by pat_completeness auto

termination
  by (relation "measure (case_sum (\<lambda>p. 2 * length (fst p) + 1)
                  (case_sum (\<lambda>p. 2 * length (fst p) + 2) (\<lambda>p. 2 * length (fst p))))")
    (auto dest!: eval_measure bang_length simp: less_Suc_eq_le)

declare eval_expr.simps [simp del] eval_bool.simps [simp del] try_bool.simps [simp del]

section \<open>Templates\<close>

text \<open>\<open>countTopLevel\<close>.\<close>

fun count_top :: "nat \<Rightarrow> nat \<Rightarrow> string \<Rightarrow> nat" where
  "count_top n depth [] = n"
| "count_top n depth (c # cs) =
     (if has_prefix ''${'' (c # cs) then
        count_top (if depth = 0 then Suc n else n) (Suc depth) (drop 1 cs)
      else if c = CHR ''}'' \<and> depth > 0 then count_top n (depth - 1) cs
      else count_top n depth cs)"

text \<open>The loop of \<open>Resolve\<close> from offset \<open>i\<close>: \<open>s\<close> is the rest of the template.\<close>

function render :: "nat \<Rightarrow> string \<Rightarrow> scope \<Rightarrow> string result" where
  "render i s sc =
     (case s of
        [] \<Rightarrow> Inr []
      | c # cs \<Rightarrow>
         if has_prefix ''${'' s then
           (case index_of ''}'' (drop 2 s) of
              None \<Rightarrow> Inl (''unterminated ${ at offset '' @ show_nat i)
            | Some n \<Rightarrow>
                (case eval_expr (take n (drop 2 s)) sc of
                   Inl err \<Rightarrow> Inl err
                 | Inr v \<Rightarrow> on_ok (render (i + 2 + n + 1) (drop (2 + n + 1) s) sc)
                              (\<lambda>t. Inr (sprint v @ t))))
         else on_ok (render (Suc i) cs sc) (\<lambda>t. Inr (c # t)))"
  by pat_completeness auto
termination
  by (relation "measure (\<lambda>(i, s, sc). length s)") auto

declare render.simps [simp del]

definition resolve :: "string \<Rightarrow> scope \<Rightarrow> val result" where
  "resolve template sc =
     (let t = trim_space template
      in if has_prefix ''${'' t \<and> has_suffix ''}'' t \<and> count_top 0 0 t = 1
         then eval_expr (butlast (drop 2 t)) sc
         else on_ok (render 0 template sc) (\<lambda>s. Inr (VStr s)))"

section \<open>Laws of comparison\<close>

lemma eq_val_sym: "eq_val l r = eq_val r l"
  by (auto simp: eq_val_def f64_eq_sym split: option.splits val.splits)

lemma cmp_val_ops:
  "cmp_val l r ''=='' = eq_val l r"
  "cmp_val l r ''!='' = (\<not> eq_val l r)"
  by (simp_all add: cmp_val_def)

lemma cmp_val_num:
  assumes "to_float l = Some a" "to_float r = Some b"
  shows "cmp_val l r ''<'' = f64_less a b" "cmp_val l r ''>'' = f64_less b a"
    "cmp_val l r ''<='' = f64_le a b" "cmp_val l r ''>='' = f64_le b a"
    "eq_val l r = f64_eq a b"
  using assms by (auto simp: cmp_val_def eq_val_def)

section \<open>Steps whose id contains a dot\<close>

text \<open>A path reaches a step only under a segment of \<open>strings.Split(path, ".")\<close>.\<close>

lemma split_on_segment: "w \<in> set (split_on d s) \<Longrightarrow> d \<notin> set w"
  by (induction s arbitrary: w) (auto split: list.splits if_splits)

lemma lookup_dotted:
  assumes "CHR ''.'' \<in> set sid"
  shows "lookup p (sc\<lparr>sc_steps := AList.update sid r (sc_steps sc)\<rparr>) = lookup p sc"
proof -
  have neq: "s \<noteq> sid" if "s \<in> set (tl (split_on (CHR ''.'') q))" for s q
    using assms split_on_segment [of s "CHR ''.''" q] that
    by (metis list.set_sel(2) split_on_not_Nil)
  show ?thesis
    by (cases "tl (split_on (CHR ''.'') (trim_space p))")
      (use neq [of _ "trim_space p"] in \<open>auto simp: lookup_def Let_def split: list.splits option.splits\<close>)
qed

lemma resolve_operand_dotted:
  "CHR ''.'' \<in> set sid \<Longrightarrow>
   resolve_operand p (sc\<lparr>sc_steps := AList.update sid r (sc_steps sc)\<rparr>) = resolve_operand p sc"
  by (simp add: resolve_operand_def lookup_dotted Let_def split: option.split)

lemma eval_dotted:
  fixes r sid
  defines "up sc \<equiv> sc\<lparr>sc_steps := AList.update sid r (sc_steps sc)\<rparr>"
  assumes dot: "CHR ''.'' \<in> set sid"
  shows "eval_expr e (up sc) = eval_expr e sc"
    and "eval_bool e (up sc) = eval_bool e sc"
    and "try_bool x (up sc) = try_bool x sc"
proof (induction e sc and e sc and x sc rule: eval_expr_eval_bool_try_bool.induct)
  case (1 e sc)
  then show ?case
    by (simp add: eval_expr.simps [of e] lookup_dotted [OF dot] up_def Let_def
        split: option.split sum.split)
next
  case (2 e sc)
  then show ?case by (simp add: eval_bool.simps [of e])
next
  case (3 x sc)
  have ops: "resolve_operand p (up sc) = resolve_operand p sc" for p
    unfolding up_def by (rule resolve_operand_dotted [OF dot])
  show ?case
    unfolding try_bool.simps [of x]
    by (auto simp: "3" [unfolded One_nat_def] ops split: option.split sum.split)
qed

lemma render_dotted:
  "CHR ''.'' \<in> set sid \<Longrightarrow>
   render i s (sc\<lparr>sc_steps := AList.update sid r (sc_steps sc)\<rparr>) = render i s sc"
proof (induction i s sc rule: render.induct)
  case (1 i s sc)
  show ?case
    unfolding render.simps [of i s]
    using 1 by (auto simp: eval_dotted split: list.split option.split sum.split)
qed

lemma resolve_dotted:
  "CHR ''.'' \<in> set sid \<Longrightarrow>
   resolve t (sc\<lparr>sc_steps := AList.update sid r (sc_steps sc)\<rparr>) = resolve t sc"
  by (simp add: resolve_def eval_dotted render_dotted Let_def)

section \<open>Literal templates and single expressions\<close>

lemma render_literal: "index_of ''${'' s = None \<Longrightarrow> render i s sc = Inr s"
proof (induction s arbitrary: i)
  case Nil
  show ?case by (subst render.simps) simp
next
  case (Cons c cs)
  then have "\<not> has_prefix ''${'' (c # cs)" "index_of ''${'' cs = None"
    by (auto split: if_splits)
  then show ?case
    by (subst render.simps) (simp add: Cons.IH)
qed

lemma count_top_literal: "index_of ''${'' s = None \<Longrightarrow> count_top n 0 s = n"
  by (induction s) (auto split: if_splits)

lemma index_of_None_infix: "index_of p s = None \<Longrightarrow> s \<noteq> a @ p @ b"
proof (induction a arbitrary: s)
  case Nil
  then show ?case by (cases s) (auto simp: has_prefix_def split: if_splits)
next
  case (Cons c a)
  then show ?case by (cases s) (auto split: if_splits)
qed

lemma resolve_literal:
  assumes "index_of ''${'' t = None"
  shows "resolve t sc = Inr (VStr t)"
proof -
  have "\<not> has_prefix ''${'' (trim_space t)"
  proof
    assume "has_prefix ''${'' (trim_space t)"
    then obtain u where "trim_space t = ''${'' @ u"
      unfolding has_prefix_def by (metis take_eq_prefix)
    then obtain a b where "t = a @ ''${'' @ b"
      using trim_space_infix [of t] by (metis append.assoc)
    with index_of_None_infix [OF assms] show False by blast
  qed
  then show ?thesis
    using assms by (simp add: resolve_def render_literal Let_def)
qed

text \<open>The characters of a plain path: letters, digits, underscore, hyphen and the dot.\<close>

definition path_char :: "char \<Rightarrow> bool" where
  "path_char c \<longleftrightarrow> (let n = (of_char c :: nat) in
     (48 \<le> n \<and> n \<le> 57) \<or> (65 \<le> n \<and> n \<le> 90) \<or> (97 \<le> n \<and> n \<le> 122) \<or> n = 95 \<or> n = 45 \<or> n = 46)"

definition plain_char :: "char \<Rightarrow> bool" where
  "plain_char c \<longleftrightarrow> 33 \<le> (of_char c :: nat) \<and> (of_char c :: nat) < 128"

lemma plain_char_not_space:
  assumes "plain_char c"
  shows "\<not> ascii_space c" "\<not> uspace2 c d" "\<not> uspace2 d c" "\<not> uspace3 c d e" "\<not> uspace3 e d c"
proof -
  have "c \<noteq> CHR '' ''" using assms by (auto simp: plain_char_def)
  then show "\<not> ascii_space c" "\<not> uspace2 c d" "\<not> uspace2 d c" "\<not> uspace3 c d e" "\<not> uspace3 e d c"
    using assms by (auto simp: plain_char_def ascii_space_def uspace2_def uspace3_def Let_def)
qed

lemma trim_left_plain: "plain_char c \<Longrightarrow> trim_left (c # cs) = c # cs"
  by (cases "c # cs" rule: trim_left.cases) (auto simp: plain_char_not_space)

lemma trim_rev_plain: "plain_char c \<Longrightarrow> trim_rev (c # cs) = c # cs"
  by (cases "c # cs" rule: trim_rev.cases) (auto simp: plain_char_not_space)

lemma trim_space_plain:
  assumes "s \<noteq> []" "plain_char (hd s)" "plain_char (last s)"
  shows "trim_space s = s"
proof -
  have "trim_left s = s"
    using assms by (cases s) (auto simp: trim_left_plain)
  moreover have "trim_rev (rev s) = rev s"
    using assms by (cases s rule: rev_cases) (auto simp: trim_rev_plain)
  ultimately show ?thesis by (simp add: trim_space_def)
qed

lemma path_char_plain: "path_char c \<Longrightarrow> plain_char c"
  by (auto simp: path_char_def plain_char_def Let_def)

lemma path_char_not_op:
  "path_char c \<Longrightarrow> c \<notin> {CHR ''|'', CHR ''&'', CHR ''='', CHR ''!'', CHR ''<'', CHR ''>'', CHR ''$'', CHR ''{'', CHR ''}''}"
  by (auto simp: path_char_def Let_def)

lemma split_scan_no_op:
  "op \<noteq> [] \<Longrightarrow> hd op \<notin> set s \<Longrightarrow> CHR ''$'' \<notin> set s \<Longrightarrow> split_scan op 0 pre s = None"
proof (induction s arbitrary: pre)
  case (Cons c cs)
  then have "\<not> has_prefix ''${'' (c # cs)" "\<not> has_prefix op (c # cs)"
    by (cases op; auto simp: has_prefix_def)+
  with Cons show ?case by simp
qed simp

lemma path_no_split:
  assumes "list_all path_char p" "op \<in> set (''||'' # ''&&'' # cmp_ops)"
  shows "split_top_level p op = None"
proof -
  have *: "c \<notin> set p" if "c \<in> {CHR ''|'', CHR ''&'', CHR ''='', CHR ''!'', CHR ''<'', CHR ''>'', CHR ''$''}" for c
    using assms(1) path_char_not_op that by (auto simp: list_all_iff)
  have "op \<noteq> []" "hd op \<in> {CHR ''|'', CHR ''&'', CHR ''='', CHR ''!'', CHR ''<'', CHR ''>''}"
    using assms(2) by (auto simp: cmp_ops_def)
  then show ?thesis
    unfolding split_top_level_def using * by (intro split_scan_no_op) auto
qed

lemma path_first_split: "list_all path_char p \<Longrightarrow> first_split p cmp_ops = None"
  using path_no_split [of p] by (simp add: cmp_ops_def)

lemma path_trim:
  assumes "list_all path_char p" "p \<noteq> []"
  shows "trim_space p = p"
  using assms by (intro trim_space_plain) (auto simp: list_all_iff path_char_plain)

lemma eval_path:
  assumes p: "list_all path_char p" "p \<noteq> []"
  shows "eval_expr p sc =
    (case lookup p sc of Inr v \<Rightarrow> Inr v
     | Inl err \<Rightarrow> (case try_literal p of Some l \<Rightarrow> Inr l | None \<Rightarrow> Inl err))"
proof -
  have "\<not> has_prefix ''!'' p"
    using p path_char_not_op by (cases p) (auto simp: has_prefix_def)
  then have "try_bool p sc = None"
    using path_no_split [OF p(1)] path_first_split [OF p(1)] path_trim [OF p]
    by (subst try_bool.simps) simp
  then show ?thesis
    using p path_trim [OF p] by (subst eval_expr.simps) (simp add: Let_def)
qed

lemma count_top_single:
  assumes "CHR ''$'' \<notin> set p" "CHR ''}'' \<notin> set p"
  shows "count_top n (Suc 0) (p @ ''}'') = n"
  using assms
proof (induction p)
  case Nil
  then show ?case by (simp add: has_prefix_def)
next
  case (Cons c p)
  then have "\<not> has_prefix ''${'' (c # p @ ''}'')" by (auto simp: has_prefix_def)
  with Cons show ?case by auto
qed

section \<open>Properties\<close>

text \<open>
  A template that is exactly one reference \<open>${p}\<close>, with \<open>p\<close> a plain path, resolves to
  the value the path finds, with its own type (a literal such as \<open>${42}\<close> where no path is
  found), and to the path's error otherwise; nothing is turned into text.
\<close>

theorem resolve_single_reference:
  assumes "list_all path_char p" "p \<noteq> []"
  shows "resolve (''${'' @ p @ ''}'') sc =
    (case lookup p sc of Inr v \<Rightarrow> Inr v
     | Inl err \<Rightarrow> (case try_literal p of Some l \<Rightarrow> Inr l | None \<Rightarrow> Inl err))"
proof -
  let ?t = "''${'' @ p @ ''}''"
  have t: "trim_space ?t = ?t"
    by (rule trim_space_plain) (simp_all add: plain_char_def)
  have "CHR ''$'' \<notin> set p" "CHR ''}'' \<notin> set p"
    using assms(1) path_char_not_op by (auto simp: list_all_iff)
  then have "count_top 0 0 ?t = 1"
    using count_top_single [of p 1] by (simp add: has_prefix_def)
  moreover have "has_prefix ''${'' ?t" "has_suffix ''}'' ?t" "butlast (drop 2 ?t) = p"
    by (simp_all add: has_prefix_def has_suffix_def butlast_append)
  ultimately show ?thesis
    using t eval_path [OF assms] by (simp add: resolve_def Let_def)
qed

theorem resolve_single_reference_witness:
  "resolve (''${'' @ ''inputs.n'' @ ''}'')
     \<lparr>sc_inputs = [(''n'', VInt 3)], sc_vars = [], sc_steps = []\<rparr> = Inr (VInt 3)"
proof -
  have 1: "list_all path_char ''inputs.n''" by (simp add: path_char_def)
  have 2: "lookup ''inputs.n'' \<lparr>sc_inputs = [(''n'', VInt 3)], sc_vars = [], sc_steps = []\<rparr> = Inr (VInt 3)"
    by (simp add: lookup_def path_trim [OF 1] Let_def)
  show ?thesis using resolve_single_reference [OF 1] 2 by simp
qed

text \<open>
  An expression with an operator at its top level always evaluates to a boolean: a
  failing operand (an unknown step, an unknown root) makes it false, never an error.
\<close>

theorem operators_never_fail:
  assumes "split_top_level (trim_space e) op = Some (l, r)" "op \<in> set (''||'' # ''&&'' # cmp_ops)"
  shows "\<exists>b. eval_expr e sc = Inr (VBool b)"
proof -
  let ?x = "trim_space e"
  have ne: "?x \<noteq> []"
    using assms(1) by (auto simp: split_top_level_def)
  have fs: "first_split ?x cmp_ops \<noteq> None" if "op \<in> set cmp_ops"
    using that assms(1) by (auto simp: cmp_ops_def split: option.splits)
  have "split_top_level ?x ''||'' \<noteq> None \<or> split_top_level ?x ''&&'' \<noteq> None \<or> first_split ?x cmp_ops \<noteq> None"
    using assms fs by auto
  then consider "split_top_level ?x ''||'' \<noteq> None" | "split_top_level ?x ''||'' = None" "split_top_level ?x ''&&'' \<noteq> None"
    | "split_top_level ?x ''||'' = None" "split_top_level ?x ''&&'' = None" "first_split ?x cmp_ops \<noteq> None"
    by blast
  then have "try_bool ?x sc \<noteq> None"
    unfolding try_bool.simps [of ?x] by cases (auto split: sum.split)
  then show ?thesis
    using ne by (subst eval_expr.simps) (auto simp: Let_def)
qed

theorem operators_never_fail_witness:
  "\<exists>b. eval_expr ''steps.nope.output == 1'' \<lparr>sc_inputs = [], sc_vars = [], sc_steps = []\<rparr> = Inr (VBool b)"
proof -
  have t: "trim_space ''steps.nope.output == 1'' = ''steps.nope.output == 1''"
    by (rule trim_space_plain) (simp_all add: plain_char_def)
  have s: "split_top_level (trim_space ''steps.nope.output == 1'') ''=='' =
      Some (trim_space ''steps.nope.output '', trim_space '' 1'')"
    unfolding t by (simp add: split_top_level_def has_prefix_def)
  show ?thesis
    by (rule operators_never_fail [OF s]) (simp add: cmp_ops_def)
qed

text \<open>
  On two numbers that are not NaN exactly one of \<open><\<close>, \<open>==\<close>, \<open>>\<close> holds, and \<open><=\<close>, \<open>>=\<close>,
  \<open>!=\<close> are the negations of \<open>>\<close>, \<open><\<close>, \<open>==\<close>, whatever mix of int, int64 and float64 they are.
\<close>

theorem comparison_trichotomy:
  assumes "to_float l = Some a" "to_float r = Some b" "a \<noteq> FNaN" "b \<noteq> FNaN"
  shows "((cmp_val l r ''<'' \<and> \<not> cmp_val l r ''=='' \<and> \<not> cmp_val l r ''>'')
        \<or> (\<not> cmp_val l r ''<'' \<and> cmp_val l r ''=='' \<and> \<not> cmp_val l r ''>'')
        \<or> (\<not> cmp_val l r ''<'' \<and> \<not> cmp_val l r ''=='' \<and> cmp_val l r ''>''))
     \<and> cmp_val l r ''<='' = (\<not> cmp_val l r ''>'')
     \<and> cmp_val l r ''>='' = (\<not> cmp_val l r ''<'')
     \<and> cmp_val l r ''!='' = (\<not> cmp_val l r ''=='')"
proof -
  have "f64_less a b \<and> \<not> f64_eq a b \<and> \<not> f64_less b a
      \<or> \<not> f64_less a b \<and> f64_eq a b \<and> \<not> f64_less b a
      \<or> \<not> f64_less a b \<and> \<not> f64_eq a b \<and> f64_less b a"
    using f64_trichotomy [OF assms(3,4)] f64_less_asym [of a b] f64_less_not_eq [of a b]
      f64_less_not_eq [of b a] f64_eq_sym [of a b] by blast
  then show ?thesis
    using f64_eq_sym [of a b] by (simp add: cmp_val_num [OF assms(1,2)] cmp_val_ops f64_le_def) blast
qed

theorem comparison_trichotomy_witness:
  "cmp_val (VInt 2) (VInt64 3) ''<='' = (\<not> cmp_val (VInt 2) (VInt64 3) ''>'')"
proof -
  have "to_float (VInt 2) = Some (f64_of_int 2)" "to_float (VInt64 3) = Some (f64_of_int 3)"
    by (simp_all only: to_float.simps)
  from comparison_trichotomy [OF this f64_of_int_not_NaN f64_of_int_not_NaN]
  show ?thesis by blast
qed

text \<open>
  No template can read a step whose id contains a dot: recording any result for such a
  step changes the value of no template, although the step-id pattern accepts the dot.
\<close>

theorem dotted_step_invisible:
  assumes "CHR ''.'' \<in> set sid"
  shows "resolve t (sc\<lparr>sc_steps := AList.update sid r (sc_steps sc)\<rparr>) = resolve t sc"
  by (rule resolve_dotted [OF assms])

theorem dotted_step_invisible_witness:
  "resolve ''${steps.a.b.output}''
     (\<lparr>sc_inputs = [], sc_vars = [], sc_steps = []\<rparr>
        \<lparr>sc_steps := AList.update ''a.b'' \<lparr>sr_output = VInt 1, sr_error = []\<rparr> []\<rparr>)
   = resolve ''${steps.a.b.output}'' \<lparr>sc_inputs = [], sc_vars = [], sc_steps = []\<rparr>"
  using dotted_step_invisible [of "''a.b''" "''${steps.a.b.output}''"
      "\<lparr>sr_output = VInt 1, sr_error = []\<rparr>" "\<lparr>sc_inputs = [], sc_vars = [], sc_steps = []\<rparr>"]
  by (simp only: select_convs) simp

end
