(* ===== verification/WfModel.thy ===== *)
theory WfModel
  imports Expr
begin

text \<open>
  The workflow DSL: \<open>src/internal/workflow/types.go\<close> and \<open>parse.go\<close>. A step is the struct the
  code has, one constructor with a field per struct field; \<open>Parse\<close> decodes YAML (a parameter,
  yaml.v3 is not part of the repository) and classifies every step, here as a function that
  returns the annotated step the code writes in place. Then: what a successful \<open>Parse\<close>
  guarantees of every step of the document.
\<close>

section \<open>Data\<close>

datatype node_kind =
  NodeNone | NodeTool | NodeAssign | NodeIf | NodeForeach | NodeParallel | NodeWait

fun kind_text :: "node_kind \<Rightarrow> string" where
  "kind_text NodeNone = []"
| "kind_text NodeTool = ''tool''"
| "kind_text NodeAssign = ''assign''"
| "kind_text NodeIf = ''if''"
| "kind_text NodeForeach = ''foreach''"
| "kind_text NodeParallel = ''parallel''"
| "kind_text NodeWait = ''wait''"

datatype step = Step
  (st_id: string) (st_kind: node_kind)
  (st_use: string) (st_args: "(string \<times> val) list option")
  (st_timeout: int) (st_timeout_raw: string) (st_on_error: string)
  (st_assign: "(string \<times> string) list")
  (st_if: string) (st_then: "step list") (st_else: "step list")
  (st_foreach: string) (st_as: string) (st_steps: "step list")
  (st_parallel: "step list list")
  (st_wait: string) (st_wait_dur: int)

record input_spec =
  in_type :: string
  in_default :: val
  in_schema :: "(string, val) gomap"

record trigger_spec =
  tr_id :: string
  tr_cron :: string
  tr_timezone :: string
  tr_webhook :: "(string, val) gomap option"
  tr_inputs :: "(string, val) gomap"

record workflow_doc =
  doc_id :: string
  doc_name :: string
  doc_version :: int
  doc_description :: string
  doc_inputs :: "(string, input_spec) gomap"
  doc_triggers :: "trigger_spec list"
  doc_steps :: "step list"
  doc_outputs :: "(string, string) gomap"

record wf_config =
  max_steps :: int
  max_parallel_fanout :: int
  max_nesting_depth :: int
  default_step_timeout :: int

definition default_config :: wf_config where
  "default_config = \<lparr>max_steps = 200, max_parallel_fanout = 8, max_nesting_depth = 8,
     default_step_timeout = 60000000000\<rparr>"

text \<open>The constants of \<open>types.go\<close>.\<close>

definition on_error_fail :: string where "on_error_fail = ''fail''"
definition on_error_continue :: string where "on_error_continue = ''continue''"

datatype run_status = StatusOK | StatusFailed | StatusMaxSteps | StatusTimeout | StatusCancelled

fun status_text :: "run_status \<Rightarrow> string" where
  "status_text StatusOK = ''ok''"
| "status_text StatusFailed = ''failed''"
| "status_text StatusMaxSteps = ''max_steps''"
| "status_text StatusTimeout = ''timeout''"
| "status_text StatusCancelled = ''cancelled''"

lemma step_children_size [termination_simp]:
  "size_list size (st_then s) < size s"
  "size_list size (st_else s) < size s"
  "size_list size (st_steps s) < size s"
  "size_list (size_list size) (st_parallel s) < size s"
  by (cases s; simp)+

section \<open>Classification (parse.go)\<close>

text \<open>The in-place writes of \<open>classifyStep\<close> and \<open>classifySteps\<close>, as a copy.\<close>

definition with_class :: "node_kind \<Rightarrow> int \<Rightarrow> int \<Rightarrow> string \<Rightarrow> step \<Rightarrow> step" where
  "with_class k timeout wait_dur on_err s =
     Step (st_id s) k (st_use s) (st_args s) timeout (st_timeout_raw s) on_err (st_assign s)
       (st_if s) (st_then s) (st_else s) (st_foreach s) (st_as s) (st_steps s) (st_parallel s)
       (st_wait s) wait_dur"

definition with_children ::
  "step list \<Rightarrow> step list \<Rightarrow> step list \<Rightarrow> step list list \<Rightarrow> step \<Rightarrow> step" where
  "with_children th el ss pa s =
     Step (st_id s) (st_kind s) (st_use s) (st_args s) (st_timeout s) (st_timeout_raw s)
       (st_on_error s) (st_assign s) (st_if s) th el (st_foreach s) (st_as s) ss pa
       (st_wait s) (st_wait_dur s)"

definition hits :: "step \<Rightarrow> node_kind list" where
  "hits s =
     (if st_use s \<noteq> [] then [NodeTool] else []) @
     (if st_assign s \<noteq> [] then [NodeAssign] else []) @
     (if st_if s \<noteq> [] then [NodeIf] else []) @
     (if st_foreach s \<noteq> [] then [NodeForeach] else []) @
     (if st_parallel s \<noteq> [] then [NodeParallel] else []) @
     (if st_wait s \<noteq> [] then [NodeWait] else [])"

definition classify_step :: "step \<Rightarrow> step result" where
  "classify_step s =
     (if hits s = [] then Inl ''must populate one of: use|assign|if|foreach|parallel|wait''
      else if length (hits s) > 1 then
        Inl (''ambiguous: ['' @ join_with '' '' (map kind_text (hits s)) @ ''] populated; pick exactly one'')
      else
       (let k = hd (hits s) in
        on_ok (if k = NodeTool \<and> st_timeout_raw s \<noteq> [] then
                 (case parse_duration (st_timeout_raw s) of
                    Inl e \<Rightarrow> Inl (''parse timeout '' @ quote (st_timeout_raw s) @ '': '' @ e)
                  | Inr d \<Rightarrow> Inr d)
               else Inr (st_timeout s)) (\<lambda>timeout.
        on_ok (if k = NodeWait then
                 (case parse_duration (st_wait s) of
                    Inl e \<Rightarrow> Inl (''parse wait '' @ quote (st_wait s) @ '': '' @ e)
                  | Inr d \<Rightarrow> Inr d)
               else Inr (st_wait_dur s)) (\<lambda>wait_dur.
        let on_err = (if k = NodeTool \<and> st_on_error s = [] then on_error_fail else st_on_error s)
        in if k = NodeTool \<and> on_err \<noteq> on_error_fail \<and> on_err \<noteq> on_error_continue
           then Inl (''on_error '' @ quote on_err @ '': expected fail|continue'')
           else Inr (with_class k timeout wait_dur on_err s)))))"

text \<open>
  \<open>classifySteps\<close> and \<open>classifyChildren\<close>. \<open>classify_children c s\<close> works on the classified
  copy \<open>c\<close> of \<open>s\<close>, whose children are those of \<open>s\<close>.
\<close>

fun classify_steps :: "nat \<Rightarrow> step list \<Rightarrow> step list result"
  and classify_children :: "step \<Rightarrow> step \<Rightarrow> step result"
  and classify_branches :: "nat \<Rightarrow> step list list \<Rightarrow> step list list result" where
  "classify_steps i [] = Inr []"
| "classify_steps i (s # ss) =
     (case classify_step s of
        Inl e \<Rightarrow> Inl (''step '' @ (if st_id s = [] then ''['' @ show_nat i @ '']'' else st_id s) @ '': '' @ e)
      | Inr c \<Rightarrow>
         on_ok (classify_children c s) (\<lambda>c'.
         on_ok (classify_steps (Suc i) ss) (\<lambda>cs. Inr (c' # cs))))"
| "classify_children c s =
     (case st_kind c of
        NodeIf \<Rightarrow>
          on_ok (classify_steps 0 (st_then s)) (\<lambda>th.
          on_ok (classify_steps 0 (st_else s)) (\<lambda>el.
            Inr (with_children th el (st_steps c) (st_parallel c) c)))
      | NodeForeach \<Rightarrow>
          on_ok (classify_steps 0 (st_steps s)) (\<lambda>ss.
            Inr (with_children (st_then c) (st_else c) ss (st_parallel c) c))
      | NodeParallel \<Rightarrow>
          on_ok (classify_branches 0 (st_parallel s)) (\<lambda>pa.
            Inr (with_children (st_then c) (st_else c) (st_steps c) pa c))
      | _ \<Rightarrow> Inr c)"
| "classify_branches bi [] = Inr []"
| "classify_branches bi (b # bs) =
     (case classify_steps 0 b of
        Inl e \<Rightarrow> Inl (''parallel branch '' @ show_nat bi @ '': '' @ e)
      | Inr b' \<Rightarrow> on_ok (classify_branches (Suc bi) bs) (\<lambda>bs'. Inr (b' # bs')))"

text \<open>\<open>Parse\<close>: \<open>unmarshal\<close> is \<open>yaml.Unmarshal\<close> into a \<open>WorkflowDoc\<close>.\<close>

definition parse_doc :: "(string \<Rightarrow> workflow_doc result) \<Rightarrow> string \<Rightarrow> workflow_doc result" where
  "parse_doc unmarshal src =
     (case unmarshal src of
        Inl e \<Rightarrow> Inl (''yaml: '' @ e)
      | Inr doc \<Rightarrow>
          on_ok (classify_steps 0 (doc_steps doc)) (\<lambda>ss. Inr (doc\<lparr>doc_steps := ss\<rparr>)))"

section \<open>The steps the engine visits\<close>

text \<open>
  Every step of a tree with its nesting depth, in the order of the text, following the
  children that belong to the step's kind.
\<close>

fun visited :: "int \<Rightarrow> step list \<Rightarrow> (int \<times> step) list"
  and visited_kids :: "int \<Rightarrow> step \<Rightarrow> (int \<times> step) list"
  and visited_branches :: "int \<Rightarrow> step list list \<Rightarrow> (int \<times> step) list" where
  "visited d [] = []"
| "visited d (s # ss) = (d, s) # visited_kids d s @ visited d ss"
| "visited_kids d s =
     (case st_kind s of
        NodeIf \<Rightarrow> visited (d + 1) (st_then s) @ visited (d + 1) (st_else s)
      | NodeForeach \<Rightarrow> visited (d + 1) (st_steps s)
      | NodeParallel \<Rightarrow> visited_branches (d + 1) (st_parallel s)
      | _ \<Rightarrow> [])"
| "visited_branches d [] = []"
| "visited_branches d (b # bs) = visited d b @ visited_branches d bs"

declare visited_kids.simps [simp del] classify_children.simps [simp del]

definition step_ids :: "step list \<Rightarrow> string list" where
  "step_ids ss = map (\<lambda>(d, s). st_id s) (visited 0 ss)"

section \<open>What Parse guarantees\<close>

text \<open>The annotations of one classified step agree with the fields it was classified from.\<close>

definition classified :: "step \<Rightarrow> bool" where
  "classified s \<longleftrightarrow>
     hits s = [st_kind s]
   \<and> (st_kind s = NodeTool \<longrightarrow>
        st_on_error s \<in> {on_error_fail, on_error_continue} \<and>
        (st_timeout_raw s \<noteq> [] \<longrightarrow> parse_duration (st_timeout_raw s) = Inr (st_timeout s)))
   \<and> (st_kind s = NodeWait \<longrightarrow> parse_duration (st_wait s) = Inr (st_wait_dur s))"

lemma with_class_sel [simp]:
  "st_id (with_class k t w oe s) = st_id s" "st_kind (with_class k t w oe s) = k"
  "st_then (with_class k t w oe s) = st_then s" "st_else (with_class k t w oe s) = st_else s"
  "st_steps (with_class k t w oe s) = st_steps s" "st_parallel (with_class k t w oe s) = st_parallel s"
  "st_use (with_class k t w oe s) = st_use s" "st_assign (with_class k t w oe s) = st_assign s"
  "st_if (with_class k t w oe s) = st_if s" "st_foreach (with_class k t w oe s) = st_foreach s"
  "st_wait (with_class k t w oe s) = st_wait s" "st_timeout_raw (with_class k t w oe s) = st_timeout_raw s"
  "st_timeout (with_class k t w oe s) = t" "st_wait_dur (with_class k t w oe s) = w"
  "st_on_error (with_class k t w oe s) = oe" "hits (with_class k t w oe s) = hits s"
  by (simp_all add: with_class_def hits_def)

lemma with_children_sel [simp]:
  "st_id (with_children th el ss pa s) = st_id s" "st_kind (with_children th el ss pa s) = st_kind s"
  "st_then (with_children th el ss pa s) = th" "st_else (with_children th el ss pa s) = el"
  "st_steps (with_children th el ss pa s) = ss" "st_parallel (with_children th el ss pa s) = pa"
  "st_use (with_children th el ss pa s) = st_use s" "st_assign (with_children th el ss pa s) = st_assign s"
  "st_if (with_children th el ss pa s) = st_if s" "st_foreach (with_children th el ss pa s) = st_foreach s"
  "st_wait (with_children th el ss pa s) = st_wait s" "st_timeout_raw (with_children th el ss pa s) = st_timeout_raw s"
  "st_timeout (with_children th el ss pa s) = st_timeout s" "st_wait_dur (with_children th el ss pa s) = st_wait_dur s"
  "st_on_error (with_children th el ss pa s) = st_on_error s"
  by (simp_all add: with_children_def)

lemma hits_with_children: "(pa = [] \<longleftrightarrow> st_parallel s = []) \<Longrightarrow> hits (with_children th el ss pa s) = hits s"
  by (simp add: hits_def)

lemma classified_with_children:
  "(pa = [] \<longleftrightarrow> st_parallel s = []) \<Longrightarrow> classified (with_children th el ss pa s) = classified s"
  by (simp add: classified_def hits_with_children)

lemma classify_step_classified:
  assumes "classify_step s = Inr c"
  shows "classified c" "st_id c = st_id s" "st_then c = st_then s" "st_else c = st_else s"
    "st_steps c = st_steps s" "st_parallel c = st_parallel s"
proof -
  have one: "hits s = [hd (hits s)]" if "hits s \<noteq> []" "\<not> length (hits s) > 1"
    using that by (cases "hits s" rule: list.exhaust; cases "tl (hits s)") auto
  show "classified c" "st_id c = st_id s" "st_then c = st_then s" "st_else c = st_else s"
    "st_steps c = st_steps s" "st_parallel c = st_parallel s"
    using assms one
    by (auto simp: classify_step_def classified_def Let_def on_ok_Inr_iff
        split: if_splits sum.splits)
qed

lemma length_classify_branches: "classify_branches bi bs = Inr bs' \<Longrightarrow> length bs' = length bs"
  by (induction bs arbitrary: bi bs') (auto simp: on_ok_Inr_iff split: sum.splits)

lemma classify_all:
  "classify_steps i ss = Inr cs \<Longrightarrow> \<forall>(d, s) \<in> set (visited d0 cs). classified s"
  "classify_children c s = Inr c' \<Longrightarrow> classified c \<Longrightarrow> st_parallel c = st_parallel s \<Longrightarrow>
     classified c' \<and> (\<forall>(d, s) \<in> set (visited_kids d0 c'). classified s)"
  "classify_branches bi bs = Inr bs' \<Longrightarrow> \<forall>(d, s) \<in> set (visited_branches d0 bs'). classified s"
proof (induction i ss and c s and bi bs arbitrary: cs d0 and c' d0 and bs' d0
    rule: classify_steps_classify_children_classify_branches.induct)
  case (1 i)
  then show ?case by simp
next
  case (2 i s ss)
  then obtain c c' cs' where *: "classify_step s = Inr c" "classify_children c s = Inr c'"
      "classify_steps (Suc i) ss = Inr cs'" "cs = c' # cs'"
    by (auto simp: on_ok_Inr_iff split: sum.splits)
  show ?case
    using "2.IH"(1) [OF *(1,2), of d0] "2.IH"(2) [OF *(1,2,3), of d0]
      classify_step_classified [OF *(1)] *(4)
    by auto
next
  case (3 c s)
  show ?case
  proof (cases "st_kind c")
    case NodeIf
    with "3.prems" obtain th el where *: "classify_steps 0 (st_then s) = Inr th"
        "classify_steps 0 (st_else s) = Inr el"
        "c' = with_children th el (st_steps c) (st_parallel c) c"
      by (auto simp: classify_children.simps on_ok_Inr_iff)
    show ?thesis
      using "3.IH"(1) [OF NodeIf *(1), of "d0 + 1"] "3.IH"(2) [OF NodeIf *(1,2), of "d0 + 1"] "3.prems"(2) NodeIf
      by (auto simp: *(3) classified_with_children visited_kids.simps)
  next
    case NodeForeach
    with "3.prems" obtain ss where *: "classify_steps 0 (st_steps s) = Inr ss"
        "c' = with_children (st_then c) (st_else c) ss (st_parallel c) c"
      by (auto simp: classify_children.simps on_ok_Inr_iff)
    show ?thesis
      using "3.IH"(3) [OF NodeForeach *(1), of "d0 + 1"] "3.prems"(2) NodeForeach
      by (auto simp: *(2) classified_with_children visited_kids.simps)
  next
    case NodeParallel
    with "3.prems" obtain pa where *: "classify_branches 0 (st_parallel s) = Inr pa"
        "c' = with_children (st_then c) (st_else c) (st_steps c) pa c"
      by (auto simp: classify_children.simps on_ok_Inr_iff)
    have "pa = [] \<longleftrightarrow> st_parallel c = []"
      using length_classify_branches [OF *(1)] "3.prems"(3) by auto
    then show ?thesis
      using "3.IH"(4) [OF NodeParallel *(1), of "d0 + 1"] "3.prems"(2) NodeParallel
      by (auto simp: *(2) classified_with_children visited_kids.simps)
  qed (use "3.prems" in \<open>auto simp: classify_children.simps visited_kids.simps\<close>)
next
  case (4 bi)
  then show ?case by simp
next
  case (5 bi b bs)
  then obtain b' bs'' where *: "classify_steps 0 b = Inr b'" "classify_branches (Suc bi) bs = Inr bs''"
      "bs' = b' # bs''"
    by (auto simp: on_ok_Inr_iff split: sum.splits)
  show ?case
    using "5.IH"(1) [OF *(1), of d0] "5.IH"(2) [OF *(1,2), of d0] *(3) by auto
qed

end
