(* ===== verification/WfValidate.thy ===== *)
theory WfValidate
  imports WfModel
begin

text \<open>
  \<open>src/internal/workflow/validate.go\<close> and \<open>trigger_validate.go\<close>: the validator as the code
  has it, threading the \<open>seen\<close> set and stopping at the first problem, and the declarative
  well-formedness it decides: slug, name, unique step ids, local shape of every visited step,
  nesting depth and fanout.
\<close>

section \<open>Patterns\<close>

definition lower_alnum :: "char \<Rightarrow> bool" where
  "lower_alnum c \<longleftrightarrow> (let n = (of_char c :: nat) in (97 \<le> n \<and> n \<le> 122) \<or> (48 \<le> n \<and> n \<le> 57))"

text \<open>\<open>^[a-z0-9]([a-z0-9-]{0,62}[a-z0-9])?$\<close>\<close>

definition slug_match :: "string \<Rightarrow> bool" where
  "slug_match s \<longleftrightarrow> s \<noteq> [] \<and> length s \<le> 64 \<and> lower_alnum (hd s) \<and> lower_alnum (last s)
     \<and> list_all (\<lambda>c. lower_alnum c \<or> c = CHR ''-'') s"

definition id_start :: "char \<Rightarrow> bool" where
  "id_start c \<longleftrightarrow> (let n = (of_char c :: nat) in
     (97 \<le> n \<and> n \<le> 122) \<or> (65 \<le> n \<and> n \<le> 90) \<or> n = 95)"

text \<open>\<open>^[a-zA-Z_][a-zA-Z0-9_.-]*$\<close>\<close>

definition step_id_match :: "string \<Rightarrow> bool" where
  "step_id_match s \<longleftrightarrow> s \<noteq> [] \<and> id_start (hd s)
     \<and> list_all (\<lambda>c. id_start c \<or> is_digit c \<or> c = CHR ''.'' \<or> c = CHR ''-'') (tl s)"

text \<open>\<open>^[a-z][a-z0-9-]{0,62}$\<close>\<close>

definition trigger_id_match :: "string \<Rightarrow> bool" where
  "trigger_id_match s \<longleftrightarrow> s \<noteq> [] \<and> length s \<le> 63 \<and> lower_alnum (hd s) \<and> \<not> is_digit (hd s)
     \<and> list_all (\<lambda>c. lower_alnum c \<or> c = CHR ''-'') (tl s)"

definition slug_pattern_text :: string where
  "slug_pattern_text = ''^[a-z0-9]([a-z0-9-]{0,62}[a-z0-9])?$''"
definition step_id_pattern_text :: string where
  "step_id_pattern_text = ''^[a-zA-Z_][a-zA-Z0-9_.-]*$''"
definition trigger_id_pattern_text :: string where
  "trigger_id_pattern_text = ''^[a-z][a-z0-9-]{0,62}$''"

section \<open>Steps\<close>

text \<open>The loop over the bindings of an assign step.\<close>

definition binding_error :: "string \<Rightarrow> string \<times> string \<Rightarrow> string option" where
  "binding_error sid kv =
     (case kv of (k, e) \<Rightarrow>
        if k = [] then Some (''step '' @ sid @ '': assign has empty var name'')
        else if e = [] then Some (''step '' @ sid @ ''.assign.'' @ k @ '': empty expression'')
        else None)"

function (sequential) validate_steps :: "wf_config \<Rightarrow> int \<Rightarrow> step list \<Rightarrow> string list \<Rightarrow> string list result"
  and validate_list :: "wf_config \<Rightarrow> int \<Rightarrow> step list \<Rightarrow> string list \<Rightarrow> string list result"
  and validate_step :: "wf_config \<Rightarrow> int \<Rightarrow> step \<Rightarrow> string list \<Rightarrow> string list result"
  and validate_branches :: "wf_config \<Rightarrow> int \<Rightarrow> string \<Rightarrow> nat \<Rightarrow> step list list \<Rightarrow> string list \<Rightarrow> string list result"
where
  "validate_steps cfg depth steps seen =
     (if depth > max_nesting_depth cfg
      then Inl (''nesting depth '' @ show_int depth @ '' exceeds MaxNestingDepth '' @
                show_int (max_nesting_depth cfg))
      else validate_list cfg depth steps seen)"
| "validate_list cfg depth [] seen = Inr seen"
| "validate_list cfg depth (s # ss) seen =
     (if \<not> step_id_match (st_id s)
      then Inl (''step id '' @ quote (st_id s) @ '': must match '' @ step_id_pattern_text)
      else if st_id s \<in> set seen then Inl (''duplicate step id '' @ quote (st_id s))
      else on_ok (validate_step cfg depth s (st_id s # seen)) (\<lambda>seen'. validate_list cfg depth ss seen'))"
| "validate_step cfg depth s seen =
     (let at = ''step '' @ st_id s in
      case st_kind s of
        NodeTool \<Rightarrow>
          if st_use s = [] then Inl (at @ '': tool node requires use'') else Inr seen
      | NodeAssign \<Rightarrow>
          if st_assign s = [] then Inl (at @ '': assign node requires at least one binding'')
          else (case first_error (binding_error (st_id s)) (st_assign s) of
                  Some e \<Rightarrow> Inl e | None \<Rightarrow> Inr seen)
      | NodeIf \<Rightarrow>
          if st_if s = [] then Inl (at @ '': if expression is empty'')
          else if st_then s = [] then Inl (at @ '': if requires at least one then-branch step'')
          else on_ok (validate_steps cfg (depth + 1) (st_then s) seen) (\<lambda>seen'.
                 if st_else s \<noteq> [] then validate_steps cfg (depth + 1) (st_else s) seen' else Inr seen')
      | NodeForeach \<Rightarrow>
          if st_foreach s = [] then Inl (at @ '': foreach expression is empty'')
          else if st_as s = [] then Inl (at @ '': foreach requires `as` binding name'')
          else if st_steps s = [] then Inl (at @ '': foreach requires at least one inner step'')
          else validate_steps cfg (depth + 1) (st_steps s) seen
      | NodeParallel \<Rightarrow>
          if length (st_parallel s) < 2 then Inl (at @ '': parallel requires at least 2 branches'')
          else if int (length (st_parallel s)) > max_parallel_fanout cfg
          then Inl (at @ '': parallel fanout '' @ show_nat (length (st_parallel s)) @
                    '' > MaxParallelFanout '' @ show_int (max_parallel_fanout cfg))
          else validate_branches cfg (depth + 1) (st_id s) 0 (st_parallel s) seen
      | NodeWait \<Rightarrow>
          if st_wait_dur s \<le> 0 then Inl (at @ '': wait duration must be positive'') else Inr seen
      | NodeNone \<Rightarrow> Inl (at @ '': unknown kind '' @ quote (kind_text (st_kind s))))"
| "validate_branches cfg depth sid bi [] seen = Inr seen"
| "validate_branches cfg depth sid bi (b # bs) seen =
     (if b = [] then Inl (''step '' @ sid @ '': parallel branch '' @ show_nat bi @ '' is empty'')
      else on_ok (validate_steps cfg depth b seen)
             (\<lambda>seen'. validate_branches cfg depth sid (Suc bi) bs seen'))"
  by pat_completeness auto
termination
proof (relation "measure (case_sum
      (case_sum (\<lambda>(cfg, d, ss, seen). 2 * size_list size ss + 1)
                (\<lambda>(cfg, d, ss, seen). 2 * size_list size ss))
      (case_sum (\<lambda>(cfg, d, s, seen). 2 * size s)
                (\<lambda>(cfg, d, sid, bi, bs, seen). 2 * size_list (size_list size) bs)))", goal_cases)
  case 1
  show ?case by simp
next
  case (5 cfg depth s seen x)
  then show ?case using step_children_size(1) [of s] by simp
next
  case (6 cfg depth s seen x xa)
  then show ?case using step_children_size(2) [of s] by simp
next
  case (7 cfg depth s seen x)
  then show ?case using step_children_size(3) [of s] by simp
qed (simp_all add: step_children_size)

declare validate_steps.simps [simp del] validate_step.simps [simp del]

section \<open>Triggers\<close>

definition validate_webhook :: "string \<Rightarrow> (string, val) gomap \<Rightarrow> string option" where
  "validate_webhook tid spec =
     (if spec = [] then None
      else
        let other = Some (''trigger '' @ tid @ '': webhook must be {} or {enabled: true}'')
        in if length spec = 1 then
             (case map_of spec ''enabled'' of
                Some (VBool b) \<Rightarrow>
                  if b then None
                  else Some (''trigger '' @ tid @ '': webhook.enabled must be true when set'')
              | Some _ \<Rightarrow> Some (''trigger '' @ tid @ '': webhook.enabled must be boolean'')
              | None \<Rightarrow> other)
           else other)"

text \<open>
  \<open>validateTriggers\<close>: \<open>cron_err\<close> is the error of \<open>cron.ParseStandard\<close> and \<open>zone_err\<close> that of
  \<open>time.LoadLocation\<close> (the zone database), \<open>None\<close> when they accept. The result is the list
  with the default timezone the code writes in place.
\<close>

fun validate_triggers ::
  "(string \<Rightarrow> string option) \<Rightarrow> (string \<Rightarrow> string option) \<Rightarrow> string list \<Rightarrow> nat \<Rightarrow> string list \<Rightarrow>
   trigger_spec list \<Rightarrow> trigger_spec list result" where
  "validate_triggers cron_err zone_err step_seen i seen [] = Inr []"
| "validate_triggers cron_err zone_err step_seen i seen (tr # trs) =
     (let label = (if tr_id tr = [] then ''['' @ show_nat i @ '']'' else tr_id tr);
          has_cron = (tr_cron tr \<noteq> []);
          has_webhook = (tr_webhook tr \<noteq> None);
          tz = (if tr_timezone tr = [] then ''UTC'' else tr_timezone tr);
          rest = validate_triggers cron_err zone_err step_seen (Suc i) (tr_id tr # seen) trs
      in if \<not> trigger_id_match (tr_id tr)
         then Inl (''trigger '' @ label @ '': id must match '' @ trigger_id_pattern_text)
         else if tr_id tr \<in> set seen then Inl (''duplicate trigger id '' @ quote (tr_id tr))
         else if tr_id tr \<in> set step_seen
         then Inl (''trigger id '' @ quote (tr_id tr) @ '' conflicts with step id'')
         else if has_cron = has_webhook
         then Inl (''trigger '' @ tr_id tr @ '': must populate exactly one of cron or webhook'')
         else if has_cron then
           (case cron_err (tr_cron tr) of
              Some e \<Rightarrow> Inl (''trigger '' @ tr_id tr @ '': invalid cron '' @ quote (tr_cron tr) @ '': '' @ e)
            | None \<Rightarrow>
               (case zone_err tz of
                  Some e \<Rightarrow> Inl (''trigger '' @ tr_id tr @ '': invalid timezone '' @ quote tz @ '': '' @ e)
                | None \<Rightarrow> on_ok rest (\<lambda>ts. Inr (tr\<lparr>tr_timezone := tz\<rparr> # ts))))
         else
           (case validate_webhook (tr_id tr) (the (tr_webhook tr)) of
              Some e \<Rightarrow> Inl e
            | None \<Rightarrow> on_ok rest (\<lambda>ts. Inr (tr # ts))))"

section \<open>The document\<close>

definition output_error :: "string \<times> string \<Rightarrow> string option" where
  "output_error kv = (if snd kv = [] then Some (''outputs.'' @ fst kv @ '': empty expression'') else None)"

definition validate_doc ::
  "(string \<Rightarrow> string option) \<Rightarrow> (string \<Rightarrow> string option) \<Rightarrow> workflow_doc option \<Rightarrow> wf_config \<Rightarrow>
   workflow_doc result" where
  "validate_doc cron_err zone_err mdoc cfg =
     (case mdoc of
        None \<Rightarrow> Inl ''nil doc''
      | Some doc \<Rightarrow>
         if \<not> slug_match (doc_id doc)
         then Inl (''workflow id '' @ quote (doc_id doc) @ '': must match '' @ slug_pattern_text)
         else if doc_name doc = [] then Inl ''workflow name is required''
         else if doc_steps doc = [] then Inl ''workflow must have at least one step''
         else
           on_ok (validate_steps cfg 0 (doc_steps doc) []) (\<lambda>seen.
           on_ok (validate_triggers cron_err zone_err seen 0 [] (doc_triggers doc)) (\<lambda>trs.
             case first_error output_error (doc_outputs doc) of
               Some e \<Rightarrow> Inl e
             | None \<Rightarrow> Inr (doc\<lparr>doc_triggers := trs\<rparr>))))"

section \<open>The declarative counterpart\<close>

definition step_ok :: "wf_config \<Rightarrow> step \<Rightarrow> bool" where
  "step_ok cfg s \<longleftrightarrow> step_id_match (st_id s) \<and>
     (case st_kind s of
        NodeTool \<Rightarrow> st_use s \<noteq> []
      | NodeAssign \<Rightarrow> st_assign s \<noteq> [] \<and> (\<forall>(k, e) \<in> set (st_assign s). k \<noteq> [] \<and> e \<noteq> [])
      | NodeIf \<Rightarrow> st_if s \<noteq> [] \<and> st_then s \<noteq> []
      | NodeForeach \<Rightarrow> st_foreach s \<noteq> [] \<and> st_as s \<noteq> [] \<and> st_steps s \<noteq> []
      | NodeParallel \<Rightarrow> 2 \<le> length (st_parallel s) \<and> int (length (st_parallel s)) \<le> max_parallel_fanout cfg
          \<and> (\<forall>b \<in> set (st_parallel s). b \<noteq> [])
      | NodeWait \<Rightarrow> 0 < st_wait_dur s
      | NodeNone \<Rightarrow> False)"

definition tree_ok :: "wf_config \<Rightarrow> (int \<times> step) list \<Rightarrow> bool" where
  "tree_ok cfg vs \<longleftrightarrow> (\<forall>(d, s) \<in> set vs. d \<le> max_nesting_depth cfg \<and> step_ok cfg s)"

definition ids_of :: "(int \<times> step) list \<Rightarrow> string list" where
  "ids_of vs = map (\<lambda>(d, s). st_id s) vs"

lemma tree_ok_simps [simp]:
  "tree_ok cfg []"
  "tree_ok cfg ((d, s) # vs) \<longleftrightarrow> d \<le> max_nesting_depth cfg \<and> step_ok cfg s \<and> tree_ok cfg vs"
  "tree_ok cfg (vs @ ws) \<longleftrightarrow> tree_ok cfg vs \<and> tree_ok cfg ws"
  by (auto simp: tree_ok_def)

lemma ids_of_simps [simp]:
  "ids_of [] = []" "ids_of ((d, s) # vs) = st_id s # ids_of vs" "ids_of (vs @ ws) = ids_of vs @ ids_of ws"
  by (simp_all add: ids_of_def)

text \<open>What the ids of a traversal must satisfy against the ids already seen.\<close>

definition fresh_ids :: "string list \<Rightarrow> string list \<Rightarrow> bool" where
  "fresh_ids seen ids \<longleftrightarrow> distinct ids \<and> set ids \<inter> set seen = {}"

lemma fresh_ids_simps [simp]:
  "fresh_ids seen []"
  "fresh_ids seen (x # ids) \<longleftrightarrow> x \<notin> set seen \<and> fresh_ids (x # seen) ids"
  by (auto simp: fresh_ids_def)

lemma fresh_ids_append:
  "fresh_ids seen (a @ b) \<longleftrightarrow> fresh_ids seen a \<and> fresh_ids (rev a @ seen) b"
  by (auto simp: fresh_ids_def)

lemma bindings_ok:
  "(\<forall>(k, e) \<in> set xs. k \<noteq> [] \<and> e \<noteq> []) \<longleftrightarrow> first_error (binding_error sid) xs = None"
  by (auto simp: binding_error_def split: prod.splits if_splits)

lemma visited_depth_head: "ss \<noteq> [] \<Longrightarrow> tree_ok cfg (visited d ss) \<Longrightarrow> d \<le> max_nesting_depth cfg"
  by (cases ss) auto

text \<open>
  The traversals succeed exactly on the declarative condition, and then return the ids of the
  subtree added to \<open>seen\<close>. For the non-empty lists the validator descends into, the depth of
  the head carries the depth test.
\<close>

lemma validate_iff:
  "steps \<noteq> [] \<Longrightarrow> validate_steps cfg d steps seen = Inr seen' \<longleftrightarrow>
     tree_ok cfg (visited d steps) \<and> fresh_ids seen (ids_of (visited d steps))
     \<and> seen' = rev (ids_of (visited d steps)) @ seen"
  "d \<le> max_nesting_depth cfg \<Longrightarrow> validate_list cfg d steps seen = Inr seen' \<longleftrightarrow>
     tree_ok cfg (visited d steps) \<and> fresh_ids seen (ids_of (visited d steps))
     \<and> seen' = rev (ids_of (visited d steps)) @ seen"
  "step_id_match (st_id s) \<Longrightarrow> validate_step cfg d s seen = Inr seen' \<longleftrightarrow>
     step_ok cfg s \<and> tree_ok cfg (visited_kids d s) \<and> fresh_ids seen (ids_of (visited_kids d s))
     \<and> seen' = rev (ids_of (visited_kids d s)) @ seen"
  "validate_branches cfg d sid bi bs seen = Inr seen' \<longleftrightarrow>
     (\<forall>b \<in> set bs. b \<noteq> []) \<and> tree_ok cfg (visited_branches d bs)
     \<and> fresh_ids seen (ids_of (visited_branches d bs))
     \<and> seen' = rev (ids_of (visited_branches d bs)) @ seen"
proof (induction cfg d steps seen and cfg d steps seen and cfg d s seen and cfg d sid bi bs seen
    arbitrary: seen' and seen' and seen' and seen'
    rule: validate_steps_validate_list_validate_step_validate_branches.induct)
  case (1 cfg depth steps seen)
  then show ?case
    using visited_depth_head [of steps cfg depth] by (auto simp: validate_steps.simps)
next
  case (2 cfg depth seen)
  then show ?case by auto
next
  case (3 cfg depth s ss seen)
  show ?case
  proof (cases "step_id_match (st_id s) \<and> st_id s \<notin> set seen")
    case True
    then show ?thesis
      using "3.prems" "3.IH"(1) "3.IH"(2)
      by (auto simp: on_ok_Inr_iff fresh_ids_append)
  next
    case False
    then show ?thesis by (auto simp: step_ok_def)
  qed
next
  case (4 cfg depth s seen)
  show ?case
  proof (cases "st_kind s")
    case NodeIf
    show ?thesis
    proof (cases "st_if s = [] \<or> st_then s = []")
      case True
      then show ?thesis using NodeIf by (auto simp: validate_step.simps step_ok_def Let_def)
    next
      case False
      then show ?thesis
        using NodeIf "4.prems" "4.IH"(1) [OF refl NodeIf] "4.IH"(2) [OF refl NodeIf]
        by (cases "st_else s = []")
          (auto simp: validate_step.simps step_ok_def Let_def visited_kids.simps on_ok_Inr_iff fresh_ids_append)
    qed
  next
    case NodeForeach
    then show ?thesis
      using "4.prems" "4.IH"(3) [OF refl NodeForeach]
      by (auto simp: validate_step.simps step_ok_def Let_def visited_kids.simps)
  next
    case NodeParallel
    then show ?thesis
      using "4.prems" "4.IH"(4) [OF refl NodeParallel]
      by (auto simp: validate_step.simps step_ok_def Let_def visited_kids.simps)
  next
    case NodeAssign
    then show ?thesis
      using "4.prems" by (cases "first_error (binding_error (st_id s)) (st_assign s)")
        (auto simp only: validate_step.simps step_ok_def Let_def visited_kids.simps node_kind.case
          bindings_ok [where sid = "st_id s"] option.case split: if_splits, auto)
  qed (use "4.prems" in \<open>auto simp: validate_step.simps step_ok_def Let_def visited_kids.simps\<close>)
next
  case (5 cfg depth sid bi seen)
  then show ?case by auto
next
  case (6 cfg depth sid bi b bs seen)
  show ?case
    using "6.IH" by (auto simp: on_ok_Inr_iff fresh_ids_append)
qed

section \<open>Triggers and documents, declaratively\<close>

definition trigger_ok ::
  "(string \<Rightarrow> string option) \<Rightarrow> (string \<Rightarrow> string option) \<Rightarrow> string list \<Rightarrow> trigger_spec \<Rightarrow> bool" where
  "trigger_ok cron_err zone_err step_seen tr \<longleftrightarrow>
     trigger_id_match (tr_id tr) \<and> tr_id tr \<notin> set step_seen
   \<and> (tr_cron tr \<noteq> [] \<longleftrightarrow> tr_webhook tr = None)
   \<and> (tr_cron tr \<noteq> [] \<longrightarrow> cron_err (tr_cron tr) = None \<and>
        zone_err (if tr_timezone tr = [] then ''UTC'' else tr_timezone tr) = None)
   \<and> (\<forall>spec. tr_webhook tr = Some spec \<longrightarrow> spec = [] \<or> spec = [(''enabled'', VBool True)])"

lemma validate_webhook_None:
  "validate_webhook tid spec = None \<longleftrightarrow> spec = [] \<or> spec = [(''enabled'', VBool True)]"
  by (cases spec; cases "tl spec"; cases "snd (hd spec)")
    (auto simp: validate_webhook_def Let_def split: if_splits)

lemma validate_triggers_ok:
  "(\<exists>trs'. validate_triggers cron_err zone_err sids i seen trs = Inr trs') \<longleftrightarrow>
     (\<forall>tr \<in> set trs. trigger_ok cron_err zone_err sids tr) \<and> fresh_ids seen (map tr_id trs)"
proof (induction trs arbitrary: i seen)
  case Nil
  then show ?case by simp
next
  case (Cons tr trs)
  let ?rest = "validate_triggers cron_err zone_err sids (Suc i) (tr_id tr # seen) trs"
  note IH = Cons.IH [of "Suc i" "tr_id tr # seen"]
  show ?case
  proof (cases "trigger_id_match (tr_id tr) \<and> tr_id tr \<notin> set seen \<and> tr_id tr \<notin> set sids
      \<and> (tr_cron tr \<noteq> [] \<longleftrightarrow> tr_webhook tr = None)")
    case False
    then show ?thesis by (auto simp: Let_def trigger_ok_def)
  next
    case True
    let ?goal = "(\<exists>trs'. validate_triggers cron_err zone_err sids i seen (tr # trs) = Inr trs') \<longleftrightarrow>
        trigger_ok cron_err zone_err sids tr \<and> (\<exists>trs'. ?rest = Inr trs')"
    have ?goal
    proof (cases "tr_cron tr = []")
      case cron: True
      with True obtain spec where "tr_webhook tr = Some spec" by auto
      with True cron show ?thesis
        by (cases "validate_webhook (tr_id tr) spec"; cases ?rest)
          (simp_all add: Let_def trigger_ok_def flip: validate_webhook_None [of "tr_id tr"])
    next
      case cron: False
      let ?tz = "if tr_timezone tr = [] then ''UTC'' else tr_timezone tr"
      from cron True have "tr_webhook tr = None" by auto
      with True cron show ?thesis
        by (cases "cron_err (tr_cron tr)"; cases "zone_err ?tz"; cases ?rest)
          (simp_all add: Let_def trigger_ok_def)
    qed
    with IH True show ?thesis by auto
  qed
qed

definition doc_ok ::
  "(string \<Rightarrow> string option) \<Rightarrow> (string \<Rightarrow> string option) \<Rightarrow> wf_config \<Rightarrow> workflow_doc \<Rightarrow> bool" where
  "doc_ok cron_err zone_err cfg doc \<longleftrightarrow>
     slug_match (doc_id doc) \<and> doc_name doc \<noteq> [] \<and> doc_steps doc \<noteq> []
   \<and> tree_ok cfg (visited 0 (doc_steps doc))
   \<and> distinct (step_ids (doc_steps doc))
   \<and> (\<forall>tr \<in> set (doc_triggers doc). trigger_ok cron_err zone_err (step_ids (doc_steps doc)) tr)
   \<and> distinct (map tr_id (doc_triggers doc))
   \<and> (\<forall>(k, e) \<in> set (doc_outputs doc). e \<noteq> [])"

lemma visited_depth_ge:
  "(d, s) \<in> set (visited d0 ss) \<Longrightarrow> d0 \<le> d"
  "(d, s) \<in> set (visited_kids d0 t) \<Longrightarrow> d0 \<le> d"
  "(d, s) \<in> set (visited_branches d0 bs) \<Longrightarrow> d0 \<le> d"
  by (induction d0 ss and d0 t and d0 bs rule: visited_visited_kids_visited_branches.induct)
    (fastforce simp: visited_kids.simps split: node_kind.splits)+

lemma step_ids_eq: "step_ids ss = ids_of (visited 0 ss)"
  by (simp add: step_ids_def ids_of_def)

lemma trigger_ok_set: "set a = set b \<Longrightarrow> trigger_ok ce ze a tr = trigger_ok ce ze b tr"
  by (simp add: trigger_ok_def)

lemma validate_doc_ok_iff:
  "(\<exists>doc'. validate_doc cron_err zone_err (Some doc) cfg = Inr doc') \<longleftrightarrow>
     doc_ok cron_err zone_err cfg doc"
proof (cases "slug_match (doc_id doc) \<and> doc_name doc \<noteq> [] \<and> doc_steps doc \<noteq> []")
  case False
  then show ?thesis by (auto simp: validate_doc_def doc_ok_def)
next
  case True
  let ?vs = "visited 0 (doc_steps doc)"
  have seen: "validate_steps cfg 0 (doc_steps doc) [] = Inr seen \<longleftrightarrow>
      tree_ok cfg ?vs \<and> distinct (ids_of ?vs) \<and> seen = rev (ids_of ?vs)" for seen
    using validate_iff(1) [of "doc_steps doc" cfg 0 "[]" seen] True by (simp add: fresh_ids_def)
  have trig: "(\<exists>trs'. validate_triggers cron_err zone_err (rev (ids_of ?vs)) 0 [] (doc_triggers doc) = Inr trs') \<longleftrightarrow>
      (\<forall>tr \<in> set (doc_triggers doc). trigger_ok cron_err zone_err (ids_of ?vs) tr)
      \<and> distinct (map tr_id (doc_triggers doc))"
    by (simp add: validate_triggers_ok trigger_ok_set [of "rev (ids_of ?vs)" "ids_of ?vs"] fresh_ids_def)
  have outs: "first_error output_error (doc_outputs doc) = None \<longleftrightarrow>
      (\<forall>(k, e) \<in> set (doc_outputs doc). e \<noteq> [])"
    by (auto simp: output_error_def)
  have "(\<exists>doc'. validate_doc cron_err zone_err (Some doc) cfg = Inr doc') \<longleftrightarrow>
      tree_ok cfg ?vs \<and> distinct (ids_of ?vs)
      \<and> (\<exists>trs'. validate_triggers cron_err zone_err (rev (ids_of ?vs)) 0 [] (doc_triggers doc) = Inr trs')
      \<and> first_error output_error (doc_outputs doc) = None"
    using True by (auto simp: validate_doc_def on_ok_Inr_iff seen split: option.splits)
  then show ?thesis
    unfolding trig outs using True by (auto simp: doc_ok_def step_ids_eq)
qed

text \<open>
  C39. The validator accepts a parsed document exactly when it is well-formed: slug, name and a
  step present, every visited step locally well-shaped and nested no deeper than the bound,
  step ids unique over the whole tree, triggers well-formed with ids distinct from each other
  and from the step ids, outputs non-empty.
\<close>

theorem validate_doc_iff:
  "(\<exists>doc'. validate_doc cron_err zone_err (Some doc) cfg = Inr doc') \<longleftrightarrow>
     doc_ok cron_err zone_err cfg doc"
  by (rule validate_doc_ok_iff)

text \<open>
  C40. In a document that was parsed and validated, every step the engine can visit has exactly
  one node kind populated, the kind it was classified as, a policy of fail or continue if it is
  a tool step, a positive wait if it is a wait step, and a depth within the bound.
\<close>

theorem parsed_and_validated_steps:
  assumes "parse_doc unmarshal src = Inr doc"
    and "validate_doc cron_err zone_err (Some doc) cfg = Inr doc'"
    and "(d, s) \<in> set (visited 0 (doc_steps doc'))"
  shows "hits s = [st_kind s] \<and> st_kind s \<noteq> NodeNone \<and> 0 \<le> d \<and> d \<le> max_nesting_depth cfg
    \<and> (st_kind s = NodeTool \<longrightarrow> st_on_error s \<in> {on_error_fail, on_error_continue})
    \<and> (st_kind s = NodeWait \<longrightarrow> 0 < st_wait_dur s \<and> parse_duration (st_wait s) = Inr (st_wait_dur s))"
proof -
  have steps: "doc_steps doc' = doc_steps doc"
    using assms(2) by (auto simp: validate_doc_def on_ok_Inr_iff split: if_splits option.splits)
  obtain raw where "classify_steps 0 raw = Inr (doc_steps doc)"
    using assms(1) by (auto simp: parse_doc_def on_ok_Inr_iff split: sum.splits)
  then have "classified s"
    using classify_all(1) [of 0 raw "doc_steps doc" 0] assms(3) steps by auto
  moreover have "doc_ok cron_err zone_err cfg doc"
    using assms(2) validate_doc_ok_iff by blast
  then have "d \<le> max_nesting_depth cfg" "step_ok cfg s"
    using assms(3) steps by (auto simp: doc_ok_def tree_ok_def)
  moreover have "0 \<le> d" using visited_depth_ge(1) [OF assms(3)] .
  ultimately show ?thesis
    by (auto simp: classified_def step_ok_def)
qed

definition wait_step :: step where
  "wait_step = Step ''pause'' NodeNone [] None 0 [] [] [] [] [] [] [] [] [] [] ''1s'' 0"

definition wait_doc :: workflow_doc where
  "wait_doc = \<lparr>doc_id = ''demo'', doc_name = ''Demo'', doc_version = 1, doc_description = [],
     doc_inputs = [], doc_triggers = [], doc_steps = [wait_step], doc_outputs = []\<rparr>"

lemma parse_duration_1s: "parse_duration ''1s'' = Inr 1000000000"
proof -
  have "duration_group ''1s'' = Inr (1000000000, [])"
    by (simp add: duration_group_def is_digit_def digits_val_def digit_val_def unit_ns_def two63_def)
  then have "duration_groups 0 ''1s'' = Inr 1000000000"
    by (simp add: duration_groups.simps [of 0 "''1s''"] duration_groups.simps [of 1000000000 "[]"] two63_def)
  then show ?thesis
    by (simp add: parse_duration_def split_sign_def two63_def)
qed

lemma wait_doc_parsed:
  "parse_doc (\<lambda>_. Inr wait_doc) [] =
     Inr (wait_doc\<lparr>doc_steps := [with_class NodeWait 0 1000000000 [] wait_step]\<rparr>)"
proof -
  have "classify_step wait_step = Inr (with_class NodeWait 0 1000000000 [] wait_step)"
    by (simp add: classify_step_def wait_step_def hits_def parse_duration_1s)
  then have "classify_steps 0 [wait_step] = Inr [with_class NodeWait 0 1000000000 [] wait_step]"
    by (simp add: classify_children.simps)
  then show ?thesis by (simp add: parse_doc_def wait_doc_def)
qed

definition waited_doc :: workflow_doc where
  "waited_doc = wait_doc\<lparr>doc_steps := [with_class NodeWait 0 1000000000 [] wait_step]\<rparr>"

lemma waited_doc_valid:
  "validate_doc (\<lambda>_. None) (\<lambda>_. None) (Some waited_doc) default_config = Inr waited_doc"
proof -
  have "slug_match ''demo''" by (simp add: slug_match_def lower_alnum_def)
  moreover have "step_id_match ''pause''" by (simp add: step_id_match_def id_start_def)
  ultimately have "doc_ok (\<lambda>_. None) (\<lambda>_. None) default_config waited_doc"
    by (simp add: doc_ok_def waited_doc_def wait_doc_def step_ids_def visited_kids.simps step_ok_def
        default_config_def) (simp add: wait_step_def)
  then obtain doc' where v: "validate_doc (\<lambda>_. None) (\<lambda>_. None) (Some waited_doc) default_config = Inr doc'"
    using validate_doc_ok_iff by blast
  then have "doc' = waited_doc\<lparr>doc_triggers := []\<rparr>"
    by (auto simp: validate_doc_def on_ok_Inr_iff waited_doc_def wait_doc_def split: if_splits option.splits)
  then show ?thesis
    using v by (simp add: waited_doc_def wait_doc_def)
qed

theorem parsed_and_validated_steps_witness:
  "hits (with_class NodeWait 0 1000000000 [] wait_step) = [NodeWait]"
proof -
  have "(0, with_class NodeWait 0 1000000000 [] wait_step) \<in> set (visited 0 (doc_steps waited_doc))"
    by (simp add: waited_doc_def wait_doc_def)
  from parsed_and_validated_steps [OF wait_doc_parsed waited_doc_valid [unfolded waited_doc_def] this [unfolded waited_doc_def]]
  show ?thesis by simp
qed

end
