(* ===== verification/Json.thy ===== *)
theory Json
  imports Expr
begin

text \<open>
  What the program uses of \<open>encoding/json\<close>: documents as trees, and the passage between them
  and the values of \<open>expr\<close>.
\<close>

datatype json =
    JNull
  | JBool bool
  | JInt int
  | JFloat f64
  | JStr string
  | JArr "json list"
  | JObj "(string \<times> json) list"

text \<open>A \<open>json.RawMessage\<close>: empty, a JSON text (as its tree), or bytes that are not JSON.\<close>

datatype raw_message = RawEmpty | RawJson json | RawText string

text \<open>
  \<open>json.Marshal\<close> of a value; keys come out sorted. A value of another dynamic type is written
  by its own marshaller, of which only the printed form is kept.
\<close>

fun marshal :: "val \<Rightarrow> json result" and marshal_list :: "val list \<Rightarrow> json list result"
  and marshal_map :: "(string \<times> val) list \<Rightarrow> (string \<times> json) list result" where
  "marshal VNull = Inr JNull"
| "marshal (VBool b) = Inr (JBool b)"
| "marshal (VInt i) = Inr (JInt i)"
| "marshal (VInt64 i) = Inr (JInt i)"
| "marshal (VFloat f) = (case f of FFin _ _ _ \<Rightarrow> Inr (JFloat f)
     | _ \<Rightarrow> Inl (''json: unsupported value: '' @ sprint_f64 f))"
| "marshal (VStr s) = Inr (JStr s)"
| "marshal (VList vs) = on_ok (marshal_list vs) (\<lambda>js. Inr (JArr js))"
| "marshal (VStrs ss) = Inr (JArr (map JStr ss))"
| "marshal (VMap m) = on_ok (marshal_map m) (\<lambda>js. Inr (JObj (sort_key fst js)))"
| "marshal (VAnyMap m) = Inl ''json: unsupported type: map[interface {}]interface {}''"
| "marshal (VStep v e) = on_ok (marshal v) (\<lambda>j. Inr (JObj [(''Output'', j), (''Error'', JStr e)]))"
| "marshal (VOther t s) = Inr (JStr s)"
| "marshal_list [] = Inr []"
| "marshal_list (v # vs) = on_ok (marshal v) (\<lambda>j. on_ok (marshal_list vs) (\<lambda>js. Inr (j # js)))"
| "marshal_map [] = Inr []"
| "marshal_map ((k, v) # m) = on_ok (marshal v) (\<lambda>j. on_ok (marshal_map m) (\<lambda>js. Inr ((k, j) # js)))"

text \<open>\<open>json.Unmarshal\<close> into an \<open>any\<close>: every number becomes a float64.\<close>

fun unmarshal :: "json \<Rightarrow> val" where
  "unmarshal JNull = VNull"
| "unmarshal (JBool b) = VBool b"
| "unmarshal (JInt i) = VFloat (f64_of_int i)"
| "unmarshal (JFloat f) = VFloat f"
| "unmarshal (JStr s) = VStr s"
| "unmarshal (JArr js) = VList (map unmarshal js)"
| "unmarshal (JObj m) = VMap (map (\<lambda>(k, j). (k, unmarshal j)) m)"

definition raw_value :: "raw_message \<Rightarrow> val" where
  "raw_value r = (case r of RawEmpty \<Rightarrow> VNull | RawJson j \<Rightarrow> unmarshal j | RawText s \<Rightarrow> VStr s)"

section \<open>Texts\<close>

definition cont_byte :: "nat \<Rightarrow> nat \<Rightarrow> char \<Rightarrow> bool" where
  "cont_byte lo hi c \<longleftrightarrow> lo \<le> of_char c \<and> (of_char c :: nat) \<le> hi"

text \<open>The length of the UTF-8 sequence of two or more bytes at the head, if it is a valid one.\<close>

definition utf8_len :: "string \<Rightarrow> nat option" where
  "utf8_len s = (case map of_char (take 4 s) of
       [] \<Rightarrow> None
     | (b :: nat) # bs \<Rightarrow>
         let ok = (\<lambda>i lo hi. i < length s \<and> cont_byte lo hi (s ! i)) in
         if 0xC2 \<le> b \<and> b \<le> 0xDF then (if ok 1 0x80 0xBF then Some 2 else None)
         else if 0xE0 \<le> b \<and> b \<le> 0xEF then
           (if ok 1 (if b = 0xE0 then 0xA0 else 0x80) (if b = 0xED then 0x9F else 0xBF) \<and> ok 2 0x80 0xBF
            then Some 3 else None)
         else if 0xF0 \<le> b \<and> b \<le> 0xF4 then
           (if ok 1 (if b = 0xF0 then 0x90 else 0x80) (if b = 0xF4 then 0x8F else 0xBF)
               \<and> ok 2 0x80 0xBF \<and> ok 3 0x80 0xBF
            then Some 4 else None)
         else None)"

definition json_escape :: "char \<Rightarrow> string" where
  "json_escape c =
     (let n = of_char c :: nat in
      if n = 34 then [char_of (92::nat), c]
      else if n = 92 then [c, c]
      else if n = 8 then [char_of (92::nat), CHR ''b'']
      else if n = 12 then [char_of (92::nat), CHR ''f'']
      else if n = 10 then [char_of (92::nat), CHR ''n'']
      else if n = 13 then [char_of (92::nat), CHR ''r'']
      else if n = 9 then [char_of (92::nat), CHR ''t'']
      else if n < 32 \<or> n = 60 \<or> n = 62 \<or> n = 38 then
        char_of (92::nat) # ''u00'' @ [hex_digit (n div 16), hex_digit (n mod 16)]
      else [c])"

fun json_chars :: "string \<Rightarrow> string" where
  "json_chars [] = []"
| "json_chars (c # cs) =
     (if (of_char c :: nat) < 128 then json_escape c @ json_chars cs
      else case utf8_len (c # cs) of
        None \<Rightarrow> char_of (92::nat) # ''ufffd'' @ json_chars cs
      | Some n \<Rightarrow>
          (if map of_char (take n (c # cs)) = [0xE2, 0x80, 0xA8 :: nat] then char_of (92::nat) # ''u2028''
           else if map of_char (take n (c # cs)) = [0xE2, 0x80, 0xA9 :: nat] then char_of (92::nat) # ''u2029''
           else take n (c # cs)) @ json_chars (drop (n - 1) cs))"

definition json_string :: "string \<Rightarrow> string" where
  "json_string s = char_of (34::nat) # json_chars s @ [char_of (34::nat)]"

text \<open>The shortest digits of a finite float, in decimal notation between \<open>1e-6\<close> and \<open>1e21\<close>.\<close>

definition json_f64 :: "f64 \<Rightarrow> string" where
  "json_f64 f = (case f of
       FFin neg m e \<Rightarrow>
        (if neg then ''-'' else []) @
        (if m = 0 then ''0''
         else
          (let p = (if e \<ge> 0 then m * 2 ^ nat e else m);
               q = (if e \<ge> 0 then 1 else 2 ^ nat (- e));
               (N, dp) = shortest_from 17 p q (dec_point p q) m e;
               ds = show_nat N; nd = int (length ds); ex = dp - 1
           in if ex < - 6 \<or> ex \<ge> 21 then
                [hd ds] @ (if tl ds = [] then [] else CHR ''.'' # tl ds) @ ''e''
                  @ (if ex < 0 then ''-'' else ''+'') @ show_nat (nat \<bar>ex\<bar>)
              else if dp \<le> 0 then ''0.'' @ replicate (nat (- dp)) (CHR ''0'') @ ds
              else if nd \<le> dp then ds @ replicate (nat (dp - nd)) (CHR ''0'')
              else take (nat dp) ds @ ''.'' @ drop (nat dp) ds))
     | _ \<Rightarrow> [])"

fun json_text :: "json \<Rightarrow> string" where
  "json_text JNull = ''null''"
| "json_text (JBool b) = (if b then ''true'' else ''false'')"
| "json_text (JInt i) = show_int i"
| "json_text (JFloat f) = json_f64 f"
| "json_text (JStr s) = json_string s"
| "json_text (JArr js) = ''['' @ join_with '','' (map json_text js) @ '']''"
| "json_text (JObj m) =
     ''{'' @ join_with '','' (map (\<lambda>(k, j). json_string k @ '':'' @ json_text j) m) @ ''}''"

text \<open>
  A document that was written and read again: invalid bytes of its strings have become the
  replacement character.
\<close>

fun clean_utf8 :: "string \<Rightarrow> string" where
  "clean_utf8 [] = []"
| "clean_utf8 (c # cs) =
     (if (of_char c :: nat) < 128 then c # clean_utf8 cs
      else case utf8_len (c # cs) of
        None \<Rightarrow> [char_of (0xEF::nat), char_of (0xBF::nat), char_of (0xBD::nat)] @ clean_utf8 cs
      | Some n \<Rightarrow> take n (c # cs) @ clean_utf8 (drop (n - 1) cs))"

fun reread :: "json \<Rightarrow> json" where
  "reread (JStr s) = JStr (clean_utf8 s)"
| "reread (JArr js) = JArr (map reread js)"
| "reread (JObj m) = JObj (fold (\<lambda>(k, j). AList.update (clean_utf8 k) j) (map (\<lambda>(k, j). (k, reread j)) m) [])"
| "reread j = j"

end
