(* ===== verification/WfEngine.thy ===== *)
theory WfEngine
  imports WfValidate Json
begin

text \<open>
  The executor, \<open>src/internal/workflow/engine.go\<close>, as a machine whose threads are the
  goroutines of \<open>runParallel\<close>. A thread is a stack of frames, one per active Go call
  (\<open>runSteps\<close>, \<open>runStep\<close>, \<open>runForeach\<close>, ...); one machine step is one action of one goroutine
  on the shared run state, chosen by a path through the nested parallel blocks, together with
  what the environment answers at that moment (the state of the context, the outcome of the
  tool call, whether a timer fires). Quantifying over schedules covers every interleaving and
  every behaviour of the tools. The arguments of one tool step are resolved in one action.
\<close>

section \<open>Run state\<close>

datatype ctx_err = Canceled | DeadlineExceeded

datatype engine_err = ErrText string | ErrMaxSteps | ErrCtx ctx_err

fun err_text :: "engine_err \<Rightarrow> string" where
  "err_text (ErrText s) = s"
| "err_text ErrMaxSteps = ''workflow: max steps exceeded''"
| "err_text (ErrCtx Canceled) = ''context canceled''"
| "err_text (ErrCtx DeadlineExceeded) = ''context deadline exceeded''"

record exec_input =
  ex_slug :: string
  ex_inputs :: "(string, val) gomap"
  ex_dry_run :: bool
  ex_events :: bool

text \<open>
  What a run does outside its own state: a leaf step passes the step cap, a tool is called
  (with the timeout of its context), a step event is delivered.
\<close>

datatype obs =
    OLeaf string
  | OInvoke string string json int
  | OStart string node_kind string
  | OComplete string node_kind string "string option" "val option"

record run_state =
  rs_inputs :: "(string, val) gomap"
  rs_vars :: "(string, val) gomap"
  rs_steps :: "(string, step_result) gomap"
  rs_count :: int
  rs_log :: "obs list"

record engine =
  en_cfg :: wf_config
  en_mutating :: "string \<Rightarrow> bool"
  en_in :: exec_input

definition new_engine_config :: "wf_config \<Rightarrow> wf_config" where
  "new_engine_config cfg = (if max_steps cfg = 0 then default_config else cfg)"

definition declared_inputs ::
  "(string, input_spec) gomap \<Rightarrow> (string, val) gomap \<Rightarrow> (string, val) gomap" where
  "declared_inputs specs given =
     fold (\<lambda>(k, spec) out.
        case map_of given k of
          Some v \<Rightarrow> AList.update k v out
        | None \<Rightarrow> if in_default spec \<noteq> VNull then AList.update k (in_default spec) out else out)
       specs []"

definition materialize_inputs ::
  "(string, input_spec) gomap \<Rightarrow> (string, val) gomap \<Rightarrow> (string, val) gomap" where
  "materialize_inputs specs given =
     fold (\<lambda>(k, v) out. case map_of out k of Some _ \<Rightarrow> out | None \<Rightarrow> AList.update k v out)
       given (declared_inputs specs given)"

definition new_run_state :: "workflow_doc \<Rightarrow> exec_input \<Rightarrow> run_state" where
  "new_run_state doc inp =
     \<lparr>rs_inputs = materialize_inputs (doc_inputs doc) (ex_inputs inp), rs_vars = [], rs_steps = [],
      rs_count = 0, rs_log = []\<rparr>"

definition scope_of :: "run_state \<Rightarrow> scope" where
  "scope_of st = \<lparr>sc_inputs = rs_inputs st, sc_vars = rs_vars st, sc_steps = rs_steps st\<rparr>"

definition resolve_st :: "run_state \<Rightarrow> string \<Rightarrow> val result" where
  "resolve_st st tmpl = resolve tmpl (scope_of st)"

fun resolve_any :: "scope \<Rightarrow> val \<Rightarrow> val result"
  and resolve_args :: "scope \<Rightarrow> (string \<times> val) list \<Rightarrow> (string \<times> val) list result"
  and resolve_any_map :: "scope \<Rightarrow> (val \<times> val) list \<Rightarrow> (string \<times> val) list \<Rightarrow> (string \<times> val) list result"
  and resolve_items :: "scope \<Rightarrow> val list \<Rightarrow> val list result" where
  "resolve_any sc (VStr s) = resolve s sc"
| "resolve_any sc (VMap m) = on_ok (resolve_args sc m) (\<lambda>r. Inr (VMap r))"
| "resolve_any sc (VAnyMap m) = on_ok (resolve_any_map sc m []) (\<lambda>r. Inr (VMap r))"
| "resolve_any sc (VList vs) = on_ok (resolve_items sc vs) (\<lambda>r. Inr (VList r))"
| "resolve_any sc v = Inr v"
| "resolve_args sc [] = Inr []"
| "resolve_args sc ((k, v) # m) =
     (case resolve_any sc v of
        Inl e \<Rightarrow> Inl (''args.'' @ k @ '': '' @ e)
      | Inr rv \<Rightarrow> on_ok (resolve_args sc m) (\<lambda>r. Inr ((k, rv) # r)))"
| "resolve_any_map sc [] out = Inr out"
| "resolve_any_map sc ((k, v) # m) out =
     on_ok (resolve_any sc v) (\<lambda>rv.
       resolve_any_map sc m (AList.update (case k of VStr s \<Rightarrow> s | _ \<Rightarrow> sprint k) rv out))"
| "resolve_items sc [] = Inr []"
| "resolve_items sc (v # vs) =
     on_ok (resolve_any sc v) (\<lambda>rv. on_ok (resolve_items sc vs) (\<lambda>r. Inr (rv # r)))"

fun resolve_outputs :: "run_state \<Rightarrow> (string \<times> string) list \<Rightarrow> (string \<times> val) list result" where
  "resolve_outputs st [] = Inr []"
| "resolve_outputs st ((k, tmpl) # outs) =
     (case resolve_st st tmpl of
        Inl e \<Rightarrow> Inl (''outputs.'' @ k @ '': '' @ e)
      | Inr v \<Rightarrow> on_ok (resolve_outputs st outs) (\<lambda>r. Inr ((k, v) # r)))"

definition set_var :: "string \<Rightarrow> val \<Rightarrow> run_state \<Rightarrow> run_state" where
  "set_var k v st = st\<lparr>rs_vars := AList.update k v (rs_vars st)\<rparr>"

definition set_step_result :: "string \<Rightarrow> step_result \<Rightarrow> run_state \<Rightarrow> run_state" where
  "set_step_result sid r st = st\<lparr>rs_steps := AList.update sid r (rs_steps st)\<rparr>"

definition log_obs :: "obs \<Rightarrow> run_state \<Rightarrow> run_state" where
  "log_obs ob st = st\<lparr>rs_log := ob # rs_log st\<rparr>"

definition is_leaf_kind :: "node_kind \<Rightarrow> bool" where
  "is_leaf_kind k \<longleftrightarrow> k = NodeTool \<or> k = NodeAssign \<or> k = NodeWait"

text \<open>\<open>incSteps\<close>: the counter, and whether it is still within the cap.\<close>

definition inc_steps :: "wf_config \<Rightarrow> run_state \<Rightarrow> run_state \<times> bool" where
  "inc_steps cfg st = (st\<lparr>rs_count := rs_count st + 1\<rparr>, rs_count st + 1 \<le> max_steps cfg)"

fun to_list :: "val \<Rightarrow> val list option" where
  "to_list (VList vs) = Some vs"
| "to_list (VStrs ss) = Some (map VStr ss)"
| "to_list _ = None"

section \<open>Threads\<close>

datatype frame =
    FSteps "step list"
  | FEnter step
  | FTool step
  | FCall step
  | FAssign step "(string \<times> string) list"
  | FIf step
  | FForeach step
  | FItems step "val list"
  | FPar step "thread list" "(engine_err \<times> ctx_err) option"
  | FWait step
  | FDone step
and thread = Thread (th_err: "engine_err option") (th_frames: "frame list")

definition finished :: "thread \<Rightarrow> bool" where
  "finished th \<longleftrightarrow> th_frames th = []"

text \<open>
  What the environment answers to one action: the error of the run's context, if it is done;
  the outcome of a tool call; whether a timer has fired; whether the receiver of step events
  takes the event before the two seconds are over.
\<close>

record env_in =
  ei_ctx :: "ctx_err option"
  ei_tool :: "raw_message result"
  ei_fires :: bool
  ei_accept :: bool

definition emit :: "engine \<Rightarrow> env_in \<Rightarrow> obs \<Rightarrow> run_state \<Rightarrow> run_state" where
  "emit en inp ob st = (if ex_events (en_in en) \<and> ei_accept inp then log_obs ob st else st)"

definition emit_step_complete ::
  "engine \<Rightarrow> env_in \<Rightarrow> step \<Rightarrow> engine_err option \<Rightarrow> run_state \<Rightarrow> run_state" where
  "emit_step_complete en inp s err st =
     emit en inp
       (OComplete (st_id s) (st_kind s) (st_use s) (map_option err_text err)
         (case err of
            Some _ \<Rightarrow> None
          | None \<Rightarrow> map_option sr_output (map_of (rs_steps st) (st_id s)))) st"

text \<open>\<open>recordStepErr\<close>: the error goes into the step record; \<open>continue\<close> stops it there.\<close>

definition record_step_err :: "step \<Rightarrow> string \<Rightarrow> run_state \<Rightarrow> engine_err option \<times> run_state" where
  "record_step_err s e st =
     (if st_on_error s = on_error_continue then None else Some (ErrText e),
      set_step_result (st_id s) \<lparr>sr_output = VNull, sr_error = e\<rparr> st)"

definition fail_step :: "step \<Rightarrow> string \<Rightarrow> frame list \<Rightarrow> run_state \<Rightarrow> thread \<times> run_state" where
  "fail_step s e fs st = (let (err, st') = record_step_err s e st in (Thread err fs, st'))"

text \<open>\<open>runStep\<close> up to the dispatch on the kind: cap, start event, frame of the node.\<close>

definition body_frame :: "step \<Rightarrow> frame option" where
  "body_frame s = (case st_kind s of
       NodeTool \<Rightarrow> Some (FTool s)
     | NodeAssign \<Rightarrow> Some (FAssign s (st_assign s))
     | NodeIf \<Rightarrow> Some (FIf s)
     | NodeForeach \<Rightarrow> Some (FForeach s)
     | NodeParallel \<Rightarrow> Some (FPar s (map (\<lambda>b. Thread None [FSteps b]) (st_parallel s)) None)
     | NodeWait \<Rightarrow> Some (FWait s)
     | NodeNone \<Rightarrow> None)"

definition enter_step :: "engine \<Rightarrow> env_in \<Rightarrow> step \<Rightarrow> frame list \<Rightarrow> run_state \<Rightarrow> thread \<times> run_state" where
  "enter_step en inp s fs st =
     (let leaf = is_leaf_kind (st_kind s);
          (st1, ok) = (if leaf then inc_steps (en_cfg en) st else (st, True))
      in if \<not> ok then (Thread (Some ErrMaxSteps) fs, st1)
         else
           let st2 = (if leaf then log_obs (OLeaf (st_id s)) st1 else st1);
               st3 = emit en inp (OStart (st_id s) (st_kind s) (st_use s)) st2
           in case body_frame s of
                Some f \<Rightarrow> (Thread None (f # FDone s # fs), st3)
              | None \<Rightarrow>
                  (Thread (Some (ErrText (''step '' @ st_id s @ '': unknown kind '' @
                     quote (kind_text (st_kind s))))) (FDone s # fs), st3))"

text \<open>\<open>runTool\<close> up to the call, and after it.\<close>

definition tool_args :: "step \<Rightarrow> run_state \<Rightarrow> val result" where
  "tool_args s st = (case st_args s of
       None \<Rightarrow> Inr VNull
     | Some args \<Rightarrow> on_ok (resolve_args (scope_of st) args) (\<lambda>r. Inr (VMap r)))"

definition run_tool :: "engine \<Rightarrow> step \<Rightarrow> frame list \<Rightarrow> run_state \<Rightarrow> thread \<times> run_state" where
  "run_tool en s fs st =
     (case tool_args s st of
        Inl e \<Rightarrow> fail_step s (''step '' @ st_id s @ '': '' @ e) fs st
      | Inr args \<Rightarrow>
          if ex_dry_run (en_in en) \<and> en_mutating en (st_use s) then
            (Thread None fs,
             set_step_result (st_id s)
               \<lparr>sr_output = VMap [(''dry_run'', VBool True), (''tool'', VStr (st_use s)), (''input'', args)],
                sr_error = []\<rparr> st)
          else
            (case marshal args of
               Inl e \<Rightarrow> fail_step s (''step '' @ st_id s @ '': marshal args: '' @ e) fs st
             | Inr j \<Rightarrow>
                 (Thread None (FCall s # fs),
                  log_obs (OInvoke (st_id s) (st_use s) j
                    (if st_timeout s = 0 then default_step_timeout (en_cfg en) else st_timeout s)) st)))"

definition tool_return :: "env_in \<Rightarrow> step \<Rightarrow> frame list \<Rightarrow> run_state \<Rightarrow> thread \<times> run_state" where
  "tool_return inp s fs st =
     (case ei_tool inp of
        Inl e \<Rightarrow> fail_step s (''step '' @ st_id s @ '': '' @ e) fs st
      | Inr out \<Rightarrow>
          (Thread None fs, set_step_result (st_id s) \<lparr>sr_output = raw_value out, sr_error = []\<rparr> st))"

definition run_assign ::
  "step \<Rightarrow> string \<Rightarrow> string \<Rightarrow> (string \<times> string) list \<Rightarrow> frame list \<Rightarrow> run_state \<Rightarrow> thread \<times> run_state" where
  "run_assign s k e bs fs st =
     (case resolve_st st e of
        Inl err \<Rightarrow> (Thread (Some (ErrText (''step '' @ st_id s @ ''.assign.'' @ k @ '': '' @ err))) fs, st)
      | Inr v \<Rightarrow> (Thread None (FAssign s bs # fs), set_var k v st))"

definition run_if :: "step \<Rightarrow> frame list \<Rightarrow> run_state \<Rightarrow> thread \<times> run_state" where
  "run_if s fs st =
     (case resolve_st st (st_if s) of
        Inl err \<Rightarrow> (Thread (Some (ErrText (''step '' @ st_id s @ ''.if: '' @ err))) fs, st)
      | Inr v \<Rightarrow> (Thread None (FSteps (if truthy v then st_then s else st_else s) # fs), st))"

definition run_foreach :: "step \<Rightarrow> frame list \<Rightarrow> run_state \<Rightarrow> thread \<times> run_state" where
  "run_foreach s fs st =
     (case resolve_st st (st_foreach s) of
        Inl err \<Rightarrow> (Thread (Some (ErrText (''step '' @ st_id s @ ''.foreach: '' @ err))) fs, st)
      | Inr v \<Rightarrow>
          (case to_list v of
             None \<Rightarrow> (Thread (Some (ErrText (''step '' @ st_id s @ ''.foreach: expected list, got '' @
                       type_name v))) fs, st)
           | Some items \<Rightarrow> (Thread None (FItems s items # fs), st)))"

text \<open>
  One action of the goroutine on top of whose stack \<open>f\<close> lies; \<open>None\<close> when it cannot move: a
  parallel block with a running branch, a timer that has not fired.
\<close>

definition run_frame ::
  "engine \<Rightarrow> ctx_err option \<Rightarrow> env_in \<Rightarrow> frame \<Rightarrow> frame list \<Rightarrow> run_state \<Rightarrow> (thread \<times> run_state) option" where
  "run_frame en ctx inp f fs st =
     (case f of
        FSteps [] \<Rightarrow> Some (Thread None fs, st)
      | FSteps (s # ss) \<Rightarrow>
          (case ctx of
             Some c \<Rightarrow> Some (Thread (Some (ErrCtx c)) fs, st)
           | None \<Rightarrow> Some (Thread None (FEnter s # FSteps ss # fs), st))
      | FEnter s \<Rightarrow> Some (enter_step en inp s fs st)
      | FTool s \<Rightarrow> Some (run_tool en s fs st)
      | FCall s \<Rightarrow> Some (tool_return inp s fs st)
      | FAssign s [] \<Rightarrow> Some (Thread None fs, st)
      | FAssign s ((k, e) # bs) \<Rightarrow> Some (run_assign s k e bs fs st)
      | FIf s \<Rightarrow> Some (run_if s fs st)
      | FForeach s \<Rightarrow> Some (run_foreach s fs st)
      | FItems s [] \<Rightarrow> Some (Thread None fs, st)
      | FItems s (x # xs) \<Rightarrow>
          (case ctx of
             Some c \<Rightarrow> Some (Thread (Some (ErrCtx c)) fs, st)
           | None \<Rightarrow> Some (Thread None (FSteps (st_steps s) # FItems s xs # fs), set_var (st_as s) x st))
      | FPar s ths ferr \<Rightarrow> if list_all finished ths then Some (Thread (map_option fst ferr) fs, st) else None
      | FWait s \<Rightarrow>
          if ei_fires inp then Some (Thread None fs, st)
          else (case ctx of Some c \<Rightarrow> Some (Thread (Some (ErrCtx c)) fs, st) | None \<Rightarrow> None)
      | FDone s \<Rightarrow> Some (Thread None fs, emit_step_complete en inp s None st))"

text \<open>An error leaves the calls one by one; \<open>runStep\<close> reports it as the step's completion.\<close>

definition unwind_frame ::
  "engine \<Rightarrow> env_in \<Rightarrow> engine_err \<Rightarrow> frame \<Rightarrow> frame list \<Rightarrow> run_state \<Rightarrow> thread \<times> run_state" where
  "unwind_frame en inp e f fs st =
     (Thread (Some e) fs, case f of FDone s \<Rightarrow> emit_step_complete en inp s (Some e) st | _ \<Rightarrow> st)"

text \<open>
  \<open>errgroup\<close>: the branches run under the group's context, which is done when the context around
  the block is, or cancelled when the first branch has failed; that first error is kept, with
  what the group's context reports from then on.
\<close>

definition branch_ctx :: "ctx_err option \<Rightarrow> (engine_err \<times> ctx_err) option \<Rightarrow> ctx_err option" where
  "branch_ctx ctx ferr = (case ferr of None \<Rightarrow> ctx | Some (e, c) \<Rightarrow> Some c)"

definition group_err ::
  "ctx_err option \<Rightarrow> (engine_err \<times> ctx_err) option \<Rightarrow> engine_err option \<Rightarrow> (engine_err \<times> ctx_err) option" where
  "group_err ctx ferr err =
     (case (ferr, err) of
        (None, Some e) \<Rightarrow> Some (e, case ctx of Some c \<Rightarrow> c | None \<Rightarrow> Canceled)
      | _ \<Rightarrow> ferr)"

text \<open>The thread at \<open>path\<close> moves.\<close>

fun thread_step ::
  "engine \<Rightarrow> ctx_err option \<Rightarrow> env_in \<Rightarrow> nat list \<Rightarrow> thread \<Rightarrow> run_state \<Rightarrow> (thread \<times> run_state) option" where
  "thread_step en ctx inp [] (Thread err []) st = None"
| "thread_step en ctx inp [] (Thread (Some e) (f # fs)) st = Some (unwind_frame en inp e f fs st)"
| "thread_step en ctx inp [] (Thread None (f # fs)) st = run_frame en ctx inp f fs st"
| "thread_step en ctx inp (i # p) (Thread err fs) st =
     (case (err, fs) of
        (None, FPar s ths ferr # fs') \<Rightarrow>
          if i < length ths then
            (case thread_step en (branch_ctx ctx ferr) inp p (ths ! i) st of
               None \<Rightarrow> None
             | Some (t, st') \<Rightarrow>
                 Some (Thread None (FPar s (ths[i := t])
                   (if finished t then group_err ctx ferr (th_err t) else ferr) # fs'), st'))
          else None
      | _ \<Rightarrow> None)"

type_synonym conf = "thread \<times> run_state"
type_synonym schedule = "(nat list \<times> env_in) list"

definition conf_step :: "engine \<Rightarrow> nat list \<times> env_in \<Rightarrow> conf \<Rightarrow> conf option" where
  "conf_step en a c = thread_step en (ei_ctx (snd a)) (snd a) (fst a) (fst c) (snd c)"

definition start_conf :: "engine \<Rightarrow> workflow_doc \<Rightarrow> conf" where
  "start_conf en doc = (Thread None [FSteps (doc_steps doc)], new_run_state doc (en_in en))"

fun run_schedule :: "engine \<Rightarrow> schedule \<Rightarrow> conf \<Rightarrow> conf option" where
  "run_schedule en [] c = Some c"
| "run_schedule en (a # sched) c =
     (case conf_step en a c of None \<Rightarrow> None | Some c' \<Rightarrow> run_schedule en sched c')"

section \<open>Execute\<close>

record exec_result =
  xr_outputs :: "(string, val) gomap option"
  xr_status :: run_status
  xr_error :: string
  xr_steps :: int

text \<open>The result \<open>Execute\<close> builds from the error of \<open>runSteps\<close>; \<open>parent\<close> is the caller's context.\<close>

definition exec_result_of ::
  "workflow_doc \<Rightarrow> ctx_err option \<Rightarrow> engine_err option \<Rightarrow> run_state \<Rightarrow> exec_result" where
  "exec_result_of doc parent err st =
     (case err of
        None \<Rightarrow>
          (if doc_outputs doc = []
           then \<lparr>xr_outputs = None, xr_status = StatusOK, xr_error = [], xr_steps = rs_count st\<rparr>
           else case resolve_outputs st (doc_outputs doc) of
               Inl e \<Rightarrow> \<lparr>xr_outputs = None, xr_status = StatusFailed, xr_error = ''outputs: '' @ e,
                         xr_steps = rs_count st\<rparr>
             | Inr outs \<Rightarrow> \<lparr>xr_outputs = Some outs, xr_status = StatusOK, xr_error = [],
                            xr_steps = rs_count st\<rparr>)
      | Some e \<Rightarrow>
          \<lparr>xr_outputs = None,
           xr_status = (if e = ErrMaxSteps then StatusMaxSteps
                        else case parent of
                            Some DeadlineExceeded \<Rightarrow> StatusTimeout
                          | Some Canceled \<Rightarrow> StatusCancelled
                          | None \<Rightarrow> StatusFailed),
           xr_error = err_text e, xr_steps = rs_count st\<rparr>)"

definition execute ::
  "engine \<Rightarrow> workflow_doc option \<Rightarrow> schedule \<Rightarrow> ctx_err option \<Rightarrow> exec_result option" where
  "execute en mdoc sched parent =
     (case mdoc of
        None \<Rightarrow> Some \<lparr>xr_outputs = None, xr_status = StatusFailed, xr_error = ''nil doc'', xr_steps = 0\<rparr>
      | Some doc \<Rightarrow>
          (case run_schedule en sched (start_conf en doc) of
             None \<Rightarrow> None
           | Some (th, st) \<Rightarrow>
               if finished th then Some (exec_result_of doc parent (th_err th) st) else None))"

end
