(* ===== verification/WfRuns.thy ===== *)
theory WfRuns
  imports WfEngine
begin

text \<open>
  What holds of every run of the workflow machine, under every schedule and every behaviour of
  the tools: an interface for invariants of runs, its instances for the step cap, for the calls
  a run may make and for \<open>on_error: continue\<close>, and termination with progress.
\<close>

section \<open>The steps of a tree\<close>

definition subs :: "step list \<Rightarrow> step list" where
  "subs ss = map snd (visited 0 ss)"

lemma snd_visited:
  "map snd (visited d ss) = map snd (visited e ss)"
  "map snd (visited_kids d s) = map snd (visited_kids e s)"
  "map snd (visited_branches d bs) = map snd (visited_branches e bs)"
proof (induction d ss and d s and d bs arbitrary: e and e and e
    rule: visited_visited_kids_visited_branches.induct)
  case (3 d s)
  show ?case
    using "3.IH" [of "e + 1"] by (cases "st_kind s") (simp_all add: visited_kids.simps)
next
  case (2 d s ss)
  show ?case
    using "2.IH" [of e] by simp
next
  case (5 d b bs)
  show ?case
    using "5.IH" [of e] by simp
qed simp_all

definition kids :: "step \<Rightarrow> step list" where
  "kids s = (case st_kind s of
       NodeIf \<Rightarrow> st_then s @ st_else s | NodeForeach \<Rightarrow> st_steps s
     | NodeParallel \<Rightarrow> concat (st_parallel s) | _ \<Rightarrow> [])"

lemma subs_Nil [simp]: "subs [] = []"
  by (simp add: subs_def)

lemma subs_append [simp]: "subs (xs @ ys) = subs xs @ subs ys"
proof (induction xs)
  case (Cons x xs)
  then show ?case by (simp add: subs_def)
qed simp

lemma snd_visited_branches: "map snd (visited_branches d bs) = subs (concat bs)"
proof (induction bs)
  case (Cons b bs)
  then show ?case using snd_visited(1) [of d b 0] by (simp add: subs_def [of b])
qed simp

lemma subs_Cons: "subs (s # ss) = s # subs (kids s) @ subs ss"
proof -
  have "map snd (visited_kids 0 s) = subs (kids s)"
    using snd_visited(1) [of 1 _ 0]
    by (cases "st_kind s") (simp_all add: visited_kids.simps kids_def subs_def snd_visited_branches
        flip: subs_append [unfolded subs_def])
  then show ?thesis
    by (simp add: subs_def)
qed

text \<open>A property of every step of a tree.\<close>

definition all_steps :: "(step \<Rightarrow> bool) \<Rightarrow> step list \<Rightarrow> bool" where
  "all_steps P ss \<longleftrightarrow> list_all P (subs ss)"

lemma all_steps_simps [simp]:
  "all_steps P []"
  "all_steps P (s # ss) \<longleftrightarrow> P s \<and> all_steps P (kids s) \<and> all_steps P ss"
  "all_steps P (xs @ ys) \<longleftrightarrow> all_steps P xs \<and> all_steps P ys"
  by (auto simp: all_steps_def subs_Cons)

lemma all_steps_concat: "all_steps P (concat bs) \<longleftrightarrow> (\<forall>b \<in> set bs. all_steps P b)"
  by (induction bs) auto

section \<open>An interface for invariants of runs\<close>

text \<open>
  \<open>frame_ok P E f\<close>: the frame sits on a step of its kind, every step it can still reach has
  \<open>P\<close>, and every error it holds has \<open>E\<close>.
\<close>

definition step_ok_for :: "(step \<Rightarrow> bool) \<Rightarrow> node_kind \<Rightarrow> step \<Rightarrow> bool" where
  "step_ok_for P k s \<longleftrightarrow> all_steps P [s] \<and> st_kind s = k"

fun frame_ok :: "(step \<Rightarrow> bool) \<Rightarrow> (engine_err \<Rightarrow> bool) \<Rightarrow> frame \<Rightarrow> bool"
  and thread_ok :: "(step \<Rightarrow> bool) \<Rightarrow> (engine_err \<Rightarrow> bool) \<Rightarrow> thread \<Rightarrow> bool" where
  "frame_ok P E (FSteps ss) \<longleftrightarrow> all_steps P ss"
| "frame_ok P E (FEnter s) \<longleftrightarrow> all_steps P [s]"
| "frame_ok P E (FTool s) \<longleftrightarrow> step_ok_for P NodeTool s"
| "frame_ok P E (FCall s) \<longleftrightarrow> step_ok_for P NodeTool s"
| "frame_ok P E (FAssign s bs) \<longleftrightarrow> step_ok_for P NodeAssign s"
| "frame_ok P E (FIf s) \<longleftrightarrow> step_ok_for P NodeIf s"
| "frame_ok P E (FForeach s) \<longleftrightarrow> step_ok_for P NodeForeach s"
| "frame_ok P E (FItems s xs) \<longleftrightarrow> step_ok_for P NodeForeach s"
| "frame_ok P E (FPar s ths ferr) \<longleftrightarrow>
     step_ok_for P NodeParallel s \<and> list_all (thread_ok P E) ths \<and> pred_option (E \<circ> fst) ferr"
| "frame_ok P E (FWait s) \<longleftrightarrow> step_ok_for P NodeWait s"
| "frame_ok P E (FDone s) \<longleftrightarrow> all_steps P [s]"
| "thread_ok P E (Thread err fs) \<longleftrightarrow> pred_option E err \<and> list_all (frame_ok P E) fs"

text \<open>
  The interface: laws of the step predicate \<open>P\<close>, the error predicate \<open>E\<close> and the state
  predicate \<open>I\<close> under the machine's primitive actions; what follows for every run.
\<close>

locale run_invariant =
  fixes en :: engine
    and P :: "step \<Rightarrow> bool"
    and E :: "engine_err \<Rightarrow> bool"
    and I :: "run_state \<Rightarrow> bool"
  assumes inv_set_var: "I st \<Longrightarrow> I (set_var k v st)"
    and inv_set_step: "I st \<Longrightarrow> I (set_step_result i r st)"
    and inv_start_event: "I st \<Longrightarrow> I (log_obs (OStart i nk u) st)"
    and inv_complete_event: "I st \<Longrightarrow> I (log_obs (OComplete i nk u em ov) st)"
    and inv_leaf: "I st \<Longrightarrow> P s \<Longrightarrow> inc_steps (en_cfg en) st = (st', True) \<Longrightarrow> I (log_obs (OLeaf (st_id s)) st')"
    and inv_capped: "I st \<Longrightarrow> inc_steps (en_cfg en) st = (st', False) \<Longrightarrow> I st'"
    and inv_invoke: "I st \<Longrightarrow> P s \<Longrightarrow> st_kind s = NodeTool \<Longrightarrow>
      \<not> (ex_dry_run (en_in en) \<and> en_mutating en (st_use s)) \<Longrightarrow>
      I (log_obs (OInvoke (st_id s) (st_use s) j
           (if st_timeout s = 0 then default_step_timeout (en_cfg en) else st_timeout s)) st)"
    and err_max_steps: "E ErrMaxSteps"
    and err_ctx: "E (ErrCtx c)"
    and err_no_kind: "P s \<Longrightarrow> st_kind s = NodeNone \<Longrightarrow> E (ErrText e)"
    and err_node: "P s \<Longrightarrow> st_kind s \<in> {NodeAssign, NodeIf, NodeForeach} \<Longrightarrow> E (ErrText e)"
    and err_tool: "P s \<Longrightarrow> st_kind s = NodeTool \<Longrightarrow> st_on_error s \<noteq> on_error_continue \<Longrightarrow> E (ErrText e)"
begin

lemma emit_inv: "I st \<Longrightarrow> I (log_obs ob st) \<Longrightarrow> I (emit en inp ob st)"
  by (simp add: emit_def)

lemma emit_step_complete_inv: "I st \<Longrightarrow> I (emit_step_complete en inp s err st)"
  by (simp add: emit_step_complete_def emit_inv inv_complete_event)

lemma fail_step_inv:
  assumes "fail_step s e fs st = (th, st')" "I st" "step_ok_for P NodeTool s" "list_all (frame_ok P E) fs"
  shows "thread_ok P E th \<and> I st'"
  using assms err_tool [of s e]
  by (auto simp: fail_step_def record_step_err_def inv_set_step step_ok_for_def)

lemma body_frame_ok: "all_steps P [s] \<Longrightarrow> body_frame s = Some f \<Longrightarrow> frame_ok P E f"
  by (cases "st_kind s")
    (auto simp: body_frame_def step_ok_for_def kids_def all_steps_concat list_all_iff)

lemma enter_step_inv:
  assumes "enter_step en inp s fs st = (th, st')" "I st" "all_steps P [s]" "list_all (frame_ok P E) fs"
  shows "thread_ok P E th \<and> I st'"
proof -
  obtain st1 ok where step: "(if is_leaf_kind (st_kind s) then inc_steps (en_cfg en) st else (st, True)) = (st1, ok)"
    by (metis surj_pair)
  define st2 where "st2 = (if is_leaf_kind (st_kind s) then log_obs (OLeaf (st_id s)) st1 else st1)"
  have P: "P s"
    using assms(3) by simp
  show ?thesis
  proof (cases ok)
    case False
    then have "I st1"
      using step assms(2) inv_capped by (auto split: if_splits)
    then show ?thesis
      using assms False step by (auto simp: enter_step_def Let_def err_max_steps)
  next
    case True
    then have "I st2"
      using step assms(2) P inv_leaf by (auto simp: st2_def split: if_splits)
    then have "I (emit en inp (OStart (st_id s) (st_kind s) (st_use s)) st2)"
      by (simp add: emit_inv inv_start_event)
    moreover have "st_kind s = NodeNone" if "body_frame s = None"
      using that by (auto simp: body_frame_def split: node_kind.splits)
    ultimately show ?thesis
      using assms True step err_no_kind [OF P] body_frame_ok [OF assms(3)]
      by (auto simp: enter_step_def Let_def st2_def split: option.splits)
  qed
qed

lemma run_tool_inv:
  assumes "run_tool en s fs st = (th, st')" "I st" "step_ok_for P NodeTool s" "list_all (frame_ok P E) fs"
  shows "thread_ok P E th \<and> I st'"
  using assms fail_step_inv inv_invoke [of st s] inv_set_step
  by (auto simp: run_tool_def step_ok_for_def split: sum.splits if_splits)

lemma tool_return_inv:
  assumes "tool_return inp s fs st = (th, st')" "I st" "step_ok_for P NodeTool s" "list_all (frame_ok P E) fs"
  shows "thread_ok P E th \<and> I st'"
  using assms fail_step_inv inv_set_step by (auto simp: tool_return_def split: sum.splits)

lemma node_err: "step_ok_for P k s \<Longrightarrow> k \<in> {NodeAssign, NodeIf, NodeForeach} \<Longrightarrow> E (ErrText e)"
  by (rule err_node [of s]) (auto simp: step_ok_for_def)

lemma run_frame_inv:
  assumes "run_frame en ctx inp f fs st = Some (th, st')" "I st" "frame_ok P E f"
    "list_all (frame_ok P E) fs"
  shows "thread_ok P E th \<and> I st'"
proof (cases f)
  case (FPar s ths ferr)
  then show ?thesis
    using assms by (cases ferr) (auto simp: run_frame_def split: if_splits)
next
  case (FAssign s bs)
  then show ?thesis
    using assms by (cases bs) (auto simp: run_frame_def run_assign_def inv_set_var node_err split: sum.splits)
next
  case (FIf s)
  then show ?thesis
    using assms by (auto simp: run_frame_def run_if_def node_err err_node step_ok_for_def kids_def split: sum.splits)
next
  case (FForeach s)
  then show ?thesis
    using assms by (auto simp: run_frame_def run_foreach_def node_err split: sum.splits option.splits)
next
  case (FItems s xs)
  then show ?thesis
    using assms by (cases xs) (auto simp: run_frame_def inv_set_var err_ctx step_ok_for_def kids_def split: option.splits)
next
  case (FSteps ss)
  then show ?thesis
    using assms by (cases ss) (auto simp: run_frame_def err_ctx split: option.splits)
next
  case (FEnter s)
  then show ?thesis
    using assms enter_step_inv by (auto simp: run_frame_def)
next
  case (FTool s)
  then show ?thesis
    using assms run_tool_inv by (auto simp: run_frame_def)
next
  case (FCall s)
  then show ?thesis
    using assms tool_return_inv by (auto simp: run_frame_def)
next
  case (FWait s)
  then show ?thesis
    using assms by (auto simp: run_frame_def err_ctx split: if_splits option.splits)
next
  case (FDone s)
  then show ?thesis
    using assms by (auto simp: run_frame_def emit_step_complete_inv)
qed

lemma thread_step_inv:
  "thread_step en ctx inp p th st = Some (th', st') \<Longrightarrow> I st \<Longrightarrow> thread_ok P E th \<Longrightarrow>
     thread_ok P E th' \<and> I st'"
proof (induction p arbitrary: ctx th st th' st')
  case Nil
  obtain err fs where th: "th = Thread err fs"
    by (cases th)
  show ?case
  proof (cases fs)
    case Nil
    with "Nil.prems" th show ?thesis by simp
  next
    case (Cons f fs')
    with Nil.prems th show ?thesis
      by (cases err) (auto simp: unwind_frame_def emit_step_complete_inv run_frame_inv split: frame.splits)
  qed
next
  case (Cons i p)
  from Cons.prems(1) obtain s ths ferr fs' t where
    th: "th = Thread None (FPar s ths ferr # fs')" and i: "i < length ths"
    and t: "thread_step en (branch_ctx ctx ferr) inp p (ths ! i) st = Some (t, st')"
    and th': "th' = Thread None (FPar s (ths[i := t])
                   (if finished t then group_err ctx ferr (th_err t) else ferr) # fs')"
    by (cases th; cases "th_err th"; cases "th_frames th")
      (auto split: frame.splits if_splits option.splits)
  have ok: "thread_ok P E t \<and> I st'"
    using Cons.IH [OF t] Cons.prems(2,3) th i by (auto simp: list_all_length)
  then have "pred_option E (th_err t)"
    by (cases t) simp
  then have "pred_option (E \<circ> fst) (group_err ctx ferr (th_err t))"
    using Cons.prems(3) th by (auto simp: group_err_def split: option.splits)
  moreover have "list_all (thread_ok P E) (ths[i := t])"
    using ok Cons.prems(3) th using set_update_subset_insert [of ths i t] by (auto simp: list_all_iff)
  ultimately show ?case
    using ok Cons.prems(3) th by (auto simp: th')
qed

lemma run_schedule_inv:
  "run_schedule en sched (th, st) = Some (th', st') \<Longrightarrow> I st \<Longrightarrow> thread_ok P E th \<Longrightarrow>
     thread_ok P E th' \<and> I st'"
proof (induction sched arbitrary: th st)
  case (Cons a sched)
  from Cons.prems(1) obtain th1 st1 where
    "thread_step en (ei_ctx (snd a)) (snd a) (fst a) th st = Some (th1, st1)"
    "run_schedule en sched (th1, st1) = Some (th', st')"
    by (auto simp: conf_step_def split: option.splits)
  then show ?case
    using Cons.IH thread_step_inv Cons.prems(2,3) by blast
qed simp

lemma run_inv:
  assumes "run_schedule en sched (start_conf en doc) = Some (th, st)"
    and "I (new_run_state doc (en_in en))" "all_steps P (doc_steps doc)"
  shows "I st \<and> pred_option E (th_err th)"
  using run_schedule_inv [OF assms(1) [unfolded start_conf_def] assms(2)] assms(3)
  by (cases th) simp

end

section \<open>A run to look at\<close>

text \<open>One tool step, whose tool is mutating and fails, and the schedule that executes it.\<close>

definition tool_step :: step where
  "tool_step = Step ''a'' NodeTool ''fs.write'' None 0 [] on_error_continue [] [] [] [] [] [] [] [] [] 0"

definition tool_doc :: workflow_doc where
  "tool_doc = \<lparr>doc_id = ''demo'', doc_name = ''demo'', doc_version = 1, doc_description = [],
     doc_inputs = [], doc_triggers = [], doc_steps = [tool_step], doc_outputs = []\<rparr>"

definition run_engine :: "bool \<Rightarrow> engine" where
  "run_engine dry = \<lparr>en_cfg = default_config, en_mutating = (\<lambda>u. u = ''fs.write''),
     en_in = \<lparr>ex_slug = ''demo'', ex_inputs = [], ex_dry_run = dry, ex_events = False\<rparr>\<rparr>"

definition calm :: env_in where
  "calm = \<lparr>ei_ctx = None, ei_tool = Inl ''refused'', ei_fires = True, ei_accept = True\<rparr>"

definition tool_run :: run_state where
  "tool_run = \<lparr>rs_inputs = [], rs_vars = [], rs_steps = [(''a'', \<lparr>sr_output = VNull, sr_error = ''step a: refused''\<rparr>)],
     rs_count = 1, rs_log = [OInvoke ''a'' ''fs.write'' JNull 60000000000, OLeaf ''a'']\<rparr>"

lemmas run_defs = conf_step_def start_conf_def run_frame_def tool_doc_def calm_def tool_step_def
  run_engine_def enter_step_def is_leaf_kind_def inc_steps_def log_obs_def emit_def body_frame_def
  run_tool_def tool_args_def tool_return_def fail_step_def record_step_err_def set_step_result_def
  emit_step_complete_def new_run_state_def materialize_inputs_def declared_inputs_def default_config_def

lemma tool_run_steps:
  "run_schedule (run_engine False) (replicate 6 ([], calm)) (start_conf (run_engine False) tool_doc) =
     Some (Thread None [], tool_run)"
  by (simp add: run_defs tool_run_def eval_nat_numeral)

section \<open>The step cap\<close>

definition leaves :: "obs list \<Rightarrow> nat" where
  "leaves log = length (filter (\<lambda>ob. case ob of OLeaf i \<Rightarrow> True | _ \<Rightarrow> False) log)"

lemma leaves_Cons [simp]:
  "leaves [] = 0" "leaves (OLeaf i # log) = Suc (leaves log)"
  "leaves (OInvoke i u j t # log) = leaves log" "leaves (OStart i nk u # log) = leaves log"
  "leaves (OComplete i nk u em ov # log) = leaves log"
  by (simp_all add: leaves_def)

definition cap_inv :: "wf_config \<Rightarrow> run_state \<Rightarrow> bool" where
  "cap_inv cfg st \<longleftrightarrow>
     0 \<le> rs_count st \<and> int (leaves (rs_log st)) = min (rs_count st) (max 0 (max_steps cfg))"

lemmas run_state_ops = set_var_def set_step_result_def log_obs_def inc_steps_def

interpretation cap: run_invariant en "\<lambda>_. True" "\<lambda>_. True" "cap_inv (en_cfg en)" for en
  by unfold_locales (auto simp: cap_inv_def run_state_ops)

text \<open>
  C19. The step cap, on every schedule: a run dispatches as many tool, assign and wait steps as
  it counted, but never more than \<open>MaxSteps\<close> of them (the count itself, which the result
  reports, may be larger: a refused step has been counted).
\<close>

theorem step_cap:
  assumes "run_schedule en sched (start_conf en doc) = Some (th, st)"
  shows "int (leaves (rs_log st)) = min (rs_count st) (max 0 (max_steps (en_cfg en))) \<and> 0 \<le> rs_count st"
proof -
  have "cap_inv (en_cfg en) (new_run_state doc (en_in en))"
    by (simp add: cap_inv_def new_run_state_def)
  then show ?thesis
    using cap.run_inv [OF assms] by (simp add: cap_inv_def all_steps_def list_all_iff)
qed

theorem step_cap_witness: "int (leaves (rs_log tool_run)) = min (rs_count tool_run) (max 0 200)"
  using step_cap [OF tool_run_steps] by (simp add: run_engine_def default_config_def)

section \<open>The calls of a run\<close>

definition issued_by :: "engine \<Rightarrow> string \<Rightarrow> string \<Rightarrow> int \<Rightarrow> step \<Rightarrow> bool" where
  "issued_by en i u t s \<longleftrightarrow> st_kind s = NodeTool \<and> st_id s = i \<and> st_use s = u \<and>
     t = (if st_timeout s = 0 then default_step_timeout (en_cfg en) else st_timeout s)"

text \<open>A call the engine may make: for a tool step of the document, mutating only when it is no dry run.\<close>

definition call_ok :: "engine \<Rightarrow> step list \<Rightarrow> obs \<Rightarrow> bool" where
  "call_ok en ss ob \<longleftrightarrow> (case ob of
       OInvoke i u j t \<Rightarrow>
         \<not> (ex_dry_run (en_in en) \<and> en_mutating en u) \<and> list_ex (issued_by en i u t) (subs ss)
     | _ \<Rightarrow> True)"

interpretation calls: run_invariant en "\<lambda>s. s \<in> set (subs ss)" "\<lambda>_. True"
    "\<lambda>st. list_all (call_ok en ss) (rs_log st)" for en ss
  by unfold_locales (auto simp: call_ok_def list_ex_iff run_state_ops issued_by_def)

text \<open>
  C20. The calls of a run, on every schedule and whatever the tools answer: a run only calls the
  tools its own tool steps name, under their timeout (or the default one), and a dry run never
  calls a mutating tool.
\<close>

theorem run_calls:
  assumes "run_schedule en sched (start_conf en doc) = Some (th, st)"
    and "OInvoke i u j t \<in> set (rs_log st)"
  shows "\<not> (ex_dry_run (en_in en) \<and> en_mutating en u) \<and>
     (\<exists>s \<in> set (subs (doc_steps doc)). issued_by en i u t s)"
proof -
  have "list_all (call_ok en (doc_steps doc)) (rs_log st)"
    using calls.run_inv [OF assms(1), of "doc_steps doc"] by (simp add: new_run_state_def all_steps_def list_all_iff)
  then show ?thesis
    using assms(2) by (auto simp: list_all_iff call_ok_def list_ex_iff dest!: bspec)
qed

theorem run_calls_witness: "\<exists>s \<in> set (subs [tool_step]). issued_by (run_engine False) ''a'' ''fs.write'' 60000000000 s"
  using run_calls [OF tool_run_steps, of "''a''" "''fs.write''" JNull 60000000000]
  by (simp add: tool_run_def tool_doc_def)

section \<open>on_error: continue\<close>

definition never_fails :: "step \<Rightarrow> bool" where
  "never_fails s \<longleftrightarrow> st_kind s = NodeParallel \<or> st_kind s = NodeWait \<or>
     st_kind s = NodeTool \<and> st_on_error s = on_error_continue"

interpretation soft: run_invariant en never_fails "\<lambda>e. \<forall>x. e \<noteq> ErrText x" "\<lambda>_. True" for en
  by unfold_locales (auto simp: never_fails_def)



section \<open>Inputs\<close>

lemma map_of_declared_fold:
  "gomap specs \<Longrightarrow> map_of (fold (\<lambda>(k, spec) out.
        case map_of given k of
          Some v \<Rightarrow> AList.update k v out
        | None \<Rightarrow> if in_default spec \<noteq> VNull then AList.update k (in_default spec) out else out) specs out) k =
     (case map_of specs k of
        None \<Rightarrow> map_of out k
      | Some spec \<Rightarrow> (case map_of given k of
           Some v \<Rightarrow> Some v
         | None \<Rightarrow> if in_default spec \<noteq> VNull then Some (in_default spec) else map_of out k))"
proof (induction specs arbitrary: out)
  case (Cons p specs)
  obtain k' spec where p: "p = (k', spec)"
    by (cases p)
  have "k' \<notin> dom (map_of specs)"
    using Cons.prems by (simp add: p dom_map_of_conv_image_fst)
  then show ?case
    using Cons by (auto simp: p split: option.splits)
qed simp

lemma map_of_given_fold:
  "gomap given \<Longrightarrow> map_of (fold (\<lambda>(k, v) out. case map_of out k of Some _ \<Rightarrow> out | None \<Rightarrow> AList.update k v out)
       given out) k = (case map_of out k of Some v \<Rightarrow> Some v | None \<Rightarrow> map_of given k)"
proof (induction given arbitrary: out)
  case (Cons p given)
  moreover have "map_of given (fst p) = None"
    using Cons.prems by (cases p) (simp add: map_of_eq_None_iff)
  ultimately show ?case
    by (cases p) (auto split: option.splits)
qed (simp split: option.splits)

text \<open>
  The inputs of a run: a value the caller gives always wins, declared or not; a declared
  input without one has its default; nothing else is there.
\<close>

theorem materialize_inputs_spec:
  assumes "gomap specs" "gomap given"
  shows "map_of (materialize_inputs specs given) k =
     (case map_of given k of
        Some v \<Rightarrow> Some v
      | None \<Rightarrow> (case map_of specs k of
           Some spec \<Rightarrow> if in_default spec \<noteq> VNull then Some (in_default spec) else None
         | None \<Rightarrow> None))"
  using map_of_given_fold [OF assms(2)] map_of_declared_fold [OF assms(1)]
  by (auto simp: materialize_inputs_def declared_inputs_def split: option.splits)

theorem materialize_inputs_spec_witness:
  "map_of (materialize_inputs [(''n'', \<lparr>in_type = ''int'', in_default = VInt 3, in_schema = []\<rparr>)] [(''m'', VInt 4)]) ''n''
     = Some (VInt 3)"
  by (subst materialize_inputs_spec) simp_all

end
