(* ===== verification/WfTermination.thy ===== *)
theory WfTermination
  imports WfRuns "HOL-Library.Multiset_Order"
begin

text \<open>
  Every run of the workflow machine ends: a measure in the multiset order that each action
  decreases, and an enabled action as long as a goroutine is unfinished.
\<close>

section \<open>Every run ends\<close>

text \<open>
  The weight of a thread: a multiset that every action makes smaller. A pending step weighs
  more than everything it can turn into, however many items a loop turns out to have.
\<close>

definition pending :: "step list \<Rightarrow> nat multiset" where
  "pending ss = mset (map (\<lambda>s. 3 * size s + 2) ss)"

fun frame_weight :: "frame \<Rightarrow> nat multiset" and thread_weight :: "thread \<Rightarrow> nat multiset" where
  "frame_weight (FSteps ss) = add_mset 0 (pending ss)"
| "frame_weight (FEnter s) = {#3 * size s + 1#}"
| "frame_weight (FTool s) = {#1#}"
| "frame_weight (FCall s) = {#0#}"
| "frame_weight (FAssign s bs) = replicate_mset (Suc (length bs)) 0"
| "frame_weight (FIf s) = {#3 * size s#}"
| "frame_weight (FForeach s) = {#3 * size s#}"
| "frame_weight (FItems s xs) =
     add_mset 0 (repeat_mset (length xs) (add_mset 0 (add_mset 0 (pending (st_steps s)))))"
| "frame_weight (FPar s ths ferr) = add_mset 0 (sum_list (map thread_weight ths))"
| "frame_weight (FWait s) = {#0#}"
| "frame_weight (FDone s) = {#0#}"
| "thread_weight (Thread err fs) = sum_list (map frame_weight fs)"

lemma step_size_pos [simp]: "0 < size (s :: step)"
  by (cases s) simp

lemma pending_simps [simp]: "pending [] = {#}" "pending (s # ss) = add_mset (3 * size s + 2) (pending ss)"
  by (simp_all add: pending_def)

lemma pending_bound:
  assumes "x \<in># pending ss" and "\<forall>s' \<in> set ss. size s' < size s"
  shows "x < 3 * size s"
  using assms by (induction ss) auto

lemma step_child_smaller:
  "s' \<in> set (st_then s) \<Longrightarrow> size s' < size s" "s' \<in> set (st_else s) \<Longrightarrow> size s' < size s"
  "s' \<in> set (st_steps s) \<Longrightarrow> size s' < size s"
  "b \<in> set (st_parallel s) \<Longrightarrow> s' \<in> set b \<Longrightarrow> size s' < size s"
proof -
  have elem: "x \<in> set xs \<Longrightarrow> size x \<le> size_list size xs" for x :: step and xs
    using size_list_estimation' by fastforce
  show "s' \<in> set (st_then s) \<Longrightarrow> size s' < size s" "s' \<in> set (st_else s) \<Longrightarrow> size s' < size s"
    "s' \<in> set (st_steps s) \<Longrightarrow> size s' < size s"
    using elem step_children_size [of s] by (meson le_less_trans)+
  show "b \<in> set (st_parallel s) \<Longrightarrow> s' \<in> set b \<Longrightarrow> size s' < size s"
    using elem [of s' b] step_children_size(4) [of s]
      size_list_estimation' [of b "st_parallel s" "size s'" "size_list size"] by simp
qed

lemma in_repeat: "x \<in># repeat_mset n M \<Longrightarrow> x \<in># M"
  by (induction n) auto

lemma in_sum_list_iff: "x \<in># sum_list (map f xs) \<longleftrightarrow> (\<exists>y \<in> set xs. x \<in># f y)"
  by (induction xs) auto

lemma single_positive [simp]: "{#} < {#n :: nat#}" "0 < {#n :: nat#}"
  by simp_all

text \<open>The action of a frame puts lighter frames in its place.\<close>

definition lighter :: "thread \<Rightarrow> frame \<Rightarrow> frame list \<Rightarrow> bool" where
  "lighter th f fs \<longleftrightarrow> thread_weight th < frame_weight f + sum_list (map frame_weight fs)"

lemma lighter_pop: "frame_weight f \<noteq> {#} \<Longrightarrow> lighter (Thread err fs) f fs"
  by (simp add: lighter_def)

lemma lighter_push: "sum_list (map frame_weight gs) < frame_weight f \<Longrightarrow> lighter (Thread err (gs @ fs)) f fs"
  by (simp add: lighter_def)

lemma frame_weight_nonempty [simp]: "frame_weight f \<noteq> {#}"
  by (cases f) auto

lemma body_frame_weight:
  assumes "body_frame s = Some f" "x \<in># frame_weight f"
  shows "x \<le> 3 * size s"
proof (cases "st_kind s")
  case NodeParallel
  then have "x = 0 \<or> (\<exists>b \<in> set (st_parallel s). x = 0 \<or> x \<in># pending b)"
    using assms by (auto simp: body_frame_def in_sum_list_iff comp_def split: if_splits)
  then show ?thesis
    using pending_bound [of x _ s] step_child_smaller(4) [of _ s] by (metis less_imp_le le0)
next
  case NodeAssign
  then show ?thesis
    using assms by (auto simp: body_frame_def split: if_splits)
next
  case NodeTool
  then show ?thesis
    using assms step_size_pos [of s] by (auto simp: body_frame_def simp del: step_size_pos)
qed (use assms in \<open>auto simp: body_frame_def\<close>)

lemma enter_step_weight: "enter_step en inp s fs st = (th, st') \<Longrightarrow> lighter th (FEnter s) fs"
proof -
  assume step: "enter_step en inp s fs st = (th, st')"
  have "lighter (Thread None (f # FDone s # fs)) (FEnter s) fs" if "body_frame s = Some f" for f
    using lighter_push [of "[f, FDone s]" "FEnter s" None fs] body_frame_weight [OF that]
    by (fastforce simp: less_Suc_eq_le)
  moreover have "lighter (Thread err (FDone s # fs)) (FEnter s) fs" for err
    using lighter_push [of "[FDone s]" "FEnter s" err fs] by simp
  ultimately show ?thesis
    using step lighter_pop
    by (auto simp: enter_step_def Let_def split: prod.splits if_splits option.splits)
qed

lemma fail_step_weight: "fail_step s e fs st = (th, st') \<Longrightarrow> lighter th f fs"
  by (auto simp: fail_step_def lighter_pop split: prod.splits)

lemma run_tool_weight: "run_tool en s fs st = (th, st') \<Longrightarrow> lighter th (FTool s) fs"
  using lighter_push [of "[FCall s]" "FTool s" None fs]
  by (auto simp: run_tool_def lighter_pop fail_step_weight split: sum.splits if_splits)

lemma children_weight:
  assumes "\<forall>s' \<in> set ss. size s' < size (s :: step)"
  shows "add_mset 0 (pending ss) < {#3 * size s#}"
  using pending_bound [OF _ assms] by auto

lemma run_frame_weight:
  assumes "run_frame en ctx inp f fs st = Some (th, st')"
  shows "lighter th f fs"
proof (cases f)
  case (FSteps ss)
  show ?thesis
  proof (cases ss)
    case Nil
    with FSteps assms show ?thesis by (auto simp: run_frame_def lighter_pop)
  next
    case (Cons s ss')
    have "lighter (Thread None (FEnter s # FSteps ss' # fs)) f fs"
      using lighter_push [of "[FEnter s, FSteps ss']" f None fs] FSteps Cons by simp
    with FSteps Cons assms show ?thesis
      by (auto simp: run_frame_def lighter_pop split: option.splits)
  qed
next
  case (FEnter s)
  with assms show ?thesis by (auto simp: run_frame_def enter_step_weight)
next
  case (FTool s)
  with assms show ?thesis by (auto simp: run_frame_def run_tool_weight)
next
  case (FCall s)
  with assms show ?thesis
    by (auto simp: run_frame_def tool_return_def lighter_pop fail_step_weight split: sum.splits)
next
  case (FAssign s bs)
  show ?thesis
  proof (cases bs)
    case Nil
    with FAssign assms show ?thesis by (auto simp: run_frame_def lighter_pop)
  next
    case (Cons b bs')
    have "lighter (Thread None (FAssign s bs' # fs)) f fs"
      using lighter_push [of "[FAssign s bs']" f None fs] FAssign Cons by simp
    with FAssign Cons assms show ?thesis
      by (cases b) (auto simp: run_frame_def run_assign_def lighter_pop split: sum.splits)
  qed
next
  case (FIf s)
  have "lighter (Thread None (FSteps (if truthy v then st_then s else st_else s) # fs)) f fs" for v
    using lighter_push [of "[FSteps (if truthy v then st_then s else st_else s)]" f None fs] FIf
      children_weight [of "st_then s" s] children_weight [of "st_else s" s] step_child_smaller [of _ s]
    by auto
  with FIf assms show ?thesis
    by (auto simp: run_frame_def run_if_def lighter_pop split: sum.splits)
next
  case (FForeach s)
  have "x < 3 * size s" if "x \<in># frame_weight (FItems s items)" for x items
    using that pending_bound [of x "st_steps s" s] step_child_smaller(3) [of _ s]
    by (auto split: if_splits dest: in_repeat)
  then have "lighter (Thread None (FItems s items # fs)) f fs" for items
    using lighter_push [of "[FItems s items]" f None fs] FForeach by (simp del: frame_weight.simps(8))
  with FForeach assms show ?thesis
    by (auto simp: run_frame_def run_foreach_def lighter_pop split: sum.splits option.splits)
next
  case (FItems s xs)
  show ?thesis
  proof (cases xs)
    case Nil
    with FItems assms show ?thesis by (auto simp: run_frame_def lighter_pop)
  next
    case (Cons x xs')
    have "lighter (Thread None (FSteps (st_steps s) # FItems s xs' # fs)) f fs"
      using lighter_push [of "[FSteps (st_steps s), FItems s xs']" f None fs] FItems Cons by simp
    with FItems Cons assms show ?thesis
      by (auto simp: run_frame_def lighter_pop split: option.splits)
  qed
qed (use assms in \<open>auto simp: run_frame_def lighter_pop split: if_splits option.splits\<close>)

lemma sum_list_update_less:
  assumes "i < length xs" "f y < f (xs ! i)"
  shows "sum_list (map f (xs[i := y])) < (sum_list (map f xs) :: nat multiset)"
proof -
  have "sum_list (map f (xs[i := y])) = sum_list (map f (take i xs)) + f y + sum_list (map f (drop (Suc i) xs))"
    using assms(1) by (simp add: upd_conv_take_nth_drop add.assoc)
  moreover have "sum_list (map f xs) = sum_list (map f (take i xs)) + f (xs ! i) + sum_list (map f (drop (Suc i) xs))"
    using assms(1) by (subst id_take_nth_drop [OF assms(1)]) (simp add: add.assoc)
  ultimately show ?thesis
    using assms(2) by simp
qed

lemma thread_step_weight:
  "thread_step en ctx inp p th st = Some (th', st') \<Longrightarrow> thread_weight th' < thread_weight th"
proof (induction p arbitrary: ctx th st th' st')
  case Nil
  obtain err fs where th: "th = Thread err fs"
    by (cases th)
  show ?case
  proof (cases fs)
    case Nil
    with "Nil.prems" th show ?thesis by simp
  next
    case (Cons f fs')
    have "lighter th' f fs'"
      using Nil.prems th Cons
      by (cases err) (auto simp: unwind_frame_def lighter_pop run_frame_weight)
    then show ?thesis
      by (simp add: lighter_def th Cons)
  qed
next
  case (Cons i p)
  from Cons.prems obtain s ths ferr fs' t where
    th: "th = Thread None (FPar s ths ferr # fs')" and i: "i < length ths"
    and t: "thread_step en (branch_ctx ctx ferr) inp p (ths ! i) st = Some (t, st')"
    and th': "th' = Thread None (FPar s (ths[i := t])
                   (if finished t then group_err ctx ferr (th_err t) else ferr) # fs')"
    by (cases th; cases "th_err th"; cases "th_frames th")
      (auto split: frame.splits if_splits option.splits)
  show ?case
    using sum_list_update_less [OF i Cons.IH [OF t]] by (simp add: th th')
qed

lemma wfp_conf_step: "wfp (\<lambda>c' c. \<exists>a. conf_step en a c = Some c')"
proof (rule wfp_if_convertible_to_wfp [where f = "\<lambda>c. thread_weight (fst c)"])
  show "wfp ((<) :: nat multiset \<Rightarrow> nat multiset \<Rightarrow> bool)"
    by simp
qed (auto simp: conf_step_def dest: thread_step_weight)

text \<open>
  C1. Termination: no run is infinite, whatever the tools, timers and contexts do and however
  the goroutines are scheduled, on documents with loops and parallel blocks of any size.
\<close>

theorem runs_terminate:
  "\<nexists>f. f 0 = start_conf en doc \<and> (\<forall>i. \<exists>a. conf_step en a (f i) = Some (f (Suc i)))"
  using wfp_conf_step [of en] unfolding wfp_def by (auto simp: wf_iff_no_infinite_down_chain)

section \<open>No run gets stuck\<close>

lemma run_frame_progress:
  assumes "ei_fires inp" and "\<forall>s ths ferr. f = FPar s ths ferr \<longrightarrow> list_all finished ths"
  shows "run_frame en ctx inp f fs st \<noteq> None"
proof (cases f)
  case (FSteps ss)
  then show ?thesis by (cases ss) (auto simp: run_frame_def split: option.splits)
next
  case (FAssign s bs)
  then show ?thesis by (cases bs) (auto simp: run_frame_def)
next
  case (FItems s xs)
  then show ?thesis by (cases xs) (auto simp: run_frame_def split: option.splits)
qed (use assms in \<open>auto simp: run_frame_def\<close>)

lemma thread_progress:
  assumes "ei_fires inp"
  shows "\<not> finished th \<Longrightarrow> \<exists>p. thread_step en ctx inp p th st \<noteq> None"
proof (induction th arbitrary: ctx rule: measure_induct_rule [of size])
  case (less th)
  then obtain err f fs where th: "th = Thread err (f # fs)"
    by (cases th; cases "th_frames th") (auto simp: finished_def)
  show ?case
  proof (cases "err = None \<and> (\<exists>s ths ferr. f = FPar s ths ferr \<and> \<not> list_all finished ths)")
    case True
    then obtain s ths ferr i where f: "err = None" "f = FPar s ths ferr" "i < length ths"
        "\<not> finished (ths ! i)"
      by (auto simp: list_all_length)
    have "size (ths ! i) \<le> size_list size ths"
      using f(3) by (intro size_list_estimation' [of "ths ! i"]) auto
    then have "size (ths ! i) < size th"
      by (simp add: th f)
    then obtain p where "thread_step en (branch_ctx ctx ferr) inp p (ths ! i) st \<noteq> None"
      using less.IH f(4) by blast
    then have "thread_step en ctx inp (i # p) th st \<noteq> None"
      by (auto simp: th f)
    then show ?thesis
      by blast
  next
    case False
    have "thread_step en ctx inp [] th st \<noteq> None"
    proof (cases err)
      case None
      then have "run_frame en ctx inp f fs st \<noteq> None"
        using False by (intro run_frame_progress [OF assms]) blast
      then show ?thesis
        by (simp add: th None)
    qed (simp add: th)
    then show ?thesis
      by blast
  qed
qed

lemma run_schedule_append:
  "run_schedule en (xs @ ys) c = (case run_schedule en xs c of None \<Rightarrow> None | Some c' \<Rightarrow> run_schedule en ys c')"
  by (induction xs arbitrary: c) (auto split: option.splits)

lemma conf_completes:
  "\<exists>sched th st. run_schedule en sched c = Some (th, st) \<and> finished th"
proof (induction c rule: wfp_induct_rule [OF wfp_conf_step [of en]])
  case (1 c)
  obtain th st where c: "c = (th, st)"
    by (cases c)
  show ?case
  proof (cases "finished th")
    case True
    then have "run_schedule en [] c = Some (th, st) \<and> finished th"
      by (simp add: c)
    then show ?thesis by blast
  next
    case False
    let ?inp = "\<lparr>ei_ctx = None, ei_tool = Inr RawEmpty, ei_fires = True, ei_accept = True\<rparr>"
    obtain p where "thread_step en None ?inp p th st \<noteq> None"
      using thread_progress [OF _ False, of ?inp en None st] by auto
    then obtain c' where step: "conf_step en (p, ?inp) c = Some c'"
      by (auto simp: conf_step_def c)
    then obtain sched th' st' where "run_schedule en sched c' = Some (th', st') \<and> finished th'"
      using 1 by blast
    then have "run_schedule en ((p, ?inp) # sched) c = Some (th', st') \<and> finished th'"
      using step by simp
    then show ?thesis by blast
  qed
qed

text \<open>
  C37. No deadlock: wherever a run stands, with any branches under way, it can be carried on to
  the end, and \<open>Execute\<close> then returns a result.
\<close>

theorem every_run_completes:
  assumes "run_schedule en sched (start_conf en doc) = Some c"
  shows "\<exists>sched' r. execute en (Some doc) (sched @ sched') parent = Some r"
proof -
  obtain sched' th st where "run_schedule en sched' c = Some (th, st)" "finished th"
    using conf_completes by blast
  then have "execute en (Some doc) (sched @ sched') parent = Some (exec_result_of doc parent (th_err th) st)"
    using assms by (simp add: execute_def run_schedule_append)
  then show ?thesis by blast
qed

theorem every_run_completes_witness:
  "\<exists>sched' r. execute (run_engine False) (Some tool_doc) ([([], calm)] @ sched') None = Some r"
proof -
  have "run_schedule (run_engine False) [([], calm)] (start_conf (run_engine False) tool_doc) =
      Some (Thread None [FEnter tool_step, FSteps []], new_run_state tool_doc (en_in (run_engine False)))"
    by (simp add: conf_step_def start_conf_def run_frame_def tool_doc_def calm_def)
  then show ?thesis
    by (rule every_run_completes)
qed

end
