(* ===== verification/GoTime.thy ===== *)
theory GoTime
  imports GoStd
begin

text \<open>
  An instant of \<open>time.Time\<close> in UTC, by its calendar fields, and the layouts the program formats
  it with. The years are those of four digits.
\<close>

record utc =
  u_year :: nat
  u_month :: nat
  u_day :: nat
  u_hour :: nat
  u_min :: nat
  u_sec :: nat
  u_nsec :: nat

definition utc_ok :: "utc \<Rightarrow> bool" where
  "utc_ok t \<longleftrightarrow> u_year t < 10000 \<and> u_month t < 100 \<and> u_day t < 100 \<and> u_hour t < 100 \<and>
     u_min t < 100 \<and> u_sec t < 100 \<and> u_nsec t < 1000000000"

text \<open>\<open>zero_pad k n\<close>: the last \<open>k\<close> decimal digits of \<open>n\<close>.\<close>

fun zero_pad :: "nat \<Rightarrow> nat \<Rightarrow> string" where
  "zero_pad 0 n = []"
| "zero_pad (Suc k) n = zero_pad k (n div 10) @ [char_of (48 + n mod 10)]"

definition format_date :: "utc \<Rightarrow> string" where
  "format_date t = zero_pad 4 (u_year t) @ ''-'' @ zero_pad 2 (u_month t) @ ''-'' @ zero_pad 2 (u_day t)"

definition format_minute :: "utc \<Rightarrow> string" where
  "format_minute t = format_date t @ ''T'' @ zero_pad 2 (u_hour t) @ '':'' @ zero_pad 2 (u_min t)"

text \<open>The fraction of RFC3339Nano: nine digits without their trailing zeros, nothing for zero.\<close>

definition format_frac :: "nat \<Rightarrow> string" where
  "format_frac n =
     (let ds = rev (dropWhile (\<lambda>c. c = CHR ''0'') (rev (zero_pad 9 n)))
      in if ds = [] then [] else CHR ''.'' # ds)"

definition format_rfc3339nano :: "utc \<Rightarrow> string" where
  "format_rfc3339nano t =
     format_minute t @ '':'' @ zero_pad 2 (u_sec t) @ format_frac (u_nsec t) @ ''Z''"

text \<open>\<open>Truncate(time.Microsecond)\<close>.\<close>

definition trunc_micro :: "utc \<Rightarrow> utc" where
  "trunc_micro t = t\<lparr>u_nsec := u_nsec t - u_nsec t mod 1000\<rparr>"

section \<open>The layouts determine the instant\<close>

lemma length_zero_pad [simp]: "length (zero_pad k n) = k"
  by (induction k arbitrary: n) auto

lemma char_of_digit_inj: "a < 10 \<Longrightarrow> b < 10 \<Longrightarrow> (char_of (48 + a) :: char) = char_of (48 + b) \<Longrightarrow> a = (b :: nat)"
  using digit_val_char_of [of a] digit_val_char_of [of b] by simp

lemma zero_pad_inj: "zero_pad k m = zero_pad k n \<Longrightarrow> m < 10 ^ k \<Longrightarrow> n < 10 ^ k \<Longrightarrow> m = n"
proof (induction k arbitrary: m n)
  case (Suc k)
  have "m div 10 = n div 10"
    using Suc by (intro Suc.IH) (auto simp: less_mult_imp_div_less mult.commute)
  moreover have "m mod 10 = n mod 10"
    using Suc.prems(1) by (intro char_of_digit_inj) auto
  ultimately show ?case
    by (metis div_mult_mod_eq)
qed simp

lemma zero_pad_digits: "c \<in> set (zero_pad k n) \<Longrightarrow> is_digit c"
  by (induction k arbitrary: n) (auto simp: is_digit_char_of)

lemma format_date_inj:
  assumes "format_date s = format_date t" "utc_ok s" "utc_ok t"
  shows "u_year s = u_year t \<and> u_month s = u_month t \<and> u_day s = u_day t"
proof -
  have "zero_pad 4 (u_year s) = zero_pad 4 (u_year t) \<and> zero_pad 2 (u_month s) = zero_pad 2 (u_month t) \<and>
      zero_pad 2 (u_day s) = zero_pad 2 (u_day t)"
    using assms(1) unfolding format_date_def by (simp add: append_eq_append_conv)
  then show ?thesis
    using assms(2,3) zero_pad_inj [of 4 "u_year s" "u_year t"] zero_pad_inj [of 2 "u_month s" "u_month t"]
      zero_pad_inj [of 2 "u_day s" "u_day t"]
    by (simp add: utc_ok_def)
qed

lemma length_format_date [simp]: "length (format_date t) = 10"
  by (simp add: format_date_def)

lemma length_format_minute [simp]: "length (format_minute t) = 16"
  by (simp add: format_minute_def)

lemma format_minute_inj:
  assumes "format_minute s = format_minute t" "utc_ok s" "utc_ok t"
  shows "u_year s = u_year t \<and> u_month s = u_month t \<and> u_day s = u_day t \<and>
    u_hour s = u_hour t \<and> u_min s = u_min t"
proof -
  have "format_date s = format_date t \<and> zero_pad 2 (u_hour s) = zero_pad 2 (u_hour t) \<and>
      zero_pad 2 (u_min s) = zero_pad 2 (u_min t)"
    using assms(1) unfolding format_minute_def by (simp add: append_eq_append_conv)
  then show ?thesis
    using assms(2,3) format_date_inj [OF _ assms(2,3)] zero_pad_inj [of 2 "u_hour s" "u_hour t"]
      zero_pad_inj [of 2 "u_min s" "u_min t"]
    by (simp add: utc_ok_def)
qed

lemma format_frac_inj:
  assumes "format_frac m = format_frac n" "m < 1000000000" "n < 1000000000"
  shows "m = n"
proof -
  let ?z = "\<lambda>n. dropWhile (\<lambda>c. c = CHR ''0'') (rev (zero_pad 9 n))"
  have gen: "(if rev a = [] then [] else c # rev a) = (if rev b = [] then [] else c # rev b) \<Longrightarrow> a = b"
    for a b :: string and c
    by (auto split: if_splits)
  have same: "?z m = ?z n"
    by (rule gen [where c = "CHR ''.''"]) (rule assms(1) [unfolded format_frac_def Let_def])
  have pad: "rev (zero_pad 9 k) = replicate (9 - length (?z k)) (CHR ''0'') @ ?z k" for k
  proof -
    let ?xs = "rev (zero_pad 9 k)"
    have "takeWhile (\<lambda>c. c = CHR ''0'') ?xs = replicate (length (takeWhile (\<lambda>c. c = CHR ''0'') ?xs)) (CHR ''0'')"
      by (rule replicate_length_same [symmetric]) (auto dest: set_takeWhileD)
    moreover have "length (takeWhile (\<lambda>c. c = CHR ''0'') ?xs) = 9 - length (?z k)"
      using arg_cong [OF takeWhile_dropWhile_id [of "\<lambda>c. c = CHR ''0''" ?xs], of length]
      by (simp only: length_append length_rev length_zero_pad)
    ultimately show ?thesis
      by (metis takeWhile_dropWhile_id)
  qed
  then have "zero_pad 9 m = zero_pad 9 n"
    using pad [of m] pad [of n] same by (metis rev_rev_ident)
  then show ?thesis
    using assms(2,3) zero_pad_inj [of 9 m n] by simp
qed

lemma format_rfc3339nano_inj:
  assumes "format_rfc3339nano s = format_rfc3339nano t" "utc_ok s" "utc_ok t"
  shows "s = t"
proof -
  have "format_minute s = format_minute t \<and> zero_pad 2 (u_sec s) = zero_pad 2 (u_sec t) \<and>
      format_frac (u_nsec s) = format_frac (u_nsec t)"
    using assms(1) unfolding format_rfc3339nano_def by (simp add: append_eq_append_conv)
  then have "u_sec s = u_sec t" "u_nsec s = u_nsec t"
    "u_year s = u_year t \<and> u_month s = u_month t \<and> u_day s = u_day t \<and>
    u_hour s = u_hour t \<and> u_min s = u_min t"
    using assms(2,3) zero_pad_inj [of 2 "u_sec s" "u_sec t"] format_frac_inj [of "u_nsec s" "u_nsec t"]
      format_minute_inj [OF _ assms(2,3)]
    by (simp_all add: utc_ok_def)
  then show ?thesis
    by simp
qed

lemma format_rfc3339nano_chars:
  "c \<in> set (format_rfc3339nano t) \<Longrightarrow> is_digit c \<or> c \<in> set ''-T:.Z''"
proof -
  have "c \<in> set (format_frac n) \<Longrightarrow> is_digit c \<or> c = CHR ''.''" for n
    using zero_pad_digits [of c 9 n] by (auto simp: format_frac_def Let_def split: if_splits dest: set_dropWhileD)
  then show "c \<in> set (format_rfc3339nano t) \<Longrightarrow> is_digit c \<or> c \<in> set ''-T:.Z''"
    by (auto simp: format_rfc3339nano_def format_minute_def format_date_def dest: zero_pad_digits)
qed

lemma utc_ok_trunc: "utc_ok t \<Longrightarrow> utc_ok (trunc_micro t)"
  by (auto simp: utc_ok_def trunc_micro_def)

end
