(* ===== verification/Sha256.thy ===== *)
theory Sha256
  imports Prelude "HOL-Library.Word"
begin

text \<open>
  \<open>crypto/sha256\<close> and \<open>encoding/hex\<close> of the Go library, on byte strings (a \<open>char\<close> of HOL is a
  byte), as the audit log and the tool bus use them.
\<close>

unbundle bit_operations_syntax

type_synonym word32 = "32 word"

definition sha_k :: "word32 list" where
  "sha_k = [
    1116352408, 1899447441, 3049323471, 3921009573, 961987163, 1508970993, 2453635748, 2870763221,
    3624381080, 310598401, 607225278, 1426881987, 1925078388, 2162078206, 2614888103, 3248222580,
    3835390401, 4022224774, 264347078, 604807628, 770255983, 1249150122, 1555081692, 1996064986,
    2554220882, 2821834349, 2952996808, 3210313671, 3336571891, 3584528711, 113926993, 338241895,
    666307205, 773529912, 1294757372, 1396182291, 1695183700, 1986661051, 2177026350, 2456956037,
    2730485921, 2820302411, 3259730800, 3345764771, 3516065817, 3600352804, 4094571909, 275423344,
    430227734, 506948616, 659060556, 883997877, 958139571, 1322822218, 1537002063, 1747873779,
    1955562222, 2024104815, 2227730452, 2361852424, 2428436474, 2756734187, 3204031479, 3329325298]"

definition sha_init :: "word32 list" where
  "sha_init = [
    1779033703, 3144134277, 1013904242, 2773480762, 1359893119, 2600822924, 528734635, 1541459225]"

definition rotr :: "nat \<Rightarrow> word32 \<Rightarrow> word32" where
  "rotr n w = (drop_bit n w) OR (push_bit (32 - n) w)"

definition big_endian :: "nat \<Rightarrow> nat \<Rightarrow> nat list" where
  "big_endian k n = map (\<lambda>i. n div 256 ^ (k - Suc i) mod 256) [0..<k]"

definition byte_word :: "nat list \<Rightarrow> word32" where
  "byte_word bs = of_nat (foldl (\<lambda>a b. a * 256 + b) 0 bs)"

fun chunks :: "nat \<Rightarrow> nat \<Rightarrow> 'a list \<Rightarrow> 'a list list" where
  "chunks 0 n xs = []"
| "chunks (Suc k) n xs = take n xs # chunks k n (drop n xs)"

definition sha_pad :: "nat list \<Rightarrow> nat list" where
  "sha_pad bs =
     bs @ [128] @ replicate ((119 - length bs mod 64) mod 64) 0 @ big_endian 8 (8 * length bs)"

text \<open>The message schedule, latest word first.\<close>

fun sha_extend :: "nat \<Rightarrow> word32 list \<Rightarrow> word32 list" where
  "sha_extend 0 w = w"
| "sha_extend (Suc k) w =
     (let w15 = w ! 14; w2 = w ! 1;
          s0 = rotr 7 w15 XOR rotr 18 w15 XOR drop_bit 3 w15;
          s1 = rotr 17 w2 XOR rotr 19 w2 XOR drop_bit 10 w2
      in sha_extend k ((w ! 15 + s0 + w ! 6 + s1) # w))"

definition sha_round :: "word32 \<times> word32 \<Rightarrow> word32 list \<Rightarrow> word32 list" where
  "sha_round kw v = (case v of
       [a, b, c, d, e, f, g, h] \<Rightarrow>
         let s1 = rotr 6 e XOR rotr 11 e XOR rotr 25 e;
             ch = (e AND f) XOR ((NOT e) AND g);
             t1 = h + s1 + ch + fst kw + snd kw;
             s0 = rotr 2 a XOR rotr 13 a XOR rotr 22 a;
             mj = (a AND b) XOR (a AND c) XOR (b AND c)
         in [t1 + (s0 + mj), a, b, c, d + t1, e, f, g]
     | _ \<Rightarrow> v)"

definition sha_block :: "nat list \<Rightarrow> word32 list \<Rightarrow> word32 list" where
  "sha_block block hs =
     (let ws = rev (sha_extend 48 (rev (map byte_word (chunks 16 4 block))))
      in map (\<lambda>(x, y). x + y) (zip hs (fold sha_round (zip sha_k ws) hs)))"

definition sha256 :: "string \<Rightarrow> string" where
  "sha256 s =
     (let p = sha_pad (map of_char s)
      in concat (map (\<lambda>w. map char_of (big_endian 4 (unat w)))
           (fold sha_block (chunks (length p div 64) 64 p) sha_init)))"

definition hex_byte :: "nat \<Rightarrow> string" where
  "hex_byte n = [''0123456789abcdef'' ! (n div 16 mod 16), ''0123456789abcdef'' ! (n mod 16)]"

definition hex_encode :: "string \<Rightarrow> string" where
  "hex_encode s = concat (map (\<lambda>c. hex_byte (of_char c)) s)"

section \<open>Lengths\<close>

lemma length_sha_round [simp]: "length v = 8 \<Longrightarrow> length (sha_round kw v) = 8"
  by (auto simp: sha_round_def Let_def split: list.split)

lemma length_fold_sha_round [simp]: "length v = 8 \<Longrightarrow> length (fold sha_round kws v) = 8"
  by (induction kws arbitrary: v) auto

lemma length_fold_sha_block: "length v = 8 \<Longrightarrow> length (fold sha_block bs v) = 8"
  by (induction bs arbitrary: v) (auto simp: sha_block_def Let_def)

lemma length_sha256: "length (sha256 s) = 32"
proof -
  have "\<forall>x \<in> set xs. length x = 4 \<Longrightarrow> length (concat xs) = 4 * length xs" for xs :: "string list"
    by (induction xs) auto
  then show ?thesis
    using length_fold_sha_block [of sha_init]
    by (simp add: sha256_def Let_def big_endian_def sha_init_def)
qed

lemma length_hex_encode [simp]: "length (hex_encode s) = 2 * length s"
  by (induction s) (auto simp: hex_encode_def hex_byte_def)

lemma hex_digit_inj: "i < 16 \<Longrightarrow> j < 16 \<Longrightarrow> ''0123456789abcdef'' ! i = ''0123456789abcdef'' ! j \<Longrightarrow> i = j"
proof -
  have "distinct ''0123456789abcdef''" by simp
  moreover have "length ''0123456789abcdef'' = 16" by simp
  ultimately show "i < 16 \<Longrightarrow> j < 16 \<Longrightarrow> ''0123456789abcdef'' ! i = ''0123456789abcdef'' ! j \<Longrightarrow> i = j"
    by (metis nth_eq_iff_index_eq)
qed

lemma hex_byte_inj:
  assumes "m < 256" "n < 256" "hex_byte m = hex_byte n"
  shows "m = n"
proof -
  have "m div 16 mod 16 = n div 16 mod 16" "m mod 16 = n mod 16"
    using assms(3) hex_digit_inj [of "m div 16 mod 16" "n div 16 mod 16"] hex_digit_inj [of "m mod 16" "n mod 16"]
    by (simp_all add: hex_byte_def)
  moreover have "m div 16 < 16" "n div 16 < 16"
    using assms by auto
  ultimately show ?thesis
    by (metis div_mult_mod_eq mod_less)
qed

text \<open>Distinct byte strings have distinct hexadecimal texts.\<close>

lemma hex_encode_inj: "hex_encode s = hex_encode t \<Longrightarrow> s = t"
proof (induction s arbitrary: t)
  case Nil
  then show ?case by (cases t) (auto simp: hex_encode_def hex_byte_def)
next
  case (Cons c s)
  then obtain d t' where t: "t = d # t'"
    by (cases t) (auto simp: hex_encode_def hex_byte_def)
  have "hex_byte (of_char c) = hex_byte (of_char d)" "hex_encode s = hex_encode t'"
    using Cons.prems by (auto simp: t hex_encode_def hex_byte_def)
  then show ?case
    using Cons.IH hex_byte_inj [of "of_char c" "of_char d"] by (auto simp: t)
qed

end
