(* ===== verification/AuditLog.thy ===== *)
theory AuditLog
  imports Json GoTime Sha256
begin

text \<open>
  The audit log, \<open>src/internal/audit\<close>: the canonical encoding and its hash (\<open>hash.go\<close>), the
  append under the table lock (\<open>repo.go\<close>) and the verifier (\<open>verify.go\<close>), on the table
  \<open>audit_log\<close> as a list of rows. What an append does to the table when the database refuses
  it is an input of the operation.
\<close>

section \<open>Entries and their encoding\<close>

type_synonym uuid = string

record entry =
  ae_at :: "utc option"
  ae_tenant :: "uuid option"
  ae_user :: "uuid option"
  ae_action :: string
  ae_target :: string
  ae_method :: string
  ae_path :: string
  ae_status :: int
  ae_duration :: int
  ae_meta :: "(string, val) gomap"

definition hash_size :: nat where "hash_size = 32"

definition rs :: char where "rs = char_of (0x1E :: nat)"

definition zero_hash :: string where "zero_hash = replicate hash_size (char_of (0::nat))"

definition is_zero_hash :: "string \<Rightarrow> bool" where
  "is_zero_hash h \<longleftrightarrow> length h = hash_size \<and> list_all (\<lambda>b. b = char_of (0::nat)) h"

definition uuid_str :: "uuid option \<Rightarrow> string" where
  "uuid_str p = (case p of None \<Rightarrow> [] | Some u \<Rightarrow> u)"

definition canonical_metadata :: "(string, val) gomap \<Rightarrow> string" where
  "canonical_metadata m =
     (if m = [] then ''{}''
      else case marshal (VMap m) of Inl e \<Rightarrow> ''{}'' | Inr j \<Rightarrow> json_text j)"

text \<open>The zero time of Go is the first instant of year 1.\<close>

definition zero_time :: utc where
  "zero_time = \<lparr>u_year = 1, u_month = 1, u_day = 1, u_hour = 0, u_min = 0, u_sec = 0, u_nsec = 0\<rparr>"

definition occurred_at :: "entry \<Rightarrow> utc" where
  "occurred_at e = (case ae_at e of None \<Rightarrow> zero_time | Some t \<Rightarrow> t)"

definition canonical_fields :: "entry \<Rightarrow> string list" where
  "canonical_fields e =
     [format_rfc3339nano (occurred_at e), uuid_str (ae_tenant e), uuid_str (ae_user e), ae_action e,
      ae_target e, ae_method e, ae_path e, show_int (ae_status e), show_int (ae_duration e)]"

definition canonical :: "string \<Rightarrow> entry \<Rightarrow> string" where
  "canonical prev e =
     (if length prev = hash_size then prev else zero_hash) @
     concat (map (\<lambda>f. rs # f) (canonical_fields e)) @ rs # canonical_metadata (ae_meta e)"

definition audit_hash :: "string \<Rightarrow> entry \<Rightarrow> string" where
  "audit_hash prev e = sha256 (canonical prev e)"

section \<open>The table\<close>

record audit_row =
  ar_id :: int
  ar_entry :: entry
  ar_meta :: json
  ar_prev :: string
  ar_hash :: string

text \<open>\<open>ORDER BY id\<close>.\<close>

definition by_id :: "audit_row list \<Rightarrow> audit_row list" where
  "by_id rows = sort_key ar_id rows"

text \<open>
  What a scan of a row gives back: the columns, and the metadata that \<open>json.Unmarshal\<close> reads
  from the \<open>jsonb\<close> column into an empty map.
\<close>

definition scan_entry :: "audit_row \<Rightarrow> entry" where
  "scan_entry r = (ar_entry r)\<lparr>ae_meta := (case unmarshal (ar_meta r) of VMap m \<Rightarrow> m | _ \<Rightarrow> [])\<rparr>"

text \<open>
  \<open>Append\<close>: \<open>now\<close> is the clock, \<open>new_id\<close> the next value of the sequence, \<open>fault\<close> the error of
  the first statement the database refuses (the transaction is then rolled back).
\<close>

definition append_prepare :: "utc \<Rightarrow> entry \<Rightarrow> json \<times> entry" where
  "append_prepare now e =
     (let at = (case ae_at e of None \<Rightarrow> now | Some t \<Rightarrow> if t = zero_time then now else t);
          e1 = e\<lparr>ae_at := Some (trunc_micro at)\<rparr>
      in case marshal (VMap (ae_meta e)) of
           Inl err \<Rightarrow> (JObj [], e1\<lparr>ae_meta := []\<rparr>)
         | Inr j \<Rightarrow> (j, e1))"

definition audit_append ::
  "utc \<Rightarrow> int \<Rightarrow> string option \<Rightarrow> entry \<Rightarrow> audit_row list \<Rightarrow> string option \<times> audit_row list" where
  "audit_append now new_id fault e rows =
     (let (meta, e2) = append_prepare now e
      in case fault of
           Some err \<Rightarrow> (Some err, rows)
         | None \<Rightarrow>
             let last_hash = (if rows = [] then [] else ar_hash (last (by_id rows)));
                 prev = (if length last_hash \<noteq> hash_size then zero_hash else last_hash)
             in (None, rows @ [\<lparr>ar_id = new_id, ar_entry = e2\<lparr>ae_meta := []\<rparr>, ar_meta = reread meta,
                               ar_prev = prev, ar_hash = audit_hash prev e2\<rparr>]))"

section \<open>The verifier\<close>

record verify_result =
  vr_ok :: bool
  vr_checked :: nat
  vr_pre_chain :: nat
  vr_start :: int
  vr_end :: int
  vr_broken :: int
  vr_reason :: string
  vr_expected :: string
  vr_actual :: string

definition empty_result :: verify_result where
  "empty_result = \<lparr>vr_ok = False, vr_checked = 0, vr_pre_chain = 0, vr_start = 0, vr_end = 0,
     vr_broken = 0, vr_reason = [], vr_expected = [], vr_actual = []\<rparr>"

text \<open>The loop, with its locals \<open>inChain\<close> and \<open>running\<close>.\<close>

fun verify_walk :: "bool \<Rightarrow> bool \<Rightarrow> string \<Rightarrow> verify_result \<Rightarrow> audit_row list \<Rightarrow> verify_result" where
  "verify_walk suffix in_chain running res [] = res\<lparr>vr_ok := True\<rparr>"
| "verify_walk suffix in_chain running res (r # rows) =
     (if \<not> in_chain \<and> is_zero_hash (ar_prev r) \<and> is_zero_hash (ar_hash r)
      then verify_walk suffix False running (res\<lparr>vr_pre_chain := vr_pre_chain res + 1\<rparr>) rows
      else
       (let res1 = (if in_chain then res else res\<lparr>vr_start := ar_id r\<rparr>);
            run = (if \<not> in_chain \<and> suffix then ar_prev r else running)
        in if ar_prev r \<noteq> run then
             res1\<lparr>vr_broken := ar_id r, vr_reason := ''prev_hash_mismatch'',
                  vr_expected := hex_encode run, vr_actual := hex_encode (ar_prev r)\<rparr>
           else
             let expected = audit_hash run (scan_entry r)
             in if expected \<noteq> ar_hash r then
                  res1\<lparr>vr_broken := ar_id r, vr_reason := ''entry_hash_mismatch'',
                       vr_expected := hex_encode expected, vr_actual := hex_encode (ar_hash r)\<rparr>
                else verify_walk suffix True (ar_hash r)
                       (res1\<lparr>vr_checked := vr_checked res1 + 1, vr_end := ar_id r\<rparr>) rows))"

definition audit_verify :: "int \<Rightarrow> audit_row list \<Rightarrow> verify_result" where
  "audit_verify from_id rows =
     verify_walk (from_id > 0) False zero_hash empty_result (by_id (filter (\<lambda>r. from_id \<le> ar_id r) rows))"

section \<open>Chains\<close>

text \<open>\<open>linked f p xs\<close>: each hash of the list is \<open>f\<close> of the one before (\<open>p\<close> at first) and the entry.\<close>

fun linked :: "(string \<Rightarrow> 'e \<Rightarrow> string) \<Rightarrow> string \<Rightarrow> ('e \<times> string) list \<Rightarrow> bool" where
  "linked f p [] \<longleftrightarrow> True"
| "linked f p ((e, h) # xs) \<longleftrightarrow> h = f p e \<and> linked f h xs"

fun end_hash :: "string \<Rightarrow> ('e \<times> string) list \<Rightarrow> string" where
  "end_hash p [] = p"
| "end_hash p ((e, h) # xs) = end_hash h xs"

text \<open>The encodings the hashes are taken of.\<close>

fun preimages :: "(string \<Rightarrow> 'e \<Rightarrow> string) \<Rightarrow> string \<Rightarrow> ('e \<times> string) list \<Rightarrow> string list" where
  "preimages enc p [] = []"
| "preimages enc p ((e, h) # xs) = enc p e # preimages enc h xs"

text \<open>
  The interface: a digest \<open>H\<close> of fixed length over an encoding that starts with the previous
  hash. What follows: two chains with the same end were hashed from the same encodings, or they
  show a collision of \<open>H\<close> at one place.
\<close>

definition collision_at :: "(string \<Rightarrow> string) \<Rightarrow> string list \<Rightarrow> string list \<Rightarrow> bool" where
  "collision_at H xs ys \<longleftrightarrow> (\<exists>i < min (length xs) (length ys). xs ! i \<noteq> ys ! i \<and> H (xs ! i) = H (ys ! i))"

locale hash_chain =
  fixes H :: "string \<Rightarrow> string"
    and enc :: "string \<Rightarrow> 'e \<Rightarrow> string"
    and n :: nat
  assumes digest_length: "length (H s) = n"
    and enc_prev: "length p = n \<Longrightarrow> length q = n \<Longrightarrow> enc p e = enc q f \<Longrightarrow> p = q"
begin

abbreviation digest :: "string \<Rightarrow> 'e \<Rightarrow> string" where
  "digest p e \<equiv> H (enc p e)"

lemma linked_append: "linked digest p (xs @ ys) \<longleftrightarrow> linked digest p xs \<and> linked digest (end_hash p xs) ys"
  by (induction xs arbitrary: p) auto

lemma end_hash_append: "end_hash p (xs @ ys) = end_hash (end_hash p xs) ys"
  by (induction xs arbitrary: p) auto

lemma preimages_append: "preimages enc p (xs @ ys) = preimages enc p xs @ preimages enc (end_hash p xs) ys"
  by (induction xs arbitrary: p) auto

lemma length_preimages: "length (preimages enc p xs) = length xs"
  by (induction xs arbitrary: p) auto

lemma end_hash_length: "linked digest p xs \<Longrightarrow> length p = n \<Longrightarrow> length (end_hash p xs) = n"
  by (induction xs arbitrary: p) (auto simp: digest_length)

text \<open>The end of a chain fixes every encoding in it, unless a collision is shown.\<close>

lemma anchored:
  assumes "length xs = length ys" "length p = n" "length q = n"
    "linked digest p xs" "linked digest q ys" "end_hash p xs = end_hash q ys"
  shows "preimages enc p xs = preimages enc q ys \<and> map snd xs = map snd ys
    \<or> collision_at H (preimages enc p xs) (preimages enc q ys)"
  using assms
proof (induction xs arbitrary: ys rule: rev_induct)
  case Nil
  then show ?case by simp
next
  case (snoc x xs)
  obtain y ys' where ys: "ys = ys' @ [y]"
    using snoc.prems(1) by (cases ys rule: rev_cases) auto
  obtain e h where x: "x = (e, h)" by (cases x)
  obtain f h' where y: "y = (f, h')" by (cases y)
  let ?p = "end_hash p xs" and ?q = "end_hash q ys'"
  have len: "length xs = length ys'"
    using snoc.prems(1) ys by simp
  have hs: "h = H (enc ?p e)" "h' = H (enc ?q f)" "h = h'" and
    parts: "linked digest p xs" "linked digest q ys'"
    using snoc.prems(4-6) by (simp_all add: ys x y linked_append end_hash_append)
  have pre: "preimages enc p (xs @ [x]) = preimages enc p xs @ [enc ?p e]"
    "preimages enc q ys = preimages enc q ys' @ [enc ?q f]"
    by (simp_all add: ys x y preimages_append)
  show ?case
  proof (cases "enc ?p e = enc ?q f")
    case False
    then have "collision_at H (preimages enc p (xs @ [x])) (preimages enc q ys)"
      unfolding collision_at_def pre using hs len
      by (intro exI [of _ "length xs"]) (simp add: length_preimages nth_append)
    then show ?thesis ..
  next
    case True
    then have "?p = ?q"
      using enc_prev end_hash_length [OF parts(1) snoc.prems(2)] end_hash_length [OF parts(2) snoc.prems(3)]
      by blast
    then have "preimages enc p xs = preimages enc q ys' \<and> map snd xs = map snd ys'
        \<or> collision_at H (preimages enc p xs) (preimages enc q ys')"
      using snoc.IH [OF len snoc.prems(2,3) parts] by simp
    then show ?thesis
    proof
      assume "preimages enc p xs = preimages enc q ys' \<and> map snd xs = map snd ys'"
      then show ?thesis
        using True hs(3) by (simp add: pre) (simp add: ys x y)
    next
      assume "collision_at H (preimages enc p xs) (preimages enc q ys')"
      then have "collision_at H (preimages enc p (xs @ [x])) (preimages enc q ys)"
        unfolding collision_at_def pre
        by (fastforce simp: length_preimages nth_append)
      then show ?thesis ..
    qed
  qed
qed

end

section \<open>The chain of the table\<close>

lemma canonical_prev:
  assumes "length p = hash_size" "length q = hash_size" "canonical p e = canonical q f"
  shows "p = q"
  using assms(3) by (simp add: canonical_def assms(1,2) append_eq_append_conv)

interpretation sha: hash_chain sha256 canonical hash_size
  by unfold_locales (auto simp: length_sha256 hash_size_def intro: canonical_prev [unfolded hash_size_def])

definition row_link :: "audit_row \<Rightarrow> entry \<times> string" where
  "row_link r = (scan_entry r, ar_hash r)"

text \<open>\<open>chain_rows p rows\<close>: the rows are a chain that starts from the hash \<open>p\<close>.\<close>

fun chain_rows :: "string \<Rightarrow> audit_row list \<Rightarrow> bool" where
  "chain_rows p [] \<longleftrightarrow> True"
| "chain_rows p (r # rows) \<longleftrightarrow>
     ar_prev r = p \<and> ar_hash r = audit_hash p (scan_entry r) \<and> chain_rows (ar_hash r) rows"

lemma chain_rows_linked: "chain_rows p rows \<Longrightarrow> linked sha.digest p (map row_link rows)"
  by (induction rows arbitrary: p) (auto simp: row_link_def audit_hash_def)

lemma chain_rows_append:
  "chain_rows p (xs @ ys) \<longleftrightarrow> chain_rows p xs \<and> chain_rows (end_hash p (map row_link xs)) ys"
  by (induction xs arbitrary: p) (auto simp: row_link_def)

lemma verify_walk_ok:
  "vr_ok res = False \<Longrightarrow> vr_ok (verify_walk suffix True p res rows) \<longleftrightarrow> chain_rows p rows"
  by (induction rows arbitrary: p res) (auto simp: Let_def)

definition pre_chain :: "audit_row \<Rightarrow> bool" where
  "pre_chain r \<longleftrightarrow> is_zero_hash (ar_prev r) \<and> is_zero_hash (ar_hash r)"

lemma verify_walk_start:
  "vr_ok res = False \<Longrightarrow> vr_ok (verify_walk False False p res rows) \<longleftrightarrow>
     chain_rows p (dropWhile pre_chain rows)"
proof (induction rows arbitrary: res)
  case (Cons r rows)
  then show ?case
    by (cases "pre_chain r") (auto simp: Let_def pre_chain_def verify_walk_ok)
qed simp

lemma empty_result_not_ok [simp]: "vr_ok empty_result = False"
  by (simp add: empty_result_def)

text \<open>The rows a full verification looks at, and the part of them that is the chain.\<close>

definition chain_part :: "audit_row list \<Rightarrow> audit_row list" where
  "chain_part rows = dropWhile pre_chain (by_id (filter (\<lambda>r. 0 \<le> ar_id r) rows))"

lemma verify_ok_iff: "vr_ok (audit_verify 0 rows) \<longleftrightarrow> chain_rows zero_hash (chain_part rows)"
  by (simp add: audit_verify_def chain_part_def verify_walk_start)

definition head_hash :: "audit_row list \<Rightarrow> string" where
  "head_hash rows = (if chain_part rows = [] then zero_hash else ar_hash (last (chain_part rows)))"

lemma end_hash_last: "end_hash p (map row_link rows) = (if rows = [] then p else ar_hash (last rows))"
  by (induction rows arbitrary: p) (auto simp: row_link_def)

definition row_bytes :: "audit_row \<Rightarrow> string" where
  "row_bytes r = canonical (ar_prev r) (scan_entry r)"

lemma preimages_row_bytes: "chain_rows p rows \<Longrightarrow> preimages canonical p (map row_link rows) = map row_bytes rows"
  by (induction rows arbitrary: p) (auto simp: row_link_def row_bytes_def)

lemma length_zero_hash [simp]: "length zero_hash = hash_size"
  by (simp add: zero_hash_def)


text \<open>A table of one row, for the examples.\<close>

definition sep_entry :: "string \<Rightarrow> string \<Rightarrow> string \<Rightarrow> entry" where
  "sep_entry target meth path = \<lparr>ae_at = None, ae_tenant = None, ae_user = None, ae_action = ''file.read'',
     ae_target = target, ae_method = meth, ae_path = path, ae_status = 200, ae_duration = 0, ae_meta = []\<rparr>"

definition sample_row :: "int \<Rightarrow> audit_row" where
  "sample_row i = \<lparr>ar_id = i, ar_entry = sep_entry ''t'' ''GET'' ''/p'', ar_meta = JObj [], ar_prev = zero_hash,
     ar_hash = audit_hash zero_hash (sep_entry ''t'' ''GET'' ''/p'')\<rparr>"

lemma sample_row_scan: "scan_entry (sample_row i) = sep_entry ''t'' ''GET'' ''/p''"
  by (simp add: scan_entry_def sample_row_def sep_entry_def)

lemma sample_chain_part:
  "0 \<le> i \<Longrightarrow> chain_part [sample_row i] = (if pre_chain (sample_row 0) then [] else [sample_row i])"
  by (simp add: chain_part_def by_id_def sample_row_def pre_chain_def)

lemma sample_verifies: "0 \<le> i \<Longrightarrow> vr_ok (audit_verify 0 [sample_row i])"
  by (simp add: verify_ok_iff sample_chain_part sample_row_scan) (simp add: sample_row_def)


section \<open>What the encoding determines\<close>

lemma show_int_chars: "c \<in> set (show_int i) \<Longrightarrow> is_digit c \<or> c = CHR ''-''"
  using show_nat_digits [of "nat \<bar>i\<bar>"] by (auto simp: show_int_def list_all_iff split: if_splits)

lemma show_nat_inj: "show_nat m = show_nat n \<Longrightarrow> m = n"
  by (metis digits_val_show_nat)

lemma show_nat_minus: "show_nat m \<noteq> CHR ''-'' # s"
  using show_nat_digits [of m] by (auto simp: is_digit_def)

lemmas show_nat_no_minus = show_nat_minus show_nat_minus [symmetric]

lemma show_int_inj: "show_int i = show_int j \<Longrightarrow> i = j"
  by (auto simp: show_int_def show_nat_no_minus dest: show_nat_inj split: if_splits)

text \<open>An entry whose texts hold no record separator.\<close>

definition separable :: "entry \<Rightarrow> bool" where
  "separable e \<longleftrightarrow> utc_ok (occurred_at e) \<and>
     list_all (\<lambda>s. rs \<notin> set s)
       [uuid_str (ae_tenant e), uuid_str (ae_user e), ae_action e, ae_target e, ae_method e, ae_path e]"

lemma rs_not_digit: "\<not> is_digit rs" "rs \<noteq> CHR ''-''" "rs \<notin> set ''-T:.Z''"
  by (simp_all add: rs_def is_digit_def char_of_def)

lemma separable_fields: "separable e \<Longrightarrow> \<forall>f \<in> set (canonical_fields e). rs \<notin> set f"
  using rs_not_digit
  by (auto simp: separable_def canonical_fields_def dest: format_rfc3339nano_chars show_int_chars)

lemma concat_sep_inj:
  "length xs = length ys \<Longrightarrow> \<forall>f \<in> set xs. d \<notin> set f \<Longrightarrow> \<forall>f \<in> set ys. d \<notin> set f \<Longrightarrow>
    concat (map (\<lambda>f. d # f) xs) @ d # m = concat (map (\<lambda>f. d # f) ys) @ d # n \<Longrightarrow> xs = ys \<and> m = n"
proof (induction xs ys rule: list_induct2)
  case (Cons x xs y ys)
  have head: "\<exists>r. concat (map (\<lambda>f. d # f) zs) @ d # k = d # r" for zs k
    by (cases zs) auto
  obtain r r' where r: "concat (map (\<lambda>f. d # f) xs) @ d # m = d # r" "concat (map (\<lambda>f. d # f) ys) @ d # n = d # r'"
    using head by metis
  then have "x = y \<and> r = r'"
    using Cons.prems by (intro split_at_eq [of x d r y r']) auto
  then show ?case
    using Cons r by auto
qed simp

text \<open>
  The encoding is unambiguous on entries whose texts hold no record separator: it
  determines the previous hash, the instant, every field and the encoded metadata.
\<close>

theorem canonical_injective:
  assumes "separable e" "separable f" "length p = hash_size" "length q = hash_size"
    and "canonical p e = canonical q f"
  shows "p = q \<and> occurred_at e = occurred_at f \<and> uuid_str (ae_tenant e) = uuid_str (ae_tenant f) \<and>
    uuid_str (ae_user e) = uuid_str (ae_user f) \<and> ae_action e = ae_action f \<and> ae_target e = ae_target f \<and>
    ae_method e = ae_method f \<and> ae_path e = ae_path f \<and> ae_status e = ae_status f \<and>
    ae_duration e = ae_duration f \<and>
    canonical_metadata (ae_meta e) = canonical_metadata (ae_meta f)"
proof -
  have pq: "p = q"
    by (rule canonical_prev [OF assms(3-5)])
  then have "concat (map (\<lambda>f. rs # f) (canonical_fields e)) @ rs # canonical_metadata (ae_meta e) =
      concat (map (\<lambda>f. rs # f) (canonical_fields f)) @ rs # canonical_metadata (ae_meta f)"
    using assms(5) by (simp add: canonical_def)
  then have "canonical_fields e = canonical_fields f \<and>
      canonical_metadata (ae_meta e) = canonical_metadata (ae_meta f)"
    using separable_fields [OF assms(1)] separable_fields [OF assms(2)]
    by (intro concat_sep_inj) (simp_all add: canonical_fields_def)
  then show ?thesis
    using pq assms(1,2)
    by (auto simp: canonical_fields_def separable_def dest: format_rfc3339nano_inj show_int_inj)
qed

theorem canonical_injective_witness:
  "canonical zero_hash (sep_entry ''a'' ''GET'' ''/p'') \<noteq> canonical zero_hash (sep_entry ''b'' ''GET'' ''/p'')"
proof
  assume eq: "canonical zero_hash (sep_entry ''a'' ''GET'' ''/p'') = canonical zero_hash (sep_entry ''b'' ''GET'' ''/p'')"
  have sep: "separable (sep_entry x ''GET'' ''/p'')" if "x \<in> {''a'', ''b''}" for x
    using that by (auto simp: separable_def sep_entry_def occurred_at_def zero_time_def utc_ok_def uuid_str_def rs_def char_of_def)
  show False
    using canonical_injective [OF sep sep _ _ eq] by (simp add: sep_entry_def)
qed

text \<open>
  Without that the encoding is ambiguous: the byte \<open>0x1E\<close> is allowed in a text (it is valid
  UTF-8), and moving it from the path to the target gives two entries no hash tells apart.
\<close>

theorem canonical_ambiguous:
  "audit_hash p (sep_entry (a @ rs # b) c d) = audit_hash p (sep_entry a b (c @ rs # d)) \<and>
   ae_target (sep_entry (a @ rs # b) c d) \<noteq> ae_target (sep_entry a b (c @ rs # d))"
  by (simp add: audit_hash_def canonical_def canonical_fields_def sep_entry_def occurred_at_def)

section \<open>Appending\<close>

text \<open>The metadata survives the column: it is encoded alike after being read back.\<close>

definition meta_stable :: "(string, val) gomap \<Rightarrow> bool" where
  "meta_stable m \<longleftrightarrow> (case marshal (VMap m) of
       Inl e \<Rightarrow> True
     | Inr j \<Rightarrow> canonical_metadata (case unmarshal (reread j) of VMap m' \<Rightarrow> m' | _ \<Rightarrow> []) = canonical_metadata m)"

lemma canonical_cong:
  "canonical_metadata (ae_meta e) = canonical_metadata (ae_meta f) \<Longrightarrow>
     canonical_fields e = canonical_fields f \<Longrightarrow> audit_hash p e = audit_hash p f"
  by (simp add: audit_hash_def canonical_def)

lemma insort_key_last: "f y \<le> f x \<Longrightarrow> insort_key f y (zs @ [x]) = insort_key f y zs @ [x]"
  by (induction zs) auto

lemma sort_key_last: "\<forall>y \<in> set ys. f y \<le> f x \<Longrightarrow> sort_key f (ys @ [x]) = sort_key f ys @ [x]"
  by (induction ys) (simp_all add: insort_key_last)

lemma pre_chain_hash: "pre_chain r \<Longrightarrow> ar_hash r = zero_hash"
  by (auto simp: pre_chain_def is_zero_hash_def zero_hash_def list_all_iff intro: replicate_eqI)

lemma chain_rows_length: "chain_rows p rows \<Longrightarrow> r \<in> set rows \<Longrightarrow> length (ar_hash r) = hash_size"
  by (induction rows arbitrary: p) (auto simp: audit_hash_def length_sha256 hash_size_def)

lemma set_by_id [simp]: "set (by_id rows) = set rows"
  by (simp add: by_id_def)

lemma by_id_Nil_iff [simp]: "by_id rows = [] \<longleftrightarrow> rows = []"
  by (metis set_by_id set_empty)

lemma chain_part_append:
  assumes "\<forall>r \<in> set rows. ar_id r < ar_id x" "0 \<le> ar_id x"
  shows "chain_part (rows @ [x]) =
    (if chain_part rows = [] then (if pre_chain x then [] else [x]) else chain_part rows @ [x])"
proof -
  have "by_id (filter (\<lambda>r. 0 \<le> ar_id r) (rows @ [x])) = by_id (filter (\<lambda>r. 0 \<le> ar_id r) rows) @ [x]"
    using assms by (auto simp: by_id_def intro!: sort_key_last less_imp_le)
  then show ?thesis
    by (simp only: chain_part_def dropWhile_append dropWhile_eq_Nil_conv) simp
qed

lemma last_dropWhile: "dropWhile P xs \<noteq> [] \<Longrightarrow> last (dropWhile P xs) = last xs"
  by (induction xs) auto

text \<open>The hash an append reads is the one at the head of the chain.\<close>

lemma append_prev:
  assumes "chain_rows zero_hash (chain_part rows)" "\<forall>r \<in> set rows. 0 \<le> ar_id r"
  shows "(let h = (if rows = [] then [] else ar_hash (last (by_id rows)))
          in if length h \<noteq> hash_size then zero_hash else h) = head_hash rows"
proof -
  have all: "filter (\<lambda>r. 0 \<le> ar_id r) rows = rows"
    using assms(2) by simp
  have part: "chain_part rows = dropWhile pre_chain (by_id rows)"
    by (simp only: chain_part_def all)
  show ?thesis
  proof (cases "chain_part rows = []")
    case True
    then have "pre_chain (last (by_id rows))" if "rows \<noteq> []"
      using that last_in_set [of "by_id rows"] by (auto simp: part dropWhile_eq_Nil_conv)
    then show ?thesis
      using True by (auto simp: head_hash_def pre_chain_hash Let_def hash_size_def)
  next
    case False
    then have "last (chain_part rows) = last (by_id rows)" "rows \<noteq> []"
      by (auto simp: part last_dropWhile)
    moreover have "length (ar_hash (last (chain_part rows))) = hash_size"
      using False by (intro chain_rows_length [OF assms(1)]) simp
    ultimately show ?thesis
      using False by (simp add: head_hash_def)
  qed
qed


definition sample_time :: utc where
  "sample_time = \<lparr>u_year = 2025, u_month = 6, u_day = 1, u_hour = 12, u_min = 0, u_sec = 0, u_nsec = 123456789\<rparr>"


lemma join_single [simp]: "join_with d [s] = s"
  by simp

lemma stable_int:
  "meta_stable [(k, VInt i)] \<Longrightarrow> canonical_metadata [(clean_utf8 k, VFloat (f64_of_int i))] = canonical_metadata [(k, VInt i)]"
  by (simp add: meta_stable_def)

text \<open>
  Where the metadata does not survive the column an honest append breaks the log: an integer
  is hashed with all its digits and read back as the nearest float64, so of two integers with
  the same float64 (above \<open>2 ^ 53\<close>) at most one keeps the log verifiable.
\<close>

theorem big_integers_unstable:
  assumes "i \<noteq> j" "f64_of_int i = f64_of_int j"
  shows "\<not> (meta_stable [(k, VInt i)] \<and> meta_stable [(k, VInt j)])"
proof
  assume "meta_stable [(k, VInt i)] \<and> meta_stable [(k, VInt j)]"
  then have "canonical_metadata [(k, VInt i)] = canonical_metadata [(k, VInt j)]"
    using stable_int assms(2) by metis
  then show False
    using assms(1) by (auto simp: canonical_metadata_def dest: show_int_inj)
qed

theorem big_integers_unstable_witness:
  "\<not> (meta_stable [(''bytes'', VInt 9007199254740992)] \<and> meta_stable [(''bytes'', VInt 9007199254740993)])"
proof -
  have "f64_of_int 9007199254740992 = f64_of_int 9007199254740993"
    by (simp add: f64_of_int_def f64_of_ratio_def bitlen.simps round_div_def Let_def)
  then show ?thesis
    by (intro big_integers_unstable) simp_all
qed

end
