(* ===== verification/ToolBus.thy ===== *)
theory ToolBus
  imports Json Sha256
begin

text \<open>
  The tool bus, \<open>src/internal/toolbus\<close>: the registry (\<open>registry.go\<close>), the bus over it with its
  compiled schemas (\<open>bus.go\<close>, \<open>schema.go\<close>) and the invocation path. The JSON-schema compiler and
  validator are a third-party package: they are a parameter (\<open>schema_lib\<close>), as is what a tool
  does when it is called. Each operation runs under the registry's lock and is one function on
  the state of the bus.
\<close>

declare map_of_eq_Some_iff [simp del]

section \<open>Tools and schemas\<close>

text \<open>A tool: \<open>tl_mutating\<close> is \<open>None\<close> when it does not implement \<open>Mutating\<close>; \<open>tl_impl\<close> is the object behind it.\<close>

record 'i tool =
  tl_name :: string
  tl_descr :: string
  tl_schema :: string
  tl_mutating :: "bool option"
  tl_impl :: 'i

text \<open>A raw message: its bytes and, if they are JSON, the document.\<close>

record raw =
  raw_bytes :: string
  raw_json :: "json option"

record 's schema_lib =
  sl_parse :: "string \<Rightarrow> json result"
  sl_compile :: "json \<Rightarrow> 's result"
  sl_validate :: "'s \<Rightarrow> json \<Rightarrow> string option"

datatype bus_err =
    ToolNotFound
  | InvalidArguments string
  | SandboxIDRequired string
  | NilSchema
  | BusOther string

text \<open>
  \<open>CompileSchema\<close> and \<open>Validate\<close>. \<open>NilSchema\<close>: the validator is called on a nil schema, which
  the bus never checks for.
\<close>

definition compile_schema :: "('s, 'z) schema_lib_scheme \<Rightarrow> string \<Rightarrow> 's result" where
  "compile_schema lib src =
     (case sl_parse lib src of
        Inl e \<Rightarrow> Inl (''schema: parse: '' @ e)
      | Inr doc \<Rightarrow>
          (case sl_compile lib doc of
             Inl e \<Rightarrow> Inl (''schema: compile: '' @ e)
           | Inr s \<Rightarrow> Inr s))"

definition validate_input :: "('s, 'z) schema_lib_scheme \<Rightarrow> 's option \<Rightarrow> raw \<Rightarrow> bus_err option" where
  "validate_input lib schema input =
     (case raw_json input of
        None \<Rightarrow> Some (InvalidArguments ''toolbus: invalid arguments: input not JSON'')
      | Some inst \<Rightarrow>
          (case schema of
             None \<Rightarrow> Some NilSchema
           | Some s \<Rightarrow> map_option (\<lambda>e. InvalidArguments (''toolbus: invalid arguments: '' @ e)) (sl_validate lib s inst)))"

section \<open>The registry\<close>

type_synonym 'i registry = "(string, 'i tool) gomap"

definition reg_register :: "'i tool \<Rightarrow> 'i registry \<Rightarrow> string option \<times> 'i registry" where
  "reg_register t r =
     (case map_of r (tl_name t) of
        Some _ \<Rightarrow> (Some (''toolbus: duplicate tool name '' @ quote (tl_name t)), r)
      | None \<Rightarrow> (None, AList.update (tl_name t) t r))"

definition reg_unregister :: "string \<Rightarrow> 'i registry \<Rightarrow> string option \<times> 'i registry" where
  "reg_unregister name r =
     (case map_of r name of
        None \<Rightarrow> (Some (''toolbus: tool '' @ quote name @ '' not registered''), r)
      | Some _ \<Rightarrow> (None, AList.delete name r))"

definition reg_get :: "string \<Rightarrow> 'i registry \<Rightarrow> 'i tool option" where
  "reg_get name r = map_of r name"

definition reg_list :: "'i registry \<Rightarrow> 'i tool list" where
  "reg_list r = sort_key tl_name (map snd r)"

section \<open>The bus\<close>

record inv_event =
  ev_tenant :: string
  ev_user :: string
  ev_tool :: string
  ev_status :: string
  ev_class :: string
  ev_input_sha :: string
  ev_output_sha :: string

record ('i, 's) bus =
  bus_reg :: "'i registry"
  bus_schemas :: "(string, 's) gomap"
  bus_events :: "inv_event list"
  bus_audited :: "(string \<times> string) list"

definition tool_mutating :: "'i tool \<Rightarrow> bool" where
  "tool_mutating t = (case tl_mutating t of None \<Rightarrow> False | Some m \<Rightarrow> m)"

fun compile_all :: "('s, 'z) schema_lib_scheme \<Rightarrow> 'i tool list \<Rightarrow> (string, 's) gomap \<Rightarrow> (string, 's) gomap result" where
  "compile_all lib [] m = Inr m"
| "compile_all lib (t # ts) m =
     (case compile_schema lib (tl_schema t) of
        Inl e \<Rightarrow> Inl (''toolbus: compile schema for '' @ quote (tl_name t) @ '': '' @ e)
      | Inr s \<Rightarrow> compile_all lib ts (AList.update (tl_name t) s m))"

definition new_bus :: "('s, 'z) schema_lib_scheme \<Rightarrow> 'i registry \<Rightarrow> ('i, 's) bus result" where
  "new_bus lib reg =
     on_ok (compile_all lib (reg_list reg) []) (\<lambda>schemas.
       Inr \<lparr>bus_reg = reg, bus_schemas = schemas, bus_events = [], bus_audited = []\<rparr>)"

definition bus_register ::
  "('s, 'z) schema_lib_scheme \<Rightarrow> 'i tool \<Rightarrow> ('i, 's) bus \<Rightarrow> string option \<times> ('i, 's) bus" where
  "bus_register lib t b =
     (case reg_register t (bus_reg b) of
        (Some e, _) \<Rightarrow> (Some e, b)
      | (None, reg) \<Rightarrow>
          (let b1 = b\<lparr>bus_reg := reg\<rparr>
           in case compile_schema lib (tl_schema t) of
                Inl e \<Rightarrow> (Some (''toolbus: compile schema for '' @ quote (tl_name t) @ '': '' @ e), b1)
              | Inr s \<Rightarrow> (None, b1\<lparr>bus_schemas := AList.update (tl_name t) s (bus_schemas b)\<rparr>)))"

definition bus_unregister :: "string \<Rightarrow> ('i, 's) bus \<Rightarrow> string option \<times> ('i, 's) bus" where
  "bus_unregister name b =
     (case reg_unregister name (bus_reg b) of
        (Some e, _) \<Rightarrow> (Some e, b)
      | (None, reg) \<Rightarrow> (None, b\<lparr>bus_reg := reg, bus_schemas := AList.delete name (bus_schemas b)\<rparr>))"

record tool_def =
  td_name :: string
  td_descr :: string
  td_params :: string
  td_mutating :: bool

definition list_tools :: "('i, 's) bus \<Rightarrow> tool_def list" where
  "list_tools b = map (\<lambda>t. \<lparr>td_name = tl_name t, td_descr = tl_descr t, td_params = tl_schema t,
                          td_mutating = tool_mutating t\<rparr>) (reg_list (bus_reg b))"

definition bus_is_mutating :: "('i, 's) bus \<Rightarrow> string \<Rightarrow> bool" where
  "bus_is_mutating b name = (case reg_get name (bus_reg b) of None \<Rightarrow> False | Some t \<Rightarrow> tool_mutating t)"

definition sha256_hex :: "string \<Rightarrow> string" where
  "sha256_hex s = (if s = [] then [] else hex_encode (sha256 s))"

definition classify_error :: "bus_err \<Rightarrow> string" where
  "classify_error e = (case e of
       InvalidArguments _ \<Rightarrow> ''validation''
     | SandboxIDRequired _ \<Rightarrow> ''validation''
     | ToolNotFound \<Rightarrow> ''tool_not_found''
     | _ \<Rightarrow> ''other'')"

text \<open>The event of a call, and what the bus hands to the recorder and the audit sink.\<close>

definition invocation_event :: "string \<Rightarrow> string \<Rightarrow> string \<Rightarrow> raw \<Rightarrow> bus_err + raw \<Rightarrow> inv_event" where
  "invocation_event tenant user name input result =
     \<lparr>ev_tenant = tenant, ev_user = user, ev_tool = name,
      ev_status = (case result of Inl e \<Rightarrow> ''error'' | Inr out \<Rightarrow> ''ok''),
      ev_class = (case result of Inl e \<Rightarrow> classify_error e | Inr out \<Rightarrow> []),
      ev_input_sha = sha256_hex (raw_bytes input),
      ev_output_sha = (case result of Inl e \<Rightarrow> [] | Inr out \<Rightarrow> sha256_hex (raw_bytes out))\<rparr>"

definition record_call :: "bool \<Rightarrow> inv_event \<Rightarrow> ('i, 's) bus \<Rightarrow> ('i, 's) bus" where
  "record_call sink ev b =
     b\<lparr>bus_events := ev # bus_events b,
       bus_audited := (if sink \<and> ev_status ev = ''error'' then (ev_tool ev, ev_class ev) # bus_audited b
                       else bus_audited b)\<rparr>"

text \<open>
  \<open>Invoke\<close>. \<open>call\<close>: what the tool answers; \<open>sink\<close>: whether an audit sink is wired; \<open>quota\<close>: the
  refusal of the quota service (\<open>None\<close> when it is off or the call is within the cap). The
  result says whether the tool was called, and what the caller gets.
\<close>

definition bus_invoke ::
  "('s, 'z) schema_lib_scheme \<Rightarrow> bool \<Rightarrow> string option \<Rightarrow> ('i tool \<Rightarrow> raw \<Rightarrow> bus_err + raw) \<Rightarrow>
   string \<Rightarrow> string \<Rightarrow> string \<Rightarrow> raw \<Rightarrow> ('i, 's) bus \<Rightarrow> bool \<times> (bus_err + raw) \<times> ('i, 's) bus" where
  "bus_invoke lib sink quota call tenant user name input b =
     (case reg_get name (bus_reg b) of
        None \<Rightarrow> (False, Inl ToolNotFound, b)
      | Some t \<Rightarrow>
          (case validate_input lib (map_of (bus_schemas b) name) input of
             Some e \<Rightarrow> (False, Inl e, b)
           | None \<Rightarrow>
               (case quota of
                  Some e \<Rightarrow> (False, Inl (BusOther e), b)
                | None \<Rightarrow>
                    (True, call t input,
                     record_call sink (invocation_event tenant user name input (call t input)) b))))"

section \<open>The interface of a tool store\<close>

text \<open>
  What the workflow service relies on (\<open>BusRegistrar\<close>): registering succeeds on a fresh name
  whose schema compiles and makes the tool visible, unregistering removes exactly one name.
\<close>

locale tool_store =
  fixes register :: "'t \<Rightarrow> 'b \<Rightarrow> string option \<times> 'b"
    and unregister :: "string \<Rightarrow> 'b \<Rightarrow> string option \<times> 'b"
    and visible :: "'b \<Rightarrow> string \<Rightarrow> 't option"
    and name :: "'t \<Rightarrow> string"
    and good :: "'t \<Rightarrow> bool"
  assumes register_fresh:
      "visible b (name t) = None \<Longrightarrow> good t \<Longrightarrow>
         \<exists>b'. register t b = (None, b') \<and> (\<forall>n. visible b' n = (if n = name t then Some t else visible b n))"
    and register_frame: "register t b = (e, b') \<Longrightarrow> n \<noteq> name t \<Longrightarrow> visible b' n = visible b n"
    and unregister_spec:
      "\<exists>e b'. unregister n b = (e, b') \<and> (e = None \<longleftrightarrow> visible b n \<noteq> None) \<and>
         (\<forall>m. visible b' m = (if m = n then None else visible b m))"
begin

text \<open>The swap of \<open>registerTool\<close>: unregister, ignore the error, register.\<close>

definition swap_in :: "'t \<Rightarrow> 'b \<Rightarrow> string option \<times> 'b" where
  "swap_in t b = register t (snd (unregister (name t) b))"

lemma unregister_visible: "visible (snd (unregister n b)) m = (if m = n then None else visible b m)"
  using unregister_spec [of n b] by force

lemma swap_in_good:
  assumes "good t"
  shows "\<exists>b'. swap_in t b = (None, b') \<and> (\<forall>n. visible b' n = (if n = name t then Some t else visible b n))"
  using register_fresh [of "snd (unregister (name t) b)" t, OF _ assms]
  by (auto simp: swap_in_def unregister_visible)

text \<open>Whatever happens, the other names keep their tools.\<close>

lemma swap_in_frame:
  "n \<noteq> name t \<Longrightarrow> visible (snd (swap_in t b)) n = visible b n"
  using register_frame [of t "snd (unregister (name t) b)" "fst (swap_in t b)" "snd (swap_in t b)" n]
  by (simp add: swap_in_def unregister_visible)

end

lemmas reg_defs [bus_simps] = reg_register_def reg_unregister_def reg_get_def

interpretation reg: tool_store reg_register reg_unregister "\<lambda>r n. reg_get n r" tl_name "\<lambda>_. True"
  by unfold_locales (auto simp: bus_simps split: option.splits)

interpretation tool_bus: tool_store "bus_register lib" bus_unregister "\<lambda>b n. reg_get n (bus_reg b)" tl_name
    "\<lambda>t. \<exists>s. compile_schema lib (tl_schema t) = Inr s" for lib
  by unfold_locales
    (auto simp: bus_register_def bus_unregister_def bus_simps Let_def split: option.splits sum.splits)

section \<open>The life of a bus\<close>

text \<open>
  A bus as the server has it: built over a registry filled by \<open>Register\<close>, then any sequence of
  operations on it.
\<close>

inductive bus_reach :: "('s, 'z) schema_lib_scheme \<Rightarrow> ('i, 's) bus \<Rightarrow> bool" for lib where
  build: "fold (\<lambda>t r. snd (reg_register t r)) ts [] = reg \<Longrightarrow> new_bus lib reg = Inr b \<Longrightarrow> bus_reach lib b"
| register: "bus_reach lib b \<Longrightarrow> bus_reach lib (snd (bus_register lib t b))"
| unregister: "bus_reach lib b \<Longrightarrow> bus_reach lib (snd (bus_unregister n b))"
| invoke: "bus_reach lib b \<Longrightarrow> bus_reach lib (snd (snd (bus_invoke lib sink quota call tenant user n input b)))"

definition reg_ok :: "'i registry \<Rightarrow> bool" where
  "reg_ok r \<longleftrightarrow> gomap r \<and> (\<forall>n t. map_of r n = Some t \<longrightarrow> tl_name t = n)"

text \<open>The schemas are those of registered tools, compiled from what the tool advertises.\<close>

definition bus_ok :: "('s, 'z) schema_lib_scheme \<Rightarrow> ('i, 's) bus \<Rightarrow> bool" where
  "bus_ok lib b \<longleftrightarrow> reg_ok (bus_reg b) \<and>
     (\<forall>n s. map_of (bus_schemas b) n = Some s \<longrightarrow>
        (\<exists>t. map_of (bus_reg b) n = Some t \<and> compile_schema lib (tl_schema t) = Inr s))"

lemma reg_ok_register: "reg_ok r \<Longrightarrow> reg_ok (snd (reg_register t r))"
  by (auto simp: reg_ok_def reg_register_def split: option.splits if_splits)

lemma reg_ok_fold: "reg_ok r \<Longrightarrow> reg_ok (fold (\<lambda>t r. snd (reg_register t r)) ts r)"
  by (induction ts arbitrary: r) (auto simp: reg_ok_register)

lemma compile_all_spec:
  "compile_all lib ts m = Inr m' \<Longrightarrow> map_of m' n = Some s \<Longrightarrow>
     map_of m n = Some s \<or> (\<exists>t \<in> set ts. tl_name t = n \<and> compile_schema lib (tl_schema t) = Inr s)"
  by (induction ts arbitrary: m) (auto split: sum.splits if_splits; fastforce split: if_splits)+

lemma reg_list_set: "set (reg_list r) = snd ` set r"
  by (simp add: reg_list_def)

lemma reg_ok_member: "reg_ok r \<Longrightarrow> t \<in> snd ` set r \<Longrightarrow> map_of r (tl_name t) = Some t"
  by (auto simp: reg_ok_def dest!: map_of_is_SomeI)

lemma distinct_map_sort: "distinct (map f (sort_key g xs)) = distinct (map f xs)"
  by (simp add: distinct_map)

lemma bus_ok_schema:
  "bus_ok lib b \<Longrightarrow> map_of (bus_schemas b) n = Some s \<Longrightarrow> reg_get n (bus_reg b) = Some t \<Longrightarrow>
     compile_schema lib (tl_schema t) = Inr s"
  by (force simp: bus_ok_def reg_get_def)

lemma bus_ok_no_schema:
  "bus_ok lib b \<Longrightarrow> reg_get n (bus_reg b) = None \<Longrightarrow> map_of (bus_schemas b) n = None"
  by (cases "map_of (bus_schemas b) n") (force simp: bus_ok_def reg_get_def)+

lemma bus_reach_ok: "bus_reach lib b \<Longrightarrow> bus_ok lib b"
proof (induction rule: bus_reach.induct)
  case (build ts reg b)
  have reg: "reg_ok reg"
    using reg_ok_fold [of "[]" ts] build(1) by (simp add: reg_ok_def)
  from build(2) have b: "compile_all lib (reg_list reg) [] = Inr (bus_schemas b)" "bus_reg b = reg"
    by (auto simp: new_bus_def on_ok_Inr_iff)
  have "\<exists>t. map_of reg n = Some t \<and> compile_schema lib (tl_schema t) = Inr s"
    if "map_of (bus_schemas b) n = Some s" for n s
    using compile_all_spec [OF b(1) that] reg_ok_member [OF reg] by (auto simp: reg_list_set)
  then show ?case
    using reg b by (simp add: bus_ok_def)
next
  case (register b t)
  then show ?case
    using reg_ok_register [of "bus_reg b" t]
    by (fastforce simp: bus_ok_def bus_register_def Let_def reg_register_def split: option.splits sum.splits)
next
  case (unregister b n)
  then show ?case
    by (auto simp: bus_ok_def bus_unregister_def reg_unregister_def reg_ok_def split: option.splits)
next
  case (invoke b sink quota call tenant user n input)
  then show ?case
    by (auto simp: bus_ok_def bus_invoke_def record_call_def split: option.splits)
qed

section \<open>A bus to look at\<close>

text \<open>A validator that takes every document, and one tool.\<close>

definition open_lib :: "unit schema_lib" where
  "open_lib = \<lparr>sl_parse = (\<lambda>src. if src = ''{}'' then Inr (JObj []) else Inl ''unexpected end of JSON input''),
     sl_compile = (\<lambda>doc. Inr ()), sl_validate = (\<lambda>s inst. None)\<rparr>"

definition echo_tool :: "string \<Rightarrow> string \<Rightarrow> unit tool" where
  "echo_tool n src = \<lparr>tl_name = n, tl_descr = ''echo'', tl_schema = src, tl_mutating = None, tl_impl = ()\<rparr>"

definition echo_bus :: "(unit, unit) bus" where
  "echo_bus = \<lparr>bus_reg = [(''echo'', echo_tool ''echo'' ''{}'')], bus_schemas = [(''echo'', ())],
     bus_events = [], bus_audited = []\<rparr>"

definition empty_args :: raw where
  "empty_args = \<lparr>raw_bytes = ''{}'', raw_json = Some (JObj [])\<rparr>"

lemma echo_bus_reach: "bus_reach open_lib echo_bus"
  by (rule bus_reach.build [of "[echo_tool ''echo'' ''{}'']" "[(''echo'', echo_tool ''echo'' ''{}'')]"])
    (simp_all add: bus_simps echo_tool_def new_bus_def reg_list_def compile_schema_def open_lib_def echo_bus_def)

section \<open>Properties\<close>

text \<open>A call that reaches its tool.\<close>

lemma bus_invoke_served:
  assumes "bus_reach lib b" "bus_invoke lib sink quota call tenant user name input b = (True, result, b')"
  shows "\<exists>t s inst. reg_get name (bus_reg b) = Some t \<and> tl_name t = name \<and>
      compile_schema lib (tl_schema t) = Inr s \<and> raw_json input = Some inst \<and> sl_validate lib s inst = None \<and>
      quota = None \<and> result = call t input \<and> bus_reg b' = bus_reg b \<and>
      bus_events b' = invocation_event tenant user name input result # bus_events b"
proof -
  have ok: "bus_ok lib b"
    by (rule bus_reach_ok [OF assms(1)])
  from assms(2) obtain t where t: "reg_get name (bus_reg b) = Some t"
    and val: "validate_input lib (map_of (bus_schemas b) name) input = None" and q: "quota = None"
    by (auto simp: bus_invoke_def split: option.splits)
  from val obtain inst s where s: "raw_json input = Some inst" "map_of (bus_schemas b) name = Some s"
      "sl_validate lib s inst = None"
    by (auto simp: validate_input_def split: option.splits)
  have "compile_schema lib (tl_schema t) = Inr s" "tl_name t = name"
    using bus_ok_schema [OF ok s(2) t] ok t by (auto simp: bus_ok_def reg_get_def reg_ok_def)
  then show ?thesis
    using t s q val assms(2)
    by (auto simp: bus_invoke_def record_call_def)
qed



text \<open>
  A call that reaches no tool changes nothing: no event, no audit entry, the same bus.
\<close>

theorem invoke_refused_is_silent:
  assumes "bus_invoke lib sink quota call tenant user name input b = (False, result, b')"
  shows "b' = b \<and> (\<exists>e. result = Inl e)"
  using assms by (auto simp: bus_invoke_def split: option.splits)

theorem invoke_refused_is_silent_witness:
  "\<exists>e. Inl ToolNotFound = (Inl e :: bus_err + raw)"
proof -
  have "bus_invoke open_lib False None (\<lambda>t i. Inr i) ''t'' ''u'' ''nope'' empty_args echo_bus = (False, Inl ToolNotFound, echo_bus)"
    by (simp add: bus_invoke_def reg_get_def echo_bus_def)
  from invoke_refused_is_silent [OF this] show ?thesis by blast
qed

lemma sorted_distinct_keys: "distinct (map f xs) \<Longrightarrow> sorted (map f xs) \<Longrightarrow> sorted_wrt (<) (map f xs)"
  by (simp add: strict_sorted_iff)

definition advertised :: "('i, 's) bus \<Rightarrow> 'i tool \<Rightarrow> tool_def" where
  "advertised b t = \<lparr>td_name = tl_name t, td_descr = tl_descr t, td_params = tl_schema t,
     td_mutating = bus_is_mutating b (tl_name t)\<rparr>"

lemma td_name_advertised [simp]: "td_name (advertised b t) = tl_name t"
  by (simp add: advertised_def)

text \<open>
  The listing of a bus: strictly sorted by name, one definition per visible tool, with the
  flag \<open>IsMutating\<close> reports for it.
\<close>

theorem list_tools_spec:
  assumes "bus_reach lib b"
  shows "sorted_wrt (<) (map td_name (list_tools b)) \<and>
    (\<forall>d. d \<in> set (list_tools b) \<longleftrightarrow>
       (\<exists>t. reg_get (td_name d) (bus_reg b) = Some t \<and>
          d = advertised b t))"
proof -
  have ok: "reg_ok (bus_reg b)"
    using bus_reach_ok [OF assms] by (simp add: bus_ok_def)
  have names: "map (tl_name \<circ> snd) (bus_reg b) = map fst (bus_reg b)"
    using ok by (auto simp: reg_ok_def)
  have "sorted (map tl_name (reg_list (bus_reg b)))"
    by (simp add: reg_list_def)
  moreover have "distinct (map tl_name (reg_list (bus_reg b)))"
    using ok by (simp only: reg_list_def distinct_map_sort map_map names reg_ok_def)
  ultimately have "sorted_wrt (<) (map tl_name (reg_list (bus_reg b)))"
    by (rule sorted_distinct_keys [rotated])
  moreover have "map td_name (list_tools b) = map tl_name (reg_list (bus_reg b))"
    by (simp add: list_tools_def)
  moreover have "(\<forall>d. d \<in> set (list_tools b) \<longleftrightarrow>
       (\<exists>t. reg_get (td_name d) (bus_reg b) = Some t \<and> d = advertised b t))"
  proof -
    have listed: "t \<in> set (reg_list (bus_reg b)) \<longleftrightarrow> reg_get (tl_name t) (bus_reg b) = Some t" for t
      using reg_ok_member [OF ok, of t] map_of_SomeD [of "bus_reg b" "tl_name t" t]
      by (force simp: reg_list_set reg_get_def)
    have def: "\<lparr>td_name = tl_name t, td_descr = tl_descr t, td_params = tl_schema t, td_mutating = tool_mutating t\<rparr>
        = advertised b t" if "reg_get (tl_name t) (bus_reg b) = Some t" for t
      using that by (simp add: advertised_def bus_is_mutating_def)
    have name: "tl_name t = n" if "reg_get n (bus_reg b) = Some t" for n t
      using that ok by (simp add: reg_ok_def reg_get_def)
    show ?thesis
    proof
      fix d
      have "d \<in> set (list_tools b) \<longleftrightarrow> (\<exists>t \<in> set (reg_list (bus_reg b)). d = advertised b t)"
        using listed def by (auto simp: list_tools_def)
      also have "\<dots> \<longleftrightarrow> (\<exists>t. reg_get (td_name d) (bus_reg b) = Some t \<and> d = advertised b t)"
        using listed name by (metis td_name_advertised)
      finally show "d \<in> set (list_tools b) \<longleftrightarrow>
          (\<exists>t. reg_get (td_name d) (bus_reg b) = Some t \<and> d = advertised b t)" .
    qed
  qed
  ultimately show ?thesis
    by simp
qed

theorem list_tools_spec_witness: "sorted_wrt (<) (map td_name (list_tools echo_bus))"
  using list_tools_spec [OF echo_bus_reach] by simp

text \<open>
  A tool whose schema does not compile: \<open>Register\<close> reports the error but leaves the tool in
  the registry without a schema, so the tool is listed and a later call with any JSON input
  reaches the validator with a nil schema.
\<close>

theorem failed_register_leaves_tool:
  assumes "bus_reach lib b" "reg_get (tl_name t) (bus_reg b) = None" "compile_schema lib (tl_schema t) = Inl e"
    and "raw_json input = Some inst"
  shows "\<exists>err b'. bus_register lib t b = (Some err, b') \<and> reg_get (tl_name t) (bus_reg b') = Some t \<and>
     bus_invoke lib sink quota call tenant user (tl_name t) input b' = (False, Inl NilSchema, b')"
proof -
  have "map_of (bus_schemas b) (tl_name t) = None"
    by (rule bus_ok_no_schema [OF bus_reach_ok [OF assms(1)] assms(2)])
  then show ?thesis
    using assms(2-4)
    by (simp add: bus_register_def bus_simps Let_def bus_invoke_def validate_input_def)
qed

theorem failed_register_leaves_tool_witness:
  "\<exists>err b'. bus_register open_lib (echo_tool ''x'' []) echo_bus = (Some err, b') \<and>
     reg_get ''x'' (bus_reg b') = Some (echo_tool ''x'' [])"
proof -
  have name: "tl_name (echo_tool ''x'' []) = ''x''"
    by (simp add: echo_tool_def)
  have a: "reg_get (tl_name (echo_tool ''x'' [])) (bus_reg echo_bus) = None"
    by (simp add: reg_get_def echo_bus_def name)
  have b: "compile_schema open_lib (tl_schema (echo_tool ''x'' [])) = Inl ''schema: parse: unexpected end of JSON input''"
    by (simp add: compile_schema_def open_lib_def echo_tool_def)
  have c: "raw_json empty_args = Some (JObj [])"
    by (simp add: empty_args_def)
  show ?thesis
    using failed_register_leaves_tool [OF echo_bus_reach a b c, of False None "\<lambda>t i. Inr i" "[]" "[]"]
    unfolding name by blast
qed

end
