(* ===== verification/WfStore.thy ===== *)
theory WfStore
  imports WfValidate Json
begin

text \<open>
  The tables of the workflow service and the statements its repositories run on them:
  \<open>src/internal/workflow/repo.go\<close>, \<open>trigger_repo.go\<close>, \<open>trigger_sync.go\<close>, \<open>retention.go\<close>. A table
  is the list of its rows in insertion order; a statement is a function on the tables. A
  database that refuses a statement is an input (\<open>faults\<close>): the error of the statement with that
  label, which then has no effect. Row timestamps that nothing reads are left out.
\<close>

type_synonym uuid = string
type_synonym faults = "string \<Rightarrow> string option"

record wf_row =
  wr_id :: uuid
  wr_tenant :: uuid
  wr_slug :: string
  wr_name :: string
  wr_descr :: string
  wr_dsl :: string
  wr_version :: int
  wr_published :: bool

record run_row =
  rn_id :: uuid
  rn_tenant :: uuid
  rn_user :: uuid
  rn_workflow :: uuid
  rn_version :: int
  rn_dry_run :: bool
  rn_status :: string
  rn_inputs :: json
  rn_outputs :: "json option"
  rn_error :: string
  rn_started :: int
  rn_duration :: int

datatype trigger_kind = TriggerCron | TriggerWebhook

record trig_row =
  tg_id :: uuid
  tg_tenant :: uuid
  tg_workflow :: uuid
  tg_trigger :: string
  tg_kind :: trigger_kind
  tg_cron :: string
  tg_timezone :: string
  tg_token :: string
  tg_inputs :: json
  tg_enabled :: bool
  tg_next_run :: "int option"
  tg_last_status :: string
  tg_last_error :: string

record tables =
  tb_workflows :: "wf_row list"
  tb_runs :: "run_row list"
  tb_triggers :: "trig_row list"

datatype svc_err = ErrNotFound | ErrSlugTaken string | SvcErr string

type_synonym 'a svc_result = "svc_err + 'a"

fun svc_err_text :: "svc_err \<Rightarrow> string" where
  "svc_err_text ErrNotFound = ''workflow: not found''"
| "svc_err_text (ErrSlugTaken s) = ''workflow: slug already used in tenant: '' @ s"
| "svc_err_text (SvcErr e) = e"

section \<open>Workflows (repo.go)\<close>

definition at_slug :: "uuid \<Rightarrow> string \<Rightarrow> wf_row \<Rightarrow> bool" where
  "at_slug tenant slug w \<longleftrightarrow> wr_tenant w = tenant \<and> wr_slug w = slug"

definition repo_create ::
  "faults \<Rightarrow> uuid \<Rightarrow> uuid \<Rightarrow> string \<Rightarrow> string \<Rightarrow> string \<Rightarrow> string \<Rightarrow> tables \<Rightarrow> wf_row svc_result \<times> tables" where
  "repo_create fault new_id tenant slug name descr dsl tb =
     (case fault ''insert workflow'' of
        Some e \<Rightarrow> (Inl (SvcErr (''insert workflow: '' @ e)), tb)
      | None \<Rightarrow>
          if list_ex (at_slug tenant slug) (tb_workflows tb) then (Inl (ErrSlugTaken slug), tb)
          else
            let w = \<lparr>wr_id = new_id, wr_tenant = tenant, wr_slug = slug, wr_name = name, wr_descr = descr,
                     wr_dsl = dsl, wr_version = 1, wr_published = False\<rparr>
            in (Inr w, tb\<lparr>tb_workflows := tb_workflows tb @ [w]\<rparr>))"

definition repo_get :: "faults \<Rightarrow> uuid \<Rightarrow> string \<Rightarrow> tables \<Rightarrow> wf_row svc_result" where
  "repo_get fault tenant slug tb =
     (case fault ''get workflow'' of
        Some e \<Rightarrow> Inl (SvcErr (''scan workflow: '' @ e))
      | None \<Rightarrow>
          (case find (at_slug tenant slug) (tb_workflows tb) of
             None \<Rightarrow> Inl ErrNotFound
           | Some w \<Rightarrow> Inr w))"

definition repo_list :: "uuid \<Rightarrow> tables \<Rightarrow> wf_row list" where
  "repo_list tenant tb =
     map (\<lambda>w. w\<lparr>wr_dsl := []\<rparr>) (sort_key wr_slug (filter (\<lambda>w. wr_tenant w = tenant) (tb_workflows tb)))"

definition map_slug :: "uuid \<Rightarrow> string \<Rightarrow> (wf_row \<Rightarrow> wf_row) \<Rightarrow> tables \<Rightarrow> tables" where
  "map_slug tenant slug f tb =
     tb\<lparr>tb_workflows := map (\<lambda>w. if at_slug tenant slug w then f w else w) (tb_workflows tb)\<rparr>"

definition repo_update ::
  "faults \<Rightarrow> uuid \<Rightarrow> string \<Rightarrow> string \<Rightarrow> string \<Rightarrow> string \<Rightarrow> tables \<Rightarrow> wf_row svc_result \<times> tables" where
  "repo_update fault tenant slug name descr dsl tb =
     (case fault ''update workflow'' of
        Some e \<Rightarrow> (Inl (SvcErr (''scan workflow: '' @ e)), tb)
      | None \<Rightarrow>
          let tb' = map_slug tenant slug (\<lambda>w. w\<lparr>wr_name := name, wr_descr := descr, wr_dsl := dsl,
                      wr_version := wr_version w + 1, wr_published := False\<rparr>) tb
          in case find (at_slug tenant slug) (tb_workflows tb') of
               None \<Rightarrow> (Inl ErrNotFound, tb')
             | Some w \<Rightarrow> (Inr w, tb'))"

definition repo_set_published ::
  "faults \<Rightarrow> uuid \<Rightarrow> string \<Rightarrow> bool \<Rightarrow> tables \<Rightarrow> svc_err option \<times> tables" where
  "repo_set_published fault tenant slug published tb =
     (case fault ''set published'' of
        Some e \<Rightarrow> (Some (SvcErr ((if published then ''publish workflow: '' else ''unpublish workflow: '') @ e)), tb)
      | None \<Rightarrow>
          if list_ex (at_slug tenant slug) (tb_workflows tb)
          then (None, map_slug tenant slug (\<lambda>w. w\<lparr>wr_published := published\<rparr>) tb)
          else (Some ErrNotFound, tb))"

text \<open>\<open>ON DELETE CASCADE\<close> takes the runs and the triggers of the row along.\<close>

definition repo_delete :: "faults \<Rightarrow> uuid \<Rightarrow> string \<Rightarrow> tables \<Rightarrow> svc_err option \<times> tables" where
  "repo_delete fault tenant slug tb =
     (case fault ''delete workflow'' of
        Some e \<Rightarrow> (Some (SvcErr (''delete workflow: '' @ e)), tb)
      | None \<Rightarrow>
          let gone = map wr_id (filter (at_slug tenant slug) (tb_workflows tb))
          in if gone = [] then (Some ErrNotFound, tb)
             else (None,
               \<lparr>tb_workflows = filter (\<lambda>w. \<not> at_slug tenant slug w) (tb_workflows tb),
                tb_runs = filter (\<lambda>r. rn_workflow r \<notin> set gone) (tb_runs tb),
                tb_triggers = filter (\<lambda>t. tg_workflow t \<notin> set gone) (tb_triggers tb)\<rparr>))"

definition repo_list_published :: "tables \<Rightarrow> wf_row list" where
  "repo_list_published tb =
     sort_key wr_tenant (sort_key wr_slug (filter wr_published (tb_workflows tb)))"

section \<open>Runs (repo.go, retention.go)\<close>

definition repo_create_run :: "faults \<Rightarrow> run_row \<Rightarrow> tables \<Rightarrow> uuid svc_result \<times> tables" where
  "repo_create_run fault r tb =
     (case fault ''insert run'' of
        Some e \<Rightarrow> (Inl (SvcErr (''insert run: '' @ e)), tb)
      | None \<Rightarrow> (Inr (rn_id r), tb\<lparr>tb_runs := tb_runs tb @ [r]\<rparr>))"

definition repo_finish_run ::
  "faults \<Rightarrow> uuid \<Rightarrow> string \<Rightarrow> json option \<Rightarrow> string \<Rightarrow> int \<Rightarrow> tables \<Rightarrow> tables" where
  "repo_finish_run fault run_id status outputs err duration tb =
     (case fault ''update run'' of
        Some e \<Rightarrow> tb
      | None \<Rightarrow> tb\<lparr>tb_runs := map (\<lambda>r. if rn_id r = run_id
            then r\<lparr>rn_status := status, rn_outputs := outputs, rn_error := err, rn_duration := duration\<rparr> else r)
          (tb_runs tb)\<rparr>)"

text \<open>The most recent runs; the limit is 50 unless it is between 1 and 200.\<close>

definition repo_list_runs :: "uuid \<Rightarrow> uuid \<Rightarrow> int \<Rightarrow> tables \<Rightarrow> run_row list" where
  "repo_list_runs tenant workflow limit tb =
     take (nat (if limit \<le> 0 \<or> limit > 200 then 50 else limit))
       (sort_key (\<lambda>r. - rn_started r)
         (filter (\<lambda>r. rn_tenant r = tenant \<and> rn_workflow r = workflow) (tb_runs tb)))"

definition delete_runs_older_than :: "int \<Rightarrow> tables \<Rightarrow> tables \<times> nat" where
  "delete_runs_older_than cutoff tb =
     (tb\<lparr>tb_runs := filter (\<lambda>r. \<not> rn_started r < cutoff) (tb_runs tb)\<rparr>,
      length (filter (\<lambda>r. rn_started r < cutoff) (tb_runs tb)))"

section \<open>Triggers (trigger_repo.go, trigger_sync.go)\<close>

definition list_by_workflow :: "uuid \<Rightarrow> uuid \<Rightarrow> tables \<Rightarrow> trig_row list" where
  "list_by_workflow tenant workflow tb =
     sort_key tg_trigger (filter (\<lambda>t. tg_tenant t = tenant \<and> tg_workflow t = workflow) (tb_triggers tb))"

definition map_triggers :: "(trig_row \<Rightarrow> bool) \<Rightarrow> (trig_row \<Rightarrow> trig_row) \<Rightarrow> tables \<Rightarrow> tables" where
  "map_triggers P f tb = tb\<lparr>tb_triggers := map (\<lambda>t. if P t then f t else t) (tb_triggers tb)\<rparr>"

definition disable_all_for_workflow :: "faults \<Rightarrow> uuid \<Rightarrow> uuid \<Rightarrow> tables \<Rightarrow> svc_err option \<times> tables" where
  "disable_all_for_workflow fault tenant workflow tb =
     (case fault ''disable triggers'' of
        Some e \<Rightarrow> (Some (SvcErr (''disable triggers: '' @ e)), tb)
      | None \<Rightarrow> (None, map_triggers (\<lambda>t. tg_tenant t = tenant \<and> tg_workflow t = workflow)
                        (\<lambda>t. t\<lparr>tg_enabled := False\<rparr>) tb))"

definition marshal_default_inputs :: "(string, val) gomap \<Rightarrow> json result" where
  "marshal_default_inputs m =
     (case marshal (VMap m) of Inl e \<Rightarrow> Inl (''marshal default_inputs: '' @ e) | Inr j \<Rightarrow> Inr j)"

text \<open>
  The values an upsert takes from outside: the next run of a cron expression (the cron package),
  a fresh webhook token, a fresh row id.
\<close>

record trig_env =
  te_next :: "string \<Rightarrow> string \<Rightarrow> int result"
  te_token :: "string \<Rightarrow> string result"
  te_id :: "string \<Rightarrow> uuid"

text \<open>
  The statement of \<open>upsertTrigger\<close>: the row of \<open>(workflow_id, trigger_id)\<close> is replaced where it
  exists (its token survives, even when it becomes a cron trigger), and created otherwise.
\<close>

definition upsert_row :: "trig_row \<Rightarrow> tables \<Rightarrow> tables" where
  "upsert_row new tb =
     (let same = (\<lambda>t. tg_workflow t = tg_workflow new \<and> tg_trigger t = tg_trigger new)
      in if list_ex same (tb_triggers tb)
         then map_triggers same
                (\<lambda>t. t\<lparr>tg_kind := tg_kind new, tg_cron := tg_cron new, tg_timezone := tg_timezone new,
                      tg_token := (if tg_token t \<noteq> [] then tg_token t else tg_token new),
                      tg_inputs := tg_inputs new, tg_enabled := True, tg_next_run := tg_next_run new\<rparr>) tb
         else tb\<lparr>tb_triggers := tb_triggers tb @ [new]\<rparr>)"

definition trigger_token :: "trig_env \<Rightarrow> string \<Rightarrow> (string, trig_row) gomap \<Rightarrow> string result" where
  "trigger_token env tid existing =
     (case map_of existing tid of
        Some prev \<Rightarrow> if tg_token prev \<noteq> [] then Inr (tg_token prev) else te_token env tid
      | None \<Rightarrow> te_token env tid)"

definition trigger_row ::
  "trig_env \<Rightarrow> uuid \<Rightarrow> uuid \<Rightarrow> trigger_spec \<Rightarrow> (string, trig_row) gomap \<Rightarrow> trig_row result" where
  "trigger_row env tenant workflow spec existing =
     on_ok (marshal_default_inputs (tr_inputs spec)) (\<lambda>inputs.
       let tz = (if tr_timezone spec = [] then ''UTC'' else tr_timezone spec);
           row = \<lparr>tg_id = te_id env (tr_id spec), tg_tenant = tenant, tg_workflow = workflow,
                  tg_trigger = tr_id spec, tg_kind = TriggerCron, tg_cron = tr_cron spec, tg_timezone = tz,
                  tg_token = [], tg_inputs = inputs, tg_enabled = True, tg_next_run = None,
                  tg_last_status = [], tg_last_error = []\<rparr>
       in if tr_cron spec \<noteq> [] then
            (case te_next env (tr_cron spec) tz of
               Inl e \<Rightarrow> Inl (''trigger '' @ tr_id spec @ '': '' @ e)
             | Inr n \<Rightarrow> Inr (row\<lparr>tg_next_run := Some n\<rparr>))
          else
            on_ok (trigger_token env (tr_id spec) existing) (\<lambda>tok.
              Inr (row\<lparr>tg_kind := TriggerWebhook, tg_token := tok\<rparr>)))"

definition upsert_trigger ::
  "trig_env \<Rightarrow> faults \<Rightarrow> uuid \<Rightarrow> uuid \<Rightarrow> trigger_spec \<Rightarrow> (string, trig_row) gomap \<Rightarrow> tables \<Rightarrow>
   svc_err option \<times> tables" where
  "upsert_trigger env fault tenant workflow spec existing tb =
     (case trigger_row env tenant workflow spec existing of
        Inl e \<Rightarrow> (Some (SvcErr e), tb)
      | Inr r \<Rightarrow>
          (case fault (''upsert trigger '' @ tr_id spec) of
             Some e \<Rightarrow> (Some (SvcErr (''upsert trigger '' @ tr_id spec @ '': '' @ e)), tb)
           | None \<Rightarrow> (None, upsert_row r tb)))"

lemma trigger_row_fields:
  "trigger_row env tenant workflow spec existing = Inr r \<Longrightarrow>
     tg_workflow r = workflow \<and> tg_tenant r = tenant \<and> tg_trigger r = tr_id spec \<and> tg_enabled r"
  by (auto simp: trigger_row_def on_ok_Inr_iff Let_def split: if_splits sum.splits)

lemma upsert_trigger_cases:
  assumes "upsert_trigger env fault tenant workflow spec existing tb = (err, tb')"
  shows "err \<noteq> None \<and> tb' = tb \<or> (\<exists>r. err = None \<and> tb' = upsert_row r tb \<and> tg_workflow r = workflow \<and>
    tg_tenant r = tenant \<and> tg_trigger r = tr_id spec \<and> tg_enabled r)"
  using assms by (auto simp: upsert_trigger_def dest: trigger_row_fields split: sum.splits option.splits)

fun upsert_triggers ::
  "trig_env \<Rightarrow> faults \<Rightarrow> uuid \<Rightarrow> uuid \<Rightarrow> (string, trig_row) gomap \<Rightarrow> trigger_spec list \<Rightarrow> tables \<Rightarrow>
   svc_err option \<times> tables" where
  "upsert_triggers env fault tenant workflow existing [] tb = (None, tb)"
| "upsert_triggers env fault tenant workflow existing (spec # specs) tb =
     (case upsert_trigger env fault tenant workflow spec existing tb of
        (Some e, tb') \<Rightarrow> (Some e, tb')
      | (None, tb') \<Rightarrow> upsert_triggers env fault tenant workflow existing specs tb')"

fun disable_removed ::
  "faults \<Rightarrow> uuid \<Rightarrow> uuid \<Rightarrow> string list \<Rightarrow> trig_row list \<Rightarrow> tables \<Rightarrow> svc_err option \<times> tables" where
  "disable_removed fault tenant workflow want [] tb = (None, tb)"
| "disable_removed fault tenant workflow want (prev # rest) tb =
     (if tg_trigger prev \<in> set want then disable_removed fault tenant workflow want rest tb
      else case fault (''disable removed trigger '' @ tg_trigger prev) of
          Some e \<Rightarrow> (Some (SvcErr (''disable removed trigger '' @ tg_trigger prev @ '': '' @ e)), tb)
        | None \<Rightarrow> disable_removed fault tenant workflow want rest
            (map_triggers (\<lambda>t. tg_tenant t = tenant \<and> tg_workflow t = workflow \<and> tg_trigger t = tg_trigger prev)
               (\<lambda>t. t\<lparr>tg_enabled := False\<rparr>) tb))"

definition sync_triggers ::
  "trig_env \<Rightarrow> faults \<Rightarrow> uuid \<Rightarrow> uuid \<Rightarrow> workflow_doc \<Rightarrow> tables \<Rightarrow> svc_err option \<times> tables" where
  "sync_triggers env fault tenant workflow doc tb =
     (case fault ''list triggers'' of
        Some e \<Rightarrow> (Some (SvcErr (''list triggers: '' @ e)), tb)
      | None \<Rightarrow>
          let existing = list_by_workflow tenant workflow tb;
              by_trigger = map (\<lambda>t. (tg_trigger t, t)) existing
          in case upsert_triggers env fault tenant workflow by_trigger (doc_triggers doc) tb of
               (Some e, tb') \<Rightarrow> (Some e, tb')
             | (None, tb') \<Rightarrow> disable_removed fault tenant workflow (map tr_id (doc_triggers doc)) existing tb')"

end
