(* ===== verification/WfService.thy ===== *)
theory WfService
  imports WfStore WfEngine ToolBus
begin

text \<open>
  The workflow service, \<open>src/internal/workflow/service.go\<close> and \<open>workflow_tool.go\<close>: the handlers
  that keep the workflow table and the tool bus together, the execution path, and the tool a
  published workflow becomes. A handler is one function on the state of the server; the order
  of its statements and its early returns are the code's, and each statement may fail.
\<close>

section \<open>State and environment\<close>

text \<open>The object behind a bus tool: a \<open>WorkflowTool\<close> with its tenant and slug, or another tool.\<close>

datatype tool_impl = WorkflowTool (wt_tenant: uuid) (wt_slug: string) | OtherTool

type_synonym 's wf_bus = "(tool_impl, 's) bus"

record audit_note =
  an_tenant :: uuid
  an_action :: string
  an_target :: string

record 's svc =
  sv_tables :: tables
  sv_bus :: "'s wf_bus option"
  sv_audit :: "audit_note list"
  sv_admins :: "(uuid, uuid) gomap"

text \<open>
  What the service calls into: the YAML decoder, the cron and time-zone checks, the schema
  package, the environment of the trigger upserts, the bounds of the engine.
\<close>

record 's svc_env =
  se_unmarshal :: "string \<Rightarrow> workflow_doc result"
  se_cron :: "string \<Rightarrow> string option"
  se_zone :: "string \<Rightarrow> string option"
  se_lib :: "'s schema_lib"
  se_trig :: trig_env
  se_cfg :: wf_config

section \<open>Parsing and the schema of the inputs\<close>

definition parse_validate :: "('s, 'z) svc_env_scheme \<Rightarrow> string \<Rightarrow> string \<Rightarrow> workflow_doc svc_result" where
  "parse_validate env dsl slug =
     (case parse_doc (se_unmarshal env) dsl of
        Inl e \<Rightarrow> Inl (SvcErr (''parse: '' @ e))
      | Inr doc \<Rightarrow>
          (case validate_doc (se_cron env) (se_zone env) (Some doc) (se_cfg env) of
             Inl e \<Rightarrow> Inl (SvcErr (''validate: '' @ e))
           | Inr doc' \<Rightarrow>
               if doc_id doc' \<noteq> slug
               then Inl (SvcErr (''dsl id '' @ quote (doc_id doc') @ '' does not match slug '' @ quote slug))
               else Inr doc'))"

definition json_schema_type :: "string \<Rightarrow> string" where
  "json_schema_type t =
     (if t = ''int'' then ''integer''
      else if t = ''number'' \<or> t = ''float'' then ''number''
      else if t = ''bool'' \<or> t = ''boolean'' then ''boolean''
      else if t = ''object'' then ''object''
      else if t = ''array'' then ''array''
      else ''string'')"

definition input_property :: "input_spec \<Rightarrow> (string, val) gomap" where
  "input_property spec =
     fold (\<lambda>(k, v). AList.update k v) (in_schema spec)
       (if in_type spec \<noteq> [] then [(''type'', VStr (json_schema_type (in_type spec)))] else [])"

definition schema_from_inputs :: "(string, input_spec) gomap \<Rightarrow> json result" where
  "schema_from_inputs inputs =
     (let properties = map (\<lambda>(k, spec). (k, VMap (input_property spec))) inputs;
          required = map fst (filter (\<lambda>(k, spec). in_default spec = VNull) inputs);
          out = [(''type'', VStr ''object''), (''properties'', VMap properties),
                 (''additionalProperties'', VBool True)]
                @ (if required \<noteq> [] then [(''required'', VStrs required)] else [])
      in marshal (VMap out))"

definition descr_or_default :: "wf_row \<Rightarrow> workflow_doc \<Rightarrow> string" where
  "descr_or_default w doc =
     (if wr_descr w \<noteq> [] then wr_descr w
      else if doc_description doc \<noteq> [] then doc_description doc
      else map char_of [0xE5, 0xB7, 0xB2, 0xE5, 0x8F, 0x91, 0xE5, 0xB8, 0x83, 0xE7, 0x9A, 0x84, 0xE5, 0xB7,
             0xA5, 0xE4, 0xBD, 0x9C, 0xE6, 0xB5, 0x81, 0xEF, 0xBC, 0x9A :: nat] @ wr_slug w)"

section \<open>Registering the tool\<close>

definition tool_name :: "string \<Rightarrow> string" where
  "tool_name slug = ''workflow.'' @ slug"

definition workflow_tool :: "uuid \<Rightarrow> wf_row \<Rightarrow> workflow_doc \<Rightarrow> json \<Rightarrow> tool_impl tool" where
  "workflow_tool tenant w doc schema =
     \<lparr>tl_name = tool_name (wr_slug w), tl_descr = descr_or_default w doc, tl_schema = json_text schema,
      tl_mutating = Some True, tl_impl = WorkflowTool tenant (wr_slug w)\<rparr>"

definition with_bus :: "('s wf_bus \<Rightarrow> 's wf_bus) \<Rightarrow> 's svc \<Rightarrow> 's svc" where
  "with_bus f sv = sv\<lparr>sv_bus := map_option f (sv_bus sv)\<rparr>"

definition unregister_slug :: "string \<Rightarrow> 's svc \<Rightarrow> 's svc" where
  "unregister_slug slug = with_bus (\<lambda>b. snd (bus_unregister (tool_name slug) b))"

definition register_tool ::
  "('s, 'z) svc_env_scheme \<Rightarrow> uuid \<Rightarrow> wf_row \<Rightarrow> workflow_doc \<Rightarrow> 's svc \<Rightarrow> svc_err option \<times> 's svc" where
  "register_tool env tenant w doc sv =
     (case sv_bus sv of
        None \<Rightarrow> (None, sv)
      | Some b \<Rightarrow>
          (case schema_from_inputs (doc_inputs doc) of
             Inl e \<Rightarrow> (Some (SvcErr (''schema: '' @ e)), sv)
           | Inr schema \<Rightarrow>
               (let (err, b') = bus_register (se_lib env) (workflow_tool tenant w doc schema)
                                  (snd (bus_unregister (tool_name (wr_slug w)) b))
                in (map_option SvcErr err, sv\<lparr>sv_bus := Some b'\<rparr>))))"

section \<open>Administration\<close>

definition audit_admin :: "uuid \<Rightarrow> string \<Rightarrow> string \<Rightarrow> 's svc \<Rightarrow> 's svc" where
  "audit_admin tenant target action sv =
     sv\<lparr>sv_audit := \<lparr>an_tenant = tenant, an_action = action, an_target = target\<rparr> # sv_audit sv\<rparr>"

definition svc_create ::
  "('s, 'z) svc_env_scheme \<Rightarrow> faults \<Rightarrow> uuid \<Rightarrow> uuid \<Rightarrow> string \<Rightarrow> string \<Rightarrow> string \<Rightarrow> string \<Rightarrow> 's svc \<Rightarrow>
   wf_row svc_result \<times> 's svc" where
  "svc_create env fault new_id tenant slug name descr dsl sv =
     (case parse_validate env dsl slug of
        Inl e \<Rightarrow> (Inl e, sv)
      | Inr doc \<Rightarrow>
          (case repo_create fault new_id tenant slug name descr dsl (sv_tables sv) of
             (Inl e, tb) \<Rightarrow> (Inl e, sv\<lparr>sv_tables := tb\<rparr>)
           | (Inr w, tb) \<Rightarrow> (Inr w, audit_admin tenant slug ''workflow.admin.create'' (sv\<lparr>sv_tables := tb\<rparr>))))"

definition svc_update ::
  "('s, 'z) svc_env_scheme \<Rightarrow> faults \<Rightarrow> uuid \<Rightarrow> string \<Rightarrow> string \<Rightarrow> string \<Rightarrow> string \<Rightarrow> 's svc \<Rightarrow>
   wf_row svc_result \<times> 's svc" where
  "svc_update env fault tenant slug name descr dsl sv =
     (case parse_validate env dsl slug of
        Inl e \<Rightarrow> (Inl e, sv)
      | Inr doc \<Rightarrow>
          (case repo_get fault tenant slug (sv_tables sv) of
             Inl e \<Rightarrow> (Inl e, sv)
           | Inr prev \<Rightarrow>
               (case repo_update fault tenant slug name descr dsl (sv_tables sv) of
                  (Inl e, tb) \<Rightarrow> (Inl e, sv\<lparr>sv_tables := tb\<rparr>)
                | (Inr w, tb) \<Rightarrow>
                    (let sv1 = sv\<lparr>sv_tables := tb\<rparr>;
                         sv2 = (if wr_published prev then unregister_slug slug sv1 else sv1)
                     in case disable_all_for_workflow fault tenant (wr_id w) (sv_tables sv2) of
                          (Some e, tb2) \<Rightarrow>
                            (Inl (SvcErr (''disable triggers: '' @ svc_err_text e)), sv2\<lparr>sv_tables := tb2\<rparr>)
                        | (None, tb2) \<Rightarrow>
                            (Inr w, audit_admin tenant slug ''workflow.admin.update'' (sv2\<lparr>sv_tables := tb2\<rparr>))))))"

definition svc_delete :: "faults \<Rightarrow> uuid \<Rightarrow> string \<Rightarrow> 's svc \<Rightarrow> svc_err option \<times> 's svc" where
  "svc_delete fault tenant slug sv =
     (case repo_get fault tenant slug (sv_tables sv) of
        Inl e \<Rightarrow> (Some e, sv)
      | Inr prev \<Rightarrow>
          (let sv1 = (if wr_published prev then unregister_slug slug sv else sv)
           in case repo_delete fault tenant slug (sv_tables sv1) of
                (Some e, tb) \<Rightarrow> (Some e, sv1\<lparr>sv_tables := tb\<rparr>)
              | (None, tb) \<Rightarrow> (None, audit_admin tenant slug ''workflow.admin.delete'' (sv1\<lparr>sv_tables := tb\<rparr>))))"

definition load_parsed ::
  "('s, 'z) svc_env_scheme \<Rightarrow> faults \<Rightarrow> uuid \<Rightarrow> string \<Rightarrow> 's svc \<Rightarrow> (wf_row \<times> workflow_doc) svc_result" where
  "load_parsed env fault tenant slug sv =
     on_ok (repo_get fault tenant slug (sv_tables sv)) (\<lambda>w.
     on_ok (parse_validate env (wr_dsl w) slug) (\<lambda>doc. Inr (w, doc)))"

definition svc_publish ::
  "('s, 'z) svc_env_scheme \<Rightarrow> faults \<Rightarrow> uuid \<Rightarrow> string \<Rightarrow> 's svc \<Rightarrow> svc_err option \<times> 's svc" where
  "svc_publish env fault tenant slug sv =
     (case load_parsed env fault tenant slug sv of
        Inl e \<Rightarrow> (Some e, sv)
      | Inr (w, doc) \<Rightarrow>
          (case register_tool env tenant w doc sv of
             (Some e, sv1) \<Rightarrow> (Some e, sv1)
           | (None, sv1) \<Rightarrow>
               (case repo_set_published fault tenant slug True (sv_tables sv1) of
                  (Some e, tb) \<Rightarrow> (Some e, sv1\<lparr>sv_tables := tb\<rparr>)
                | (None, tb) \<Rightarrow>
                    (case sync_triggers (se_trig env) fault tenant (wr_id w) doc tb of
                       (Some e, tb2) \<Rightarrow> (Some (SvcErr (''sync triggers: '' @ svc_err_text e)), sv1\<lparr>sv_tables := tb2\<rparr>)
                     | (None, tb2) \<Rightarrow> (None, audit_admin tenant slug ''workflow.admin.publish'' (sv1\<lparr>sv_tables := tb2\<rparr>))))))"

definition svc_unpublish :: "faults \<Rightarrow> uuid \<Rightarrow> string \<Rightarrow> 's svc \<Rightarrow> svc_err option \<times> 's svc" where
  "svc_unpublish fault tenant slug sv =
     (case repo_get fault tenant slug (sv_tables sv) of
        Inl e \<Rightarrow> (Some e, sv)
      | Inr w \<Rightarrow>
          (let sv1 = unregister_slug slug sv
           in case repo_set_published fault tenant slug False (sv_tables sv1) of
                (Some e, tb) \<Rightarrow> (Some e, sv1\<lparr>sv_tables := tb\<rparr>)
              | (None, tb) \<Rightarrow>
                  (case disable_all_for_workflow fault tenant (wr_id w) tb of
                     (Some e, tb2) \<Rightarrow> (Some (SvcErr (''disable triggers: '' @ svc_err_text e)), sv1\<lparr>sv_tables := tb2\<rparr>)
                   | (None, tb2) \<Rightarrow> (None, audit_admin tenant slug ''workflow.admin.unpublish'' (sv1\<lparr>sv_tables := tb2\<rparr>)))))"

text \<open>\<open>RepublishAll\<close> at boot: a row that fails is skipped.\<close>

definition republish_one :: "('s, 'z) svc_env_scheme \<Rightarrow> wf_row \<Rightarrow> 's svc \<Rightarrow> 's svc" where
  "republish_one env w sv =
     (case parse_validate env (wr_dsl w) (wr_slug w) of
        Inl e \<Rightarrow> sv
      | Inr doc \<Rightarrow> snd (register_tool env (wr_tenant w) w doc sv))"

definition republish_all :: "('s, 'z) svc_env_scheme \<Rightarrow> faults \<Rightarrow> 's svc \<Rightarrow> svc_err option \<times> 's svc" where
  "republish_all env fault sv =
     (case fault ''list published'' of
        Some e \<Rightarrow> (Some (SvcErr (''list published: list published: '' @ e)), sv)
      | None \<Rightarrow> (None, fold (republish_one env) (repo_list_published (sv_tables sv)) sv))"

section \<open>Invoking\<close>

record invoke_result =
  ir_run :: uuid
  ir_status :: run_status
  ir_outputs :: "(string, val) gomap option"
  ir_error :: string
  ir_steps :: int
  ir_dry_run :: bool
  ir_started :: int
  ir_duration :: int

definition run_engine_of ::
  "wf_config \<Rightarrow> 's svc \<Rightarrow> string \<Rightarrow> (string, val) gomap \<Rightarrow> bool \<Rightarrow> bool \<Rightarrow> engine" where
  "run_engine_of cfg sv slug inputs dry events =
     \<lparr>en_cfg = new_engine_config cfg,
      en_mutating = (\<lambda>u. case sv_bus sv of None \<Rightarrow> False | Some b \<Rightarrow> bus_is_mutating b u),
      en_in = \<lparr>ex_slug = slug, ex_inputs = inputs, ex_dry_run = dry, ex_events = events\<rparr>\<rparr>"

text \<open>
  \<open>Invoke\<close> and \<open>InvokeWithEvents\<close> (\<open>events\<close>). The execution is a complete run of the engine on
  \<open>sched\<close>, \<open>None\<close> when it is not; \<open>run_id\<close> is the id the database gives the run,
  \<open>tools\<close> what the tools of the run did to the server meanwhile.
\<close>

definition svc_invoke ::
  "('s, 'z) svc_env_scheme \<Rightarrow> faults \<Rightarrow> uuid \<Rightarrow> int \<Rightarrow> int \<Rightarrow> bool \<Rightarrow> schedule \<Rightarrow> ctx_err option \<Rightarrow>
   ('s svc \<Rightarrow> 's svc) \<Rightarrow> uuid \<Rightarrow> uuid \<Rightarrow> string \<Rightarrow> (string, val) gomap \<Rightarrow> bool \<Rightarrow> 's svc \<Rightarrow> (invoke_result svc_result \<times> 's svc) option" where
  "svc_invoke env fault run_id started duration events sched parent tools tenant user slug inputs dry sv =
     (case load_parsed env fault tenant slug sv of
        Inl e \<Rightarrow> Some (Inl e, sv)
      | Inr (w, doc) \<Rightarrow>
          (case marshal (VMap inputs) of
             Inl e \<Rightarrow> Some (Inl (SvcErr (''marshal inputs: '' @ e)), sv)
           | Inr inputs_json \<Rightarrow>
               (case repo_create_run fault
                       \<lparr>rn_id = run_id, rn_tenant = tenant, rn_user = user, rn_workflow = wr_id w,
                        rn_version = wr_version w, rn_dry_run = dry, rn_status = ''running'', rn_inputs = inputs_json,
                        rn_outputs = None, rn_error = [], rn_started = started, rn_duration = 0\<rparr> (sv_tables sv) of
                  (Inl e, tb) \<Rightarrow> Some (Inl (SvcErr (''create run: '' @ svc_err_text e)), sv\<lparr>sv_tables := tb\<rparr>)
                | (Inr rid, tb) \<Rightarrow>
                    (let sv1 = audit_admin tenant slug ''workflow.invoke.start'' (sv\<lparr>sv_tables := tb\<rparr>)
                     in case execute (run_engine_of (se_cfg env) sv1 slug inputs dry events) (Some doc) sched parent of
                          None \<Rightarrow> None
                        | Some res \<Rightarrow>
                            let outputs_json = (case xr_outputs res of
                                    None \<Rightarrow> None
                                  | Some outs \<Rightarrow> (case marshal (VMap outs) of Inl e \<Rightarrow> None | Inr j \<Rightarrow> Some j));
                                sv2 = tools sv1;
                                sv3 = sv2\<lparr>sv_tables := repo_finish_run fault rid (status_text (xr_status res))
                                            outputs_json (xr_error res) duration (sv_tables sv2)\<rparr>
                            in Some (Inr \<lparr>ir_run = rid, ir_status = xr_status res, ir_outputs = xr_outputs res,
                                          ir_error = xr_error res, ir_steps = xr_steps res, ir_dry_run = dry,
                                          ir_started = started, ir_duration = duration\<rparr>,
                                     audit_admin tenant slug ''workflow.invoke.complete'' sv3)))))"

text \<open>\<open>WorkflowTool.Invoke\<close>, with \<open>unmarshal\<close>ed input (\<open>None\<close>: the bytes are no JSON object).\<close>

definition tool_invoke ::
  "('s, 'z) svc_env_scheme \<Rightarrow> faults \<Rightarrow> uuid \<Rightarrow> int \<Rightarrow> int \<Rightarrow> schedule \<Rightarrow> ctx_err option \<Rightarrow> ('s svc \<Rightarrow> 's svc) \<Rightarrow>
   uuid \<Rightarrow> string \<Rightarrow> uuid \<Rightarrow> uuid \<Rightarrow> raw \<Rightarrow> 's svc \<Rightarrow> (json svc_result \<times> 's svc) option" where
  "tool_invoke env fault run_id started duration sched parent tools tool_tenant slug tenant user input sv =
     (if tenant \<noteq> tool_tenant
      then Some (Inl (SvcErr (tool_name slug @ '': cross-tenant invocation refused'')), sv)
      else
        case (if raw_bytes input = [] then Some [] else
                (case raw_json input of
                   Some (JObj m) \<Rightarrow> Some (map (\<lambda>(k, j). (k, unmarshal j)) m)
                 | Some JNull \<Rightarrow> Some []
                 | _ \<Rightarrow> None)) of
          None \<Rightarrow> Some (Inl (SvcErr (tool_name slug @ '': invalid input json'')), sv)
        | Some inputs \<Rightarrow>
            (case svc_invoke env fault run_id started duration False sched parent tools tenant user slug inputs False sv of
               None \<Rightarrow> None
             | Some (Inl e, sv1) \<Rightarrow> Some (Inl e, sv1)
             | Some (Inr res, sv1) \<Rightarrow>
                 if ir_status res \<noteq> StatusOK
                 then Some (Inl (SvcErr (tool_name slug @ '': '' @ status_text (ir_status res) @ '': '' @ ir_error res)), sv1)
                 else
                   (case (case ir_outputs res of None \<Rightarrow> Inr JNull | Some outs \<Rightarrow> marshal (VMap outs)) of
                      Inl e \<Rightarrow> Some (Inl (SvcErr e), sv1)
                    | Inr j \<Rightarrow> Some (Inr j, sv1))))"

end
