(* ===== verification/WfPublish.thy ===== *)
theory WfPublish
  imports WfService
begin

text \<open>
  Properties of the workflow service: which tool the bus shows for a published workflow, what an
  operation of one tenant can change for the others, the rows of runs and triggers.
\<close>

section \<open>The bus as the service sees it\<close>

definition bus_view :: "'s svc \<Rightarrow> string \<Rightarrow> tool_impl tool option" where
  "bus_view sv n = (case sv_bus sv of None \<Rightarrow> None | Some b \<Rightarrow> reg_get n (bus_reg b))"

definition exposes :: "'s svc \<Rightarrow> uuid \<Rightarrow> string \<Rightarrow> bool" where
  "exposes sv tenant slug \<longleftrightarrow>
     (case bus_view sv (tool_name slug) of
        None \<Rightarrow> False
      | Some t \<Rightarrow> tl_impl t = WorkflowTool tenant slug)"

lemma tool_name_inj [simp]: "tool_name a = tool_name b \<longleftrightarrow> a = b"
  by (simp add: tool_name_def)

lemma bus_view_tables [simp]:
  "bus_view (sv\<lparr>sv_tables := tb\<rparr>) n = bus_view sv n" "bus_view (audit_admin te ta ac sv) n = bus_view sv n"
  by (simp_all add: bus_view_def audit_admin_def)

lemma exposes_tables [simp]:
  "exposes (sv\<lparr>sv_tables := tb\<rparr>) te sl = exposes sv te sl" "exposes (audit_admin t ta ac sv) te sl = exposes sv te sl"
  by (simp_all add: exposes_def)

lemma sv_tables_simps [simp]:
  "sv_tables (audit_admin t ta ac sv) = sv_tables sv" "sv_tables (unregister_slug slug sv) = sv_tables sv"
  by (simp_all add: audit_admin_def unregister_slug_def with_bus_def)

lemma bus_view_unregister:
  "bus_view (unregister_slug slug sv) n = (if n = tool_name slug then None else bus_view sv n)"
  by (simp add: bus_view_def unregister_slug_def with_bus_def tool_bus.unregister_visible split: option.split)

lemma exposes_unregister [simp]:
  "exposes (unregister_slug slug sv) te sl \<longleftrightarrow> sl \<noteq> slug \<and> exposes sv te sl"
  by (simp add: exposes_def bus_view_unregister)

lemma register_tool_view:
  assumes "register_tool env tenant w doc sv = (None, sv')" "sv_bus sv \<noteq> None"
  shows "exposes sv' te sl \<longleftrightarrow> (if sl = wr_slug w then te = tenant else exposes sv te sl)"
    and "sv_tables sv' = sv_tables sv"
proof -
  obtain b where b: "sv_bus sv = Some b"
    using assms(2) by blast
  from assms(1) b obtain schema where schema: "schema_from_inputs (doc_inputs doc) = Inr schema"
    by (auto simp: register_tool_def split: sum.splits)
  let ?t = "workflow_tool tenant w doc schema"
  have name: "tl_name ?t = tool_name (wr_slug w)" and impl: "tl_impl ?t = WorkflowTool tenant (wr_slug w)"
    by (simp_all add: workflow_tool_def)
  obtain b' where reg: "bus_register (se_lib env) ?t (snd (bus_unregister (tool_name (wr_slug w)) b)) = (None, b')"
    and sv': "sv' = sv\<lparr>sv_bus := Some b'\<rparr>"
    using assms(1) b schema by (auto simp: register_tool_def split: prod.splits)
  have "\<exists>s. compile_schema (se_lib env) (tl_schema ?t) = Inr s"
    using reg by (auto simp: bus_register_def Let_def split: prod.splits option.splits sum.splits)
  then have "reg_get n (bus_reg b') = (if n = tl_name ?t then Some ?t else reg_get n (bus_reg b))" for n
    using tool_bus.swap_in_good [of "se_lib env" ?t b] reg by (auto simp: tool_bus.swap_in_def name)
  then show "exposes sv' te sl \<longleftrightarrow> (if sl = wr_slug w then te = tenant else exposes sv te sl)"
    using impl by (auto simp: exposes_def bus_view_def sv' b name)
  show "sv_tables sv' = sv_tables sv"
    by (simp add: sv')
qed

section \<open>Published rows and tools in step\<close>

definition published :: "tables \<Rightarrow> uuid \<Rightarrow> string \<Rightarrow> bool" where
  "published tb tenant slug \<longleftrightarrow> list_ex (\<lambda>w. at_slug tenant slug w \<and> wr_published w) (tb_workflows tb)"

definition in_sync :: "'s svc \<Rightarrow> bool" where
  "in_sync sv \<longleftrightarrow> (\<forall>te sl. exposes sv te sl \<longleftrightarrow> published (sv_tables sv) te sl)"

text \<open>No two workflows of the server have the same slug, whatever their tenants.\<close>

definition slugs_unique :: "tables \<Rightarrow> bool" where
  "slugs_unique tb \<longleftrightarrow> distinct (map wr_slug (tb_workflows tb))"

datatype admin_op =
    OpCreate uuid string string string string
  | OpUpdate string string string string
  | OpDelete string
  | OpPublish string
  | OpUnpublish string

text \<open>One administrative request of a tenant; the error it answers, if any.\<close>

fun svc_op :: "('s, 'z) svc_env_scheme \<Rightarrow> faults \<Rightarrow> uuid \<Rightarrow> admin_op \<Rightarrow> 's svc \<Rightarrow> svc_err option \<times> 's svc" where
  "svc_op env fault te (OpCreate i slug name descr dsl) sv =
     (let (r, sv') = svc_create env fault i te slug name descr dsl sv in (case r of Inl e \<Rightarrow> Some e | _ \<Rightarrow> None, sv'))"
| "svc_op env fault te (OpUpdate slug name descr dsl) sv =
     (let (r, sv') = svc_update env fault te slug name descr dsl sv in (case r of Inl e \<Rightarrow> Some e | _ \<Rightarrow> None, sv'))"
| "svc_op env fault te (OpDelete slug) sv = svc_delete fault te slug sv"
| "svc_op env fault te (OpPublish slug) sv = svc_publish env fault te slug sv"
| "svc_op env fault te (OpUnpublish slug) sv = svc_unpublish fault te slug sv"

lemma find_slug: "find (at_slug te sl) ws = Some w \<Longrightarrow> w \<in> set ws \<and> wr_tenant w = te \<and> wr_slug w = sl"
  by (auto simp: find_Some_iff at_slug_def)

lemma published_map_triggers [simp]: "published (map_triggers P f tb) = published tb"
  by (simp add: published_def map_triggers_def fun_eq_iff)

lemma tb_workflows_map_triggers [simp]: "tb_workflows (map_triggers P f tb) = tb_workflows tb"
  by (simp add: map_triggers_def)

lemma tb_workflows_upsert_row [simp]: "tb_workflows (upsert_row r tb) = tb_workflows tb"
  by (simp add: upsert_row_def Let_def)

lemma tb_workflows_upsert: "upsert_trigger env fault te wid spec ex tb = (e, tb') \<Longrightarrow> tb_workflows tb' = tb_workflows tb"
  by (auto dest: upsert_trigger_cases)

lemma tb_workflows_upserts: "upsert_triggers env fault te wid ex specs tb = (e, tb') \<Longrightarrow> tb_workflows tb' = tb_workflows tb"
  by (induction specs arbitrary: tb) (auto split: prod.splits option.splits dest: tb_workflows_upsert)

lemma tb_workflows_disable: "disable_removed fault te wid want prevs tb = (e, tb') \<Longrightarrow> tb_workflows tb' = tb_workflows tb"
  by (induction prevs arbitrary: tb) (auto split: if_splits option.splits)

lemma tb_workflows_sync: "sync_triggers env fault te wid doc tb = (e, tb') \<Longrightarrow> tb_workflows tb' = tb_workflows tb"
  by (auto simp: sync_triggers_def Let_def split: option.splits prod.splits
      dest!: tb_workflows_upserts tb_workflows_disable)

lemma published_cong: "tb_workflows tb = tb_workflows tb' \<Longrightarrow> published tb = published tb'"
  by (simp add: published_def fun_eq_iff)

lemma map_slug_workflows:
  "tb_workflows (map_slug te sl f tb) = map (\<lambda>w. if at_slug te sl w then f w else w) (tb_workflows tb)"
  by (simp add: map_slug_def)

lemma published_map_slug:
  assumes "\<And>w. wr_tenant (f w) = wr_tenant w" "\<And>w. wr_slug (f w) = wr_slug w" "\<And>w. wr_published (f w) = p"
  shows "published (map_slug te sl f tb) te' sl' \<longleftrightarrow>
    (if te' = te \<and> sl' = sl then p \<and> list_ex (at_slug te sl) (tb_workflows tb) else published tb te' sl')"
  using assms by (auto simp: published_def map_slug_workflows list_ex_iff at_slug_def)

lemma published_set [simp]:
  "published (map_slug te sl (wr_published_update (\<lambda>_. p)) tb) te' sl' \<longleftrightarrow>
    (if te' = te \<and> sl' = sl then p \<and> list_ex (at_slug te sl) (tb_workflows tb) else published tb te' sl')"
  by (rule published_map_slug) simp_all

lemma published_rewrite:
  "published (map_slug te sl (\<lambda>w. w\<lparr>wr_name := n, wr_descr := d, wr_dsl := y, wr_version := wr_version w + 1,
      wr_published := False\<rparr>) tb) te' sl' \<longleftrightarrow> \<not> (te' = te \<and> sl' = sl) \<and> published tb te' sl'"
  by (subst published_map_slug [where p = False]) auto

lemma published_append_new:
  "\<not> wr_published w \<Longrightarrow> published (tb\<lparr>tb_workflows := tb_workflows tb @ [w]\<rparr>) = published tb"
  by (auto simp: published_def fun_eq_iff)

lemma slug_unique:
  "slugs_unique tb \<Longrightarrow> v \<in> set (tb_workflows tb) \<Longrightarrow> w \<in> set (tb_workflows tb) \<Longrightarrow> wr_slug v = wr_slug w \<Longrightarrow> v = w"
  by (auto simp: slugs_unique_def distinct_map dest: inj_onD)

lemma published_slug:
  "slugs_unique tb \<Longrightarrow> w \<in> set (tb_workflows tb) \<Longrightarrow> published tb te' (wr_slug w) \<Longrightarrow> te' = wr_tenant w \<and> wr_published w"
  by (auto simp: published_def list_ex_iff at_slug_def dest: slug_unique)

lemma repo_get_row: "repo_get fault te sl tb = Inr w \<Longrightarrow> w \<in> set (tb_workflows tb) \<and> wr_tenant w = te \<and> wr_slug w = sl"
  by (auto simp: repo_get_def dest: find_slug split: option.splits)

lemma disable_all_workflows:
  "disable_all_for_workflow fault te wid tb = (e, tb') \<Longrightarrow> tb_workflows tb' = tb_workflows tb"
  by (auto simp: disable_all_for_workflow_def split: option.splits)

lemma set_published_ok:
  "repo_set_published fault te sl p tb = (None, tb') \<Longrightarrow> list_ex (at_slug te sl) (tb_workflows tb) \<and>
     tb' = map_slug te sl (\<lambda>w. w\<lparr>wr_published := p\<rparr>) tb"
  by (auto simp: repo_set_published_def split: option.splits if_splits)

lemma sync_create:
  assumes "in_sync sv" "svc_create env fault i te slug name descr dsl sv = (Inr w, sv')"
  shows "in_sync sv'"
proof -
  obtain tb where tb: "repo_create fault i te slug name descr dsl (sv_tables sv) = (Inr w, tb)"
    and sv': "sv' = audit_admin te slug ''workflow.admin.create'' (sv\<lparr>sv_tables := tb\<rparr>)"
    using assms(2) by (auto simp: svc_create_def split: sum.splits prod.splits)
  have "published tb = published (sv_tables sv)"
    using tb by (auto simp: repo_create_def Let_def published_append_new split: option.splits if_splits)
  then show ?thesis
    using assms(1) by (simp add: in_sync_def sv')
qed

lemma sync_update:
  assumes "in_sync sv" "slugs_unique (sv_tables sv)" "svc_update env fault te slug name descr dsl sv = (Inr w, sv')"
  shows "in_sync sv'"
proof -
  from assms(3) obtain prev tb tb2 where prev: "repo_get fault te slug (sv_tables sv) = Inr prev"
    and tb: "repo_update fault te slug name descr dsl (sv_tables sv) = (Inr w, tb)"
    and tb2: "disable_all_for_workflow fault te (wr_id w) tb = (None, tb2)"
    and sv': "sv' = audit_admin te slug ''workflow.admin.update''
         ((if wr_published prev then unregister_slug slug (sv\<lparr>sv_tables := tb\<rparr>) else sv\<lparr>sv_tables := tb\<rparr>)\<lparr>sv_tables := tb2\<rparr>)"
    by (auto simp: svc_update_def Let_def split: sum.splits prod.splits option.splits if_splits)
  have row: "prev \<in> set (tb_workflows (sv_tables sv))" "wr_tenant prev = te" "wr_slug prev = slug"
    using repo_get_row [OF prev] by auto
  have pub: "published tb2 te' sl' \<longleftrightarrow> \<not> (te' = te \<and> sl' = slug) \<and> published (sv_tables sv) te' sl'" for te' sl'
    using tb disable_all_workflows [OF tb2, THEN published_cong]
    by (auto simp: repo_update_def Let_def published_rewrite split: option.splits)
  have ex: "exposes sv' te' sl' \<longleftrightarrow> (wr_published prev \<longrightarrow> sl' \<noteq> slug) \<and> exposes sv te' sl'" for te' sl'
    by (simp add: sv')
  have "published (sv_tables sv) te' slug \<longleftrightarrow> te' = te \<and> wr_published prev" for te'
    using published_slug [OF assms(2) row(1)] row by (auto simp: published_def list_ex_iff at_slug_def)
  then show ?thesis
    using assms(1) pub ex by (auto simp: in_sync_def sv')
qed

lemma sync_delete:
  assumes "in_sync sv" "slugs_unique (sv_tables sv)" "svc_delete fault te slug sv = (None, sv')"
  shows "in_sync sv'"
proof -
  from assms(3) obtain prev tb where prev: "repo_get fault te slug (sv_tables sv) = Inr prev"
    and tb: "repo_delete fault te slug (sv_tables sv) = (None, tb)"
    and sv': "sv' = audit_admin te slug ''workflow.admin.delete''
         ((if wr_published prev then unregister_slug slug sv else sv)\<lparr>sv_tables := tb\<rparr>)"
    by (auto simp: svc_delete_def Let_def split: sum.splits prod.splits option.splits if_splits)
  have row: "prev \<in> set (tb_workflows (sv_tables sv))" "wr_tenant prev = te" "wr_slug prev = slug"
    using repo_get_row [OF prev] by auto
  have pub: "published tb te' sl' \<longleftrightarrow> \<not> (te' = te \<and> sl' = slug) \<and> published (sv_tables sv) te' sl'" for te' sl'
    using tb by (auto simp: repo_delete_def Let_def published_def list_ex_iff at_slug_def split: option.splits if_splits)
  have ex: "exposes sv' te' sl' \<longleftrightarrow> (wr_published prev \<longrightarrow> sl' \<noteq> slug) \<and> exposes sv te' sl'" for te' sl'
    by (simp add: sv')
  have "published (sv_tables sv) te' slug \<longleftrightarrow> te' = te \<and> wr_published prev" for te'
    using published_slug [OF assms(2) row(1)] row by (auto simp: published_def list_ex_iff at_slug_def)
  then show ?thesis
    using assms(1) pub ex by (auto simp: in_sync_def sv')
qed

lemma sync_unpublish:
  assumes "in_sync sv" "slugs_unique (sv_tables sv)" "svc_unpublish fault te slug sv = (None, sv')"
  shows "in_sync sv'"
proof -
  from assms(3) obtain w tb tb2 where w: "repo_get fault te slug (sv_tables sv) = Inr w"
    and tb: "repo_set_published fault te slug False (sv_tables sv) = (None, tb)"
    and tb2: "disable_all_for_workflow fault te (wr_id w) tb = (None, tb2)"
    and sv': "sv' = audit_admin te slug ''workflow.admin.unpublish'' ((unregister_slug slug sv)\<lparr>sv_tables := tb2\<rparr>)"
    by (auto simp: svc_unpublish_def Let_def split: sum.splits prod.splits option.splits)
  have row: "w \<in> set (tb_workflows (sv_tables sv))" "wr_tenant w = te" "wr_slug w = slug"
    using repo_get_row [OF w] by auto
  have pub: "published tb2 te' sl' \<longleftrightarrow> \<not> (te' = te \<and> sl' = slug) \<and> published (sv_tables sv) te' sl'" for te' sl'
    using set_published_ok [OF tb] disable_all_workflows [OF tb2, THEN published_cong] by auto
  have "published (sv_tables sv) te' slug \<longleftrightarrow> te' = te \<and> wr_published w" for te'
    using published_slug [OF assms(2) row(1)] row by (auto simp: published_def list_ex_iff at_slug_def)
  then show ?thesis
    using assms(1) pub by (auto simp: in_sync_def sv')
qed

lemma sync_publish:
  assumes "in_sync sv" "slugs_unique (sv_tables sv)" "sv_bus sv \<noteq> None" "svc_publish env fault te slug sv = (None, sv')"
  shows "in_sync sv'"
proof -
  from assms(4) obtain w doc sv1 tb tb2 where w: "load_parsed env fault te slug sv = Inr (w, doc)"
    and reg: "register_tool env te w doc sv = (None, sv1)"
    and tb: "repo_set_published fault te slug True (sv_tables sv1) = (None, tb)"
    and tb2: "sync_triggers (se_trig env) fault te (wr_id w) doc tb = (None, tb2)"
    and sv': "sv' = audit_admin te slug ''workflow.admin.publish'' (sv1\<lparr>sv_tables := tb2\<rparr>)"
    by (auto simp: svc_publish_def split: sum.splits prod.splits option.splits)
  have row: "w \<in> set (tb_workflows (sv_tables sv))" "wr_tenant w = te" "wr_slug w = slug"
    using w by (auto simp: load_parsed_def on_ok_Inr_iff dest: repo_get_row)
  note view = register_tool_view [OF reg assms(3)]
  have pub: "published tb2 te' sl' \<longleftrightarrow> (te' = te \<and> sl' = slug) \<or> published (sv_tables sv) te' sl'" for te' sl'
    using set_published_ok [OF tb] tb_workflows_sync [OF tb2, THEN published_cong] view(2) by auto
  have "published (sv_tables sv) te' slug \<Longrightarrow> te' = te" for te'
    using published_slug [OF assms(2) row(1)] row by auto
  then show ?thesis
    using assms(1) pub view(1) row(3) by (auto simp: in_sync_def sv')
qed

section \<open>A server to look at\<close>

definition any_lib :: "unit schema_lib" where
  "any_lib = \<lparr>sl_parse = (\<lambda>src. Inr JNull), sl_compile = (\<lambda>doc. Inr ()), sl_validate = (\<lambda>s inst. None)\<rparr>"

definition demo_env :: "unit svc_env" where
  "demo_env = \<lparr>se_unmarshal = (\<lambda>_. Inr wait_doc), se_cron = (\<lambda>_. None), se_zone = (\<lambda>_. None), se_lib = any_lib,
     se_trig = \<lparr>te_next = (\<lambda>c z. Inr 0), te_token = (\<lambda>i. Inr ''tok''), te_id = (\<lambda>i. ''row'')\<rparr>,
     se_cfg = default_config\<rparr>"

definition demo_row :: "uuid \<Rightarrow> uuid \<Rightarrow> bool \<Rightarrow> wf_row" where
  "demo_row i te p = \<lparr>wr_id = i, wr_tenant = te, wr_slug = ''demo'', wr_name = ''Demo'', wr_descr = [],
     wr_dsl = [], wr_version = 1, wr_published = p\<rparr>"

definition demo_tool :: "uuid \<Rightarrow> tool_impl tool" where
  "demo_tool te = \<lparr>tl_name = tool_name ''demo'', tl_descr = ''Demo'', tl_schema = ''{}'', tl_mutating = Some True,
     tl_impl = WorkflowTool te ''demo''\<rparr>"

text \<open>Tenant \<open>a\<close> has published its workflow; tenant \<open>b\<close> may have one of the same slug.\<close>

definition demo_svc :: "wf_row list \<Rightarrow> unit svc" where
  "demo_svc others =
     \<lparr>sv_tables = \<lparr>tb_workflows = demo_row ''1'' ''a'' True # others, tb_runs = [], tb_triggers = []\<rparr>,
      sv_bus = Some \<lparr>bus_reg = [(tool_name ''demo'', demo_tool ''a'')], bus_schemas = [(tool_name ''demo'', ())],
                     bus_events = [], bus_audited = []\<rparr>,
      sv_audit = [], sv_admins = []\<rparr>"

lemma demo_in_sync: "in_sync (demo_svc [])"
  by (auto simp: in_sync_def exposes_def bus_view_def demo_svc_def reg_get_def demo_tool_def published_def
      at_slug_def demo_row_def)

lemma demo_unpublish:
  "w \<in> {demo_row ''2'' ''b'' False} \<Longrightarrow>
     \<exists>sv'. svc_unpublish (\<lambda>_. None) ''b'' ''demo'' (demo_svc [w]) = (None, sv')"
  by (simp add: svc_unpublish_def Let_def repo_get_def repo_set_published_def disable_all_for_workflow_def
      demo_svc_def unregister_slug_def with_bus_def at_slug_def demo_row_def)

lemma demo_parse: "parse_validate demo_env dsl ''demo'' = Inr waited_doc"
proof -
  have "parse_doc (\<lambda>_. Inr wait_doc) dsl = parse_doc (\<lambda>_. Inr wait_doc) []"
    by (simp add: parse_doc_def)
  then show ?thesis
    using wait_doc_parsed waited_doc_valid
    by (simp add: parse_validate_def demo_env_def flip: waited_doc_def) (simp add: waited_doc_def wait_doc_def)
qed

section \<open>Properties\<close>

text \<open>
  C36. The table and the bus stay in step: where the slugs of the server are distinct, after every
  administrative request that reports success the bus shows \<open>workflow.<slug>\<close> bound to a tenant
  exactly for the published rows of that tenant.
\<close>

theorem requests_keep_sync:
  assumes "in_sync sv" "slugs_unique (sv_tables sv)" "sv_bus sv \<noteq> None" "svc_op env fault te op sv = (None, sv')"
  shows "in_sync sv'"
  using assms
  by (cases op)
    (auto simp: Let_def split: prod.splits sum.splits
      intro: sync_create sync_update sync_delete sync_unpublish sync_publish)

theorem requests_keep_sync_witness:
  "\<exists>sv'. svc_op demo_env (\<lambda>_. None) ''a'' (OpUnpublish ''demo'') (demo_svc []) = (None, sv') \<and> in_sync sv'"
proof -
  obtain sv' where op: "svc_op demo_env (\<lambda>_. None) ''a'' (OpUnpublish ''demo'') (demo_svc []) = (None, sv')"
    by (simp add: svc_unpublish_def Let_def repo_get_def repo_set_published_def disable_all_for_workflow_def
      demo_svc_def unregister_slug_def with_bus_def at_slug_def demo_row_def)
  have "slugs_unique (sv_tables (demo_svc []))" "sv_bus (demo_svc []) \<noteq> None"
    by (simp_all add: slugs_unique_def demo_svc_def)
  from requests_keep_sync [OF demo_in_sync this op] op show ?thesis
    by blast
qed

section \<open>Tenants\<close>

text \<open>The rows of the other tenants.\<close>

definition foreign :: "uuid \<Rightarrow> tables \<Rightarrow> wf_row list \<times> run_row list \<times> trig_row list" where
  "foreign te tb =
     (filter (\<lambda>w. wr_tenant w \<noteq> te) (tb_workflows tb), filter (\<lambda>r. rn_tenant r \<noteq> te) (tb_runs tb),
      filter (\<lambda>t. tg_tenant t \<noteq> te) (tb_triggers tb))"

text \<open>Runs and triggers belong to the tenant of their workflow.\<close>

definition wf_keys :: "tables \<Rightarrow> (uuid \<times> uuid) set" where
  "wf_keys tb = (\<lambda>w. (wr_id w, wr_tenant w)) ` set (tb_workflows tb)"

definition sub_keys :: "tables \<Rightarrow> (uuid \<times> uuid) set" where
  "sub_keys tb = (\<lambda>r. (rn_workflow r, rn_tenant r)) ` set (tb_runs tb) \<union>
     (\<lambda>t. (tg_workflow t, tg_tenant t)) ` set (tb_triggers tb)"

definition owned :: "tables \<Rightarrow> bool" where
  "owned tb \<longleftrightarrow>
     (\<forall>i te te'. (i, te) \<in> wf_keys tb \<longrightarrow> (i, te') \<in> wf_keys tb \<union> sub_keys tb \<longrightarrow> te' = te)"

definition fresh_id :: "uuid \<Rightarrow> tables \<Rightarrow> bool" where
  "fresh_id i tb \<longleftrightarrow> i \<notin> fst ` (wf_keys tb \<union> sub_keys tb)"

lemma owned_mono: "owned tb \<Longrightarrow> wf_keys tb' \<subseteq> wf_keys tb \<Longrightarrow> sub_keys tb' \<subseteq> sub_keys tb \<Longrightarrow> owned tb'"
  unfolding owned_def by blast

lemma owned_same: "wf_keys tb' = wf_keys tb \<Longrightarrow> sub_keys tb' = sub_keys tb \<Longrightarrow> owned tb' = owned tb"
  by (simp add: owned_def)

text \<open>\<open>confined te tb tb'\<close>: nothing of another tenant has changed, and rows keep their owners.\<close>

definition confined :: "uuid \<Rightarrow> tables \<Rightarrow> tables \<Rightarrow> bool" where
  "confined te tb tb' \<longleftrightarrow> (owned tb \<longrightarrow> foreign te tb' = foreign te tb \<and> owned tb')"

lemma confined_refl [simp]: "confined te tb tb"
  by (simp add: confined_def)

lemma confined_trans: "confined te tb tb1 \<Longrightarrow> confined te tb1 tb2 \<Longrightarrow> confined te tb tb2"
  by (simp add: confined_def)

lemma filter_map_same:
  "\<forall>x \<in> set xs. P (g x) = P x \<and> (P x \<longrightarrow> g x = x) \<Longrightarrow> filter P (map g xs) = filter P xs"
  by (induction xs) auto

lemma image_map_if: "(\<And>x. k (f x) = k x) \<Longrightarrow> k ` set (map (\<lambda>x. if P x then f x else x) xs) = k ` set xs"
  by (induction xs) auto

lemma keys_map_slug [simp]:
  "(\<And>w. wr_tenant (f w) = wr_tenant w) \<Longrightarrow> (\<And>w. wr_id (f w) = wr_id w) \<Longrightarrow> wf_keys (map_slug te sl f tb) = wf_keys tb"
  "sub_keys (map_slug te sl f tb) = sub_keys tb"
  by (simp_all add: wf_keys_def sub_keys_def map_slug_def image_map_if del: set_map)

lemma confined_map_slug:
  assumes "\<And>w. wr_tenant (f w) = wr_tenant w" "\<And>w. wr_id (f w) = wr_id w"
  shows "confined te tb (map_slug te sl f tb)"
proof -
  have "filter (\<lambda>w. wr_tenant w \<noteq> te) (map (\<lambda>w. if at_slug te sl w then f w else w) (tb_workflows tb)) =
      filter (\<lambda>w. wr_tenant w \<noteq> te) (tb_workflows tb)"
    by (rule filter_map_same) (auto simp: assms at_slug_def)
  then have "foreign te (map_slug te sl f tb) = foreign te tb"
    by (simp add: foreign_def map_slug_def)
  moreover have "owned (map_slug te sl f tb) = owned tb"
    by (rule owned_same) (simp_all add: assms)
  ultimately show ?thesis
    by (simp add: confined_def)
qed

lemma keys_map_triggers [simp]:
  "wf_keys (map_triggers P f tb) = wf_keys tb"
  "(\<And>t. tg_tenant (f t) = tg_tenant t) \<Longrightarrow> (\<And>t. tg_workflow (f t) = tg_workflow t) \<Longrightarrow>
     sub_keys (map_triggers P f tb) = sub_keys tb"
  by (simp_all add: wf_keys_def sub_keys_def map_triggers_def image_map_if del: set_map)

lemma wf_keys_upsert_row [simp]: "wf_keys (upsert_row r tb) = wf_keys tb"
  by (simp add: wf_keys_def)

lemma confined_map_triggers:
  assumes "\<And>t. t \<in> set (tb_triggers tb) \<Longrightarrow> owned tb \<Longrightarrow> P t \<Longrightarrow> tg_tenant t = te"
    and "\<And>t. tg_tenant (f t) = tg_tenant t" "\<And>t. tg_workflow (f t) = tg_workflow t"
  shows "confined te tb (map_triggers P f tb)"
proof -
  have "filter (\<lambda>t. tg_tenant t \<noteq> te) (map (\<lambda>t. if P t then f t else t) (tb_triggers tb)) =
      filter (\<lambda>t. tg_tenant t \<noteq> te) (tb_triggers tb)" if "owned tb"
    using that by (intro filter_map_same) (auto simp: assms)
  then have "owned tb \<longrightarrow> foreign te (map_triggers P f tb) = foreign te tb"
    by (simp add: foreign_def map_triggers_def)
  moreover have "owned (map_triggers P f tb) = owned tb"
    by (rule owned_same) (simp_all add: assms)
  ultimately show ?thesis
    by (simp add: confined_def)
qed

lemma owned_trigger:
  "owned tb \<Longrightarrow> (wid, te) \<in> wf_keys tb \<Longrightarrow> t \<in> set (tb_triggers tb) \<Longrightarrow> tg_workflow t = wid \<Longrightarrow> tg_tenant t = te"
  by (force simp: owned_def sub_keys_def)

lemma sub_keys_new_trigger:
  "sub_keys (tb\<lparr>tb_triggers := tb_triggers tb @ [r]\<rparr>) = insert (tg_workflow r, tg_tenant r) (sub_keys tb)"
  "wf_keys (tb\<lparr>tb_triggers := ts\<rparr>) = wf_keys tb"
  by (auto simp: sub_keys_def wf_keys_def)

lemma owned_insert:
  "owned tb \<Longrightarrow> (wid, te) \<in> wf_keys tb \<Longrightarrow> wf_keys tb' = wf_keys tb \<Longrightarrow> sub_keys tb' = insert (wid, te) (sub_keys tb)
     \<Longrightarrow> owned tb'"
  unfolding owned_def by auto

lemma confined_upsert_row:
  assumes "(tg_workflow r, te) \<in> wf_keys tb" "tg_tenant r = te"
  shows "confined te tb (upsert_row r tb)"
proof (cases "list_ex (\<lambda>t. tg_workflow t = tg_workflow r \<and> tg_trigger t = tg_trigger r) (tb_triggers tb)")
  case True
  have "tg_tenant t = te" if "t \<in> set (tb_triggers tb)" "owned tb" "tg_workflow t = tg_workflow r" for t
    by (rule owned_trigger [OF that(2) assms(1) that(1,3)])
  then show ?thesis
    using True by (auto simp: upsert_row_def Let_def intro: confined_map_triggers)
next
  case False
  then have "upsert_row r tb = tb\<lparr>tb_triggers := tb_triggers tb @ [r]\<rparr>"
    by (simp add: upsert_row_def Let_def)
  moreover have "owned tb \<Longrightarrow> owned (tb\<lparr>tb_triggers := tb_triggers tb @ [r]\<rparr>)"
    using assms(2) by (auto intro!: owned_insert [OF _ assms(1)] simp: sub_keys_new_trigger)
  ultimately show ?thesis
    using assms(2) by (simp add: confined_def foreign_def)
qed

lemma confined_upsert:
  assumes "upsert_trigger env fault te wid spec ex tb = (e, tb')" "(wid, te) \<in> wf_keys tb"
  shows "confined te tb tb' \<and> (wid, te) \<in> wf_keys tb'"
  using upsert_trigger_cases [OF assms(1)] assms(2) by (auto intro: confined_upsert_row)

lemma confined_upserts:
  "upsert_triggers env fault te wid ex specs tb = (e, tb') \<Longrightarrow> (wid, te) \<in> wf_keys tb \<Longrightarrow>
     confined te tb tb' \<and> (wid, te) \<in> wf_keys tb'"
proof (induction specs arbitrary: tb)
  case (Cons spec specs)
  obtain e1 tb1 where one: "upsert_trigger env fault te wid spec ex tb = (e1, tb1)"
    by (metis surj_pair)
  show ?case
    using confined_upsert [OF one Cons.prems(2)] Cons.IH [of tb1] Cons.prems(1) one
    by (cases e1) (auto intro: confined_trans)
qed simp

lemma confined_disable_removed:
  "disable_removed fault te wid want prevs tb = (e, tb') \<Longrightarrow> confined te tb tb'"
proof (induction prevs arbitrary: tb)
  case (Cons prev prevs)
  let ?P = "\<lambda>t. tg_tenant t = te \<and> tg_workflow t = wid \<and> tg_trigger t = tg_trigger prev"
  have "confined te tb (map_triggers ?P (\<lambda>t. t\<lparr>tg_enabled := False\<rparr>) tb)"
    by (rule confined_map_triggers) auto
  then show ?case
    using Cons by (auto split: if_splits option.splits intro: confined_trans)
qed simp

lemma confined_sync:
  assumes "sync_triggers env fault te wid doc tb = (e, tb')" "(wid, te) \<in> wf_keys tb"
  shows "confined te tb tb'"
proof (cases "fault ''list triggers''")
  case None
  let ?ex = "map (\<lambda>t. (tg_trigger t, t)) (list_by_workflow te wid tb)"
  obtain e1 tb1 where up: "upsert_triggers env fault te wid ?ex (doc_triggers doc) tb = (e1, tb1)"
    by (metis surj_pair)
  show ?thesis
    using assms None up confined_upserts [OF up assms(2)] confined_disable_removed
    by (cases e1) (auto simp: sync_triggers_def Let_def intro: confined_trans)
qed (use assms in \<open>auto simp: sync_triggers_def\<close>)

lemma confined_disable_all: "disable_all_for_workflow fault te wid tb = (e, tb') \<Longrightarrow> confined te tb tb'"
  by (auto simp: disable_all_for_workflow_def split: option.splits intro!: confined_map_triggers)

lemma confined_create:
  assumes "repo_create fault i te slug name descr dsl tb = (r, tb')" "fresh_id i tb"
  shows "confined te tb tb'"
proof -
  have "confined te tb (tb\<lparr>tb_workflows := tb_workflows tb @ [w]\<rparr>)" if "wr_id w = i" "wr_tenant w = te" for w
  proof -
    have "wf_keys (tb\<lparr>tb_workflows := tb_workflows tb @ [w]\<rparr>) = insert (i, te) (wf_keys tb)"
      "sub_keys (tb\<lparr>tb_workflows := tb_workflows tb @ [w]\<rparr>) = sub_keys tb"
      using that by (auto simp: wf_keys_def sub_keys_def)
    moreover have "(i, t) \<notin> wf_keys tb \<union> sub_keys tb" for t
      using assms(2) unfolding fresh_id_def by (metis fst_conv imageI)
    ultimately have "owned tb \<Longrightarrow> owned (tb\<lparr>tb_workflows := tb_workflows tb @ [w]\<rparr>)"
      unfolding owned_def by auto
    then show ?thesis
      using that by (simp add: confined_def foreign_def)
  qed
  then show ?thesis
    using assms(1) by (auto simp: repo_create_def Let_def split: option.splits if_splits)
qed

lemma filter_keep: "\<forall>x \<in> set xs. P x \<longrightarrow> Q x \<Longrightarrow> filter P (filter Q xs) = filter P xs"
  by (induction xs) auto

lemma confined_delete:
  assumes "repo_delete fault te slug tb = (e, tb')"
  shows "confined te tb tb'"
proof -
  let ?gone = "map wr_id (filter (at_slug te slug) (tb_workflows tb))"
  let ?tb = "\<lparr>tb_workflows = filter (\<lambda>w. \<not> at_slug te slug w) (tb_workflows tb),
      tb_runs = filter (\<lambda>r. rn_workflow r \<notin> set ?gone) (tb_runs tb),
      tb_triggers = filter (\<lambda>t. tg_workflow t \<notin> set ?gone) (tb_triggers tb)\<rparr>"
  have gone: "(i, te) \<in> wf_keys tb" if "i \<in> set ?gone" for i
    using that by (auto simp: wf_keys_def at_slug_def image_iff)
  have "foreign te ?tb = foreign te tb" if ok: "owned tb"
  proof -
    have "\<forall>r \<in> set (tb_runs tb). rn_tenant r \<noteq> te \<longrightarrow> rn_workflow r \<notin> set ?gone"
      "\<forall>t \<in> set (tb_triggers tb). tg_tenant t \<noteq> te \<longrightarrow> tg_workflow t \<notin> set ?gone"
      using ok gone unfolding owned_def sub_keys_def by blast+
    moreover have "\<forall>w \<in> set (tb_workflows tb). wr_tenant w \<noteq> te \<longrightarrow> \<not> at_slug te slug w"
      by (auto simp: at_slug_def)
    ultimately show ?thesis
      unfolding foreign_def by (simp only: tables.simps filter_keep)
  qed
  moreover have "owned tb \<Longrightarrow> owned ?tb"
    by (erule owned_mono) (auto simp: wf_keys_def sub_keys_def)
  moreover have "tb' = tb \<or> tb' = ?tb"
    using assms by (auto simp: repo_delete_def Let_def split: option.splits if_splits)
  ultimately show ?thesis
    by (auto simp: confined_def)
qed

lemma repo_get_key: "repo_get fault te sl tb = Inr w \<Longrightarrow> (wr_id w, te) \<in> wf_keys tb"
  by (auto dest!: repo_get_row simp: wf_keys_def)

lemma confined_set_published: "repo_set_published fault te sl p tb = (e, tb') \<Longrightarrow> confined te tb tb' \<and> wf_keys tb' = wf_keys tb"
  by (auto simp: repo_set_published_def split: option.splits if_splits intro!: confined_map_slug)

lemma confined_update: "repo_update fault te sl n d y tb = (r, tb') \<Longrightarrow> confined te tb tb'"
  by (auto simp: repo_update_def Let_def split: option.splits intro!: confined_map_slug)

lemma register_tool_tables: "register_tool env te w doc sv = (e, sv') \<Longrightarrow> sv_tables sv' = sv_tables sv"
  by (auto simp: register_tool_def split: option.splits sum.splits prod.splits)

lemma confined_publish:
  assumes "svc_publish env fault te slug sv = (e, sv')"
  shows "confined te (sv_tables sv) (sv_tables sv')"
proof (cases "load_parsed env fault te slug sv")
  case (Inr wd)
  obtain w doc where wd: "wd = (w, doc)" by (cases wd)
  have key: "(wr_id w, te) \<in> wf_keys (sv_tables sv)"
    using Inr wd by (auto simp: load_parsed_def on_ok_Inr_iff dest: repo_get_key)
  obtain e1 sv1 where reg: "register_tool env te w doc sv = (e1, sv1)" by (metis surj_pair)
  obtain e2 tb where tb: "repo_set_published fault te slug True (sv_tables sv1) = (e2, tb)" by (metis surj_pair)
  obtain e3 tb2 where tb2: "sync_triggers (se_trig env) fault te (wr_id w) doc tb = (e3, tb2)" by (metis surj_pair)
  have "confined te (sv_tables sv) tb" "wf_keys tb = wf_keys (sv_tables sv)"
    using confined_set_published [OF tb] register_tool_tables [OF reg] by simp_all
  moreover from this have "confined te (sv_tables sv) tb2"
    using confined_sync [OF tb2] key by (auto intro: confined_trans)
  ultimately show ?thesis
    using assms Inr wd reg tb tb2 register_tool_tables [OF reg]
    by (auto simp: svc_publish_def split: option.splits)
qed (use assms in \<open>auto simp: svc_publish_def\<close>)

lemma confined_unpublish:
  assumes "svc_unpublish fault te slug sv = (e, sv')"
  shows "confined te (sv_tables sv) (sv_tables sv')"
  using assms unfolding svc_unpublish_def Let_def
  by (auto split: sum.splits option.splits prod.splits
      dest!: confined_set_published confined_disable_all intro: confined_trans)

lemma confined_svc_delete:
  assumes "svc_delete fault te slug sv = (e, sv')"
  shows "confined te (sv_tables sv) (sv_tables sv')"
  using assms unfolding svc_delete_def Let_def
  by (auto split: sum.splits option.splits prod.splits if_splits dest!: confined_delete)

lemma confined_svc_update:
  assumes "svc_update env fault te slug n d y sv = (r, sv')"
  shows "confined te (sv_tables sv) (sv_tables sv')"
  using assms unfolding svc_update_def Let_def
  by (auto split: sum.splits option.splits prod.splits if_splits
      dest!: confined_update confined_disable_all intro: confined_trans)

lemma confined_svc_create:
  assumes "svc_create env fault i te slug n d y sv = (r, sv')" "fresh_id i (sv_tables sv)"
  shows "confined te (sv_tables sv) (sv_tables sv')"
  using assms unfolding svc_create_def
  by (auto split: sum.splits prod.splits dest!: confined_create)

text \<open>
  C2. Tenant isolation: whatever an administrative request of a tenant does, successful or not and
  with any of its statements failing, the workflows, runs and triggers of every other tenant
  stay as they are.
\<close>

theorem tenant_isolation:
  assumes "owned (sv_tables sv)" "svc_op env fault te op sv = (err, sv')"
    and "\<forall>i slug n d y. op = OpCreate i slug n d y \<longrightarrow> fresh_id i (sv_tables sv)"
  shows "foreign te (sv_tables sv') = foreign te (sv_tables sv) \<and> owned (sv_tables sv')"
proof -
  have "confined te (sv_tables sv) (sv_tables sv')"
    using assms(2,3)
    by (cases op)
      (auto split: prod.splits intro: confined_svc_create confined_svc_update confined_svc_delete
        confined_publish confined_unpublish)
  then show ?thesis
    using assms(1) by (simp add: confined_def)
qed

theorem tenant_isolation_witness:
  "\<exists>err sv'. svc_op demo_env (\<lambda>_. None) ''b'' (OpDelete ''demo'') (demo_svc [demo_row ''2'' ''b'' False]) = (err, sv') \<and>
     foreign ''b'' (sv_tables sv') = ([demo_row ''1'' ''a'' True], [], [])"
proof -
  let ?sv = "demo_svc [demo_row ''2'' ''b'' False]"
  obtain err sv' where op: "svc_op demo_env (\<lambda>_. None) ''b'' (OpDelete ''demo'') ?sv = (err, sv')"
    by (metis surj_pair)
  have "owned (sv_tables ?sv)"
    by (auto simp: owned_def demo_svc_def demo_row_def wf_keys_def sub_keys_def)
  from tenant_isolation [OF this op] op show ?thesis
    by (simp add: foreign_def demo_svc_def demo_row_def)
qed

text \<open>
  The tool name is shared by all tenants: where two tenants have a workflow with the same
  slug, an unpublish by the second takes the tool of the first off the bus, although the row of
  the first stays published (and even if the second had never published).
\<close>

theorem unpublish_drops_foreign_tool:
  assumes "exposes sv te1 slug" "published (sv_tables sv) te1 slug" "te1 \<noteq> te2"
    and "svc_unpublish fault te2 slug sv = (None, sv')"
  shows "published (sv_tables sv') te1 slug \<and> bus_view sv' (tool_name slug) = None"
proof -
  from assms(4) obtain w tb tb2 where w: "repo_get fault te2 slug (sv_tables sv) = Inr w"
    and tb: "repo_set_published fault te2 slug False (sv_tables sv) = (None, tb)"
    and tb2: "disable_all_for_workflow fault te2 (wr_id w) tb = (None, tb2)"
    and sv': "sv' = audit_admin te2 slug ''workflow.admin.unpublish'' ((unregister_slug slug sv)\<lparr>sv_tables := tb2\<rparr>)"
    by (auto simp: svc_unpublish_def Let_def split: sum.splits prod.splits option.splits)
  have "published tb2 te1 slug"
    using set_published_ok [OF tb] disable_all_workflows [OF tb2, THEN published_cong] assms(2,3) by simp
  then show ?thesis
    by (simp add: sv' bus_view_unregister)
qed

theorem unpublish_drops_foreign_tool_witness:
  "\<exists>sv'. svc_unpublish (\<lambda>_. None) ''b'' ''demo'' (demo_svc [demo_row ''2'' ''b'' False]) = (None, sv') \<and>
     published (sv_tables sv') ''a'' ''demo'' \<and> bus_view sv' (tool_name ''demo'') = None"
proof -
  let ?sv = "demo_svc [demo_row ''2'' ''b'' False]"
  obtain sv' where op: "svc_unpublish (\<lambda>_. None) ''b'' ''demo'' ?sv = (None, sv')"
    using demo_unpublish by blast
  have "exposes ?sv ''a'' ''demo''" "published (sv_tables ?sv) ''a'' ''demo''"
    by (simp_all add: exposes_def bus_view_def demo_svc_def reg_get_def demo_tool_def published_def at_slug_def demo_row_def)
  from unpublish_drops_foreign_tool [OF this _ op] op show ?thesis
    by auto
qed

section \<open>Triggers\<close>

definition trigger_enabled :: "uuid \<Rightarrow> uuid \<Rightarrow> tables \<Rightarrow> string \<Rightarrow> bool" where
  "trigger_enabled te wid tb tid \<longleftrightarrow>
     (\<exists>t \<in> set (tb_triggers tb). tg_tenant t = te \<and> tg_workflow t = wid \<and> tg_trigger t = tid \<and> tg_enabled t)"

text \<open>The triggers of a workflow are of its tenant.\<close>

definition triggers_of :: "uuid \<Rightarrow> uuid \<Rightarrow> tables \<Rightarrow> bool" where
  "triggers_of te wid tb \<longleftrightarrow> (\<forall>t \<in> set (tb_triggers tb). tg_workflow t = wid \<longrightarrow> tg_tenant t = te)"

lemma enabled_map_triggers:
  "trigger_enabled te wid (map_triggers P f tb) tid \<longleftrightarrow>
     (\<exists>t \<in> set (tb_triggers tb). \<exists>t'. t' = (if P t then f t else t) \<and>
        tg_tenant t' = te \<and> tg_workflow t' = wid \<and> tg_trigger t' = tid \<and> tg_enabled t')"
proof -
  have "tb_triggers (map_triggers P f tb) = map (\<lambda>t. if P t then f t else t) (tb_triggers tb)"
    by (simp add: map_triggers_def)
  then show ?thesis
    by (simp only: trigger_enabled_def set_map bex_simps simp_thms)
qed

lemma enabled_disable:
  "trigger_enabled te wid (map_triggers (\<lambda>t. tg_tenant t = te \<and> tg_workflow t = wid \<and> tg_trigger t = k)
     (\<lambda>t. t\<lparr>tg_enabled := False\<rparr>) tb) tid \<longleftrightarrow> tid \<noteq> k \<and> trigger_enabled te wid tb tid"
  unfolding enabled_map_triggers unfolding trigger_enabled_def by (auto split: if_splits)

lemma enabled_upsert_row:
  assumes "triggers_of te (tg_workflow r) tb" "tg_tenant r = te" "tg_enabled r"
  shows "trigger_enabled te (tg_workflow r) (upsert_row r tb) tid \<longleftrightarrow>
      tid = tg_trigger r \<or> trigger_enabled te (tg_workflow r) tb tid"
proof (cases "list_ex (\<lambda>t. tg_workflow t = tg_workflow r \<and> tg_trigger t = tg_trigger r) (tb_triggers tb)")
  case True
  then obtain t where "t \<in> set (tb_triggers tb)" "tg_workflow t = tg_workflow r" "tg_trigger t = tg_trigger r"
    by (auto simp: list_ex_iff)
  define same where "same = (\<lambda>t :: trig_row. tg_workflow t = tg_workflow r \<and> tg_trigger t = tg_trigger r)"
  define g where "g = (\<lambda>t :: trig_row. t\<lparr>tg_kind := tg_kind r, tg_cron := tg_cron r, tg_timezone := tg_timezone r,
                      tg_token := (if tg_token t \<noteq> [] then tg_token t else tg_token r),
                      tg_inputs := tg_inputs r, tg_enabled := True, tg_next_run := tg_next_run r\<rparr>)"
  have g: "tg_tenant (g t) = tg_tenant t" "tg_workflow (g t) = tg_workflow t" "tg_trigger (g t) = tg_trigger t"
    "tg_enabled (g t)" for t
    by (simp_all add: g_def)
  from True obtain t0 where hit: "t0 \<in> set (tb_triggers tb)" "same t0"
    by (auto simp: list_ex_iff same_def)
  have own: "tg_tenant t = te" if "same t" "t \<in> set (tb_triggers tb)" for t
    using that assms(1) by (simp add: triggers_of_def same_def)
  have "upsert_row r tb = map_triggers same g tb"
    using True by (simp add: upsert_row_def Let_def same_def g_def)
  then have "trigger_enabled te (tg_workflow r) (upsert_row r tb) tid \<longleftrightarrow>
     (\<exists>t \<in> set (tb_triggers tb). tg_tenant t = te \<and> tg_workflow t = tg_workflow r \<and> tg_trigger t = tid \<and>
        (same t \<or> tg_enabled t))"
    by (simp only: enabled_map_triggers) (metis g)
  also have "\<dots> \<longleftrightarrow> tid = tg_trigger r \<or> trigger_enabled te (tg_workflow r) tb tid"
    using hit own unfolding trigger_enabled_def same_def by metis
  finally show ?thesis .
next
  case False
  then show ?thesis
    using assms by (auto simp: upsert_row_def Let_def trigger_enabled_def)
qed

lemma triggers_of_upsert_row:
  "triggers_of te wid tb \<Longrightarrow> tg_workflow r = wid \<Longrightarrow> tg_tenant r = te \<Longrightarrow> triggers_of te wid (upsert_row r tb)"
  by (auto simp: triggers_of_def upsert_row_def Let_def map_triggers_def)

lemma enabled_upserts:
  "upsert_triggers env fault te wid ex specs tb = (None, tb') \<Longrightarrow> triggers_of te wid tb \<Longrightarrow>
     trigger_enabled te wid tb' tid \<longleftrightarrow> tid \<in> set (map tr_id specs) \<or> trigger_enabled te wid tb tid"
proof (induction specs arbitrary: tb)
  case (Cons spec specs)
  then obtain tb1 where one: "upsert_trigger env fault te wid spec ex tb = (None, tb1)"
    and rest: "upsert_triggers env fault te wid ex specs tb1 = (None, tb')"
    by (auto split: prod.splits option.splits)
  from upsert_trigger_cases [OF one] obtain r where r: "tb1 = upsert_row r tb" "tg_workflow r = wid"
      "tg_tenant r = te" "tg_trigger r = tr_id spec" "tg_enabled r"
    by auto
  then show ?case
    using Cons.IH [OF rest] enabled_upsert_row [of te r tb] triggers_of_upsert_row [OF Cons.prems(2)] Cons.prems(2)
    by auto
qed simp

lemma enabled_disable_removed:
  "disable_removed fault te wid want prevs tb = (None, tb') \<Longrightarrow>
     trigger_enabled te wid tb' tid \<longleftrightarrow>
       (tid \<in> set (map tg_trigger prevs) \<longrightarrow> tid \<in> set want) \<and> trigger_enabled te wid tb tid"
  by (induction prevs arbitrary: tb) (auto simp: enabled_disable split: if_splits option.splits)

text \<open>
  The triggers after a publish: a sync that succeeds leaves enabled exactly the triggers the
  document declares; those of earlier versions are switched off.
\<close>

theorem sync_enables_declared:
  assumes "sync_triggers env fault te wid doc tb = (None, tb')" "triggers_of te wid tb"
  shows "trigger_enabled te wid tb' tid \<longleftrightarrow> tid \<in> set (map tr_id (doc_triggers doc))"
proof -
  let ?prevs = "list_by_workflow te wid tb"
  from assms(1) obtain tb1 where
    up: "upsert_triggers env fault te wid (map (\<lambda>t. (tg_trigger t, t)) ?prevs) (doc_triggers doc) tb = (None, tb1)"
    and dis: "disable_removed fault te wid (map tr_id (doc_triggers doc)) ?prevs tb1 = (None, tb')"
    by (auto simp: sync_triggers_def Let_def split: option.splits prod.splits)
  have "trigger_enabled te wid tb tid \<Longrightarrow> tid \<in> set (map tg_trigger ?prevs)"
    by (auto simp: trigger_enabled_def list_by_workflow_def)
  then show ?thesis
    using enabled_upserts [OF up assms(2)] enabled_disable_removed [OF dis] by auto
qed

definition hook_doc :: workflow_doc where
  "hook_doc = wait_doc\<lparr>doc_triggers := [\<lparr>tr_id = ''hook'', tr_cron = [], tr_timezone = [], tr_webhook = Some [],
     tr_inputs = []\<rparr>]\<rparr>"

theorem sync_enables_declared_witness:
  "\<exists>tb'. sync_triggers (se_trig demo_env) (\<lambda>_. None) ''a'' ''1'' hook_doc (sv_tables (demo_svc [])) = (None, tb') \<and>
     trigger_enabled ''a'' ''1'' tb' ''hook''"
proof -
  obtain tb' where op: "sync_triggers (se_trig demo_env) (\<lambda>_. None) ''a'' ''1'' hook_doc (sv_tables (demo_svc [])) = (None, tb')"
    by (simp add: sync_triggers_def Let_def list_by_workflow_def demo_svc_def hook_doc_def upsert_trigger_def
        trigger_row_def marshal_default_inputs_def trigger_token_def demo_env_def)
  have "triggers_of ''a'' ''1'' (sv_tables (demo_svc []))"
    by (simp add: triggers_of_def demo_svc_def)
  from sync_enables_declared [OF op this] op show ?thesis
    by (simp add: hook_doc_def)
qed

section \<open>Runs\<close>

text \<open>
  The record of an invocation: an invocation that answers has written exactly one run, for its
  tenant, user and workflow version, and the row ends with the status and the error the caller is
  told, provided the tools of the run leave the table of runs alone and the final write is
  accepted.
\<close>

theorem invoke_records_run:
  assumes "svc_invoke env fault rid started dur events sched parent tools te user slug inputs dry sv = Some (Inr res, sv')"
    and "\<forall>r \<in> set (tb_runs (sv_tables sv)). rn_id r \<noteq> rid" "fault ''update run'' = None"
    and "\<forall>x. tb_runs (sv_tables (tools x)) = tb_runs (sv_tables x)"
  shows "\<exists>w r. repo_get fault te slug (sv_tables sv) = Inr w \<and>
    tb_runs (sv_tables sv') = tb_runs (sv_tables sv) @ [r] \<and> rn_id r = rid \<and> ir_run res = rid \<and>
    rn_tenant r = te \<and> rn_user r = user \<and> rn_workflow r = wr_id w \<and> rn_version r = wr_version w \<and>
    rn_dry_run r = dry \<and> rn_status r = status_text (ir_status res) \<and> rn_error r = ir_error res"
proof -
  from assms(1) obtain w doc where wd: "load_parsed env fault te slug sv = Inr (w, doc)"
    by (auto simp: svc_invoke_def split: sum.splits)
  have get: "repo_get fault te slug (sv_tables sv) = Inr w"
    using wd by (auto simp: load_parsed_def on_ok_Inr_iff)
  have same: "map (\<lambda>r. if rn_id r = rid then f r else r) (tb_runs (sv_tables sv)) = tb_runs (sv_tables sv)" for f
    using assms(2) by (intro map_idI) auto
  show ?thesis
    using assms(1,3,4) get
    by (auto simp: svc_invoke_def wd repo_create_run_def repo_finish_run_def Let_def same
        split: sum.splits option.splits)
qed

definition quiet :: env_in where
  "quiet = \<lparr>ei_ctx = None, ei_tool = Inr RawEmpty, ei_fires = True, ei_accept = True\<rparr>"

lemma waited_run:
  "execute (run_engine_of default_config sv slug [] dry False) (Some waited_doc) (replicate 5 ([], quiet)) None =
     Some \<lparr>xr_outputs = None, xr_status = StatusOK, xr_error = [], xr_steps = 1\<rparr>"
  by (simp add: execute_def conf_step_def start_conf_def run_frame_def waited_doc_def wait_doc_def quiet_def
      run_engine_of_def enter_step_def is_leaf_kind_def inc_steps_def log_obs_def emit_def body_frame_def
      emit_step_complete_def new_run_state_def materialize_inputs_def declared_inputs_def default_config_def
      new_engine_config_def finished_def exec_result_of_def Let_def eval_nat_numeral)

theorem invoke_records_run_witness:
  "\<exists>res sv'. svc_invoke demo_env (\<lambda>_. None) ''r'' 0 7 False (replicate 5 ([], quiet)) None id ''a'' ''u'' ''demo'' []
       False (demo_svc []) = Some (Inr res, sv') \<and> rn_status (last (tb_runs (sv_tables sv'))) = ''ok''"
proof -
  have cfg: "se_cfg demo_env = default_config"
    by (simp add: demo_env_def)
  have get: "repo_get (\<lambda>_. None) ''a'' ''demo'' (sv_tables (demo_svc [])) = Inr (demo_row ''1'' ''a'' True)"
    by (simp add: repo_get_def demo_svc_def at_slug_def demo_row_def)
  let ?res = "\<lparr>ir_run = ''r'', ir_status = StatusOK, ir_outputs = None, ir_error = [], ir_steps = 1, ir_dry_run = False, ir_started = 0, ir_duration = 7\<rparr>"
  obtain sv' where inv: "svc_invoke demo_env (\<lambda>_. None) ''r'' 0 7 False (replicate 5 ([], quiet)) None id ''a'' ''u'' ''demo'' []
       False (demo_svc []) = Some (Inr ?res, sv')"
    by (simp add: svc_invoke_def load_parsed_def get demo_parse repo_create_run_def cfg waited_run Let_def)
  show ?thesis
    using invoke_records_run [OF inv] inv by (auto simp: demo_svc_def)
qed

end
