(* ===== verification/Chat.thy ===== *)
theory Chat
  imports Json
begin

text \<open>
  The chat messages of the model gateway, \<open>src/internal/modelgw/types.go\<close>, and the few helpers
  on them. A role is a string, as in the code: a request may carry any. The nested
  \<open>Function\<close> of a call and of a tool definition is flattened into the record.
\<close>

section \<open>Messages\<close>

definition role_system :: string where "role_system = ''system''"
definition role_user :: string where "role_user = ''user''"
definition role_assistant :: string where "role_assistant = ''assistant''"
definition role_tool :: string where "role_tool = ''tool''"

record tool_call =
  tc_index :: int
  tc_id :: string
  tc_type :: string
  tc_name :: string
  tc_args :: string

record chat_message =
  cm_role :: string
  cm_content :: string
  cm_name :: string
  cm_call_id :: string
  cm_calls :: "tool_call list"

definition plain_message :: "string \<Rightarrow> string \<Rightarrow> chat_message" where
  "plain_message role text = \<lparr>cm_role = role, cm_content = text, cm_name = [], cm_call_id = [], cm_calls = []\<rparr>"

record model_tool =
  mt_type :: string
  mt_name :: string
  mt_descr :: string
  mt_params :: string

record chat_request =
  cq_model :: string
  cq_messages :: "chat_message list"
  cq_stream :: bool
  cq_temperature :: "f64 option"
  cq_top_p :: "f64 option"
  cq_max_tokens :: "int option"
  cq_tools :: "model_tool list"
  cq_tool_choice :: val
  cq_stop :: "string list"
  cq_seed :: "int option"

definition chat_request_of :: "string \<Rightarrow> chat_message list \<Rightarrow> model_tool list \<Rightarrow> chat_request" where
  "chat_request_of model messages tools =
     \<lparr>cq_model = model, cq_messages = messages, cq_stream = False, cq_temperature = None, cq_top_p = None,
      cq_max_tokens = None, cq_tools = tools, cq_tool_choice = VNull, cq_stop = [], cq_seed = None\<rparr>"

section \<open>Stream chunks and usage\<close>

record usage =
  us_prompt :: int
  us_completion :: int
  us_total :: int

record stream_choice =
  sc_index :: int
  sc_role :: string
  sc_content :: string
  sc_calls :: "tool_call list"
  sc_finish :: "string option"

record stream_chunk =
  ck_id :: string
  ck_object :: string
  ck_created :: int
  ck_model :: string
  ck_choices :: "stream_choice list"
  ck_usage :: "usage option"

lemma plain_message_sel [simp]:
  "cm_role (plain_message r t) = r" "cm_content (plain_message r t) = t" "cm_call_id (plain_message r t) = []"
  "cm_calls (plain_message r t) = []" "cm_name (plain_message r t) = []"
  by (simp_all add: plain_message_def)

lemma roles_distinct [simp]:
  "role_system \<noteq> role_user" "role_system \<noteq> role_assistant" "role_system \<noteq> role_tool"
  "role_user \<noteq> role_assistant" "role_user \<noteq> role_tool" "role_assistant \<noteq> role_tool"
  "role_user \<noteq> role_system" "role_assistant \<noteq> role_system" "role_tool \<noteq> role_system"
  "role_assistant \<noteq> role_user" "role_tool \<noteq> role_user" "role_tool \<noteq> role_assistant"
  by (simp_all add: role_system_def role_user_def role_assistant_def role_tool_def)

end
