(* ===== verification/Orchestrator.thy ===== *)
theory Orchestrator
  imports Chat
begin

text \<open>
  The router that suggests a tool or workflow before a run, \<open>src/internal/orchestrator\<close>: the
  rules of the configuration (\<open>types.go\<close>), their compilation and the routing (\<open>engine.go\<close>),
  the placement of the hint (\<open>composer.go\<close>). The regular expressions are those of the Go
  library; their compiler and matcher are a parameter (\<open>regexp_lib\<close>).
\<close>

section \<open>Rules\<close>

record 're regexp_lib =
  re_compile :: "string \<Rightarrow> 're result"
  re_match :: "'re \<Rightarrow> string \<Rightarrow> bool"

record rule =
  ru_name :: string
  ru_profiles :: "string list"
  ru_regex :: string
  ru_contains :: string
  ru_type :: string
  ru_target :: string
  ru_hint :: string

record orch_config =
  oc_enabled :: bool
  oc_inject :: bool
  oc_default :: string
  oc_rules :: "rule list"

record 're compiled_rule =
  cr_name :: string
  cr_profiles :: "string list"
  cr_regex :: "'re option"
  cr_contains :: string
  cr_has_content :: bool
  cr_type :: string
  cr_target :: string
  cr_hint :: string

record 're router =
  rt_enabled :: bool
  rt_inject :: bool
  rt_default :: string
  rt_rules :: "'re compiled_rule list"

record decision =
  dc_matched :: bool
  dc_rule :: string
  dc_type :: string
  dc_target :: string
  dc_hint :: string
  dc_on :: string

definition no_decision :: decision where
  "no_decision = \<lparr>dc_matched = False, dc_rule = [], dc_type = [], dc_target = [], dc_hint = [], dc_on = []\<rparr>"

section \<open>NewEngine\<close>

definition rule_name :: "nat \<Rightarrow> rule \<Rightarrow> string" where
  "rule_name i r = (if ru_name r = [] then ''rule-'' @ show_nat i else ru_name r)"

definition compile_rule :: "'re regexp_lib \<Rightarrow> nat \<Rightarrow> rule \<Rightarrow> 're compiled_rule result" where
  "compile_rule lib i r =
     (let name = rule_name i r in
      on_ok (if ru_regex r = [] then Inr None
             else (case re_compile lib (ru_regex r) of
                Inl e \<Rightarrow> Inl (''orchestrator: rule '' @ quote name @ '': compile regex '' @ quote (ru_regex r) @ '': '' @ e)
              | Inr re \<Rightarrow> Inr (Some re))) (\<lambda>re.
        let has = (re \<noteq> None \<or> ru_contains r \<noteq> []) in
        if \<not> has \<and> ru_profiles r = [] then Inl (''orchestrator: rule '' @ quote name @ '' has no match predicates'')
        else Inr \<lparr>cr_name = name, cr_profiles = ru_profiles r, cr_regex = re, cr_contains = ru_contains r,
                  cr_has_content = has, cr_type = ru_type r, cr_target = ru_target r, cr_hint = ru_hint r\<rparr>))"

fun compile_rules :: "'re regexp_lib \<Rightarrow> nat \<Rightarrow> rule list \<Rightarrow> 're compiled_rule list result" where
  "compile_rules lib i [] = Inr []"
| "compile_rules lib i (r # rs) =
     on_ok (compile_rule lib i r) (\<lambda>c. on_ok (compile_rules lib (Suc i) rs) (\<lambda>cs. Inr (c # cs)))"

definition new_router :: "'re regexp_lib \<Rightarrow> orch_config \<Rightarrow> 're router result" where
  "new_router lib cfg =
     on_ok (compile_rules lib 0 (oc_rules cfg)) (\<lambda>rules.
       Inr \<lparr>rt_enabled = oc_enabled cfg, rt_inject = oc_inject cfg, rt_default = oc_default cfg, rt_rules = rules\<rparr>)"

section \<open>Route\<close>

definition profile_matches :: "string list \<Rightarrow> string \<Rightarrow> bool" where
  "profile_matches allow got \<longleftrightarrow> allow = [] \<or> got \<in> set allow"

definition match_content :: "'re regexp_lib \<Rightarrow> 're compiled_rule \<Rightarrow> string \<Rightarrow> string option" where
  "match_content lib cr content =
     (if cr_contains cr \<noteq> [] \<and> contains content (cr_contains cr) then Some ''content_contains''
      else if (case cr_regex cr of None \<Rightarrow> False | Some re \<Rightarrow> re_match lib re content) then Some ''content_regex''
      else if \<not> cr_has_content cr then Some ''profile''
      else None)"

fun route_rules :: "'re regexp_lib \<Rightarrow> 're compiled_rule list \<Rightarrow> string \<Rightarrow> string \<Rightarrow> decision option" where
  "route_rules lib [] profile content = None"
| "route_rules lib (cr # crs) profile content =
     (if \<not> profile_matches (cr_profiles cr) profile then route_rules lib crs profile content
      else case match_content lib cr content of
          None \<Rightarrow> route_rules lib crs profile content
        | Some on \<Rightarrow> Some \<lparr>dc_matched = True, dc_rule = cr_name cr, dc_type = cr_type cr,
                          dc_target = cr_target cr, dc_hint = cr_hint cr, dc_on = on\<rparr>)"

definition route :: "'re regexp_lib \<Rightarrow> 're router \<Rightarrow> string \<Rightarrow> string \<Rightarrow> decision" where
  "route lib r profile content =
     (if \<not> rt_enabled r then no_decision
      else case route_rules lib (rt_rules r) profile content of
          Some d \<Rightarrow> d
        | None \<Rightarrow>
            if rt_default r \<noteq> []
            then \<lparr>dc_matched = True, dc_rule = ''default'', dc_type = [], dc_target = [],
                  dc_hint = rt_default r, dc_on = ''default''\<rparr>
            else no_decision)"

text \<open>\<open>PrependSystemHint\<close>.\<close>

definition prepend_system_hint :: "chat_message list \<Rightarrow> string \<Rightarrow> chat_message list" where
  "prepend_system_hint msgs hint =
     (if hint = [] then msgs
      else takeWhile (\<lambda>m. cm_role m = role_system) msgs @ [plain_message role_system hint]
             @ dropWhile (\<lambda>m. cm_role m = role_system) msgs)"

section \<open>Routing by the rules as configured\<close>

text \<open>
  The specification: a rule of the configuration fires on a profile and a text when the profile
  is one it names (or it names none) and, if it has a text condition, one of them holds.
\<close>

definition rule_usable :: "'re regexp_lib \<Rightarrow> rule \<Rightarrow> bool" where
  "rule_usable lib r \<longleftrightarrow>
     (ru_regex r \<noteq> [] \<longrightarrow> (\<exists>re. re_compile lib (ru_regex r) = Inr re)) \<and>
     (ru_regex r \<noteq> [] \<or> ru_contains r \<noteq> [] \<or> ru_profiles r \<noteq> [])"

definition regex_fires :: "'re regexp_lib \<Rightarrow> string \<Rightarrow> string \<Rightarrow> bool" where
  "regex_fires lib src content =
     (src \<noteq> [] \<and> (case re_compile lib src of Inl _ \<Rightarrow> False | Inr re \<Rightarrow> re_match lib re content))"

definition rule_fires :: "'re regexp_lib \<Rightarrow> string \<Rightarrow> string \<Rightarrow> rule \<Rightarrow> bool" where
  "rule_fires lib profile content r \<longleftrightarrow>
     (ru_profiles r \<noteq> [] \<longrightarrow> profile \<in> set (ru_profiles r)) \<and>
     (ru_contains r = [] \<and> ru_regex r = []
      \<or> ru_contains r \<noteq> [] \<and> contains content (ru_contains r)
      \<or> regex_fires lib (ru_regex r) content)"

lemma compile_rule_usable: "(\<exists>c. compile_rule lib i r = Inr c) \<longleftrightarrow> rule_usable lib r"
  by (auto simp: compile_rule_def rule_usable_def Let_def on_ok_Inr_iff split: sum.splits)

lemma compile_rules_usable:
  "(\<exists>cs. compile_rules lib i rs = Inr cs) \<longleftrightarrow> (\<forall>r \<in> set rs. rule_usable lib r)"
proof (induction rs arbitrary: i)
  case (Cons r rs)
  show ?case
    using compile_rule_usable [of lib i r] Cons.IH [of "Suc i"] by (auto simp: on_ok_Inr_iff)
qed simp

theorem new_router_accepts:
  "(\<exists>r. new_router lib cfg = Inr r) \<longleftrightarrow> (\<forall>u \<in> set (oc_rules cfg). rule_usable lib u)"
  unfolding new_router_def on_ok_Inr_iff compile_rules_usable [of lib 0, symmetric] by auto

lemma compiled_fires:
  assumes "compile_rule lib i r = Inr c"
  shows "profile_matches (cr_profiles c) p \<and> match_content lib c t \<noteq> None \<longleftrightarrow> rule_fires lib p t r"
    and "cr_target c = ru_target r" and "cr_hint c = ru_hint r" and "cr_type c = ru_type r"
  using assms
  by (auto simp: compile_rule_def profile_matches_def match_content_def rule_fires_def regex_fires_def
      Let_def on_ok_Inr_iff split: if_splits sum.splits)

text \<open>What a decision and a rule suggest.\<close>

definition suggestion :: "decision \<Rightarrow> bool \<times> string \<times> string \<times> string" where
  "suggestion d = (dc_matched d, dc_type d, dc_target d, dc_hint d)"

definition suggested :: "rule \<Rightarrow> bool \<times> string \<times> string \<times> string" where
  "suggested u = (True, ru_type u, ru_target u, ru_hint u)"

lemma route_rules_find:
  "compile_rules lib i rs = Inr cs \<Longrightarrow>
     map_option suggestion (route_rules lib cs p t) = map_option suggested (find (rule_fires lib p t) rs)"
proof (induction rs arbitrary: i cs)
  case (Cons r rs)
  then obtain c cs' where c: "compile_rule lib i r = Inr c" "compile_rules lib (Suc i) rs = Inr cs'" "cs = c # cs'"
    by (auto simp: on_ok_Inr_iff)
  show ?case
    using compiled_fires(1) [OF c(1), of p t] compiled_fires(2-4) [OF c(1)] Cons.IH [OF c(2)]
    by (auto simp: c(3) suggestion_def suggested_def split: option.splits)
qed simp

text \<open>
  The router of an accepted configuration suggests what the first rule that fires suggests,
  in the order of the configuration; where none fires it falls back to the default hint, and a
  disabled router suggests nothing.
\<close>

theorem route_first_rule:
  assumes "new_router lib cfg = Inr r"
  shows "case (if oc_enabled cfg then find (rule_fires lib p t) (oc_rules cfg) else None) of
      Some u \<Rightarrow> suggestion (route lib r p t) = suggested u
    | None \<Rightarrow> suggestion (route lib r p t) =
        (if oc_enabled cfg \<and> oc_default cfg \<noteq> [] then (True, [], [], oc_default cfg) else (False, [], [], []))"
proof -
  obtain cs where "compile_rules lib 0 (oc_rules cfg) = Inr cs"
      and r: "rt_enabled r = oc_enabled cfg" "rt_default r = oc_default cfg" "rt_rules r = cs"
    using assms by (auto simp: new_router_def on_ok_Inr_iff)
  from route_rules_find [OF this(1), of p t] show ?thesis
    by (cases "find (rule_fires lib p t) (oc_rules cfg)"; cases "route_rules lib cs p t")
      (auto simp: route_def r suggestion_def no_decision_def)
qed

definition literal_lib :: "string regexp_lib" where
  "literal_lib = \<lparr>re_compile = Inr, re_match = (\<lambda>re s. contains s re)\<rparr>"

definition review_rule :: rule where
  "review_rule = \<lparr>ru_name = [], ru_profiles = [''coding''], ru_regex = ''review'', ru_contains = [],
     ru_type = ''sub_agent'', ru_target = ''review'', ru_hint = ''delegate''\<rparr>"

theorem route_first_rule_witness:
  "\<exists>r. new_router literal_lib \<lparr>oc_enabled = True, oc_inject = True, oc_default = ''d'', oc_rules = [review_rule]\<rparr> = Inr r \<and>
     suggestion (route literal_lib r ''coding'' ''a review'') = suggested review_rule"
proof -
  let ?cfg = "\<lparr>oc_enabled = True, oc_inject = True, oc_default = ''d'', oc_rules = [review_rule]\<rparr>"
  obtain r where r: "new_router literal_lib ?cfg = Inr r"
    using new_router_accepts [of literal_lib ?cfg] by (auto simp: rule_usable_def review_rule_def literal_lib_def)
  have "rule_fires literal_lib ''coding'' ''a review'' review_rule"
    by (simp add: rule_fires_def regex_fires_def review_rule_def literal_lib_def contains_def has_prefix_def)
  then show ?thesis
    using route_first_rule [OF r, of "''coding''" "''a review''"] r by auto
qed

end
