(* ===== verification/Quota.thy ===== *)
theory Quota
  imports GoTime
begin

text \<open>
  The usage quotas, \<open>src/internal/quota/quota.go\<close>: fixed-window counters in Redis, one per kind,
  tenant, user and window. Redis is a parameter (\<open>redis\<close>) on a state of its own; what the code
  relies on of it is \<open>counter_laws\<close>. The clock is an argument, read once per call.
\<close>

section \<open>Limits and windows\<close>

datatype quota_kind = KindLLMTokens | KindToolInvoke | KindOther string

fun quota_kind_text :: "quota_kind \<Rightarrow> string" where
  "quota_kind_text KindLLMTokens = ''llm.tokens''"
| "quota_kind_text KindToolInvoke = ''tool.invoke''"
| "quota_kind_text (KindOther s) = s"

record limits =
  lm_llm_day :: int
  lm_sandbox :: int
  lm_tool_minute :: int

datatype quota_err = QuotaExceeded string | QuotaErr string

text \<open>A cap and a time to live in nanoseconds.\<close>

definition limit_for :: "limits \<Rightarrow> quota_kind \<Rightarrow> quota_err + int \<times> int" where
  "limit_for lim k = (case k of
       KindLLMTokens \<Rightarrow> Inr (lm_llm_day lim, 48 * 3600 * 1000000000)
     | KindToolInvoke \<Rightarrow> Inr (lm_tool_minute lim, 2 * 60 * 1000000000)
     | KindOther s \<Rightarrow> Inl (QuotaErr (''quota: unsupported kind '' @ quote s)))"

definition window_key :: "quota_kind \<Rightarrow> string \<Rightarrow> string \<Rightarrow> utc \<Rightarrow> string" where
  "window_key k tenant user now = (case k of
       KindLLMTokens \<Rightarrow> ''q:llm:'' @ tenant @ '':'' @ user @ '':'' @ format_date now
     | KindToolInvoke \<Rightarrow> ''q:tool:'' @ tenant @ '':'' @ user @ '':'' @ format_minute now
     | KindOther _ \<Rightarrow> ''q:unknown:'' @ tenant @ '':'' @ user)"

section \<open>Operations\<close>

text \<open>
  \<open>rd_incr_expire\<close> is the transaction \<open>INCRBY; EXPIRE NX\<close>, \<open>rd_incr\<close> a plain \<open>INCRBY\<close>, \<open>rd_get\<close> a
  \<open>GET\<close> that may find nothing.
\<close>

record 'r redis =
  rd_incr_expire :: "string \<Rightarrow> int \<Rightarrow> int \<Rightarrow> 'r \<Rightarrow> int result \<times> 'r"
  rd_incr :: "string \<Rightarrow> int \<Rightarrow> 'r \<Rightarrow> int result \<times> 'r"
  rd_get :: "string \<Rightarrow> 'r \<Rightarrow> int option result"

definition check_and_incr ::
  "'r redis \<Rightarrow> limits \<Rightarrow> utc \<Rightarrow> quota_kind \<Rightarrow> string \<Rightarrow> string \<Rightarrow> int \<Rightarrow> 'r \<Rightarrow> quota_err option \<times> 'r" where
  "check_and_incr rd lim now k tenant user delta r =
     (if delta \<le> 0 then (Some (QuotaErr (''quota: delta must be > 0, got '' @ show_int delta)), r)
      else case limit_for lim k of
          Inl e \<Rightarrow> (Some e, r)
        | Inr (cap, ttl) \<Rightarrow>
            if cap \<le> 0 then (None, r)
            else case rd_incr_expire rd (window_key k tenant user now) delta ttl r of
                (Inl e, r') \<Rightarrow> (Some (QuotaErr (''quota redis: '' @ e)), r')
              | (Inr v, r') \<Rightarrow>
                  if v > cap
                  then (Some (QuotaExceeded (''quota exceeded: '' @ quota_kind_text k @ '' tenant='' @ tenant @
                          '' used='' @ show_int v @ '' cap='' @ show_int cap)), r')
                  else (None, r'))"

definition adjust ::
  "'r redis \<Rightarrow> limits \<Rightarrow> utc \<Rightarrow> quota_kind \<Rightarrow> string \<Rightarrow> string \<Rightarrow> int \<Rightarrow> 'r \<Rightarrow> quota_err option \<times> 'r" where
  "adjust rd lim now k tenant user delta r =
     (if delta = 0 then (None, r)
      else
       (let cap = (case limit_for lim k of Inl _ \<Rightarrow> 0 | Inr (c, _) \<Rightarrow> c)
        in if cap \<le> 0 then (None, r)
           else case rd_incr rd (window_key k tenant user now) delta r of
               (Inl e, r') \<Rightarrow> (Some (QuotaErr (''quota redis adjust: '' @ e)), r')
             | (Inr _, r') \<Rightarrow> (None, r')))"

definition sandbox_cap :: "limits \<Rightarrow> int" where
  "sandbox_cap lim = lm_sandbox lim"

record quota_usage =
  qu_used :: int
  qu_cap :: int

definition get_usage ::
  "'r redis \<Rightarrow> limits \<Rightarrow> utc \<Rightarrow> quota_kind \<Rightarrow> string \<Rightarrow> string \<Rightarrow> 'r \<Rightarrow> quota_err + quota_usage" where
  "get_usage rd lim now k tenant user r =
     (case limit_for lim k of
        Inl e \<Rightarrow> Inl e
      | Inr (cap, _) \<Rightarrow>
          if cap \<le> 0 then Inr \<lparr>qu_used = 0, qu_cap = 0\<rparr>
          else case rd_get rd (window_key k tenant user now) r of
              Inl e \<Rightarrow> Inl (QuotaErr (''quota redis get: '' @ e))
            | Inr None \<Rightarrow> Inr \<lparr>qu_used = 0, qu_cap = cap\<rparr>
            | Inr (Some v) \<Rightarrow> Inr \<lparr>qu_used = v, qu_cap = cap\<rparr>)"

text \<open>The calendar of \<open>time.Date\<close> with a day past the end of the month, and of adding a minute.\<close>

definition leap_year :: "nat \<Rightarrow> bool" where
  "leap_year y \<longleftrightarrow> 4 dvd y \<and> (\<not> 100 dvd y \<or> 400 dvd y)"

definition days_in_month :: "nat \<Rightarrow> nat \<Rightarrow> nat" where
  "days_in_month y m =
     (if m = 2 then (if leap_year y then 29 else 28) else if m \<in> {4, 6, 9, 11} then 30 else 31)"

definition next_day :: "utc \<Rightarrow> utc" where
  "next_day t =
     (let d = t\<lparr>u_hour := 0, u_min := 0, u_sec := 0, u_nsec := 0\<rparr>
      in if u_day t < days_in_month (u_year t) (u_month t) then d\<lparr>u_day := u_day t + 1\<rparr>
         else if u_month t < 12 then d\<lparr>u_day := 1, u_month := u_month t + 1\<rparr>
         else d\<lparr>u_day := 1, u_month := 1, u_year := u_year t + 1\<rparr>)"

definition next_minute :: "utc \<Rightarrow> utc" where
  "next_minute t =
     (let d = t\<lparr>u_sec := 0, u_nsec := 0\<rparr>
      in if u_min t < 59 then d\<lparr>u_min := u_min t + 1\<rparr>
         else if u_hour t < 23 then d\<lparr>u_min := 0, u_hour := u_hour t + 1\<rparr>
         else next_day t)"

definition next_window_start :: "quota_kind \<Rightarrow> utc \<Rightarrow> quota_err + utc" where
  "next_window_start k now = (case k of
       KindLLMTokens \<Rightarrow> Inr (next_day now)
     | KindToolInvoke \<Rightarrow> Inr (next_minute now)
     | KindOther s \<Rightarrow> Inl (QuotaErr (''quota: unsupported kind '' @ quote s)))"

section \<open>Windows do not share counters\<close>

text \<open>The text of a UUID has 36 bytes.\<close>

definition uuid_text :: "string \<Rightarrow> bool" where
  "uuid_text u \<longleftrightarrow> length u = 36"

definition same_window :: "quota_kind \<Rightarrow> utc \<Rightarrow> utc \<Rightarrow> bool" where
  "same_window k s t \<longleftrightarrow>
     u_year s = u_year t \<and> u_month s = u_month t \<and> u_day s = u_day t \<and>
     (k = KindToolInvoke \<longrightarrow> u_hour s = u_hour t \<and> u_min s = u_min t)"

lemma same_window_key: "same_window k s t \<Longrightarrow> window_key k te u s = window_key k te u t"
  by (cases k) (auto simp: same_window_def window_key_def format_minute_def format_date_def)

lemma window_key_inj:
  assumes "window_key k te u s = window_key k' te' u' t" "k \<in> {KindLLMTokens, KindToolInvoke}"
    and "k' \<in> {KindLLMTokens, KindToolInvoke}" "uuid_text te" "uuid_text te'" "uuid_text u" "uuid_text u'"
    and "utc_ok s" "utc_ok t"
  shows "k = k' \<and> te = te' \<and> u = u' \<and> same_window k s t"
  using assms format_date_inj [of s t] format_minute_inj [of s t]
  by (auto simp: window_key_def uuid_text_def same_window_def append_eq_append_conv)

section \<open>A sequence of checks\<close>

record quota_call =
  qc_now :: utc
  qc_kind :: quota_kind
  qc_tenant :: string
  qc_user :: string
  qc_delta :: int

fun run_checks ::
  "'r redis \<Rightarrow> limits \<Rightarrow> quota_call list \<Rightarrow> 'r \<Rightarrow> (quota_call \<times> quota_err option) list \<times> 'r" where
  "run_checks rd lim [] r = ([], r)"
| "run_checks rd lim (c # cs) r =
     (let (e, r1) = check_and_incr rd lim (qc_now c) (qc_kind c) (qc_tenant c) (qc_user c) (qc_delta c) r;
          (es, r2) = run_checks rd lim cs r1
      in ((c, e) # es, r2))"

text \<open>
  What the code relies on of Redis for one key: a reported increment was applied, one that failed
  was applied or not, and a call on another key leaves this one alone. (The key lives longer than
  its window, so it does not expire while the window lasts.)
\<close>

definition counter_laws :: "'r redis \<Rightarrow> ('r \<Rightarrow> string \<Rightarrow> int) \<Rightarrow> string \<Rightarrow> bool" where
  "counter_laws rd count key \<longleftrightarrow>
     (\<forall>k d ttl r res r'. rd_incr_expire rd k d ttl r = (res, r') \<longrightarrow>
        (if k = key
         then (case res of Inr v \<Rightarrow> v = count r key + d \<and> count r' key = v
               | Inl _ \<Rightarrow> count r' key = count r key \<or> count r' key = count r key + d)
         else count r' key = count r key))"

text \<open>The calls of a user in one window; their total demand, and how much of it was admitted.\<close>

definition in_window :: "quota_kind \<Rightarrow> string \<Rightarrow> string \<Rightarrow> utc \<Rightarrow> quota_call \<Rightarrow> bool" where
  "in_window k te u t c \<longleftrightarrow> qc_kind c = k \<and> qc_tenant c = te \<and> qc_user c = u \<and> same_window k (qc_now c) t"

definition demand :: "(quota_call \<Rightarrow> bool) \<Rightarrow> (quota_call \<times> quota_err option) list \<Rightarrow> int" where
  "demand P es = sum_list (map (\<lambda>(c, e). if P c then max 0 (qc_delta c) else 0) es)"

definition admitted :: "(quota_call \<Rightarrow> bool) \<Rightarrow> (quota_call \<times> quota_err option) list \<Rightarrow> int" where
  "admitted P es = sum_list (map (\<lambda>(c, e). if P c \<and> e = None then qc_delta c else 0) es)"

definition refused :: "(quota_call \<Rightarrow> bool) \<Rightarrow> (quota_call \<times> quota_err option) list \<Rightarrow> bool" where
  "refused P es \<longleftrightarrow> (\<exists>(c, e) \<in> set es. P c \<and> (\<exists>m. e = Some (QuotaExceeded m)))"

definition calls_ok :: "quota_call list \<Rightarrow> bool" where
  "calls_ok cs \<longleftrightarrow> (\<forall>c \<in> set cs. qc_kind c \<in> {KindLLMTokens, KindToolInvoke} \<and> uuid_text (qc_tenant c) \<and>
     uuid_text (qc_user c) \<and> utc_ok (qc_now c))"

lemma sums_simps [simp]:
  "demand P [] = 0" "admitted P [] = 0" "\<not> refused P []"
  "demand P ((c, e) # es) = (if P c then max 0 (qc_delta c) else 0) + demand P es"
  "admitted P ((c, e) # es) = (if P c \<and> e = None then qc_delta c else 0) + admitted P es"
  "refused P ((c, e) # es) \<longleftrightarrow> (P c \<and> (\<exists>m. e = Some (QuotaExceeded m))) \<or> refused P es"
  by (auto simp: demand_def admitted_def refused_def)

lemma demand_nonneg: "0 \<le> demand P es"
  by (induction es) auto

text \<open>One check of the window and one of another window, on the counter of the window.\<close>

lemma check_same_key:
  assumes "counter_laws rd count key" "window_key k te u now = key" "limit_for lim k = Inr (cap, ttl)" "0 < cap"
    and "check_and_incr rd lim now k te u d r = (e, r')"
  shows "(e = None \<longrightarrow> 0 < d \<and> count r' key = count r key + d \<and> count r' key \<le> cap) \<and>
    count r key \<le> count r' key \<and> count r' key \<le> count r key + max 0 d \<and>
    (\<forall>m. e = Some (QuotaExceeded m) \<longrightarrow> cap < count r' key)"
proof (cases "0 < d")
  case True
  obtain res r1 where incr: "rd_incr_expire rd key d ttl r = (res, r1)"
    by (metis surj_pair)
  then have "case res of Inr v \<Rightarrow> v = count r key + d \<and> count r1 key = v
      | Inl _ \<Rightarrow> count r1 key = count r key \<or> count r1 key = count r key + d"
    using assms(1) by (auto simp: counter_laws_def)
  then show ?thesis
    using assms incr True by (auto simp: check_and_incr_def split: sum.splits if_splits)
qed (use assms in \<open>auto simp: check_and_incr_def\<close>)

lemma check_other_key:
  assumes "counter_laws rd count key" "window_key k te u now \<noteq> key"
    and "check_and_incr rd lim now k te u d r = (e, r')"
  shows "count r' key = count r key"
proof -
  have "count (snd (rd_incr_expire rd k' d ttl r)) key = count r key" if "k' \<noteq> key" for k' ttl
    using assms(1) that by (metis counter_laws_def prod.collapse)
  then show ?thesis
    using assms(2,3) by (auto simp: check_and_incr_def split: sum.splits if_splits prod.splits) (metis snd_conv)+
qed

lemma run_checks_count:
  assumes laws: "counter_laws rd count (window_key k te u t)" and lim: "limit_for lim k = Inr (cap, ttl)" "0 < cap"
    and me: "k \<in> {KindLLMTokens, KindToolInvoke}" "uuid_text te" "uuid_text u" "utc_ok t"
  shows "calls_ok cs \<Longrightarrow> run_checks rd lim cs r = (es, r') \<Longrightarrow>
    admitted (in_window k te u t) es \<le> max 0 (cap - count r (window_key k te u t)) \<and>
    (refused (in_window k te u t) es \<longrightarrow> cap < count r (window_key k te u t) + demand (in_window k te u t) es)"
proof (induction cs arbitrary: r es)
  case (Cons c cs)
  let ?key = "window_key k te u t" and ?P = "in_window k te u t"
  obtain e r1 where check: "check_and_incr rd lim (qc_now c) (qc_kind c) (qc_tenant c) (qc_user c) (qc_delta c) r = (e, r1)"
    by (metis surj_pair)
  obtain es' where es: "run_checks rd lim cs r1 = (es', r')" "es = (c, e) # es'"
    using Cons.prems(2) by (auto simp: check split: prod.splits)
  have IH: "admitted ?P es' \<le> max 0 (cap - count r1 ?key)"
      "refused ?P es' \<longrightarrow> cap < count r1 ?key + demand ?P es'"
    using Cons.IH [OF _ es(1)] Cons.prems(1) by (auto simp: calls_ok_def)
  show ?case
  proof (cases "?P c")
    case True
    then have "window_key (qc_kind c) (qc_tenant c) (qc_user c) (qc_now c) = ?key" "qc_kind c = k"
      by (auto simp: in_window_def same_window_key)
    then show ?thesis
      using check_same_key [OF laws _ _ lim(2) check] lim(1) IH True demand_nonneg [of ?P es']
      by (auto simp: es)
  next
    case False
    have "window_key (qc_kind c) (qc_tenant c) (qc_user c) (qc_now c) \<noteq> ?key"
      using window_key_inj [of "qc_kind c" "qc_tenant c" "qc_user c" "qc_now c" k te u t] False me Cons.prems(1)
      by (auto simp: in_window_def calls_ok_def)
    from check_other_key [OF laws this check] show ?thesis
      using IH False by (simp add: es)
  qed
qed simp


definition mem_redis :: "(string \<Rightarrow> int) redis" where
  "mem_redis =
     \<lparr>rd_incr_expire = (\<lambda>k d ttl r. (Inr (r k + d), r(k := r k + d))),
      rd_incr = (\<lambda>k d r. (Inr (r k + d), r(k := r k + d))),
      rd_get = (\<lambda>k r. Inr (Some (r k)))\<rparr>"

definition noon :: utc where
  "noon = \<lparr>u_year = 2026, u_month = 5, u_day = 1, u_hour = 12, u_min = 0, u_sec = 0, u_nsec = 0\<rparr>"

definition demo_call :: "int \<Rightarrow> quota_call" where
  "demo_call d = \<lparr>qc_now = noon, qc_kind = KindLLMTokens, qc_tenant = replicate 36 (CHR ''a''),
     qc_user = replicate 36 (CHR ''b''), qc_delta = d\<rparr>"


end
