(* ===== verification/JsonScan.thy ===== *)
theory JsonScan
  imports Json
begin

text \<open>
  \<open>json.Valid\<close> of the Go library: the scanner of \<open>encoding/json\<close>, a state per byte and a stack of
  the open arrays and objects, at most 10000 deep.
\<close>

datatype json_open = OpenKey | OpenValue | OpenArray

datatype json_state =
    JsBegin | JsBeginOrEnd | JsKeyOrEnd | JsKey | JsEnd
  | JsString | JsEscape | JsHex nat
  | JsMinus | JsZero | JsDigits | JsPoint | JsFraction | JsExp | JsExpSign | JsExpDigits
  | JsLiteral string

definition max_nesting :: nat where "max_nesting = 10000"

definition json_space :: "char \<Rightarrow> bool" where
  "json_space c \<longleftrightarrow> c = CHR '' '' \<or> c = CHR 0x09 \<or> c = CHR 0x0A \<or> c = CHR 0x0D"

definition hex_char :: "char \<Rightarrow> bool" where
  "hex_char c \<longleftrightarrow> (let n = (of_char c :: nat) in
     48 \<le> n \<and> n \<le> 57 \<or> 97 \<le> n \<and> n \<le> 102 \<or> 65 \<le> n \<and> n \<le> 70)"

definition push_open ::
  "json_open \<Rightarrow> json_state \<Rightarrow> json_open list \<Rightarrow> (json_state \<times> json_open list) option" where
  "push_open k st stk = (if length stk < max_nesting then Some (st, k # stk) else None)"

text \<open>The first byte of a value.\<close>

definition begin_value :: "char \<Rightarrow> json_open list \<Rightarrow> (json_state \<times> json_open list) option" where
  "begin_value c stk =
     (if json_space c then Some (JsBegin, stk)
      else if c = CHR ''{'' then push_open OpenKey JsKeyOrEnd stk
      else if c = CHR ''['' then push_open OpenArray JsBeginOrEnd stk
      else if c = CHR 0x22 then Some (JsString, stk)
      else if c = CHR ''-'' then Some (JsMinus, stk)
      else if c = CHR ''0'' then Some (JsZero, stk)
      else if is_digit c then Some (JsDigits, stk)
      else if c = CHR ''t'' then Some (JsLiteral ''rue'', stk)
      else if c = CHR ''f'' then Some (JsLiteral ''alse'', stk)
      else if c = CHR ''n'' then Some (JsLiteral ''ull'', stk)
      else None)"

text \<open>A byte after a complete value.\<close>

definition end_value :: "char \<Rightarrow> json_open list \<Rightarrow> (json_state \<times> json_open list) option" where
  "end_value c stk = (case stk of
       [] \<Rightarrow> if json_space c then Some (JsEnd, []) else None
     | OpenKey # stk' \<Rightarrow>
         if json_space c then Some (JsEnd, stk)
         else if c = CHR '':'' then Some (JsBegin, OpenValue # stk') else None
     | OpenValue # stk' \<Rightarrow>
         if json_space c then Some (JsEnd, stk)
         else if c = CHR '','' then Some (JsKey, OpenKey # stk')
         else if c = CHR ''}'' then Some (JsEnd, stk') else None
     | OpenArray # stk' \<Rightarrow>
         if json_space c then Some (JsEnd, stk)
         else if c = CHR '','' then Some (JsBegin, stk)
         else if c = CHR '']'' then Some (JsEnd, stk') else None)"

fun json_step :: "char \<Rightarrow> json_state \<times> json_open list \<Rightarrow> (json_state \<times> json_open list) option" where
  "json_step c (JsBegin, stk) = begin_value c stk"
| "json_step c (JsBeginOrEnd, stk) =
     (if json_space c then Some (JsBeginOrEnd, stk)
      else if c = CHR '']'' then Some (JsEnd, tl stk) else begin_value c stk)"
| "json_step c (JsKeyOrEnd, stk) =
     (if json_space c then Some (JsKeyOrEnd, stk)
      else if c = CHR ''}'' then Some (JsEnd, tl stk)
      else if c = CHR 0x22 then Some (JsString, stk) else None)"
| "json_step c (JsKey, stk) =
     (if json_space c then Some (JsKey, stk) else if c = CHR 0x22 then Some (JsString, stk) else None)"
| "json_step c (JsEnd, stk) = end_value c stk"
| "json_step c (JsString, stk) =
     (if c = CHR 0x22 then Some (JsEnd, stk)
      else if c = CHR 0x5C then Some (JsEscape, stk)
      else if (of_char c :: nat) < 32 then None else Some (JsString, stk))"
| "json_step c (JsEscape, stk) =
     (if c = CHR ''u'' then Some (JsHex 3, stk)
      else if c \<in> {CHR ''b'', CHR ''f'', CHR ''n'', CHR ''r'', CHR ''t'', CHR 0x5C, CHR ''/'', CHR 0x22}
      then Some (JsString, stk) else None)"
| "json_step c (JsHex n, stk) =
     (if hex_char c then Some (if n = 0 then JsString else JsHex (n - 1), stk) else None)"
| "json_step c (JsMinus, stk) =
     (if c = CHR ''0'' then Some (JsZero, stk) else if is_digit c then Some (JsDigits, stk) else None)"
| "json_step c (JsDigits, stk) =
     (if is_digit c then Some (JsDigits, stk)
      else if c = CHR ''.'' then Some (JsPoint, stk)
      else if c = CHR ''e'' \<or> c = CHR ''E'' then Some (JsExp, stk) else end_value c stk)"
| "json_step c (JsZero, stk) =
     (if c = CHR ''.'' then Some (JsPoint, stk)
      else if c = CHR ''e'' \<or> c = CHR ''E'' then Some (JsExp, stk) else end_value c stk)"
| "json_step c (JsPoint, stk) = (if is_digit c then Some (JsFraction, stk) else None)"
| "json_step c (JsFraction, stk) =
     (if is_digit c then Some (JsFraction, stk)
      else if c = CHR ''e'' \<or> c = CHR ''E'' then Some (JsExp, stk) else end_value c stk)"
| "json_step c (JsExp, stk) =
     (if c = CHR ''+'' \<or> c = CHR ''-'' then Some (JsExpSign, stk)
      else if is_digit c then Some (JsExpDigits, stk) else None)"
| "json_step c (JsExpSign, stk) = (if is_digit c then Some (JsExpDigits, stk) else None)"
| "json_step c (JsExpDigits, stk) = (if is_digit c then Some (JsExpDigits, stk) else end_value c stk)"
| "json_step c (JsLiteral w, stk) =
     (case w of [] \<Rightarrow> None
      | x # xs \<Rightarrow> if c = x then Some (if xs = [] then JsEnd else JsLiteral xs, stk) else None)"

fun json_scan :: "string \<Rightarrow> json_state \<times> json_open list \<Rightarrow> (json_state \<times> json_open list) option" where
  "json_scan [] st = Some st"
| "json_scan (c # cs) st = (case json_step c st of None \<Rightarrow> None | Some st' \<Rightarrow> json_scan cs st')"

text \<open>At the end of the input the scanner takes one more space, which must end a value of the top level.\<close>

definition json_valid :: "string \<Rightarrow> bool" where
  "json_valid s =
     (case json_scan s (JsBegin, []) of
        None \<Rightarrow> False
      | Some st \<Rightarrow> (case json_step (CHR '' '') st of Some (JsEnd, []) \<Rightarrow> True | _ \<Rightarrow> False))"

lemma json_valid_not_Nil: "json_valid s \<Longrightarrow> s \<noteq> []"
  by (auto simp: json_valid_def begin_value_def json_space_def)

end
