(* ===== verification/Skills.thy ===== *)
theory Skills
  imports Chat WfValidate Sha256
begin

text \<open>
  Skills, \<open>src/internal/skills\<close>: the parser of a SKILL.md file (\<open>parser.go\<close>), the registry of
  loaded files (\<open>registry.go\<close>), the resolver that picks the skills of a run out of the tenant's
  rows and the registry (\<open>resolver.go\<close>), and the system message they become (\<open>injector.go\<close>).
  The file system and the tenant's tables are parameters.
\<close>

section \<open>Data\<close>

record skill =
  sk_id :: string
  sk_descr :: string
  sk_body :: string
  sk_path :: string
  sk_version :: string
  sk_chars :: nat

text \<open>\<open>Document\<close>: a skill before hashing.\<close>

record skill_doc =
  sd_id :: string
  sd_descr :: string
  sd_body :: string
  sd_path :: string

record skills_config =
  sg_enabled :: bool
  sg_default_ids :: "string list"
  sg_max_chars :: int
  sg_max_skills :: int

section \<open>The front matter (parser.go)\<close>

definition nl :: char where "nl = CHR 0x0A"
definition cr :: char where "cr = CHR 0x0D"

lemma nl_not_cr [simp]: "nl \<noteq> cr" "cr \<noteq> nl"
  by (simp_all add: nl_def cr_def)

definition unquote :: "string \<Rightarrow> string" where
  "unquote s =
     (if length s \<ge> 2 \<and> (hd s = CHR 0x22 \<and> last s = CHR 0x22 \<or> hd s = CHR 0x27 \<and> last s = CHR 0x27)
      then butlast (tl s) else s)"

text \<open>\<open>strings.TrimRight(line, "\r")\<close>.\<close>

definition trim_right_cr :: "string \<Rightarrow> string" where
  "trim_right_cr s = rev (dropWhile (\<lambda>c. c = cr) (rev s))"

text \<open>The loop over the lines of the front matter.\<close>

fun front_lines :: "string list \<Rightarrow> string \<Rightarrow> string \<Rightarrow> string \<times> string" where
  "front_lines [] name descr = (name, descr)"
| "front_lines (l # ls) name descr =
     (let line = trim_right_cr l in
      if trim_space line = [] then front_lines ls name descr
      else case index_byte (CHR '':'') line of
          None \<Rightarrow> front_lines ls name descr
        | Some colon \<Rightarrow>
            (let key = trim_space (take colon line);
                 v = unquote (trim_space (drop (colon + 1) line))
             in if key = ''name'' then front_lines ls v descr
                else if key = ''description'' then front_lines ls name v
                else front_lines ls name descr))"

definition body_start :: "string \<Rightarrow> string" where
  "body_start s =
     (let s1 = (case s of c # t \<Rightarrow> if c = cr then t else s | [] \<Rightarrow> s)
      in case s1 of c # t \<Rightarrow> if c = nl then t else s1 | [] \<Rightarrow> s1)"

definition split_frontmatter :: "string \<Rightarrow> (string \<times> string \<times> string) result" where
  "split_frontmatter raw =
     (if \<not> has_prefix (''---'' @ [nl]) raw \<and> \<not> has_prefix (''---'' @ [cr, nl]) raw
      then Inl ''missing leading ---''
      else
        let rest = (if has_prefix (''---'' @ [cr, nl]) raw then drop 5 raw else drop 4 raw)
        in case index_of (nl # ''---'') rest of
            None \<Rightarrow> Inl ''missing closing ---''
          | Some i \<Rightarrow>
              (let body = body_start (drop (i + 4) rest);
                   (name, descr) = front_lines (split_on nl (take i rest)) [] []
               in if name = [] then Inl ''missing name'' else Inr (name, descr, body)))"

definition parse_file :: "(string \<Rightarrow> string result) \<Rightarrow> string \<Rightarrow> skill_doc result" where
  "parse_file read path =
     (case read path of
        Inl e \<Rightarrow> Inl (''skills: read '' @ path @ '': '' @ e)
      | Inr raw \<Rightarrow>
          (case split_frontmatter raw of
             Inl e \<Rightarrow> Inl (''skills: invalid frontmatter: '' @ path @ '': '' @ e)
           | Inr (name, descr, body) \<Rightarrow>
               if \<not> slug_match name \<or> length name > 64
               then Inl (''skills: invalid skill id: '' @ quote name @ '' in '' @ path)
               else Inr \<lparr>sd_id = name, sd_descr = descr, sd_body = trim_space body, sd_path = path\<rparr>))"

section \<open>The registry (registry.go)\<close>

type_synonym skill_registry = "(string, skill) gomap"

definition doc_to_skill :: "skill_doc \<Rightarrow> skill" where
  "doc_to_skill d =
     \<lparr>sk_id = sd_id d, sk_descr = sd_descr d, sk_body = sd_body d, sk_path = sd_path d,
      sk_version = take 12 (hex_encode (sha256 (sd_body d))), sk_chars = length (sd_body d)\<rparr>"

text \<open>
  The walk below one root: \<open>fs_walk\<close> lists what \<open>WalkDir\<close> visits (path, is it a directory, the
  error of the visit) and the error it ends with.
\<close>

record skill_fs =
  fs_abs :: "string \<Rightarrow> string result"
  fs_walk :: "string \<Rightarrow> (string \<times> bool \<times> string option) list \<times> string option"
  fs_read :: "string \<Rightarrow> string result"

definition base_name :: "string \<Rightarrow> string" where
  "base_name path = last (split_on (CHR ''/'') path)"

definition visit_entry ::
  "skill_fs \<Rightarrow> string \<Rightarrow> string \<times> bool \<times> string option \<Rightarrow> skill_registry \<times> nat \<times> string list \<Rightarrow>
   skill_registry \<times> nat \<times> string list" where
  "visit_entry fs root entry st =
     (let (path, is_dir, werr) = entry; (reg, loaded, errs) = st in
      case werr of
        Some e \<Rightarrow> (reg, loaded, errs @ [''skills.walk '' @ path @ '': '' @ e])
      | None \<Rightarrow>
          if is_dir \<or> base_name path \<noteq> ''SKILL.md'' then (reg, loaded, errs)
          else (case fs_abs fs path of
              Inl e \<Rightarrow> (reg, loaded, errs @ [''skills.abs '' @ path @ '': '' @ e])
            | Inr full \<Rightarrow>
                if \<not> has_prefix (root @ ''/'') full \<and> full \<noteq> root
                then (reg, loaded, errs @ [''skills: path outside skills root: '' @ full])
                else (case parse_file (fs_read fs) full of
                    Inl e \<Rightarrow> (reg, loaded, errs @ [e])
                  | Inr doc \<Rightarrow> (AList.update (sd_id doc) (doc_to_skill doc) reg, loaded + 1, errs))))"

fun load_from_dirs ::
  "skill_fs \<Rightarrow> string list \<Rightarrow> skill_registry \<times> nat \<times> string list \<Rightarrow> skill_registry \<times> nat \<times> string list" where
  "load_from_dirs fs [] st = st"
| "load_from_dirs fs (dir # dirs) st =
     (case fs_abs fs dir of
        Inl e \<Rightarrow> load_from_dirs fs dirs (fst st, fst (snd st), snd (snd st) @ [''skills.abs '' @ quote dir @ '': '' @ e])
      | Inr root \<Rightarrow>
          (let (entries, werr) = fs_walk fs root;
               (reg, loaded, errs) = fold (visit_entry fs root) entries st
           in load_from_dirs fs dirs
                (reg, loaded, errs @ (case werr of None \<Rightarrow> [] | Some e \<Rightarrow> [''skills.walk_root '' @ root @ '': '' @ e]))))"

record skill_meta =
  sm_id :: string
  sm_descr :: string
  sm_version :: string
  sm_chars :: nat

definition skill_get :: "skill_registry \<Rightarrow> string \<Rightarrow> skill option" where
  "skill_get reg sid = map_of reg sid"

definition skill_list :: "skill_registry \<Rightarrow> skill_meta list" where
  "skill_list reg =
     sort_key sm_id (map (\<lambda>(k, s). \<lparr>sm_id = sk_id s, sm_descr = sk_descr s, sm_version = sk_version s,
                                   sm_chars = sk_chars s\<rparr>) reg)"

section \<open>The resolver (resolver.go)\<close>

record db_skill =
  ds_tenant :: string
  ds_key :: string
  ds_descr :: string
  ds_body :: string
  ds_hash :: string
  ds_enabled :: bool

definition to_skill :: "db_skill \<Rightarrow> skill" where
  "to_skill s =
     \<lparr>sk_id = ds_key s, sk_descr = ds_descr s, sk_body = ds_body s,
      sk_path = ''db://tenant/'' @ ds_tenant s @ ''/'' @ ds_key s,
      sk_version = take 12 (ds_hash s), sk_chars = length (ds_body s)\<rparr>"

definition nil_uuid :: string where
  "nil_uuid = ''00000000-0000-0000-0000-000000000000''"

text \<open>\<open>DBLookup\<close>: the enabled rows of a tenant, and the skills bound to one of its profiles.\<close>

record skill_db =
  sb_enabled :: "string \<Rightarrow> db_skill list result"
  sb_profile :: "string \<Rightarrow> string \<Rightarrow> string list result"

record skill_resolver =
  sr_registry :: "skill_registry option"
  sr_db :: "skill_db option"
  sr_cfg :: skills_config

record resolve_input =
  ri_run :: "string list"
  ri_session :: "string list"
  ri_profile :: "string list"

definition first_non_empty :: "string list list \<Rightarrow> string list" where
  "first_non_empty ls = (case filter (\<lambda>l. l \<noteq> []) ls of [] \<Rightarrow> [] | l # _ \<Rightarrow> l)"

definition db_by_key :: "skill_resolver \<Rightarrow> string \<Rightarrow> (string, skill) gomap" where
  "db_by_key r tenant =
     (case sr_db r of
        None \<Rightarrow> []
      | Some db \<Rightarrow>
          if tenant = nil_uuid then []
          else case sb_enabled db tenant of
              Inl _ \<Rightarrow> []
            | Inr rows \<Rightarrow> fold (\<lambda>s. AList.update (ds_key s) (to_skill s)) rows [])"

definition profile_binding :: "skill_resolver \<Rightarrow> string \<Rightarrow> string \<Rightarrow> string list" where
  "profile_binding r tenant profile =
     (case sr_db r of
        None \<Rightarrow> []
      | Some db \<Rightarrow>
          if tenant = nil_uuid \<or> profile = [] then []
          else case sb_profile db tenant profile of Inl _ \<Rightarrow> [] | Inr bind \<Rightarrow> bind)"

definition lookup_skill :: "skill_resolver \<Rightarrow> (string, skill) gomap \<Rightarrow> string \<Rightarrow> skill option" where
  "lookup_skill r by_key sid =
     (case map_of by_key sid of
        Some s \<Rightarrow> Some s
      | None \<Rightarrow> (case sr_registry r of None \<Rightarrow> None | Some reg \<Rightarrow> skill_get reg sid))"

text \<open>The loop over the ids, with its locals \<open>seen\<close> and \<open>out\<close>.\<close>

fun resolve_ids :: "(string \<Rightarrow> skill option) \<Rightarrow> nat \<Rightarrow> string list \<Rightarrow> string list \<Rightarrow> skill list \<Rightarrow> skill list" where
  "resolve_ids look mx [] seen out = out"
| "resolve_ids look mx (i # ids) seen out =
     (if i = [] \<or> i \<in> set seen then resolve_ids look mx ids seen out
      else case look i of
          None \<Rightarrow> resolve_ids look mx ids (i # seen) out
        | Some s \<Rightarrow>
            if length (out @ [s]) \<ge> mx then out @ [s] else resolve_ids look mx ids (i # seen) (out @ [s]))"

definition max_skills :: "skill_resolver \<Rightarrow> nat" where
  "max_skills r = nat (if sg_max_skills (sr_cfg r) \<le> 0 then 5 else sg_max_skills (sr_cfg r))"

definition chosen_ids :: "skill_resolver \<Rightarrow> string \<Rightarrow> string \<Rightarrow> resolve_input \<Rightarrow> string list" where
  "chosen_ids r tenant profile inp =
     (let bind = profile_binding r tenant profile
      in first_non_empty [ri_run inp, ri_session inp, if bind \<noteq> [] then bind else ri_profile inp,
           sg_default_ids (sr_cfg r)])"

definition resolve_for_tenant :: "skill_resolver \<Rightarrow> string \<Rightarrow> string \<Rightarrow> resolve_input \<Rightarrow> skill list" where
  "resolve_for_tenant r tenant profile inp =
     (if \<not> sg_enabled (sr_cfg r) \<or> (sr_registry r = None \<and> sr_db r = None) then []
      else resolve_ids (lookup_skill r (db_by_key r tenant)) (max_skills r) (chosen_ids r tenant profile inp) [] [])"

section \<open>The injector (injector.go)\<close>

record inject_result =
  ij_messages :: "chat_message list"
  ij_ids :: "string list"
  ij_chars :: nat
  ij_truncated :: bool

definition render_block :: "skill \<Rightarrow> string" where
  "render_block s =
     ''### Skill: '' @ sk_id s @ [nl] @
     (if sk_descr s = [] then [] else sk_descr s @ [nl, nl]) @ sk_body s @ [nl, nl]"

definition skills_header :: string where
  "skills_header = [nl, nl] @ ''## Active Skills'' @ [nl]"

text \<open>\<open>"\n...[truncated]\n"\<close> with the three bytes of the ellipsis.\<close>

definition truncation_mark :: string where
  "truncation_mark = [nl, CHR 0xE2, CHR 0x80, CHR 0xA6] @ ''[truncated]'' @ [nl]"

fun inject_blocks :: "int \<Rightarrow> skill list \<Rightarrow> string \<Rightarrow> string list \<Rightarrow> string \<times> string list \<times> bool" where
  "inject_blocks budget [] b ids = (b, ids, False)"
| "inject_blocks budget (s # ss) b ids =
     (let remaining = budget - int (length b) in
      if remaining \<le> 0 then (b, ids, True)
      else if int (length (render_block s)) \<le> remaining
      then inject_blocks budget ss (b @ render_block s) (ids @ [sk_id s])
      else (b @ take (nat remaining) (render_block s) @ truncation_mark, ids @ [sk_id s], True))"

definition char_budget :: "int \<Rightarrow> int" where
  "char_budget mx = (if mx \<le> 0 then 24000 else mx)"

definition build_system_messages :: "string \<Rightarrow> skill list \<Rightarrow> int \<Rightarrow> inject_result" where
  "build_system_messages prompt ss mx =
     (if prompt = [] \<and> ss = []
      then \<lparr>ij_messages = [], ij_ids = [], ij_chars = 0, ij_truncated = False\<rparr>
      else
       (let (b, ids, trunc) =
              (if ss = [] then (prompt, [], False)
               else inject_blocks (char_budget mx) ss (prompt @ skills_header @ [nl]) [])
        in \<lparr>ij_messages = [plain_message role_system b], ij_ids = ids, ij_chars = length b, ij_truncated = trunc\<rparr>))"

section \<open>What the resolver picks\<close>

text \<open>The distinct non-empty ids in the order of their first occurrence.\<close>

fun distinct_ids :: "string list \<Rightarrow> string list" where
  "distinct_ids [] = []"
| "distinct_ids (i # ids) =
     (if i = [] then distinct_ids ids else i # filter (\<lambda>j. j \<noteq> i) (distinct_ids ids))"

lemma set_distinct_ids: "set (distinct_ids ids) = set ids - {[]}"
  by (induction ids) auto

lemma distinct_distinct_ids: "distinct (distinct_ids ids)"
  by (induction ids) auto

lemma resolve_ids_take:
  "length out < mx \<Longrightarrow> resolve_ids look mx ids seen out =
    take mx (out @ List.map_filter look (filter (\<lambda>i. i \<notin> set seen) (distinct_ids ids)))"
proof (induction ids arbitrary: seen out)
  case Nil
  then show ?case by (simp add: map_filter_simps)
next
  case (Cons i ids)
  have split: "filter (\<lambda>j. j \<notin> set seen) (distinct_ids (i # ids)) =
      (if i = [] \<or> i \<in> set seen then filter (\<lambda>j. j \<notin> set seen) (distinct_ids ids)
       else i # filter (\<lambda>j. j \<notin> set (i # seen)) (distinct_ids ids))"
    by (auto intro: filter_cong simp: filter_filter conj_commute)
  show ?case
    using Cons.IH Cons.prems
    by (auto simp: split map_filter_simps take_Cons' simp del: distinct_ids.simps split: option.splits)
qed

text \<open>
  The skills of a run: of the first non-empty list among run, session, profile (or the
  tenant's binding for it) and default, the known ids in their order, each once, at most as many
  as configured; a row of the tenant shadows the file with the same id.
\<close>

theorem resolve_spec:
  assumes "sg_enabled (sr_cfg r)"
  shows "resolve_for_tenant r tenant profile inp =
    take (max_skills r)
      (List.map_filter (lookup_skill r (db_by_key r tenant)) (distinct_ids (chosen_ids r tenant profile inp)))"
proof (cases "sr_registry r = None \<and> sr_db r = None")
  case True
  then have "lookup_skill r (db_by_key r tenant) = (\<lambda>_. None)"
    by (auto simp: lookup_skill_def db_by_key_def)
  then have "List.map_filter (lookup_skill r (db_by_key r tenant)) ids = []" for ids
    by (simp add: List.map_filter_def)
  then show ?thesis
    using True by (simp add: resolve_for_tenant_def)
next
  case False
  have "0 < max_skills r"
    by (simp add: max_skills_def)
  then show ?thesis
    using assms False resolve_ids_take [of "[]"] by (auto simp: resolve_for_tenant_def)
qed

definition platform_skill :: skill where
  "platform_skill = \<lparr>sk_id = ''std'', sk_descr = ''d'', sk_body = ''body'', sk_path = ''p'', sk_version = ''v'', sk_chars = 4\<rparr>"

definition tenant_row :: db_skill where
  "tenant_row = \<lparr>ds_tenant = ''t'', ds_key = ''std'', ds_descr = ''own'', ds_body = ''b'', ds_hash = ''h'', ds_enabled = True\<rparr>"

definition demo_resolver :: skill_resolver where
  "demo_resolver =
     \<lparr>sr_registry = Some [(''std'', platform_skill)],
      sr_db = Some \<lparr>sb_enabled = (\<lambda>_. Inr [tenant_row]), sb_profile = (\<lambda>_ _. Inl ''down'')\<rparr>,
      sr_cfg = \<lparr>sg_enabled = True, sg_default_ids = [], sg_max_chars = 100, sg_max_skills = 0\<rparr>\<rparr>"

theorem resolve_spec_witness:
  "resolve_for_tenant demo_resolver ''t'' ''coding''
     \<lparr>ri_run = [], ri_session = [''std'', ''none'', [], ''std''], ri_profile = [''x'']\<rparr> = [to_skill tenant_row]"
proof -
  have "sg_enabled (sr_cfg demo_resolver)"
    by (simp add: demo_resolver_def)
  from resolve_spec [OF this, of "''t''" "''coding''" "\<lparr>ri_run = [], ri_session = [''std'', ''none'', [], ''std''], ri_profile = [''x'']\<rparr>"]
  show ?thesis
    by (simp add: chosen_ids_def first_non_empty_def lookup_skill_def db_by_key_def profile_binding_def
        demo_resolver_def nil_uuid_def tenant_row_def skill_get_def max_skills_def map_filter_simps)
qed

section \<open>The size of the injected message\<close>

lemma inject_blocks_spec:
  assumes "inject_blocks budget ss b ids = (b', ids', trunc)"
  shows "\<exists>k \<le> length ss. ids' = ids @ map sk_id (take k ss) \<and> (\<not> trunc \<longrightarrow> k = length ss) \<and>
    (\<exists>t. b' = b @ t) \<and> int (length b') \<le> max (int (length b)) budget + int (length truncation_mark) \<and>
    (\<not> trunc \<longrightarrow> b' = b @ concat (map render_block ss) \<and> int (length b') \<le> max (int (length b)) budget)"
  using assms
proof (induction ss arbitrary: b ids)
  case (Cons s ss)
  let ?rem = "budget - int (length b)" and ?n = "int (length (render_block s))"
  consider (full) "?rem \<le> 0" | (fits) "0 < ?rem" "?n \<le> ?rem" | (cut) "0 < ?rem" "?rem < ?n"
    by linarith
  then show ?case
  proof cases
    case full
    then show ?thesis
      using Cons.prems by (intro exI [of _ 0]) (simp add: Let_def)
  next
    case fits
    then have "inject_blocks budget ss (b @ render_block s) (ids @ [sk_id s]) = (b', ids', trunc)"
      using Cons.prems by (simp add: Let_def)
    from Cons.IH [OF this] obtain k where k: "k \<le> length ss"
      "ids' = (ids @ [sk_id s]) @ map sk_id (take k ss)" "\<not> trunc \<longrightarrow> k = length ss"
      "\<exists>t. b' = (b @ render_block s) @ t"
      "int (length b') \<le> max (int (length (b @ render_block s))) budget + int (length truncation_mark)"
      "\<not> trunc \<longrightarrow> b' = (b @ render_block s) @ concat (map render_block ss) \<and>
         int (length b') \<le> max (int (length (b @ render_block s))) budget"
      by blast
    have "max (int (length (b @ render_block s))) budget \<le> max (int (length b)) budget"
      using fits by simp
    then show ?thesis
      using k by (intro exI [of _ "Suc k"]) auto
  next
    case cut
    then have "b' = b @ take (nat ?rem) (render_block s) @ truncation_mark" "ids' = ids @ [sk_id s]" "trunc"
      using Cons.prems by (auto simp: Let_def)
    moreover have "int (length (take (nat ?rem) (render_block s))) = ?rem"
      using cut by simp
    ultimately show ?thesis
      by (intro exI [of _ 1]) simp
  qed
qed auto

text \<open>
  The injected message: the ids it reports are a prefix of the resolved skills, all of them
  unless the result says truncated; the message stays within the budget (or the prompt with the
  header, where that is longer) plus the sixteen bytes of the truncation mark.
\<close>

theorem injection_budget:
  assumes "build_system_messages prompt ss mx = res"
  shows "(\<exists>k. ij_ids res = map sk_id (take k ss)) \<and>
    (\<not> ij_truncated res \<longrightarrow> ij_ids res = map sk_id ss) \<and>
    (\<forall>m \<in> set (ij_messages res). cm_role m = role_system \<and> length (cm_content m) = ij_chars res \<and>
        (\<exists>t. cm_content m = prompt @ t)) \<and>
    int (ij_chars res) \<le> max (char_budget mx) (int (length prompt) + 20) + 16"
proof (cases "ss = []")
  case True
  then show ?thesis
    using assms by (auto simp: build_system_messages_def split: if_splits)
next
  case False
  obtain b ids trunc where run:
      "inject_blocks (char_budget mx) ss (prompt @ skills_header @ [nl]) [] = (b, ids, trunc)"
    by (metis surj_pair)
  then have res: "res = \<lparr>ij_messages = [plain_message role_system b], ij_ids = ids, ij_chars = length b, ij_truncated = trunc\<rparr>"
    using assms False by (simp add: build_system_messages_def)
  have "length skills_header = 19" "length truncation_mark = 16"
    by (simp_all add: skills_header_def truncation_mark_def)
  then show ?thesis
    using inject_blocks_spec [OF run] by (auto simp: res)
qed

theorem injection_budget_witness:
  "ij_truncated (build_system_messages ''p'' [platform_skill] 30) \<and>
   ij_ids (build_system_messages ''p'' [platform_skill] 30) = [''std''] \<and>
   int (ij_chars (build_system_messages ''p'' [platform_skill] 30)) \<le> 46"
proof -
  have "ij_truncated (build_system_messages ''p'' [platform_skill] 30)"
    "ij_ids (build_system_messages ''p'' [platform_skill] 30) = [''std'']"
    by (simp_all add: build_system_messages_def char_budget_def render_block_def platform_skill_def skills_header_def)
  then show ?thesis
    using injection_budget [OF refl, of "''p''" "[platform_skill]" 30] by (simp add: char_budget_def)
qed

section \<open>Reading back a file of the documented form\<close>

lemma trim_left_space: "ascii_space c \<Longrightarrow> trim_left (c # s) = trim_left s"
  by (cases s; cases "tl s") auto

lemma trim_space_space: "ascii_space c \<Longrightarrow> trim_space (c # s) = trim_space s"
  by (simp add: trim_space_def trim_left_space)

lemma trim_rev_space: "ascii_space c \<Longrightarrow> trim_rev (c # s) = trim_rev s"
  by (cases s; cases "tl s") auto

lemma trim_space_last:
  assumes "trim_space s = s" "s \<noteq> []"
  shows "\<not> ascii_space (last s)"
proof
  assume space: "ascii_space (last s)"
  obtain a t where rev: "rev s = a # t"
    using assms(2) by (cases "rev s") auto
  then have last: "ascii_space a"
    using space by (metis hd_rev list.sel(1))
  have "length s \<le> length (trim_left s)"
    using arg_cong [OF assms(1), of length] length_trim_rev [of "rev (trim_left s)"]
    by (simp add: trim_space_def)
  from le_antisym [OF length_trim_left this]
  have "trim_left s = s"
    using trim_left_suffix [of s] by (metis append_self_conv2 length_append add_cancel_left_left length_0_conv)
  then have "length (trim_rev (a # t)) = length s"
    using arg_cong [OF assms(1), of length] by (simp add: trim_space_def rev)
  moreover have "length (trim_rev (a # t)) \<le> length t"
    using last by (simp add: trim_rev_space)
  moreover have "length s = Suc (length t)"
    using rev by (metis length_Cons length_rev)
  ultimately show False by simp
qed

text \<open>A value that survives the parsing of its line: on one line, without spaces or quotes around it.\<close>

definition plain_value :: "string \<Rightarrow> bool" where
  "plain_value v \<longleftrightarrow> nl \<notin> set v \<and> trim_space v = v \<and> unquote v = v"

definition skill_file :: "string \<Rightarrow> string \<Rightarrow> string \<Rightarrow> string" where
  "skill_file name descr body =
     ''---'' @ [nl] @ ''name: '' @ name @ [nl] @ ''description: '' @ descr @ [nl] @ ''---'' @ [nl] @ body"

lemma trim_right_cr_plain:
  assumes "trim_space v = v"
  shows "trim_right_cr (p @ CHR '' '' # v) = p @ CHR '' '' # v"
proof (cases "v = []")
  case False
  then have "last v \<noteq> cr"
    using trim_space_last [OF assms False] by (auto simp: ascii_space_def cr_def)
  then have "dropWhile (\<lambda>c. c = cr) (rev v @ w) = rev v @ w" for w
    using False by (cases v rule: rev_cases) auto
  then show ?thesis
    by (simp add: trim_right_cr_def)
qed (simp add: trim_right_cr_def cr_def)

lemma index_of_skip:
  assumes "c \<notin> set a"
  shows "index_of (c # p) (a @ s) = map_option (\<lambda>n. n + length a) (index_of (c # p) s)"
  using assms
proof (induction a)
  case (Cons x a)
  then have "\<not> has_prefix (c # p) (x # a @ s)"
    by (auto simp: has_prefix_def)
  then show ?case
    using Cons by (simp add: option.map_comp comp_def)
qed (simp add: option.map_ident)

text \<open>The byte \<open>c\<close> is visible: it is kept by the trimming.\<close>

definition visible :: "char \<Rightarrow> bool" where
  "visible c \<longleftrightarrow> \<not> ascii_space c \<and> (of_char c :: nat) < 128"

lemma visible_not_space:
  assumes "visible c"
  shows "\<not> ascii_space c" "\<not> uspace2 x c" "\<not> uspace2 c x"
    "\<not> uspace3 x y c" "\<not> uspace3 x c y" "\<not> uspace3 c x y"
  using assms by (auto simp: visible_def uspace2_def uspace3_def Let_def)

lemma trim_left_visible: "visible c \<Longrightarrow> trim_left (c # s) = c # s"
  by (cases s; cases "tl s") (auto simp: visible_not_space)

lemma trim_rev_visible: "visible c \<Longrightarrow> c \<in> set s \<Longrightarrow> trim_rev s \<noteq> []"
proof (induction s rule: trim_rev.induct)
  case (4 a b d cs)
  then show ?case
    by (auto simp: visible_not_space simp del: trim_rev.simps(1-3) split: if_splits)
qed (auto simp: visible_not_space)

lemma trim_space_visible: "visible c \<Longrightarrow> trim_space (c # s) \<noteq> []"
  using trim_rev_visible [of c "rev (c # s)"] by (simp add: trim_space_def trim_left_visible)

lemma front_lines_step:
  assumes "plain_value v" "visible c" "CHR '':'' \<notin> set (c # k)"
  shows "front_lines (((c # k) @ '': '' @ v) # ls) name descr =
    (if trim_space (c # k) = ''name'' then front_lines ls v descr
     else if trim_space (c # k) = ''description'' then front_lines ls name v
     else front_lines ls name descr)"
proof -
  have line: "trim_right_cr ((c # k) @ '': '' @ v) = (c # k) @ '': '' @ v"
    using trim_right_cr_plain [of v "(c # k) @ '':''"] assms(1) by (simp add: plain_value_def)
  have "takeWhile (\<lambda>x. x \<noteq> CHR '':'') (k @ w) = k @ takeWhile (\<lambda>x. x \<noteq> CHR '':'') w" for w
    using assms(3) by (intro takeWhile_append2) auto
  moreover have "c \<noteq> CHR '':''"
    using assms(3) by auto
  ultimately have colon: "index_byte (CHR '':'') ((c # k) @ '': '' @ v) = Some (length (c # k))"
    by (simp add: index_byte_def)
  have "trim_space (CHR '' '' # v) = v" "unquote v = v"
    using assms(1) trim_space_space [of "CHR '' ''" v] by (simp_all add: plain_value_def ascii_space_def)
  then show ?thesis
    using trim_space_visible [OF assms(2), of "k @ '': '' @ v"] line colon
    by (simp del: trim_right_cr_def add: Let_def)
qed

lemma front_lines_plain:
  assumes "plain_value name" "plain_value descr"
  shows "front_lines [''name: '' @ name, ''description: '' @ descr] [] [] = (name, descr)"
proof -
  have "trim_space ''name'' = ''name''" "trim_space ''description'' = ''description''"
    by (simp_all add: trim_space_def ascii_space_def uspace2_def uspace3_def)
  then show ?thesis
    using front_lines_step [of name "CHR ''n''" "''ame''"] front_lines_step [of descr "CHR ''d''" "''escription''"] assms
    by (simp add: visible_def ascii_space_def)
qed

lemma index_of_closing:
  assumes "c \<notin> set a" "c \<notin> set b" "\<not> has_prefix p (b @ c # p @ r)"
  shows "index_of (c # p) (a @ c # b @ c # p @ r) = Some (length (a @ c # b))"
proof -
  have "index_of (c # p) (c # p @ r) = Some 0"
    by (simp add: has_prefix_def)
  moreover have "\<not> has_prefix (c # p) (c # b @ c # p @ r)"
    using assms(3) by (simp add: has_prefix_def)
  ultimately have "index_of (c # p) (c # b @ c # p @ r) = Some (Suc (length b))"
    by (simp add: index_of_skip [OF assms(2)])
  then show ?thesis
    by (simp add: index_of_skip [OF assms(1)])
qed

lemma skill_file_split:
  assumes "plain_value name" "plain_value descr" "name \<noteq> []"
  shows "split_frontmatter (skill_file name descr body) = Inr (name, descr, body)"
proof -
  define d where "d = ''description: '' @ descr"
  define n where "n = ''name: '' @ name"
  define front where "front = n @ nl # d"
  have no_nl: "nl \<notin> set n" "nl \<notin> set d"
    using assms by (auto simp: plain_value_def nl_def n_def d_def)
  have "\<not> has_prefix ''---'' (d @ nl # ''---'' @ nl # body)"
    by (simp add: has_prefix_def d_def)
  from index_of_closing [OF no_nl this]
  have at: "index_of (nl # ''---'') (front @ nl # ''---'' @ nl # body) = Some (length front)"
    by (simp add: front_def)
  have whole: "skill_file name descr body = ''---'' @ nl # (front @ nl # ''---'' @ nl # body)"
    by (simp add: skill_file_def front_def n_def d_def)
  have "split_on nl front = [n, d]"
    by (simp add: front_def split_on_append [OF no_nl(1)] split_on_no_sep [OF no_nl(2)])
  moreover have "front_lines [n, d] [] [] = (name, descr)"
    unfolding n_def d_def by (rule front_lines_plain [OF assms(1,2)])
  ultimately have "split_frontmatter (''---'' @ nl # rest) = Inr (name, descr, body_start (drop (length front + 4) rest))"
    if "rest = front @ nl # ''---'' @ nl # body" for rest
    using that at assms(3) by (simp add: split_frontmatter_def has_prefix_def del: front_lines.simps)
  moreover have "body_start (nl # body) = body"
    by (simp add: body_start_def nl_def cr_def)
  ultimately show ?thesis
    unfolding whole by simp
qed

text \<open>
  A SKILL.md file of the documented form, with an id the pattern allows, is read as the skill
  with this id, description and (trimmed) body.
\<close>

theorem skill_file_read:
  assumes "plain_value name" "plain_value descr" "slug_match name" "length name \<le> 64"
    and "read path = Inr (skill_file name descr body)"
  shows "parse_file read path =
    Inr \<lparr>sd_id = name, sd_descr = descr, sd_body = trim_space body, sd_path = path\<rparr>"
proof -
  have "name \<noteq> []"
    using assms(3) by (auto simp: slug_match_def)
  then show ?thesis
    using assms by (simp add: parse_file_def skill_file_split)
qed

theorem skill_file_read_witness:
  "parse_file (\<lambda>_. Inr (skill_file ''go-style'' ''Use gofmt'' ''Body'')) ''p'' =
    Inr \<lparr>sd_id = ''go-style'', sd_descr = ''Use gofmt'', sd_body = ''Body'', sd_path = ''p''\<rparr>"
proof -
  have trims: "trim_space ''go-style'' = ''go-style''" "trim_space ''Use gofmt'' = ''Use gofmt''" "trim_space ''Body'' = ''Body''"
    by (simp_all add: trim_space_def ascii_space_def uspace2_def uspace3_def)
  have "plain_value ''go-style''" "plain_value ''Use gofmt''" "slug_match ''go-style''"
    by (simp_all add: plain_value_def trims nl_def unquote_def slug_match_def lower_alnum_def)
  then show ?thesis
    using skill_file_read [of "''go-style''" "''Use gofmt''" "\<lambda>_. Inr (skill_file ''go-style'' ''Use gofmt'' ''Body'')"
        "''p''" "''Body''"]
    by (simp add: trims)
qed

end
