(* ===== verification/Agent.thy ===== *)
theory Agent
  imports JsonScan Orchestrator Skills ToolBus
begin

text \<open>
  The agent loop, \<open>src/internal/agent\<close>: the events (\<open>types.go\<close>), the accumulator of stream chunks
  (\<open>stream_accum.go\<close>), the truncation of tool outputs (\<open>truncate.go\<close>), the composers of the system
  prefix (\<open>composer.go\<close>, \<open>composer_memory.go\<close>) and \<open>Engine.Run\<close> (\<open>engine.go\<close>). The gateway, the tool
  bus and the receiver of the events are functions on a world of any type; the state of a run
  is this world and the log of what the run did.
\<close>

section \<open>Profiles, inputs and events\<close>

record profile =
  pf_name :: string
  pf_descr :: string
  pf_prompt :: string
  pf_allow :: "string list"
  pf_max_steps :: int
  pf_skills :: "string list"

record run_input =
  rq_tenant :: string
  rq_user :: string
  rq_model :: string
  rq_messages :: "chat_message list"
  rq_profile :: string
  rq_max_steps :: int
  rq_skills :: "string list"
  rq_session_skills :: "string list"
  rq_sandbox :: string
  rq_memory_section :: string
  rq_memory_ids :: "string list"
  rq_memory_chars :: int
  rq_memory_truncated :: bool

text \<open>\<open>RunCtx\<close>, which travels in the context.\<close>

record run_ctx =
  rc_sandbox :: string
  rc_model :: string
  rc_profile :: string
  rc_depth :: int

datatype event_kind =
  EventAssistantDelta | EventAssistantMessage | EventToolCall | EventToolResult | EventFinal | EventError

record agent_event =
  ag_kind :: event_kind
  ag_step :: int
  ag_text :: string
  ag_call_id :: string
  ag_tool :: string
  ag_input :: string
  ag_output :: string
  ag_error :: string
  ag_truncated :: bool
  ag_size :: int
  ag_finish :: string
  ag_calls :: "tool_call list"

definition new_event :: "event_kind \<Rightarrow> int \<Rightarrow> agent_event" where
  "new_event k step =
     \<lparr>ag_kind = k, ag_step = step, ag_text = [], ag_call_id = [], ag_tool = [], ag_input = [], ag_output = [],
      ag_error = [], ag_truncated = False, ag_size = 0, ag_finish = [], ag_calls = []\<rparr>"

datatype agent_err =
    AgEmptyMessages
  | AgUnknownProfile string
  | AgCompose string
  | AgLLMFailed string
  | AgMaxSteps
  | AgYield string
  | AgPanic

fun agent_err_text :: "agent_err \<Rightarrow> string" where
  "agent_err_text AgEmptyMessages = ''agent: messages required''"
| "agent_err_text (AgUnknownProfile p) = ''agent: unknown profile: '' @ quote p"
| "agent_err_text (AgCompose e) = ''compose system: '' @ e"
| "agent_err_text (AgLLMFailed e) = ''agent: llm call failed: '' @ e"
| "agent_err_text AgMaxSteps = ''agent: max steps exceeded''"
| "agent_err_text (AgYield e) = e"
| "agent_err_text AgPanic = ''panic''"

section \<open>The stream accumulator\<close>

record stream_accum =
  sa_content :: string
  sa_calls :: "tool_call list"
  sa_finish :: string

definition new_accum :: stream_accum where
  "new_accum = \<lparr>sa_content = [], sa_calls = [], sa_finish = []\<rparr>"

definition fresh_call :: tool_call where
  "fresh_call = \<lparr>tc_index = 0, tc_id = [], tc_type = ''function'', tc_name = [], tc_args = []\<rparr>"

definition merge_call :: "tool_call \<Rightarrow> tool_call \<Rightarrow> tool_call" where
  "merge_call tc d =
     tc\<lparr>tc_id := (if tc_id d \<noteq> [] then tc_id d else tc_id tc),
        tc_type := (if tc_type d \<noteq> [] then tc_type d else tc_type tc),
        tc_name := (if tc_name d \<noteq> [] then tc_name d else tc_name tc),
        tc_args := tc_args tc @ tc_args d\<rparr>"

text \<open>One delta of a tool call; \<open>None\<close>: the index is negative and the slice access panics.\<close>

definition apply_call :: "tool_call \<Rightarrow> tool_call list \<Rightarrow> tool_call list option" where
  "apply_call d calls =
     (if tc_index d < 0 then None
      else
        let i = nat (tc_index d);
            padded = calls @ replicate (Suc i - length calls) fresh_call
        in Some (padded[i := merge_call (padded ! i) d]))"

fun apply_calls :: "tool_call list \<Rightarrow> tool_call list \<Rightarrow> tool_call list option" where
  "apply_calls [] calls = Some calls"
| "apply_calls (d # ds) calls =
     (case apply_call d calls of None \<Rightarrow> None | Some calls' \<Rightarrow> apply_calls ds calls')"

definition accum_apply :: "stream_chunk \<Rightarrow> stream_accum \<Rightarrow> (stream_accum \<times> string) option" where
  "accum_apply ck a =
     (case ck_choices ck of
        [] \<Rightarrow> Some (a, [])
      | ch # _ \<Rightarrow>
          (case apply_calls (sc_calls ch) (sa_calls a) of
             None \<Rightarrow> None
           | Some calls \<Rightarrow>
               Some (\<lparr>sa_content = sa_content a @ sc_content ch, sa_calls = calls,
                      sa_finish = (case sc_finish ch of
                          Some f \<Rightarrow> if f \<noteq> [] then f else sa_finish a
                        | None \<Rightarrow> sa_finish a)\<rparr>, sc_content ch)))"

definition accum_message :: "stream_accum \<Rightarrow> chat_message" where
  "accum_message a =
     \<lparr>cm_role = role_assistant, cm_content = sa_content a, cm_name = [], cm_call_id = [], cm_calls = sa_calls a\<rparr>"

section \<open>Tool definitions and outputs\<close>

definition build_model_tools :: "tool_def list \<Rightarrow> string list \<Rightarrow> model_tool list" where
  "build_model_tools defs allow =
     map (\<lambda>t. \<lparr>mt_type = ''function'', mt_name = td_name t, mt_descr = td_descr t, mt_params = td_params t\<rparr>)
       (filter (\<lambda>t. td_name t \<in> set allow) defs)"

definition default_max_output :: int where "default_max_output = 50 * 1024"

definition truncate_tool_output :: "string \<Rightarrow> int \<Rightarrow> string \<times> bool" where
  "truncate_tool_output raw mx =
     (if mx \<le> 0 \<or> int (length raw) \<le> mx then (raw, False)
      else
        let p1 = mx - 120;
            p2 = (if p1 < 16 then 16 else p1);
            p3 = (if p2 > int (length raw) then int (length raw) else p2)
        in (json_text (JObj [(''truncated'', JBool True), (''original_size'', JInt (int (length raw))),
              (''preview'', JStr (take (nat p3) raw))]), True))"

definition tool_error_message :: "string \<Rightarrow> string \<Rightarrow> chat_message" where
  "tool_error_message call_id msg =
     \<lparr>cm_role = role_tool, cm_content = json_text (JObj [(''error'', JStr msg)]), cm_name = [],
      cm_call_id = call_id, cm_calls = []\<rparr>"

section \<open>The composers\<close>

record compose_input =
  ci_tenant :: string
  ci_user :: string
  ci_profile :: profile
  ci_run_skills :: "string list"
  ci_session_skills :: "string list"
  ci_memory_section :: string
  ci_memory_ids :: "string list"
  ci_memory_chars :: int
  ci_memory_truncated :: bool

record compose_meta =
  mt_skills :: "string list"
  mt_chars :: int
  mt_truncated :: bool
  mt_memory_ids :: "string list"
  mt_memory_chars :: int
  mt_memory_truncated :: bool

type_synonym composer = "compose_input \<Rightarrow> (chat_message list \<times> compose_meta) result"

definition no_meta :: compose_meta where
  "no_meta = \<lparr>mt_skills = [], mt_chars = 0, mt_truncated = False, mt_memory_ids = [], mt_memory_chars = 0,
     mt_memory_truncated = False\<rparr>"

definition noop_composer :: composer where
  "noop_composer inp =
     Inr (if pf_prompt (ci_profile inp) = [] then [] else [plain_message role_system (pf_prompt (ci_profile inp))], no_meta)"

definition skill_composer :: "skill_resolver \<Rightarrow> composer" where
  "skill_composer r inp =
     (let resolved = resolve_for_tenant r (ci_tenant inp) (pf_name (ci_profile inp))
            \<lparr>ri_run = ci_run_skills inp, ri_session = ci_session_skills inp, ri_profile = pf_skills (ci_profile inp)\<rparr>;
          res = build_system_messages (pf_prompt (ci_profile inp)) resolved (sg_max_chars (sr_cfg r))
      in Inr (ij_messages res, no_meta\<lparr>mt_skills := ij_ids res, mt_chars := int (ij_chars res), mt_truncated := ij_truncated res\<rparr>))"

definition memory_composer :: "composer \<Rightarrow> composer" where
  "memory_composer inner inp =
     on_ok (inner inp) (\<lambda>(msgs, meta).
       if ci_memory_section inp \<noteq> []
       then Inr (msgs @ [plain_message role_system (ci_memory_section inp)],
              meta\<lparr>mt_memory_ids := ci_memory_ids inp, mt_memory_chars := ci_memory_chars inp,
                   mt_memory_truncated := ci_memory_truncated inp\<rparr>)
       else Inr (msgs, meta))"

section \<open>The world of a run\<close>

datatype invoke_err = InvokeNotFound | InvokeErr string

text \<open>
  \<open>aw_stream\<close> gives the chunks of the answer and the error the stream ends with; \<open>aw_invoke\<close> is the
  tool bus, which sees the run context; \<open>aw_yield\<close> the receiver of the events.
\<close>

record 'w agent_world =
  aw_tools :: "'w \<Rightarrow> tool_def list"
  aw_stream :: "run_ctx \<Rightarrow> chat_request \<Rightarrow> 'w \<Rightarrow> (stream_chunk list \<times> string option) \<times> 'w"
  aw_invoke :: "run_ctx \<Rightarrow> string \<Rightarrow> string \<Rightarrow> 'w \<Rightarrow> (invoke_err + string) \<times> 'w"
  aw_yield :: "agent_event \<Rightarrow> 'w \<Rightarrow> string option \<times> 'w"

datatype agent_obs =
    AoEvent agent_event
  | AoRequest chat_request
  | AoInvoke string string
  | AoAudit string string "(string, val) gomap"

record 'w agent_st =
  as_world :: 'w
  as_log :: "agent_obs list"

record 're agent_engine =
  an_profiles :: "(string, profile) gomap"
  an_composer :: composer
  an_audit :: bool
  an_lib :: "'re regexp_lib"
  an_router :: "'re router option"
  an_max_output :: int

text \<open>The engine as \<open>NewEngine\<close> builds it, before \<open>WithAuditSink\<close> and \<open>WithRouter\<close>.\<close>

definition new_agent_engine :: "'re regexp_lib \<Rightarrow> (string, profile) gomap \<Rightarrow> composer option \<Rightarrow> 're agent_engine" where
  "new_agent_engine lib profiles composer =
     \<lparr>an_profiles = profiles,
      an_composer = (case composer of None \<Rightarrow> noop_composer | Some c \<Rightarrow> c),
      an_audit = False, an_lib = lib, an_router = None, an_max_output = default_max_output\<rparr>"

definition engine_profiles :: "'re agent_engine \<Rightarrow> profile list" where
  "engine_profiles en = sort_key pf_name (map snd (an_profiles en))"

definition log_ao :: "agent_obs \<Rightarrow> 'w agent_st \<Rightarrow> 'w agent_st" where
  "log_ao ob st = st\<lparr>as_log := ob # as_log st\<rparr>"

definition do_yield :: "'w agent_world \<Rightarrow> agent_event \<Rightarrow> 'w agent_st \<Rightarrow> string option \<times> 'w agent_st" where
  "do_yield wd ev st =
     (let (err, w) = aw_yield wd ev (as_world st) in (err, log_ao (AoEvent ev) (st\<lparr>as_world := w\<rparr>)))"

text \<open>A yield whose error the code drops.\<close>

definition yield_ignored :: "'w agent_world \<Rightarrow> agent_event \<Rightarrow> 'w agent_st \<Rightarrow> 'w agent_st" where
  "yield_ignored wd ev st = snd (do_yield wd ev st)"

section \<open>One tool call\<close>

definition call_event :: "int \<Rightarrow> tool_call \<Rightarrow> agent_event" where
  "call_event step call =
     (new_event EventToolCall step)\<lparr>ag_call_id := tc_id call, ag_tool := tc_name call, ag_input := tc_args call\<rparr>"

definition result_event :: "int \<Rightarrow> tool_call \<Rightarrow> agent_event" where
  "result_event step call =
     (new_event EventToolResult step)\<lparr>ag_call_id := tc_id call, ag_tool := tc_name call\<rparr>"

text \<open>The two early returns of \<open>runToolCall\<close>.\<close>

definition refuse_call ::
  "'w agent_world \<Rightarrow> int \<Rightarrow> tool_call \<Rightarrow> string \<Rightarrow> 'w agent_st \<Rightarrow> chat_message \<times> 'w agent_st" where
  "refuse_call wd step call msg st =
     (tool_error_message (tc_id call) msg,
      yield_ignored wd ((result_event step call)\<lparr>ag_error := msg\<rparr>) (yield_ignored wd (call_event step call) st))"

definition run_tool_call ::
  "'re agent_engine \<Rightarrow> 'w agent_world \<Rightarrow> run_ctx \<Rightarrow> int \<Rightarrow> string list \<Rightarrow> tool_call \<Rightarrow> 'w agent_st \<Rightarrow>
   chat_message \<times> 'w agent_st" where
  "run_tool_call en wd rc step allowed call st =
     (let name = tc_name call; args = tc_args call in
      if args = [] \<or> \<not> json_valid args
      then refuse_call wd step call (''invalid tool_call arguments: not valid JSON: '' @ quote args) st
      else if name \<notin> set allowed
      then refuse_call wd step call (''tool '' @ quote name @ '' is not allowed or does not exist'') st
      else
       (let st1 = yield_ignored wd (call_event step call) st;
            (res, w) = aw_invoke wd rc name args (as_world st1);
            st2 = log_ao (AoInvoke name args) (st1\<lparr>as_world := w\<rparr>)
        in case res of
             Inl e \<Rightarrow>
              (let msg = (case e of InvokeNotFound \<Rightarrow> ''tool '' @ quote name @ '' not found'' | InvokeErr m \<Rightarrow> m)
               in (tool_error_message (tc_id call) msg,
                   yield_ignored wd ((result_event step call)\<lparr>ag_error := msg\<rparr>) st2))
           | Inr out \<Rightarrow>
              (let (text, trunc) = truncate_tool_output out (an_max_output en);
                   ev = (result_event step call)\<lparr>ag_output := text, ag_truncated := trunc,
                          ag_size := (if trunc then int (length out) else 0)\<rparr>
               in (\<lparr>cm_role = role_tool, cm_content = text, cm_name = name, cm_call_id = tc_id call, cm_calls = []\<rparr>,
                   yield_ignored wd ev st2))))"

fun run_tool_calls ::
  "'re agent_engine \<Rightarrow> 'w agent_world \<Rightarrow> run_ctx \<Rightarrow> int \<Rightarrow> string list \<Rightarrow> tool_call list \<Rightarrow> 'w agent_st \<Rightarrow>
   chat_message list \<times> 'w agent_st" where
  "run_tool_calls en wd rc step allowed [] st = ([], st)"
| "run_tool_calls en wd rc step allowed (c # cs) st =
     (let (m, st1) = run_tool_call en wd rc step allowed c st;
          (ms, st2) = run_tool_calls en wd rc step allowed cs st1
      in (m # ms, st2))"

section \<open>One step of the loop\<close>

datatype stream_end = StreamDone | StreamErr string | StreamPanic

text \<open>
  The callback of \<open>ChatCompletionStream\<close> on each chunk; the gateway stops at the first error the
  callback returns and returns it.
\<close>

fun stream_chunks ::
  "'w agent_world \<Rightarrow> int \<Rightarrow> stream_chunk list \<Rightarrow> stream_accum \<Rightarrow> 'w agent_st \<Rightarrow>
   stream_end \<times> stream_accum \<times> 'w agent_st" where
  "stream_chunks wd step [] a st = (StreamDone, a, st)"
| "stream_chunks wd step (ck # cks) a st =
     (case accum_apply ck a of
        None \<Rightarrow> (StreamPanic, a, st)
      | Some (a', delta) \<Rightarrow>
          if delta = [] then stream_chunks wd step cks a' st
          else
            (case do_yield wd ((new_event EventAssistantDelta step)\<lparr>ag_text := delta\<rparr>) st of
               (Some e, st') \<Rightarrow> (StreamErr e, a', st')
             | (None, st') \<Rightarrow> stream_chunks wd step cks a' st'))"

definition call_stream ::
  "'w agent_world \<Rightarrow> run_ctx \<Rightarrow> int \<Rightarrow> chat_request \<Rightarrow> 'w agent_st \<Rightarrow> stream_end \<times> stream_accum \<times> 'w agent_st" where
  "call_stream wd rc step req st =
     (let ((cks, err), w) = aw_stream wd rc req (as_world st);
          (fin, a, st1) = stream_chunks wd step cks new_accum (log_ao (AoRequest req) (st\<lparr>as_world := w\<rparr>))
      in (case fin of
            StreamDone \<Rightarrow> (case err of None \<Rightarrow> StreamDone | Some e \<Rightarrow> StreamErr e)
          | other \<Rightarrow> other, a, st1))"

datatype loop_out = LoopStop "agent_err option" | LoopNext "chat_message list"

text \<open>What the step does with the assistant message.\<close>

definition after_message ::
  "'re agent_engine \<Rightarrow> 'w agent_world \<Rightarrow> run_ctx \<Rightarrow> int \<Rightarrow> string list \<Rightarrow> chat_message list \<Rightarrow> chat_message \<Rightarrow>
   string \<Rightarrow> 'w agent_st \<Rightarrow> loop_out \<times> 'w agent_st" where
  "after_message en wd rc step allowed messages assistant finish st =
     (if finish = ''tool_calls'' \<and> cm_calls assistant \<noteq> [] then
       (let (results, st1) = run_tool_calls en wd rc step allowed (cm_calls assistant) st
        in (LoopNext (messages @ [assistant] @ results), st1))
      else
       (case do_yield wd ((new_event EventFinal step)\<lparr>ag_text := cm_content assistant, ag_finish := finish\<rparr>) st of
          (Some e, st1) \<Rightarrow> (LoopStop (Some (AgYield e)), st1)
        | (None, st1) \<Rightarrow> (LoopStop None, st1)))"

definition agent_step ::
  "'re agent_engine \<Rightarrow> 'w agent_world \<Rightarrow> run_ctx \<Rightarrow> run_input \<Rightarrow> model_tool list \<Rightarrow> string list \<Rightarrow> int \<Rightarrow>
   chat_message list \<Rightarrow> 'w agent_st \<Rightarrow> loop_out \<times> 'w agent_st" where
  "agent_step en wd rc inp tools allowed step messages st =
     (case call_stream wd rc step (chat_request_of (rq_model inp) messages tools) st of
        (StreamPanic, a, st1) \<Rightarrow> (LoopStop (Some AgPanic), st1)
      | (StreamErr e, a, st1) \<Rightarrow>
          (LoopStop (Some (AgLLMFailed e)),
           yield_ignored wd ((new_event EventError step)\<lparr>ag_text := e, ag_finish := ''llm_error''\<rparr>) st1)
      | (StreamDone, a, st1) \<Rightarrow>
         (let assistant = accum_message a;
              finish = (if sa_finish a = [] then ''stop'' else sa_finish a)
          in case do_yield wd ((new_event EventAssistantMessage step)\<lparr>ag_text := cm_content assistant,
                    ag_calls := cm_calls assistant, ag_finish := finish\<rparr>) st1 of
               (Some e, st2) \<Rightarrow> (LoopStop (Some (AgYield e)), st2)
             | (None, st2) \<Rightarrow> after_message en wd rc step allowed messages assistant finish st2))"

text \<open>The loop, by the number of steps that are left.\<close>

fun agent_loop ::
  "'re agent_engine \<Rightarrow> 'w agent_world \<Rightarrow> run_ctx \<Rightarrow> run_input \<Rightarrow> model_tool list \<Rightarrow> string list \<Rightarrow> int \<Rightarrow> nat \<Rightarrow>
   chat_message list \<Rightarrow> 'w agent_st \<Rightarrow> agent_err option \<times> 'w agent_st" where
  "agent_loop en wd rc inp tools allowed mx 0 messages st =
     (Some AgMaxSteps,
      yield_ignored wd ((new_event EventError mx)\<lparr>ag_text := agent_err_text AgMaxSteps, ag_finish := ''max_steps''\<rparr>) st)"
| "agent_loop en wd rc inp tools allowed mx (Suc n) messages st =
     (case agent_step en wd rc inp tools allowed (mx - int n) messages st of
        (LoopStop r, st1) \<Rightarrow> (r, st1)
      | (LoopNext messages', st1) \<Rightarrow> agent_loop en wd rc inp tools allowed mx n messages' st1)"

section \<open>Run\<close>

fun last_user_content :: "chat_message list \<Rightarrow> string" where
  "last_user_content [] = []"
| "last_user_content (m # ms) =
     (if list_ex (\<lambda>x. cm_role x = role_user) ms then last_user_content ms
      else if cm_role m = role_user then cm_content m else [])"

definition route_if_enabled :: "'re agent_engine \<Rightarrow> string \<Rightarrow> chat_message list \<Rightarrow> decision" where
  "route_if_enabled en profile msgs =
     (case an_router en of None \<Rightarrow> no_decision | Some r \<Rightarrow> route (an_lib en) r profile (last_user_content msgs))"

definition audit_if :: "'re agent_engine \<Rightarrow> bool \<Rightarrow> agent_obs \<Rightarrow> 'w agent_st \<Rightarrow> 'w agent_st" where
  "audit_if en c ob st = (if c \<and> an_audit en then log_ao ob st else st)"

definition record_route :: "'re agent_engine \<Rightarrow> run_input \<Rightarrow> decision \<Rightarrow> 'w agent_st \<Rightarrow> 'w agent_st" where
  "record_route en inp d st =
     audit_if en (an_router en \<noteq> None)
       (AoAudit ''orchestrator.route'' (dc_target d)
         [(''matched'', VBool (dc_matched d)), (''rule_name'', VStr (dc_rule d)), (''type'', VStr (dc_type d)),
          (''matched_on'', VStr (dc_on d)), (''profile'', VStr (rq_profile inp))]) st"

definition record_skill_inject :: "'re agent_engine \<Rightarrow> compose_meta \<Rightarrow> 'w agent_st \<Rightarrow> 'w agent_st" where
  "record_skill_inject en meta st =
     audit_if en (mt_skills meta \<noteq> [])
       (AoAudit ''skill.inject'' []
         [(''skill_ids'', VStrs (mt_skills meta)), (''chars'', VInt (mt_chars meta)), (''truncated'', VBool (mt_truncated meta))]) st"

definition record_memory_inject :: "'re agent_engine \<Rightarrow> compose_meta \<Rightarrow> 'w agent_st \<Rightarrow> 'w agent_st" where
  "record_memory_inject en meta st =
     audit_if en (mt_memory_ids meta \<noteq> [])
       (AoAudit ''memory.inject'' []
         [(''memory_ids'', VStrs (mt_memory_ids meta)), (''chars'', VInt (mt_memory_chars meta)),
          (''truncated'', VBool (mt_memory_truncated meta))]) st"

definition run_profile_name :: "run_input \<Rightarrow> string" where
  "run_profile_name inp = (if rq_profile inp = [] then ''coding'' else rq_profile inp)"

definition run_max_steps :: "run_input \<Rightarrow> profile \<Rightarrow> int" where
  "run_max_steps inp p =
     (let m = (if rq_max_steps inp \<le> 0 then pf_max_steps p else rq_max_steps inp) in if m \<le> 0 then 16 else m)"

definition compose_input_of :: "run_input \<Rightarrow> profile \<Rightarrow> compose_input" where
  "compose_input_of inp p =
     \<lparr>ci_tenant = rq_tenant inp, ci_user = rq_user inp, ci_profile = p, ci_run_skills = rq_skills inp,
      ci_session_skills = rq_session_skills inp, ci_memory_section = rq_memory_section inp,
      ci_memory_ids = rq_memory_ids inp, ci_memory_chars = rq_memory_chars inp,
      ci_memory_truncated = rq_memory_truncated inp\<rparr>"

definition opening_messages :: "'re agent_engine \<Rightarrow> run_input \<Rightarrow> chat_message list \<Rightarrow> decision \<Rightarrow> chat_message list" where
  "opening_messages en inp sys d =
     (if rq_sandbox inp \<noteq> nil_uuid then [plain_message role_system (''Current sandbox_id: '' @ rq_sandbox inp)] else []) @
     sys @
     (if dc_hint d \<noteq> [] \<and> (case an_router en of None \<Rightarrow> False | Some r \<Rightarrow> rt_inject r)
      then [plain_message role_system (dc_hint d)] else []) @
     rq_messages inp"

definition child_ctx :: "run_ctx \<Rightarrow> run_input \<Rightarrow> run_ctx" where
  "child_ctx parent inp =
     \<lparr>rc_sandbox = rq_sandbox inp, rc_model = rq_model inp, rc_profile = run_profile_name inp, rc_depth = rc_depth parent\<rparr>"

definition agent_run ::
  "'re agent_engine \<Rightarrow> 'w agent_world \<Rightarrow> run_ctx \<Rightarrow> run_input \<Rightarrow> 'w agent_st \<Rightarrow> agent_err option \<times> 'w agent_st" where
  "agent_run en wd parent inp st =
     (if rq_messages inp = [] then (Some AgEmptyMessages, st)
      else case map_of (an_profiles en) (run_profile_name inp) of
          None \<Rightarrow> (Some (AgUnknownProfile (run_profile_name inp)), st)
        | Some p \<Rightarrow>
            (case an_composer en (compose_input_of inp p) of
               Inl e \<Rightarrow> (Some (AgCompose e), st)
             | Inr (sys, meta) \<Rightarrow>
                 (let st1 = record_skill_inject en meta (record_memory_inject en meta st);
                      d = route_if_enabled en (run_profile_name inp) (rq_messages inp);
                      st2 = record_route en inp d st1;
                      mx = run_max_steps inp p
                  in agent_loop en wd (child_ctx parent inp) inp
                       (build_model_tools (aw_tools wd (as_world st2)) (pf_allow p)) (pf_allow p)
                       mx (nat mx) (opening_messages en inp sys d) st2)))"

end
