(* ===== verification/AgentRuns.thy ===== *)
theory AgentRuns
  imports Agent
begin

text \<open>
  What an agent run does, whatever the model, the tools and the receiver of the events answer.
  The runs of the loop are those of an abstract protocol (\<open>react\<close>), a relation between the
  conversation, the observations in their order and the outcome; the properties of the runs
  follow by induction on it.
\<close>

section \<open>The protocol\<close>

text \<open>The answers to the calls of one message: per call its event, the invocation if it is allowed, its result.\<close>

inductive answered ::
  "string list \<Rightarrow> int \<Rightarrow> tool_call list \<Rightarrow> chat_message list \<Rightarrow> agent_obs list \<Rightarrow> bool" for allow step where
  none: "answered allow step [] [] []"
| call: "answered allow step (c # cs) (m # ms) (AoEvent (call_event step c) # ivk @ AoEvent r # t)"
  if "answered allow step cs ms t"
    and "ivk = [] \<or> ivk = [AoInvoke (tc_name c) (tc_args c)] \<and> tc_name c \<in> set allow \<and> json_valid (tc_args c)"
    and "ag_kind r = EventToolResult" "ag_call_id r = tc_id c" "ag_tool r = tc_name c" "ag_step r = step"
    and "cm_role m = role_tool" "cm_call_id m = tc_id c" "cm_calls m = []"

definition event_of :: "event_kind \<Rightarrow> int \<Rightarrow> agent_obs \<Rightarrow> bool" where
  "event_of k step ob \<longleftrightarrow> (\<exists>ev. ob = AoEvent ev \<and> ag_kind ev = k \<and> ag_step ev = step)"

lemma event_of_AoEvent [simp]: "event_of k step (AoEvent ev) \<longleftrightarrow> ag_kind ev = k \<and> ag_step ev = step"
  by (simp add: event_of_def)

fun event_calls :: "agent_obs \<Rightarrow> tool_call list" where
  "event_calls (AoEvent ev) = ag_calls ev"
| "event_calls _ = []"

inductive react ::
  "string list \<Rightarrow> (chat_message list \<Rightarrow> chat_request) \<Rightarrow> int \<Rightarrow> nat \<Rightarrow> chat_message list \<Rightarrow> agent_obs list \<Rightarrow>
   agent_err option \<Rightarrow> bool" for allow req mx where
  exhausted: "react allow req mx 0 msgs [ob] (Some AgMaxSteps)" if "event_of EventError mx ob"
| panicked: "react allow req mx (Suc n) msgs (AoRequest (req msgs) # ds) (Some AgPanic)"
  if "list_all (event_of EventAssistantDelta (mx - int n)) ds"
| failed: "react allow req mx (Suc n) msgs (AoRequest (req msgs) # ds @ [ob]) (Some (AgLLMFailed e))"
  if "list_all (event_of EventAssistantDelta (mx - int n)) ds" "event_of EventError (mx - int n) ob"
| cut: "react allow req mx (Suc n) msgs (AoRequest (req msgs) # ds @ [ob]) (Some (AgYield e))"
  if "list_all (event_of EventAssistantDelta (mx - int n)) ds" "event_of EventAssistantMessage (mx - int n) ob"
| final: "react allow req mx (Suc n) msgs (AoRequest (req msgs) # ds @ [ob, fin]) res"
  if "list_all (event_of EventAssistantDelta (mx - int n)) ds" "event_of EventAssistantMessage (mx - int n) ob"
    and "event_of EventFinal (mx - int n) fin" "res = None \<or> (\<exists>e. res = Some (AgYield e))"
| turn: "react allow req mx (Suc n) msgs (AoRequest (req msgs) # ds @ ob # t @ t') res"
  if "list_all (event_of EventAssistantDelta (mx - int n)) ds" "event_of EventAssistantMessage (mx - int n) ob"
    and "cm_role asst = role_assistant" "cm_calls asst \<noteq> []" "event_calls ob = cm_calls asst"
    and "answered allow (mx - int n) (cm_calls asst) results t"
    and "react allow req mx n (msgs @ asst # results) t' res"

section \<open>The loop follows the protocol\<close>

lemma log_ao_log [simp]: "as_log (log_ao ob st) = ob # as_log st"
  by (simp add: log_ao_def)

lemma do_yield_log: "do_yield wd ev st = (err, st') \<Longrightarrow> as_log st' = AoEvent ev # as_log st"
  by (auto simp: do_yield_def split: prod.splits)

lemma yield_ignored_log [simp]: "as_log (yield_ignored wd ev st) = AoEvent ev # as_log st"
  by (metis do_yield_log prod.collapse yield_ignored_def)

lemma new_event_sel [simp]: "ag_kind (new_event k s) = k" "ag_step (new_event k s) = s"
  by (simp_all add: new_event_def)

lemma result_event_sel [simp]:
  "ag_kind (result_event s c) = EventToolResult" "ag_call_id (result_event s c) = tc_id c"
  "ag_tool (result_event s c) = tc_name c" "ag_step (result_event s c) = s"
  by (simp_all add: result_event_def)

lemma call_event_sel [simp]:
  "ag_kind (call_event s c) = EventToolCall" "ag_call_id (call_event s c) = tc_id c"
  "ag_tool (call_event s c) = tc_name c" "ag_step (call_event s c) = s"
  by (simp_all add: call_event_def)

lemma tool_error_message_sel [simp]:
  "cm_role (tool_error_message i e) = role_tool" "cm_call_id (tool_error_message i e) = i"
  "cm_calls (tool_error_message i e) = []"
  by (simp_all add: tool_error_message_def)

lemma run_tool_call_refused:
  assumes "tc_args c = [] \<or> \<not> json_valid (tc_args c) \<or> tc_name c \<notin> set allow"
  shows "\<exists>msg. run_tool_call en wd rc step allow c st = refuse_call wd step c msg st"
proof (cases "tc_args c = [] \<or> \<not> json_valid (tc_args c)")
  case True
  then show ?thesis
    unfolding run_tool_call_def Let_def by (simp only: if_True) blast
next
  case False
  then have "tc_name c \<notin> set allow"
    using assms by blast
  with False show ?thesis
    unfolding run_tool_call_def Let_def by (simp only: if_True if_False not_False_eq_True) blast
qed

lemma run_tool_call_answer:
  assumes "run_tool_call en wd rc step allow c st = (m, st')"
  obtains ivk r where "as_log st' = AoEvent r # rev ivk @ AoEvent (call_event step c) # as_log st"
    and "ivk = [] \<or> ivk = [AoInvoke (tc_name c) (tc_args c)] \<and> tc_name c \<in> set allow \<and> json_valid (tc_args c)"
    and "ag_kind r = EventToolResult" "ag_call_id r = tc_id c" "ag_tool r = tc_name c" "ag_step r = step"
    and "cm_role m = role_tool" "cm_call_id m = tc_id c" "cm_calls m = []"
proof (cases "tc_args c = [] \<or> \<not> json_valid (tc_args c) \<or> tc_name c \<notin> set allow")
  case True
  then obtain msg where "(m, st') = refuse_call wd step c msg st"
    using run_tool_call_refused [of c allow en wd rc step st] assms by auto
  then show thesis
    by (intro that [of "(result_event step c)\<lparr>ag_error := msg\<rparr>" "[]"]) (auto simp: refuse_call_def)
next
  case False
  obtain res w where "aw_invoke wd rc (tc_name c) (tc_args c) (as_world (yield_ignored wd (call_event step c) st)) = (res, w)"
    by (metis surj_pair)
  then have "\<exists>r. as_log st' = AoEvent r # AoInvoke (tc_name c) (tc_args c) # AoEvent (call_event step c) # as_log st \<and>
      ag_kind r = EventToolResult \<and> ag_call_id r = tc_id c \<and> ag_tool r = tc_name c \<and> ag_step r = step \<and>
      cm_role m = role_tool \<and> cm_call_id m = tc_id c \<and> cm_calls m = []"
    using assms False
    by (auto simp: run_tool_call_def Let_def split: sum.splits prod.splits invoke_err.splits)
  then show thesis
    using that [of _ "[AoInvoke (tc_name c) (tc_args c)]"] False by auto
qed

lemma run_tool_calls_answered:
  "run_tool_calls en wd rc step allow cs st = (ms, st') \<Longrightarrow>
     \<exists>t. as_log st' = rev t @ as_log st \<and> answered allow step cs ms t"
proof (induction cs arbitrary: st ms)
  case Nil
  then show ?case
    by (auto intro: answered.none)
next
  case (Cons c cs)
  obtain m st1 where first: "run_tool_call en wd rc step allow c st = (m, st1)"
    by (metis surj_pair)
  obtain ms' where rest: "run_tool_calls en wd rc step allow cs st1 = (ms', st')" and ms: "ms = m # ms'"
    using Cons.prems by (auto simp: first split: prod.splits)
  obtain ivk r where one: "as_log st1 = AoEvent r # rev ivk @ AoEvent (call_event step c) # as_log st"
      and ok: "ivk = [] \<or> ivk = [AoInvoke (tc_name c) (tc_args c)] \<and> tc_name c \<in> set allow \<and> json_valid (tc_args c)"
        "ag_kind r = EventToolResult" "ag_call_id r = tc_id c" "ag_tool r = tc_name c" "ag_step r = step"
        "cm_role m = role_tool" "cm_call_id m = tc_id c" "cm_calls m = []"
    by (rule run_tool_call_answer [OF first])
  obtain t where t: "as_log st' = rev t @ as_log st1" "answered allow step cs ms' t"
    using Cons.IH [OF rest] by blast
  then show ?case
    using answered.call [OF t(2) ok]
    by (intro exI [of _ "AoEvent (call_event step c) # ivk @ AoEvent r # t"]) (simp add: ms one)
qed

lemma stream_chunks_deltas:
  "stream_chunks wd step cks a st = (fin, a', st') \<Longrightarrow>
     \<exists>ds. as_log st' = rev ds @ as_log st \<and> list_all (event_of EventAssistantDelta step) ds"
proof (induction cks arbitrary: a st)
  case Nil
  then show ?case
    by (intro exI [of _ "[]"]) simp
next
  case (Cons ck cks)
  show ?case
  proof (cases "accum_apply ck a")
    case None
    then show ?thesis
      using Cons.prems by (intro exI [of _ "[]"]) simp
  next
    case (Some p)
    obtain a1 delta where p: "p = (a1, delta)"
      by (cases p)
    let ?ev = "(new_event EventAssistantDelta step)\<lparr>ag_text := delta\<rparr>"
    obtain err st1 where yield: "do_yield wd ?ev st = (err, st1)"
      by (metis surj_pair)
    note log = do_yield_log [OF yield]
    consider (silent) "delta = []" | (cut) e where "delta \<noteq> []" "err = Some e" | (go) "delta \<noteq> []" "err = None"
      by (cases err) auto
    then show ?thesis
    proof cases
      case silent
      then show ?thesis
        using Cons.IH Cons.prems by (simp add: Some p)
    next
      case cut
      then have "st' = st1"
        using Cons.prems by (simp add: Some p yield)
      then show ?thesis
        by (intro exI [of _ "[AoEvent ?ev]"]) (simp add: log)
    next
      case go
      then have "stream_chunks wd step cks a1 st1 = (fin, a', st')"
        using Cons.prems by (simp add: Some p yield)
      from Cons.IH [OF this] obtain ds where
          "as_log st' = rev ds @ as_log st1" "list_all (event_of EventAssistantDelta step) ds"
        by blast
      then show ?thesis
        by (intro exI [of _ "AoEvent ?ev # ds"]) (simp add: log)
    qed
  qed
qed

lemma call_stream_deltas:
  assumes "call_stream wd rc step req st = (fin, a, st')"
  shows "\<exists>ds. as_log st' = rev ds @ AoRequest req # as_log st \<and> list_all (event_of EventAssistantDelta step) ds"
proof -
  obtain cks err w where stream: "aw_stream wd rc req (as_world st) = ((cks, err), w)"
    by (metis surj_pair)
  obtain fin' where "stream_chunks wd step cks new_accum (log_ao (AoRequest req) (st\<lparr>as_world := w\<rparr>)) = (fin', a, st')"
    using assms by (auto simp: call_stream_def stream split: prod.splits)
  from stream_chunks_deltas [OF this] show ?thesis
    by simp
qed

text \<open>One step: it stops with a complete trace, or goes on after a turn.\<close>

lemma agent_step_react:
  assumes "agent_step en wd rc inp tools allow (mx - int n) msgs st = (out, st')"
    and "req = (\<lambda>msgs. chat_request_of (rq_model inp) msgs tools)"
  shows "case out of
      LoopStop res \<Rightarrow> \<exists>t. as_log st' = rev t @ as_log st \<and> react allow req mx (Suc n) msgs t res
    | LoopNext msgs' \<Rightarrow> \<exists>ds ob asst results t.
        as_log st' = rev (AoRequest (req msgs) # ds @ ob # t) @ as_log st \<and> msgs' = msgs @ asst # results \<and>
        list_all (event_of EventAssistantDelta (mx - int n)) ds \<and> event_of EventAssistantMessage (mx - int n) ob \<and>
        cm_role asst = role_assistant \<and> cm_calls asst \<noteq> [] \<and> event_calls ob = cm_calls asst \<and> answered allow (mx - int n) (cm_calls asst) results t"
proof -
  let ?step = "mx - int n"
  obtain fin a st1 where call: "call_stream wd rc ?step (req msgs) st = (fin, a, st1)"
    by (metis surj_pair)
  obtain ds where log1: "as_log st1 = rev ds @ AoRequest (req msgs) # as_log st"
      and ds: "list_all (event_of EventAssistantDelta ?step) ds"
    using call_stream_deltas [OF call] by blast
  define finish where "finish = (if sa_finish a = [] then ''stop'' else sa_finish a)"
  define asst where "asst = accum_message a"
  define ev where "ev = (new_event EventAssistantMessage ?step)\<lparr>ag_text := cm_content asst,
                    ag_calls := cm_calls asst, ag_finish := finish\<rparr>"
  obtain err st2 where yield: "do_yield wd ev st1 = (err, st2)"
    by (metis surj_pair)
  have log2: "as_log st2 = AoEvent ev # as_log st1" and ev: "event_of EventAssistantMessage ?step (AoEvent ev)"
    using do_yield_log [OF yield] by (simp_all add: ev_def)
  have asst: "cm_role asst = role_assistant"
    by (simp add: asst_def accum_message_def)
  have step: "agent_step en wd rc inp tools allow ?step msgs st = (case fin of
        StreamPanic \<Rightarrow> (LoopStop (Some AgPanic), st1)
      | StreamErr e \<Rightarrow> (LoopStop (Some (AgLLMFailed e)),
           yield_ignored wd ((new_event EventError ?step)\<lparr>ag_text := e, ag_finish := ''llm_error''\<rparr>) st1)
      | StreamDone \<Rightarrow> (case err of
            Some e \<Rightarrow> (LoopStop (Some (AgYield e)), st2)
          | None \<Rightarrow> after_message en wd rc ?step allow msgs asst finish st2))"
    using call yield
    by (simp add: agent_step_def assms(2) Let_def asst_def finish_def ev_def split: stream_end.split option.split)
  show ?thesis
  proof (cases fin)
    case StreamPanic
    then show ?thesis
      using assms(1) step react.panicked [OF ds] log1
      by (auto intro!: exI [of _ "AoRequest (req msgs) # ds"])
  next
    case (StreamErr e)
    let ?err = "(new_event EventError ?step)\<lparr>ag_text := e, ag_finish := ''llm_error''\<rparr>"
    have "event_of EventError ?step (AoEvent ?err)"
      by simp
    from react.failed [OF ds this] show ?thesis
      using assms(1) step log1 by (auto simp: StreamErr intro!: exI [of _ "AoRequest (req msgs) # ds @ [AoEvent ?err]"])
  next
    case StreamDone
    show ?thesis
    proof (cases err)
      case (Some e)
      then show ?thesis
        using assms(1) step log1 log2 react.cut [OF ds ev]
        by (auto simp: StreamDone intro!: exI [of _ "AoRequest (req msgs) # ds @ [AoEvent ev]"])
    next
      case None
      then have after: "after_message en wd rc ?step allow msgs asst finish st2 = (out, st')"
        using assms(1) step by (simp add: StreamDone)
      show ?thesis
      proof (cases "finish = ''tool_calls'' \<and> cm_calls asst \<noteq> []")
        case True
        obtain results st3 where calls: "run_tool_calls en wd rc ?step allow (cm_calls asst) st2 = (results, st3)"
          by (metis surj_pair)
        obtain t where "as_log st3 = rev t @ as_log st2" "answered allow ?step (cm_calls asst) results t"
          using run_tool_calls_answered [OF calls] by blast
        moreover have "out = LoopNext (msgs @ [asst] @ results)" "st' = st3"
          using after True by (simp_all add: after_message_def calls)
        ultimately show ?thesis
          using ds ev asst True log1 log2 unfolding loop_out.case
          by (simp, intro exI [of _ ds], intro exI [of _ "AoEvent ev"], intro exI [of _ t]) (simp add: ev_def)
      next
        case False
        let ?fin = "(new_event EventFinal ?step)\<lparr>ag_text := cm_content asst, ag_finish := finish\<rparr>"
        obtain err' st3 where last: "do_yield wd ?fin st2 = (err', st3)"
          by (metis surj_pair)
        have "out = LoopStop (map_option AgYield err')" "st' = st3"
          using after False by (auto simp: after_message_def last split: option.splits)
        moreover have "event_of EventFinal ?step (AoEvent ?fin)"
          by simp
        ultimately show ?thesis
          using react.final [OF ds ev, of "AoEvent ?fin" "map_option AgYield err'"] do_yield_log [OF last] log1 log2
          by (cases err') (auto intro!: exI [of _ "AoRequest (req msgs) # ds @ [AoEvent ev, AoEvent ?fin]"])
      qed
    qed
  qed
qed

lemma agent_loop_react:
  assumes "req = (\<lambda>msgs. chat_request_of (rq_model inp) msgs tools)"
  shows "agent_loop en wd rc inp tools allow mx n msgs st = (res, st') \<Longrightarrow>
    \<exists>t. as_log st' = rev t @ as_log st \<and> react allow req mx n msgs t res"
proof (induction n arbitrary: msgs st)
  case 0
  then show ?case
    by (auto intro!: react.exhausted exI [of _ "[_]"])
next
  case (Suc n)
  obtain out st1 where step: "agent_step en wd rc inp tools allow (mx - int n) msgs st = (out, st1)"
    by (metis surj_pair)
  note one = agent_step_react [OF step assms]
  show ?case
  proof (cases out)
    case (LoopStop r)
    then show ?thesis
      using Suc.prems one by (simp add: step)
  next
    case (LoopNext msgs')
    then obtain ds ob asst results t where turn:
        "as_log st1 = rev (AoRequest (req msgs) # ds @ ob # t) @ as_log st" "msgs' = msgs @ asst # results"
        "list_all (event_of EventAssistantDelta (mx - int n)) ds" "event_of EventAssistantMessage (mx - int n) ob"
        "cm_role asst = role_assistant" "cm_calls asst \<noteq> []" "event_calls ob = cm_calls asst"
        "answered allow (mx - int n) (cm_calls asst) results t"
      using one by auto
    have "agent_loop en wd rc inp tools allow mx n msgs' st1 = (res, st')"
      using Suc.prems by (simp add: step LoopNext)
    from Suc.IH [OF this] obtain t' where t': "as_log st' = rev t' @ as_log st1" "react allow req mx n msgs' t' res"
      by blast
    from react.turn [OF turn(3-8) t'(2) [unfolded turn(2)]] show ?thesis
      by (intro exI [of _ "AoRequest (req msgs) # ds @ ob # t @ t'"]) (simp add: t'(1) turn(1))
  qed
qed

text \<open>A whole run: it is refused before the loop, or its log is some audit entries and a trace of the protocol.\<close>

definition audit_obs :: "agent_obs \<Rightarrow> bool" where
  "audit_obs ob \<longleftrightarrow> (\<exists>a t m. ob = AoAudit a t m)"

lemma audit_if_log: "\<exists>as. as_log (audit_if en c (AoAudit a t m) st) = as @ as_log st \<and> list_all audit_obs as"
  by (cases "c \<and> an_audit en") (auto simp: audit_if_def audit_obs_def intro: exI [of _ "[_]"] exI [of _ "[]"])

lemma agent_run_react:
  assumes "agent_run en wd parent inp st = (res, st')"
  obtains (refused) "st' = st" "res \<in> {Some AgEmptyMessages, Some (AgUnknownProfile (run_profile_name inp))} \<or> (\<exists>e. res = Some (AgCompose e))"
    | (ran) p sys tools as t where "map_of (an_profiles en) (run_profile_name inp) = Some p"
      "as_log st' = rev t @ as @ as_log st" "list_all audit_obs as"
      "react (pf_allow p) (\<lambda>msgs. chat_request_of (rq_model inp) msgs tools) (run_max_steps inp p)
         (nat (run_max_steps inp p)) (sys @ rq_messages inp) t res"
proof (cases "rq_messages inp = [] \<or> map_of (an_profiles en) (run_profile_name inp) = None")
  case True
  then show thesis
    using assms refused by (auto simp: agent_run_def split: if_splits)
next
  case False
  then obtain p where p: "map_of (an_profiles en) (run_profile_name inp) = Some p" "rq_messages inp \<noteq> []"
    by auto
  show thesis
  proof (cases "an_composer en (compose_input_of inp p)")
    case (Inl e)
    then show thesis
      using assms refused p by (auto simp: agent_run_def)
  next
    case (Inr r)
    obtain sys meta where r: "r = (sys, meta)"
      by (cases r)
    define d where "d = route_if_enabled en (run_profile_name inp) (rq_messages inp)"
    define st2 where "st2 = record_route en inp d (record_skill_inject en meta (record_memory_inject en meta st))"
    obtain as1 as2 as3 where "as_log (record_memory_inject en meta st) = as1 @ as_log st"
        "as_log (record_skill_inject en meta (record_memory_inject en meta st)) = as2 @ as_log (record_memory_inject en meta st)"
        "as_log st2 = as3 @ as_log (record_skill_inject en meta (record_memory_inject en meta st))"
        "list_all audit_obs as1" "list_all audit_obs as2" "list_all audit_obs as3"
      unfolding st2_def record_route_def record_skill_inject_def record_memory_inject_def using audit_if_log by metis
    then have st2: "as_log st2 = (as3 @ as2 @ as1) @ as_log st" "list_all audit_obs (as3 @ as2 @ as1)"
      by simp_all
    let ?tools = "build_model_tools (aw_tools wd (as_world st2)) (pf_allow p)"
    have "agent_loop en wd (child_ctx parent inp) inp ?tools (pf_allow p) (run_max_steps inp p)
        (nat (run_max_steps inp p)) (opening_messages en inp sys d) st2 = (res, st')"
      using assms p by (simp add: agent_run_def Inr r Let_def flip: d_def st2_def)
    moreover obtain sys' where "opening_messages en inp sys d = sys' @ rq_messages inp"
      unfolding opening_messages_def append_assoc [symmetric] by blast
    ultimately obtain t where t: "as_log st' = rev t @ as_log st2"
        "react (pf_allow p) (\<lambda>msgs. chat_request_of (rq_model inp) msgs ?tools) (run_max_steps inp p)
           (nat (run_max_steps inp p)) (sys' @ rq_messages inp) t res"
      using agent_loop_react [OF refl, of en wd _ inp ?tools] by metis
    show thesis
      by (rule ran [OF p(1) _ st2(2) t(2)]) (simp add: t(1) st2(1))
  qed
qed

text \<open>
  C4. The engine refines the protocol: a run either refuses its input without any effect, or it writes
  audit entries and then observations that the protocol allows for the system messages of the
  composer, the messages of the caller, the allowlist of the profile and the steps it grants, with
  the outcome the caller gets.
\<close>

theorem agent_follows_protocol:
  assumes "agent_run en wd parent inp st = (res, st')"
  shows "(st' = st \<and> res \<noteq> None) \<or>
    (\<exists>p sys tools as t. map_of (an_profiles en) (run_profile_name inp) = Some p \<and>
       rev (as_log st') = rev (as_log st) @ as @ t \<and> list_all audit_obs as \<and>
       react (pf_allow p) (\<lambda>msgs. chat_request_of (rq_model inp) msgs tools) (run_max_steps inp p)
         (nat (run_max_steps inp p)) (sys @ rq_messages inp) t res)"
  using assms
proof (cases rule: agent_run_react)
  case refused
  then show ?thesis by auto
next
  case (ran p sys tools as t)
  have "rev (as_log st') = rev (as_log st) @ rev as @ t" "list_all audit_obs (rev as)"
    using ran(2,3) by simp_all
  then show ?thesis
    using ran(1,4) by blast
qed

section \<open>Invocations and bounds\<close>

lemma answered_invokes:
  "answered allow step cs ms t \<Longrightarrow> AoInvoke name args \<in> set t \<Longrightarrow> name \<in> set allow \<and> json_valid args"
  by (induction rule: answered.induct) auto

lemma event_of_not_other [simp]:
  "event_of k s ob \<Longrightarrow> ob \<noteq> AoInvoke n a" "event_of k s ob \<Longrightarrow> ob \<noteq> AoRequest r"
  by (auto simp: event_of_def)

lemma events_no_other:
  assumes "list_all (event_of k s) ds"
  shows "AoInvoke n a \<notin> set ds" "AoRequest r \<notin> set ds"
  using assms by (auto simp: list_all_iff event_of_def)

lemma react_invokes:
  "react allow req mx n msgs t res \<Longrightarrow> AoInvoke name args \<in> set t \<Longrightarrow> name \<in> set allow \<and> json_valid args"
  by (induction rule: react.induct) (auto simp: events_no_other event_of_def dest: answered_invokes)

text \<open>
  C3. What an agent can do: whatever the model asks for, a run invokes only tools of the allowlist
  of its profile, and only with arguments that are valid JSON.
\<close>

theorem agent_invokes_allowed:
  assumes "agent_run en wd parent inp st = (res, st')" "as_log st' = new @ as_log st" "AoInvoke name args \<in> set new"
  shows "\<exists>p. map_of (an_profiles en) (run_profile_name inp) = Some p \<and> name \<in> set (pf_allow p) \<and> json_valid args"
  using assms(1)
proof (cases rule: agent_run_react)
  case refused
  then show ?thesis using assms by simp
next
  case (ran p sys tools as t)
  then have "AoInvoke name args \<in> set t"
    using assms(2,3) by (auto simp: list_all_iff audit_obs_def)
  then show ?thesis
    using react_invokes [OF ran(4)] ran(1) by blast
qed

definition is_request :: "agent_obs \<Rightarrow> bool" where
  "is_request ob \<longleftrightarrow> (\<exists>r. ob = AoRequest r)"

lemma is_request_simps [simp]:
  "is_request (AoRequest r)" "\<not> is_request (AoEvent ev)" "\<not> is_request (AoInvoke n a)" "\<not> is_request (AoAudit x y m)"
  by (simp_all add: is_request_def)

lemma answered_no_request: "answered allow step cs ms t \<Longrightarrow> filter is_request t = []"
  by (induction rule: answered.induct) auto

lemma events_no_request: "list_all (event_of k s) ds \<Longrightarrow> filter is_request ds = []"
  by (auto simp: list_all_iff event_of_def is_request_def filter_empty_conv)

lemma react_requests: "react allow req mx n msgs t res \<Longrightarrow> length (filter is_request t) \<le> n"
  by (induction rule: react.induct)
    (auto simp: events_no_request answered_no_request event_of_def)

section \<open>The conversation\<close>

text \<open>
  A sequence of complete turns: an assistant message with calls, then one tool message per call,
  with the ids of the calls in their order.
\<close>

fun turns_ok :: "chat_message list \<Rightarrow> bool" where
  "turns_ok [] = True"
| "turns_ok (m # ms) =
     (let n = length (cm_calls m) in
      cm_role m = role_assistant \<and> cm_calls m \<noteq> [] \<and>
      map cm_call_id (take n ms) = map tc_id (cm_calls m) \<and>
      list_all (\<lambda>x. cm_role x = role_tool \<and> cm_calls x = []) (take n ms) \<and> turns_ok (drop n ms))"

lemma answered_results:
  "answered allow step cs ms t \<Longrightarrow>
     map cm_call_id ms = map tc_id cs \<and> list_all (\<lambda>x. cm_role x = role_tool \<and> cm_calls x = []) ms"
  by (induction rule: answered.induct) auto

lemma turns_ok_append:
  "turns_ok a \<Longrightarrow> turns_ok b \<Longrightarrow> turns_ok (a @ b)"
proof (induction a rule: turns_ok.induct)
  case (2 m ms)
  let ?n = "length (cm_calls m)"
  have ids: "map cm_call_id (take ?n ms) = map tc_id (cm_calls m)"
    using "2.prems"(1) by (simp add: Let_def)
  then have "?n \<le> length ms"
    by (metis length_map length_take min.absorb_iff2 min.commute)
  then show ?case
    using 2 ids by (simp add: Let_def)
qed simp

lemma turns_ok_turn:
  assumes "cm_role m = role_assistant" "cm_calls m \<noteq> []" "answered allow step (cm_calls m) ms t"
  shows "turns_ok (m # ms)"
proof -
  have "map cm_call_id ms = map tc_id (cm_calls m)"
    using answered_results [OF assms(3)] by simp
  moreover from this have "length ms = length (cm_calls m)"
    by (metis length_map)
  ultimately show ?thesis
    using answered_results [OF assms(3)] assms(1,2) by (simp add: Let_def)
qed

lemma react_conversation:
  "react allow req mx n msgs t res \<Longrightarrow> msgs = base @ turns \<Longrightarrow> turns_ok turns \<Longrightarrow> AoRequest r \<in> set t \<Longrightarrow>
     \<exists>turns'. r = req (base @ turns') \<and> turns_ok turns'"
proof (induction arbitrary: turns rule: react.induct)
  case (turn n ds ob asst results t msgs t' res)
  have r: "r = req msgs \<or> AoRequest r \<in> set t'"
    using turn.prems(3) events_no_request [OF turn.hyps(1)] answered_no_request [OF turn.hyps(6)] turn.hyps(2)
    by (auto simp: filter_empty_conv is_request_def event_of_def)
  show ?case
  proof (cases "r = req msgs")
    case False
    have "turns_ok (turns @ asst # results)"
      using turns_ok_append [OF turn.prems(2) turns_ok_turn [OF turn.hyps(3,4,6)]] .
    then show ?thesis
      using turn.IH [of "turns @ asst # results"] turn.prems(1) r False by auto
  qed (use turn.prems in auto)
qed (auto simp: events_no_other event_of_def)

text \<open>
  C21. The conversation the model sees: every request of a run is the opening of the run (system
  messages, then the messages of the caller) followed by complete turns only; each call of an
  assistant message is answered by exactly one tool message with its id, in order, even when the
  arguments are no JSON, the tool is unknown or the call fails.
\<close>

theorem agent_conversation:
  assumes "agent_run en wd parent inp st = (res, st')" "as_log st' = new @ as_log st"
  shows "\<exists>sys. \<forall>r. AoRequest r \<in> set new \<longrightarrow>
    (\<exists>turns. cq_messages r = sys @ rq_messages inp @ turns \<and> turns_ok turns)"
  using assms(1)
proof (cases rule: agent_run_react)
  case refused
  then show ?thesis using assms by simp
next
  case (ran p sys tools as t)
  have "AoRequest r \<in> set t" if "AoRequest r \<in> set new" for r
    using assms(2) ran(2,3) that by (auto simp: list_all_iff audit_obs_def)
  then have "\<exists>turns. r = chat_request_of (rq_model inp) ((sys @ rq_messages inp) @ turns) tools \<and> turns_ok turns"
    if "AoRequest r \<in> set new" for r
    using that react_conversation [OF ran(4), of "sys @ rq_messages inp" "[]"] by simp
  then show ?thesis
    by (intro exI [of _ sys]) (fastforce simp: chat_request_of_def)
qed

section \<open>The events\<close>

fun events_of :: "agent_obs list \<Rightarrow> agent_event list" where
  "events_of [] = []"
| "events_of (AoEvent ev # obs) = ev # events_of obs"
| "events_of (_ # obs) = events_of obs"

lemma events_of_append [simp]: "events_of (a @ b) = events_of a @ events_of b"
  by (induction a rule: events_of.induct) auto

lemma events_of_filter: "events_of (filter P t) = events_of t" if "\<forall>ev. P (AoEvent ev)" for P t
  using that by (induction t rule: events_of.induct) auto

definition terminal :: "agent_event \<Rightarrow> bool" where
  "terminal ev \<longleftrightarrow> ag_kind ev = EventFinal \<or> ag_kind ev = EventError"

text \<open>Every tool call is followed at once by its result.\<close>

fun paired :: "agent_event list \<Rightarrow> bool" where
  "paired [] = True"
| "paired (e # es) =
     ((ag_kind e = EventToolCall \<longrightarrow>
        (case es of [] \<Rightarrow> False
         | r # _ \<Rightarrow> ag_kind r = EventToolResult \<and> ag_call_id r = ag_call_id e \<and> ag_tool r = ag_tool e)) \<and> paired es)"

lemma event_of_events: "event_of k s ob \<Longrightarrow> \<exists>ev. ob = AoEvent ev \<and> ag_kind ev = k \<and> ag_step ev = s"
  by (simp add: event_of_def)

lemma deltas_events:
  assumes "list_all (event_of EventAssistantDelta s) ds"
  shows "\<forall>ev \<in> set (events_of ds). ag_step ev = s \<and> \<not> terminal ev" "paired (events_of ds @ es) = paired es"
  using assms by (induction ds) (auto simp: event_of_def terminal_def)

lemma answered_events:
  assumes "answered allow s cs ms t"
  shows "\<forall>ev \<in> set (events_of t). ag_step ev = s \<and> \<not> terminal ev" "paired (events_of t @ es) = paired es"
  using assms by (induction) (auto simp: terminal_def)

lemma sorted_map_const: "\<forall>x \<in> set xs. f x = (c :: 'b :: linorder) \<Longrightarrow> sorted (map f xs)"
  by (induction xs) auto

definition well_ended :: "agent_err option \<Rightarrow> agent_event list \<Rightarrow> bool" where
  "well_ended res es \<longleftrightarrow>
     list_all (\<lambda>ev. \<not> terminal ev) (butlast es) \<and>
     (res = None \<longrightarrow> es \<noteq> [] \<and> ag_kind (last es) = EventFinal) \<and>
     (res = Some AgMaxSteps \<or> (\<exists>e. res = Some (AgLLMFailed e)) \<longrightarrow> es \<noteq> [] \<and> ag_kind (last es) = EventError)"

lemma well_ended_prefix:
  assumes "well_ended res es" "\<forall>ev \<in> set pre. \<not> terminal ev"
  shows "well_ended res (pre @ es)"
  using assms by (cases "es = []") (auto simp: well_ended_def butlast_append list_all_iff dest: in_set_butlastD)

lemma react_events:
  "react allow req mx n msgs t res \<Longrightarrow>
     paired (events_of t) \<and> well_ended res (events_of t) \<and> sorted (map ag_step (events_of t)) \<and>
     (\<forall>ev \<in> set (events_of t). min mx (mx - int n + 1) \<le> ag_step ev \<and> ag_step ev \<le> mx)"
proof (induction rule: react.induct)
  case (turn n ds ob asst results t msgs t' res)
  obtain ev where ev: "ob = AoEvent ev" "ag_kind ev = EventAssistantMessage" "ag_step ev = mx - int n"
    using event_of_events [OF turn.hyps(2)] by blast
  let ?pre = "events_of ds @ ev # events_of t"
  have pre: "\<forall>e \<in> set ?pre. ag_step e = mx - int n \<and> \<not> terminal e"
    using deltas_events(1) [OF turn.hyps(1)] answered_events(1) [OF turn.hyps(6)] ev by (auto simp: terminal_def)
  then have "sorted (map ag_step ?pre)"
    by (intro sorted_map_const) blast
  then have "sorted (map ag_step (?pre @ events_of t'))"
    using turn.IH pre by (fastforce simp: sorted_append)
  moreover have "paired (?pre @ events_of t')"
    using deltas_events(2) [OF turn.hyps(1)] answered_events(2) [OF turn.hyps(6)] turn.IH ev by simp
  moreover have "well_ended res (?pre @ events_of t')"
    using turn.IH pre by (intro well_ended_prefix) auto
  ultimately show ?case
    using turn.IH pre by (auto simp: ev)
next
  case (final n ds ob fin res msgs)
  obtain e1 e2 where ev: "ob = AoEvent e1" "ag_kind e1 = EventAssistantMessage" "ag_step e1 = mx - int n"
      "fin = AoEvent e2" "ag_kind e2 = EventFinal" "ag_step e2 = mx - int n"
    using event_of_events [OF final.hyps(2)] event_of_events [OF final.hyps(3)] by blast
  show ?case
    using deltas_events [OF final.hyps(1)] final.hyps(4) ev
      sorted_map_const [of "events_of (ds @ [ob, fin])" ag_step "mx - int n"]
    by (auto simp: well_ended_def butlast_append list_all_iff terminal_def)
next
  case (cut n ds ob msgs e)
  obtain e1 where ev: "ob = AoEvent e1" "ag_kind e1 = EventAssistantMessage" "ag_step e1 = mx - int n"
    using event_of_events [OF cut.hyps(2)] by blast
  show ?case
    using deltas_events [OF cut.hyps(1)] ev sorted_map_const [of "events_of (ds @ [ob])" ag_step "mx - int n"]
    by (auto simp: well_ended_def butlast_append list_all_iff)
next
  case (failed n ds ob msgs e)
  obtain e1 where ev: "ob = AoEvent e1" "ag_kind e1 = EventError" "ag_step e1 = mx - int n"
    using event_of_events [OF failed.hyps(2)] by blast
  show ?case
    using deltas_events [OF failed.hyps(1)] ev sorted_map_const [of "events_of (ds @ [ob])" ag_step "mx - int n"]
    by (auto simp: well_ended_def butlast_append list_all_iff)
next
  case (panicked n ds msgs)
  then show ?case
    using deltas_events(1) [OF panicked.hyps(1)] deltas_events(2) [OF panicked.hyps(1), of "[]"]
      sorted_map_const [of "events_of ds" ag_step "mx - int n"]
    by (auto simp: well_ended_def list_all_iff dest: in_set_butlastD)
next
  case (exhausted ob msgs)
  then show ?case
    by (auto simp: well_ended_def event_of_def terminal_def)
qed

text \<open>The events of a log, which has the last observation first.\<close>

lemma events_of_audits: "list_all audit_obs as \<Longrightarrow> events_of as = []"
  by (induction as) (auto simp: audit_obs_def)

lemma audits_no_request: "list_all audit_obs as \<Longrightarrow> filter is_request as = []"
  by (auto simp: list_all_iff audit_obs_def filter_empty_conv)

text \<open>
  C22. The event stream: every tool call is followed at once by its result; a run that ends well
  ends with one final event and a run that fails in the model or runs out of steps with one error
  event, and no such event occurs earlier.
\<close>

theorem agent_events:
  assumes "agent_run en wd parent inp st = (res, st')" "as_log st' = new @ as_log st"
    and "res \<noteq> Some AgEmptyMessages" "\<nexists>p. res = Some (AgUnknownProfile p)" "\<nexists>e. res = Some (AgCompose e)"
  shows "paired (events_of (rev new)) \<and> well_ended res (events_of (rev new))"
  using assms(1)
proof (cases rule: agent_run_react)
  case (ran p sys tools as t)
  have "rev new = rev as @ t"
    using assms(2) ran(2) by auto
  moreover have "list_all audit_obs (rev as)"
    using ran(3) by (simp add: list_all_iff)
  ultimately show ?thesis
    using react_events [OF ran(4)] by (simp add: events_of_audits)
qed (use assms in auto)

text \<open>
  The effort of a run: at most as many requests to the model as the effective step limit (the
  one of the caller, else of the profile, else sixteen), and every event carries a step between
  one and this limit, in ascending order.
\<close>

theorem agent_bounds:
  assumes "agent_run en wd parent inp st = (res, st')" "as_log st' = new @ as_log st"
    and "map_of (an_profiles en) (run_profile_name inp) = Some p"
  shows "int (length (filter is_request new)) \<le> run_max_steps inp p \<and>
    sorted (map ag_step (events_of (rev new))) \<and>
    (\<forall>ev \<in> set (events_of (rev new)). 1 \<le> ag_step ev \<and> ag_step ev \<le> run_max_steps inp p)"
proof -
  have pos: "1 \<le> run_max_steps inp p"
    by (simp add: run_max_steps_def Let_def)
  show ?thesis
    using assms(1)
  proof (cases rule: agent_run_react)
    case refused
    then show ?thesis using assms(2) pos by simp
  next
    case (ran p' sys tools as t)
    have new: "rev new = rev as @ t" "new = rev t @ as"
      using assms(2) ran(2) by auto
    have "list_all audit_obs (rev as)" "p' = p"
      using ran(1,3) assms(3) by (simp_all add: list_all_iff)
    moreover have "length (filter is_request t) \<le> nat (run_max_steps inp p)"
      using react_requests [OF ran(4)] \<open>p' = p\<close> by simp
    moreover have "filter is_request new = rev (filter is_request t)"
      using audits_no_request [OF ran(3)] by (simp add: new(2) rev_filter)
    ultimately show ?thesis
      using react_events [OF ran(4)] pos by (simp add: new(1) events_of_audits)
  qed
qed

section \<open>A run\<close>

text \<open>A model that reads a file and then answers, and a bus whose tool gives an empty object.\<close>

definition demo_chunk :: "nat \<Rightarrow> stream_chunk" where
  "demo_chunk n = \<lparr>ck_id = [], ck_object = [], ck_created = 0, ck_model = [], ck_choices =
     [if n = 0
      then \<lparr>sc_index = 0, sc_role = role_assistant, sc_content = [],
             sc_calls = [\<lparr>tc_index = 0, tc_id = ''c1'', tc_type = [], tc_name = ''fs.read'', tc_args = ''{}''\<rparr>],
             sc_finish = Some ''tool_calls''\<rparr>
      else \<lparr>sc_index = 0, sc_role = role_assistant, sc_content = ''done'', sc_calls = [], sc_finish = Some ''stop''\<rparr>],
     ck_usage = None\<rparr>"

definition demo_world :: "nat agent_world" where
  "demo_world =
     \<lparr>aw_tools = (\<lambda>_. []), aw_stream = (\<lambda>rc req n. (([demo_chunk n], None), n + 1)),
      aw_invoke = (\<lambda>rc name args n. (Inr ''{}'', n)), aw_yield = (\<lambda>ev n. (None, n))\<rparr>"

definition demo_profile :: profile where
  "demo_profile = \<lparr>pf_name = ''coding'', pf_descr = [], pf_prompt = ''p'', pf_allow = [''fs.read''], pf_max_steps = 0,
     pf_skills = []\<rparr>"

definition demo_engine :: "string agent_engine" where
  "demo_engine = new_agent_engine literal_lib [(''coding'', demo_profile)] None"

definition demo_input :: run_input where
  "demo_input = \<lparr>rq_tenant = ''t'', rq_user = ''u'', rq_model = ''m'', rq_messages = [plain_message role_user ''read''],
     rq_profile = [], rq_max_steps = 2, rq_skills = [], rq_session_skills = [], rq_sandbox = nil_uuid,
     rq_memory_section = [], rq_memory_ids = [], rq_memory_chars = 0, rq_memory_truncated = False\<rparr>"

definition root_ctx :: run_ctx where
  "root_ctx = \<lparr>rc_sandbox = [], rc_model = [], rc_profile = [], rc_depth = 0\<rparr>"

definition demo_start :: "nat agent_st" where
  "demo_start = \<lparr>as_world = 0, as_log = []\<rparr>"

lemma demo_json: "json_valid ''{}''"
  by (simp add: json_valid_def begin_value_def push_open_def max_nesting_def end_value_def json_space_def)

lemma demo_profile_name [simp]: "run_profile_name demo_input = ''coding''"
  by (simp add: run_profile_name_def demo_input_def)

lemma demo_find [simp]: "map_of (an_profiles demo_engine) ''coding'' = Some demo_profile"
  by (simp add: demo_engine_def new_agent_engine_def)

lemma demo_runs:
  "\<exists>st'. agent_run demo_engine demo_world root_ctx demo_input demo_start = (None, st') \<and>
     AoInvoke ''fs.read'' ''{}'' \<in> set (as_log st') \<and> length (filter is_request (as_log st')) = 2"
  by (simp add: agent_run_def agent_step_def demo_input_def demo_start_def noop_composer_def compose_input_of_def
      demo_engine_def new_agent_engine_def demo_profile_def run_profile_name_def run_max_steps_def
      record_route_def record_skill_inject_def record_memory_inject_def audit_if_def no_meta_def
      call_stream_def demo_world_def demo_chunk_def accum_apply_def apply_call_def new_accum_def merge_call_def fresh_call_def
      do_yield_def yield_ignored_def log_ao_def after_message_def accum_message_def run_tool_call_def demo_json
      truncate_tool_output_def default_max_output_def eval_nat_numeral Let_def)

theorem agent_follows_protocol_witness:
  "\<exists>st' sys tools as t. agent_run demo_engine demo_world root_ctx demo_input demo_start = (None, st') \<and>
     rev (as_log st') = as @ t \<and> AoInvoke ''fs.read'' ''{}'' \<in> set t \<and>
     react (pf_allow demo_profile) (\<lambda>msgs. chat_request_of (rq_model demo_input) msgs tools) 2 2
       (sys @ rq_messages demo_input) t None"
proof -
  obtain st' where run: "agent_run demo_engine demo_world root_ctx demo_input demo_start = (None, st')"
      and call: "AoInvoke ''fs.read'' ''{}'' \<in> set (as_log st')"
    using demo_runs by blast
  have p: "map_of (an_profiles demo_engine) (run_profile_name demo_input) = Some demo_profile"
      "run_max_steps demo_input demo_profile = 2" "as_log demo_start = []"
    by (simp_all add: demo_engine_def new_agent_engine_def demo_profile_def run_profile_name_def demo_input_def
        run_max_steps_def demo_start_def)
  from agent_follows_protocol [OF run] obtain sys tools as t where t: "rev (as_log st') = as @ t" "list_all audit_obs as"
      "react (pf_allow demo_profile) (\<lambda>msgs. chat_request_of (rq_model demo_input) msgs tools) 2 2
         (sys @ rq_messages demo_input) t None"
    using p by auto
  have "AoInvoke ''fs.read'' ''{}'' \<in> set (rev (as_log st'))"
    using call by simp
  then have "AoInvoke ''fs.read'' ''{}'' \<in> set t"
    using t(1,2) by (auto simp: list_all_iff audit_obs_def)
  then show ?thesis
    using run t by blast
qed

theorem agent_invokes_allowed_witness:
  "\<exists>st'. agent_run demo_engine demo_world root_ctx demo_input demo_start = (None, st') \<and>
     AoInvoke ''fs.read'' ''{}'' \<in> set (as_log st') \<and> ''fs.read'' \<in> set (pf_allow demo_profile)"
proof -
  obtain st' where run: "agent_run demo_engine demo_world root_ctx demo_input demo_start = (None, st')"
      and call: "AoInvoke ''fs.read'' ''{}'' \<in> set (as_log st')"
    using demo_runs by blast
  have "as_log st' = as_log st' @ as_log demo_start"
    by (simp add: demo_start_def)
  from agent_invokes_allowed [OF run this call] show ?thesis
    using run call by auto
qed

theorem agent_conversation_witness:
  "\<exists>st' sys. agent_run demo_engine demo_world root_ctx demo_input demo_start = (None, st') \<and>
     (\<forall>r. AoRequest r \<in> set (as_log st') \<longrightarrow>
        (\<exists>turns. cq_messages r = sys @ rq_messages demo_input @ turns \<and> turns_ok turns))"
proof -
  obtain st' where run: "agent_run demo_engine demo_world root_ctx demo_input demo_start = (None, st')"
    using demo_runs by blast
  have "as_log st' = as_log st' @ as_log demo_start"
    by (simp add: demo_start_def)
  from agent_conversation [OF run this] show ?thesis
    using run by blast
qed

theorem agent_events_witness:
  "\<exists>st'. agent_run demo_engine demo_world root_ctx demo_input demo_start = (None, st') \<and>
     ag_kind (last (events_of (rev (as_log st')))) = EventFinal"
proof -
  obtain st' where run: "agent_run demo_engine demo_world root_ctx demo_input demo_start = (None, st')"
    using demo_runs by blast
  have "as_log st' = as_log st' @ as_log demo_start"
    by (simp add: demo_start_def)
  from agent_events [OF run this] show ?thesis
    using run by (auto simp: well_ended_def)
qed

theorem agent_bounds_witness:
  "\<exists>st'. agent_run demo_engine demo_world root_ctx demo_input demo_start = (None, st') \<and>
     length (filter is_request (as_log st')) = 2 \<and> run_max_steps demo_input demo_profile = 2"
proof -
  obtain st' where run: "agent_run demo_engine demo_world root_ctx demo_input demo_start = (None, st')"
      and two: "length (filter is_request (as_log st')) = 2"
    using demo_runs by blast
  have "as_log st' = as_log st' @ as_log demo_start"
    by (simp add: demo_start_def)
  from agent_bounds [OF run this, of demo_profile] show ?thesis
    using run two by (auto simp: run_max_steps_def demo_input_def)
qed

end
