(* ===== verification/AgentStream.thy ===== *)
theory AgentStream
  imports Agent
begin

text \<open>
  The reassembly of a streamed message (\<open>src/internal/agent/stream_accum.go\<close>): what the chunks
  of a stream put together, against a direct description of the message they carry.
\<close>

section \<open>What the chunks carry\<close>

definition chunk_text :: "stream_chunk \<Rightarrow> string" where
  "chunk_text ck = (case ck_choices ck of [] \<Rightarrow> [] | ch # _ \<Rightarrow> sc_content ch)"

definition chunk_finish :: "stream_chunk \<Rightarrow> string" where
  "chunk_finish ck = (case ck_choices ck of [] \<Rightarrow> [] | ch # _ \<Rightarrow> (case sc_finish ch of None \<Rightarrow> [] | Some f \<Rightarrow> f))"

definition call_deltas :: "stream_chunk list \<Rightarrow> tool_call list" where
  "call_deltas cks = concat (map (\<lambda>ck. case ck_choices ck of [] \<Rightarrow> [] | ch # _ \<Rightarrow> sc_calls ch) cks)"

text \<open>The last text of a list that is not empty.\<close>

definition last_text :: "string list \<Rightarrow> string" where
  "last_text ss = foldl (\<lambda>a s. if s \<noteq> [] then s else a) [] ss"

text \<open>The deltas of one call, and the number of calls they announce.\<close>

definition deltas_at :: "nat \<Rightarrow> tool_call list \<Rightarrow> tool_call list" where
  "deltas_at i ds = filter (\<lambda>d. nat (tc_index d) = i) ds"

definition call_count :: "tool_call list \<Rightarrow> nat" where
  "call_count ds = foldl (\<lambda>n d. max n (Suc (nat (tc_index d)))) 0 ds"

section \<open>The accumulator\<close>

definition call_at :: "tool_call list \<Rightarrow> nat \<Rightarrow> tool_call" where
  "call_at calls i = (if i < length calls then calls ! i else fresh_call)"

lemma apply_call_spec:
  assumes "0 \<le> tc_index d"
  shows "\<exists>calls'. apply_call d calls = Some calls' \<and> length calls' = max (length calls) (Suc (nat (tc_index d))) \<and>
    (\<forall>i. call_at calls' i = (if nat (tc_index d) = i then merge_call (call_at calls i) d else call_at calls i))"
proof -
  let ?i = "nat (tc_index d)"
  let ?padded = "calls @ replicate (Suc ?i - length calls) fresh_call"
  have long: "?i < length ?padded"
    by simp
  have pad: "call_at ?padded i = call_at calls i" for i
    by (auto simp: call_at_def nth_append)
  have "?padded ! ?i = call_at calls ?i"
    by (simp add: call_at_def nth_append)
  then have "apply_call d calls = Some (?padded[?i := merge_call (call_at calls ?i) d])"
    using assms by (simp add: apply_call_def Let_def)
  moreover have "call_at (xs[?i := c]) i = (if ?i = i then c else call_at xs i)" if "?i < length xs" for xs c i
    using that by (auto simp: call_at_def)
  ultimately show ?thesis
    using pad long by (simp add: max_def)
qed

lemma apply_calls_spec:
  "\<forall>d \<in> set ds. 0 \<le> tc_index d \<Longrightarrow>
   \<exists>calls'. apply_calls ds calls = Some calls' \<and>
     length calls' = foldl (\<lambda>n d. max n (Suc (nat (tc_index d)))) (length calls) ds \<and>
     (\<forall>i. call_at calls' i = foldl merge_call (call_at calls i) (deltas_at i ds))"
proof (induction ds arbitrary: calls)
  case Nil
  then show ?case by (simp add: deltas_at_def)
next
  case (Cons d ds)
  obtain c1 where c1: "apply_call d calls = Some c1" "length c1 = max (length calls) (Suc (nat (tc_index d)))"
      "\<forall>i. call_at c1 i = (if nat (tc_index d) = i then merge_call (call_at calls i) d else call_at calls i)"
    using apply_call_spec [of d calls] Cons.prems by auto
  obtain c2 where "apply_calls ds c1 = Some c2"
      "length c2 = foldl (\<lambda>n d. max n (Suc (nat (tc_index d)))) (length c1) ds"
      "\<forall>i. call_at c2 i = foldl merge_call (call_at c1 i) (deltas_at i ds)"
    using Cons.IH [of c1] Cons.prems by auto
  then show ?case
    by (simp add: c1 deltas_at_def)
qed

lemma foldl_merge_call:
  "tc_args (foldl merge_call c ds) = tc_args c @ concat (map tc_args ds)"
  "tc_id (foldl merge_call c ds) = foldl (\<lambda>a s. if s \<noteq> [] then s else a) (tc_id c) (map tc_id ds)"
  "tc_name (foldl merge_call c ds) = foldl (\<lambda>a s. if s \<noteq> [] then s else a) (tc_name c) (map tc_name ds)"
  by (induction ds arbitrary: c) (simp_all add: merge_call_def)

lemma accum_apply_eq:
  assumes "apply_calls (call_deltas [ck]) (sa_calls a) = Some calls"
  shows "accum_apply ck a =
    Some (\<lparr>sa_content = sa_content a @ chunk_text ck, sa_calls = calls,
           sa_finish = (if chunk_finish ck \<noteq> [] then chunk_finish ck else sa_finish a)\<rparr>, chunk_text ck)"
  using assms
  by (auto simp: accum_apply_def call_deltas_def chunk_text_def chunk_finish_def split: list.splits option.splits)

lemma stream_chunks_accum:
  assumes "\<forall>ev w. fst (aw_yield wd ev w) = None"
  shows "\<forall>d \<in> set (call_deltas cks). 0 \<le> tc_index d \<Longrightarrow>
    \<exists>a' st' calls'. stream_chunks wd step cks a st = (StreamDone, a', st') \<and>
      apply_calls (call_deltas cks) (sa_calls a) = Some calls' \<and> sa_calls a' = calls' \<and>
      sa_content a' = sa_content a @ concat (map chunk_text cks) \<and>
      sa_finish a' = foldl (\<lambda>a s. if s \<noteq> [] then s else a) (sa_finish a) (map chunk_finish cks)"
proof (induction cks arbitrary: a st)
  case Nil
  then show ?case by (simp add: call_deltas_def)
next
  case (Cons ck cks)
  have ds: "call_deltas (ck # cks) = call_deltas [ck] @ call_deltas cks"
    by (simp add: call_deltas_def)
  obtain c1 where c1: "apply_calls (call_deltas [ck]) (sa_calls a) = Some c1"
    using apply_calls_spec [of "call_deltas [ck]" "sa_calls a"] Cons.prems by (auto simp: ds)
  have app: "apply_calls (xs @ ys) calls = (case apply_calls xs calls of None \<Rightarrow> None | Some c \<Rightarrow> apply_calls ys c)" for xs ys calls
    by (induction xs arbitrary: calls) (auto split: option.splits)
  let ?a = "\<lparr>sa_content = sa_content a @ chunk_text ck, sa_calls = c1,
           sa_finish = (if chunk_finish ck \<noteq> [] then chunk_finish ck else sa_finish a)\<rparr>"
  have ok: "\<exists>st1. do_yield wd ev st = (None, st1)" for ev
    using assms by (metis (mono_tags, lifting) do_yield_def case_prod_beta)
  obtain st1 where "stream_chunks wd step (ck # cks) a st = stream_chunks wd step cks ?a st1"
    using ok [of "(new_event EventAssistantDelta step)\<lparr>ag_text := chunk_text ck\<rparr>"]
    by (cases "chunk_text ck = []") (auto simp: accum_apply_eq [OF c1])
  then show ?case
    using Cons.IH [of ?a st1] Cons.prems by (auto simp: ds app c1)
qed

text \<open>
  The reassembly of a stream whose receiver accepts every delta: the message has the text of all
  chunks, one call per announced index, each with its last non-empty id and name and with all
  its argument fragments in order, and the last non-empty finish reason.
\<close>

theorem stream_reassembly:
  assumes "\<forall>ev w. fst (aw_yield wd ev w) = None" "\<forall>d \<in> set (call_deltas cks). 0 \<le> tc_index d"
  shows "\<exists>a st'. stream_chunks wd step cks new_accum st = (StreamDone, a, st') \<and>
    cm_content (accum_message a) = concat (map chunk_text cks) \<and>
    sa_finish a = last_text (map chunk_finish cks) \<and>
    length (cm_calls (accum_message a)) = call_count (call_deltas cks) \<and>
    (\<forall>i < call_count (call_deltas cks).
       tc_args (cm_calls (accum_message a) ! i) = concat (map tc_args (deltas_at i (call_deltas cks))) \<and>
       tc_id (cm_calls (accum_message a) ! i) = last_text (map tc_id (deltas_at i (call_deltas cks))) \<and>
       tc_name (cm_calls (accum_message a) ! i) = last_text (map tc_name (deltas_at i (call_deltas cks))))"
proof -
  obtain a st' calls where run: "stream_chunks wd step cks new_accum st = (StreamDone, a, st')"
      and calls: "apply_calls (call_deltas cks) (sa_calls new_accum) = Some calls" "sa_calls a = calls"
      and body: "sa_content a = concat (map chunk_text cks)"
      and finish: "sa_finish a = last_text (map chunk_finish cks)"
    using stream_chunks_accum [OF assms, of step new_accum st] by (auto simp: new_accum_def last_text_def)
  have count: "length calls = call_count (call_deltas cks)"
      and at: "\<forall>i. call_at calls i = foldl merge_call fresh_call (deltas_at i (call_deltas cks))"
    using apply_calls_spec [OF assms(2), of "sa_calls new_accum"] calls(1)
    by (auto simp: new_accum_def call_count_def call_at_def [of "[]"])
  have "calls ! i = foldl merge_call fresh_call (deltas_at i (call_deltas cks))" if "i < length calls" for i
    using spec [OF at, of i] that by (simp add: call_at_def)
  then show ?thesis
    using run body finish calls(2) count
    by (auto simp: accum_message_def foldl_merge_call last_text_def fresh_call_def)
qed

text \<open>Two chunks with the halves of one call.\<close>

definition half_chunk :: "string \<Rightarrow> string \<Rightarrow> stream_chunk" where
  "half_chunk i args = \<lparr>ck_id = [], ck_object = [], ck_created = 0, ck_model = [], ck_choices = [\<lparr>sc_index = 0, sc_role = [], sc_content = [],
     sc_calls = [\<lparr>tc_index = 0, tc_id = i, tc_type = [], tc_name = i, tc_args = args\<rparr>], sc_finish = None\<rparr>],
     ck_usage = None\<rparr>"

definition quiet_world :: "unit agent_world" where
  "quiet_world = \<lparr>aw_tools = (\<lambda>_. []), aw_stream = (\<lambda>_ _ w. (([], None), w)), aw_invoke = (\<lambda>_ _ _ w. (Inr [], w)),
     aw_yield = (\<lambda>_ w. (None, w))\<rparr>"

theorem stream_reassembly_witness:
  "\<exists>a st'. stream_chunks quiet_world 1 [half_chunk ''c'' ''{'', half_chunk [] ''}''] new_accum \<lparr>as_world = (), as_log = []\<rparr>
       = (StreamDone, a, st') \<and>
     tc_args (cm_calls (accum_message a) ! 0) = ''{}'' \<and> tc_id (cm_calls (accum_message a) ! 0) = ''c''"
proof -
  let ?cks = "[half_chunk ''c'' ''{'', half_chunk [] ''}'']"
  have "\<forall>ev w. fst (aw_yield quiet_world ev w) = None" "\<forall>d \<in> set (call_deltas ?cks). 0 \<le> tc_index d"
    by (simp_all add: quiet_world_def call_deltas_def half_chunk_def)
  from stream_reassembly [OF this, of 1 "\<lparr>as_world = (), as_log = []\<rparr>"] show ?thesis
    by (auto simp: call_count_def call_deltas_def half_chunk_def deltas_at_def last_text_def)
qed

end
