(* ===== verification/Delegate.thy ===== *)
theory Delegate
  imports Agent
begin

text \<open>
  Delegation to a sub-agent, \<open>src/internal/agent/delegate_tool.go\<close>, and the profiles of
  \<open>profile.go\<close>. The tool runs the engine again, under another profile and a context whose depth is
  one more; the events of the child are collected, not forwarded. \<open>delegating n\<close> is the world in
  which the bus serves the tool, the recursion through the bus unfolded \<open>n\<close> times.
\<close>

section \<open>Profiles\<close>

definition coding_profile :: profile where
  "coding_profile =
     \<lparr>pf_name = ''coding'',
      pf_descr = ''Full-capability coding agent with sandbox access; can delegate to review/research/workflow-authoring sub-agents.'',
      pf_prompt = ''You are a coding agent operating inside a private development platform. '' @
        ''You have access to a sandbox via tools. Use the provided tools to inspect files, '' @
        ''run shell commands, search code, and call LLMs as needed. For public web pages use '' @
        ''http.fetch (server-side; works when enabled in config) instead of curl in the sandbox. '' @
        ''Prefer concrete actions over speculation. '' @
        ''When a user asks for a code review or extensive research, delegate to the appropriate sub-profile via agent.delegate. '' @
        ''Respond with a final answer once the task is complete.'',
      pf_allow = [''fs.read'', ''fs.write'', ''fs.list'', ''fs.glob'', ''grep'', ''shell.exec'', ''llm.chat'', ''llm.embed'',
        ''http.fetch'', ''memory.save'', ''memory.search'', ''memory.list'', ''memory.delete'', ''agent.delegate'',
        ''workflow.create'', ''workflow.update'', ''workflow.list'', ''workflow.get'', ''workflow.propose'', ''workflow.publish''],
      pf_max_steps = 16, pf_skills = [''platform-coding-standards'', ''workflow-dsl-authoring'']\<rparr>"

definition review_profile :: profile where
  "review_profile =
     \<lparr>pf_name = ''review'',
      pf_descr = ''Read-only code/document reviewer. Cannot modify the sandbox. Used as a delegate target.'',
      pf_prompt = ''You are a meticulous code reviewer. '' @
        ''You have read-only access to the workspace via fs.read / fs.list / fs.glob / grep, '' @
        ''and may consult memories and call llm.chat. You must not modify any file, run shell commands, or write memory. '' @
        ''Produce a concise review with concrete findings and recommended changes. '' @
        ''Internal marker (do not echo to user): E2E_DELEGATE_SUB_V1'',
      pf_allow = [''fs.read'', ''fs.list'', ''fs.glob'', ''grep'', ''memory.search'', ''memory.list'', ''llm.chat''],
      pf_max_steps = 8, pf_skills = []\<rparr>"

definition research_profile :: profile where
  "research_profile =
     \<lparr>pf_name = ''research'',
      pf_descr = ''Information-gathering assistant. No sandbox access; may consult LLMs and persist findings to memory.'',
      pf_prompt = ''You are a research assistant. '' @
        ''Use llm.chat / llm.embed and memory.* tools to gather, synthesise, and persist findings. '' @
        ''You have no access to the workspace or shell. Produce a focused summary as your final answer.'',
      pf_allow = [''llm.chat'', ''llm.embed'', ''memory.search'', ''memory.list'', ''memory.save''],
      pf_max_steps = 8, pf_skills = []\<rparr>"

definition workflow_authoring_profile :: profile where
  "workflow_authoring_profile =
     \<lparr>pf_name = ''workflow-authoring'',
      pf_descr = ''Drafts and persists Workflow Engine DSL from natural-language requirements; cannot publish.'',
      pf_prompt = ''You help users transform natural-language requirements into Workflow Engine YAML DSL. '' @
        ''Inspect related files with fs.read / fs.glob / grep, consult memories, and call llm.chat to refine the draft. '' @
        ''Persist drafts with workflow.create or workflow.propose (template/summary path); modify with workflow.update. '' @
        ''Use workflow.propose for NL template flows with automatic dry-run. '' @
        ''You cannot publish '' @ [CHR 0xE2, CHR 0x80, CHR 0x94] @ '' admin uses workflow.publish or REST confirm. '' @
        ''You also cannot modify the sandbox or execute shell commands.'',
      pf_allow = [''llm.chat'', ''memory.search'', ''fs.read'', ''fs.glob'', ''grep'', ''workflow.create'', ''workflow.update'',
        ''workflow.list'', ''workflow.get'', ''workflow.propose''],
      pf_max_steps = 6, pf_skills = [''workflow-dsl-authoring'', ''workflow-template-authoring'']\<rparr>"

section \<open>The input of the tool\<close>

record delegate_input =
  di_profile :: string
  di_task :: string
  di_max_steps :: int

definition json_kind :: "json \<Rightarrow> string" where
  "json_kind j = (case j of JNull \<Rightarrow> ''null'' | JBool _ \<Rightarrow> ''bool'' | JInt _ \<Rightarrow> ''number'' | JFloat _ \<Rightarrow> ''number''
     | JStr _ \<Rightarrow> ''string'' | JArr _ \<Rightarrow> ''array'' | JObj _ \<Rightarrow> ''object'')"

definition field_error :: "json \<Rightarrow> string \<Rightarrow> string \<Rightarrow> 'a result" where
  "field_error j field typ =
     Inl (''json: cannot unmarshal '' @ json_kind j @ '' into Go struct field delegateInput.'' @ field @ '' of type '' @ typ)"

text \<open>One member of the object; keys match their field whatever their case, \<open>null\<close> changes nothing.\<close>

definition decode_member :: "string \<times> json \<Rightarrow> delegate_input \<Rightarrow> delegate_input result" where
  "decode_member m inp =
     (let (k, j) = m; key = map lower_char k in
      if j = JNull then Inr inp
      else if key = ''profile'' then
        (case j of JStr s \<Rightarrow> Inr (inp\<lparr>di_profile := s\<rparr>) | _ \<Rightarrow> field_error j ''profile'' ''string'')
      else if key = ''task'' then
        (case j of JStr s \<Rightarrow> Inr (inp\<lparr>di_task := s\<rparr>) | _ \<Rightarrow> field_error j ''task'' ''string'')
      else if key = ''max_steps'' then
        (case j of JInt i \<Rightarrow> if min_int64 \<le> i \<and> i \<le> max_int64 then Inr (inp\<lparr>di_max_steps := i\<rparr>)
                            else field_error j ''max_steps'' ''int''
         | _ \<Rightarrow> field_error j ''max_steps'' ''int'')
      else Inr inp)"

fun decode_members :: "(string \<times> json) list \<Rightarrow> delegate_input \<Rightarrow> delegate_input result" where
  "decode_members [] inp = Inr inp"
| "decode_members (m # ms) inp = on_ok (decode_member m inp) (decode_members ms)"

definition decode_delegate :: "(string \<Rightarrow> json result) \<Rightarrow> string \<Rightarrow> delegate_input result" where
  "decode_delegate parse raw =
     on_ok (parse raw) (\<lambda>j.
       case j of
         JObj m \<Rightarrow> decode_members m \<lparr>di_profile = [], di_task = [], di_max_steps = 0\<rparr>
       | JNull \<Rightarrow> Inr \<lparr>di_profile = [], di_task = [], di_max_steps = 0\<rparr>
       | _ \<Rightarrow> Inl (''json: cannot unmarshal '' @ json_kind j @ '' into Go value of type agent.delegateInput''))"

text \<open>\<open>utf8.RuneCountInString\<close>.\<close>

fun rune_count :: "string \<Rightarrow> nat" where
  "rune_count [] = 0"
| "rune_count (c # cs) =
     (if (of_char c :: nat) < 128 then Suc (rune_count cs)
      else case utf8_len (c # cs) of None \<Rightarrow> Suc (rune_count cs) | Some n \<Rightarrow> Suc (rune_count (drop (n - 1) cs)))"

section \<open>The tool\<close>

definition delegate_name :: string where "delegate_name = ''agent.delegate''"

definition max_delegate_depth :: int where "max_delegate_depth = 1"

definition max_task_chars :: nat where "max_task_chars = 8000"

text \<open>
  The tool with its engine, the profiles it may target, the sink, and what the server gives it: the
  parser of \<open>encoding/json\<close> and the caller of the run.
\<close>

record 're delegate_tool =
  dt_engine :: "'re agent_engine"
  dt_profiles :: "(string, profile) gomap"
  dt_audit :: bool
  dt_parse :: "string \<Rightarrow> json result"
  dt_tenant :: string
  dt_user :: string

record collected =
  cl_text :: string
  cl_steps :: int
  cl_tools :: "string list"

definition collect :: "agent_event \<Rightarrow> collected \<Rightarrow> collected" where
  "collect ev c =
     (let c1 = (if ag_step ev > cl_steps c then c\<lparr>cl_steps := ag_step ev\<rparr> else c)
      in case ag_kind ev of
           EventFinal \<Rightarrow> c1\<lparr>cl_text := ag_text ev\<rparr>
         | EventToolCall \<Rightarrow> c1\<lparr>cl_tools := cl_tools c1 @ [ag_tool ev]\<rparr>
         | EventAssistantMessage \<Rightarrow> if ag_text ev \<noteq> [] then c1\<lparr>cl_text := ag_text ev\<rparr> else c1
         | _ \<Rightarrow> c1)"

text \<open>The world of the child: that of the parent, with the collector as the receiver of its events.\<close>

definition child_world :: "'w agent_world \<Rightarrow> ('w \<times> collected) agent_world" where
  "child_world wd =
     \<lparr>aw_tools = (\<lambda>(w, c). aw_tools wd w),
      aw_stream = (\<lambda>rc req (w, c). let (r, w') = aw_stream wd rc req w in (r, (w', c))),
      aw_invoke = (\<lambda>rc name args (w, c). let (r, w') = aw_invoke wd rc name args w in (r, (w', c))),
      aw_yield = (\<lambda>ev (w, c). (None, (w, collect ev c)))\<rparr>"

definition delegate_output :: "string \<Rightarrow> int \<Rightarrow> string \<Rightarrow> json \<Rightarrow> string" where
  "delegate_output text steps status calls =
     json_text (JObj [(''result'', JStr text), (''sub_steps'', JInt steps), (''status'', JStr status), (''sub_tool_calls'', calls)])"

definition delegate_error :: "string \<Rightarrow> string" where
  "delegate_error msg = delegate_output msg 0 ''error'' (JArr [])"

definition child_steps :: "int \<Rightarrow> int" where
  "child_steps n =
     (let m = (if n \<le> 0 then 4 else n); m1 = (if m < 1 then 1 else m) in if m1 > 8 then 8 else m1)"

text \<open>The checks before the child runs.\<close>

definition delegate_check :: "'re delegate_tool \<Rightarrow> run_ctx \<Rightarrow> string \<Rightarrow> delegate_input result" where
  "delegate_check dt rc raw =
     (case decode_delegate (dt_parse dt) raw of
        Inl e \<Rightarrow> Inl (''invalid input: '' @ e)
      | Inr inp \<Rightarrow>
          if di_task inp = [] then Inl ''task is required''
          else if rune_count (di_task inp) > max_task_chars then Inl ''task too long (max 8000 chars)''
          else if map_of (dt_profiles dt) (di_profile inp) = None
          then Inl (''unknown profile '' @ quote (di_profile inp))
          else if rc_depth rc \<ge> max_delegate_depth then Inl ''delegate depth exceeded (max=1)''
          else Inr inp)"

definition child_input :: "'re delegate_tool \<Rightarrow> run_ctx \<Rightarrow> delegate_input \<Rightarrow> run_input" where
  "child_input dt rc inp =
     \<lparr>rq_tenant = dt_tenant dt, rq_user = dt_user dt, rq_model = rc_model rc,
      rq_messages = [plain_message role_user (di_task inp)], rq_profile = di_profile inp,
      rq_max_steps = child_steps (di_max_steps inp), rq_skills = [], rq_session_skills = [],
      rq_sandbox = rc_sandbox rc, rq_memory_section = [], rq_memory_ids = [], rq_memory_chars = 0,
      rq_memory_truncated = False\<rparr>"

definition bumped_ctx :: "run_ctx \<Rightarrow> delegate_input \<Rightarrow> run_ctx" where
  "bumped_ctx rc inp =
     \<lparr>rc_sandbox = rc_sandbox rc, rc_model = rc_model rc, rc_profile = di_profile inp, rc_depth = rc_depth rc + 1\<rparr>"

text \<open>What the outcome of the child and the collected events become.\<close>

definition delegate_result :: "agent_err option \<Rightarrow> collected \<Rightarrow> string \<times> string" where
  "delegate_result res c = (case res of
       None \<Rightarrow> (''ok'', cl_text c)
     | Some AgMaxSteps \<Rightarrow> (''max_steps'', if cl_text c = [] then agent_err_text AgMaxSteps else cl_text c)
     | Some e \<Rightarrow> (''error'', agent_err_text e))"

text \<open>
  \<open>Invoke\<close>: the answer, and the log of the delegation (its two audit entries around the
  observations of the child, the last one first).
\<close>

definition delegate_start_audit :: "run_ctx \<Rightarrow> delegate_input \<Rightarrow> agent_obs" where
  "delegate_start_audit rc inp =
     AoAudit ''agent.delegate.start'' (di_profile inp)
       [(''parent_profile'', VStr (rc_profile rc)), (''sub_profile'', VStr (di_profile inp)),
        (''task_chars'', VInt (int (length (di_task inp)))), (''max_steps'', VInt (child_steps (di_max_steps inp))),
        (''depth'', VInt (rc_depth rc + 1))]"

definition delegate_complete_audit :: "run_ctx \<Rightarrow> delegate_input \<Rightarrow> collected \<Rightarrow> string \<Rightarrow> int \<Rightarrow> agent_obs" where
  "delegate_complete_audit rc inp c status dur =
     AoAudit ''agent.delegate.complete'' (di_profile inp)
       [(''parent_profile'', VStr (rc_profile rc)), (''sub_profile'', VStr (di_profile inp)),
        (''sub_steps'', VInt (cl_steps c)), (''status'', VStr status), (''sub_tool_calls'', VStrs (cl_tools c)),
        (''duration_ms'', VInt dur), (''depth'', VInt (rc_depth rc + 1))]"

definition delegate_invoke ::
  "'re delegate_tool \<Rightarrow> 'w agent_world \<Rightarrow> int \<Rightarrow> run_ctx \<Rightarrow> string \<Rightarrow> 'w \<Rightarrow> (string \<times> agent_obs list) \<times> 'w" where
  "delegate_invoke dt wd dur rc raw w =
     (case delegate_check dt rc raw of
        Inl msg \<Rightarrow> ((delegate_error msg, []), w)
      | Inr inp \<Rightarrow>
         (let start = \<lparr>as_world = (w, \<lparr>cl_text = [], cl_steps = 0, cl_tools = []\<rparr>), as_log = []\<rparr>;
              (res, st) = agent_run (dt_engine dt) (child_world wd) (bumped_ctx rc inp) (child_input dt rc inp) start;
              (w', c) = as_world st;
              (status, text) = delegate_result res c;
              calls = (if cl_tools c = [] then JNull else JArr (map JStr (cl_tools c)));
              before = (if dt_audit dt then [delegate_start_audit rc inp] else []);
              after = (if dt_audit dt then [delegate_complete_audit rc inp c status dur] else [])
          in ((delegate_output text (cl_steps c) status calls, after @ as_log st @ before), w')))"

section \<open>The bus with the tool\<close>

text \<open>The bus serves \<open>agent.delegate\<close> in the run of the child as well.\<close>

fun delegating :: "nat \<Rightarrow> 're delegate_tool \<Rightarrow> 'w agent_world \<Rightarrow> 'w agent_world" where
  "delegating 0 dt wd = wd"
| "delegating (Suc n) dt wd =
     wd\<lparr>aw_invoke := (\<lambda>rc name args w.
         if name = delegate_name
         then (let ((out, log), w') = delegate_invoke dt (delegating n dt wd) 0 rc args w in (Inr out, w'))
         else aw_invoke wd rc name args w)\<rparr>"

text \<open>A run depends on the bus only at the depth of its own context.\<close>

definition same_world :: "int \<Rightarrow> 'w agent_world \<Rightarrow> 'w agent_world \<Rightarrow> bool" where
  "same_world depth a b \<longleftrightarrow>
     aw_tools a = aw_tools b \<and> aw_stream a = aw_stream b \<and> aw_yield a = aw_yield b \<and>
     (\<forall>rc. rc_depth rc = depth \<longrightarrow> aw_invoke a rc = aw_invoke b rc)"

lemma yield_same:
  assumes "aw_yield a = aw_yield b"
  shows "do_yield a = do_yield b" "yield_ignored a = yield_ignored b"
  using assms by (intro ext, simp add: do_yield_def yield_ignored_def)+

lemma same_worldD:
  fixes rc :: run_ctx
  assumes "same_world d a b"
  shows "do_yield a = do_yield b" "yield_ignored a = yield_ignored b" "aw_tools a = aw_tools b" "aw_stream a = aw_stream b"
    "rc_depth rc = d \<Longrightarrow> aw_invoke a rc = aw_invoke b rc"
  using assms yield_same [of a b] by (simp_all add: same_world_def)

lemma run_tool_call_same:
  assumes "same_world d a b" "rc_depth rc = d"
  shows "run_tool_call en a rc step allow c st = run_tool_call en b rc step allow c st"
  unfolding run_tool_call_def refuse_call_def same_worldD(1-4) [OF assms(1)] same_worldD(5) [OF assms] ..

lemma run_tool_calls_same:
  assumes "same_world d a b" "rc_depth rc = d"
  shows "run_tool_calls en a rc step allow = run_tool_calls en b rc step allow"
proof (intro ext)
  fix cs st
  show "run_tool_calls en a rc step allow cs st = run_tool_calls en b rc step allow cs st"
    by (induction cs arbitrary: st) (simp_all add: run_tool_call_same [OF assms])
qed

lemma stream_chunks_same:
  assumes "same_world d a b"
  shows "stream_chunks a = stream_chunks b"
proof (intro ext)
  fix step cks acc st
  show "stream_chunks a step cks acc st = stream_chunks b step cks acc st"
    by (induction cks arbitrary: acc st) (simp_all add: same_worldD(1-4) [OF assms] split: option.split prod.split)
qed

lemma agent_step_same:
  assumes "same_world d a b" "rc_depth rc = d"
  shows "agent_step en a rc inp tools allow step = agent_step en b rc inp tools allow step"
  unfolding agent_step_def call_stream_def after_message_def
    same_worldD(1-4) [OF assms(1)] stream_chunks_same [OF assms(1)] run_tool_calls_same [OF assms] ..

lemma agent_loop_same:
  assumes "same_world d a b" "rc_depth rc = d"
  shows "agent_loop en a rc inp tools allow mx n = agent_loop en b rc inp tools allow mx n"
proof (induction n)
  case 0
  show ?case
    by (intro ext) (simp add: same_worldD(1-4) [OF assms(1)])
next
  case (Suc n)
  then show ?case
    by (intro ext) (simp only: agent_loop.simps agent_step_same [OF assms])
qed

lemma agent_run_same:
  assumes "same_world (rc_depth parent) a b"
  shows "agent_run en a parent inp st = agent_run en b parent inp st"
proof -
  have "agent_loop en a (child_ctx parent i) = agent_loop en b (child_ctx parent i)" for i
    by (intro ext, rule agent_loop_same [THEN fun_cong, THEN fun_cong, OF assms]) (simp add: child_ctx_def)
  then show ?thesis
    unfolding agent_run_def same_worldD(1-4) [OF assms] by presburger
qed

lemma child_world_same: "same_world d a b \<Longrightarrow> same_world d (child_world a) (child_world b)"
  by (auto simp: same_world_def child_world_def fun_eq_iff split: prod.splits)

text \<open>From depth one on the tool refuses without running a child.\<close>

lemma delegate_refused:
  assumes "1 \<le> rc_depth rc"
  shows "\<exists>msg. \<forall>wd. delegate_invoke dt wd dur rc raw w = ((delegate_error msg, []), w)"
proof -
  have "delegate_check dt rc raw \<noteq> Inr inp" for inp
    using assms by (auto simp: delegate_check_def max_delegate_depth_def split: sum.splits if_splits)
  then obtain msg where "delegate_check dt rc raw = Inl msg"
    by (meson sumE)
  then show ?thesis
    by (auto simp: delegate_invoke_def)
qed

lemma delegating_deep:
  fixes wd :: "'w agent_world"
  assumes "1 \<le> d"
  shows "same_world d (delegating (Suc m) dt wd) (delegating (Suc n) dt wd)"
  unfolding same_world_def
proof (intro conjI allI impI ext)
  fix rc :: run_ctx and name args and w :: 'w
  assume "rc_depth rc = d"
  then obtain msg where "\<forall>wd. delegate_invoke dt wd 0 rc args w = ((delegate_error msg, []), w)"
    using assms delegate_refused [of rc dt 0 args w] by auto
  then show "aw_invoke (delegating (Suc m) dt wd) rc name args w = aw_invoke (delegating (Suc n) dt wd) rc name args w"
    by simp
qed simp_all

lemma delegate_invoke_same:
  assumes "same_world (rc_depth rc + 1) a b"
  shows "delegate_invoke dt a dur rc raw w = delegate_invoke dt b dur rc raw w"
proof -
  have run: "agent_run en (child_world a) (bumped_ctx rc inp) i st = agent_run en (child_world b) (bumped_ctx rc inp) i st" for en inp i st
    using child_world_same [OF assms] by (intro agent_run_same) (simp add: bumped_ctx_def)
  show ?thesis
    unfolding delegate_invoke_def run ..
qed

text \<open>
  C12. Delegation is one level deep: in a run that is no sub-agent's, unfolding the tool more than
  twice (once for the run, once for the sub-agents it starts) changes nothing, so a sub-agent
  never starts another one and no chain of delegations is infinite.
\<close>

theorem delegation_depth:
  fixes wd :: "'w agent_world"
  assumes "0 \<le> rc_depth parent"
  shows "agent_run en (delegating (n + 2) dt wd) parent inp st = agent_run en (delegating 2 dt wd) parent inp st"
proof (rule agent_run_same)
  show "same_world (rc_depth parent) (delegating (n + 2) dt wd) (delegating 2 dt wd)"
    unfolding same_world_def
  proof (intro conjI allI impI ext)
    fix rc :: run_ctx and name args and w :: 'w
    assume depth: "rc_depth rc = rc_depth parent"
    have "same_world (rc_depth rc + 1) (delegating (n + 1) dt wd) (delegating 1 dt wd)"
      using assms depth delegating_deep [of "rc_depth rc + 1" n dt wd 0] by simp
    from delegate_invoke_same [OF this, of dt 0 args w]
    show "aw_invoke (delegating (n + 2) dt wd) rc name args w = aw_invoke (delegating 2 dt wd) rc name args w"
      by (simp add: eval_nat_numeral)
  qed (simp_all add: eval_nat_numeral)
qed

text \<open>A sub-agent in a world whose model answers at once.\<close>

definition solo_world :: "unit agent_world" where
  "solo_world = \<lparr>aw_tools = (\<lambda>_. []), aw_stream = (\<lambda>_ _ w. (([], None), w)), aw_invoke = (\<lambda>_ _ _ w. (Inr [], w)),
     aw_yield = (\<lambda>_ w. (None, w))\<rparr>"

theorem delegation_depth_witness:
  "\<forall>en dt inp st.
     agent_run en (delegating 3 dt solo_world) \<lparr>rc_sandbox = [], rc_model = [], rc_profile = [], rc_depth = 0\<rparr> inp st
       = agent_run en (delegating 2 dt solo_world) \<lparr>rc_sandbox = [], rc_model = [], rc_profile = [], rc_depth = 0\<rparr> inp st"
proof (intro allI)
  fix en :: "'a agent_engine" and dt :: "'b delegate_tool" and inp st
  let ?rc = "\<lparr>rc_sandbox = [], rc_model = [], rc_profile = [], rc_depth = 0\<rparr>"
  have start: "0 \<le> rc_depth ?rc" and three: "1 + 2 = (3::nat)"
    by simp_all
  show "agent_run en (delegating 3 dt solo_world) ?rc inp st = agent_run en (delegating 2 dt solo_world) ?rc inp st"
    by (rule delegation_depth [OF start, of en 1 dt solo_world inp st, unfolded three])
qed

end
