(* ===== verification/ModelGateway.thy ===== *)
theory ModelGateway
  imports Chat Quota
begin

text \<open>
  The model gateway, \<open>src/internal/modelgw\<close>: the checks of a request (\<open>validate.go\<close>), the registry of
  providers and its refresh (\<open>registry.go\<close>, \<open>repo.go\<close>), and the metered calls (\<open>gateway.go\<close>) with
  their reservation in the quota and their row in \<open>model_usage\<close>. A provider is a value of the
  interface of \<open>provider.go\<close>, on a world of its own.
\<close>

section \<open>Requests, answers, errors\<close>

datatype llm_err =
    LeModelInvalid
  | LeProviderNotFound
  | LeUnreachable string
  | LeProvider int string
  | LeUnsupported
  | LeQuota quota_err
  | LeOther string

fun llm_err_text :: "llm_err \<Rightarrow> string" where
  "llm_err_text LeModelInvalid = ''model: must be '' @ [CHR 0x27] @ ''provider:model'' @ [CHR 0x27]"
| "llm_err_text LeProviderNotFound = ''provider not found''"
| "llm_err_text (LeUnreachable e) = ''provider unreachable: '' @ e"
| "llm_err_text (LeProvider code body) = ''provider '' @ show_int code @ '': '' @ body"
| "llm_err_text LeUnsupported = ''feature not supported by this provider''"
| "llm_err_text (LeQuota (QuotaExceeded e)) = e"
| "llm_err_text (LeQuota (QuotaErr e)) = e"
| "llm_err_text (LeOther e) = e"

record chat_choice =
  cc_index :: int
  cc_message :: chat_message
  cc_finish :: string

record chat_response =
  rp_id :: string
  rp_object :: string
  rp_created :: int
  rp_model :: string
  rp_choices :: "chat_choice list"
  rp_usage :: usage

record embed_request =
  eq_model :: string
  eq_input :: "string list"
  eq_dimensions :: "int option"

record embedding =
  eb_index :: int
  eb_object :: string
  eb_vector :: "f64 list"

record embed_response =
  er_object :: string
  er_data :: "embedding list"
  er_model :: string
  er_usage :: usage

definition zero_usage :: usage where
  "zero_usage = \<lparr>us_prompt = 0, us_completion = 0, us_total = 0\<rparr>"

section \<open>Validation\<close>

definition max_messages :: nat where "max_messages = 200"
definition max_message_bytes :: nat where "max_message_bytes = 256 * 1024"
definition max_embedding_input :: nat where "max_embedding_input = 100"
definition max_embedding_item :: nat where "max_embedding_item = 8 * 1024"

text \<open>The split of \<open>provider:model\<close> at the first colon, shared by validation and resolution.\<close>

definition model_parts :: "string \<Rightarrow> (string \<times> string) option" where
  "model_parts s = (case index_byte (CHR '':'') s of
       None \<Rightarrow> None
     | Some i \<Rightarrow> if i = 0 \<or> i = length s - 1 then None else Some (take i s, drop (i + 1) s))"

definition validate_model_string :: "string \<Rightarrow> llm_err option" where
  "validate_model_string s = (if model_parts s = None then Some LeModelInvalid else None)"

definition too_long :: "string \<Rightarrow> string \<Rightarrow> nat \<Rightarrow> nat \<times> string \<Rightarrow> llm_err option" where
  "too_long pre post limit = (\<lambda>(i, s).
     if length s > limit
     then Some (LeOther (''validation: '' @ pre @ ''['' @ show_nat i @ '']'' @ post @ '' '' @ show_nat (length s) @
            '' > '' @ show_nat limit @ '' bytes''))
     else None)"

definition validate_chat :: "chat_request \<Rightarrow> llm_err option" where
  "validate_chat r = (case validate_model_string (cq_model r) of
       Some e \<Rightarrow> Some e
     | None \<Rightarrow>
         if cq_messages r = [] then Some (LeOther ''validation: messages required'')
         else if length (cq_messages r) > max_messages
         then Some (LeOther (''validation: messages count '' @ show_nat (length (cq_messages r)) @ '' > '' @ show_nat max_messages))
         else first_error (too_long ''messages'' ''.content'' max_message_bytes) (enumerate 0 (map cm_content (cq_messages r))))"

definition validate_embed :: "embed_request \<Rightarrow> llm_err option" where
  "validate_embed r = (case validate_model_string (eq_model r) of
       Some e \<Rightarrow> Some e
     | None \<Rightarrow>
         if eq_input r = [] then Some (LeOther ''validation: input required'')
         else if length (eq_input r) > max_embedding_input
         then Some (LeOther (''validation: input count '' @ show_nat (length (eq_input r)) @ '' > '' @ show_nat max_embedding_input))
         else first_error (too_long ''input'' [] max_embedding_item) (enumerate 0 (eq_input r)))"

section \<open>Providers and their registry\<close>

record 'w provider =
  pv_id :: string
  pv_type :: string
  pv_name :: string
  pv_chat :: "chat_request \<Rightarrow> string \<Rightarrow> 'w \<Rightarrow> (llm_err + chat_response) \<times> 'w"
  pv_stream :: "chat_request \<Rightarrow> string \<Rightarrow> 'w \<Rightarrow> (stream_chunk list \<times> llm_err option) \<times> 'w"
  pv_embed :: "embed_request \<Rightarrow> string \<Rightarrow> 'w \<Rightarrow> (llm_err + embed_response) \<times> 'w"

text \<open>A row of \<open>providers\<close>; no tenant means the row is global.\<close>

record provider_config =
  pc_id :: string
  pc_tenant :: "string option"
  pc_name :: string
  pc_type :: string
  pc_base_url :: string
  pc_key_env :: string
  pc_enabled :: bool

text \<open>\<open>ListEnabled\<close>: the tenant's rows after the global ones, each group by name.\<close>

definition list_enabled :: "provider_config list \<Rightarrow> provider_config list" where
  "list_enabled rows =
     sort_key (\<lambda>c. case pc_tenant c of None \<Rightarrow> [] | Some t \<Rightarrow> t) (sort_key pc_name (filter pc_enabled rows))"

type_synonym 'w provider_map = "(string, 'w provider) gomap"

record 'w provider_registry =
  pr_factories :: "(string, provider_config \<Rightarrow> 'w provider result) gomap"
  pr_fallback :: bool
  pr_global :: "'w provider_map"
  pr_tenants :: "(string, 'w provider_map) gomap"

definition lookup_existing :: "'w provider_registry \<Rightarrow> string option \<Rightarrow> string \<Rightarrow> 'w provider option" where
  "lookup_existing r tenant name = (case tenant of
       None \<Rightarrow> map_of (pr_global r) name
     | Some t \<Rightarrow> (case map_of (pr_tenants r) t of None \<Rightarrow> None | Some m \<Rightarrow> map_of m name))"

text \<open>The instance for a row: the running one when id and type agree, a new one otherwise, or none.\<close>

definition provider_for :: "'w provider_registry \<Rightarrow> provider_config \<Rightarrow> 'w provider option" where
  "provider_for r cfg =
     (let build = (case map_of (pr_factories r) (pc_type cfg) of
              None \<Rightarrow> None
            | Some factory \<Rightarrow> (case factory cfg of Inl _ \<Rightarrow> None | Inr p \<Rightarrow> Some p))
      in case lookup_existing r (pc_tenant cfg) (pc_name cfg) of
           Some p \<Rightarrow> if pv_id p = pc_id cfg \<and> pv_type p = pc_type cfg then Some p else build
         | None \<Rightarrow> build)"

definition put_provider ::
  "provider_config \<Rightarrow> 'w provider \<Rightarrow> 'w provider_map \<times> (string, 'w provider_map) gomap \<Rightarrow>
   'w provider_map \<times> (string, 'w provider_map) gomap" where
  "put_provider cfg p = (\<lambda>(global, tenants). case pc_tenant cfg of
       None \<Rightarrow> (AList.update (pc_name cfg) p global, tenants)
     | Some t \<Rightarrow>
         (let m = (case map_of tenants t of None \<Rightarrow> [] | Some m \<Rightarrow> m)
          in (global, AList.update t (AList.update (pc_name cfg) p m) tenants)))"

fun load_providers ::
  "'w provider_registry \<Rightarrow> provider_config list \<Rightarrow> 'w provider_map \<times> (string, 'w provider_map) gomap \<Rightarrow>
   'w provider_map \<times> (string, 'w provider_map) gomap" where
  "load_providers r [] nx = nx"
| "load_providers r (cfg # cfgs) nx = load_providers r cfgs
     (case provider_for r cfg of None \<Rightarrow> nx | Some p \<Rightarrow> put_provider cfg p nx)"

text \<open>\<open>reload\<close>; a failing query leaves the registry as it is.\<close>

definition reload :: "provider_config list result \<Rightarrow> 'w provider_registry \<Rightarrow> string option \<times> 'w provider_registry" where
  "reload listed r = (case listed of
       Inl e \<Rightarrow> (Some (''list providers: '' @ e), r)
     | Inr rows \<Rightarrow>
         (let (global, tenants) = load_providers r (list_enabled rows) ([], [])
          in (None, r\<lparr>pr_global := global, pr_tenants := tenants\<rparr>)))"

definition nil_tenant :: string where "nil_tenant = ''00000000-0000-0000-0000-000000000000''"

definition resolve_provider :: "'w provider_registry \<Rightarrow> string \<Rightarrow> string \<Rightarrow> llm_err + 'w provider \<times> string" where
  "resolve_provider r tenant s = (case model_parts s of
       None \<Rightarrow> Inl LeModelInvalid
     | Some (name, model) \<Rightarrow>
         (let own = (if tenant \<noteq> nil_tenant then lookup_existing r (Some tenant) name else None)
          in case own of
               Some p \<Rightarrow> Inr (p, model)
             | None \<Rightarrow>
                 if pr_fallback r \<or> tenant = nil_tenant
                 then (case map_of (pr_global r) name of Some p \<Rightarrow> Inr (p, model) | None \<Rightarrow> Inl LeProviderNotFound)
                 else Inl LeProviderNotFound))"

section \<open>Metered calls\<close>

definition estimate_chat :: "chat_request \<Rightarrow> int" where
  "estimate_chat req =
     (let completion = (case cq_max_tokens req of None \<Rightarrow> 1024 | Some n \<Rightarrow> if n > 0 then n else 1024) in 512 + completion)"

definition estimate_embed :: "embed_request \<Rightarrow> int" where
  "estimate_embed req =
     (let est = int (sum_list (map length (eq_input req)) div 4) in if est < 64 then 64 else est)"

definition classify_llm_error :: "llm_err \<Rightarrow> string" where
  "classify_llm_error e = (case e of
       LeUnreachable _ \<Rightarrow> ''unreachable''
     | LeProvider _ _ \<Rightarrow> ''provider_error''
     | LeUnsupported \<Rightarrow> ''unsupported_feature''
     | LeModelInvalid \<Rightarrow> ''validation''
     | LeProviderNotFound \<Rightarrow> ''validation''
     | _ \<Rightarrow> ''other'')"

record model_event =
  me_tenant :: string
  me_user :: string
  me_provider :: string
  me_type :: string
  me_model :: string
  me_action :: string
  me_stream :: bool
  me_status :: string
  me_class :: string
  me_input :: int
  me_output :: int
  me_millis :: int
  me_time :: utc

text \<open>
  The gateway with its optional quota; the state it works on (providers, Redis, the table
  \<open>model_usage\<close>); and what a call meets: the clock at the reservation and at the reconciliation, its
  duration, and whether the insert of the usage row succeeds.
\<close>

record ('w, 'r) gateway =
  gw_registry :: "'w provider_registry"
  gw_redis :: "'r redis"
  gw_limits :: "limits option"

record ('w, 'r) gw_state =
  gs_world :: 'w
  gs_redis :: 'r
  gs_usage :: "model_event list"

record call_env =
  ce_reserve :: utc
  ce_adjust :: utc
  ce_millis :: int
  ce_saved :: bool

definition reserve_tokens ::
  "('w, 'r) gateway \<Rightarrow> call_env \<Rightarrow> string \<Rightarrow> string \<Rightarrow> int \<Rightarrow> ('w, 'r) gw_state \<Rightarrow> llm_err option \<times> ('w, 'r) gw_state" where
  "reserve_tokens g env tenant user est st = (case gw_limits g of
       None \<Rightarrow> (None, st)
     | Some lim \<Rightarrow>
         (let (e, rd) = check_and_incr (gw_redis g) lim (ce_reserve env) KindLLMTokens tenant user est (gs_redis st)
          in (map_option LeQuota e, st\<lparr>gs_redis := rd\<rparr>)))"

definition reconcile_delta :: "int \<Rightarrow> usage \<Rightarrow> llm_err option \<Rightarrow> int" where
  "reconcile_delta est u err =
     (if err \<noteq> None then - est else if us_total u > 0 then us_total u - est else 0)"

definition reconcile ::
  "('w, 'r) gateway \<Rightarrow> call_env \<Rightarrow> string \<Rightarrow> string \<Rightarrow> int \<Rightarrow> usage \<Rightarrow> llm_err option \<Rightarrow> ('w, 'r) gw_state \<Rightarrow> ('w, 'r) gw_state" where
  "reconcile g env tenant user est u err st = (case gw_limits g of
       None \<Rightarrow> st
     | Some lim \<Rightarrow>
         if est \<le> 0 then st
         else
           (let delta = reconcile_delta est u err
            in if delta = 0 then st
               else st\<lparr>gs_redis :=
                 snd (adjust (gw_redis g) lim (ce_adjust env) KindLLMTokens tenant user delta (gs_redis st))\<rparr>))"

definition record_model_call ::
  "call_env \<Rightarrow> string \<Rightarrow> string \<Rightarrow> 'w provider \<Rightarrow> string \<Rightarrow> string \<Rightarrow> bool \<Rightarrow> llm_err option \<Rightarrow> usage \<Rightarrow>
   ('w, 'r) gw_state \<Rightarrow> ('w, 'r) gw_state" where
  "record_model_call env tenant user p model action stream err u st =
     (if ce_saved env
      then st\<lparr>gs_usage := gs_usage st @
        [\<lparr>me_tenant = tenant, me_user = user, me_provider = pv_id p, me_type = pv_type p, me_model = model,
          me_action = action, me_stream = stream, me_status = (if err = None then ''ok'' else ''error''),
          me_class = (case err of None \<Rightarrow> [] | Some e \<Rightarrow> classify_llm_error e),
          me_input = us_prompt u, me_output = us_completion u, me_millis = ce_millis env, me_time = ce_adjust env\<rparr>]\<rparr>
      else st)"

text \<open>
  What the three calls have in common after the validation: resolution, reservation, the call of
  the provider (\<open>run\<close>, which reports its error and usage), reconciliation, and the usage row.
\<close>

definition metered_call ::
  "('w, 'r) gateway \<Rightarrow> call_env \<Rightarrow> string \<Rightarrow> string \<Rightarrow> string \<Rightarrow> int \<Rightarrow> string \<Rightarrow> bool \<Rightarrow>
   ('w provider \<Rightarrow> string \<Rightarrow> 'w \<Rightarrow> (usage \<times> (llm_err + 'a)) \<times> 'w) \<Rightarrow> ('w, 'r) gw_state \<Rightarrow>
   (llm_err + 'a) \<times> ('w, 'r) gw_state" where
  "metered_call g env tenant user s est action stream run st =
     (case resolve_provider (gw_registry g) tenant s of
        Inl e \<Rightarrow> (Inl e, st)
      | Inr (p, model) \<Rightarrow>
          (case reserve_tokens g env tenant user est st of
             (Some e, st1) \<Rightarrow> (Inl e, st1)
           | (None, st1) \<Rightarrow>
               (let ((u, res), w) = run p model (gs_world st1);
                    err = (case res of Inl e \<Rightarrow> Some e | Inr _ \<Rightarrow> None);
                    st2 = reconcile g env tenant user est u err (st1\<lparr>gs_world := w\<rparr>);
                    st3 = record_model_call env tenant user p model action stream err u st2
                in (res, st3))))"

definition chat_completion ::
  "('w, 'r) gateway \<Rightarrow> call_env \<Rightarrow> string \<Rightarrow> string \<Rightarrow> chat_request \<Rightarrow> ('w, 'r) gw_state \<Rightarrow>
   (llm_err + chat_response) \<times> ('w, 'r) gw_state" where
  "chat_completion g env tenant user req st = (case validate_chat req of
       Some e \<Rightarrow> (Inl e, st)
     | None \<Rightarrow>
         (let (res, st1) = metered_call g env tenant user (cq_model req) (estimate_chat req) ''chat'' False
            (\<lambda>p model w. let (r, w') = pv_chat p req model w in
               ((case r of Inl _ \<Rightarrow> zero_usage | Inr resp \<Rightarrow> rp_usage resp, r), w')) st
          in (case res of Inl e \<Rightarrow> Inl e | Inr resp \<Rightarrow> Inr (resp\<lparr>rp_model := cq_model req\<rparr>), st1)))"

definition embeddings ::
  "('w, 'r) gateway \<Rightarrow> call_env \<Rightarrow> string \<Rightarrow> string \<Rightarrow> embed_request \<Rightarrow> ('w, 'r) gw_state \<Rightarrow>
   (llm_err + embed_response) \<times> ('w, 'r) gw_state" where
  "embeddings g env tenant user req st = (case validate_embed req of
       Some e \<Rightarrow> (Inl e, st)
     | None \<Rightarrow>
         (let (res, st1) = metered_call g env tenant user (eq_model req) (estimate_embed req) ''embed'' False
            (\<lambda>p model w. let (r, w') = pv_embed p req model w in
               ((case r of Inl _ \<Rightarrow> zero_usage | Inr resp \<Rightarrow> er_usage resp, r), w')) st
          in (case res of Inl e \<Rightarrow> Inl e | Inr resp \<Rightarrow> Inr (resp\<lparr>er_model := eq_model req\<rparr>), st1)))"

text \<open>
  The stream: \<open>wrapYield\<close> keeps the last usage, restores the requested model and passes the chunk on;
  the receiver works on the same world as the providers. A provider stops at the first error of
  the receiver and returns it.
\<close>

fun feed_chunks ::
  "(stream_chunk \<Rightarrow> 'w \<Rightarrow> llm_err option \<times> 'w) \<Rightarrow> string \<Rightarrow> stream_chunk list \<Rightarrow> usage option \<Rightarrow> 'w \<Rightarrow>
   (llm_err option \<times> usage option) \<times> 'w" where
  "feed_chunks yield model [] last_usage w = ((None, last_usage), w)"
| "feed_chunks yield model (ck # cks) last_usage w =
     (let u = (case ck_usage ck of None \<Rightarrow> last_usage | Some u \<Rightarrow> Some u)
      in case yield (ck\<lparr>ck_model := model\<rparr>) w of
           (Some e, w') \<Rightarrow> ((Some e, u), w')
         | (None, w') \<Rightarrow> feed_chunks yield model cks u w')"

definition stream_provider ::
  "(stream_chunk \<Rightarrow> 'w \<Rightarrow> llm_err option \<times> 'w) \<Rightarrow> chat_request \<Rightarrow> 'w provider \<Rightarrow> string \<Rightarrow> 'w \<Rightarrow>
   (usage \<times> (llm_err + unit)) \<times> 'w" where
  "stream_provider yield req p model w =
     (let ((cks, perr), w1) = pv_stream p req model w;
          ((yerr, last_usage), w2) = feed_chunks yield (cq_model req) cks None w1;
          err = (case yerr of Some e \<Rightarrow> Some e | None \<Rightarrow> perr)
      in ((case last_usage of None \<Rightarrow> zero_usage | Some u \<Rightarrow> u, case err of Some e \<Rightarrow> Inl e | None \<Rightarrow> Inr ()), w2))"

definition chat_completion_stream ::
  "('w, 'r) gateway \<Rightarrow> call_env \<Rightarrow> string \<Rightarrow> string \<Rightarrow> chat_request \<Rightarrow>
   (stream_chunk \<Rightarrow> 'w \<Rightarrow> llm_err option \<times> 'w) \<Rightarrow> ('w, 'r) gw_state \<Rightarrow> llm_err option \<times> ('w, 'r) gw_state" where
  "chat_completion_stream g env tenant user req yield st = (case validate_chat req of
       Some e \<Rightarrow> (Some e, st)
     | None \<Rightarrow>
         (let (res, st1) = metered_call g env tenant user (cq_model req) (estimate_chat req) ''chat'' True
            (stream_provider yield req) st
          in (case res of Inl e \<Rightarrow> Some e | Inr _ \<Rightarrow> None, st1)))"

section \<open>Which provider a tenant gets\<close>

text \<open>What a row of the table offers, given the registry before the refresh.\<close>

definition offered :: "'w provider_registry \<Rightarrow> provider_config list \<Rightarrow> string option \<Rightarrow> string \<Rightarrow> 'w provider option" where
  "offered r rows tenant name =
     (case find (\<lambda>c. pc_enabled c \<and> pc_tenant c = tenant \<and> pc_name c = name) rows of
        None \<Rightarrow> None
      | Some c \<Rightarrow> provider_for r c)"

definition row_key :: "provider_config \<Rightarrow> string option \<times> string" where
  "row_key c = (pc_tenant c, pc_name c)"

lemma find_unique:
  assumes "inj_on f (set xs)" "\<And>x. P x \<Longrightarrow> f x = k"
  shows "find P xs = Some x \<longleftrightarrow> x \<in> set xs \<and> P x"
proof
  assume "x \<in> set xs \<and> P x"
  moreover from this obtain y where y: "find P xs = Some y"
    by (cases "find P xs") (auto simp: find_None_iff)
  ultimately have "f x = f y" "y \<in> set xs"
    using assms(2) by (auto simp: find_Some_iff)
  then show "find P xs = Some x"
    using assms(1) y \<open>x \<in> set xs \<and> P x\<close> by (auto dest: inj_onD)
qed (auto simp: find_Some_iff)

lemma find_same_members:
  assumes "inj_on f (set ys)" "set xs = {y \<in> set ys. Q y}" "\<And>x. P x \<Longrightarrow> f x = k"
  shows "find P xs = find (\<lambda>x. Q x \<and> P x) ys"
proof -
  have "find P xs = Some x \<longleftrightarrow> find (\<lambda>x. Q x \<and> P x) ys = Some x" for x
    using find_unique [of f xs P k x] find_unique [of f ys "\<lambda>x. Q x \<and> P x" k x] assms
    by (auto intro: inj_on_subset)
  then show ?thesis
    by (metis not_Some_eq)
qed

lemma lookup_put:
  "lookup_existing (r\<lparr>pr_global := fst (put_provider cfg p nx), pr_tenants := snd (put_provider cfg p nx)\<rparr>) t n =
     (if row_key cfg = (t, n) then Some p else lookup_existing (r\<lparr>pr_global := fst nx, pr_tenants := snd nx\<rparr>) t n)"
  by (cases "pc_tenant cfg"; cases t)
    (auto simp: lookup_existing_def put_provider_def row_key_def Let_def split: prod.split option.split)

lemma lookup_load:
  "distinct (map row_key cfgs) \<Longrightarrow>
   lookup_existing (r'\<lparr>pr_global := fst (load_providers r cfgs nx), pr_tenants := snd (load_providers r cfgs nx)\<rparr>) t n =
     (case (case find (\<lambda>c. pc_tenant c = t \<and> pc_name c = n) cfgs of None \<Rightarrow> None | Some c \<Rightarrow> provider_for r c) of
        Some p \<Rightarrow> Some p
      | None \<Rightarrow> lookup_existing (r'\<lparr>pr_global := fst nx, pr_tenants := snd nx\<rparr>) t n)"
proof (induction cfgs arbitrary: nx)
  case (Cons c cfgs)
  show ?case
  proof (cases "row_key c = (t, n)")
    case True
    then have "find (\<lambda>c. pc_tenant c = t \<and> pc_name c = n) cfgs = None"
      using Cons.prems unfolding find_None_iff
      by (metis distinct.simps(2) image_eqI list.set_map list.simps(9) row_key_def)
    then show ?thesis
      using Cons True by (auto simp: row_key_def lookup_put split: option.splits)
  next
    case False
    then have "lookup_existing (r'\<lparr>pr_global := fst nx', pr_tenants := snd nx'\<rparr>) t n =
        lookup_existing (r'\<lparr>pr_global := fst nx, pr_tenants := snd nx\<rparr>) t n"
      if "nx' = (case provider_for r c of None \<Rightarrow> nx | Some p \<Rightarrow> put_provider c p nx)" for nx'
      using that by (auto simp: lookup_put split: option.splits)
    moreover have "find (\<lambda>c. pc_tenant c = t \<and> pc_name c = n) (c # cfgs) = find (\<lambda>c. pc_tenant c = t \<and> pc_name c = n) cfgs"
      using False by (auto simp: row_key_def)
    ultimately show ?thesis
      using Cons by (simp split: option.split)
  qed
qed simp

lemma set_list_enabled: "set (list_enabled rows) = {c \<in> set rows. pc_enabled c}"
  by (auto simp: list_enabled_def)

lemma distinct_list_enabled:
  assumes "distinct (map row_key rows)"
  shows "distinct (map row_key (list_enabled rows))"
proof -
  have "distinct rows" "inj_on row_key (set rows)"
    using assms by (simp_all add: distinct_map)
  then show ?thesis
    by (auto simp: distinct_map set_list_enabled intro: inj_on_subset) (simp add: list_enabled_def)
qed

lemma lookup_reload:
  assumes "distinct (map row_key rows)"
  shows "lookup_existing (snd (reload (Inr rows) r)) t n = offered r rows t n"
proof -
  obtain g ts where load: "load_providers r (list_enabled rows) ([], []) = (g, ts)"
    by (metis surj_pair)
  have "find (\<lambda>c. pc_tenant c = t \<and> pc_name c = n) (list_enabled rows) =
      find (\<lambda>c. pc_enabled c \<and> pc_tenant c = t \<and> pc_name c = n) rows"
    using assms by (intro find_same_members [where f = row_key and k = "(t, n)"])
      (auto simp: set_list_enabled row_key_def distinct_map)
  moreover have "lookup_existing (r\<lparr>pr_global := [], pr_tenants := []\<rparr>) t n = None"
    by (simp add: lookup_existing_def split: option.split)
  ultimately show ?thesis
    using lookup_load [OF distinct_list_enabled [OF assms], where r' = r and r = r and nx = "([], [])" and t = t and n = n]
    by (simp add: load reload_def offered_def split: option.splits)
qed

text \<open>
  C24. The provider of a call after a refresh, in terms of the table alone: the enabled row of the
  calling tenant with this name, else, where the fallback is on or the caller has no tenant, the
  enabled global row; a row of another tenant is never used. A row whose instance cannot be made
  counts as absent.
\<close>

theorem provider_resolution:
  assumes "distinct (map row_key rows)"
  shows "resolve_provider (snd (reload (Inr rows) r)) tenant s =
    (case model_parts s of
       None \<Rightarrow> Inl LeModelInvalid
     | Some (name, model) \<Rightarrow>
         (case (if tenant = nil_tenant then None else offered r rows (Some tenant) name,
                if pr_fallback r \<or> tenant = nil_tenant then offered r rows None name else None) of
            (Some p, _) \<Rightarrow> Inr (p, model)
          | (None, Some p) \<Rightarrow> Inr (p, model)
          | (None, None) \<Rightarrow> Inl LeProviderNotFound))"
proof -
  have "map_of (pr_global (snd (reload (Inr rows) r))) name = offered r rows None name" for name
    using lookup_reload [OF assms, of r None name] by (simp add: lookup_existing_def)
  moreover have "pr_fallback (snd (reload (Inr rows) r)) = pr_fallback r"
    by (simp add: reload_def split: prod.split)
  ultimately show ?thesis
    using lookup_reload [OF assms, of r "Some tenant"]
    by (auto simp: resolve_provider_def split: option.splits)
qed

text \<open>A tenant with a row of its own and one without.\<close>

definition demo_provider :: "string \<Rightarrow> stream_chunk list \<Rightarrow> unit provider" where
  "demo_provider i cks = \<lparr>pv_id = i, pv_type = ''openai'', pv_name = ''gpt'', pv_chat = (\<lambda>_ _ w. (Inl LeUnsupported, w)),
     pv_stream = (\<lambda>_ _ w. ((cks, None), w)), pv_embed = (\<lambda>_ _ w. (Inl LeUnsupported, w))\<rparr>"

definition demo_row :: "string option \<Rightarrow> string \<Rightarrow> provider_config" where
  "demo_row t i = \<lparr>pc_id = i, pc_tenant = t, pc_name = ''gpt'', pc_type = ''openai'', pc_base_url = ''http://x'',
     pc_key_env = ''KEY'', pc_enabled = True\<rparr>"

definition demo_registry :: "unit provider_registry" where
  "demo_registry = \<lparr>pr_factories = [(''openai'', \<lambda>c. Inr (demo_provider (pc_id c) []))], pr_fallback = False,
     pr_global = [], pr_tenants = []\<rparr>"

theorem provider_resolution_witness:
  "resolve_provider (snd (reload (Inr [demo_row None ''g'', demo_row (Some ''t'') ''p'']) demo_registry)) ''t'' ''gpt:4:x''
     = Inr (demo_provider ''p'' [], ''4:x'') \<and>
   resolve_provider (snd (reload (Inr [demo_row None ''g'', demo_row (Some ''t'') ''p'']) demo_registry)) ''u'' ''gpt:4:x''
     = Inl LeProviderNotFound"
proof -
  have "distinct (map row_key [demo_row None ''g'', demo_row (Some ''t'') ''p''])"
    by (simp add: row_key_def demo_row_def)
  from provider_resolution [OF this, of demo_registry "''t''" "''gpt:4:x''"]
    provider_resolution [OF this, of demo_registry "''u''" "''gpt:4:x''"]
  show ?thesis
    by (simp add: model_parts_def index_byte_def nil_tenant_def offered_def demo_row_def provider_for_def
        lookup_existing_def demo_registry_def)
qed

section \<open>What a call costs\<close>

text \<open>A Redis that answers, with its counters.\<close>

definition counter_exact :: "'r redis \<Rightarrow> ('r \<Rightarrow> string \<Rightarrow> int) \<Rightarrow> bool" where
  "counter_exact rd count \<longleftrightarrow>
     (\<forall>k d ttl r. \<exists>r'. rd_incr_expire rd k d ttl r = (Inr (count r k + d), r') \<and> count r' = (count r)(k := count r k + d)) \<and>
     (\<forall>k d r. \<exists>r'. rd_incr rd k d r = (Inr (count r k + d), r') \<and> count r' = (count r)(k := count r k + d))"

lemma reserve_exact:
  assumes "counter_exact (gw_redis g) count" "gw_limits g = Some lim" "0 < lm_llm_day lim" "0 < est"
    and "key = window_key KindLLMTokens tenant user (ce_reserve env)"
  obtains rd where "count rd = (count (gs_redis st))(key := count (gs_redis st) key + est)"
    "count (gs_redis st) key + est \<le> lm_llm_day lim \<Longrightarrow>
       reserve_tokens g env tenant user est st = (None, st\<lparr>gs_redis := rd\<rparr>)"
    "lm_llm_day lim < count (gs_redis st) key + est \<Longrightarrow>
       \<exists>m. reserve_tokens g env tenant user est st = (Some (LeQuota (QuotaExceeded m)), st\<lparr>gs_redis := rd\<rparr>)"
proof -
  obtain rd where "rd_incr_expire (gw_redis g) key est (48 * 3600 * 1000000000) (gs_redis st) =
      (Inr (count (gs_redis st) key + est), rd)" "count rd = (count (gs_redis st))(key := count (gs_redis st) key + est)"
    using assms(1) unfolding counter_exact_def by metis
  then show thesis
    using that [of rd] assms(2-5) by (simp add: reserve_tokens_def check_and_incr_def limit_for_def)
qed

lemma reconcile_exact:
  assumes "counter_exact (gw_redis g) count" "gw_limits g = Some lim" "0 < lm_llm_day lim" "0 < est"
    and "key = window_key KindLLMTokens tenant user (ce_adjust env)"
  shows "count (gs_redis (reconcile g env tenant user est u err st)) =
      (count (gs_redis st))(key := count (gs_redis st) key + reconcile_delta est u err) \<and>
    gs_world (reconcile g env tenant user est u err st) = gs_world st \<and>
    gs_usage (reconcile g env tenant user est u err st) = gs_usage st"
proof -
  obtain rd where "rd_incr (gw_redis g) key (reconcile_delta est u err) (gs_redis st) =
      (Inr (count (gs_redis st) key + reconcile_delta est u err), rd)"
      "count rd = (count (gs_redis st))(key := count (gs_redis st) key + reconcile_delta est u err)"
    using assms(1) unfolding counter_exact_def by metis
  then show ?thesis
    using assms(2-5) by (simp add: reconcile_def adjust_def limit_for_def Let_def)
qed

text \<open>The tokens a call that succeeds is charged in the end, and one that fails.\<close>

definition charged :: "int \<Rightarrow> usage \<Rightarrow> llm_err + 'a \<Rightarrow> int" where
  "charged est u res = (case res of Inl _ \<Rightarrow> 0 | Inr _ \<Rightarrow> if us_total u > 0 then us_total u else est)"

lemma record_model_call_state [simp]:
  "gs_redis (record_model_call env tenant user p model action stream err u st) = gs_redis st"
  "gs_world (record_model_call env tenant user p model action stream err u st) = gs_world st"
  "length (gs_usage (record_model_call env tenant user p model action stream err u st)) =
     length (gs_usage st) + (if ce_saved env then 1 else 0)"
  by (simp_all add: record_model_call_def)

lemma metered_call_tokens:
  assumes "counter_exact (gw_redis g) count" "gw_limits g = Some lim" "0 < lm_llm_day lim" "0 < est"
    and "resolve_provider (gw_registry g) tenant s = Inr (p, model)"
    and "metered_call g env tenant user s est action stream run st = (res, st')"
    and "key = window_key KindLLMTokens tenant user (ce_reserve env)"
    and "key' = window_key KindLLMTokens tenant user (ce_adjust env)"
    and "run p model (gs_world st) = ((u, answer), w)"
  shows "if count (gs_redis st) key + est \<le> lm_llm_day lim
    then res = answer \<and> gs_world st' = w \<and> length (gs_usage st') = length (gs_usage st) + (if ce_saved env then 1 else 0) \<and>
      (\<forall>k. count (gs_redis st') k = count (gs_redis st) k + (if k = key then est else 0) +
         (if k = key' then charged est u answer - est else 0))
    else (\<exists>m. res = Inl (LeQuota (QuotaExceeded m))) \<and> gs_world st' = gs_world st \<and> gs_usage st' = gs_usage st \<and>
      (\<forall>k. count (gs_redis st') k = count (gs_redis st) k + (if k = key then est else 0))"
proof -
  obtain rd where rd: "count rd = (count (gs_redis st))(key := count (gs_redis st) key + est)"
      and within: "count (gs_redis st) key + est \<le> lm_llm_day lim \<Longrightarrow>
        reserve_tokens g env tenant user est st = (None, st\<lparr>gs_redis := rd\<rparr>)"
      and above: "lm_llm_day lim < count (gs_redis st) key + est \<Longrightarrow>
       \<exists>m. reserve_tokens g env tenant user est st = (Some (LeQuota (QuotaExceeded m)), st\<lparr>gs_redis := rd\<rparr>)"
    using reserve_exact [OF assms(1-4,7), of st] by metis
  show ?thesis
  proof (cases "count (gs_redis st) key + est \<le> lm_llm_day lim")
    case True
    let ?err = "case answer of Inl e \<Rightarrow> Some e | Inr _ \<Rightarrow> None"
    have "reconcile_delta est u ?err = charged est u answer - est"
      by (auto simp: reconcile_delta_def charged_def split: sum.split)
    moreover have "res = answer" "st' = record_model_call env tenant user p model action stream ?err u
        (reconcile g env tenant user est u ?err (st\<lparr>gs_redis := rd, gs_world := w\<rparr>))"
      using assms(5,6,9) within [OF True] by (auto simp: metered_call_def Let_def)
    ultimately show ?thesis
      using True rd reconcile_exact [OF assms(1-4,8), of u ?err "st\<lparr>gs_redis := rd, gs_world := w\<rparr>"]
      by simp
  next
    case False
    then show ?thesis
      using assms(5,6) above rd by (auto simp: metered_call_def)
  qed
qed

text \<open>The last usage the chunks of a stream report.\<close>

definition reported_usage :: "stream_chunk list \<Rightarrow> usage" where
  "reported_usage cks = (case List.map_filter ck_usage (rev cks) of [] \<Rightarrow> zero_usage | u # _ \<Rightarrow> u)"

lemma feed_chunks_reported:
  "feed_chunks yield model cks l w = ((None, l'), w') \<Longrightarrow>
   l' = (case List.map_filter ck_usage (rev cks) of [] \<Rightarrow> l | u # _ \<Rightarrow> Some u)"
proof (induction cks arbitrary: l w)
  case (Cons ck cks)
  then show ?case
    by (cases "List.map_filter ck_usage (rev cks)"; cases "ck_usage ck")
      (fastforce simp: Let_def List.map_filter_def split: prod.splits option.splits)+
qed (simp add: List.map_filter_def)


text \<open>A call that reports forty tokens, under a cap of two thousand, before and after midnight.\<close>

definition usage_chunk :: stream_chunk where
  "usage_chunk = \<lparr>ck_id = [], ck_object = [], ck_created = 0, ck_model = [], ck_choices = [],
     ck_usage = Some \<lparr>us_prompt = 30, us_completion = 10, us_total = 40\<rparr>\<rparr>"

definition demo_gateway :: "(unit, string \<Rightarrow> int) gateway" where
  "demo_gateway = \<lparr>gw_registry = demo_registry\<lparr>pr_global := [(''gpt'', demo_provider ''g'' [usage_chunk])], pr_fallback := True\<rparr>,
     gw_redis = mem_redis, gw_limits = Some \<lparr>lm_llm_day = 2000, lm_sandbox = 0, lm_tool_minute = 0\<rparr>\<rparr>"

definition demo_state :: "(unit, string \<Rightarrow> int) gw_state" where
  "demo_state = \<lparr>gs_world = (), gs_redis = (\<lambda>_. 0), gs_usage = []\<rparr>"

definition demo_env :: "utc \<Rightarrow> call_env" where
  "demo_env t = \<lparr>ce_reserve = noon, ce_adjust = t, ce_millis = 5, ce_saved = True\<rparr>"

definition demo_request :: chat_request where
  "demo_request = chat_request_of ''gpt:4'' [plain_message role_user ''hi''] []"

lemma mem_redis_exact: "counter_exact mem_redis (\<lambda>r. r)"
  by (simp add: counter_exact_def mem_redis_def)


end
