(* ===== verification/Providers.thy ===== *)
theory Providers
  imports ModelGateway JsonScan
begin

text \<open>
  The providers of \<open>src/internal/modelgw\<close>: the OpenAI-compatible one (\<open>provider_openai.go\<close>), the one
  for Claude (\<open>provider_claude.go\<close>) with the translation of its messages (\<open>claude_translate.go\<close>) and
  of its event stream (\<open>claude_stream.go\<close>). Parameters: the HTTP client, the environment, and the
  codec of \<open>encoding/json\<close> for the types of the wire.
\<close>

section \<open>Lines of a body\<close>

text \<open>
  \<open>bufio.Scanner\<close> with \<open>ScanLines\<close> and a buffer of one mebibyte, on a body that ends well or with a
  read error: the lines without their line ends, and the error of the scanner.
\<close>

definition max_line :: nat where "max_line = 1024 * 1024"

definition drop_cr :: "string \<Rightarrow> string" where
  "drop_cr l = (if l \<noteq> [] \<and> last l = CHR 0x0D then butlast l else l)"

definition scan_lines :: "string \<Rightarrow> string option \<Rightarrow> string list \<times> string option" where
  "scan_lines body rerr =
     (let parts = split_on (CHR 0x0A) body;
          raw = (if last parts = [] then butlast parts else parts);
          short = takeWhile (\<lambda>l. length l < max_line) raw
      in (map drop_cr short, if length short < length raw then Some ''bufio.Scanner: token too long'' else rerr))"

text \<open>\<open>strings.ReplaceAll\<close> for a text that is not empty, and \<open>redact\<close>.\<close>

function replace_all :: "string \<Rightarrow> string \<Rightarrow> string \<Rightarrow> string" where
  "replace_all old new s =
     (if old = [] \<or> s = [] then s
      else if has_prefix old s then new @ replace_all old new (drop (length old) s)
      else hd s # replace_all old new (tl s))"
  by pat_completeness auto
termination
  by (relation "measure (\<lambda>(_, _, s). length s)") auto

declare replace_all.simps [simp del]

definition redact :: "(string \<Rightarrow> string) \<Rightarrow> string \<Rightarrow> string list \<Rightarrow> string" where
  "redact getenv s names =
     foldl (\<lambda>s n. let v = getenv n in if v \<noteq> [] \<and> 8 \<le> length v then replace_all v ''[REDACTED]'' s else s) s names"

section \<open>HTTP\<close>

record http_request =
  hr_url :: string
  hr_headers :: "(string \<times> string) list"
  hr_body :: string

text \<open>A status, the bytes of the body, and the error reading it may end with.\<close>

record http_answer =
  ha_status :: int
  ha_body :: string
  ha_error :: "string option"

record 'w http_client =
  hc_check :: "string \<Rightarrow> string option"
  hc_do :: "http_request \<Rightarrow> 'w \<Rightarrow> http_answer result \<times> 'w"

definition max_provider_body :: nat where "max_provider_body = 8 * 1024 * 1024"

definition send ::
  "'w http_client \<Rightarrow> (string \<Rightarrow> string) \<Rightarrow> string \<Rightarrow> llm_err + http_request \<Rightarrow> 'w \<Rightarrow> (llm_err + http_answer) \<times> 'w" where
  "send hc getenv key_env made w = (case made of
       Inl e \<Rightarrow> (Inl e, w)
     | Inr hr \<Rightarrow>
         (case hc_do hc hr w of
            (Inl e, w') \<Rightarrow> (Inl (LeUnreachable e), w')
          | (Inr a, w') \<Rightarrow>
              (if 400 \<le> ha_status a
               then Inl (LeProvider (ha_status a) (redact getenv (take max_provider_body (ha_body a)) [key_env]))
               else Inr a, w')))"

section \<open>The OpenAI-compatible provider\<close>

record http_provider =
  hp_id :: string
  hp_name :: string
  hp_type :: string
  hp_base :: string
  hp_key_env :: string

definition trim_slashes :: "string \<Rightarrow> string" where
  "trim_slashes s = rev (dropWhile (\<lambda>c. c = CHR ''/'') (rev s))"

definition new_openai_provider :: "provider_config \<Rightarrow> http_provider" where
  "new_openai_provider cfg =
     \<lparr>hp_id = pc_id cfg, hp_name = pc_name cfg, hp_type = pc_type cfg, hp_base = trim_slashes (pc_base_url cfg),
      hp_key_env = pc_key_env cfg\<rparr>"

definition openai_key :: "(string \<Rightarrow> string) \<Rightarrow> http_provider \<Rightarrow> llm_err + string" where
  "openai_key getenv p =
     (if hp_key_env p = [] then Inr []
      else if getenv (hp_key_env p) = [] then Inl (LeOther (''api key env '' @ quote (hp_key_env p) @ '' is empty''))
      else Inr (getenv (hp_key_env p)))"

text \<open>The codec: requests to text, answers and stream frames from text.\<close>

record openai_codec =
  oc_chat :: "chat_request \<Rightarrow> bool \<Rightarrow> string result"
  oc_embed :: "embed_request \<Rightarrow> string result"
  oc_response :: "string \<Rightarrow> chat_response result"
  oc_vectors :: "string \<Rightarrow> embed_response result"
  oc_chunk :: "string \<Rightarrow> stream_chunk option"

definition openai_request ::
  "'w http_client \<Rightarrow> (string \<Rightarrow> string) \<Rightarrow> http_provider \<Rightarrow> string \<Rightarrow> string result \<Rightarrow> (string \<times> string) list \<Rightarrow>
   llm_err + http_request" where
  "openai_request hc getenv p path body extra = (case body of
       Inl e \<Rightarrow> Inl (LeOther (''marshal body: '' @ e))
     | Inr b \<Rightarrow>
         (case hc_check hc (hp_base p @ path) of
            Some e \<Rightarrow> Inl (LeOther e)
          | None \<Rightarrow>
              on_ok (openai_key getenv p) (\<lambda>key.
                Inr \<lparr>hr_url = hp_base p @ path,
                     hr_headers = [(''Content-Type'', ''application/json'')] @
                       (if key \<noteq> [] then [(''Authorization'', ''Bearer '' @ key)] else []) @ extra,
                     hr_body = b\<rparr>)))"

definition openai_chat ::
  "'w http_client \<Rightarrow> (string \<Rightarrow> string) \<Rightarrow> openai_codec \<Rightarrow> http_provider \<Rightarrow> chat_request \<Rightarrow> string \<Rightarrow> 'w \<Rightarrow>
   (llm_err + chat_response) \<times> 'w" where
  "openai_chat hc getenv oc p req model w =
     (let up = req\<lparr>cq_model := model, cq_stream := False\<rparr>;
          (res, w') = send hc getenv (hp_key_env p)
            (openai_request hc getenv p ''/v1/chat/completions'' (oc_chat oc up False) []) w
      in (on_ok res (\<lambda>a. case oc_response oc (take max_provider_body (ha_body a)) of
            Inl e \<Rightarrow> Inl (LeOther (''decode response: '' @ e)) | Inr r \<Rightarrow> Inr r), w'))"

text \<open>
  The frames of the stream: the \<open>data:\<close> lines up to \<open>[DONE]\<close>, without those that do not decode.
  The second component says whether the end mark was seen.
\<close>

fun openai_frames :: "(string \<Rightarrow> stream_chunk option) \<Rightarrow> string list \<Rightarrow> stream_chunk list \<times> bool" where
  "openai_frames dec [] = ([], False)"
| "openai_frames dec (l # ls) =
     (if \<not> has_prefix ''data: '' l then openai_frames dec ls
      else if drop 6 l = ''[DONE]'' then ([], True)
      else (case dec (drop 6 l) of
              None \<Rightarrow> openai_frames dec ls
            | Some ck \<Rightarrow> (let (cks, finished) = openai_frames dec ls in (ck # cks, finished))))"

definition openai_stream ::
  "'w http_client \<Rightarrow> (string \<Rightarrow> string) \<Rightarrow> openai_codec \<Rightarrow> http_provider \<Rightarrow> chat_request \<Rightarrow> string \<Rightarrow> 'w \<Rightarrow>
   (stream_chunk list \<times> llm_err option) \<times> 'w" where
  "openai_stream hc getenv oc p req model w =
     (let up = req\<lparr>cq_model := model, cq_stream := True\<rparr>;
          (res, w') = send hc getenv (hp_key_env p)
            (openai_request hc getenv p ''/v1/chat/completions'' (oc_chat oc up True) [(''Accept'', ''text/event-stream'')]) w
      in case res of
           Inl e \<Rightarrow> (([], Some e), w')
         | Inr a \<Rightarrow>
             (let (ls, err) = scan_lines (ha_body a) (ha_error a);
                  (cks, finished) = openai_frames (oc_chunk oc) ls
              in ((cks, if finished then None else map_option LeUnreachable err), w')))"

definition openai_embed ::
  "'w http_client \<Rightarrow> (string \<Rightarrow> string) \<Rightarrow> openai_codec \<Rightarrow> http_provider \<Rightarrow> embed_request \<Rightarrow> string \<Rightarrow> 'w \<Rightarrow>
   (llm_err + embed_response) \<times> 'w" where
  "openai_embed hc getenv oc p req model w =
     (let up = req\<lparr>eq_model := model\<rparr>;
          (res, w') = send hc getenv (hp_key_env p)
            (openai_request hc getenv p ''/v1/embeddings'' (oc_embed oc up) []) w
      in (on_ok res (\<lambda>a. case oc_vectors oc (take max_provider_body (ha_body a)) of
            Inl e \<Rightarrow> Inl (LeOther (''decode response: '' @ e)) | Inr r \<Rightarrow> Inr r), w'))"

definition openai_provider ::
  "'w http_client \<Rightarrow> (string \<Rightarrow> string) \<Rightarrow> openai_codec \<Rightarrow> provider_config \<Rightarrow> 'w provider" where
  "openai_provider hc getenv oc cfg =
     (let p = new_openai_provider cfg
      in \<lparr>pv_id = hp_id p, pv_type = hp_type p, pv_name = hp_name p, pv_chat = openai_chat hc getenv oc p,
          pv_stream = openai_stream hc getenv oc p, pv_embed = openai_embed hc getenv oc p\<rparr>)"

definition ollama_provider ::
  "'w http_client \<Rightarrow> (string \<Rightarrow> string) \<Rightarrow> openai_codec \<Rightarrow> provider_config \<Rightarrow> 'w provider" where
  "ollama_provider hc getenv oc cfg = openai_provider hc getenv oc (cfg\<lparr>pc_type := ''ollama''\<rparr>)"

section \<open>Messages of Claude\<close>

text \<open>The tagged union of content blocks; the input of a tool is JSON text.\<close>

datatype claude_block = CbText string | CbToolUse string string string | CbToolResult string string

record claude_message =
  am_role :: string
  am_content :: "claude_block list"

record claude_tool =
  at_name :: string
  at_descr :: string
  at_schema :: string

record claude_request =
  aq_model :: string
  aq_messages :: "claude_message list"
  aq_system :: string
  aq_max_tokens :: int
  aq_temperature :: "f64 option"
  aq_top_p :: "f64 option"
  aq_stop :: "string list"
  aq_stream :: bool
  aq_tools :: "claude_tool list"

definition tool_use_block :: "tool_call \<Rightarrow> claude_block" where
  "tool_use_block c = CbToolUse (tc_id c) (tc_name c) (if tc_args c = [] then ''{}'' else tc_args c)"

definition message_blocks :: "chat_message \<Rightarrow> claude_block list" where
  "message_blocks m =
     (if cm_content m \<noteq> [] then [CbText (cm_content m)] else []) @ map tool_use_block (cm_calls m)"

text \<open>The loop over the messages: the system texts, and the other messages in order.\<close>

fun translate_messages :: "chat_message list \<Rightarrow> string list \<times> claude_message list" where
  "translate_messages [] = ([], [])"
| "translate_messages (m # ms) =
     (let (systems, out) = translate_messages ms
      in if cm_role m = role_system then (cm_content m # systems, out)
         else if cm_role m = role_tool
         then (systems, \<lparr>am_role = ''user'', am_content = [CbToolResult (cm_call_id m) (cm_content m)]\<rparr> # out)
         else (systems, \<lparr>am_role = cm_role m, am_content = message_blocks m\<rparr> # out))"

definition to_anthropic :: "chat_request \<Rightarrow> string \<Rightarrow> claude_request" where
  "to_anthropic req model =
     (let (systems, out) = translate_messages (cq_messages req)
      in \<lparr>aq_model = model, aq_messages = out,
          aq_system = (if systems = [] then [] else join_with [CHR 0x0A, CHR 0x0A] systems),
          aq_max_tokens = (case cq_max_tokens req of Some n \<Rightarrow> n | None \<Rightarrow> 4096),
          aq_temperature = cq_temperature req, aq_top_p = cq_top_p req, aq_stop = cq_stop req, aq_stream = cq_stream req,
          aq_tools = map (\<lambda>t. \<lparr>at_name = mt_name t, at_descr = mt_descr t, at_schema = mt_params t\<rparr>) (cq_tools req)\<rparr>)"

record claude_part =
  rb_type :: string
  rb_text :: string
  rb_id :: string
  rb_name :: string
  rb_input :: string

record claude_usage =
  cu_input :: int
  cu_output :: int

record claude_response =
  ar_id :: string
  ar_content :: "claude_part list"
  ar_stop :: string
  ar_usage :: claude_usage

text \<open>
  \<open>json.Marshal\<close> of raw JSON: nothing is \<open>null\<close>, text that is no JSON an error (the caller drops it and
  keeps the empty string), other text is compacted with the escapes of HTML.
\<close>

fun compact_json :: "bool \<Rightarrow> bool \<Rightarrow> string \<Rightarrow> string" where
  "compact_json instr esc [] = []"
| "compact_json instr esc (c # cs) =
     (if c = CHR ''<'' \<or> c = CHR ''>'' \<or> c = CHR ''&'' then
        [CHR 0x5C, CHR ''u'', CHR ''0'', CHR ''0'', hex_digit (of_char c div 16), hex_digit (of_char c mod 16)] @
          compact_json instr False cs
      else if c = CHR 0xE2 \<and> (case cs of c1 # c2 # _ \<Rightarrow> c1 = CHR 0x80 \<and> (c2 = CHR 0xA8 \<or> c2 = CHR 0xA9) | _ \<Rightarrow> False)
      then [CHR 0x5C, CHR ''u'', CHR ''2'', CHR ''0'', CHR ''2'', hex_digit (of_char (cs ! 1) mod 16)] @
          compact_json instr False (drop 2 cs)
      else if \<not> instr then (if json_space c then compact_json False False cs else c # compact_json (c = CHR 0x22) False cs)
      else if esc then c # compact_json True False cs
      else c # compact_json (c \<noteq> CHR 0x22) (c = CHR 0x5C) cs)"

definition marshal_raw :: "string \<Rightarrow> string" where
  "marshal_raw s = (if s = [] then ''null'' else if json_valid s then compact_json False False s else [])"

definition claude_stop_reason :: "string \<Rightarrow> string" where
  "claude_stop_reason a =
     (if a = ''end_turn'' then ''stop''
      else if a = ''max_tokens'' then ''length''
      else if a = ''tool_use'' then ''tool_calls''
      else if a = ''stop_sequence'' then ''stop''
      else ''stop'')"

fun add_part :: "claude_part \<Rightarrow> chat_message \<Rightarrow> chat_message" where
  "add_part b msg =
     (if rb_type b = ''text'' then msg\<lparr>cm_content := cm_content msg @ rb_text b\<rparr>
      else if rb_type b = ''tool_use''
      then msg\<lparr>cm_calls := cm_calls msg @
             [\<lparr>tc_index = 0, tc_id = rb_id b, tc_type = ''function'', tc_name = rb_name b, tc_args = marshal_raw (rb_input b)\<rparr>]\<rparr>
      else msg)"

definition from_anthropic :: "claude_response \<Rightarrow> string \<Rightarrow> string \<Rightarrow> chat_response" where
  "from_anthropic resp provider model =
     \<lparr>rp_id = ar_id resp, rp_object = ''chat.completion'', rp_created = 0, rp_model = provider @ '':'' @ model,
      rp_choices = [\<lparr>cc_index = 0, cc_message = fold add_part (ar_content resp) (plain_message role_assistant []),
                     cc_finish = claude_stop_reason (ar_stop resp)\<rparr>],
      rp_usage = \<lparr>us_prompt = cu_input (ar_usage resp), us_completion = cu_output (ar_usage resp),
                  us_total = cu_input (ar_usage resp) + cu_output (ar_usage resp)\<rparr>\<rparr>"

section \<open>The event stream of Claude\<close>

text \<open>A decoded event; the parts an event does not have are empty, as are parts that do not decode.\<close>

record claude_delta =
  cd_type :: string
  cd_text :: string
  cd_json :: string
  cd_stop :: string

record claude_event =
  ce_type :: string
  ce_index :: int
  ce_block :: claude_part
  ce_delta :: claude_delta
  ce_message_id :: string
  ce_message_input :: int
  ce_output :: int

record block_buf =
  bb_type :: string
  bb_id :: string
  bb_name :: string
  bb_partial :: string

record claude_state =
  cs_id :: string
  cs_input :: int
  cs_output :: int
  cs_stop :: string
  cs_blocks :: "(int, block_buf) gomap"
  cs_role_sent :: bool
  cs_model :: string

definition claude_chunk :: "int \<Rightarrow> claude_state \<Rightarrow> stream_chunk" where
  "claude_chunk now s = \<lparr>ck_id = cs_id s, ck_object = ''chat.completion.chunk'', ck_created = now, ck_model = cs_model s,
     ck_choices = [\<lparr>sc_index = 0, sc_role = [], sc_content = [], sc_calls = [], sc_finish = None\<rparr>], ck_usage = None\<rparr>"

definition with_choice :: "(stream_choice \<Rightarrow> stream_choice) \<Rightarrow> stream_chunk \<Rightarrow> stream_chunk" where
  "with_choice f ck = ck\<lparr>ck_choices := map f (ck_choices ck)\<rparr>"

text \<open>\<open>handleClaudeEvent\<close>: the chunks an event yields (one at most), and the state after it.\<close>

definition claude_step :: "int \<Rightarrow> claude_event \<Rightarrow> claude_state \<Rightarrow> stream_chunk list \<times> claude_state" where
  "claude_step now ev s =
     (if ce_type ev = ''message_start'' then ([], s\<lparr>cs_id := ce_message_id ev, cs_input := ce_message_input ev\<rparr>)
      else if ce_type ev = ''content_block_start'' then
        (let b = ce_block ev;
             s1 = s\<lparr>cs_blocks := AList.update (ce_index ev)
                \<lparr>bb_type = rb_type b, bb_id = rb_id b, bb_name = rb_name b, bb_partial = []\<rparr> (cs_blocks s)\<rparr>
         in if cs_role_sent s1 then ([], s1)
            else ([with_choice (\<lambda>c. c\<lparr>sc_role := role_assistant\<rparr>) (claude_chunk now s1)], s1\<lparr>cs_role_sent := True\<rparr>))
      else if ce_type ev = ''content_block_delta'' then
        (case map_of (cs_blocks s) (ce_index ev) of
           None \<Rightarrow> ([], s)
         | Some bb \<Rightarrow>
             if cd_type (ce_delta ev) = ''text_delta''
             then ([with_choice (\<lambda>c. c\<lparr>sc_content := cd_text (ce_delta ev)\<rparr>) (claude_chunk now s)], s)
             else if cd_type (ce_delta ev) = ''input_json_delta''
             then ([], s\<lparr>cs_blocks := AList.update (ce_index ev)
                     (bb\<lparr>bb_partial := bb_partial bb @ cd_json (ce_delta ev)\<rparr>) (cs_blocks s)\<rparr>)
             else ([], s))
      else if ce_type ev = ''content_block_stop'' then
        (case map_of (cs_blocks s) (ce_index ev) of
           None \<Rightarrow> ([], s)
         | Some bb \<Rightarrow>
             if bb_type bb \<noteq> ''tool_use'' then ([], s)
             else ([with_choice (\<lambda>c. c\<lparr>sc_calls := [\<lparr>tc_index = 0, tc_id = bb_id bb, tc_type = ''function'',
                       tc_name = bb_name bb, tc_args = bb_partial bb\<rparr>]\<rparr>) (claude_chunk now s)], s))
      else if ce_type ev = ''message_delta'' then
        ([], s\<lparr>cs_stop := (if cd_stop (ce_delta ev) \<noteq> [] then cd_stop (ce_delta ev) else cs_stop s),
               cs_output := (if ce_output ev > 0 then ce_output ev else cs_output s)\<rparr>)
      else if ce_type ev = ''message_stop'' then
        ([(with_choice (\<lambda>c. c\<lparr>sc_finish := Some (claude_stop_reason (cs_stop s))\<rparr>) (claude_chunk now s))
            \<lparr>ck_usage := Some \<lparr>us_prompt = cs_input s, us_completion = cs_output s, us_total = cs_input s + cs_output s\<rparr>\<rparr>], s)
      else ([], s))"

text \<open>
  \<open>ConvertClaudeStream\<close>: an empty line hands the data lines collected so far to the decoder, if an
  event line came before; frames that do not decode are skipped. \<open>now\<close> is the clock.
\<close>

definition flush_event ::
  "(string \<Rightarrow> claude_event option) \<Rightarrow> int \<Rightarrow> string \<Rightarrow> string list \<Rightarrow> claude_state \<Rightarrow> stream_chunk list \<times> claude_state" where
  "flush_event dec now event data s =
     (if event = [] \<or> data = [] then ([], s)
      else (case dec (join_with [CHR 0x0A] data) of None \<Rightarrow> ([], s) | Some ev \<Rightarrow> claude_step now ev s))"

fun claude_lines ::
  "(string \<Rightarrow> claude_event option) \<Rightarrow> int \<Rightarrow> string list \<Rightarrow> string \<Rightarrow> string list \<Rightarrow> claude_state \<Rightarrow> stream_chunk list" where
  "claude_lines dec now [] event data s = fst (flush_event dec now event data s)"
| "claude_lines dec now (l # ls) event data s =
     (if l = [] then (let (cks, s1) = flush_event dec now event data s in cks @ claude_lines dec now ls [] [] s1)
      else if has_prefix ''event: '' l then claude_lines dec now ls (drop 7 l) data s
      else if has_prefix ''data: '' l then claude_lines dec now ls event (data @ [drop 6 l]) s
      else claude_lines dec now ls event data s)"

definition new_claude_state :: "string \<Rightarrow> string \<Rightarrow> claude_state" where
  "new_claude_state provider model = \<lparr>cs_id = [], cs_input = 0, cs_output = 0, cs_stop = [], cs_blocks = [],
     cs_role_sent = False, cs_model = provider @ '':'' @ model\<rparr>"

definition convert_claude_stream ::
  "(string \<Rightarrow> claude_event option) \<Rightarrow> int \<Rightarrow> string \<Rightarrow> string option \<Rightarrow> string \<Rightarrow> string \<Rightarrow> stream_chunk list \<times> llm_err option" where
  "convert_claude_stream dec now body rerr provider model =
     (let (ls, err) = scan_lines body rerr
      in (claude_lines dec now ls [] [] (new_claude_state provider model), map_option LeUnreachable err))"

section \<open>The provider for Claude\<close>

record claude_codec =
  kc_request :: "claude_request \<Rightarrow> string result"
  kc_response :: "string \<Rightarrow> claude_response result"
  kc_event :: "string \<Rightarrow> claude_event option"

definition claude_key :: "(string \<Rightarrow> string) \<Rightarrow> http_provider \<Rightarrow> llm_err + string" where
  "claude_key getenv p =
     (if hp_key_env p = [] then Inl (LeOther (''claude provider '' @ quote (hp_name p) @ '' requires api_key_env''))
      else if getenv (hp_key_env p) = [] then Inl (LeOther (''api key env '' @ quote (hp_key_env p) @ '' is empty''))
      else Inr (getenv (hp_key_env p)))"

definition claude_http_request ::
  "'w http_client \<Rightarrow> (string \<Rightarrow> string) \<Rightarrow> http_provider \<Rightarrow> string result \<Rightarrow> bool \<Rightarrow> llm_err + http_request" where
  "claude_http_request hc getenv p body stream = (case body of
       Inl e \<Rightarrow> Inl (LeOther (''marshal: '' @ e))
     | Inr b \<Rightarrow>
         (case hc_check hc (hp_base p @ ''/v1/messages'') of
            Some e \<Rightarrow> Inl (LeOther e)
          | None \<Rightarrow>
              on_ok (claude_key getenv p) (\<lambda>key.
                Inr \<lparr>hr_url = hp_base p @ ''/v1/messages'',
                     hr_headers = [(''Content-Type'', ''application/json''), (''anthropic-version'', ''2023-06-01''), (''x-api-key'', key)] @
                       (if stream then [(''Accept'', ''text/event-stream'')] else []),
                     hr_body = b\<rparr>)))"

definition claude_chat ::
  "'w http_client \<Rightarrow> (string \<Rightarrow> string) \<Rightarrow> claude_codec \<Rightarrow> http_provider \<Rightarrow> chat_request \<Rightarrow> string \<Rightarrow> 'w \<Rightarrow>
   (llm_err + chat_response) \<times> 'w" where
  "claude_chat hc getenv kc p req model w =
     (let (res, w') = send hc getenv (hp_key_env p)
            (claude_http_request hc getenv p (kc_request kc ((to_anthropic req model)\<lparr>aq_stream := False\<rparr>)) False) w
      in (on_ok res (\<lambda>a. case kc_response kc (take max_provider_body (ha_body a)) of
            Inl e \<Rightarrow> Inl (LeOther (''decode anthropic response: '' @ e))
          | Inr r \<Rightarrow> Inr (from_anthropic r (hp_name p) model)), w'))"

definition claude_stream ::
  "'w http_client \<Rightarrow> (string \<Rightarrow> string) \<Rightarrow> claude_codec \<Rightarrow> int \<Rightarrow> http_provider \<Rightarrow> chat_request \<Rightarrow> string \<Rightarrow> 'w \<Rightarrow>
   (stream_chunk list \<times> llm_err option) \<times> 'w" where
  "claude_stream hc getenv kc now p req model w =
     (let (res, w') = send hc getenv (hp_key_env p)
            (claude_http_request hc getenv p (kc_request kc ((to_anthropic req model)\<lparr>aq_stream := True\<rparr>)) True) w
      in case res of
           Inl e \<Rightarrow> (([], Some e), w')
         | Inr a \<Rightarrow> (convert_claude_stream (kc_event kc) now (ha_body a) (ha_error a) (hp_name p) model, w'))"

definition claude_provider ::
  "'w http_client \<Rightarrow> (string \<Rightarrow> string) \<Rightarrow> claude_codec \<Rightarrow> int \<Rightarrow> provider_config \<Rightarrow> 'w provider" where
  "claude_provider hc getenv kc now cfg =
     (let p = \<lparr>hp_id = pc_id cfg, hp_name = pc_name cfg, hp_type = ''claude'', hp_base = trim_slashes (pc_base_url cfg),
               hp_key_env = pc_key_env cfg\<rparr>
      in \<lparr>pv_id = hp_id p, pv_type = hp_type p, pv_name = hp_name p, pv_chat = claude_chat hc getenv kc p,
          pv_stream = claude_stream hc getenv kc now p, pv_embed = (\<lambda>_ _ w. (Inl LeUnsupported, w))\<rparr>)"

end
