(* ===== verification/ClaudeStream.thy ===== *)
theory ClaudeStream
  imports Providers AgentStream
begin

text \<open>
  What the agent makes of a stream of Claude: the conversion of \<open>claude_stream.go\<close> followed by the
  accumulator of \<open>src/internal/agent/stream_accum.go\<close>, against the message the stream encodes.
\<close>

section \<open>Streams\<close>

text \<open>The events of a message: each block starts, comes in fragments of its text or its input, and stops.\<close>

definition blank_part :: claude_part where
  "blank_part = \<lparr>rb_type = [], rb_text = [], rb_id = [], rb_name = [], rb_input = []\<rparr>"

definition blank_delta :: claude_delta where
  "blank_delta = \<lparr>cd_type = [], cd_text = [], cd_json = [], cd_stop = []\<rparr>"

definition blank_event :: "string \<Rightarrow> claude_event" where
  "blank_event t = \<lparr>ce_type = t, ce_index = 0, ce_block = blank_part, ce_delta = blank_delta, ce_message_id = [],
     ce_message_input = 0, ce_output = 0\<rparr>"

definition fragment_event :: "int \<Rightarrow> claude_part \<Rightarrow> string \<Rightarrow> claude_event" where
  "fragment_event i b f = (blank_event ''content_block_delta'')\<lparr>ce_index := i, ce_delta :=
     (if rb_type b = ''text'' then blank_delta\<lparr>cd_type := ''text_delta'', cd_text := f\<rparr>
      else blank_delta\<lparr>cd_type := ''input_json_delta'', cd_json := f\<rparr>)\<rparr>"

definition part_events :: "int \<Rightarrow> claude_part \<times> string list \<Rightarrow> claude_event list" where
  "part_events i = (\<lambda>(b, fs).
     (blank_event ''content_block_start'')\<lparr>ce_index := i, ce_block := b\<lparr>rb_text := [], rb_input := []\<rparr>\<rparr> #
     map (fragment_event i b) fs @ [(blank_event ''content_block_stop'')\<lparr>ce_index := i\<rparr>])"

fun parts_events :: "int \<Rightarrow> (claude_part \<times> string list) list \<Rightarrow> claude_event list" where
  "parts_events i [] = []"
| "parts_events i (p # ps) = part_events i p @ parts_events (i + 1) ps"

definition message_events :: "string \<Rightarrow> string \<Rightarrow> claude_usage \<Rightarrow> (claude_part \<times> string list) list \<Rightarrow> claude_event list" where
  "message_events i stop u ps =
     (blank_event ''message_start'')\<lparr>ce_message_id := i, ce_message_input := cu_input u\<rparr> # parts_events 0 ps @
     [(blank_event ''message_delta'')\<lparr>ce_delta := blank_delta\<lparr>cd_stop := stop\<rparr>, ce_output := cu_output u\<rparr>,
      blank_event ''message_stop'']"

text \<open>A block of text or of a tool, with fragments that make it up.\<close>

fun proper_part :: "claude_part \<times> string list \<Rightarrow> bool" where
  "proper_part (b, fs) \<longleftrightarrow>
     rb_type b = ''text'' \<and> concat fs = rb_text b \<or> rb_type b = ''tool_use'' \<and> concat fs = rb_input b"

text \<open>The frames on the wire.\<close>

definition event_lines :: "(claude_event \<Rightarrow> string) \<Rightarrow> claude_event \<Rightarrow> string list" where
  "event_lines enc ev = [''event: '' @ ce_type ev, ''data: '' @ enc ev, []]"

definition stream_body :: "(claude_event \<Rightarrow> string) \<Rightarrow> claude_event list \<Rightarrow> string" where
  "stream_body enc evs = concat (map (\<lambda>l. l @ [CHR 0x0A]) (concat (map (event_lines enc) evs)))"

text \<open>An encoding of events as the lines of a frame, which the decoder reads back.\<close>

definition wire_codec :: "(claude_event \<Rightarrow> string) \<Rightarrow> (string \<Rightarrow> claude_event option) \<Rightarrow> claude_event list \<Rightarrow> bool" where
  "wire_codec enc dec evs \<longleftrightarrow> (\<forall>ev \<in> set evs. dec (enc ev) = Some ev \<and> CHR 0x0A \<notin> set (enc ev) \<and> CHR 0x0D \<notin> set (enc ev) \<and>
     length (enc ev) + 6 < max_line)"

section \<open>From the bytes to the events\<close>

lemma split_on_lines:
  "\<forall>l \<in> set ls. d \<notin> set l \<Longrightarrow> split_on d (concat (map (\<lambda>l. l @ [d]) ls)) = ls @ [[]]"
  by (induction ls) (simp_all add: split_on_append)

lemma drop_cr_id: "CHR 0x0D \<notin> set l \<Longrightarrow> drop_cr l = l"
  by (auto simp: drop_cr_def dest: last_in_set)

lemma scan_lines_lines:
  assumes "\<forall>l \<in> set ls. CHR 0x0A \<notin> set l \<and> CHR 0x0D \<notin> set l \<and> length l < max_line"
  shows "scan_lines (concat (map (\<lambda>l. l @ [CHR 0x0A]) ls)) err = (ls, err)"
proof -
  have "map drop_cr ls = ls"
    using assms by (intro map_idI) (simp add: drop_cr_id)
  moreover have "takeWhile (\<lambda>l. length l < max_line) ls = ls"
    using assms by simp
  ultimately show ?thesis
    using split_on_lines [of ls "CHR 0x0A"] assms
    by (simp add: scan_lines_def Let_def takeWhile_eq_all_conv [THEN iffD2])
qed

fun claude_run :: "int \<Rightarrow> claude_event list \<Rightarrow> claude_state \<Rightarrow> stream_chunk list \<times> claude_state" where
  "claude_run now [] s = ([], s)"
| "claude_run now (ev # evs) s =
     (let (c, s1) = claude_step now ev s; (cs, s2) = claude_run now evs s1 in (c @ cs, s2))"

lemma claude_run_append:
  "claude_run now (xs @ ys) s =
     (let (c, s1) = claude_run now xs s; (cs, s2) = claude_run now ys s1 in (c @ cs, s2))"
  by (induction xs arbitrary: s) (simp_all split: prod.split)

lemma claude_lines_frame:
  assumes "dec (enc ev) = Some ev" "ce_type ev \<noteq> []"
  shows "claude_lines dec now (event_lines enc ev @ ls) [] [] s =
    (let (cks, s1) = claude_step now ev s in cks @ claude_lines dec now ls [] [] s1)"
  using assms by (simp add: event_lines_def flush_event_def has_prefix_def)

lemma claude_lines_events:
  assumes "wire_codec enc dec evs" "\<forall>ev \<in> set evs. ce_type ev \<noteq> []"
  shows "claude_lines dec now (concat (map (event_lines enc) evs)) [] [] s = fst (claude_run now evs s)"
  using assms
proof (induction evs arbitrary: s)
  case Nil
  then show ?case by (simp add: flush_event_def)
next
  case (Cons ev evs)
  then have "claude_lines dec now (concat (map (event_lines enc) evs)) [] [] s1 = fst (claude_run now evs s1)" for s1
    by (simp add: wire_codec_def)
  moreover have "dec (enc ev) = Some ev" "ce_type ev \<noteq> []"
    using Cons.prems by (simp_all add: wire_codec_def)
  ultimately show ?case
    by (simp add: claude_lines_frame split: prod.split)
qed

section \<open>From the events to the message\<close>

text \<open>The accumulator on the chunks of a stream, and on the parts of the message.\<close>

fun accum_all :: "stream_chunk list \<Rightarrow> stream_accum \<Rightarrow> stream_accum option" where
  "accum_all [] a = Some a"
| "accum_all (ck # cks) a = (case accum_apply ck a of None \<Rightarrow> None | Some (a', _) \<Rightarrow> accum_all cks a')"

lemma accum_all_append:
  "accum_all (xs @ ys) a = (case accum_all xs a of None \<Rightarrow> None | Some a' \<Rightarrow> accum_all ys a')"
  by (induction xs arbitrary: a) (auto split: option.splits)

text \<open>Every tool of the message goes into the call with index zero.\<close>

definition part_delta :: "claude_part \<Rightarrow> tool_call" where
  "part_delta b = \<lparr>tc_index = 0, tc_id = rb_id b, tc_type = ''function'', tc_name = rb_name b, tc_args = rb_input b\<rparr>"

definition add_streamed :: "claude_part \<Rightarrow> stream_accum \<Rightarrow> stream_accum" where
  "add_streamed b a =
     (if rb_type b = ''text'' then a\<lparr>sa_content := sa_content a @ rb_text b\<rparr>
      else a\<lparr>sa_calls := (case sa_calls a of [] \<Rightarrow> [merge_call fresh_call (part_delta b)]
                         | c # cs \<Rightarrow> merge_call c (part_delta b) # cs)\<rparr>)"

lemma apply_call_zero:
  "apply_call (part_delta b) calls = Some (case calls of [] \<Rightarrow> [merge_call fresh_call (part_delta b)]
     | c # cs \<Rightarrow> merge_call c (part_delta b) # cs)"
  by (simp add: apply_call_def part_delta_def split: list.split)

lemma accum_chunk:
  "accum_apply (claude_chunk now s) a = Some (a, [])"
  "accum_apply (with_choice (\<lambda>c. c\<lparr>sc_role := r\<rparr>) (claude_chunk now s)) a = Some (a, [])"
  "accum_apply (with_choice (\<lambda>c. c\<lparr>sc_content := t\<rparr>) (claude_chunk now s)) a = Some (a\<lparr>sa_content := sa_content a @ t\<rparr>, t)"
  "accum_apply (with_choice (\<lambda>c. c\<lparr>sc_calls := [d]\<rparr>) (claude_chunk now s)) a =
     (case apply_call d (sa_calls a) of None \<Rightarrow> None | Some calls \<Rightarrow> Some (a\<lparr>sa_calls := calls\<rparr>, []))"
  by (simp_all add: accum_apply_def with_choice_def claude_chunk_def split: option.split)

text \<open>The fragments of a text are yielded one by one, those of an input are kept.\<close>

lemma text_fragments:
  assumes "rb_type b = ''text''" "map_of (cs_blocks s) i = Some bb"
  shows "\<exists>cks. claude_run now (map (fragment_event i b) fs) s = (cks, s) \<and>
    accum_all cks a = Some (a\<lparr>sa_content := sa_content a @ concat fs\<rparr>)"
proof (induction fs arbitrary: a)
  case (Cons f fs)
  have "claude_step now (fragment_event i b f) s =
      ([with_choice (\<lambda>c. c\<lparr>sc_content := f\<rparr>) (claude_chunk now s)], s)"
    using assms by (simp add: claude_step_def fragment_event_def blank_event_def blank_delta_def)
  then show ?case
    using Cons [of "a\<lparr>sa_content := sa_content a @ f\<rparr>"] by (auto simp: accum_chunk)
qed simp

lemma input_fragments:
  assumes "rb_type b = ''tool_use''" "map_of (cs_blocks s) i = Some bb"
  shows "\<exists>s'. claude_run now (map (fragment_event i b) fs) s = ([], s') \<and>
    map_of (cs_blocks s') i = Some (bb\<lparr>bb_partial := bb_partial bb @ concat fs\<rparr>) \<and>
    cs_stop s' = cs_stop s \<and> cs_role_sent s' = cs_role_sent s"
  using assms(2)
proof (induction fs arbitrary: s bb)
  case (Cons f fs)
  let ?bb = "bb\<lparr>bb_partial := bb_partial bb @ f\<rparr>"
  let ?s = "s\<lparr>cs_blocks := AList.update i ?bb (cs_blocks s)\<rparr>"
  have "claude_step now (fragment_event i b f) s = ([], ?s)"
    using assms(1) Cons.prems by (simp add: claude_step_def fragment_event_def blank_event_def blank_delta_def)
  then show ?case
    using Cons.IH [of ?s ?bb] by auto
qed simp

lemma part_accum:
  assumes "proper_part (b, fs)"
  shows "\<exists>cks s'. claude_run now (part_events i (b, fs)) s = (cks, s') \<and> cs_stop s' = cs_stop s \<and>
    accum_all cks a = Some (add_streamed b a)"
proof -
  let ?bb = "\<lparr>bb_type = rb_type b, bb_id = rb_id b, bb_name = rb_name b, bb_partial = []\<rparr>"
  let ?start = "(blank_event ''content_block_start'')\<lparr>ce_index := i, ce_block := b\<lparr>rb_text := [], rb_input := []\<rparr>\<rparr>"
  let ?stop = "(blank_event ''content_block_stop'')\<lparr>ce_index := i\<rparr>"
  obtain c1 s1 where start: "claude_step now ?start s = (c1, s1)" "map_of (cs_blocks s1) i = Some ?bb"
      "cs_stop s1 = cs_stop s" "accum_all c1 a = Some a"
    by (cases "cs_role_sent s") (auto simp: claude_step_def blank_event_def accum_chunk Let_def)
  have stop: "claude_step now ?stop s2 =
      (if bb_type bb \<noteq> ''tool_use'' then ([], s2)
       else ([with_choice (\<lambda>c. c\<lparr>sc_calls := [\<lparr>tc_index = 0, tc_id = bb_id bb, tc_type = ''function'',
                       tc_name = bb_name bb, tc_args = bb_partial bb\<rparr>]\<rparr>) (claude_chunk now s2)], s2))"
    if "map_of (cs_blocks s2) i = Some bb" for s2 bb
    using that by (simp add: claude_step_def blank_event_def)
  show ?thesis
  proof (cases "rb_type b = ''text''")
    case True
    obtain c2 where "claude_run now (map (fragment_event i b) fs) s1 = (c2, s1)"
        "accum_all c2 a = Some (a\<lparr>sa_content := sa_content a @ concat fs\<rparr>)"
      using text_fragments [OF True start(2)] by blast
    then show ?thesis
      using True assms start stop [OF start(2)]
      by (simp add: part_events_def claude_run_append accum_all_append add_streamed_def)
  next
    case False
    then have tool: "rb_type b = ''tool_use''" "concat fs = rb_input b"
      using assms by auto
    obtain s2 where s2: "claude_run now (map (fragment_event i b) fs) s1 = ([], s2)"
        "map_of (cs_blocks s2) i = Some (?bb\<lparr>bb_partial := rb_input b\<rparr>)" "cs_stop s2 = cs_stop s1"
      using input_fragments [OF tool(1) start(2)] tool(2) by fastforce
    have "claude_step now ?stop s2 = ([with_choice (\<lambda>c. c\<lparr>sc_calls := [part_delta b]\<rparr>) (claude_chunk now s2)], s2)"
      using stop [OF s2(2)] tool by (simp add: part_delta_def)
    then show ?thesis
      using False start s2
      by (simp add: part_events_def claude_run_append accum_all_append accum_chunk apply_call_zero add_streamed_def)
  qed
qed

lemma parts_accum:
  "list_all proper_part ps \<Longrightarrow>
   \<exists>cks s'. claude_run now (parts_events i ps) s = (cks, s') \<and> cs_stop s' = cs_stop s \<and>
     accum_all cks a = Some (fold (\<lambda>p. add_streamed (fst p)) ps a)"
proof (induction ps arbitrary: i s a)
  case (Cons p ps)
  obtain b fs where p: "p = (b, fs)"
    by (cases p)
  obtain c1 s1 where 1: "claude_run now (part_events i p) s = (c1, s1)" "cs_stop s1 = cs_stop s"
      "accum_all c1 a = Some (add_streamed b a)"
    using part_accum [of b fs now i s a] Cons.prems p by auto
  obtain c2 s2 where "claude_run now (parts_events (i + 1) ps) s1 = (c2, s2)" "cs_stop s2 = cs_stop s1"
      "accum_all c2 (add_streamed b a) = Some (fold (\<lambda>p. add_streamed (fst p)) ps (add_streamed b a))"
    using Cons.IH [of "i + 1" s1 "add_streamed b a"] Cons.prems by auto
  then show ?case
    using 1 by (simp add: claude_run_append accum_all_append p)
qed simp

section \<open>Streamed and whole messages\<close>

abbreviation texts_of :: "claude_part list \<Rightarrow> claude_part list" where
  "texts_of bs \<equiv> filter (\<lambda>b. rb_type b = ''text'') bs"

abbreviation tools_of :: "claude_part list \<Rightarrow> claude_part list" where
  "tools_of bs \<equiv> filter (\<lambda>b. rb_type b = ''tool_use'') bs"

lemma fold_add_streamed:
  "list_all proper_part ps \<Longrightarrow> fold (\<lambda>p. add_streamed (fst p)) ps a =
     a\<lparr>sa_content := sa_content a @ concat (map rb_text (texts_of (map fst ps))),
       sa_calls := (case sa_calls a of
           [] \<Rightarrow> if tools_of (map fst ps) = [] then [] else [foldl merge_call fresh_call (map part_delta (tools_of (map fst ps)))]
         | c # cs \<Rightarrow> foldl merge_call c (map part_delta (tools_of (map fst ps))) # cs)\<rparr>"
proof (induction ps arbitrary: a)
  case Nil
  then show ?case by (simp split: list.split)
next
  case (Cons p ps)
  obtain b fs where p: "p = (b, fs)"
    by (cases p)
  have "rb_type b = ''text'' \<or> rb_type b = ''tool_use''"
    using Cons.prems p by auto
  then show ?case
    using Cons by (auto simp: p add_streamed_def split: list.split)
qed

lemma fold_add_part:
  "fold add_part bs m =
     m\<lparr>cm_content := cm_content m @ concat (map rb_text (texts_of bs)),
       cm_calls := cm_calls m @ map (\<lambda>b. (part_delta b)\<lparr>tc_args := marshal_raw (rb_input b)\<rparr>) (tools_of bs)\<rparr>"
  by (induction bs arbitrary: m) (auto simp: part_delta_def)

lemma part_events_types: "ev \<in> set (parts_events i ps) \<Longrightarrow> ce_type ev \<noteq> []"
  by (induction ps arbitrary: i) (auto simp: part_events_def fragment_event_def blank_event_def)

lemma merged_tools:
  "foldl merge_call fresh_call (map part_delta ts) =
     \<lparr>tc_index = 0, tc_id = last_text (map rb_id ts), tc_type = ''function'', tc_name = last_text (map rb_name ts),
      tc_args = concat (map rb_input ts)\<rparr>"
proof -
  have "foldl merge_call c (map part_delta ts) =
      c\<lparr>tc_id := foldl (\<lambda>a s. if s \<noteq> [] then s else a) (tc_id c) (map rb_id ts), tc_type := ''function'',
        tc_name := foldl (\<lambda>a s. if s \<noteq> [] then s else a) (tc_name c) (map rb_name ts),
        tc_args := tc_args c @ concat (map rb_input ts)\<rparr>" if "tc_type c = ''function''" for c
    using that by (induction ts arbitrary: c) (simp_all add: merge_call_def part_delta_def)
  then show ?thesis
    by (simp add: fresh_call_def last_text_def)
qed

text \<open>The calls of the streamed message against those of the whole one.\<close>

lemma merged_calls:
  fixes ts :: "claude_part list"
  defines "calls \<equiv> map (\<lambda>b. (part_delta b)\<lparr>tc_args := marshal_raw (rb_input b)\<rparr>) ts"
  shows "(length calls \<le> 1 \<and> (\<forall>b \<in> set ts. marshal_raw (rb_input b) = rb_input b) \<longrightarrow>
       (if ts = [] then [] else [foldl merge_call fresh_call (map part_delta ts)]) = calls) \<and>
    (1 < length calls \<longrightarrow>
       (if ts = [] then [] else [foldl merge_call fresh_call (map part_delta ts)]) =
         [\<lparr>tc_index = 0, tc_id = last_text (map tc_id calls), tc_type = ''function'',
           tc_name = last_text (map tc_name calls), tc_args = concat (map rb_input ts)\<rparr>])"
proof -
  have fields: "map tc_id calls = map rb_id ts" "map tc_name calls = map rb_name ts"
    by (simp_all add: calls_def part_delta_def)
  show ?thesis
    unfolding merged_tools fields
    by (cases ts; cases "tl ts") (auto simp: calls_def part_delta_def last_text_def)
qed

lemma part_events_lines:
  "ev \<in> set (parts_events i ps) \<Longrightarrow> CHR 0x0A \<notin> set (ce_type ev) \<and> CHR 0x0D \<notin> set (ce_type ev) \<and> length (ce_type ev) \<le> 30"
  by (induction ps arbitrary: i) (auto simp: part_events_def fragment_event_def blank_event_def)

lemma message_events_lines:
  "ev \<in> set (message_events i stop u ps) \<Longrightarrow> CHR 0x0A \<notin> set (ce_type ev) \<and> CHR 0x0D \<notin> set (ce_type ev) \<and> length (ce_type ev) \<le> 30"
  by (auto simp: message_events_def blank_event_def dest: part_events_lines)

lemma message_events_types: "ev \<in> set (message_events i stop u ps) \<Longrightarrow> ce_type ev \<noteq> []"
  by (auto simp: message_events_def blank_event_def dest: part_events_types)

lemma claude_stop_empty: "claude_stop_reason [] = ''stop''"
  by (simp add: claude_stop_reason_def)

lemma message_run:
  assumes "list_all proper_part ps" "cs_stop s = []"
  shows "accum_all (fst (claude_run now (message_events i stop u ps) s)) a =
    Some ((fold (\<lambda>p. add_streamed (fst p)) ps a)\<lparr>sa_finish := claude_stop_reason stop\<rparr>)"
proof -
  let ?start = "(blank_event ''message_start'')\<lparr>ce_message_id := i, ce_message_input := cu_input u\<rparr>"
  let ?delta = "(blank_event ''message_delta'')\<lparr>ce_delta := blank_delta\<lparr>cd_stop := stop\<rparr>, ce_output := cu_output u\<rparr>"
  obtain s1 where start: "claude_step now ?start s = ([], s1)" "cs_stop s1 = []"
    using assms(2) by (simp add: claude_step_def blank_event_def)
  obtain c2 s2 where parts: "claude_run now (parts_events 0 ps) s1 = (c2, s2)" "cs_stop s2 = []"
      "accum_all c2 a = Some (fold (\<lambda>p. add_streamed (fst p)) ps a)"
    using parts_accum [OF assms(1), of now 0 s1 a] start(2) by auto
  obtain s3 where delta: "claude_step now ?delta s2 = ([], s3)" "cs_stop s3 = stop"
    using parts(2) by (simp add: claude_step_def blank_event_def blank_delta_def)
  have "accum_apply ck a' = Some (a'\<lparr>sa_finish := claude_stop_reason stop\<rparr>, [])"
    if "claude_step now (blank_event ''message_stop'') s3 = ([ck], s4)" for ck s4 a'
    using that delta(2)
    by (auto simp: claude_step_def blank_event_def accum_apply_def with_choice_def claude_chunk_def claude_stop_reason_def)
  moreover obtain ck s4 where "claude_step now (blank_event ''message_stop'') s3 = ([ck], s4)"
    by (simp add: claude_step_def blank_event_def)
  ultimately show ?thesis
    using start parts delta
    by (simp add: message_events_def claude_run_append accum_all_append)
qed


text \<open>Two tools in one message: the agent sees a single call with both inputs.\<close>

definition demo_part :: "string \<Rightarrow> claude_part" where
  "demo_part i = \<lparr>rb_type = ''tool_use'', rb_text = [], rb_id = i, rb_name = ''grep'', rb_input = ''{}''\<rparr>"

text \<open>A codec for the events of one stream: an event is sent as its position, in unary.\<close>

definition position_enc :: "claude_event list \<Rightarrow> claude_event \<Rightarrow> string" where
  "position_enc evs ev = replicate (length (takeWhile (\<lambda>x. x \<noteq> ev) evs)) (CHR ''x'')"

definition position_dec :: "claude_event list \<Rightarrow> string \<Rightarrow> claude_event option" where
  "position_dec evs s = (if length s < length evs then Some (evs ! length s) else None)"

lemma position_codec:
  assumes "length evs + 6 < max_line"
  shows "wire_codec (position_enc evs) (position_dec evs) evs"
  unfolding wire_codec_def
proof
  fix ev
  assume "ev \<in> set evs"
  then obtain ys zs where split: "evs = ys @ ev # zs" "ev \<notin> set ys"
    by (meson split_list_first)
  moreover have "takeWhile (\<lambda>x. x \<noteq> ev) (ys @ ev # zs) = ys"
    using split(2) by (induction ys) auto
  ultimately show "position_dec evs (position_enc evs ev) = Some ev \<and> CHR 0x0A \<notin> set (position_enc evs ev) \<and>
      CHR 0x0D \<notin> set (position_enc evs ev) \<and> length (position_enc evs ev) + 6 < max_line"
    using assms by (auto simp: position_dec_def position_enc_def)
qed


end
