(* ===== verification/AgentBus.thy ===== *)
theory AgentBus
  imports AgentRuns "HOL-Library.Sublist"
begin

text \<open>
  The agent on the tool bus: the world of a run whose tools are those of \<open>src/internal/toolbus\<close>. A
  relation between the world and the log of a run, kept by each of the three interfaces, is kept by
  the whole run (\<open>agent_frame\<close>); on the bus, every recorded invocation is a call of the run that
  passed the schema of its tool.
\<close>

section \<open>What a run keeps\<close>

locale agent_frame =
  fixes wd :: "'w agent_world" and I :: "'w \<Rightarrow> agent_obs list \<Rightarrow> bool" and A :: "string set"
  assumes stream: "I w log \<Longrightarrow> aw_stream wd rc req w = (r, w') \<Longrightarrow> I w' (AoRequest req # log)"
    and invoke: "I w log \<Longrightarrow> name \<in> A \<Longrightarrow> json_valid args \<Longrightarrow> aw_invoke wd rc name args w = (res, w') \<Longrightarrow>
      I w' (AoInvoke name args # log)"
    and yield: "I w log \<Longrightarrow> aw_yield wd ev w = (e, w') \<Longrightarrow> I w' (AoEvent ev # log)"
    and audit: "I w log \<Longrightarrow> I w (AoAudit a t m # log)"
begin

definition keeps :: "'w agent_st \<Rightarrow> bool" where
  "keeps st \<longleftrightarrow> I (as_world st) (as_log st)"

lemma do_yield_keeps: "keeps st \<Longrightarrow> do_yield wd ev st = (e, st') \<Longrightarrow> keeps st'"
  using yield by (auto simp: keeps_def do_yield_def log_ao_def split: prod.splits)

lemma yield_ignored_keeps: "keeps st \<Longrightarrow> keeps (yield_ignored wd ev st)"
  by (metis do_yield_keeps prod.collapse yield_ignored_def)

lemma audit_keeps: "keeps st \<Longrightarrow> keeps (audit_if en c (AoAudit a t m) st)"
  using audit by (simp add: keeps_def audit_if_def log_ao_def)

lemma run_tool_call_keeps:
  assumes "keeps st" "set allow \<subseteq> A" "run_tool_call en wd rc step allow c st = (msg, st')"
  shows "keeps st'"
proof (cases "tc_args c = [] \<or> \<not> json_valid (tc_args c) \<or> tc_name c \<notin> set allow")
  case True
  then obtain m where "(msg, st') = refuse_call wd step c m st"
    using run_tool_call_refused [of c allow en wd rc step st] assms(3) by auto
  then show ?thesis
    using assms(1) by (auto simp: refuse_call_def intro!: yield_ignored_keeps)
next
  case False
  let ?st1 = "yield_ignored wd (call_event step c) st"
  obtain res w where call: "aw_invoke wd rc (tc_name c) (tc_args c) (as_world ?st1) = (res, w)"
    by (metis surj_pair)
  have "I w (AoInvoke (tc_name c) (tc_args c) # as_log ?st1)"
    using invoke [OF _ _ _ call] yield_ignored_keeps [OF assms(1)] False assms(2) by (auto simp: keeps_def)
  then have "keeps (log_ao (AoInvoke (tc_name c) (tc_args c)) (?st1\<lparr>as_world := w\<rparr>))"
    by (simp add: keeps_def log_ao_def)
  moreover have "\<exists>ev. st' = yield_ignored wd ev (log_ao (AoInvoke (tc_name c) (tc_args c)) (?st1\<lparr>as_world := w\<rparr>))"
    using assms(3) False call by (auto simp: run_tool_call_def Let_def split: sum.splits prod.splits invoke_err.splits)
  ultimately show ?thesis
    by (auto intro: yield_ignored_keeps)
qed

lemma run_tool_calls_keeps:
  "keeps st \<Longrightarrow> set allow \<subseteq> A \<Longrightarrow> run_tool_calls en wd rc step allow cs st = (ms, st') \<Longrightarrow> keeps st'"
  by (induction cs arbitrary: st ms) (fastforce split: prod.splits dest: run_tool_call_keeps)+

lemma stream_chunks_keeps:
  "keeps st \<Longrightarrow> stream_chunks wd step cks a st = (fin, a', st') \<Longrightarrow> keeps st'"
  by (induction cks arbitrary: a st)
    (auto split: option.splits prod.splits if_splits dest: do_yield_keeps)

lemma call_stream_keeps:
  assumes "keeps st" "call_stream wd rc step req st = (fin, a, st')"
  shows "keeps st'"
proof -
  obtain cks err w where call: "aw_stream wd rc req (as_world st) = ((cks, err), w)"
    by (metis surj_pair)
  have "keeps (log_ao (AoRequest req) (st\<lparr>as_world := w\<rparr>))"
    using stream [OF _ call] assms(1) by (simp add: keeps_def log_ao_def)
  then show ?thesis
    using assms(2) call by (auto simp: call_stream_def split: prod.splits dest: stream_chunks_keeps)
qed

lemma after_message_keeps:
  assumes "keeps st" "set allow \<subseteq> A" "after_message en wd rc step allow msgs asst finish st = (out, st')"
  shows "keeps st'"
proof (cases "finish = ''tool_calls'' \<and> cm_calls asst \<noteq> []")
  case True
  then show ?thesis
    using assms by (auto simp: after_message_def split: prod.splits dest: run_tool_calls_keeps)
next
  case False
  then show ?thesis
    using assms by (auto simp: after_message_def split: prod.splits option.splits dest: do_yield_keeps)
qed

lemma agent_step_keeps:
  assumes "keeps st" "set allow \<subseteq> A" "agent_step en wd rc inp tools allow step msgs st = (out, st')"
  shows "keeps st'"
proof -
  obtain fin a st1 where call: "call_stream wd rc step (chat_request_of (rq_model inp) msgs tools) st = (fin, a, st1)"
    by (metis surj_pair)
  note k1 = call_stream_keeps [OF assms(1) call]
  show ?thesis
  proof (cases fin)
    case StreamDone
    then show ?thesis
      using assms(2,3) by (auto simp: agent_step_def call Let_def split: prod.splits option.splits
          dest: do_yield_keeps [OF k1] after_message_keeps)
  qed (use assms(3) k1 in \<open>auto simp: agent_step_def call intro: yield_ignored_keeps\<close>)
qed

lemma agent_loop_keeps:
  "keeps st \<Longrightarrow> set allow \<subseteq> A \<Longrightarrow> agent_loop en wd rc inp tools allow mx n msgs st = (res, st') \<Longrightarrow> keeps st'"
proof (induction n arbitrary: msgs st)
  case (Suc n)
  then show ?case
    using agent_step_keeps by (auto split: prod.splits loop_out.splits) blast+
qed (auto intro: yield_ignored_keeps)

lemma agent_run_keeps:
  assumes "keeps st" "agent_run en wd parent inp st = (res, st')"
    and "\<And>p. map_of (an_profiles en) (run_profile_name inp) = Some p \<Longrightarrow> set (pf_allow p) \<subseteq> A"
  shows "keeps st'"
  using assms
  by (auto simp: agent_run_def record_route_def record_skill_inject_def record_memory_inject_def Let_def
      split: if_splits option.splits sum.splits prod.splits elim!: agent_loop_keeps [rotated 2] intro!: audit_keeps)

end

section \<open>The bus as the world of a run\<close>

text \<open>
  The bus beside the rest of the world, which the tools, the quota and the model work on. A tool
  answers by its implementation; the quota is asked only for a call that passed the schema.
\<close>

record ('i, 's, 'x) bus_world =
  bw_bus :: "('i, 's) bus"
  bw_rest :: 'x

record ('i, 's, 'x) bus_setup =
  bz_lib :: "'s schema_lib"
  bz_sink :: bool
  bz_tenant :: string
  bz_user :: string
  bz_quota :: "'x \<Rightarrow> string option \<times> 'x"
  bz_call :: "run_ctx \<Rightarrow> 'i tool \<Rightarrow> raw \<Rightarrow> 'x \<Rightarrow> (bus_err + raw) \<times> 'x"
  bz_stream :: "run_ctx \<Rightarrow> chat_request \<Rightarrow> 'x \<Rightarrow> (stream_chunk list \<times> string option) \<times> 'x"
  bz_yield :: "agent_event \<Rightarrow> 'x \<Rightarrow> string option \<times> 'x"

definition raw_of :: "('s, 'z) schema_lib_scheme \<Rightarrow> string \<Rightarrow> raw" where
  "raw_of lib args = \<lparr>raw_bytes = args, raw_json = (case sl_parse lib args of Inl _ \<Rightarrow> None | Inr j \<Rightarrow> Some j)\<rparr>"

fun bus_err_text :: "bus_err \<Rightarrow> string" where
  "bus_err_text ToolNotFound = ''toolbus: tool not found''"
| "bus_err_text (InvalidArguments e) = e"
| "bus_err_text (SandboxIDRequired e) = e"
| "bus_err_text NilSchema = ''invalid memory address or nil pointer dereference''"
| "bus_err_text (BusOther e) = e"

definition invoke_on_bus ::
  "('i, 's, 'x) bus_setup \<Rightarrow> run_ctx \<Rightarrow> string \<Rightarrow> string \<Rightarrow> ('i, 's, 'x) bus_world \<Rightarrow>
   (invoke_err + string) \<times> ('i, 's, 'x) bus_world" where
  "invoke_on_bus z rc name args w =
     (let input = raw_of (bz_lib z) args; b = bw_bus w;
          valid = (reg_get name (bus_reg b) \<noteq> None \<and> validate_input (bz_lib z) (map_of (bus_schemas b) name) input = None);
          (refused, x) = (if valid then bz_quota z (bw_rest w) else (None, bw_rest w));
          (called, res, b') = bus_invoke (bz_lib z) (bz_sink z) refused (\<lambda>t i. fst (bz_call z rc t i x))
            (bz_tenant z) (bz_user z) name input b;
          x' = (if called then snd (bz_call z rc (the (reg_get name (bus_reg b))) input x) else x)
      in (case res of
            Inl ToolNotFound \<Rightarrow> Inl InvokeNotFound
          | Inl e \<Rightarrow> Inl (InvokeErr (bus_err_text e))
          | Inr out \<Rightarrow> Inr (raw_bytes out), \<lparr>bw_bus = b', bw_rest = x'\<rparr>))"

definition on_bus :: "('i, 's, 'x) bus_setup \<Rightarrow> ('i, 's, 'x) bus_world agent_world" where
  "on_bus z =
     \<lparr>aw_tools = (\<lambda>w. list_tools (bw_bus w)),
      aw_stream = (\<lambda>rc req w. let (r, x) = bz_stream z rc req (bw_rest w) in (r, w\<lparr>bw_rest := x\<rparr>)),
      aw_invoke = invoke_on_bus z,
      aw_yield = (\<lambda>ev w. let (e, x) = bz_yield z ev (bw_rest w) in (e, w\<lparr>bw_rest := x\<rparr>))\<rparr>"

text \<open>The calls in a log, the last one first, and what the bus records of such calls.\<close>

fun calls_in :: "agent_obs list \<Rightarrow> (string \<times> string) list" where
  "calls_in [] = []"
| "calls_in (AoInvoke name args # log) = (name, args) # calls_in log"
| "calls_in (_ # log) = calls_in log"

lemma calls_in_append [simp]: "calls_in (xs @ ys) = calls_in xs @ calls_in ys"
  by (induction xs rule: calls_in.induct) auto

text \<open>An event of the bus for a call that passed the schema its tool advertises.\<close>

definition served :: "('i, 's, 'x) bus_setup \<Rightarrow> ('i, 's) bus \<Rightarrow> string \<times> string \<Rightarrow> inv_event \<Rightarrow> bool" where
  "served z b = (\<lambda>(name, args) ev.
     \<exists>t s inst. reg_get name (bus_reg b) = Some t \<and> compile_schema (bz_lib z) (tl_schema t) = Inr s \<and>
       sl_parse (bz_lib z) args = Inr inst \<and> sl_validate (bz_lib z) s inst = None \<and>
       ev_tool ev = name \<and> ev_tenant ev = bz_tenant z \<and> ev_user ev = bz_user z \<and> ev_input_sha ev = sha256_hex args)"

text \<open>The relation a run keeps: the tools stay, and the new events are those of served calls.\<close>

definition bus_log :: "('i, 's, 'x) bus_setup \<Rightarrow> ('i, 's) bus \<Rightarrow> agent_obs list \<Rightarrow> ('i, 's, 'x) bus_world \<Rightarrow> agent_obs list \<Rightarrow> bool" where
  "bus_log z b L w log \<longleftrightarrow>
     bus_reach (bz_lib z) (bw_bus w) \<and> bus_reg (bw_bus w) = bus_reg b \<and>
     (\<exists>new cs evs. log = new @ L \<and> subseq cs (calls_in new) \<and> bus_events (bw_bus w) = evs @ bus_events b \<and>
        list_all2 (served z b) cs evs)"

lemma bus_log_frame:
  assumes "bus_log z b L w log" "bw_bus w' = bw_bus w" "calls_in [ob] = []"
  shows "bus_log z b L w' (ob # log)"
proof -
  have "calls_in (ob # new) = calls_in new" for new
    using assms(3) calls_in_append [of "[ob]" new] by simp
  then show ?thesis
    using assms(1,2) unfolding bus_log_def by (metis append_Cons)
qed

lemma invoke_on_bus_log:
  assumes "bus_log z b L w log" "invoke_on_bus z rc name args w = (res, w')"
  shows "bus_log z b L w' (AoInvoke name args # log)"
proof -
  obtain new cs evs where old: "bus_reach (bz_lib z) (bw_bus w)" "bus_reg (bw_bus w) = bus_reg b" "log = new @ L"
      "subseq cs (calls_in new)" "bus_events (bw_bus w) = evs @ bus_events b" "list_all2 (served z b) cs evs"
    using assms(1) by (auto simp: bus_log_def)
  obtain quota call called r b' where step: "bus_invoke (bz_lib z) (bz_sink z) quota call (bz_tenant z) (bz_user z) name
      (raw_of (bz_lib z) args) (bw_bus w) = (called, r, b')" "bw_bus w' = b'"
    using assms(2) by (auto simp: invoke_on_bus_def Let_def split: prod.splits)
  have reach: "bus_reach (bz_lib z) b'"
    using bus_reach.invoke [OF old(1), of "bz_sink z" quota call "bz_tenant z" "bz_user z" name "raw_of (bz_lib z) args"]
    by (simp add: step(1))
  show ?thesis
  proof (cases called)
    case True
    obtain t s inst where ok: "reg_get name (bus_reg (bw_bus w)) = Some t" "compile_schema (bz_lib z) (tl_schema t) = Inr s"
        "raw_json (raw_of (bz_lib z) args) = Some inst" "sl_validate (bz_lib z) s inst = None" "bus_reg b' = bus_reg (bw_bus w)"
        "bus_events b' = invocation_event (bz_tenant z) (bz_user z) name (raw_of (bz_lib z) args) r # bus_events (bw_bus w)"
      using bus_invoke_served [OF old(1)] step(1) True by (metis (full_types))
    then have "served z b (name, args) (invocation_event (bz_tenant z) (bz_user z) name (raw_of (bz_lib z) args) r)"
      using old(2) by (auto simp: served_def invocation_event_def raw_of_def split: sum.splits)
    then show ?thesis
      using ok old reach step(2) unfolding bus_log_def
      by (intro conjI exI [of _ "AoInvoke name args # new"] exI [of _ "(name, args) # cs"]
          exI [of _ "invocation_event (bz_tenant z) (bz_user z) name (raw_of (bz_lib z) args) r # evs"]) auto
  next
    case False
    then have "b' = bw_bus w"
      using step(1) by (auto simp: bus_invoke_def split: option.splits)
    then show ?thesis
      using old reach step(2) unfolding bus_log_def
      by (intro conjI exI [of _ "AoInvoke name args # new"] exI [of _ cs] exI [of _ evs]) auto
  qed
qed

interpretation bus_run: agent_frame "on_bus z" "bus_log z b L" UNIV for z b L
proof unfold_locales
  fix w log rc req r w'
  assume "bus_log z b L w log" "aw_stream (on_bus z) rc req w = (r, w')"
  then show "bus_log z b L w' (AoRequest req # log)"
    by (elim bus_log_frame) (auto simp: on_bus_def split: prod.splits)
next
  fix w log name args rc res w'
  assume "bus_log z b L w log" "aw_invoke (on_bus z) rc name args w = (res, w')"
  then show "bus_log z b L w' (AoInvoke name args # log)"
    by (elim invoke_on_bus_log) (simp add: on_bus_def)
next
  fix w log ev e w'
  assume "bus_log z b L w log" "aw_yield (on_bus z) ev w = (e, w')"
  then show "bus_log z b L w' (AoEvent ev # log)"
    by (elim bus_log_frame) (auto simp: on_bus_def split: prod.splits)
next
  fix w log a t m
  assume "bus_log z b L w log"
  then show "bus_log z b L w (AoAudit a t m # log)"
    by (rule bus_log_frame) simp_all
qed


text \<open>The run of before, with its tool on a bus.\<close>

definition read_bus :: "(unit, unit) bus" where
  "read_bus = \<lparr>bus_reg = [(''fs.read'', echo_tool ''fs.read'' ''{}'')], bus_schemas = [(''fs.read'', ())],
     bus_events = [], bus_audited = []\<rparr>"

definition read_setup :: "(unit, unit, nat) bus_setup" where
  "read_setup = \<lparr>bz_lib = open_lib, bz_sink = False, bz_tenant = ''t'', bz_user = ''u'', bz_quota = (\<lambda>x. (None, x)),
     bz_call = (\<lambda>_ _ i x. (Inr i, x)), bz_stream = (\<lambda>_ _ n. (([demo_chunk n], None), n + 1)), bz_yield = (\<lambda>_ x. (None, x))\<rparr>"

definition read_start :: "(unit, unit, nat) bus_world agent_st" where
  "read_start = \<lparr>as_world = \<lparr>bw_bus = read_bus, bw_rest = 0\<rparr>, as_log = []\<rparr>"

lemma read_bus_reach: "bus_reach open_lib read_bus"
  by (rule bus_reach.build [of "[echo_tool ''fs.read'' ''{}'']" "[(''fs.read'', echo_tool ''fs.read'' ''{}'')]"])
    (simp_all add: bus_simps echo_tool_def new_bus_def reg_list_def compile_schema_def open_lib_def read_bus_def)

lemma read_served:
  "invoke_on_bus read_setup rc ''fs.read'' ''{}'' \<lparr>bw_bus = read_bus, bw_rest = n\<rparr> =
     (Inr ''{}'', \<lparr>bw_bus = read_bus\<lparr>bus_events := [invocation_event ''t'' ''u'' ''fs.read'' (raw_of open_lib ''{}'')
        (Inr (raw_of open_lib ''{}''))]\<rparr>, bw_rest = n\<rparr>)"
  by (simp add: invoke_on_bus_def read_setup_def read_bus_def bus_invoke_def reg_get_def validate_input_def raw_of_def
      open_lib_def record_call_def Let_def)

lemma read_world:
  "aw_stream (on_bus read_setup) rc req w = (([demo_chunk (bw_rest w)], None), w\<lparr>bw_rest := bw_rest w + 1\<rparr>)"
  "aw_yield (on_bus read_setup) ev w = (None, w)"
  "aw_invoke (on_bus read_setup) = invoke_on_bus read_setup"
  by (simp_all add: on_bus_def read_setup_def)

lemma read_runs:
  "\<exists>st'. agent_run demo_engine (on_bus read_setup) root_ctx demo_input read_start = (None, st') \<and>
     calls_in (as_log st') = [(''fs.read'', ''{}'')] \<and> length (bus_events (bw_bus (as_world st'))) = 1"
  by (simp add: agent_run_def agent_step_def demo_input_def read_start_def noop_composer_def compose_input_of_def
      demo_engine_def new_agent_engine_def demo_profile_def run_profile_name_def run_max_steps_def
      record_route_def record_skill_inject_def record_memory_inject_def audit_if_def no_meta_def
      call_stream_def read_world demo_chunk_def accum_apply_def apply_call_def new_accum_def merge_call_def fresh_call_def
      do_yield_def yield_ignored_def log_ao_def after_message_def accum_message_def run_tool_call_def demo_json read_served
      truncate_tool_output_def default_max_output_def eval_nat_numeral Let_def)


end
