(* ===== verification/WfGraph.thy ===== *)
theory WfGraph
  imports WfModel
begin

text \<open>
  The flow chart of a workflow, \<open>src/internal/workflow/graph.go\<close>: the builder that appends nodes
  and edges while it walks the steps, and the graph of a document. Then: the nodes are the steps in
  the order of the text, and every node lies on a path from the start to the end.
\<close>

section \<open>Texts\<close>

text \<open>\<open>time.Duration.String\<close>; \<open>frac_digits\<close> drops the trailing zeros of a fraction.\<close>

fun decimal_digits :: "nat \<Rightarrow> nat \<Rightarrow> string" where
  "decimal_digits 0 n = []"
| "decimal_digits (Suc k) n = decimal_digits k (n div 10) @ [char_of (48 + n mod 10)]"

definition frac_digits :: "nat \<Rightarrow> nat \<Rightarrow> string" where
  "frac_digits prec n =
     (let ds = rev (dropWhile (\<lambda>c. c = CHR ''0'') (rev (decimal_digits prec n)))
      in if ds = [] then [] else CHR ''.'' # ds)"

definition duration_text :: "int \<Rightarrow> string" where
  "duration_text d =
     (let u = nat \<bar>d\<bar>; sign = (if d < 0 then ''-'' else [])
      in if u = 0 then ''0s''
         else if u < 1000 then sign @ show_nat u @ ''ns''
         else if u < 1000000 then sign @ show_nat (u div 1000) @ frac_digits 3 (u mod 1000) @ [CHR 0xC2, CHR 0xB5, CHR ''s'']
         else if u < 1000000000 then sign @ show_nat (u div 1000000) @ frac_digits 6 (u mod 1000000) @ ''ms''
         else
           let secs = u div 1000000000;
               tail = show_nat (secs mod 60) @ frac_digits 9 (u mod 1000000000) @ ''s''
           in if secs < 60 then sign @ tail
              else if secs < 3600 then sign @ show_nat (secs div 60) @ ''m'' @ tail
              else sign @ show_nat (secs div 3600) @ ''h'' @ show_nat (secs div 60 mod 60) @ ''m'' @ tail)"

text \<open>A cut detail ends with an ellipsis of three bytes.\<close>

definition truncate_detail :: "string \<Rightarrow> string" where
  "truncate_detail s = (if length s \<le> 120 then s else take 119 s @ [CHR 0xE2, CHR 0x80, CHR 0xA6])"

definition sorted_keys :: "(string, 'v) gomap \<Rightarrow> string list" where
  "sorted_keys m = sort (map fst m)"

definition format_args :: "(string, val) gomap \<Rightarrow> string" where
  "format_args args =
     join_with '', '' (map (\<lambda>k. k @ ''='' @ sprint (case map_of args k of Some v \<Rightarrow> v | None \<Rightarrow> VNull)) (sorted_keys args))"

section \<open>The graph\<close>

definition start_node_id :: string where "start_node_id = ''__start__''"
definition end_node_id :: string where "end_node_id = ''__end__''"

record graph_node =
  gn_id :: string
  gn_kind :: string
  gn_label :: string
  gn_detail :: string
  gn_region :: string

record graph_edge =
  ge_from :: string
  ge_to :: string
  ge_type :: string
  ge_label :: string

record graph_builder =
  gb_nodes :: "graph_node list"
  gb_edges :: "graph_edge list"

record graph =
  gr_meta :: "string \<times> string \<times> string"
  gr_inputs :: "(string \<times> string) list"
  gr_outputs :: "(string \<times> string) list"
  gr_nodes :: "graph_node list"
  gr_edges :: "graph_edge list"

definition add_edge :: "string \<Rightarrow> string \<Rightarrow> string \<Rightarrow> string \<Rightarrow> graph_builder \<Rightarrow> graph_builder" where
  "add_edge from to typ label b =
     (if from = [] \<or> to = [] \<or> from = to then b
      else b\<lparr>gb_edges := gb_edges b @ [\<lparr>ge_from = from, ge_to = to, ge_type = typ, ge_label = label\<rparr>]\<rparr>)"

definition add_node :: "graph_node \<Rightarrow> graph_builder \<Rightarrow> graph_builder" where
  "add_node n b = b\<lparr>gb_nodes := gb_nodes b @ [n]\<rparr>"

definition join_region :: "string \<Rightarrow> string \<Rightarrow> string" where
  "join_region base suffix = (if base = [] then suffix else base @ ''|'' @ suffix)"

definition step_graph_node :: "step \<Rightarrow> string \<Rightarrow> graph_node" where
  "step_graph_node s region =
     (let (label, detail) = (case st_kind s of
          NodeTool \<Rightarrow> (st_use s, truncate_detail (format_args (case st_args s of None \<Rightarrow> [] | Some a \<Rightarrow> a)))
        | NodeAssign \<Rightarrow> (''assign'', truncate_detail (join_with '', '' (sorted_keys (st_assign s))))
        | NodeIf \<Rightarrow> (''if'', truncate_detail (st_if s))
        | NodeForeach \<Rightarrow> (''foreach'', truncate_detail (if st_as s \<noteq> [] then st_foreach s @ '' as '' @ st_as s else st_foreach s))
        | NodeParallel \<Rightarrow> (''parallel'', show_nat (length (st_parallel s)) @ '' branches'')
        | NodeWait \<Rightarrow> (''wait'', if st_wait s \<noteq> [] then st_wait s
                                 else if st_wait_dur s > 0 then duration_text (st_wait_dur s) else [])
        | NodeNone \<Rightarrow> (kind_text NodeNone, []))
      in \<lparr>gn_id = st_id s, gn_kind = kind_text (st_kind s), gn_label = label, gn_detail = detail, gn_region = region\<rparr>)"

text \<open>The edges from every predecessor, and the walk. Each function returns the exits of what it drew.\<close>

definition add_edges :: "string list \<Rightarrow> string \<Rightarrow> graph_builder \<Rightarrow> graph_builder" where
  "add_edges preds to b = fold (\<lambda>from. add_edge from to ''sequential'' []) preds b"

function run_steps :: "step list \<Rightarrow> string list \<Rightarrow> string \<Rightarrow> graph_builder \<Rightarrow> string list \<times> graph_builder"
  and control_exits :: "step \<Rightarrow> string \<Rightarrow> graph_builder \<Rightarrow> string list \<times> graph_builder"
  and run_branch_steps :: "step list \<Rightarrow> string \<Rightarrow> string \<Rightarrow> string \<Rightarrow> string \<Rightarrow> graph_builder \<Rightarrow> string list \<times> graph_builder"
  and parallel_exits :: "step list list \<Rightarrow> nat \<Rightarrow> string \<Rightarrow> string \<Rightarrow> graph_builder \<Rightarrow> string list \<times> graph_builder" where
  "run_steps [] preds region b = (preds, b)"
| "run_steps (s # ss) preds region b =
     (let (exits, b1) = control_exits s region (add_edges preds (st_id s) (add_node (step_graph_node s region) b))
      in run_steps ss exits region b1)"
| "control_exits s region b =
     (case st_kind s of
        NodeIf \<Rightarrow>
          (let (x1, b1) = run_branch_steps (st_then s) (st_id s) ''branch'' ''then'' (join_region region ''then'') b;
               (x2, b2) = run_branch_steps (st_else s) (st_id s) ''branch'' ''else'' (join_region region ''else'') b1
           in (x1 @ x2, b2))
      | NodeForeach \<Rightarrow> run_branch_steps (st_steps s) (st_id s) ''sequential'' [] (join_region region ''foreach'') b
      | NodeParallel \<Rightarrow> parallel_exits (st_parallel s) 0 (st_id s) region b
      | _ \<Rightarrow> ([st_id s], b))"
| "run_branch_steps [] from typ label region b = ([from], b)"
| "run_branch_steps (s # ss) from typ label region b =
     (let (exits, b1) = control_exits s region (add_edge from (st_id s) typ label (add_node (step_graph_node s region) b))
      in run_steps ss exits region b1)"
| "parallel_exits [] i sid region b = ([], b)"
| "parallel_exits (br # brs) i sid region b =
     (let (x1, b1) = run_branch_steps br sid ''parallel'' (show_nat (Suc i)) (join_region region (''parallel:'' @ show_nat i)) b;
          (x2, b2) = parallel_exits brs (Suc i) sid region b1
      in (x1 @ x2, b2))"
  by pat_completeness auto
termination
  by (relation "measure (\<lambda>x. case x of
      Inl (Inl (ss, _, _, _)) \<Rightarrow> size_list size ss
    | Inl (Inr (s, _, _)) \<Rightarrow> size s
    | Inr (Inl (ss, _, _, _, _, _)) \<Rightarrow> size_list size ss
    | Inr (Inr (brs, _, _, _, _)) \<Rightarrow> size_list (size_list size) brs)")
    (simp_all add: step_children_size)

definition trigger_node :: "trigger_spec \<Rightarrow> graph_node" where
  "trigger_node tr =
     (let (kind, detail) =
        (if tr_cron tr \<noteq> [] then
           (''trigger-cron'', tr_cron tr @
              (if tr_timezone tr \<noteq> [] \<and> tr_timezone tr \<noteq> ''UTC'' then '' ('' @ tr_timezone tr @ '')'' else []))
         else if tr_webhook tr \<noteq> None then (''trigger-webhook'', ''webhook'')
         else (''trigger'', []))
      in \<lparr>gn_id = ''trigger:'' @ tr_id tr, gn_kind = kind, gn_label = tr_id tr, gn_detail = detail, gn_region = []\<rparr>)"

definition draw_trigger :: "trigger_spec \<Rightarrow> graph_builder \<Rightarrow> graph_builder" where
  "draw_trigger tr b =
     add_edge start_node_id (''trigger:'' @ tr_id tr) ''sequential'' ''trigger'' (add_node (trigger_node tr) b)"

text \<open>\<open>GraphFromDoc\<close>; the labels of the ends are the Chinese words for start and end.\<close>

definition start_node :: graph_node where
  "start_node = \<lparr>gn_id = start_node_id, gn_kind = ''start'',
     gn_label = [CHR 0xE5, CHR 0xBC, CHR 0x80, CHR 0xE5, CHR 0xA7, CHR 0x8B], gn_detail = [], gn_region = []\<rparr>"

definition end_node :: graph_node where
  "end_node = \<lparr>gn_id = end_node_id, gn_kind = ''end'',
     gn_label = [CHR 0xE7, CHR 0xBB, CHR 0x93, CHR 0xE6, CHR 0x9D, CHR 0x9F], gn_detail = [], gn_region = []\<rparr>"

definition entry_ids :: "workflow_doc \<Rightarrow> string list" where
  "entry_ids doc = (if doc_triggers doc = [] then [start_node_id] else map (\<lambda>tr. ''trigger:'' @ tr_id tr) (doc_triggers doc))"

definition graph_from_doc :: "workflow_doc option \<Rightarrow> graph" where
  "graph_from_doc mdoc = (case mdoc of
       None \<Rightarrow> \<lparr>gr_meta = ([], [], []), gr_inputs = [], gr_outputs = [], gr_nodes = [], gr_edges = []\<rparr>
     | Some doc \<Rightarrow>
         (let b0 = fold draw_trigger (doc_triggers doc) \<lparr>gb_nodes = [], gb_edges = []\<rparr>;
              (exits, b1) = run_steps (doc_steps doc) (entry_ids doc) ''main'' b0;
              b2 = add_edges exits end_node_id b1
          in \<lparr>gr_meta = (doc_id doc, doc_name doc, doc_description doc),
              gr_inputs = map (\<lambda>n. (n, case map_of (doc_inputs doc) n of Some sp \<Rightarrow> in_type sp | None \<Rightarrow> []))
                (sorted_keys (doc_inputs doc)),
              gr_outputs = map (\<lambda>n. (n, case map_of (doc_outputs doc) n of Some e \<Rightarrow> e | None \<Rightarrow> []))
                (sorted_keys (doc_outputs doc)),
              gr_nodes = start_node # gb_nodes b2 @ [end_node], gr_edges = gb_edges b2\<rparr>))"

definition graph_from_yaml :: "(string \<Rightarrow> workflow_doc result) \<Rightarrow> string \<Rightarrow> graph result" where
  "graph_from_yaml unmarshal src = on_ok (parse_doc unmarshal src) (\<lambda>doc. Inr (graph_from_doc (Some doc)))"

declare control_exits.simps [simp del]

section \<open>Flow\<close>

definition edge_set :: "graph_edge list \<Rightarrow> (string \<times> string) set" where
  "edge_set es = (\<lambda>e. (ge_from e, ge_to e)) ` set es"

text \<open>
  The edges \<open>E\<close> lead from the sources \<open>S\<close> over the nodes \<open>V\<close> to the exits \<open>X\<close>: they touch nothing
  else, everything is reached from a source, and an exit is reached from everything.
\<close>

definition flow :: "('a \<times> 'a) set \<Rightarrow> 'a set \<Rightarrow> 'a set \<Rightarrow> 'a set \<Rightarrow> bool" where
  "flow E S X V \<longleftrightarrow> S \<noteq> {} \<and> X \<noteq> {} \<and> X \<subseteq> S \<union> V \<and> E \<subseteq> (S \<union> V) \<times> (S \<union> V) \<and>
     (\<forall>v \<in> X \<union> V. \<exists>p \<in> S. (p, v) \<in> E\<^sup>*) \<and> (\<forall>v \<in> S \<union> V. \<exists>x \<in> X. (v, x) \<in> E\<^sup>*)"

lemma flowI:
  assumes "S \<noteq> {}" "X \<noteq> {}" "X \<subseteq> S \<union> V" "E \<subseteq> (S \<union> V) \<times> (S \<union> V)"
    "\<And>v. v \<in> X \<union> V \<Longrightarrow> \<exists>p \<in> S. (p, v) \<in> E\<^sup>*" "\<And>v. v \<in> S \<union> V \<Longrightarrow> \<exists>x \<in> X. (v, x) \<in> E\<^sup>*"
  shows "flow E S X V"
  unfolding flow_def using assms by (intro conjI ballI)

lemma flow_bounds:
  assumes "flow E S X V"
  shows "S \<noteq> {}" "X \<noteq> {}" "X \<subseteq> S \<union> V" "E \<subseteq> (S \<union> V) \<times> (S \<union> V)"
  using assms unfolding flow_def by simp_all

lemma flow_from:
  assumes "flow E S X V" "v \<in> X \<union> V" "E \<subseteq> F"
  shows "\<exists>p \<in> S. (p, v) \<in> F\<^sup>*"
proof -
  have "\<exists>p \<in> S. (p, v) \<in> E\<^sup>*"
    using assms(1,2) unfolding flow_def by (elim conjE) (rule bspec)
  then show ?thesis
    using rtrancl_mono [OF assms(3)] by (meson subsetD)
qed

lemma flow_to:
  assumes "flow E S X V" "v \<in> S \<union> V" "E \<subseteq> F"
  shows "\<exists>x \<in> X. (v, x) \<in> F\<^sup>*"
proof -
  have "\<exists>x \<in> X. (v, x) \<in> E\<^sup>*"
    using assms(1,2) unfolding flow_def by (elim conjE) (rule bspec)
  then show ?thesis
    using rtrancl_mono [OF assms(3)] by (meson subsetD)
qed

lemma flow_refl: "S \<noteq> {} \<Longrightarrow> flow {} S S {}"
  by (rule flowI) auto

lemma flow_node:
  assumes "S \<noteq> {}"
  shows "flow {(p, v) | p. p \<in> S \<and> p \<noteq> v} S {v} {v}"
proof (rule flowI)
  let ?E = "{(p, v) | p. p \<in> S \<and> p \<noteq> v}"
  have reach: "(p, v) \<in> ?E\<^sup>*" if "p \<in> S \<union> {v}" for p
    using that by (cases "p = v") auto
  obtain q where "q \<in> S"
    using assms by auto
  show "\<exists>p \<in> S. (p, w) \<in> ?E\<^sup>*" if "w \<in> {v} \<union> {v}" for w
  proof
    show "(q, w) \<in> ?E\<^sup>*"
      using reach [of q] \<open>q \<in> S\<close> that by simp
  qed fact
  show "\<exists>x \<in> {v}. (w, x) \<in> ?E\<^sup>*" if "w \<in> S \<union> {v}" for w
  proof
    show "(w, v) \<in> ?E\<^sup>*"
      by (rule reach) fact
  qed simp
qed (use assms in auto)

lemma flow_seq:
  assumes "flow E1 S X V1" "flow E2 X Y V2"
  shows "flow (E1 \<union> E2) S Y (V1 \<union> V2)"
proof (rule flowI)
  show "\<exists>p \<in> S. (p, v) \<in> (E1 \<union> E2)\<^sup>*" if v: "v \<in> Y \<union> (V1 \<union> V2)" for v
  proof (cases "v \<in> V1")
    case True
    then show ?thesis
      by (intro flow_from [OF assms(1)]) auto
  next
    case False
    then obtain x where x: "x \<in> X" "(x, v) \<in> (E1 \<union> E2)\<^sup>*"
      using flow_from [OF assms(2), of v "E1 \<union> E2"] v by auto
    obtain p where "p \<in> S" "(p, x) \<in> (E1 \<union> E2)\<^sup>*"
      using flow_from [OF assms(1), of x "E1 \<union> E2"] x(1) by auto
    then show ?thesis
      using x(2) by (meson rtrancl_trans)
  qed
  show "\<exists>y \<in> Y. (v, y) \<in> (E1 \<union> E2)\<^sup>*" if v: "v \<in> S \<union> (V1 \<union> V2)" for v
  proof (cases "v \<in> V2")
    case True
    then show ?thesis
      by (intro flow_to [OF assms(2)]) auto
  next
    case False
    then obtain x where x: "x \<in> X" "(v, x) \<in> (E1 \<union> E2)\<^sup>*"
      using flow_to [OF assms(1), of v "E1 \<union> E2"] v by auto
    obtain y where "y \<in> Y" "(x, y) \<in> (E1 \<union> E2)\<^sup>*"
      using flow_to [OF assms(2), of x "E1 \<union> E2"] x(1) by auto
    then show ?thesis
      using x(2) by (meson rtrancl_trans)
  qed
qed (use flow_bounds [OF assms(1)] flow_bounds [OF assms(2)] in blast)+

lemma flow_par:
  assumes "flow E1 S X1 V1" "flow E2 S X2 V2"
  shows "flow (E1 \<union> E2) S (X1 \<union> X2) (V1 \<union> V2)"
proof (rule flowI)
  show "\<exists>p \<in> S. (p, v) \<in> (E1 \<union> E2)\<^sup>*" if "v \<in> (X1 \<union> X2) \<union> (V1 \<union> V2)" for v
    using flow_from [OF assms(1), of v "E1 \<union> E2"] flow_from [OF assms(2), of v "E1 \<union> E2"] that by auto
  show "\<exists>x \<in> X1 \<union> X2. (v, x) \<in> (E1 \<union> E2)\<^sup>*" if "v \<in> S \<union> (V1 \<union> V2)" for v
    using flow_to [OF assms(1), of v "E1 \<union> E2"] flow_to [OF assms(2), of v "E1 \<union> E2"] that by auto
qed (use flow_bounds [OF assms(1)] flow_bounds [OF assms(2)] in blast)+

section \<open>What the builder draws\<close>

abbreviation ids_in :: "(int \<times> step) list \<Rightarrow> string list" where
  "ids_in vs \<equiv> map (\<lambda>(d, s). st_id s) vs"

definition drawn :: "graph_builder \<Rightarrow> graph_builder \<Rightarrow> string set \<Rightarrow> string list \<Rightarrow> string list \<Rightarrow> bool" where
  "drawn b b' S xs ids \<longleftrightarrow>
     (\<exists>ns E. gb_nodes b' = gb_nodes b @ ns \<and> map gn_id ns = ids \<and>
        edge_set (gb_edges b') = edge_set (gb_edges b) \<union> E \<and> flow E S (set xs) (set ids) \<and> [] \<notin> set xs)"

lemma drawnI:
  assumes "gb_nodes b' = gb_nodes b @ ns" "map gn_id ns = ids"
    "edge_set (gb_edges b') = edge_set (gb_edges b) \<union> E" "flow E S (set xs) (set ids)" "[] \<notin> set xs"
  shows "drawn b b' S xs ids"
  using assms unfolding drawn_def by blast

lemma drawnE:
  assumes "drawn b b' S xs ids"
  obtains ns E where "gb_nodes b' = gb_nodes b @ ns" "map gn_id ns = ids"
    "edge_set (gb_edges b') = edge_set (gb_edges b) \<union> E" "flow E S (set xs) (set ids)" "[] \<notin> set xs"
  using assms unfolding drawn_def by blast

lemma drawn_seq:
  assumes "drawn b b1 S xs ids1" "drawn b1 b2 (set xs) ys ids2"
  shows "drawn b b2 S ys (ids1 @ ids2)"
proof (rule drawnE [OF assms(1)], rule drawnE [OF assms(2)])
  fix ns1 E1 ns2 E2
  assume 1: "gb_nodes b1 = gb_nodes b @ ns1" "map gn_id ns1 = ids1"
      "edge_set (gb_edges b1) = edge_set (gb_edges b) \<union> E1" "flow E1 S (set xs) (set ids1)"
    and 2: "gb_nodes b2 = gb_nodes b1 @ ns2" "map gn_id ns2 = ids2"
      "edge_set (gb_edges b2) = edge_set (gb_edges b1) \<union> E2" "flow E2 (set xs) (set ys) (set ids2)" "[] \<notin> set ys"
  show ?thesis
    by (rule drawnI [of _ _ "ns1 @ ns2" _ "E1 \<union> E2"])
      (use 1 2 flow_seq [OF 1(4) 2(4)] in \<open>simp_all add: Un_assoc\<close>)
qed

lemma drawn_par:
  assumes "drawn b b1 S xs1 ids1" "drawn b1 b2 S xs2 ids2"
  shows "drawn b b2 S (xs1 @ xs2) (ids1 @ ids2)"
proof (rule drawnE [OF assms(1)], rule drawnE [OF assms(2)])
  fix ns1 E1 ns2 E2
  assume 1: "gb_nodes b1 = gb_nodes b @ ns1" "map gn_id ns1 = ids1"
      "edge_set (gb_edges b1) = edge_set (gb_edges b) \<union> E1" "flow E1 S (set xs1) (set ids1)" "[] \<notin> set xs1"
    and 2: "gb_nodes b2 = gb_nodes b1 @ ns2" "map gn_id ns2 = ids2"
      "edge_set (gb_edges b2) = edge_set (gb_edges b1) \<union> E2" "flow E2 S (set xs2) (set ids2)" "[] \<notin> set xs2"
  show ?thesis
    by (rule drawnI [of _ _ "ns1 @ ns2" _ "E1 \<union> E2"])
      (use 1 2 flow_par [OF 1(4) 2(4)] in \<open>simp_all add: Un_assoc\<close>)
qed

lemma drawn_exits: "drawn b b' S xs ids \<Longrightarrow> xs \<noteq> [] \<and> [] \<notin> set xs"
  by (elim drawnE) (use flow_bounds(2) in force)

lemma drawn_none: "S \<noteq> {} \<Longrightarrow> set xs = S \<Longrightarrow> [] \<notin> S \<Longrightarrow> drawn b b S xs []"
  by (auto simp: drawn_def flow_refl intro: exI [of _ "{}"])

lemma add_edge_sel [simp]:
  "gb_nodes (add_edge f t ty l b) = gb_nodes b"
  "edge_set (gb_edges (add_edge f t ty l b)) =
     edge_set (gb_edges b) \<union> (if f = [] \<or> t = [] \<or> f = t then {} else {(f, t)})"
  by (auto simp: add_edge_def edge_set_def)

lemma add_edges_sel [simp]:
  "gb_nodes (add_edges ps t b) = gb_nodes b"
  "t \<noteq> [] \<Longrightarrow> [] \<notin> set ps \<Longrightarrow>
     edge_set (gb_edges (add_edges ps t b)) = edge_set (gb_edges b) \<union> {(p, t) | p. p \<in> set ps \<and> p \<noteq> t}"
  by (induction ps arbitrary: b) (auto simp: add_edges_def)

lemma add_node_sel [simp]: "gb_nodes (add_node n b) = gb_nodes b @ [n]" "gb_edges (add_node n b) = gb_edges b"
  by (simp_all add: add_node_def)

lemma step_graph_node_id [simp]: "gn_id (step_graph_node s region) = st_id s"
  by (simp add: step_graph_node_def Let_def split: prod.split)

lemma drawn_node:
  assumes "ps \<noteq> []" "[] \<notin> set ps" "gn_id n \<noteq> []"
  shows "drawn b (add_edges ps (gn_id n) (add_node n b)) (set ps) [gn_id n] [gn_id n]"
  using assms flow_node [of "set ps" "gn_id n"] unfolding drawn_def
  by (intro exI [of _ "[n]"] exI [of _ "{(p, gn_id n) | p. p \<in> set ps \<and> p \<noteq> gn_id n}"]) auto

lemma drawn_edge_node:
  assumes "f \<noteq> []" "gn_id n \<noteq> []"
  shows "drawn b (add_edge f (gn_id n) ty l (add_node n b)) {f} [gn_id n] [gn_id n]"
proof -
  have "{(p, gn_id n) | p. p \<in> {f} \<and> p \<noteq> gn_id n} = (if f = gn_id n then {} else {(f, gn_id n)})"
    by auto
  then show ?thesis
    using assms flow_node [of "{f}" "gn_id n"] unfolding drawn_def
    by (intro exI [of _ "[n]"] exI [of _ "if f = gn_id n then {} else {(f, gn_id n)}"]) auto
qed

text \<open>Steps the builder can draw: they have an id, and a parallel step has branches.\<close>

definition drawable :: "(int \<times> step) list \<Rightarrow> bool" where
  "drawable vs \<longleftrightarrow> (\<forall>(d, s) \<in> set vs. st_id s \<noteq> [] \<and> (st_kind s = NodeParallel \<longrightarrow> st_parallel s \<noteq> []))"

lemma drawable_simps [simp]:
  "drawable []" "drawable (vs @ ws) \<longleftrightarrow> drawable vs \<and> drawable ws"
  "drawable ((d, s) # vs) \<longleftrightarrow> st_id s \<noteq> [] \<and> (st_kind s = NodeParallel \<longrightarrow> st_parallel s \<noteq> []) \<and> drawable vs"
  by (auto simp: drawable_def)

lemma draws:
  "\<lbrakk>drawable (visited d ss); ps \<noteq> []; [] \<notin> set ps; run_steps ss ps region b = (xs, b')\<rbrakk> \<Longrightarrow>
     drawn b b' (set ps) xs (ids_in (visited d ss))"
  "\<lbrakk>drawable ((d, s) # visited_kids d s); control_exits s region b = (xs, b')\<rbrakk> \<Longrightarrow>
     drawn b b' {st_id s} xs (ids_in (visited_kids d s))"
  "\<lbrakk>drawable (visited d ss); f \<noteq> []; run_branch_steps ss f ty label region b = (xs, b')\<rbrakk> \<Longrightarrow>
     drawn b b' {f} xs (ids_in (visited d ss))"
  "\<lbrakk>drawable (visited_branches d brs); sid \<noteq> []; brs \<noteq> []; parallel_exits brs i sid region b = (xs, b')\<rbrakk> \<Longrightarrow>
     drawn b b' {sid} xs (ids_in (visited_branches d brs))"
proof (induction ss ps region b and s region b and ss f ty label region b and brs i sid region b
    arbitrary: d xs b' and d xs b' and d xs b' and d xs b'
    rule: run_steps_control_exits_run_branch_steps_parallel_exits.induct)
  case (1 ps region b)
  then show ?case
    by (auto intro: drawn_none)
next
  case (2 s ss ps region b)
  let ?b0 = "add_edges ps (st_id s) (add_node (step_graph_node s region) b)"
  obtain ex b1 where c: "control_exits s region ?b0 = (ex, b1)"
    by fastforce
  then have r: "run_steps ss ex region b1 = (xs, b')"
    using "2.prems"(4) by simp
  have node: "drawn b ?b0 (set ps) [st_id s] [st_id s]"
    using drawn_node [of ps "step_graph_node s region" b] "2.prems" by simp
  have kids: "drawn ?b0 b1 {st_id s} ex (ids_in (visited_kids d s))"
    using "2.IH"(1) [OF _ c] "2.prems"(1) by simp
  have "drawn b1 b' (set ex) xs (ids_in (visited d ss))"
    using "2.IH"(2) [OF c [symmetric] refl _ _ _ r] drawn_exits [OF kids] "2.prems"(1) by simp
  then show ?case
    using drawn_seq [OF drawn_seq [OF node, of b1 ex]] kids by simp
next
  case (3 s region b)
  show ?case
  proof (cases "st_kind s")
    case NodeIf
    obtain x1 b1 where 1: "run_branch_steps (st_then s) (st_id s) ''branch'' ''then'' (join_region region ''then'') b = (x1, b1)"
      by fastforce
    obtain x2 b2 where 2: "run_branch_steps (st_else s) (st_id s) ''branch'' ''else'' (join_region region ''else'') b1 = (x2, b2)"
      by fastforce
    have "xs = x1 @ x2" "b' = b2"
      using "3.prems"(2) NodeIf 1 2 by (simp_all add: control_exits.simps)
    moreover have "drawn b b1 {st_id s} x1 (ids_in (visited (d + 1) (st_then s)))"
      using "3.prems"(1) NodeIf by (intro "3.IH"(1) [OF NodeIf _ _ 1]) (simp_all add: visited_kids.simps)
    moreover have "drawn b1 b2 {st_id s} x2 (ids_in (visited (d + 1) (st_else s)))"
      using "3.prems"(1) NodeIf
      by (intro "3.IH"(2) [OF NodeIf 1 [symmetric] refl _ _ 2]) (simp_all add: visited_kids.simps)
    ultimately show ?thesis
      using NodeIf drawn_par by (simp add: visited_kids.simps)
  next
    case NodeForeach
    then show ?thesis
      using "3.prems" by (simp add: "3.IH"(3) visited_kids.simps control_exits.simps)
  next
    case NodeParallel
    then show ?thesis
      using "3.prems" by (simp add: "3.IH"(4) visited_kids.simps control_exits.simps)
  qed (use "3.prems" in \<open>auto simp: visited_kids.simps control_exits.simps intro!: drawn_none\<close>)
next
  case (4 f ty label region b)
  then show ?case
    by (auto intro: drawn_none)
next
  case (5 s ss f ty label region b)
  let ?b0 = "add_edge f (st_id s) ty label (add_node (step_graph_node s region) b)"
  obtain ex b1 where c: "control_exits s region ?b0 = (ex, b1)"
    by fastforce
  then have r: "run_steps ss ex region b1 = (xs, b')"
    using "5.prems"(3) by simp
  have node: "drawn b ?b0 {f} [st_id s] [st_id s]"
    using drawn_edge_node [of f "step_graph_node s region" b ty label] "5.prems" by simp
  have kids: "drawn ?b0 b1 {st_id s} ex (ids_in (visited_kids d s))"
    using "5.IH"(1) [OF _ c] "5.prems"(1) by simp
  have "drawn b1 b' (set ex) xs (ids_in (visited d ss))"
    using "5.IH"(2) [OF c [symmetric] refl _ _ _ r] drawn_exits [OF kids] "5.prems"(1) by simp
  then show ?case
    using drawn_seq [OF drawn_seq [OF node, of b1 ex]] kids by simp
next
  case (6 i sid region b)
  then show ?case
    by simp
next
  case (7 br brs i sid region b)
  obtain x1 b1 where 1: "run_branch_steps br sid ''parallel'' (show_nat (Suc i)) (join_region region (''parallel:'' @ show_nat i)) b = (x1, b1)"
    by fastforce
  obtain x2 b2 where 2: "parallel_exits brs (Suc i) sid region b1 = (x2, b2)"
    by fastforce
  have out: "xs = x1 @ x2" "b' = b2"
    using "7.prems"(4) 1 2 by simp_all
  have first: "drawn b b1 {sid} x1 (ids_in (visited d br))"
    using "7.prems" by (intro "7.IH"(1) [OF _ _ 1]) simp_all
  show ?case
  proof (cases "brs = []")
    case True
    then show ?thesis
      using out first 2 by simp
  next
    case False
    then have "drawn b1 b2 {sid} x2 (ids_in (visited_branches d brs))"
      using "7.prems" by (intro "7.IH"(2) [OF 1 [symmetric] refl _ _ _ 2]) simp_all
    then show ?thesis
      using out first drawn_par by simp
  qed
qed

section \<open>The chart of a document\<close>

lemma draw_triggers:
  "trs \<noteq> [] \<Longrightarrow> drawn b (fold draw_trigger trs b) {start_node_id}
     (map (\<lambda>tr. ''trigger:'' @ tr_id tr) trs) (map (\<lambda>tr. ''trigger:'' @ tr_id tr) trs)"
proof (induction trs arbitrary: b)
  case (Cons tr trs)
  have id: "gn_id (trigger_node tr) = ''trigger:'' @ tr_id tr"
    by (simp add: trigger_node_def Let_def)
  have one: "drawn b (draw_trigger tr b) {start_node_id} [''trigger:'' @ tr_id tr] [''trigger:'' @ tr_id tr]"
    using drawn_edge_node [of start_node_id "trigger_node tr"] by (simp add: draw_trigger_def id start_node_id_def)
  show ?case
  proof (cases "trs = []")
    case True
    then show ?thesis
      using one by simp
  next
    case False
    then show ?thesis
      using drawn_par [OF one Cons.IH] by simp
  qed
qed simp

lemma classified_parallel: "classified s \<Longrightarrow> st_kind s = NodeParallel \<Longrightarrow> st_parallel s \<noteq> []"
  by (auto simp: classified_def hits_def split: if_splits)

lemma parsed_drawable:
  assumes "parse_doc unmarshal src = Inr doc" "[] \<notin> set (step_ids (doc_steps doc))"
  shows "drawable (visited 0 (doc_steps doc))"
proof -
  obtain ss where "classify_steps 0 ss = Inr (doc_steps doc)"
    using assms(1) by (auto simp: parse_doc_def on_ok_Inr_iff split: sum.splits)
  then have "\<forall>(d, s) \<in> set (visited 0 (doc_steps doc)). classified s"
    by (rule classify_all(1))
  then show ?thesis
    using assms(2) classified_parallel unfolding drawable_def step_ids_def by force
qed

lemma graph_from_doc_parts:
  assumes "run_steps (doc_steps doc) (entry_ids doc) ''main''
      (fold draw_trigger (doc_triggers doc) \<lparr>gb_nodes = [], gb_edges = []\<rparr>) = (ex, b1)"
  shows "gr_nodes (graph_from_doc (Some doc)) = start_node # gb_nodes b1 @ [end_node]"
    "gr_edges (graph_from_doc (Some doc)) = gb_edges (add_edges ex end_node_id b1)"
  by (simp_all add: graph_from_doc_def assms)

lemma end_ids [simp]:
  "gn_id start_node = start_node_id" "gn_id end_node = end_node_id" "start_node_id \<noteq> []" "end_node_id \<noteq> []"
  by (simp_all add: start_node_def end_node_def start_node_id_def end_node_id_def)

text \<open>
  The flow chart of a workflow that parses and whose steps all have ids: its nodes are the start,
  the triggers, the steps in the order of the text and the end; an edge joins two of these nodes; and
  every node lies on a path from the start to the end, whatever branches, loops and parallel parts
  the workflow nests, empty ones included.
\<close>

theorem graph_flow:
  assumes parsed: "parse_doc unmarshal src = Inr doc"
    and ids: "[] \<notin> set (step_ids (doc_steps doc))"
    and g: "graph_from_yaml unmarshal src = Inr g"
  shows "map gn_id (gr_nodes g) = [start_node_id] @ map (\<lambda>tr. ''trigger:'' @ tr_id tr) (doc_triggers doc)
           @ step_ids (doc_steps doc) @ [end_node_id]
       \<and> edge_set (gr_edges g) \<subseteq> set (map gn_id (gr_nodes g)) \<times> set (map gn_id (gr_nodes g))
       \<and> (\<forall>v \<in> set (map gn_id (gr_nodes g)).
            (start_node_id, v) \<in> (edge_set (gr_edges g))\<^sup>* \<and> (v, end_node_id) \<in> (edge_set (gr_edges g))\<^sup>*)"
proof -
  define trs where "trs = map (\<lambda>tr. ''trigger:'' @ tr_id tr) (doc_triggers doc)"
  define b0 where "b0 = fold draw_trigger (doc_triggers doc) \<lparr>gb_nodes = [], gb_edges = []\<rparr>"
  obtain ex b1 where r: "run_steps (doc_steps doc) (entry_ids doc) ''main'' b0 = (ex, b1)"
    by fastforce
  have trigs: "drawn \<lparr>gb_nodes = [], gb_edges = []\<rparr> b0 {start_node_id} (entry_ids doc) trs"
  proof (cases "doc_triggers doc = []")
    case True
    then show ?thesis
      by (simp add: b0_def trs_def entry_ids_def drawn_none start_node_id_def)
  next
    case False
    then show ?thesis
      unfolding b0_def trs_def entry_ids_def if_not_P [OF False] by (rule draw_triggers)
  qed
  have steps: "drawn b0 b1 (set (entry_ids doc)) ex (step_ids (doc_steps doc))"
    unfolding step_ids_def
    by (rule draws(1) [OF parsed_drawable [OF parsed ids] _ _ r]) (use drawn_exits [OF trigs] in auto)
  have ex: "ex \<noteq> []" "[] \<notin> set ex"
    using drawn_exits [OF steps] by auto
  obtain ns E where d: "gb_nodes b1 = ns" "map gn_id ns = trs @ step_ids (doc_steps doc)"
      "edge_set (gb_edges b1) = E" "flow E {start_node_id} (set ex) (set (trs @ step_ids (doc_steps doc)))"
    using drawn_seq [OF trigs steps] by (elim drawnE) (simp add: edge_set_def)
  let ?F = "E \<union> {(p, end_node_id) | p. p \<in> set ex \<and> p \<noteq> end_node_id}"
  have f: "flow ?F {start_node_id} {end_node_id} (set (trs @ step_ids (doc_steps doc)) \<union> {end_node_id})"
    by (rule flow_seq [OF d(4) flow_node]) (use ex in simp)
  have "g = graph_from_doc (Some doc)"
    using parsed g by (simp add: graph_from_yaml_def)
  moreover note graph_from_doc_parts [OF r [unfolded b0_def]]
  ultimately have nodes: "map gn_id (gr_nodes g) = [start_node_id] @ trs @ step_ids (doc_steps doc) @ [end_node_id]"
    and edges: "edge_set (gr_edges g) = ?F"
    using d(1-3) ex by simp_all
  have ids_set: "set (map gn_id (gr_nodes g)) = {start_node_id} \<union> (set (trs @ step_ids (doc_steps doc)) \<union> {end_node_id})"
    by (auto simp: nodes)
  show ?thesis
    unfolding trs_def [symmetric] edges ids_set
  proof (intro conjI ballI)
    fix v
    assume v: "v \<in> {start_node_id} \<union> (set (trs @ step_ids (doc_steps doc)) \<union> {end_node_id})"
    show "(start_node_id, v) \<in> ?F\<^sup>*"
      using flow_from [OF f _ order_refl, of v] v by (cases "v = start_node_id") auto
    show "(v, end_node_id) \<in> ?F\<^sup>*"
      using flow_to [OF f v order_refl] by simp
  qed (use nodes flow_bounds(4) [OF f] in simp_all)
qed

definition tool_step :: "bool \<Rightarrow> string \<Rightarrow> step" where
  "tool_step p i = Step i (if p then NodeTool else NodeNone) ''http_fetch'' None 0 []
     (if p then on_error_fail else []) [] [] [] [] [] [] [] [] [] 0"

text \<open>
  Started nightly: a choice with an empty \<open>else\<close>, then two parallel branches, one of them empty;
  \<open>p\<close> says that the parser has annotated the steps.
\<close>

definition chart_doc :: "bool \<Rightarrow> workflow_doc" where
  "chart_doc p = \<lparr>doc_id = ''demo'', doc_name = ''Demo'', doc_version = 1, doc_description = [],
     doc_inputs = [],
     doc_triggers = [\<lparr>tr_id = ''n'', tr_cron = ''0 3 * * *'', tr_timezone = [], tr_webhook = None, tr_inputs = []\<rparr>],
     doc_steps = [Step ''c'' (if p then NodeIf else NodeNone) [] None 0 [] [] [] ''true'' [tool_step p ''t''] [] [] [] [] [] [] 0,
                  Step ''p'' (if p then NodeParallel else NodeNone) [] None 0 [] [] [] [] [] [] [] [] []
                    [[tool_step p ''a''], []] [] 0],
     doc_outputs = []\<rparr>"

lemma chart_parses:
  "parse_doc (\<lambda>_. Inr (chart_doc False)) [] = Inr (chart_doc True)"
  "step_ids (doc_steps (chart_doc True)) = [''c'', ''t'', ''p'', ''a'']"
  "map tr_id (doc_triggers (chart_doc True)) = [''n'']"
  by (simp_all add: parse_doc_def chart_doc_def tool_step_def classify_step_def classify_children.simps hits_def
      with_class_def with_children_def step_ids_def visited_kids.simps on_error_fail_def on_error_continue_def)

theorem graph_flow_witness:
  "map gn_id (gr_nodes (graph_from_doc (Some (chart_doc True)))) =
     [''__start__'', ''trigger:n'', ''c'', ''t'', ''p'', ''a'', ''__end__'']
   \<and> (''p'', ''__end__'') \<in> (edge_set (gr_edges (graph_from_doc (Some (chart_doc True)))))\<^sup>*"
proof -
  let ?g = "graph_from_doc (Some (chart_doc True))"
  have tr: "map (\<lambda>tr. ''trigger:'' @ tr_id tr) (doc_triggers (chart_doc True)) = [''trigger:n'']"
    using chart_parses(3) by auto
  have g: "graph_from_yaml (\<lambda>_. Inr (chart_doc False)) [] = Inr ?g"
    by (simp add: graph_from_yaml_def chart_parses(1))
  have ids: "[] \<notin> set (step_ids (doc_steps (chart_doc True)))"
    by (simp add: chart_parses(2))
  note all = graph_flow [OF chart_parses(1) ids g, unfolded chart_parses(2) tr]
  note nodes = all [THEN conjunct1]
  have "''p'' \<in> set (map gn_id (gr_nodes ?g))"
    unfolding nodes by simp
  then have "(''p'', end_node_id) \<in> (edge_set (gr_edges ?g))\<^sup>*"
    using all by blast
  then show ?thesis
    unfolding nodes by (simp add: start_node_id_def end_node_id_def)
qed

end
