(* ===== verification/Design.thy ===== *)
theory Design
  imports WfGraph WfService
begin

text \<open>
  The visual editor: \<open>src/internal/workflow/design_model.go\<close>, \<open>design_validate.go\<close>,
  \<open>design_compile.go\<close>, \<open>design_decompile.go\<close> and the compile request of \<open>design_handler.go\<close>.
  Then: what a compiled condition means to the evaluator, that a compiled design is accepted by the
  parser with the same steps, and that a design survives being compiled and read again.
\<close>

section \<open>The model of the editor\<close>

record input_field =
  fd_name :: string
  fd_type :: string
  fd_default :: val
  fd_label :: string
  fd_description :: string
  fd_widget :: string
  fd_options :: "string list"

record output_field =
  of_name :: string
  of_expr :: string

record arg_field =
  ar_name :: string
  ar_value :: string
  ar_kind :: string

record assign_field =
  as_var :: string
  as_expr :: string
  as_label :: string

record design_condition =
  dc_left :: string
  dc_left_kind :: string
  dc_op :: string
  dc_right :: string
  dc_right_kind :: string

datatype design_step = DStep
  (ds_id: string) (ds_kind: string) (ds_tool: string) (ds_args: "arg_field list")
  (ds_assigns: "assign_field list") (ds_cond: "design_condition option")
  (ds_then: "design_step list") (ds_else: "design_step list")

record design =
  de_id :: string
  de_name :: string
  de_description :: string
  de_inputs :: "input_field list"
  de_steps :: "design_step list"
  de_outputs :: "output_field list"

section \<open>ValidateDesign\<close>

text \<open>The walk: \<open>seen\<close> is the map of the ids met so far, shared by all levels.\<close>

fun walk_design :: "string list option \<Rightarrow> design_step list \<Rightarrow> string list \<Rightarrow> string list result" where
  "walk_design allowed [] seen = Inr seen"
| "walk_design allowed (DStep i k tool args asg c th el # ss) seen =
     (if i = [] then Inl ''design: step id required''
      else if i \<in> set seen then Inl (''design: duplicate step id '' @ quote i)
      else if (k = ''tool'' \<or> k = []) \<and> tool = [] then Inl (''step '' @ i @ '': tool required'')
      else if (k = ''tool'' \<or> k = []) \<and> (case allowed of None \<Rightarrow> False | Some a \<Rightarrow> tool \<notin> set a)
        then Inl (''step '' @ i @ '': tool '' @ quote tool @ '' not registered'')
      else if k = ''assign'' \<and> asg = [] then Inl (''step '' @ i @ '': assignments required'')
      else if k = ''if'' \<and> c = None then Inl (''step '' @ i @ '': condition required'')
      else on_ok (if k = ''if'' then on_ok (walk_design allowed th (i # seen)) (walk_design allowed el)
                  else Inr (i # seen)) (walk_design allowed ss))"

definition validate_design :: "design option \<Rightarrow> string list option \<Rightarrow> string option" where
  "validate_design md allowed = (case md of
       None \<Rightarrow> Some ''design: nil''
     | Some d \<Rightarrow>
         if de_id d = [] then Some ''design: id required''
         else if de_name d = [] then Some ''design: name required''
         else if de_steps d = [] then Some ''design: at least one step required''
         else (case walk_design allowed (de_steps d) [] of Inl e \<Rightarrow> Some e | Inr _ \<Rightarrow> None))"

section \<open>Operands and expressions\<close>

text \<open>
  \<open>strings.ToLower\<close> as far as a comparison of its result with a constant of ASCII letters can tell:
  besides the capitals, only the Kelvin sign and the dotted capital I become ASCII.
\<close>

fun ascii_lower :: "string \<Rightarrow> string" where
  "ascii_lower (a # b # c # cs) =
     (if [a, b, c] = [CHR 0xE2, CHR 0x84, CHR 0xAA] then CHR ''k'' # ascii_lower cs
      else if [a, b] = [CHR 0xC4, CHR 0xB0] then CHR ''i'' # ascii_lower (c # cs)
      else lower_char a # ascii_lower (b # c # cs))"
| "ascii_lower [a, b] = (if [a, b] = [CHR 0xC4, CHR 0xB0] then ''i'' else [lower_char a, lower_char b])"
| "ascii_lower [a] = [lower_char a]"
| "ascii_lower [] = []"

text \<open>\<open>strings.EqualFold(kind, "expr")\<close>: no other letter folds to one of these four.\<close>

definition fold_expr :: "string \<Rightarrow> bool" where
  "fold_expr k \<longleftrightarrow> map lower_char k = ''expr''"

definition is_expr_token :: "string \<Rightarrow> bool" where
  "is_expr_token s \<longleftrightarrow> has_prefix ''${'' s \<and> has_suffix ''}'' s"

definition strip_expr_wrapper :: "string \<Rightarrow> string" where
  "strip_expr_wrapper s0 =
     (let s = trim_space s0
      in if has_prefix ''${'' s \<and> has_suffix ''}'' s then trim_space (butlast (drop 2 s)) else s)"

definition normalize_expr :: "string \<Rightarrow> string" where
  "normalize_expr s0 =
     (let s = trim_space s0
      in if s = [] then s else if is_expr_token s then s else ''${'' @ strip_expr_wrapper s @ ''}'')"

definition is_path_like :: "string \<Rightarrow> bool" where
  "is_path_like s \<longleftrightarrow> has_prefix ''inputs.'' s \<or> has_prefix ''vars.'' s \<or> has_prefix ''steps.'' s"

definition default_type :: "string \<Rightarrow> string" where
  "default_type t = (if trim_space t = [] then ''string'' else t)"

definition compile_arg_value :: "arg_field \<Rightarrow> val" where
  "compile_arg_value a =
     (let v = trim_space (ar_value a)
      in if fold_expr (ar_kind a) \<or> is_expr_token v then VStr (normalize_expr v)
         else case parse_int64 v of
             Some n \<Rightarrow> VInt64 n
           | None \<Rightarrow> (case parse_float v of
                Some f \<Rightarrow> VFloat f
              | None \<Rightarrow> if ascii_lower v = ''true'' then VBool True
                        else if ascii_lower v = ''false'' then VBool False
                        else VStr v))"

definition condition_op_symbol :: "string \<Rightarrow> string result" where
  "condition_op_symbol op =
     (let o' = ascii_lower (trim_space op)
      in if o' = ''eq'' \<or> o' = ''=='' then Inr ''==''
         else if o' = ''ne'' \<or> o' = ''!='' then Inr ''!=''
         else if o' = ''lt'' \<or> o' = ''<'' then Inr ''<''
         else if o' = ''le'' \<or> o' = ''<='' then Inr ''<=''
         else if o' = ''gt'' \<or> o' = ''>'' then Inr ''>''
         else if o' = ''ge'' \<or> o' = ''>='' then Inr ''>=''
         else Inl (''design: unknown condition op '' @ quote op))"

definition escape_quotes :: "string \<Rightarrow> string" where
  "escape_quotes s = concat (map (\<lambda>c. if c = CHR 0x22 then [CHR 0x5C, CHR 0x22] else [c]) s)"

definition format_condition_operand :: "string \<Rightarrow> string \<Rightarrow> bool \<Rightarrow> string" where
  "format_condition_operand value0 kind prefer_path =
     (let value = trim_space value0
      in if value = [] then [CHR 0x22, CHR 0x22]
         else if fold_expr kind \<or> is_expr_token value then strip_expr_wrapper value
         else if prefer_path \<and> kind = [] \<and> is_path_like (strip_expr_wrapper value) then strip_expr_wrapper value
         else if parse_int64 value \<noteq> None then value
         else if parse_float value \<noteq> None then value
         else if ascii_lower value \<in> {''true'', ''false'', ''null'', ''nil''} then value
         else if has_prefix [CHR 0x22] value \<and> has_suffix [CHR 0x22] value then value
         else [CHR 0x22] @ escape_quotes value @ [CHR 0x22])"

definition compile_condition :: "design_condition \<Rightarrow> string result" where
  "compile_condition c =
     on_ok (condition_op_symbol (dc_op c)) (\<lambda>op.
       let left = format_condition_operand (dc_left c) (dc_left_kind c) True;
           right = format_condition_operand (dc_right c) (dc_right_kind c) False
       in Inr (''${'' @ left @ '' '' @ op @ '' '' @ right @ ''}''))"

section \<open>CompileDesign\<close>

text \<open>\<open>yamlStep\<close>, \<open>compileInput\<close> and \<open>compileDoc\<close>, what the YAML encoder is given.\<close>

datatype yaml_step = YStep
  (ys_id: string) (ys_use: string) (ys_args: "(string, val) gomap") (ys_assign: "(string, string) gomap")
  (ys_if: string) (ys_then: "yaml_step list") (ys_else: "yaml_step list")

record compile_input =
  ci_type :: string
  ci_default :: val
  ci_description :: string

record compile_doc =
  cd_id :: string
  cd_name :: string
  cd_description :: string
  cd_inputs :: "(string, compile_input) gomap"
  cd_steps :: "yaml_step list"
  cd_outputs :: "(string, string) gomap"

definition compile_args :: "arg_field list \<Rightarrow> (string, val) gomap" where
  "compile_args args =
     fold (\<lambda>a m. if ar_name a = [] then m else AList.update (ar_name a) (compile_arg_value a) m) args []"

definition compile_assigns :: "assign_field list \<Rightarrow> (string, string) gomap" where
  "compile_assigns asg =
     fold (\<lambda>a m. if as_var a = [] then m else AList.update (as_var a) (normalize_expr (as_expr a)) m) asg []"

lemma design_children_size [termination_simp]:
  "size_list size (ds_then s) < size s" "size_list size (ds_else s) < size s"
  by (cases s; simp)+

text \<open>\<open>compileSteps\<close> and \<open>buildStep\<close>; both carry a list of warnings to which nothing is ever added.\<close>

function compile_steps :: "design_step list \<Rightarrow> string list \<Rightarrow> yaml_step list result"
  and build_step :: "design_step \<Rightarrow> yaml_step result" where
  "compile_steps [] seen = Inr []"
| "compile_steps (s # ss) seen =
     (if ds_id s = [] then Inl ''design: step id required''
      else if ds_id s \<in> set seen then Inl (''design: duplicate step id '' @ quote (ds_id s))
      else on_ok (build_step s) (\<lambda>y. on_ok (compile_steps ss (ds_id s # seen)) (\<lambda>ys. Inr (y # ys))))"
| "build_step s =
     (let k = ascii_lower (trim_space (ds_kind s))
      in if k = ''tool'' \<or> k = [] then
           (if ds_tool s = [] then Inl (''step '' @ ds_id s @ '': tool required'')
            else Inr (YStep (ds_id s) (ds_tool s) (compile_args (ds_args s)) [] [] [] []))
         else if k = ''assign'' then
           (if ds_assigns s = [] then Inl (''step '' @ ds_id s @ '': assignments required'')
            else Inr (YStep (ds_id s) [] [] (compile_assigns (ds_assigns s)) [] [] []))
         else if k = ''if'' then
           (case ds_cond s of
              None \<Rightarrow> Inl (''step '' @ ds_id s @ '': condition required'')
            | Some c \<Rightarrow>
                on_ok (compile_condition c) (\<lambda>e.
                on_ok (compile_steps (ds_then s) []) (\<lambda>th.
                on_ok (compile_steps (ds_else s) []) (\<lambda>el. Inr (YStep (ds_id s) [] [] [] e th el)))))
         else Inl (''step '' @ ds_id s @ '': unsupported kind '' @ quote (ds_kind s)))"
  by pat_completeness auto

termination
  by (relation "measure (case_sum (\<lambda>(ss, _). size_list size ss) size)") (simp_all add: design_children_size)

declare build_step.simps [simp del]

definition compile_input_of :: "input_field \<Rightarrow> compile_input" where
  "compile_input_of f =
     \<lparr>ci_type = default_type (fd_type f), ci_default = fd_default f, ci_description = fd_description f\<rparr>"

definition design_to_doc :: "design \<Rightarrow> compile_doc result" where
  "design_to_doc d =
     (if [] \<in> set (map fd_name (de_inputs d)) then Inl ''design: input name required''
      else on_ok (compile_steps (de_steps d) []) (\<lambda>ys. Inr
        \<lparr>cd_id = de_id d, cd_name = de_name d, cd_description = de_description d,
         cd_inputs = fold (\<lambda>f. AList.update (fd_name f) (compile_input_of f)) (de_inputs d) [],
         cd_steps = ys,
         cd_outputs = fold (\<lambda>x m. if of_name x = [] then m else AList.update (of_name x) (normalize_expr (of_expr x)) m)
                        (de_outputs d) []\<rparr>))"

text \<open>\<open>CompileDesign\<close>; \<open>enc\<close> is \<open>yaml.Marshal\<close>.\<close>

definition compile_design :: "(compile_doc \<Rightarrow> string result) \<Rightarrow> design option \<Rightarrow> string result" where
  "compile_design enc md = (case md of
       None \<Rightarrow> Inl ''design: nil''
     | Some d \<Rightarrow>
         if trim_space (de_id d) = [] then Inl ''design: id required''
         else if trim_space (de_name d) = [] then Inl ''design: name required''
         else on_ok (design_to_doc d) (\<lambda>doc.
              case enc doc of Inl e \<Rightarrow> Inl (''design: marshal: '' @ e) | Inr raw \<Rightarrow> Inr raw))"

section \<open>strconv.Unquote of a double-quoted text\<close>

definition encode_rune :: "nat \<Rightarrow> string" where
  "encode_rune r = map char_of
     (if r < 0x80 then [r]
      else if r < 0x800 then [0xC0 + r div 64, 0x80 + r mod 64]
      else if r < 0x10000 then [0xE0 + r div 4096, 0x80 + r div 64 mod 64, 0x80 + r mod 64]
      else [0xF0 + r div 262144, 0x80 + r div 4096 mod 64, 0x80 + r div 64 mod 64, 0x80 + r mod 64])"

definition number_in :: "nat \<Rightarrow> string \<Rightarrow> nat option" where
  "number_in base s =
     fold (\<lambda>c a. case (a, base_digit base c) of
         (Some n, Some d) \<Rightarrow> if d < base then Some (base * n + d) else None | _ \<Rightarrow> None) s (Some 0)"

definition valid_rune :: "nat \<Rightarrow> bool" where
  "valid_rune r \<longleftrightarrow> r < 0xD800 \<or> (0xE000 \<le> r \<and> r \<le> 0x10FFFF)"

text \<open>An escape after its backslash: the bytes it stands for and the number of bytes it takes.\<close>

definition unquote_escape :: "string \<Rightarrow> (string \<times> nat) option" where
  "unquote_escape s = (case s of
       [] \<Rightarrow> None
     | c # cs \<Rightarrow>
         (let simple = map_of [(CHR ''a'', 7), (CHR ''b'', 8), (CHR ''f'', 12), (CHR ''n'', 10), (CHR ''r'', 13),
                               (CHR ''t'', 9), (CHR ''v'', 11), (CHR 0x5C, 92), (CHR 0x22, 34 :: nat)];
              rune = (\<lambda>n. if length cs < n then None
                 else case number_in 16 (take n cs) of
                     None \<Rightarrow> None
                   | Some r \<Rightarrow> if valid_rune r then Some (encode_rune r, Suc n) else None)
          in case simple c of
              Some b \<Rightarrow> Some ([char_of b], 1)
            | None \<Rightarrow>
                if c = CHR ''x'' then
                  (if length cs < 2 then None
                   else map_option (\<lambda>b. ([char_of b], 3)) (number_in 16 (take 2 cs)))
                else if c = CHR ''u'' then rune 4
                else if c = CHR ''U'' then rune 8
                else if is_digit c \<and> length s \<ge> 3 then
                  (case number_in 8 (take 3 s) of
                     None \<Rightarrow> None
                   | Some b \<Rightarrow> if b > 255 then None else Some ([char_of b], 3))
                else None))"

function unquote_body :: "string \<Rightarrow> string option" where
  "unquote_body s = (case s of
       [] \<Rightarrow> None
     | c # cs \<Rightarrow>
         if c = CHR 0x22 then (if cs = [] then Some [] else None)
         else if c = CHR 0x0A then None
         else if c = CHR 0x5C then
           (case unquote_escape cs of
              None \<Rightarrow> None
            | Some (t, n) \<Rightarrow> map_option (append t) (unquote_body (drop n cs)))
         else if (of_char c :: nat) < 128 then map_option (Cons c) (unquote_body cs)
         else case utf8_len s of
             None \<Rightarrow> map_option (append (encode_rune 0xFFFD)) (unquote_body cs)
           | Some n \<Rightarrow> map_option (append (take n s)) (unquote_body (drop (n - 1) cs)))"
  by pat_completeness auto
termination
  by (relation "measure length") auto

declare unquote_body.simps [simp del]

definition go_unquote :: "string \<Rightarrow> string option" where
  "go_unquote s = (if has_prefix [CHR 0x22] s then unquote_body (tl s) else None)"

section \<open>DecompileDesign\<close>

definition decompile_arg :: "string \<times> val \<Rightarrow> arg_field" where
  "decompile_arg = (\<lambda>(name, v). case v of
       VStr x \<Rightarrow> \<lparr>ar_name = name, ar_value = x,
          ar_kind = (if is_expr_token x \<or> contains x ''${'' then ''expr'' else ''literal'')\<rparr>
     | _ \<Rightarrow> \<lparr>ar_name = name, ar_value = sprint v, ar_kind = ''literal''\<rparr>)"

text \<open>\<open>strings.Trim\<close>.\<close>

definition trim_set :: "char set \<Rightarrow> string \<Rightarrow> string" where
  "trim_set cs s = rev (dropWhile (\<lambda>c. c \<in> cs) (rev (dropWhile (\<lambda>c. c \<in> cs) s)))"

definition as_token :: "string \<Rightarrow> string" where
  "as_token s = (if has_prefix ''${'' s then s else ''${'' @ s @ ''}'')"

definition quoted :: "string \<Rightarrow> bool" where
  "quoted s \<longleftrightarrow> has_prefix [CHR 0x22] s \<and> has_suffix [CHR 0x22] s"

definition right_operand :: "string \<Rightarrow> string \<times> string" where
  "right_operand right =
     (if quoted right then (case go_unquote right of None \<Rightarrow> [] | Some u \<Rightarrow> u, ''literal'')
      else if length right \<ge> 2 \<and> hd right = CHR 0x27 \<and> last right = CHR 0x27
        then (trim_set {CHR 0x27} right, ''literal'')
      else if is_path_like right then (as_token right, ''expr'')
      else (right, ''literal''))"

definition left_operand :: "string \<Rightarrow> string \<times> string" where
  "left_operand left =
     (if quoted left then (case go_unquote left of None \<Rightarrow> (left, ''expr'') | Some u \<Rightarrow> (u, ''literal''))
      else if is_path_like left then (as_token left, ''expr'')
      else (trim_set {CHR 0x22, CHR 0x27} left, ''literal''))"

definition op_keys :: "(string \<times> string) list" where
  "op_keys = [(''=='', ''eq''), (''!='', ''ne''), (''<='', ''le''), (''>='', ''ge''), (''<'', ''lt''), (''>'', ''gt'')]"

fun first_op :: "string \<Rightarrow> (string \<times> string) list \<Rightarrow> design_condition option" where
  "first_op inner [] = None"
| "first_op inner ((op, key) # ops) =
     (case index_of op inner of
        None \<Rightarrow> first_op inner ops
      | Some i \<Rightarrow>
          (let (lv, lk) = left_operand (trim_space (take i inner));
               (rv, rk) = right_operand (trim_space (drop (i + length op) inner))
           in Some \<lparr>dc_left = lv, dc_left_kind = lk, dc_op = key, dc_right = rv, dc_right_kind = rk\<rparr>))"

definition parse_if_condition :: "string \<Rightarrow> design_condition result" where
  "parse_if_condition e =
     (case first_op (strip_expr_wrapper (trim_space e)) op_keys of
        Some c \<Rightarrow> Inr c
      | None \<Rightarrow> Inl (''unsupported if expression '' @ quote e @ '' (use binary comparison)''))"

text \<open>Both return the warnings; a step that cannot be shown is dropped and becomes a warning.\<close>

function decompile_steps :: "step list \<Rightarrow> design_step list \<times> string list"
  and decompile_step :: "step \<Rightarrow> design_step result \<times> string list" where
  "decompile_steps [] = ([], [])"
| "decompile_steps (s # ss) =
     (let (r, w) = decompile_step s; (out, w') = decompile_steps ss
      in case r of Inl e \<Rightarrow> (out, w @ [e] @ w') | Inr d \<Rightarrow> (d # out, w @ w'))"
| "decompile_step s =
     (case st_kind s of
        NodeTool \<Rightarrow> (Inr (DStep (st_id s) ''tool'' (st_use s)
            (map decompile_arg (case st_args s of None \<Rightarrow> [] | Some a \<Rightarrow> a)) [] None [] []), [])
      | NodeAssign \<Rightarrow> (Inr (DStep (st_id s) ''assign'' [] []
            (map (\<lambda>(k, v). \<lparr>as_var = k, as_expr = v, as_label = []\<rparr>) (st_assign s)) None [] []), [])
      | NodeIf \<Rightarrow>
          (case parse_if_condition (st_if s) of
             Inl e \<Rightarrow> (Inl (''step '' @ st_id s @ '': '' @ e), [])
           | Inr c \<Rightarrow>
               (let (th, w1) = decompile_steps (st_then s); (el, w2) = decompile_steps (st_else s)
                in (Inr (DStep (st_id s) ''if'' [] [] [] (Some c) th el), w1 @ w2)))
      | NodeNone \<Rightarrow> (Inl (''step '' @ st_id s @ '': unknown kind''), [])
      | k \<Rightarrow> (Inl (''step '' @ st_id s @ '': kind '' @ kind_text k @ '' not supported in design editor''), []))"
  by pat_completeness auto
termination
  by (relation "measure (case_sum (size_list size) size)") (simp_all add: step_children_size)

declare decompile_step.simps [simp del]

definition doc_to_design :: "workflow_doc \<Rightarrow> design \<times> string list" where
  "doc_to_design doc =
     (let (ss, w) = decompile_steps (doc_steps doc) in
      (\<lparr>de_id = doc_id doc, de_name = doc_name doc, de_description = doc_description doc,
        de_inputs = map (\<lambda>(n, spec). \<lparr>fd_name = n, fd_type = in_type spec, fd_default = in_default spec,
            fd_label = [], fd_description = [],
            fd_widget = (if n = ''scenario'' then ''select'' else ''text''),
            fd_options = (if n = ''scenario'' then [''ok'', ''degraded''] else [])\<rparr>) (doc_inputs doc),
        de_steps = ss,
        de_outputs = map (\<lambda>(n, e). \<lparr>of_name = n, of_expr = e\<rparr>) (doc_outputs doc)\<rparr>, w))"

definition decompile_design :: "(string \<Rightarrow> workflow_doc result) \<Rightarrow> string \<Rightarrow> (design \<times> string list) result" where
  "decompile_design dec src =
     (case parse_doc dec src of Inl e \<Rightarrow> Inl (''design: '' @ e) | Inr doc \<Rightarrow> Inr (doc_to_design doc))"

section \<open>The compile request\<close>

text \<open>\<open>designCompile\<close> for a caller with claims: the code and detail of a 400 answer, or the text.\<close>

definition tool_name_set :: "tool_def list \<Rightarrow> string list" where
  "tool_name_set defs = map td_name defs"

definition design_compile ::
  "('s, 'z) svc_env_scheme \<Rightarrow> (compile_doc \<Rightarrow> string result) \<Rightarrow> tool_def list option \<Rightarrow> design option \<Rightarrow> string \<Rightarrow>
   (string \<times> string) + string" where
  "design_compile env enc lister body slug = (case body of
       None \<Rightarrow> Inl (''invalid_body'', [])
     | Some d \<Rightarrow>
         (case validate_design (Some d) (map_option tool_name_set lister) of
            Some e \<Rightarrow> Inl (''validate'', e)
          | None \<Rightarrow>
              (case compile_design enc (Some d) of
                 Inl e \<Rightarrow> Inl (''compile'', e)
               | Inr dsl \<Rightarrow>
                   if slug \<noteq> [] then
                     (if de_id d \<noteq> slug then
                        Inl (''validate'', ''design id '' @ quote (de_id d) @ '' does not match slug '' @ quote slug)
                      else case parse_validate env dsl slug of
                          Inl e \<Rightarrow> Inl (''validate'', svc_err_text e)
                        | Inr _ \<Rightarrow> Inr dsl)
                   else case parse_doc (se_unmarshal env) dsl of
                       Inl e \<Rightarrow> Inl (''parse'', e)
                     | Inr _ \<Rightarrow> Inr dsl)))"

text \<open>\<open>dedupeToolDefs\<close>: the first of each name.\<close>

fun dedupe_tool_defs :: "tool_def list \<Rightarrow> string list \<Rightarrow> tool_def list" where
  "dedupe_tool_defs [] seen = []"
| "dedupe_tool_defs (d # ds) seen =
     (if td_name d \<in> set seen then dedupe_tool_defs ds seen
      else d # dedupe_tool_defs ds (td_name d # seen))"

section \<open>Trimming\<close>

lemma trim_left_shorter [simp]: "length s < length t \<Longrightarrow> trim_left s \<noteq> t" "length s < length t \<Longrightarrow> trim_rev s \<noteq> t"
  by (metis leD length_trim_left) (metis leD length_trim_rev)

lemma trim_left_fix_iff:
  "trim_left s = s \<longleftrightarrow> (case s of
       [] \<Rightarrow> True
     | a # t \<Rightarrow> \<not> ascii_space a \<and> (case t of [] \<Rightarrow> True
        | b # u \<Rightarrow> \<not> uspace2 a b \<and> (case u of [] \<Rightarrow> True | c # v \<Rightarrow> \<not> uspace3 a b c)))"
  by (cases s rule: trim_left.cases) auto

lemma trim_rev_fix_iff:
  "trim_rev s = s \<longleftrightarrow> (case s of
       [] \<Rightarrow> True
     | a # t \<Rightarrow> \<not> ascii_space a \<and> (case t of [] \<Rightarrow> True
        | b # u \<Rightarrow> \<not> uspace2 b a \<and> (case u of [] \<Rightarrow> True | c # v \<Rightarrow> \<not> uspace3 c b a)))"
  by (cases s rule: trim_rev.cases) auto

lemma trim_left_idem [simp]: "trim_left (trim_left s) = trim_left s"
  by (induction s rule: trim_left.induct) (auto simp: trim_left_fix_iff split: list.splits)

lemma trim_rev_idem [simp]: "trim_rev (trim_rev s) = trim_rev s"
  by (induction s rule: trim_rev.induct) (auto simp: trim_rev_fix_iff split: list.splits)

lemma trim_left_prefix: "trim_left (p @ q) = p @ q \<Longrightarrow> trim_left p = p"
  unfolding trim_left_fix_iff by (cases p; cases "tl p"; cases "tl (tl p)") (auto split: list.splits)

lemma trim_space_idem [simp]: "trim_space (trim_space s) = trim_space s"
proof -
  obtain q where "rev (trim_left s) = q @ trim_rev (rev (trim_left s))"
    using trim_rev_suffix by blast
  then have "trim_left s = trim_space s @ rev q"
    unfolding trim_space_def by (metis rev_append rev_rev_ident)
  then have "trim_left (trim_space s) = trim_space s"
    using trim_left_prefix [of "trim_space s" "rev q"] trim_left_idem [of s] by metis
  then show ?thesis
    by (simp add: trim_space_def)
qed

lemma trim_space_fix: "trim_space s = s \<longleftrightarrow> trim_left s = s \<and> trim_rev (rev s) = rev s"
proof
  assume eq: "trim_space s = s"
  have "length s \<le> length (trim_left s)"
    using eq length_trim_rev [of "rev (trim_left s)"] by (metis length_rev trim_space_def)
  then have "trim_left s = s"
    using trim_left_suffix [of s] by (metis add_diff_cancel_right' append_self_conv2 diff_is_0_eq le_add2 length_0_conv length_append)
  then show "trim_left s = s \<and> trim_rev (rev s) = rev s"
    using eq by (metis rev_swap trim_space_def)
qed (simp add: trim_space_def)

lemma no_space_pair [simp]:
  "\<not> uspace2 a (CHR '' '')" "\<not> uspace2 (CHR '' '') a" "\<not> uspace3 a b (CHR '' '')"
  "\<not> uspace3 (CHR '' '') a b" "\<not> uspace3 a (CHR '' '') b"
  by (simp_all add: uspace2_def uspace3_def Let_def)

lemma trim_left_blank_after: "trim_left l = l \<Longrightarrow> l \<noteq> [] \<Longrightarrow> trim_left (l @ CHR '' '' # s) = l @ CHR '' '' # s"
  unfolding trim_left_fix_iff by (cases l; cases "tl l"; cases "tl (tl l)") (auto split: list.splits)

lemma trim_rev_blank_after: "trim_rev l = l \<Longrightarrow> l \<noteq> [] \<Longrightarrow> trim_rev (l @ CHR '' '' # s) = l @ CHR '' '' # s"
  unfolding trim_rev_fix_iff by (cases l; cases "tl l"; cases "tl (tl l)") (auto split: list.splits)

lemma trim_blank_left: "trim_left (CHR '' '' # s) = trim_left s"
  by (cases s; cases "tl s") (simp_all add: ascii_space_def)

lemma trim_blank_rev: "trim_rev (CHR '' '' # s) = trim_rev s"
  by (cases s; cases "tl s") (simp_all add: ascii_space_def)

lemma trim_space_join:
  assumes "trim_space l = l" "l \<noteq> []" "trim_space r = r" "r \<noteq> []"
  shows "trim_space (l @ CHR '' '' # m @ CHR '' '' # r) = l @ CHR '' '' # m @ CHR '' '' # r"
    "trim_space (l @ [CHR '' '']) = l" "trim_space (CHR '' '' # r) = r"
proof -
  note l = assms(1) [unfolded trim_space_fix] and r = assms(3) [unfolded trim_space_fix]
  have "trim_rev (rev r @ CHR '' '' # (rev m @ CHR '' '' # rev l)) = rev r @ CHR '' '' # (rev m @ CHR '' '' # rev l)"
    using r assms(4) by (intro trim_rev_blank_after) auto
  then show "trim_space (l @ CHR '' '' # m @ CHR '' '' # r) = l @ CHR '' '' # m @ CHR '' '' # r"
    unfolding trim_space_fix using trim_left_blank_after [of l] l assms(2) by simp
  show "trim_space (l @ [CHR '' '']) = l"
    using trim_left_blank_after [of l "[]"] l assms(2) by (simp add: trim_space_def trim_blank_rev)
  show "trim_space (CHR '' '' # r) = r"
    using r by (simp add: trim_space_def trim_blank_left)
qed

section \<open>What a condition means\<close>

definition op_char :: "char \<Rightarrow> bool" where
  "op_char c \<longleftrightarrow> c \<in> set ''$&=!<>|{}''"

lemma op_char_simps:
  "op_char (CHR ''$'')" "op_char (CHR ''&'')" "op_char (CHR ''='')" "op_char (CHR ''!'')" "op_char (CHR ''<'')"
  "op_char (CHR ''>'')" "op_char (CHR ''|'')" "op_char (CHR ''{'')" "op_char (CHR ''}'')" "\<not> op_char (CHR 0x22)"
  "\<not> op_char (CHR '' '')"
  by (simp_all add: op_char_def)

text \<open>The scan for an operator skips text without operator characters.\<close>

lemma split_scan_skip:
  assumes "list_all (\<lambda>c. \<not> op_char c) l" "op_char (hd op)" "op \<noteq> []" "length op \<le> length s"
  shows "split_scan op 0 pre (l @ s) = split_scan op 0 (rev l @ pre) s"
  using assms(1)
proof (induction l arbitrary: pre)
  case (Cons c l)
  then have "\<not> has_prefix ''${'' (c # l @ s)" "\<not> has_prefix op (c # l @ s)"
    using assms(2,3) op_char_simps by (cases op; auto simp: has_prefix_def)+
  then show ?case
    using Cons assms(4) by simp
qed simp

lemma split_scan_plain:
  "list_all (\<lambda>c. \<not> op_char c) r \<Longrightarrow> op \<noteq> [] \<Longrightarrow> op_char (hd op) \<Longrightarrow> split_scan op 0 pre r = None"
  by (rule split_scan_no_op) (auto simp: list_all_iff op_char_simps)

lemma first_split_binary:
  assumes l: "list_all (\<lambda>c. \<not> op_char c) l" "trim_space l = l" "l \<noteq> []"
    and r: "list_all (\<lambda>c. \<not> op_char c) r" "trim_space r = r" "r \<noteq> []"
    and op: "op \<in> set cmp_ops"
  shows "first_split (l @ '' '' @ op @ '' '' @ r) cmp_ops = Some (op, l, r)"
    "split_top_level (l @ '' '' @ op @ '' '' @ r) ''||'' = None"
    "split_top_level (l @ '' '' @ op @ '' '' @ r) ''&&'' = None"
proof -
  have skip: "split_scan p 0 [] (l @ s) = split_scan p 0 (rev l) s"
    if "p \<in> set (''||'' # ''&&'' # cmp_ops)" "length p \<le> length s" for p s
    using that split_scan_skip [OF l(1), of p s "[]"] by (auto simp: cmp_ops_def op_char_simps)
  have none: "split_scan p 0 pre r = None" if "p \<in> set (''||'' # ''&&'' # cmp_ops)" for p pre
    using that split_scan_plain [OF r(1)] by (auto simp: cmp_ops_def op_char_simps)
  have trims: "trim_space (l @ '' '') = l" "trim_space (CHR '' '' # r) = r"
    using trim_space_join(2,3) [OF l(2,3) r(2,3)] by simp_all
  show "first_split (l @ '' '' @ op @ '' '' @ r) cmp_ops = Some (op, l, r)"
    using op r(3) unfolding cmp_ops_def
    by (auto simp: split_top_level_def skip none cmp_ops_def has_prefix_def trims)
  show "split_top_level (l @ '' '' @ op @ '' '' @ r) ''||'' = None"
    "split_top_level (l @ '' '' @ op @ '' '' @ r) ''&&'' = None"
    using op r(3) by (auto simp: split_top_level_def skip none cmp_ops_def has_prefix_def)
qed

definition compared :: "val result \<Rightarrow> val result \<Rightarrow> string \<Rightarrow> bool" where
  "compared a b op = (case (a, b) of (Inr x, Inr y) \<Rightarrow> cmp_val x y op | _ \<Rightarrow> False)"

lemma resolve_binary:
  assumes l: "list_all (\<lambda>c. \<not> op_char c) l" "trim_space l = l" "l \<noteq> []"
    and r: "list_all (\<lambda>c. \<not> op_char c) r" "trim_space r = r" "r \<noteq> []"
    and op: "op \<in> set cmp_ops"
  shows "resolve (''${'' @ (l @ '' '' @ op @ '' '' @ r) @ ''}'') sc =
    Inr (VBool (compared (resolve_operand l sc) (resolve_operand r sc) op))"
proof -
  let ?x = "l @ '' '' @ op @ '' '' @ r"
  have x: "trim_space ?x = ?x" "?x \<noteq> []"
    using trim_space_join(1) [OF l(2,3) r(2,3), of op] by simp_all
  have "try_bool ?x sc = Some (compared (resolve_operand l sc) (resolve_operand r sc) op)"
    unfolding compared_def
    by (subst try_bool.simps) (simp add: first_split_binary [OF l r op, simplified] split: sum.split)
  then have e: "eval_expr ?x sc = Inr (VBool (compared (resolve_operand l sc) (resolve_operand r sc) op))"
    using x by (subst eval_expr.simps) (simp add: Let_def)
  have "CHR ''$'' \<notin> set ?x" "CHR ''}'' \<notin> set ?x"
    using l(1) r(1) op op_char_simps by (auto simp: list_all_iff cmp_ops_def)
  then have "count_top 0 0 (''${'' @ ?x @ ''}'') = 1"
    using count_top_single [of ?x 1] by (simp add: has_prefix_def)
  moreover have "trim_space (''${'' @ ?x @ ''}'') = ''${'' @ ?x @ ''}''"
    by (rule trim_space_plain) (simp_all add: plain_char_def)
  ultimately show ?thesis
    using e by (simp add: resolve_def has_prefix_def has_suffix_def butlast_append)
qed

text \<open>Which operands are references, and what an operand stands for.\<close>

definition refers :: "string \<Rightarrow> string \<Rightarrow> bool \<Rightarrow> bool" where
  "refers v kind left \<longleftrightarrow> trim_space v \<noteq> [] \<and>
     (fold_expr kind \<or> is_expr_token (trim_space v) \<or>
      left \<and> kind = [] \<and> is_path_like (strip_expr_wrapper (trim_space v)))"

definition keyword :: "string \<Rightarrow> bool" where
  "keyword s \<longleftrightarrow> ascii_lower s \<in> {''true'', ''false'', ''null'', ''nil''}"

definition operand_meaning :: "string \<Rightarrow> string \<Rightarrow> bool \<Rightarrow> scope \<Rightarrow> val result" where
  "operand_meaning v kind left sc =
     (let t = trim_space v
      in if refers v kind left then resolve_operand (strip_expr_wrapper t) sc
         else case parse_int64 t of
             Some n \<Rightarrow> Inr (VInt64 n)
           | None \<Rightarrow> (case parse_float t of
                 Some f \<Rightarrow> Inr (VFloat f)
               | None \<Rightarrow> if keyword t then resolve_operand t sc else Inr (VStr t)))"

definition plain_operand :: "string \<Rightarrow> string \<Rightarrow> bool \<Rightarrow> bool" where
  "plain_operand v kind left \<longleftrightarrow>
     (let t = trim_space v; u = (if refers v kind left then strip_expr_wrapper t else t)
      in list_all (\<lambda>c. \<not> op_char c \<and> c \<noteq> CHR 0x22) u \<and> (refers v kind left \<longrightarrow> u \<noteq> []))"

lemma escape_quotes_plain: "CHR 0x22 \<notin> set s \<Longrightarrow> escape_quotes s = s"
  by (induction s) (auto simp: escape_quotes_def)

lemma number_not_quoted:
  assumes "parse_int64 t \<noteq> None \<or> parse_float t \<noteq> None"
  shows "t \<noteq> []" "hd t \<noteq> CHR 0x27" "t \<notin> {''true'', ''false'', ''null'', ''nil''}"
proof -
  have "parse_int64 (CHR 0x27 # cs) = None" "parse_float (CHR 0x27 # cs) = None" for cs
    by (simp_all add: parse_int64_def split_sign_def is_digit_def parse_float_def special_float_def lower_char_def
        Let_def hex_prefix_def base_digit_def)
  then show "hd t \<noteq> CHR 0x27" "t \<noteq> []"
    using assms by (cases t; auto simp: parse_int64_def split_sign_def parse_float_def special_float_def)+
  show "t \<notin> {''true'', ''false'', ''null'', ''nil''}"
  proof
    assume "t \<in> {''true'', ''false'', ''null'', ''nil''}"
    then show False
      using assms by (auto simp: parse_int64_def split_sign_def is_digit_def parse_float_def special_float_def
          lower_char_def hex_prefix_def base_digit_def Let_def)
  qed
qed

lemma number_literal:
  assumes "CHR 0x22 \<notin> set t" "trim_space t = t"
  shows "parse_int64 t = Some n \<Longrightarrow> resolve_operand t sc = Inr (VInt64 n)"
    "parse_int64 t = None \<Longrightarrow> parse_float t = Some f \<Longrightarrow> resolve_operand t sc = Inr (VFloat f)"
proof -
  have "try_literal t = (case parse_int64 t of Some n \<Rightarrow> Some (VInt64 n) | None \<Rightarrow> map_option VFloat (parse_float t))"
    if num: "parse_int64 t \<noteq> None \<or> parse_float t \<noteq> None"
  proof -
    note nq = number_not_quoted [OF num]
    have "hd t \<noteq> CHR 0x22"
      using assms(1) nq(1) hd_in_set [of t] by metis
    then have "\<not> (length t \<ge> 2 \<and> ((hd t = CHR 0x22 \<and> last t = CHR 0x22) \<or> (hd t = CHR 0x27 \<and> last t = CHR 0x27)))"
      using nq(2) by blast
    moreover have "t \<noteq> ''true''" "t \<noteq> ''false''" "\<not> (t = ''null'' \<or> t = ''nil'')"
      using nq(3) by blast+
    ultimately show ?thesis
      unfolding try_literal_def by (simp only: if_False map_option_case)
  qed
  then show "parse_int64 t = Some n \<Longrightarrow> resolve_operand t sc = Inr (VInt64 n)"
      "parse_int64 t = None \<Longrightarrow> parse_float t = Some f \<Longrightarrow> resolve_operand t sc = Inr (VFloat f)"
    using assms(2) by (simp_all add: resolve_operand_def)
qed

lemma strip_trimmed: "trim_space (strip_expr_wrapper s) = strip_expr_wrapper s"
  by (simp add: strip_expr_wrapper_def Let_def)

lemma resolve_quoted:
  assumes "u = [CHR 0x22] @ t @ [CHR 0x22]"
  shows "trim_space u = u" "resolve_operand u sc = Inr (VStr t)"
proof -
  show "trim_space u = u"
    unfolding assms by (rule trim_space_plain) (simp_all add: plain_char_def)
  then show "resolve_operand u sc = Inr (VStr t)"
    by (simp add: resolve_operand_def try_literal_def assms)
qed

lemma operand_formats:
  assumes "plain_operand v kind left"
  defines "u \<equiv> format_condition_operand v kind left"
  shows "list_all (\<lambda>c. \<not> op_char c) u \<and> trim_space u = u \<and> u \<noteq> [] \<and>
    resolve_operand u sc = operand_meaning v kind left sc"
proof (cases "refers v kind left")
  case True
  then have "u = strip_expr_wrapper (trim_space v)"
    by (auto simp: u_def format_condition_operand_def refers_def Let_def)
  then show ?thesis
    using assms(1) True by (auto simp: plain_operand_def operand_meaning_def strip_trimmed list_all_iff Let_def)
next
  case False
  define t where "t = trim_space v"
  have t: "trim_space t = t" "list_all (\<lambda>c. \<not> op_char c) t" "CHR 0x22 \<notin> set t"
    using assms(1) False by (auto simp: t_def plain_operand_def Let_def list_all_iff)
  have whole: "u = t \<and> t \<noteq> []" if "parse_int64 t \<noteq> None \<or> parse_float t \<noteq> None \<or> keyword t"
  proof -
    have "t \<noteq> []"
      using that number_not_quoted(1) by (auto simp: keyword_def)
    then show ?thesis
      using that False by (auto simp: u_def format_condition_operand_def refers_def keyword_def t_def [symmetric] Let_def)
  qed
  have quoted: "u = [CHR 0x22] @ t @ [CHR 0x22]"
    if "parse_int64 t = None" "parse_float t = None" "\<not> keyword t"
  proof -
    have "\<not> has_prefix [CHR 0x22] t"
      using t(3) by (cases t) (auto simp: has_prefix_def)
    then show ?thesis
      using that False escape_quotes_plain [OF t(3)]
      by (cases "t = []") (auto simp: u_def format_condition_operand_def refers_def keyword_def t_def [symmetric] Let_def)
  qed
  have meaning: "operand_meaning v kind left sc = (case parse_int64 t of Some n \<Rightarrow> Inr (VInt64 n)
      | None \<Rightarrow> (case parse_float t of Some f \<Rightarrow> Inr (VFloat f)
         | None \<Rightarrow> if keyword t then resolve_operand t sc else Inr (VStr t)))"
    unfolding operand_meaning_def t_def Let_def using False by simp
  show ?thesis
  proof (cases "parse_int64 t \<noteq> None \<or> parse_float t \<noteq> None \<or> keyword t")
    case True
    then show ?thesis
      using whole [OF True] t number_literal [OF t(3,1)] unfolding meaning by (auto split: option.split)
  next
    case False
    then show ?thesis
      using quoted resolve_quoted [OF quoted] t(2) op_char_simps unfolding meaning by auto
  qed
qed

text \<open>
  The condition of a visual step means what the editor shows: where neither operand contains
  operator characters, braces or double quotes, the compiled expression evaluates to the comparison
  of the two operands, references looked up, numbers as numbers and everything else as text; an
  operand that cannot be resolved makes the condition false.
\<close>

theorem design_condition_meaning:
  assumes "compile_condition c = Inr e"
    and "plain_operand (dc_left c) (dc_left_kind c) True" "plain_operand (dc_right c) (dc_right_kind c) False"
  shows "\<exists>op. condition_op_symbol (dc_op c) = Inr op \<and>
     resolve e sc = Inr (VBool (compared (operand_meaning (dc_left c) (dc_left_kind c) True sc)
                                         (operand_meaning (dc_right c) (dc_right_kind c) False sc) op))"
proof -
  obtain op where op: "condition_op_symbol (dc_op c) = Inr op"
      "e = ''${'' @ (format_condition_operand (dc_left c) (dc_left_kind c) True @ '' '' @ op @ '' ''
             @ format_condition_operand (dc_right c) (dc_right_kind c) False) @ ''}''"
    using assms(1) by (auto simp: compile_condition_def on_ok_Inr_iff Let_def)
  then have "op \<in> set cmp_ops"
    by (auto simp: condition_op_symbol_def cmp_ops_def Let_def split: if_splits)
  then show ?thesis
    using op resolve_binary operand_formats [OF assms(2), of sc] operand_formats [OF assms(3), of sc] by simp
qed

section \<open>A design compiled and read again\<close>

text \<open>
  The document the YAML decoder finds in the text of a compiled document; \<open>re\<close> is what a value of an
  argument or a default is read back as.
\<close>

primrec step_of :: "(val \<Rightarrow> val) \<Rightarrow> yaml_step \<Rightarrow> step" where
  "step_of re (YStep i use args asg e th el) =
     Step i NodeNone use (if args = [] then None else Some (map (\<lambda>(k, v). (k, re v)) args)) 0 [] [] asg e
       (map (step_of re) th) (map (step_of re) el) [] [] [] [] [] 0"

definition doc_of :: "(val \<Rightarrow> val) \<Rightarrow> compile_doc \<Rightarrow> workflow_doc" where
  "doc_of re cd = \<lparr>doc_id = cd_id cd, doc_name = cd_name cd, doc_version = 0, doc_description = cd_description cd,
     doc_inputs = map (\<lambda>(n, ci). (n, \<lparr>in_type = ci_type ci, in_default = re (ci_default ci), in_schema = []\<rparr>)) (cd_inputs cd),
     doc_triggers = [], doc_steps = map (step_of re) (cd_steps cd), doc_outputs = cd_outputs cd\<rparr>"

text \<open>The normal form of the editor: names once, texts trimmed, expressions in braces.\<close>

definition expr_token :: "string \<Rightarrow> bool" where
  "expr_token s \<longleftrightarrow> is_expr_token s \<and> trim_space s = s"

definition normal_arg :: "arg_field \<Rightarrow> bool" where
  "normal_arg a \<longleftrightarrow>
     (let v = ar_value a in
      trim_space v = v \<and>
      (expr_token v \<and> ar_kind a = ''expr'' \<or>
       \<not> contains v ''${'' \<and> ar_kind a = ''literal'' \<and>
         (case parse_int64 v of
            Some n \<Rightarrow> show_int n = v
          | None \<Rightarrow> parse_float v = None \<and> ascii_lower v \<notin> {''true'', ''false''})))"

definition literal_char :: "char \<Rightarrow> bool" where
  "literal_char c \<longleftrightarrow> 32 \<le> (of_char c :: nat) \<and> (of_char c :: nat) < 127 \<and> \<not> op_char c \<and> c \<notin> {CHR 0x22, CHR 0x27, CHR 0x5C}"

definition normal_operand :: "string \<Rightarrow> string \<Rightarrow> bool" where
  "normal_operand v kind \<longleftrightarrow>
     (if kind = ''expr''
      then (let p = butlast (drop 2 v) in
            v = ''${'' @ p @ ''}'' \<and> is_path_like p \<and> list_all path_char p)
      else kind = ''literal'' \<and> list_all literal_char v \<and> trim_space v = v \<and> v \<noteq> [] \<and> \<not> is_path_like v)"

definition normal_condition :: "design_condition \<Rightarrow> bool" where
  "normal_condition c \<longleftrightarrow> dc_op c \<in> set (map snd op_keys) \<and>
     normal_operand (dc_left c) (dc_left_kind c) \<and> normal_operand (dc_right c) (dc_right_kind c)"

fun normal_steps :: "design_step list \<Rightarrow> bool" where
  "normal_steps [] = True"
| "normal_steps (DStep i k tool args asg c th el # ss) =
     (i \<noteq> [] \<and> i \<notin> set (map ds_id ss) \<and> normal_steps ss \<and>
      (k = ''tool'' \<and> tool \<noteq> [] \<and> asg = [] \<and> c = None \<and> th = [] \<and> el = [] \<and>
         distinct (map ar_name args) \<and> list_all (\<lambda>a. ar_name a \<noteq> [] \<and> normal_arg a) args \<or>
       k = ''assign'' \<and> tool = [] \<and> args = [] \<and> c = None \<and> th = [] \<and> el = [] \<and> asg \<noteq> [] \<and>
         distinct (map as_var asg) \<and> list_all (\<lambda>a. as_var a \<noteq> [] \<and> expr_token (as_expr a) \<and> as_label a = []) asg \<or>
       k = ''if'' \<and> tool = [] \<and> args = [] \<and> asg = [] \<and>
         (case c of None \<Rightarrow> False | Some c \<Rightarrow> normal_condition c) \<and> normal_steps th \<and> normal_steps el))"

lemma update_fresh: "k \<notin> fst ` set m \<Longrightarrow> AList.update k v m = m @ [(k, v)]"
  by (induction m) auto

lemma fold_update_fresh:
  assumes "distinct (map key xs)" "key ` set xs \<inter> fst ` set m = {}" "\<forall>x \<in> set xs. f x = AList.update (key x) (g x)"
  shows "fold f xs m = m @ map (\<lambda>x. (key x, g x)) xs"
  using assms
proof (induction xs arbitrary: m)
  case (Cons x xs)
  have "f x m = m @ [(key x, g x)]"
    using Cons.prems by (simp add: update_fresh)
  moreover have "key ` set xs \<inter> fst ` set (m @ [(key x, g x)]) = {}"
    using Cons.prems(1,2) by auto
  ultimately show ?case
    using Cons.IH [of "m @ [(key x, g x)]"] Cons.prems(1,3) by simp
qed simp

lemma normalize_token: "expr_token s \<Longrightarrow> normalize_expr s = s"
  by (auto simp: normalize_expr_def expr_token_def Let_def)

lemma has_prefix_hd: "has_prefix p s \<Longrightarrow> p \<noteq> [] \<Longrightarrow> s \<noteq> [] \<and> hd s = hd p"
  by (cases p; cases s) (auto simp: has_prefix_def)

lemma kinds: "fold_expr ''expr''" "\<not> fold_expr ''literal''"
  by code_simp+

lemma arg_again:
  assumes "normal_arg a" "\<And>s. re (VStr s) = VStr s" "\<And>n. re (VInt64 n) = VInt n"
  shows "decompile_arg (ar_name a, re (compile_arg_value a)) = a"
proof -
  define v where "v = ar_value a"
  have v: "trim_space v = v"
    using assms(1) by (simp add: normal_arg_def v_def Let_def)
  have tok: "contains v ''${''" if "is_expr_token v" for v
    using that has_prefix_hd [of "''${''" v] by (cases v) (simp_all add: is_expr_token_def contains_def)
  consider (token) "expr_token v" "ar_kind a = ''expr''"
    | (lit) "\<not> contains v ''${''" "ar_kind a = ''literal''"
        "parse_int64 v = None" "parse_float v = None" "ascii_lower v \<notin> {''true'', ''false''}"
    | (int) n where "\<not> contains v ''${''" "ar_kind a = ''literal''" "parse_int64 v = Some n" "show_int n = v"
    using assms(1) unfolding normal_arg_def Let_def v_def [symmetric] by (auto split: option.splits)
  then show ?thesis
  proof cases
    case token
    then have "compile_arg_value a = VStr v" "is_expr_token v"
      using normalize_token by (simp_all add: compile_arg_value_def v_def [symmetric] v expr_token_def)
    then show ?thesis
      using token(2) by (simp add: decompile_arg_def assms(2) v_def)
  next
    case lit
    then have "compile_arg_value a = VStr v" "\<not> is_expr_token v"
      using tok kinds(2) by (auto simp: compile_arg_value_def v_def [symmetric] v Let_def)
    then show ?thesis
      using lit(1,2) by (simp add: decompile_arg_def assms(2) v_def)
  next
    case int
    then have "compile_arg_value a = VInt64 n"
      using tok kinds(2) by (auto simp: compile_arg_value_def v_def [symmetric] v Let_def)
    then show ?thesis
      using int(2,4) by (simp add: decompile_arg_def assms(3) v_def)
  qed
qed

lemma unquote_plain:
  assumes "list_all literal_char v"
  shows "go_unquote ([CHR 0x22] @ v @ [CHR 0x22]) = Some v"
proof -
  have "unquote_body (v @ [CHR 0x22]) = Some v"
    using assms
  proof (induction v)
    case Nil
    then show ?case
      by (subst unquote_body.simps) simp
  next
    case (Cons c v)
    then have "c \<noteq> CHR 0x22" "c \<noteq> CHR 0x0A" "c \<noteq> CHR 0x5C" "(of_char c :: nat) < 128"
      by (auto simp: literal_char_def)
    then show ?case
      using Cons by (subst unquote_body.simps) simp
  qed
  then show ?thesis
    by (simp add: go_unquote_def has_prefix_def)
qed

lemma trim_set_plain: "set s \<inter> cs = {} \<Longrightarrow> trim_set cs s = s"
proof -
  have "dropWhile (\<lambda>c. c \<in> cs) s = s" if "set s \<inter> cs = {}" for s
    using that by (cases s) auto
  then show "set s \<inter> cs = {} \<Longrightarrow> trim_set cs s = s"
    by (simp add: trim_set_def)
qed

lemma quoted_plain: "CHR 0x22 \<notin> set v \<Longrightarrow> \<not> quoted v"
  by (cases v) (auto simp: quoted_def has_prefix_def)

definition reads_back :: "string \<Rightarrow> string \<Rightarrow> string \<Rightarrow> bool" where
  "reads_back u v kind \<longleftrightarrow> left_operand u = (v, kind) \<and> right_operand u = (v, kind) \<and>
     list_all (\<lambda>c. \<not> op_char c) u \<and> trim_space u = u \<and> u \<noteq> []"

lemma token_parts:
  "trim_space (''${'' @ p @ ''}'') = ''${'' @ p @ ''}''" "is_expr_token (''${'' @ p @ ''}'')"
  "strip_expr_wrapper (''${'' @ p @ ''}'') = trim_space p"
proof -
  show trim: "trim_space (''${'' @ p @ ''}'') = ''${'' @ p @ ''}''"
    by (rule trim_space_plain) (simp_all add: plain_char_def)
  show token: "is_expr_token (''${'' @ p @ ''}'')"
    by (simp add: is_expr_token_def has_prefix_def has_suffix_def)
  show "strip_expr_wrapper (''${'' @ p @ ''}'') = trim_space p"
    using token unfolding strip_expr_wrapper_def trim is_expr_token_def Let_def by (simp add: butlast_append)
qed

lemma path_char_no_op: "path_char c \<Longrightarrow> \<not> op_char c" "\<not> path_char (CHR 0x22)"
  using path_char_not_op [of c] by (auto simp only: op_char_def set_simps insert_iff) (simp add: path_char_def Let_def)

lemma path_operand:
  assumes "is_path_like p" "list_all path_char p"
  shows "format_condition_operand (''${'' @ p @ ''}'') ''expr'' left = p" "reads_back p (''${'' @ p @ ''}'') ''expr''"
proof -
  have "p \<noteq> [] \<and> hd p \<in> {CHR ''i'', CHR ''v'', CHR ''s''}"
    using assms(1) unfolding is_path_like_def by (auto dest!: has_prefix_hd)
  then have ne: "p \<noteq> []" "hd p \<noteq> CHR ''$''" "hd p \<noteq> CHR 0x27"
    by auto
  have q: "CHR 0x22 \<notin> set p" "list_all (\<lambda>c. \<not> op_char c) p"
    using assms(2) path_char_no_op by (auto simp: list_all_iff)
  have trim: "trim_space p = p"
    by (rule path_trim [OF assms(2) ne(1)])
  show "format_condition_operand (''${'' @ p @ ''}'') ''expr'' left = p"
    unfolding format_condition_operand_def token_parts Let_def trim using kinds(1) by simp
  have "\<not> has_prefix ''${'' p"
    using ne(2) has_prefix_hd [of "''${''" p] by auto
  then have "left_operand p = (''${'' @ p @ ''}'', ''expr'')" "right_operand p = (''${'' @ p @ ''}'', ''expr'')"
    using quoted_plain [OF q(1)] ne(3) assms(1) unfolding left_operand_def right_operand_def as_token_def by simp_all
  then show "reads_back p (''${'' @ p @ ''}'') ''expr''"
    unfolding reads_back_def using q(2) trim ne(1) by blast
qed

lemma literal_operand:
  assumes "list_all literal_char v" "trim_space v = v" "v \<noteq> []" "\<not> is_path_like v"
  shows "reads_back v v ''literal''" "reads_back ([CHR 0x22] @ v @ [CHR 0x22]) v ''literal''"
proof -
  have chars: "CHR 0x22 \<notin> set v" "CHR 0x27 \<notin> set v" "list_all (\<lambda>c. \<not> op_char c) v"
    using assms(1) by (auto simp: list_all_iff literal_char_def)
  have "hd v \<noteq> CHR 0x27"
    using chars(2) assms(3) hd_in_set [of v] by metis
  then show "reads_back v v ''literal''"
    using quoted_plain [OF chars(1)] assms(2-4) chars trim_set_plain [of v "{CHR 0x22, CHR 0x27}"]
    by (simp add: reads_back_def left_operand_def right_operand_def)
  have "quoted ([CHR 0x22] @ v @ [CHR 0x22])"
    by (simp add: quoted_def has_prefix_def has_suffix_def)
  then show "reads_back ([CHR 0x22] @ v @ [CHR 0x22]) v ''literal''"
    unfolding reads_back_def left_operand_def right_operand_def unquote_plain [OF assms(1)]
    using resolve_quoted(1) [OF refl, of v] chars(3) op_char_simps by simp
qed

lemma operand_again:
  assumes "normal_operand v kind"
  shows "reads_back (format_condition_operand v kind left) v kind"
proof (cases "kind = ''expr''")
  case True
  then show ?thesis
    using assms path_operand [of "butlast (drop 2 v)"] by (simp add: normal_operand_def Let_def del: append_Cons append_Nil)
next
  case False
  then have v: "kind = ''literal''" "list_all literal_char v" "trim_space v = v" "v \<noteq> []" "\<not> is_path_like v"
    using assms by (auto simp: normal_operand_def)
  then have chars: "CHR 0x22 \<notin> set v" "list_all (\<lambda>c. \<not> op_char c) v"
    by (auto simp: list_all_iff literal_char_def)
  have "\<not> is_expr_token v" "\<not> fold_expr ''literal''"
    using chars(2) op_char_simps by (cases v; auto simp: is_expr_token_def has_prefix_def fold_expr_def lower_char_def)+
  moreover have "\<not> has_prefix [CHR 0x22] v"
    using chars(1) by (cases v) (auto simp: has_prefix_def)
  ultimately have "format_condition_operand v kind left \<in> {v, [CHR 0x22] @ v @ [CHR 0x22]}"
    using v(1,3,4) escape_quotes_plain [OF chars(1)] unfolding format_condition_operand_def by (simp add: Let_def)
  then show ?thesis
    using literal_operand [OF v(2-5)] unfolding v(1) by (metis insertE singletonD)
qed

lemma index_of_no_op:
  "list_all (\<lambda>c. \<not> op_char c) l \<Longrightarrow> op_char (hd op) \<Longrightarrow> op \<noteq> [] \<Longrightarrow>
     index_of op (l @ s) = map_option ((+) (length l)) (index_of op s)"
proof (induction l)
  case Nil
  then show ?case by (cases "index_of op s") auto
next
  case (Cons c l)
  then have "\<not> has_prefix op (c # l @ s)"
    by (cases op) (auto simp: has_prefix_def)
  then show ?case
    using Cons by (cases "index_of op s") auto
qed

lemma op_symbols: "\<forall>(op, key) \<in> set op_keys. condition_op_symbol key = Inr op"
  by code_simp

lemma first_op_hit:
  assumes "(op, key) \<in> set ops" "distinct (map fst ops)" "index_of op x = Some i"
    "\<forall>p \<in> set (takeWhile (\<lambda>p. p \<noteq> op) (map fst ops)). index_of p x = None"
    "left_operand (trim_space (take i x)) = (lv, lk)" "right_operand (trim_space (drop (i + length op) x)) = (rv, rk)"
  shows "first_op x ops = Some \<lparr>dc_left = lv, dc_left_kind = lk, dc_op = key, dc_right = rv, dc_right_kind = rk\<rparr>"
  using assms(1,2,4)
proof (induction ops)
  case (Cons o' ops)
  obtain p k where o': "o' = (p, k)"
    by (cases o')
  show ?case
  proof (cases "p = op")
    case True
    then have "k = key"
      using Cons.prems(1,2) o' by (force simp: image_iff)
    then show ?thesis
      using assms(3,5,6) True o' by simp
  next
    case False
    then show ?thesis
      using Cons o' by simp
  qed
qed simp

lemma condition_again:
  assumes "normal_condition c"
  shows "\<exists>e. compile_condition c = Inr e \<and> e \<noteq> [] \<and> parse_if_condition e = Inr c"
proof -
  define l r where "l = format_condition_operand (dc_left c) (dc_left_kind c) True"
    and "r = format_condition_operand (dc_right c) (dc_right_kind c) False"
  have l: "reads_back l (dc_left c) (dc_left_kind c)" and r: "reads_back r (dc_right c) (dc_right_kind c)"
    using assms operand_again unfolding normal_condition_def l_def r_def by blast+
  obtain op where op: "(op, dc_op c) \<in> set op_keys"
    using assms by (auto simp: normal_condition_def)
  then have sym: "condition_op_symbol (dc_op c) = Inr op"
    using op_symbols by blast
  let ?x = "l @ '' '' @ op @ '' '' @ r"
  have plain: "list_all (\<lambda>c. \<not> op_char c) l" "list_all (\<lambda>c. \<not> op_char c) r" "trim_space l = l" "l \<noteq> []" "trim_space r = r" "r \<noteq> []"
    using l r by (simp_all add: reads_back_def)
  have none: "index_of p r = None" if "p \<in> set (map fst op_keys)" for p
    using that index_of_no_op [OF plain(2), of p "[]"] by (auto simp: op_keys_def op_char_simps)
  have skip: "index_of p (l @ s) = map_option ((+) (length l)) (index_of p s)" if "p \<in> set (map fst op_keys)" for p s
    using that index_of_no_op [OF plain(1), of p s] by (auto simp: op_keys_def op_char_simps)
  have trims: "trim_space (l @ '' '') = l" "trim_space (CHR '' '' # r) = r" "trim_space ?x = ?x"
    using trim_space_join [OF plain(3-6)] by simp_all
  have sides: "left_operand l = (dc_left c, dc_left_kind c)" "right_operand r = (dc_right c, dc_right_kind c)"
    using l r by (simp_all add: reads_back_def)
  have at: "index_of op ?x = Some (Suc (length l))"
    using op skip [of op "'' '' @ op @ '' '' @ r"] by (auto simp: op_keys_def has_prefix_def)
  have before: "\<forall>p \<in> set (takeWhile (\<lambda>p. p \<noteq> op) (map fst op_keys)). index_of p ?x = None"
    using op by (auto simp: skip none op_keys_def has_prefix_def)
  have "left_operand (trim_space (take (Suc (length l)) ?x)) = (dc_left c, dc_left_kind c)"
      "right_operand (trim_space (drop (Suc (length l) + length op) ?x)) = (dc_right c, dc_right_kind c)"
    using sides trims(1,2) by simp_all
  from first_op_hit [OF op _ at before this] have fst: "first_op ?x op_keys = Some c"
    by (simp add: op_keys_def)
  have "parse_if_condition (''${'' @ ?x @ ''}'') = Inr c"
    unfolding parse_if_condition_def token_parts trims(3) fst by simp
  moreover have "compile_condition c = Inr (''${'' @ ?x @ ''}'')"
    unfolding compile_condition_def sym l_def r_def by (simp add: Let_def)
  ultimately show ?thesis
    by blast
qed

text \<open>A step that compiles, and comes back from the classified document unchanged and without a warning.\<close>

definition comes_back :: "(val \<Rightarrow> val) \<Rightarrow> design_step \<Rightarrow> bool" where
  "comes_back re s \<longleftrightarrow> (\<exists>y c c'. build_step s = Inr y \<and> classify_step (step_of re y) = Inr c \<and>
     classify_children c (step_of re y) = Inr c' \<and> decompile_step c' = (Inr s, []))"

definition all_come_back :: "(val \<Rightarrow> val) \<Rightarrow> design_step list \<Rightarrow> bool" where
  "all_come_back re ss \<longleftrightarrow> (\<forall>seen i. set seen \<inter> ds_id ` set ss = {} \<longrightarrow>
     (\<exists>ys cs. compile_steps ss seen = Inr ys \<and> classify_steps i (map (step_of re) ys) = Inr cs \<and> decompile_steps cs = (ss, [])))"

lemma compile_args_normal:
  assumes "distinct (map ar_name args)" "\<forall>a \<in> set args. ar_name a \<noteq> []"
  shows "compile_args args = map (\<lambda>a. (ar_name a, compile_arg_value a)) args"
  unfolding compile_args_def
  by (subst fold_update_fresh [OF assms(1), where g = compile_arg_value]) (use assms(2) in simp_all)

lemma compile_assigns_normal:
  assumes "distinct (map as_var asg)" "\<forall>a \<in> set asg. as_var a \<noteq> [] \<and> expr_token (as_expr a)"
  shows "compile_assigns asg = map (\<lambda>a. (as_var a, as_expr a)) asg"
  unfolding compile_assigns_def
  by (subst fold_update_fresh [OF assms(1), where g = as_expr]) (use assms(2) normalize_token in simp_all)

lemma kind_words:
  "ascii_lower (trim_space ''tool'') = ''tool''" "ascii_lower (trim_space ''assign'') = ''assign''"
  "ascii_lower (trim_space ''if'') = ''if''"
  by code_simp+

lemma tool_comes_back:
  assumes "tool \<noteq> []" "distinct (map ar_name args)" "\<forall>a \<in> set args. ar_name a \<noteq> [] \<and> normal_arg a"
    and re: "\<And>s. re (VStr s) = VStr s" "\<And>n. re (VInt64 n) = VInt n"
  shows "comes_back re (DStep i ''tool'' tool args [] None [] [])"
proof -
  have "build_step (DStep i ''tool'' tool args [] None [] []) =
      Inr (YStep i tool (map (\<lambda>a. (ar_name a, compile_arg_value a)) args) [] [] [] [])"
    using assms(1) compile_args_normal [OF assms(2)] assms(3) by (simp add: build_step.simps kind_words)
  moreover have "map decompile_arg (map (\<lambda>(k, v). (k, re v)) (map (\<lambda>a. (ar_name a, compile_arg_value a)) args)) = args"
    using arg_again [OF _ re] assms(3) by (induction args) auto
  ultimately show ?thesis
    using assms(1) unfolding comes_back_def
    by (auto simp: classify_step_def hits_def classify_children.simps decompile_step.simps with_class_def)
qed

lemma assign_comes_back:
  assumes "asg \<noteq> []" "distinct (map as_var asg)" "\<forall>a \<in> set asg. as_var a \<noteq> [] \<and> expr_token (as_expr a) \<and> as_label a = []"
  shows "comes_back re (DStep i ''assign'' [] [] asg None [] [])"
proof -
  have "build_step (DStep i ''assign'' [] [] asg None [] []) = Inr (YStep i [] [] (map (\<lambda>a. (as_var a, as_expr a)) asg) [] [] [])"
    using assms(1,3) compile_assigns_normal [OF assms(2)] by (simp add: build_step.simps kind_words)
  moreover have "map (\<lambda>(k, v). \<lparr>as_var = k, as_expr = v, as_label = []\<rparr>) (map (\<lambda>a. (as_var a, as_expr a)) asg) = asg"
    using assms(3) by (induction asg) auto
  ultimately show ?thesis
    using assms(1) unfolding comes_back_def
    by (auto simp: classify_step_def hits_def classify_children.simps decompile_step.simps with_class_def)
qed

lemma if_comes_back:
  assumes "normal_condition c" "all_come_back re th" "all_come_back re el"
  shows "comes_back re (DStep i ''if'' [] [] [] (Some c) th el)"
proof -
  obtain e where e: "compile_condition c = Inr e" "e \<noteq> []" "parse_if_condition e = Inr c"
    using condition_again [OF assms(1)] by blast
  obtain ys cs where th: "compile_steps th [] = Inr ys" "classify_steps 0 (map (step_of re) ys) = Inr cs"
      "decompile_steps cs = (th, [])"
    using assms(2) unfolding all_come_back_def by (metis inf_bot_left list.set(1))
  obtain ys' cs' where el: "compile_steps el [] = Inr ys'" "classify_steps 0 (map (step_of re) ys') = Inr cs'"
      "decompile_steps cs' = (el, [])"
    using assms(3) unfolding all_come_back_def by (metis inf_bot_left list.set(1))
  have "build_step (DStep i ''if'' [] [] [] (Some c) th el) = Inr (YStep i [] [] [] e ys ys')"
    using e th el by (simp add: build_step.simps kind_words)
  then show ?thesis
    using e th el unfolding comes_back_def
    by (auto simp: classify_step_def hits_def classify_children.simps decompile_step.simps with_class_def with_children_def)
qed

lemma steps_come_back:
  assumes "normal_steps ss" "\<And>s. re (VStr s) = VStr s" "\<And>n. re (VInt64 n) = VInt n"
  shows "all_come_back re ss"
  using assms(1)
proof (induction ss rule: normal_steps.induct)
  case 1
  then show ?case by (simp add: all_come_back_def)
next
  case (2 i k tool args asg c th el ss)
  let ?s = "DStep i k tool args asg c th el"
  note normal = "2.prems" [unfolded normal_steps.simps]
  note norm = normal [THEN conjunct1] normal [THEN conjunct2, THEN conjunct1] normal [THEN conjunct2, THEN conjunct2, THEN conjunct1]
  from normal [THEN conjunct2, THEN conjunct2, THEN conjunct2] have one: "comes_back re ?s"
  proof (elim disjE conjE)
    assume "distinct (map ar_name args)" "list_all (\<lambda>a. ar_name a \<noteq> [] \<and> normal_arg a) args" "tool \<noteq> []"
      "k = ''tool''" "asg = []" "c = None" "th = []" "el = []"
    then show ?thesis
      using tool_comes_back [of tool args re i] assms(2,3) by (simp add: list_all_iff)
  next
    assume "distinct (map as_var asg)" "list_all (\<lambda>a. as_var a \<noteq> [] \<and> expr_token (as_expr a) \<and> as_label a = []) asg"
      "asg \<noteq> []" "k = ''assign''" "tool = []" "args = []" "c = None" "th = []" "el = []"
    then show ?thesis
      using assign_comes_back [of asg re i] by (simp add: list_all_iff)
  next
    assume "case c of None \<Rightarrow> False | Some c \<Rightarrow> normal_condition c" and kids: "normal_steps th" "normal_steps el"
      and rest: "k = ''if''" "tool = []" "args = []" "asg = []"
    then obtain c' where "c = Some c'" "normal_condition c'"
      by (cases c) auto
    then show ?thesis
      using if_comes_back [OF _ "2.IH"(2) [OF kids(1)] "2.IH"(3) [OF kids(2)]] rest by simp
  qed
  show ?case
    unfolding all_come_back_def
  proof (intro allI impI)
    fix seen n
    assume fresh: "set seen \<inter> ds_id ` set (?s # ss) = {}"
    have "set (i # seen) \<inter> ds_id ` set ss = {}"
      using fresh norm(2) by auto
    then obtain ys cs where rest: "compile_steps ss (i # seen) = Inr ys" "classify_steps (Suc n) (map (step_of re) ys) = Inr cs"
        "decompile_steps cs = (ss, [])"
      using "2.IH"(1) [OF norm(3)] unfolding all_come_back_def by blast
    obtain y c1 c2 where step: "build_step ?s = Inr y" "classify_step (step_of re y) = Inr c1"
        "classify_children c1 (step_of re y) = Inr c2" "decompile_step c2 = (Inr ?s, [])"
      using one unfolding comes_back_def by blast
    have "i \<notin> set seen"
      using fresh by auto
    then have "compile_steps (?s # ss) seen = Inr (y # ys)"
      using step(1) rest(1) norm(1) by simp
    moreover have "classify_steps n (map (step_of re) (y # ys)) = Inr (c2 # cs)"
      using step(2,3) rest(2) by simp
    moreover have "decompile_steps (c2 # cs) = (?s # ss, [])"
      using step(4) rest(3) by simp
    ultimately show "\<exists>ys cs. compile_steps (?s # ss) seen = Inr ys \<and> classify_steps n (map (step_of re) ys) = Inr cs \<and>
        decompile_steps cs = (?s # ss, [])"
      by blast
  qed
qed

definition normal_design :: "design \<Rightarrow> bool" where
  "normal_design d \<longleftrightarrow>
     trim_space (de_id d) \<noteq> [] \<and> trim_space (de_name d) \<noteq> [] \<and> normal_steps (de_steps d) \<and>
     distinct (map fd_name (de_inputs d)) \<and>
     list_all (\<lambda>f. fd_name f \<noteq> [] \<and> trim_space (fd_type f) \<noteq> [] \<and> fd_label f = [] \<and> fd_description f = [] \<and>
       fd_widget f = (if fd_name f = ''scenario'' then ''select'' else ''text'') \<and>
       fd_options f = (if fd_name f = ''scenario'' then [''ok'', ''degraded''] else [])) (de_inputs d) \<and>
     distinct (map of_name (de_outputs d)) \<and>
     list_all (\<lambda>x. of_name x \<noteq> [] \<and> expr_token (of_expr x)) (de_outputs d)"

lemma design_to_doc_normal:
  assumes "normal_design d" "compile_steps (de_steps d) [] = Inr ys"
  shows "design_to_doc d = Inr \<lparr>cd_id = de_id d, cd_name = de_name d, cd_description = de_description d,
    cd_inputs = map (\<lambda>f. (fd_name f, compile_input_of f)) (de_inputs d), cd_steps = ys,
    cd_outputs = map (\<lambda>x. (of_name x, of_expr x)) (de_outputs d)\<rparr>"
proof -
  have "fold (\<lambda>f. AList.update (fd_name f) (compile_input_of f)) (de_inputs d) [] = map (\<lambda>f. (fd_name f, compile_input_of f)) (de_inputs d)"
    by (subst fold_update_fresh [where key = fd_name and g = compile_input_of]) (use assms(1) in \<open>simp_all add: normal_design_def\<close>)
  moreover have "fold (\<lambda>x m. if of_name x = [] then m else AList.update (of_name x) (normalize_expr (of_expr x)) m) (de_outputs d) [] =
      map (\<lambda>x. (of_name x, of_expr x)) (de_outputs d)"
    by (subst fold_update_fresh [where key = of_name and g = of_expr])
      (use assms(1) normalize_token in \<open>simp_all add: normal_design_def list_all_iff\<close>)
  moreover have "[] \<notin> set (map fd_name (de_inputs d))"
    using assms(1) by (auto simp: normal_design_def list_all_iff)
  ultimately show ?thesis
    using assms(2) by (simp add: design_to_doc_def)
qed


text \<open>A design with a check of a status, a tool call in its branch and an assignment after it.\<close>

definition demo_design :: design where
  "demo_design = \<lparr>de_id = ''mock'', de_name = ''Mock'', de_description = [],
     de_inputs = [\<lparr>fd_name = ''scenario'', fd_type = ''string'', fd_default = VStr ''ok'', fd_label = [],
                   fd_description = [], fd_widget = ''select'', fd_options = [''ok'', ''degraded'']\<rparr>],
     de_steps = [DStep ''gate'' ''if'' [] [] []
         (Some \<lparr>dc_left = ''${vars.health}'', dc_left_kind = ''expr'', dc_op = ''eq'',
                dc_right = ''degraded'', dc_right_kind = ''literal''\<rparr>)
         [DStep ''rec'' ''tool'' ''mcp.record''
            [\<lparr>ar_name = ''text'', ar_value = ''hi'', ar_kind = ''literal''\<rparr>,
             \<lparr>ar_name = ''n'', ar_value = ''42'', ar_kind = ''literal''\<rparr>] [] None [] []] [],
       DStep ''set'' ''assign'' [] [] [\<lparr>as_var = ''x'', as_expr = ''${inputs.scenario}'', as_label = []\<rparr>] None [] []],
     de_outputs = [\<lparr>of_name = ''res'', of_expr = ''${vars.x}''\<rparr>]\<rparr>"

fun yaml_value :: "val \<Rightarrow> val" where
  "yaml_value (VInt64 n) = VInt n"
| "yaml_value v = v"

lemma demo_normal: "normal_design demo_design"
  by code_simp


definition demo_condition :: design_condition where
  "demo_condition = \<lparr>dc_left = ''vars.health'', dc_left_kind = [], dc_op = ''eq'',
     dc_right = ''degraded'', dc_right_kind = []\<rparr>"

theorem design_condition_meaning_witness:
  "compile_condition demo_condition = Inr (''${vars.health == '' @ quote ''degraded'' @ ''}'') \<and>
   resolve (''${vars.health == '' @ quote ''degraded'' @ ''}'')
     \<lparr>sc_inputs = [], sc_vars = [(''health'', VStr ''degraded'')], sc_steps = []\<rparr> = Inr (VBool True)"
proof -
  let ?sc = "\<lparr>sc_inputs = [], sc_vars = [(''health'', VStr ''degraded'')], sc_steps = []\<rparr>"
  have e: "compile_condition demo_condition = Inr (''${vars.health == '' @ quote ''degraded'' @ ''}'')"
    by code_simp
  have plain: "plain_operand (dc_left demo_condition) (dc_left_kind demo_condition) True"
      "plain_operand (dc_right demo_condition) (dc_right_kind demo_condition) False"
    by code_simp+
  have op: "condition_op_symbol (dc_op demo_condition) = Inr ''==''"
    by code_simp
  have "compared (operand_meaning (dc_left demo_condition) (dc_left_kind demo_condition) True ?sc)
      (operand_meaning (dc_right demo_condition) (dc_right_kind demo_condition) False ?sc) ''==''"
    by code_simp
  then show ?thesis
    using design_condition_meaning [OF e plain, of ?sc] e op by simp
qed

section \<open>Outside the plain operands\<close>

definition condition_holds :: "string \<Rightarrow> string \<Rightarrow> val \<Rightarrow> val result" where
  "condition_holds op right v =
     on_ok (compile_condition \<lparr>dc_left = ''vars.x'', dc_left_kind = [], dc_op = op, dc_right = right, dc_right_kind = []\<rparr>)
       (\<lambda>e. resolve e \<lparr>sc_inputs = [], sc_vars = [(''x'', v)], sc_steps = []\<rparr>)"

text \<open>
  A capitalised \<open>TRUE\<close> is compiled to a path that does not exist; a text with an operator in it is
  split at that operator; an escaped quote keeps its backslash. Each of these conditions is false
  although the editor shows a true one.
\<close>

lemma misread_conditions:
  "condition_holds ''eq'' ''TRUE'' (VBool True) = Inr (VBool False)"
  "condition_holds ''ne'' ''a==b'' (VStr ''other'') = Inr (VBool False)"
  "condition_holds ''eq'' [CHR ''a'', CHR 0x22, CHR ''b''] (VStr [CHR ''a'', CHR 0x22, CHR ''b'']) = Inr (VBool False)"
  by code_simp+

text \<open>
  The validator compares the kind of a step as it is, the compiler without case and blanks: a step of
  kind \<open>Tool\<close> passes the check against the registered tools unseen and is compiled to a tool step.
\<close>

lemma capital_kind_unchecked:
  "validate_design (Some \<lparr>de_id = ''d'', de_name = ''D'', de_description = [], de_inputs = [],
     de_steps = [DStep ''s'' ''Tool'' ''no.such'' [] [] None [] []], de_outputs = []\<rparr>) (Some []) = None"
  "build_step (DStep ''s'' ''Tool'' ''no.such'' [] [] None [] []) = Inr (YStep ''s'' ''no.such'' [] [] [] [] [])"
  by code_simp+

end
