(* ===== verification/GoDb.thy ===== *)
theory GoDb
  imports Json
begin

text \<open>
  What the services over the database share: a text read by its runes, and statements. A statement
  is a function on the tables; the database may refuse it, or lose the connection and report an
  error although the statement took effect. Identifiers and times are drawn from the outside,
  as functions of the number of statements run before.
\<close>

section \<open>Runes\<close>

text \<open>\<open>range\<close> over a string: its runes, encoded; a byte that is no UTF-8 reads as U+FFFD.\<close>

definition replacement :: string where
  "replacement = [char_of (0xEF::nat), char_of (0xBF::nat), char_of (0xBD::nat)]"

fun runes :: "string \<Rightarrow> string list" where
  "runes [] = []"
| "runes (c # cs) =
     (if (of_char c :: nat) < 128 then [c] # runes cs
      else case utf8_len (c # cs) of
          None \<Rightarrow> replacement # runes cs
        | Some n \<Rightarrow> take n (c # cs) # runes (drop (n - 1) cs))"

text \<open>\<open>unicode.IsSpace\<close>.\<close>

definition rune_space :: "string \<Rightarrow> bool" where
  "rune_space r = (case r of
       [a] \<Rightarrow> ascii_space a
     | [a, b] \<Rightarrow> uspace2 a b
     | [a, b, c] \<Rightarrow> uspace3 a b c
     | _ \<Rightarrow> False)"

lemma concat_runes: "concat (runes s) = clean_utf8 s"
  by (induction s rule: runes.induct) (auto simp: replacement_def split: option.splits)

lemma runes_ascii: "\<forall>c \<in> set s. (of_char c :: nat) < 128 \<Longrightarrow> runes s = map (\<lambda>c. [c]) s"
  by (induction s) auto

text \<open>The first runes of a text read back as they are, whatever follows.\<close>

lemma utf8_len_take:
  assumes "utf8_len s = Some n"
  shows "2 \<le> n \<and> n \<le> length s \<and> utf8_len (take n s @ t) = Some n"
proof -
  obtain c cs where s: "s = c # cs"
    using assms by (cases s) (auto simp: utf8_len_def)
  consider "n = 2" "0xC2 \<le> (of_char c :: nat)" "(of_char c :: nat) \<le> 0xDF" "1 < length s"
    | "n = 3" "0xE0 \<le> (of_char c :: nat)" "(of_char c :: nat) \<le> 0xEF" "2 < length s"
    | "n = 4" "0xF0 \<le> (of_char c :: nat)" "(of_char c :: nat) \<le> 0xF4" "3 < length s"
    using assms by (auto simp: s utf8_len_def Let_def split: if_splits)
  then show ?thesis
  proof cases
    case 1
    then obtain a rest where "cs = a # rest"
      using s by (cases cs) auto
    then show ?thesis
      using assms 1 by (auto simp: s utf8_len_def Let_def split: if_splits)
  next
    case 2
    then obtain a b rest where "cs = a # b # rest"
      using s by (cases cs; cases "tl cs") auto
    then show ?thesis
      using assms 2 by (auto simp: s utf8_len_def Let_def numeral_2_eq_2 split: if_splits)
  next
    case 3
    then obtain a b d rest where "cs = a # b # d # rest"
      using s by (cases cs; cases "tl cs"; cases "tl (tl cs)") auto
    then show ?thesis
      using assms 3 by (auto simp: s utf8_len_def Let_def numeral_2_eq_2 numeral_3_eq_3 split: if_splits)
  qed
qed

lemma runes_replacement: "runes (replacement @ t) = replacement # runes t"
  by (simp add: replacement_def utf8_len_def cont_byte_def Let_def numeral_2_eq_2)

lemma runes_sequence:
  assumes "utf8_len (c # cs) = Some n" "\<not> (of_char c :: nat) < 128"
  shows "runes (take n (c # cs) @ t) = take n (c # cs) # runes t"
proof -
  have n: "2 \<le> n" "n \<le> length (c # cs)" "utf8_len (take n (c # cs) @ t) = Some n"
    using utf8_len_take [OF assms(1)] by auto
  obtain k where k: "n = Suc k"
    using n(1) by (cases n) auto
  have "length (take k cs) = k"
    using n(2) k by simp
  then show ?thesis
    using n(3) assms(2) by (simp add: k)
qed

lemma runes_taken: "runes (concat (take k (runes s)) @ t) = take k (runes s) @ runes t"
proof (induction s arbitrary: k rule: runes.induct)
  case (2 c cs)
  show ?case
  proof (cases k)
    case (Suc j)
    consider "(of_char c :: nat) < 128" | "\<not> (of_char c :: nat) < 128" "utf8_len (c # cs) = None"
      | n where "\<not> (of_char c :: nat) < 128" "utf8_len (c # cs) = Some n"
      by blast
    then show ?thesis
    proof cases
      case 1
      then show ?thesis using "2.IH"(1) [OF 1, of j] by (simp add: Suc)
    next
      case a: 2
      then show ?thesis using "2.IH"(2) [OF a, of j] by (simp add: Suc runes_replacement)
    next
      case a: 3
      then show ?thesis
        using "2.IH"(3) [OF a, of j] runes_sequence [OF a(2,1), of "concat (take j (runes (drop (n - 1) cs))) @ t"]
        by (simp add: Suc)
    qed
  qed simp
qed simp
section \<open>Statements\<close>

type_synonym dbid = string

record db_env =
  de_fault :: "nat \<Rightarrow> (bool \<times> string) option"
  de_uuid :: "nat \<Rightarrow> dbid"
  de_now :: "nat \<Rightarrow> int"

record 't db =
  db_tables :: 't
  db_clock :: nat

type_synonym ('e, 'a, 's) act = "'s \<Rightarrow> ('e + 'a) \<times> 's"

definition exec :: "db_env \<Rightarrow> (string \<Rightarrow> 'e) \<Rightarrow> (nat \<Rightarrow> ('e, 'a, 't) act) \<Rightarrow> ('e, 'a, 't db) act" where
  "exec env err run db =
     (let n = db_clock db; (res, tb) = run n (db_tables db)
      in case de_fault env n of
           None \<Rightarrow> (res, \<lparr>db_tables = tb, db_clock = Suc n\<rparr>)
         | Some (applied, e) \<Rightarrow>
             (Inl (err e), \<lparr>db_tables = (if applied then tb else db_tables db), db_clock = Suc n\<rparr>))"

lemma exec_cases:
  obtains (ok) r tb where "run (db_clock db) (db_tables db) = (r, tb)" "de_fault env (db_clock db) = None"
      "exec env err run db = (r, \<lparr>db_tables = tb, db_clock = Suc (db_clock db)\<rparr>)"
  | (failed) r tb b e where "run (db_clock db) (db_tables db) = (r, tb)" "de_fault env (db_clock db) = Some (b, e)"
      "exec env err run db =
        (Inl (err e), \<lparr>db_tables = (if b then tb else db_tables db), db_clock = Suc (db_clock db)\<rparr>)"
proof -
  obtain r tb where run: "run (db_clock db) (db_tables db) = (r, tb)"
    by (metis surj_pair)
  show thesis
  proof (cases "de_fault env (db_clock db)")
    case None
    then show thesis
      using run ok by (simp add: exec_def)
  next
    case (Some p)
    then show thesis
      using run failed by (cases p) (simp add: exec_def)
  qed
qed

text \<open>A statement that only reads.\<close>

definition query :: "db_env \<Rightarrow> (string \<Rightarrow> 'e) \<Rightarrow> ('t \<Rightarrow> 'e + 'a) \<Rightarrow> ('e, 'a, 't db) act" where
  "query env err ask = exec env err (\<lambda>n tb. (ask tb, tb))"

text \<open>An action followed by what its outcome calls for; \<open>if err != nil { return err }\<close>.\<close>

definition branch :: "('e, 'a, 's) act \<Rightarrow> ('e \<Rightarrow> ('f, 'b, 's) act) \<Rightarrow> ('a \<Rightarrow> ('f, 'b, 's) act) \<Rightarrow> ('f, 'b, 's) act" where
  "branch m g f s = (case m s of (Inl e, s') \<Rightarrow> g e s' | (Inr x, s') \<Rightarrow> f x s')"

definition give :: "'e + 'a \<Rightarrow> ('e, 'a, 's) act" where
  "give r s = (r, s)"

definition and_then :: "('e, 'a, 's) act \<Rightarrow> ('a \<Rightarrow> ('e, 'b, 's) act) \<Rightarrow> ('e, 'b, 's) act" where
  "and_then m = branch m (\<lambda>e. give (Inl e))"

lemma and_then_apply: "and_then m f s = (case m s of (Inl e, s') \<Rightarrow> (Inl e, s') | (Inr x, s') \<Rightarrow> f x s')"
  by (simp add: and_then_def branch_def give_def split: prod.split sum.split)

lemma give_pair [simp]: "give r s = (r, s)"
  by (simp add: give_def)

text \<open>What a statement, a query and a sequence of actions keep of a relation to the state before.\<close>

definition steps_in :: "('s \<Rightarrow> 's \<Rightarrow> bool) \<Rightarrow> ('e, 'a, 's) act \<Rightarrow> bool" where
  "steps_in R m \<longleftrightarrow> (\<forall>s. R s (snd (m s)))"

lemma steps_inD: "steps_in R m \<Longrightarrow> m s = (r, s') \<Longrightarrow> R s s'"
  by (metis snd_conv steps_in_def)

lemma steps_in_give: "reflp R \<Longrightarrow> steps_in R (give r)"
  by (simp add: steps_in_def reflpD)

lemma steps_in_branch:
  assumes "transp R" "steps_in R m" "\<And>e. steps_in R (g e)" "\<And>x. steps_in R (f x)"
  shows "steps_in R (branch m g f)"
  unfolding steps_in_def
proof
  fix s
  obtain r s' where m: "m s = (r, s')"
    by (metis surj_pair)
  have "R s' (snd (branch (\<lambda>_. (r, s')) g f s))"
    using assms(3,4) by (cases r) (simp_all add: branch_def steps_in_def)
  then show "R s (snd (branch m g f s))"
    using transpD [OF assms(1) steps_inD [OF assms(2) m]] by (simp add: branch_def m)
qed

lemma steps_in_then:
  assumes "reflp R" "transp R" "steps_in R m" "\<And>x. steps_in R (f x)"
  shows "steps_in R (and_then m f)"
  unfolding and_then_def using assms by (intro steps_in_branch steps_in_give)

lemma steps_in_exec:
  assumes "\<And>n tb. R tb (snd (run n tb))" "reflp R"
  shows "steps_in (\<lambda>a b. R (db_tables a) (db_tables b)) (exec env err run)"
  unfolding steps_in_def
proof
  fix s :: "'a db"
  obtain r tb where run: "run (db_clock s) (db_tables s) = (r, tb)"
    by (metis surj_pair)
  have "R (db_tables s) tb"
    using assms(1) [of "db_tables s" "db_clock s"] run by simp
  then show "R (db_tables s) (db_tables (snd (exec env err run s)))"
    by (auto simp: exec_def run Let_def reflpD [OF assms(2)] split: option.split)
qed

lemma query_tables [simp]: "db_tables (snd (query env err ask s)) = db_tables s"
  by (auto simp: query_def exec_def Let_def split: option.split)

lemma steps_in_query: "reflp R \<Longrightarrow> steps_in (\<lambda>a b. R (db_tables a) (db_tables b)) (query env err ask)"
  by (simp add: steps_in_def reflpD)

text \<open>Without a fault, a statement does what it says.\<close>

definition calm :: "db_env \<Rightarrow> bool" where
  "calm env \<longleftrightarrow> (\<forall>n. de_fault env n = None)"

lemma exec_calm: "calm env \<Longrightarrow> exec env err run db =
    (fst (run (db_clock db) (db_tables db)), \<lparr>db_tables = snd (run (db_clock db) (db_tables db)), db_clock = Suc (db_clock db)\<rparr>)"
  by (simp add: exec_def calm_def case_prod_unfold Let_def)

lemma query_calm: "calm env \<Longrightarrow> query env err ask db = (ask (db_tables db), db\<lparr>db_clock := Suc (db_clock db)\<rparr>)"
  by (simp add: query_def exec_calm)

lemma and_then_Inr:
  assumes "and_then m f s = (Inr y, s'')"
  obtains x s' where "m s = (Inr x, s')" "f x s' = (Inr y, s'')"
  using assms by (auto simp: and_then_apply split: prod.splits sum.splits)

lemma query_Inr: "query env err ask s = (Inr x, s') \<Longrightarrow> ask (db_tables s) = Inr x \<and> db_tables s' = db_tables s"
  by (auto simp: query_def exec_def Let_def split: option.splits)

end
