(* ===== verification/MemStore.thy ===== *)
theory MemStore
  imports GoDb Complex_Main "HOL-Library.Product_Lexorder" "HOL-Library.Sublist"
begin

text \<open>
  The memories of the users, \<open>src/internal/memory/types.go\<close> and \<open>repo.go\<close>: the table and the
  statements on it. The vectors are those of the embedder; the distance of two vectors, the rows an
  index scan visits and the case folding of the collation belong to the database and are parameters.
\<close>

section \<open>Rows, requests and errors\<close>

type_synonym vec = "f64 list"

record memory =
  mm_id :: dbid
  mm_tenant :: dbid
  mm_owner :: dbid
  mm_type :: string
  mm_content :: string
  mm_tags :: "string list"
  mm_source :: string
  mm_source_msg :: "dbid option"
  mm_last_used :: int
  mm_created :: int
  mm_updated :: int
  mm_embedding :: "vec option"

record create_memory =
  cy_type :: string
  cy_content :: string
  cy_tags :: "string list"
  cy_source :: string
  cy_source_msg :: "dbid option"

record update_memory =
  uy_type :: "string option"
  uy_content :: "string option"
  uy_tags :: "string list"
  uy_tags_set :: bool

record list_filter =
  lf_type :: string
  lf_tags :: "string list"
  lf_query :: string
  lf_limit :: int
  lf_offset :: int

record search_request =
  sq_query :: string
  sq_type :: string
  sq_tags :: "string list"
  sq_limit :: int
  sq_mode :: string

datatype mem_err =
    MeNotFound | MeEmptyContent | MeInvalidType | MeEmptySearch | MeInvalidMode string
  | MeVectorDisabled | MeReEmbedDisabled | MeDimMismatch | MeEmbed string | MeDb string

type_synonym mem_db = "memory list db"
type_synonym 'a mem_act = "(mem_err, 'a, mem_db) act"

text \<open>The service with its configuration, and what the database does by itself.\<close>

record mem_env = db_env +
  mz_embed :: "(nat \<Rightarrow> string list \<Rightarrow> vec list result) option"
  mz_dim :: int
  mz_model :: string
  mz_threshold :: f64
  mz_on_write :: bool
  mz_dist :: "vec \<Rightarrow> vec \<Rightarrow> f64"
  mz_visits :: "vec \<Rightarrow> memory \<Rightarrow> bool"
  mz_lower :: "string \<Rightarrow> string"

definition mem_exec :: "mem_env \<Rightarrow> string \<Rightarrow> (nat \<Rightarrow> (mem_err, 'a, memory list) act) \<Rightarrow> 'a mem_act" where
  "mem_exec env what = exec (db_env.truncate env) (\<lambda>e. MeDb (what @ '': '' @ e))"

definition mem_query :: "mem_env \<Rightarrow> string \<Rightarrow> (memory list \<Rightarrow> mem_err + 'a) \<Rightarrow> 'a mem_act" where
  "mem_query env what = query (db_env.truncate env) (\<lambda>e. MeDb (what @ '': '' @ e))"

section \<open>Conditions, order and limits\<close>

definition own_memory :: "dbid \<Rightarrow> dbid \<Rightarrow> memory \<Rightarrow> bool" where
  "own_memory tenant user m \<longleftrightarrow> mm_tenant m = tenant \<and> mm_owner m = user"

text \<open>\<open>LIKE\<close> on runes: \<open>%\<close> for any text, \<open>_\<close> for one rune, a backslash before a literal one.\<close>

fun like :: "string list \<Rightarrow> string list \<Rightarrow> bool" where
  "like [] t = (t = [])"
| "like (p # ps) t =
     (if p = ''%'' then like ps t \<or> (case t of [] \<Rightarrow> False | _ # t' \<Rightarrow> like (p # ps) t')
      else case t of
          [] \<Rightarrow> False
        | c # t' \<Rightarrow>
            if p = ''_'' then like ps t'
            else if p = [char_of (92 :: nat)] then (case ps of [] \<Rightarrow> False | q # qs \<Rightarrow> c = q \<and> like qs t')
            else c = p \<and> like ps t')"

text \<open>\<open>content ILIKE '%' || query || '%'\<close>.\<close>

definition like_anywhere :: "mem_env \<Rightarrow> string \<Rightarrow> string \<Rightarrow> bool" where
  "like_anywhere env q content =
     like (''%'' # runes (mz_lower env q) @ [''%'']) (runes (mz_lower env content))"

definition has_type_tags :: "string \<Rightarrow> string list \<Rightarrow> memory \<Rightarrow> bool" where
  "has_type_tags ty tags m \<longleftrightarrow> (ty \<noteq> [] \<longrightarrow> mm_type m = ty) \<and> (tags \<noteq> [] \<longrightarrow> set tags \<inter> set (mm_tags m) \<noteq> {})"

definition has_text :: "mem_env \<Rightarrow> string \<Rightarrow> memory \<Rightarrow> bool" where
  "has_text env q m \<longleftrightarrow> (q \<noteq> [] \<longrightarrow> like_anywhere env q (mm_content m))"

definition row_limit :: "int \<Rightarrow> nat" where
  "row_limit n = nat (if n \<le> 0 then 20 else if n > 100 then 100 else n)"

definition newest_first :: "memory list \<Rightarrow> memory list" where
  "newest_first = sort_key (\<lambda>m. - mm_created m)"

text \<open>The order of the database on \<open>double precision\<close>: \<open>NaN\<close> is the greatest value.\<close>

definition f64_rank :: "f64 \<Rightarrow> int \<times> rat" where
  "f64_rank x = (case x of
       FNaN \<Rightarrow> (2, 0)
     | FInf neg \<Rightarrow> (if neg then - 1 else 1, 0)
     | FFin neg m e \<Rightarrow>
         (0, (if neg then - 1 else 1) * (if e \<ge> 0 then of_nat (m * 2 ^ nat e) else of_nat m / 2 ^ nat (- e))))"

text \<open>\<open>1 - x\<close>, rounded.\<close>

definition one_minus :: "f64 \<Rightarrow> f64" where
  "one_minus x = (case x of
       FNaN \<Rightarrow> FNaN
     | FInf neg \<Rightarrow> FInf (\<not> neg)
     | FFin neg m e \<Rightarrow>
         (let s = (if neg then int m else - int m);
              num = (if e \<ge> 0 then 1 + s * 2 ^ nat e else 2 ^ nat (- e) + s);
              den = (if e \<ge> 0 then 1 else 2 ^ nat (- e))
          in case f64_of_ratio (num < 0) (nat \<bar>num\<bar>) den of Some f \<Rightarrow> f | None \<Rightarrow> FInf (num < 0)))"

definition distance :: "mem_env \<Rightarrow> vec \<Rightarrow> memory \<Rightarrow> f64" where
  "distance env q m = (case mm_embedding m of None \<Rightarrow> FNaN | Some v \<Rightarrow> mz_dist env v q)"

definition nearest_first :: "mem_env \<Rightarrow> vec \<Rightarrow> memory list \<Rightarrow> memory list" where
  "nearest_first env q = sort_key (\<lambda>m. f64_rank (distance env q m))"

text \<open>The rows with a vector that the scan for a query visits.\<close>

definition comparable :: "mem_env \<Rightarrow> vec \<Rightarrow> memory \<Rightarrow> bool" where
  "comparable env q m \<longleftrightarrow> mm_embedding m \<noteq> None \<and> mz_visits env q m"

definition update_rows :: "(memory \<Rightarrow> bool) \<Rightarrow> (memory \<Rightarrow> memory) \<Rightarrow> memory list \<Rightarrow> memory list" where
  "update_rows P f = map (\<lambda>m. if P m then f m else m)"

section \<open>The statements\<close>

definition mem_get :: "mem_env \<Rightarrow> dbid \<Rightarrow> dbid \<Rightarrow> dbid \<Rightarrow> memory mem_act" where
  "mem_get env tenant user mid =
     mem_query env ''scan memory'' (\<lambda>rows.
       case filter (\<lambda>m. mm_id m = mid) (filter (own_memory tenant user) rows) of
         [] \<Rightarrow> Inl MeNotFound
       | m # _ \<Rightarrow> Inr m)"

definition mem_insert :: "mem_env \<Rightarrow> memory \<Rightarrow> memory mem_act" where
  "mem_insert env m =
     and_then
       (mem_exec env ''insert memory'' (\<lambda>n rows.
          if mm_id m \<in> mm_id ` set rows
          then (Inl (MeDb ''insert memory: duplicate key value violates unique constraint''), rows)
          else (Inr (), rows @ [m\<lparr>mm_last_used := de_now env n, mm_created := de_now env n, mm_updated := de_now env n\<rparr>])))
       (\<lambda>_. mem_get env (mm_tenant m) (mm_owner m) (mm_id m))"

definition mem_list :: "mem_env \<Rightarrow> dbid \<Rightarrow> dbid \<Rightarrow> list_filter \<Rightarrow> memory list mem_act" where
  "mem_list env tenant user f =
     mem_query env ''query memories'' (\<lambda>rows.
       Inr (take (row_limit (lf_limit f)) (drop (nat (lf_offset f))
         (newest_first (filter (\<lambda>m. has_type_tags (lf_type f) (lf_tags f) m \<and> has_text env (lf_query f) m)
           (filter (own_memory tenant user) rows))))))"

definition mem_set :: "update_memory \<Rightarrow> vec option \<Rightarrow> int \<Rightarrow> memory \<Rightarrow> memory" where
  "mem_set req v now m =
     m\<lparr>mm_type := (case uy_type req of None \<Rightarrow> mm_type m | Some t \<Rightarrow> t),
       mm_content := (case uy_content req of None \<Rightarrow> mm_content m | Some c \<Rightarrow> c),
       mm_tags := (if uy_tags_set req then uy_tags req else mm_tags m),
       mm_updated := now,
       mm_embedding := (case v of None \<Rightarrow> mm_embedding m | Some _ \<Rightarrow> v)\<rparr>"

definition mem_update :: "mem_env \<Rightarrow> dbid \<Rightarrow> dbid \<Rightarrow> dbid \<Rightarrow> update_memory \<Rightarrow> vec option \<Rightarrow> memory mem_act" where
  "mem_update env tenant user mid req v =
     and_then
       (mem_exec env ''update memory'' (\<lambda>n rows.
          let hit = (\<lambda>m. mm_id m = mid \<and> own_memory tenant user m)
          in (if list_ex hit rows then Inr () else Inl MeNotFound, update_rows hit (mem_set req v (de_now env n)) rows)))
       (\<lambda>_. mem_get env tenant user mid)"

definition mem_delete :: "mem_env \<Rightarrow> dbid \<Rightarrow> dbid \<Rightarrow> dbid \<Rightarrow> unit mem_act" where
  "mem_delete env tenant user mid =
     mem_exec env ''delete memory'' (\<lambda>n rows.
       let hit = (\<lambda>m. mm_id m = mid \<and> own_memory tenant user m)
       in (if list_ex hit rows then Inr () else Inl MeNotFound, filter (\<lambda>m. \<not> hit m) rows))"

definition touch_ids :: "mem_env \<Rightarrow> dbid \<Rightarrow> dbid \<Rightarrow> dbid list \<Rightarrow> unit mem_act" where
  "touch_ids env tenant user ids =
     (if ids = [] then give (Inr ())
      else mem_exec env ''touch last_used_at'' (\<lambda>n rows.
        (Inr (), update_rows (\<lambda>m. mm_id m \<in> set ids \<and> own_memory tenant user m)
                   (\<lambda>m. m\<lparr>mm_last_used := de_now env n\<rparr>) rows)))"

definition touch_last_used :: "mem_env \<Rightarrow> dbid \<Rightarrow> dbid \<Rightarrow> dbid \<Rightarrow> unit mem_act" where
  "touch_last_used env tenant user mid = touch_ids env tenant user [mid]"

definition search_keyword :: "mem_env \<Rightarrow> dbid \<Rightarrow> dbid \<Rightarrow> search_request \<Rightarrow> (memory \<times> f64) list mem_act" where
  "search_keyword env tenant user req =
     and_then
       (mem_query env ''search memories'' (\<lambda>rows.
          Inr (take (row_limit (sq_limit req))
            (newest_first (filter (\<lambda>m. has_text env (sq_query req) m \<and> has_type_tags (sq_type req) (sq_tags req) m)
              (filter (own_memory tenant user) rows))))))
       (\<lambda>ms. and_then (touch_ids env tenant user (map mm_id ms)) (\<lambda>_. give (Inr (map (\<lambda>m. (m, FFin False 0 0)) ms))))"

definition empty_vector :: mem_err where
  "empty_vector = MeDb ''empty query vector''"

definition search_vector :: "mem_env \<Rightarrow> dbid \<Rightarrow> dbid \<Rightarrow> vec \<Rightarrow> search_request \<Rightarrow> (memory \<times> f64) list mem_act" where
  "search_vector env tenant user q req =
     (if q = [] then give (Inl empty_vector)
      else and_then
       (mem_query env ''vector search'' (\<lambda>rows.
          Inr (take (row_limit (sq_limit req))
            (nearest_first env q (filter (\<lambda>m. comparable env q m \<and> has_type_tags (sq_type req) (sq_tags req) m)
              (filter (own_memory tenant user) rows))))))
       (\<lambda>ms. and_then (touch_ids env tenant user (map mm_id ms))
          (\<lambda>_. give (Inr (map (\<lambda>m. (m, one_minus (distance env q m))) ms)))))"

definition find_similar :: "mem_env \<Rightarrow> dbid \<Rightarrow> dbid \<Rightarrow> vec \<Rightarrow> f64 \<Rightarrow> (memory \<times> f64) mem_act" where
  "find_similar env tenant user q threshold =
     (if q = [] then give (Inl empty_vector)
      else mem_query env ''find similar'' (\<lambda>rows.
        case nearest_first env q (filter (comparable env q) (filter (own_memory tenant user) rows)) of
          [] \<Rightarrow> Inl MeNotFound
        | m # _ \<Rightarrow>
            (let score = one_minus (distance env q m)
             in if f64_less score threshold then Inl MeNotFound else Inr (m, score))))"

definition list_by_tenant :: "mem_env \<Rightarrow> dbid \<Rightarrow> int \<Rightarrow> nat \<Rightarrow> (dbid \<times> dbid \<times> string) list mem_act" where
  "list_by_tenant env tenant limit offset =
     mem_query env ''list memories by tenant'' (\<lambda>rows.
       Inr (map (\<lambda>m. (mm_id m, mm_owner m, mm_content m))
         (take (nat (if limit \<le> 0 then 200 else if limit > 500 then 500 else limit))
           (drop offset (sort_key mm_id (filter (\<lambda>m. mm_tenant m = tenant) rows))))))"

definition update_embedding :: "mem_env \<Rightarrow> dbid \<Rightarrow> dbid \<Rightarrow> dbid \<Rightarrow> vec \<Rightarrow> unit mem_act" where
  "update_embedding env tenant user mid v =
     (if v = [] then give (Inl (MeDb ''empty embedding''))
      else mem_exec env ''update embedding'' (\<lambda>n rows.
        let hit = (\<lambda>m. mm_id m = mid \<and> own_memory tenant user m)
        in (if list_ex hit rows then Inr () else Inl MeNotFound,
            update_rows hit (\<lambda>m. m\<lparr>mm_embedding := Some v, mm_updated := de_now env n\<rparr>) rows)))"

end
