(* ===== verification/Memory.thy ===== *)
theory Memory
  imports MemStore
begin

text \<open>
  The memory service and the loader, \<open>src/internal/memory/service.go\<close> and \<open>loader.go\<close>: every operation,
  the paged re-embedding of a tenant included. A user sees and changes only the own memories; the
  vector search returns the nearest rows its scan visits; the block for the model keeps its bound.
\<close>

section \<open>The service\<close>

definition vector_enabled :: "mem_env \<Rightarrow> bool" where
  "vector_enabled env \<longleftrightarrow> mz_embed env \<noteq> None \<and> mz_on_write env"

definition memory_types :: "string list" where
  "memory_types = [''profile'', ''preference'', ''knowledge'', ''lesson'']"

definition valid_type :: "string \<Rightarrow> bool" where
  "valid_type t \<longleftrightarrow> t \<in> set memory_types"

definition embed :: "mem_env \<Rightarrow> string list \<Rightarrow> vec list mem_act" where
  "embed env texts db =
     (case mz_embed env of
        None \<Rightarrow> (Inl (MeEmbed ''nil embedder''), db)
      | Some e \<Rightarrow> (case e (db_clock db) texts of Inl msg \<Rightarrow> Inl (MeEmbed (''embed: '' @ msg)) | Inr vs \<Rightarrow> Inr vs, db))"

definition embed_one :: "mem_env \<Rightarrow> string \<Rightarrow> vec mem_act" where
  "embed_one env content =
     and_then (embed env [content]) (\<lambda>vs.
       case vs of [v] \<Rightarrow> if int (length v) = mz_dim env then give (Inr v) else give (Inl MeDimMismatch)
       | _ \<Rightarrow> give (Inl MeDimMismatch))"

definition fresh_memory :: "mem_env \<Rightarrow> dbid \<Rightarrow> dbid \<Rightarrow> create_memory \<Rightarrow> vec option \<Rightarrow> nat \<Rightarrow> memory" where
  "fresh_memory env tenant user req v n =
     \<lparr>mm_id = de_uuid env n, mm_tenant = tenant, mm_owner = user, mm_type = cy_type req,
      mm_content = cy_content req, mm_tags = cy_tags req,
      mm_source = (if cy_source req = [] then ''user'' else cy_source req), mm_source_msg = cy_source_msg req,
      mm_last_used = 0, mm_created = 0, mm_updated = 0, mm_embedding = v\<rparr>"

definition insert_new :: "mem_env \<Rightarrow> dbid \<Rightarrow> dbid \<Rightarrow> create_memory \<Rightarrow> vec option \<Rightarrow> (memory \<times> bool) mem_act" where
  "insert_new env tenant user req v db =
     and_then (mem_insert env (fresh_memory env tenant user req v (db_clock db))) (\<lambda>m. give (Inr (m, True))) db"

text \<open>The nearest row answers in place of the new one; any failure but \<open>MeNotFound\<close> is returned.\<close>

definition dedup :: "mem_env \<Rightarrow> dbid \<Rightarrow> dbid \<Rightarrow> vec \<Rightarrow> (memory \<times> bool) mem_act \<Rightarrow> (memory \<times> bool) mem_act" where
  "dedup env tenant user v otherwise =
     branch (find_similar env tenant user v (mz_threshold env))
       (\<lambda>e. if e = MeNotFound then otherwise else give (Inl e))
       (\<lambda>(m, _). and_then (touch_last_used env tenant user (mm_id m)) (\<lambda>_. give (Inr (m, False))))"

definition create_memory :: "mem_env \<Rightarrow> dbid \<Rightarrow> dbid \<Rightarrow> create_memory \<Rightarrow> (memory \<times> bool) mem_act" where
  "create_memory env tenant user req =
     (if trim_space (cy_content req) = [] then give (Inl MeEmptyContent)
      else if \<not> valid_type (cy_type req) then give (Inl MeInvalidType)
      else if vector_enabled env
      then and_then (embed_one env (cy_content req)) (\<lambda>v.
             if f64_less (FFin False 0 0) (mz_threshold env)
             then dedup env tenant user v (insert_new env tenant user req (Some v))
             else insert_new env tenant user req (Some v))
      else insert_new env tenant user req None)"

definition get_memory :: "mem_env \<Rightarrow> dbid \<Rightarrow> dbid \<Rightarrow> dbid \<Rightarrow> memory mem_act" where
  "get_memory = mem_get"

definition list_memories :: "mem_env \<Rightarrow> dbid \<Rightarrow> dbid \<Rightarrow> list_filter \<Rightarrow> memory list mem_act" where
  "list_memories env tenant user f =
     (if lf_type f \<noteq> [] \<and> \<not> valid_type (lf_type f) then give (Inl MeInvalidType) else mem_list env tenant user f)"

definition update_memory :: "mem_env \<Rightarrow> dbid \<Rightarrow> dbid \<Rightarrow> dbid \<Rightarrow> update_memory \<Rightarrow> memory mem_act" where
  "update_memory env tenant user mid req =
     (if \<not> pred_option valid_type (uy_type req) then give (Inl MeInvalidType)
      else case uy_content req of
          None \<Rightarrow> mem_update env tenant user mid req None
        | Some c \<Rightarrow>
            if trim_space c = [] then give (Inl MeEmptyContent)
            else if vector_enabled env
            then and_then (embed_one env c) (\<lambda>v. mem_update env tenant user mid req (Some v))
            else mem_update env tenant user mid req None)"

definition delete_memory :: "mem_env \<Rightarrow> dbid \<Rightarrow> dbid \<Rightarrow> dbid \<Rightarrow> unit mem_act" where
  "delete_memory = mem_delete"

definition run_vector :: "mem_env \<Rightarrow> dbid \<Rightarrow> dbid \<Rightarrow> search_request \<Rightarrow> (memory \<times> f64) list mem_act" where
  "run_vector env tenant user req =
     and_then (embed_one env (sq_query req)) (\<lambda>v. search_vector env tenant user v req)"

definition search_memories :: "mem_env \<Rightarrow> dbid \<Rightarrow> dbid \<Rightarrow> search_request \<Rightarrow> (memory \<times> f64) list mem_act" where
  "search_memories env tenant user req =
     (let q = trim_space (sq_query req) in
      if q = [] \<and> sq_type req = [] \<and> sq_tags req = [] then give (Inl MeEmptySearch)
      else if sq_type req \<noteq> [] \<and> \<not> valid_type (sq_type req) then give (Inl MeInvalidType)
      else if sq_mode req = ''keyword'' then search_keyword env tenant user req
      else if sq_mode req = ''vector'' then
        (if q = [] then give (Inl MeEmptySearch)
         else if \<not> vector_enabled env then give (Inl MeVectorDisabled)
         else run_vector env tenant user req)
      else if sq_mode req = [] then
        (if q \<noteq> [] \<and> vector_enabled env then run_vector env tenant user req
         else search_keyword env tenant user req)
      else give (Inl (MeInvalidMode (sq_mode req))))"

section \<open>Re-embedding a tenant\<close>

record re_embed_result =
  rr_total :: nat
  rr_updated :: nat
  rr_failed :: nat

text \<open>The rows of one batch with their vectors; a row that cannot be written counts as failed.\<close>

fun re_embed_rows ::
  "mem_env \<Rightarrow> dbid \<Rightarrow> ((dbid \<times> dbid \<times> string) \<times> vec) list \<Rightarrow> re_embed_result \<Rightarrow> mem_db \<Rightarrow> re_embed_result \<times> mem_db" where
  "re_embed_rows env tenant [] res db = (res, db)"
| "re_embed_rows env tenant (((mid, owner, content), v) # rest) res db =
     (let res1 = res\<lparr>rr_total := rr_total res + 1\<rparr> in
      if int (length v) \<noteq> mz_dim env
      then re_embed_rows env tenant rest (res1\<lparr>rr_failed := rr_failed res + 1\<rparr>) db
      else case update_embedding env tenant owner mid v db of
          (Inl e, db') \<Rightarrow> re_embed_rows env tenant rest (res1\<lparr>rr_failed := rr_failed res + 1\<rparr>) db'
        | (Inr _, db') \<Rightarrow> re_embed_rows env tenant rest (res1\<lparr>rr_updated := rr_updated res + 1\<rparr>) db')"

definition re_embed_batch :: nat where "re_embed_batch = 32"

function re_embed_page ::
  "mem_env \<Rightarrow> dbid \<Rightarrow> (dbid \<times> dbid \<times> string) list \<Rightarrow> re_embed_result \<Rightarrow> re_embed_result mem_act" where
  "re_embed_page env tenant rows res db =
     (if rows = [] then (Inr res, db)
      else
        let batch = take re_embed_batch rows in
        case embed env (map (\<lambda>(mid, owner, content). content) batch) db of
          (Inl e, db1) \<Rightarrow> (Inl e, db1)
        | (Inr vs, db1) \<Rightarrow>
            if length vs \<noteq> length batch then (Inl MeDimMismatch, db1)
            else
              let (res2, db2) = re_embed_rows env tenant (zip batch vs) res db1
              in re_embed_page env tenant (drop re_embed_batch rows) res2 db2)"
  by pat_completeness auto
termination
  by (relation "measure (\<lambda>(env, tenant, rows, res, db). length rows)") (auto simp: re_embed_batch_def)

declare re_embed_page.simps [simp del]

text \<open>The pages of a tenant; \<open>None\<close>: out of fuel.\<close>

fun re_embed_pages ::
  "mem_env \<Rightarrow> dbid \<Rightarrow> nat \<Rightarrow> nat \<Rightarrow> re_embed_result \<Rightarrow> mem_db \<Rightarrow> ((mem_err + re_embed_result) \<times> mem_db) option" where
  "re_embed_pages env tenant 0 offset res db = None"
| "re_embed_pages env tenant (Suc fuel) offset res db =
     (case list_by_tenant env tenant 200 offset db of
        (Inl e, db1) \<Rightarrow> Some (Inl e, db1)
      | (Inr rows, db1) \<Rightarrow>
          if rows = [] then Some (Inr res, db1)
          else case re_embed_page env tenant rows res db1 of
              (Inl e, db2) \<Rightarrow> Some (Inl e, db2)
            | (Inr res2, db2) \<Rightarrow>
                if length rows < 200 then Some (Inr res2, db2)
                else re_embed_pages env tenant fuel (offset + length rows) res2 db2)"

definition re_embed_tenant :: "mem_env \<Rightarrow> dbid \<Rightarrow> nat \<Rightarrow> mem_db \<Rightarrow> ((mem_err + re_embed_result) \<times> mem_db) option" where
  "re_embed_tenant env tenant fuel db =
     (if \<not> vector_enabled env then Some (Inl MeReEmbedDisabled, db)
      else re_embed_pages env tenant fuel 0 \<lparr>rr_total = 0, rr_updated = 0, rr_failed = 0\<rparr> db)"

section \<open>The loader\<close>

record load_result =
  lr_section :: string
  lr_ids :: "dbid list"
  lr_chars :: nat
  lr_truncated :: bool

definition no_memories :: load_result where
  "no_memories = \<lparr>lr_section = [], lr_ids = [], lr_chars = 0, lr_truncated = False\<rparr>"

text \<open>\<open>fmt.Sprintf("%.2f", x)\<close>.\<close>

definition fixed2 :: "f64 \<Rightarrow> string" where
  "fixed2 x = (case x of
       FNaN \<Rightarrow> ''NaN''
     | FInf neg \<Rightarrow> if neg then ''-Inf'' else ''+Inf''
     | FFin neg m e \<Rightarrow>
         (let n = (if e \<ge> 0 then m * 100 * 2 ^ nat e else round_div (m * 100) (2 ^ nat (- e)))
          in (if neg then ''-'' else []) @ show_nat (n div 100) @ ''.'' @ pad2 (n mod 100)))"

definition newline :: char where "newline = char_of (10 :: nat)"

definition memory_line :: "memory \<times> f64 \<Rightarrow> string" where
  "memory_line = (\<lambda>(m, score).
     ''- ['' @ mm_type m @ ''] '' @ trim_space (mm_content m) @
     (if f64_less (FFin False 0 0) score then '' (score='' @ fixed2 score @ '')'' else []) @ [newline])"

definition ellipsis :: string where
  "ellipsis = map char_of [0xE2, 0x80, 0xA6 :: nat]"

definition format_memories :: "(memory \<times> f64) list \<Rightarrow> int \<Rightarrow> load_result" where
  "format_memories results max_chars =
     (if results = [] then no_memories
      else
        let section0 = ''## Relevant memories'' @ [newline] @ concat (map memory_line results);
            rs = runes section0;
            cut = (max_chars > 0 \<and> int (length rs) > max_chars);
            section = (if \<not> cut then section0
                       else if max_chars \<le> 1 then ellipsis
                       else concat (take (nat (max_chars - 1)) rs) @ ellipsis)
        in \<lparr>lr_section = section, lr_ids = map (mm_id \<circ> fst) results, lr_chars = length (runes section),
            lr_truncated = cut\<rparr>)"

record loader_config =
  lc_top_k :: int
  lc_max_chars :: int

definition new_loader :: "loader_config \<Rightarrow> loader_config" where
  "new_loader cfg =
     \<lparr>lc_top_k = (if lc_top_k cfg \<le> 0 then 5 else lc_top_k cfg),
      lc_max_chars = (if lc_max_chars cfg \<le> 0 then 4000 else lc_max_chars cfg)\<rparr>"

definition load_for_session :: "mem_env \<Rightarrow> loader_config \<Rightarrow> dbid \<Rightarrow> dbid \<Rightarrow> string \<Rightarrow> load_result mem_act" where
  "load_for_session env cfg tenant user first_message =
     (let q = trim_space first_message in
      if q = [] then give (Inr no_memories)
      else and_then
        (search_memories env tenant user
           \<lparr>sq_query = q, sq_type = [], sq_tags = [], sq_limit = lc_top_k cfg, sq_mode = []\<rparr>)
        (\<lambda>results. give (Inr (if results = [] then no_memories else format_memories results (lc_max_chars cfg)))))"

section \<open>A user sees and changes only the own memories\<close>

text \<open>The requests of a user and their answers.\<close>

datatype mem_req =
    MqCreate create_memory | MqGet dbid | MqList list_filter | MqUpdate dbid update_memory | MqDelete dbid
  | MqSearch search_request | MqLoad loader_config string

datatype mem_reply =
    MrCreated "memory \<times> bool" | MrMemory memory | MrMemories "memory list" | MrDone unit
  | MrHits "(memory \<times> f64) list" | MrLoaded load_result

definition reply_with :: "('a \<Rightarrow> mem_reply) \<Rightarrow> 'a mem_act \<Rightarrow> mem_reply mem_act" where
  "reply_with f m = and_then m (\<lambda>x. give (Inr (f x)))"

fun serve_memory :: "mem_env \<Rightarrow> dbid \<Rightarrow> dbid \<Rightarrow> mem_req \<Rightarrow> mem_reply mem_act" where
  "serve_memory env t u (MqCreate req) = reply_with MrCreated (create_memory env t u req)"
| "serve_memory env t u (MqGet mid) = reply_with MrMemory (get_memory env t u mid)"
| "serve_memory env t u (MqList f) = reply_with MrMemories (list_memories env t u f)"
| "serve_memory env t u (MqUpdate mid req) = reply_with MrMemory (update_memory env t u mid req)"
| "serve_memory env t u (MqDelete mid) = reply_with MrDone (delete_memory env t u mid)"
| "serve_memory env t u (MqSearch req) = reply_with MrHits (search_memories env t u req)"
| "serve_memory env t u (MqLoad cfg q) = reply_with MrLoaded (load_for_session env (new_loader cfg) t u q)"

definition mine :: "dbid \<Rightarrow> dbid \<Rightarrow> memory list \<Rightarrow> memory list" where
  "mine t u = filter (own_memory t u)"

definition others :: "dbid \<Rightarrow> dbid \<Rightarrow> memory list \<Rightarrow> memory list" where
  "others t u = filter (\<lambda>m. \<not> own_memory t u m)"

text \<open>What a user may learn: the own rows, the clock and which fresh ids are taken by others.\<close>

definition view :: "mem_env \<Rightarrow> dbid \<Rightarrow> dbid \<Rightarrow> mem_db \<Rightarrow> memory list \<times> nat \<times> nat set" where
  "view env t u db =
     (mine t u (db_tables db), db_clock db, {n. de_uuid env n \<in> mm_id ` set (others t u (db_tables db))})"

definition confined :: "mem_env \<Rightarrow> dbid \<Rightarrow> dbid \<Rightarrow> 'a mem_act \<Rightarrow> bool" where
  "confined env t u m \<longleftrightarrow>
     (\<forall>db. others t u (db_tables (snd (m db))) = others t u (db_tables db)) \<and>
     (\<forall>db db'. view env t u db = view env t u db' \<longrightarrow>
        fst (m db) = fst (m db') \<and> view env t u (snd (m db)) = view env t u (snd (m db')))"

named_theorems confined_rules \<open>actions confined to the rows of their user\<close>

lemma confined_give [confined_rules]: "confined env t u (give r)"
  by (simp add: confined_def)

lemma confined_if [confined_rules]:
  "confined env t u a \<Longrightarrow> confined env t u b \<Longrightarrow> confined env t u (if c then a else b)"
  by simp

lemma confined_branch:
  assumes "confined env t u m" "\<And>e. confined env t u (g e)" "\<And>x. confined env t u (f x)"
  shows "confined env t u (branch m g f)"
  unfolding confined_def
proof (intro conjI allI impI)
  fix db
  obtain r s where m: "m db = (r, s)"
    by (metis surj_pair)
  then have "others t u (db_tables s) = others t u (db_tables db)"
    using assms(1) unfolding confined_def by (metis snd_conv)
  then show "others t u (db_tables (snd (branch m g f db))) = others t u (db_tables db)"
    using assms(2,3) unfolding confined_def by (cases r) (simp_all add: branch_def m)
next
  fix db db' assume same: "view env t u db = view env t u db'"
  obtain r s r' s' where m: "m db = (r, s)" "m db' = (r', s')"
    by (metis surj_pair)
  moreover have "fst (m db) = fst (m db')" "view env t u (snd (m db)) = view env t u (snd (m db'))"
    using assms(1) same unfolding confined_def by blast+
  ultimately have eq: "r' = r" "view env t u s = view env t u s'"
    by simp_all
  have rest: "fst (k s) = fst (k s')" "view env t u (snd (k s)) = view env t u (snd (k s'))"
    if "confined env t u k" for k :: "'c mem_act"
    using that eq(2) unfolding confined_def by blast+
  show "fst (branch m g f db) = fst (branch m g f db')"
      "view env t u (snd (branch m g f db)) = view env t u (snd (branch m g f db'))"
    unfolding branch_def m eq(1) using rest [OF assms(2)] rest [OF assms(3)] by (cases r; simp)+
qed

lemma confined_then [confined_rules]:
  "confined env t u m \<Longrightarrow> (\<And>x. confined env t u (f x)) \<Longrightarrow> confined env t u (and_then m f)"
  unfolding and_then_def by (intro confined_branch confined_give)

lemma confined_clock:
  assumes "\<And>n. confined env t u (f n)"
  shows "confined env t u (\<lambda>db. f (db_clock db) db)"
  unfolding confined_def
proof (intro conjI allI impI)
  fix db db' assume "view env t u db = view env t u db'"
  moreover from this have "db_clock db' = db_clock db"
    by (simp add: view_def)
  ultimately show "fst (f (db_clock db) db) = fst (f (db_clock db') db')"
      "view env t u (snd (f (db_clock db) db)) = view env t u (snd (f (db_clock db') db'))"
    using assms unfolding confined_def by metis+
qed (use assms in \<open>simp add: confined_def\<close>)

text \<open>A statement is confined when it works on the own rows and never needs to know of the others.\<close>

lemma confined_exec:
  assumes keep: "\<And>n rows. others t u (snd (run n rows)) = others t u rows"
    and own: "\<And>n rows rows'. mine t u rows = mine t u rows' \<Longrightarrow>
      {n. de_uuid env n \<in> mm_id ` set (others t u rows)} = {n. de_uuid env n \<in> mm_id ` set (others t u rows')} \<Longrightarrow>
      fst (run n rows) = fst (run n rows') \<and> mine t u (snd (run n rows)) = mine t u (snd (run n rows'))"
  shows "confined env t u (mem_exec env what run)"
  unfolding confined_def mem_exec_def
proof (intro conjI allI impI)
  fix db :: mem_db
  obtain r tb where "run (db_clock db) (db_tables db) = (r, tb)"
    by (metis surj_pair)
  then have "others t u tb = others t u (db_tables db)"
    using keep by (metis snd_conv)
  then show "others t u (db_tables (snd (exec (db_env.truncate env) err run db))) = others t u (db_tables db)" for err
    using \<open>run _ _ = _\<close> by (cases rule: exec_cases [of run db "db_env.truncate env" err]) simp_all
next
  fix db db' :: mem_db assume "view env t u db = view env t u db'"
  then have eq: "mine t u (db_tables db) = mine t u (db_tables db')" "db_clock db' = db_clock db"
      "{n. de_uuid env n \<in> mm_id ` set (others t u (db_tables db))} =
       {n. de_uuid env n \<in> mm_id ` set (others t u (db_tables db'))}"
    by (simp_all add: view_def)
  obtain r tb r' tb' where run: "run (db_clock db) (db_tables db) = (r, tb)" "run (db_clock db) (db_tables db') = (r', tb')"
    by (metis surj_pair)
  have res: "r' = r" "mine t u tb = mine t u tb'" "others t u tb = others t u (db_tables db)"
      "others t u tb' = others t u (db_tables db')"
    using own [OF eq(1,3), of "db_clock db"] keep [of "db_clock db"] run by (metis fst_conv snd_conv)+
  show "fst (exec (db_env.truncate env) err run db) = fst (exec (db_env.truncate env) err run db')" for err
    using run res eq(2)
    by (cases rule: exec_cases [of run db "db_env.truncate env" err];
        cases rule: exec_cases [of run db' "db_env.truncate env" err]) simp_all
  show "view env t u (snd (exec (db_env.truncate env) err run db)) =
      view env t u (snd (exec (db_env.truncate env) err run db'))" for err
    using run res eq unfolding view_def
    by (cases rule: exec_cases [of run db "db_env.truncate env" err];
        cases rule: exec_cases [of run db' "db_env.truncate env" err]) simp_all
qed

lemma confined_query:
  assumes "\<And>rows rows'. mine t u rows = mine t u rows' \<Longrightarrow> ask rows = ask rows'"
  shows "confined env t u (mem_query env what ask)"
proof -
  have "confined env t u (mem_exec env what (\<lambda>n rows. (ask rows, rows)))"
  proof (rule confined_exec, goal_cases)
    case (2 n rows rows')
    show ?case
      using assms [OF 2(1)] 2(1) by simp
  qed simp
  then show ?thesis
    by (simp add: mem_query_def query_def mem_exec_def)
qed

text \<open>The statements of the repository.\<close>

lemma mine_update:
  assumes "\<And>m. P m \<Longrightarrow> own_memory t u m" "\<And>m. own_memory t u (f m) = own_memory t u m"
  shows "mine t u (update_rows P f rows) = update_rows P f (mine t u rows)"
    "others t u (update_rows P f rows) = others t u rows"
  using assms by (induction rows) (auto simp: mine_def others_def update_rows_def)

lemma hit_mine: "list_ex (\<lambda>m. Q m \<and> own_memory t u m) rows = list_ex (\<lambda>m. Q m \<and> own_memory t u m) (mine t u rows)"
  by (auto simp: list_ex_iff mine_def)

lemma own_memory_updates [simp]:
  "own_memory t u (mem_set req v n m) = own_memory t u m"
  "own_memory t u (m\<lparr>mm_last_used := n\<rparr>) = own_memory t u m"
  "own_memory t u (m\<lparr>mm_embedding := e, mm_updated := n\<rparr>) = own_memory t u m"
  by (simp_all add: own_memory_def mem_set_def)

lemma confined_get [confined_rules]: "confined env t u (mem_get env t u mid)"
  unfolding mem_get_def mine_def [symmetric] by (intro confined_query) simp

lemma confined_list [confined_rules]: "confined env t u (mem_list env t u f)"
  unfolding mem_list_def mine_def [symmetric] by (intro confined_query) simp

lemma confined_find [confined_rules]: "confined env t u (find_similar env t u v th)"
  unfolding find_similar_def mine_def [symmetric] by (simp add: confined_give, intro impI confined_query) simp

lemma confined_update_rows:
  assumes "\<And>n m. own_memory t u (f n m) = own_memory t u m"
  shows "confined env t u (mem_exec env what (\<lambda>n rows.
    (res (list_ex (\<lambda>m. Q m \<and> own_memory t u m) rows), update_rows (\<lambda>m. Q m \<and> own_memory t u m) (f n) rows)))"
proof (rule confined_exec, goal_cases)
  case (1 n rows)
  then show ?case
    unfolding snd_conv by (rule mine_update) (simp_all add: assms)
next
  case (2 n rows rows')
  then show ?case
    unfolding fst_conv snd_conv hit_mine [of Q t u rows] hit_mine [of Q t u rows']
    by (subst mine_update(1), simp, simp add: assms)+ simp
qed

lemma memory_confined_update [confined_rules]: "confined env t u (mem_update env t u mid req v)"
  unfolding mem_update_def Let_def
  by (intro confined_then confined_get confined_update_rows [where res = "\<lambda>b. if b then Inr () else Inl MeNotFound"]) simp

lemma confined_touch [confined_rules]: "confined env t u (touch_ids env t u ids)"
  using confined_update_rows [where res = "\<lambda>_. Inr ()" and Q = "\<lambda>m. mm_id m \<in> set ids"]
  by (simp add: touch_ids_def confined_give)

lemma memory_confined_delete [confined_rules]: "confined env t u (mem_delete env t u mid)"
  unfolding mem_delete_def Let_def
proof (rule confined_exec, goal_cases)
  case (1 n rows)
  then show ?case
    by (auto simp: others_def intro: filter_cong)
next
  case (2 n rows rows')
  have "mine t u (filter (\<lambda>m. \<not> (mm_id m = mid \<and> own_memory t u m)) xs) =
      filter (\<lambda>m. \<not> (mm_id m = mid \<and> own_memory t u m)) (mine t u xs)" for xs
    unfolding mine_def filter_filter by (rule filter_cong) auto
  then show ?case
    using 2(1) by (simp add: hit_mine [where rows = rows] hit_mine [where rows = rows'])
qed

lemma confined_insert:
  assumes "mm_tenant m = t" "mm_owner m = u" "mm_id m = de_uuid env k"
  shows "confined env t u (mem_insert env m)"
  unfolding mem_insert_def assms(1,2)
proof (intro confined_then confined_get confined_exec, goal_cases)
  case (1 n rows)
  have "own_memory t u (m\<lparr>mm_last_used := a, mm_created := b, mm_updated := c\<rparr>)" for a b c
    using assms by (simp add: own_memory_def)
  then show ?case
    by (simp add: others_def)
next
  case (2 n rows rows')
  have ids: "(mm_id m \<in> mm_id ` set xs) = (mm_id m \<in> mm_id ` set (mine t u xs) \<or> mm_id m \<in> mm_id ` set (others t u xs))" for xs
    by (auto simp: mine_def others_def)
  have "(mm_id m \<in> mm_id ` set (others t u rows)) = (mm_id m \<in> mm_id ` set (others t u rows'))"
    using 2(2) assms(3) by (metis (no_types, lifting) mem_Collect_eq)
  then have "(mm_id m \<in> mm_id ` set rows) = (mm_id m \<in> mm_id ` set rows')"
    unfolding ids [of rows] ids [of rows'] 2(1) by (rule arg_cong)
  moreover have "mine t u (rows @ xs) = mine t u (rows' @ xs)" for xs
    using 2(1) by (simp add: mine_def)
  ultimately show ?case
    using 2(1) by simp
qed

lemma confined_keyword [confined_rules]: "confined env t u (search_keyword env t u req)"
  unfolding search_keyword_def mine_def [symmetric]
  by (intro confined_then confined_touch confined_give confined_query) simp

lemma confined_vector [confined_rules]: "confined env t u (search_vector env t u v req)"
proof (cases "v = []")
  case False
  then show ?thesis
    unfolding search_vector_def mine_def [symmetric]
    by (simp, intro confined_then confined_touch confined_give confined_query) simp
qed (simp add: search_vector_def confined_give)

text \<open>The operations of the service.\<close>

lemma confined_embed [confined_rules]: "confined env t u (embed env texts)"
proof -
  have "embed env texts = (\<lambda>db. give (fst (embed env texts \<lparr>db_tables = [], db_clock = db_clock db\<rparr>)) db)"
    by (rule ext) (simp add: embed_def split: option.split)
  moreover have "confined env t u (\<lambda>db. give (fst (embed env texts \<lparr>db_tables = [], db_clock = db_clock db\<rparr>)) db)"
    by (rule confined_clock [where f = "\<lambda>n. give (fst (embed env texts \<lparr>db_tables = [], db_clock = n\<rparr>))"])
      (rule confined_give)
  ultimately show ?thesis
    by simp
qed

lemma confined_embed_one [confined_rules]: "confined env t u (embed_one env c)"
  unfolding embed_one_def by (intro confined_rules) (auto split: list.split intro: confined_give)

lemma confined_insert_new [confined_rules]: "confined env t u (insert_new env t u req v)"
proof -
  have "confined env t u (\<lambda>db. (\<lambda>n. and_then (mem_insert env (fresh_memory env t u req v n)) (\<lambda>m. give (Inr (m, True))))
      (db_clock db) db)"
    by (rule confined_clock) (intro confined_rules confined_insert, simp_all add: fresh_memory_def)
  then show ?thesis
    unfolding insert_new_def [abs_def] .
qed

lemma confined_dedup [confined_rules]: "confined env t u k \<Longrightarrow> confined env t u (dedup env t u v k)"
  unfolding dedup_def touch_last_used_def
  by (intro confined_branch confined_rules) (auto intro: confined_rules)

lemma memory_confined_create: "confined env t u (create_memory env t u req)"
  unfolding create_memory_def by (intro confined_rules)

lemma confined_run_vector [confined_rules]: "confined env t u (run_vector env t u req)"
  unfolding run_vector_def by (intro confined_rules)

lemma confined_search: "confined env t u (search_memories env t u req)"
  unfolding search_memories_def Let_def by (intro confined_rules)

lemma confined_load: "confined env t u (load_for_session env cfg t u q)"
  by (auto simp: load_for_session_def Let_def intro!: confined_then confined_search confined_give)

lemma confined_update_memory: "confined env t u (update_memory env t u mid req)"
  by (auto simp: update_memory_def intro: confined_rules split: option.split)

lemma confined_serve: "confined env t u (serve_memory env t u rq)"
proof (cases rq)
  case (MqList f)
  have "confined env t u (list_memories env t u f)"
    by (auto simp: list_memories_def intro: confined_rules)
  then show ?thesis
    by (simp add: MqList reply_with_def confined_then confined_give)
qed (simp_all add: reply_with_def get_memory_def delete_memory_def confined_then confined_give memory_confined_create
      confined_get memory_confined_delete confined_search confined_load confined_update_memory)

text \<open>
  C10. Memories are private: whatever a user asks, and whatever fails, the memories of all others stay
  as they are; and the answer and the new state of the own memories depend on the own memories
  alone. Two databases that agree on them, whatever others have stored, answer alike.
\<close>

theorem memories_private:
  assumes "serve_memory env t u rq db1 = (r1, db1')" "serve_memory env t u rq db2 = (r2, db2')"
    and "mine t u (db_tables db1) = mine t u (db_tables db2)" "db_clock db1 = db_clock db2"
    and "\<And>n m. m \<in> set (others t u (db_tables db1)) \<union> set (others t u (db_tables db2)) \<Longrightarrow> mm_id m \<noteq> de_uuid env n"
  shows "r1 = r2 \<and> mine t u (db_tables db1') = mine t u (db_tables db2') \<and>
    others t u (db_tables db1') = others t u (db_tables db1) \<and> others t u (db_tables db2') = others t u (db_tables db2)"
proof -
  have "{n. de_uuid env n \<in> mm_id ` set (others t u (db_tables db1))} = {}"
       "{n. de_uuid env n \<in> mm_id ` set (others t u (db_tables db2))} = {}"
    by (auto, (metis UnI1 UnI2 assms(5))+)
  then have "view env t u db1 = view env t u db2"
    using assms(3,4) by (simp add: view_def)
  then have "r1 = r2" "view env t u db1' = view env t u db2'"
    using confined_serve [of env t u rq] assms(1,2) unfolding confined_def by (metis fst_conv snd_conv)+
  moreover have "others t u (db_tables db1') = others t u (db_tables db1)" "others t u (db_tables db2') = others t u (db_tables db2)"
    using confined_serve [of env t u rq] assms(1,2) unfolding confined_def by (metis snd_conv)+
  ultimately show ?thesis
    by (simp add: view_def)
qed

end
