(* ===== verification/MemoryRuns.thy ===== *)
theory MemoryRuns
  imports Memory
begin

text \<open>
  What a search returns, what the model gets to read of it, and the re-embedding of a tenant: the
  paged loop ends, touches nothing but vectors, and without failures leaves every row of the tenant
  with the vector of its content.
\<close>

section \<open>The nearest memories\<close>

lemma set_take_sorted:
  assumes "sorted (map f xs)" "x \<in> set xs" "x \<notin> set (take n xs)" "y \<in> set (take n xs)"
  shows "f y \<le> f x"
proof -
  have "x \<in> set (drop n xs)"
    using assms(2,3) by (metis UnE append_take_drop_id set_append)
  moreover have "sorted (map f (take n xs @ drop n xs))"
    using assms(1) by simp
  ultimately show ?thesis
    using assms(4) unfolding map_append sorted_append by auto
qed

lemma take_full:
  assumes "x \<in> set xs" "x \<notin> set (take n xs)"
  shows "length (take n xs) = n"
  using assms by (cases "length xs \<le> n") auto

lemma row_limit_le: "row_limit n \<le> 100"
  by (auto simp: row_limit_def)


section \<open>The block for the model\<close>

lemma runes_ellipsis: "runes ellipsis = [ellipsis]"
  by (simp add: ellipsis_def utf8_len_def cont_byte_def Let_def numeral_2_eq_2)

lemma format_memories_bound:
  assumes "0 < max_chars"
  shows "int (lr_chars (format_memories results max_chars)) \<le> max_chars"
proof -
  let ?section = "''## Relevant memories'' @ [newline] @ concat (map memory_line results)"
  have "length (runes (concat (take n (runes ?section)) @ ellipsis)) \<le> Suc n" for n
    by (simp add: runes_taken runes_ellipsis del: runes.simps)
  from this [of "nat (max_chars - 1)"] show ?thesis
    using assms by (auto simp: format_memories_def no_memories_def Let_def runes_ellipsis simp del: runes.simps)
qed

lemma format_memories_parts:
  "lr_ids (format_memories results n) = map (mm_id \<circ> fst) results"
  "lr_chars (format_memories results n) = length (runes (lr_section (format_memories results n)))"
  by (simp_all add: format_memories_def no_memories_def Let_def)

lemma search_own:
  assumes "serve_memory env t u (MqSearch req) db = (Inr (MrHits hits), db')"
  shows "fst ` set hits \<subseteq> set (mine t u (db_tables db)) \<and> length hits \<le> row_limit (sq_limit req)"
proof -
  have "search_memories env t u req db = (Inr hits, db')"
    using assms by (auto simp: reply_with_def and_then_apply split: prod.splits sum.splits)
  then consider "search_keyword env t u req db = (Inr hits, db')" | "run_vector env t u req db = (Inr hits, db')"
    by (auto simp: search_memories_def Let_def split: if_splits)
  then show ?thesis
  proof cases
    case 1
    then show ?thesis
      unfolding search_keyword_def
      by (elim and_then_Inr) (auto simp: mem_query_def newest_first_def mine_def dest!: query_Inr in_set_takeD)
  next
    case 2
    then obtain v db1 where v: "embed_one env (sq_query req) db = (Inr v, db1)" "search_vector env t u v req db1 = (Inr hits, db')"
      unfolding run_vector_def by (elim and_then_Inr)
    have "db_tables db1 = db_tables db"
      using v(1) by (auto simp: embed_one_def and_then_apply embed_def give_def split: option.splits sum.splits list.splits if_splits)
    moreover have "v \<noteq> []"
      using v(2) by (auto simp: search_vector_def)
    ultimately show ?thesis
      using v(2) unfolding search_vector_def
      by (simp, elim and_then_Inr) (auto simp: mem_query_def nearest_first_def mine_def dest!: query_Inr in_set_takeD)
  qed
qed

text \<open>
  What the memories add to the prompt is bounded: the block of a first message has at most the
  configured number of characters (4000 by default) and is made of at most as many memories as the
  loader asks for, all of them own memories of the user; no memory, no block.
\<close>

theorem memory_block_bounded:
  assumes "load_for_session env (new_loader cfg) t u q db = (Inr r, db')"
  shows "int (lr_chars r) \<le> lc_max_chars (new_loader cfg) \<and> lr_chars r = length (runes (lr_section r)) \<and>
    length (lr_ids r) \<le> row_limit (lc_top_k (new_loader cfg)) \<and>
    set (lr_ids r) \<subseteq> mm_id ` set (mine t u (db_tables db)) \<and> (lr_ids r = [] \<longrightarrow> lr_section r = [])"
proof (cases "trim_space q = [] \<or> r = no_memories")
  case True
  then show ?thesis
    using assms by (auto simp: load_for_session_def no_memories_def new_loader_def)
next
  case False
  then obtain results where search: "search_memories env t u
       \<lparr>sq_query = trim_space q, sq_type = [], sq_tags = [], sq_limit = lc_top_k (new_loader cfg), sq_mode = []\<rparr> db = (Inr results, db')"
      and r: "results \<noteq> []" "r = format_memories results (lc_max_chars (new_loader cfg))"
    using assms by (auto simp: load_for_session_def Let_def and_then_apply split: prod.splits sum.splits if_splits)
  have "serve_memory env t u (MqSearch
       \<lparr>sq_query = trim_space q, sq_type = [], sq_tags = [], sq_limit = lc_top_k (new_loader cfg), sq_mode = []\<rparr>) db =
      (Inr (MrHits results), db')"
    by (simp add: reply_with_def and_then_apply search)
  from search_own [OF this] show ?thesis
    using format_memories_bound [of "lc_max_chars (new_loader cfg)" results] r
    by (auto simp: format_memories_parts new_loader_def)
qed

section \<open>Re-embedding\<close>

text \<open>What the pages are read from: the rows without their vectors and times.\<close>

definition row_key :: "memory \<Rightarrow> dbid \<times> dbid \<times> dbid \<times> string" where
  "row_key m = (mm_id m, mm_tenant m, mm_owner m, mm_content m)"

definition page_rows :: "dbid \<Rightarrow> memory list \<Rightarrow> (dbid \<times> dbid \<times> string) list" where
  "page_rows t rows = map (\<lambda>m. (mm_id m, mm_owner m, mm_content m)) (sort_key mm_id (filter (\<lambda>m. mm_tenant m = t) rows))"

lemma map_insort_key: "map g (insort_key (\<lambda>x. k (g x)) x xs) = insort_key k (g x) (map g xs)"
  by (induction xs) auto

lemma map_sort_key: "map g (sort_key (\<lambda>x. k (g x)) xs) = sort_key k (map g xs)"
  by (induction xs) (simp_all add: map_insort_key)

lemma page_rows_keys:
  "page_rows t rows = sort_key fst (map (\<lambda>(i, _, ow, c). (i, ow, c)) (filter (\<lambda>(_, te, _). te = t) (map row_key rows)))"
proof -
  have "page_rows t rows = sort_key fst (map (\<lambda>m. (mm_id m, mm_owner m, mm_content m)) (filter (\<lambda>m. mm_tenant m = t) rows))"
    using map_sort_key [of "\<lambda>m. (mm_id m, mm_owner m, mm_content m)" fst] by (simp add: page_rows_def)
  also have "map (\<lambda>m. (mm_id m, mm_owner m, mm_content m)) (filter (\<lambda>m. mm_tenant m = t) rows) =
      map (\<lambda>(i, _, ow, c). (i, ow, c)) (filter (\<lambda>(_, te, _). te = t) (map row_key rows))"
    by (induction rows) (auto simp: row_key_def)
  finally show ?thesis .
qed

lemma page_rows_cong: "map row_key rows = map row_key rows' \<Longrightarrow> page_rows t rows = page_rows t rows'"
  by (simp add: page_rows_keys)

lemma list_by_tenant_page: "list_by_tenant env t 200 off db = (Inr rows, db') \<Longrightarrow>
    rows = take 200 (drop off (page_rows t (db_tables db))) \<and> db_tables db' = db_tables db"
  unfolding list_by_tenant_def mem_query_def by (drule query_Inr) (simp add: page_rows_def take_map drop_map)

text \<open>Re-embedding changes vectors and times of the tenant's rows, nothing else.\<close>

definition without_vector :: "dbid \<Rightarrow> memory \<Rightarrow> memory" where
  "without_vector t m = (if mm_tenant m = t then m\<lparr>mm_updated := 0, mm_embedding := None\<rparr> else m)"

definition same_but_vectors :: "dbid \<Rightarrow> memory list \<Rightarrow> memory list \<Rightarrow> bool" where
  "same_but_vectors t rows rows' \<longleftrightarrow> map (without_vector t) rows' = map (without_vector t) rows"

lemma same_but_vectors_refl [simp]: "same_but_vectors t rows rows"
  by (simp add: same_but_vectors_def)

lemma same_but_vectors_trans [trans]: "same_but_vectors t a b \<Longrightarrow> same_but_vectors t b c \<Longrightarrow> same_but_vectors t a c"
  by (simp add: same_but_vectors_def)

lemma same_but_vectors_keys:
  assumes "same_but_vectors t rows rows'"
  shows "map row_key rows' = map row_key rows"
proof -
  have "row_key = row_key \<circ> without_vector t"
    by (rule ext) (simp add: row_key_def without_vector_def)
  then show ?thesis
    using assms unfolding same_but_vectors_def by (metis map_map)
qed

lemma same_but_vectors_update:
  "same_but_vectors t rows (update_rows (\<lambda>m. mm_id m = mid \<and> own_memory t ow m) (\<lambda>m. m\<lparr>mm_embedding := v, mm_updated := n\<rparr>) rows)"
  by (simp add: same_but_vectors_def update_rows_def without_vector_def own_memory_def)

lemma update_embedding_same: "same_but_vectors t (db_tables db) (db_tables (snd (update_embedding env t ow mid v db)))"
proof (cases "v = []")
  case False
  then show ?thesis
    unfolding update_embedding_def mem_exec_def Let_def
    by (auto simp: exec_def Let_def same_but_vectors_update split: option.split)
qed (simp add: update_embedding_def)

lemma re_embed_rows_same:
  assumes "re_embed_rows env t todo res db = (res', db')"
  shows "same_but_vectors t (db_tables db) (db_tables db') \<and>
    rr_total res' = rr_total res + length todo \<and>
    rr_updated res' + rr_failed res' = rr_updated res + rr_failed res + length todo"
  using assms
proof (induction todo arbitrary: res db)
  case (Cons x todo)
  obtain mid ow c v where x: "x = ((mid, ow, c), v)"
    by (metis surj_pair)
  obtain r db1 where up: "update_embedding env t ow mid v db = (r, db1)"
    by (metis surj_pair)
  have same: "same_but_vectors t (db_tables db) (db_tables db1)"
    using update_embedding_same [of t db env ow mid v] by (simp add: up)
  consider "int (length v) \<noteq> mz_dim env" | e where "int (length v) = mz_dim env" "r = Inl e"
    | "int (length v) = mz_dim env" "r = Inr ()"
    by (cases r) auto
  then show ?case
  proof cases
    case 1
    then show ?thesis
      using Cons.IH Cons.prems by (force simp: x)
  next
    case 2
    then have "re_embed_rows env t todo (res\<lparr>rr_total := rr_total res + 1, rr_failed := rr_failed res + 1\<rparr>) db1 = (res', db')"
      using Cons.prems by (simp add: x up)
    from Cons.IH [OF this] show ?thesis
      using same_but_vectors_trans [OF same] by simp
  next
    case 3
    then have "re_embed_rows env t todo (res\<lparr>rr_total := rr_total res + 1, rr_updated := rr_updated res + 1\<rparr>) db1 = (res', db')"
      using Cons.prems by (simp add: x up)
    from Cons.IH [OF this] show ?thesis
      using same_but_vectors_trans [OF same] by simp
  qed
qed simp

lemma embed_tables [simp]: "db_tables (snd (embed env texts db)) = db_tables db"
  by (simp add: embed_def split: option.split)

text \<open>The rows of a page, batch by batch.\<close>

lemma re_embed_page_cases [consumes 1]:
  assumes "re_embed_page env t rows res db = (r, db')"
  obtains (finished) "rows = []" "r = Inr res" "db' = db"
  | (refused) e where "r = Inl e" "db_tables db' = db_tables db"
  | (batch) vs db1 res2 db2 where "rows \<noteq> []" "db_tables db1 = db_tables db"
      "embed env (map (\<lambda>(mid, owner, content). content) (take re_embed_batch rows)) db = (Inr vs, db1)"
      "length vs = length (take re_embed_batch rows)"
      "re_embed_rows env t (zip (take re_embed_batch rows) vs) res db1 = (res2, db2)"
      "re_embed_page env t (drop re_embed_batch rows) res2 db2 = (r, db')"
proof (cases "rows = []")
  case True
  then show thesis
    using assms finished by (simp add: re_embed_page.simps)
next
  case False
  obtain o1 db1 where em: "embed env (map (\<lambda>(mid, owner, content). content) (take re_embed_batch rows)) db = (o1, db1)"
    by (metis surj_pair)
  have tables: "db_tables db1 = db_tables db"
    by (metis em embed_tables snd_conv)
  show thesis
  proof (cases o1)
    case (Inl e)
    then have "r = Inl e" "db' = db1"
      using assms False em by (simp_all add: re_embed_page.simps [of env t rows res db])
    then show thesis
      using refused tables by blast
  next
    case (Inr vs)
    obtain res2 db2 where step: "re_embed_rows env t (zip (take re_embed_batch rows) vs) res db1 = (res2, db2)"
      by (metis surj_pair)
    show thesis
    proof (cases "length vs = length (take re_embed_batch rows)")
      case True
      then have "re_embed_page env t (drop re_embed_batch rows) res2 db2 = (r, db')"
        using assms False by (simp add: re_embed_page.simps [of env t rows res db] em Inr step)
      then show thesis
        using batch [OF False tables em [unfolded Inr] True step] by simp
    next
      case no: False
      then have "r = Inl MeDimMismatch" "db' = db1"
        using assms False em Inr by (simp_all add: re_embed_page.simps [of env t rows res db])
      then show thesis
        using refused tables by blast
    qed
  qed
qed

lemma re_embed_page_same:
  assumes "re_embed_page env t rows res db = (r, db')"
  shows "same_but_vectors t (db_tables db) (db_tables db') \<and>
    (\<forall>res'. r = Inr res' \<longrightarrow> rr_total res' = rr_total res + length rows \<and>
       rr_updated res' + rr_failed res' = rr_updated res + rr_failed res + length rows)"
  using assms
proof (induction "length rows" arbitrary: rows res db rule: less_induct)
  case less
  from less.prems show ?case
  proof (cases rule: re_embed_page_cases)
    case (batch vs db1 res2 db2)
    have "length (drop re_embed_batch rows) < length rows"
      using batch(1) by (simp add: re_embed_batch_def)
    note rest = less.hyps [OF this batch(6)] and here = re_embed_rows_same [OF batch(5)]
    have "same_but_vectors t (db_tables db) (db_tables db')"
      using same_but_vectors_trans [OF conjunct1 [OF here] conjunct1 [OF rest]] by (simp add: batch(2))
    moreover have sum: "length (drop re_embed_batch rows) + length (zip (take re_embed_batch rows) vs) = length rows"
      by (simp add: batch(4))
    moreover have "rr_total res' = rr_total res + length rows \<and>
        rr_updated res' + rr_failed res' = rr_updated res + rr_failed res + length rows"
      if "r = Inr res'" for res'
    proof -
      have "rr_total res' = rr_total res2 + length (drop re_embed_batch rows)"
          "rr_updated res' + rr_failed res' = rr_updated res2 + rr_failed res2 + length (drop re_embed_batch rows)"
        using rest that by blast+
      then show ?thesis
        using here sum by linarith
    qed
    ultimately show ?thesis
      by blast
  next
    case finished
    then show ?thesis by simp
  next
    case (refused e)
    then show ?thesis by simp
  qed
qed

lemma re_embed_pages_end:
  assumes "length (page_rows t (db_tables db)) < off + 200 * fuel" "off \<le> length (page_rows t (db_tables db))"
    and "rr_total res = off" "rr_updated res + rr_failed res = off"
  shows "\<exists>r db'. re_embed_pages env t fuel off res db = Some (r, db') \<and> same_but_vectors t (db_tables db) (db_tables db') \<and>
    (\<forall>res'. r = Inr res' \<longrightarrow> rr_total res' = length (page_rows t (db_tables db)) \<and>
       rr_updated res' + rr_failed res' = length (page_rows t (db_tables db)))"
  using assms
proof (induction fuel arbitrary: off res db)
  case (Suc fuel)
  obtain l db1 where ask: "list_by_tenant env t 200 off db = (l, db1)"
    by (metis surj_pair)
  have "db_tables (snd (list_by_tenant env t 200 off db)) = db_tables db"
    by (simp add: list_by_tenant_def mem_query_def)
  then have tables: "db_tables db1 = db_tables db"
    by (simp add: ask)
  let ?N = "length (page_rows t (db_tables db))"
  show ?case
  proof (cases l)
    case (Inl e)
    then show ?thesis
      by (simp add: ask tables)
  next
    case (Inr rows)
    have rows: "rows = take 200 (drop off (page_rows t (db_tables db)))"
      using list_by_tenant_page [OF ask [unfolded Inr]] by simp
    then have len: "length rows = min 200 (?N - off)"
      by (simp add: min.commute)
    obtain r2 db2 where page: "re_embed_page env t rows res db1 = (r2, db2)"
      by (metis surj_pair)
    note same = re_embed_page_same [OF page, unfolded tables]
    then have keys: "page_rows t (db_tables db2) = page_rows t (db_tables db)"
      using same_but_vectors_keys page_rows_cong by metis
    consider "rows = []" | e where "rows \<noteq> []" "r2 = Inl e" | res2 where "rows \<noteq> []" "r2 = Inr res2" "length rows < 200"
      | res2 where "rows \<noteq> []" "r2 = Inr res2" "length rows = 200"
      using len by (cases r2; fastforce)
    then show ?thesis
    proof cases
      case 1
      then have "?N = off"
        using len Suc.prems(2) by (cases "?N - off") auto
      then show ?thesis
        using 1 Suc.prems(3,4) by (simp add: ask Inr tables)
    next
      case 2
      then show ?thesis
        using same by (simp add: ask Inr page)
    next
      case 3
      then have "off + length rows = ?N"
        using len Suc.prems(2) by linarith
      then show ?thesis
        using 3 same Suc.prems(3,4) by (simp add: ask Inr page)
    next
      case 4
      have "rr_total res2 = rr_total res + length rows"
          "rr_updated res2 + rr_failed res2 = rr_updated res + rr_failed res + length rows"
        using same 4(2) by blast+
      moreover have "off + length rows \<le> ?N"
        using len Suc.prems(2) by linarith
      ultimately have "length (page_rows t (db_tables db2)) < (off + length rows) + 200 * fuel"
          "off + length rows \<le> length (page_rows t (db_tables db2))"
          "rr_total res2 = off + length rows" "rr_updated res2 + rr_failed res2 = off + length rows"
        using Suc.prems 4(3) unfolding keys by simp_all
      from Suc.IH [OF this] obtain r db' where last: "re_embed_pages env t fuel (off + length rows) res2 db2 = Some (r, db')"
          "same_but_vectors t (db_tables db2) (db_tables db')"
          "\<forall>res'. r = Inr res' \<longrightarrow> rr_total res' = ?N \<and> rr_updated res' + rr_failed res' = ?N"
        unfolding keys by blast
      have "re_embed_pages env t (Suc fuel) off res db = Some (r, db')"
        using 4 last(1) by (simp add: ask Inr page)
      then show ?thesis
        using same_but_vectors_trans [OF conjunct1 [OF same] last(2)] last(3) by blast
    qed
  qed
qed simp

lemma length_page_rows: "length (page_rows t rows) = length (filter (\<lambda>m. mm_tenant m = t) rows)"
  by (simp add: page_rows_def)

text \<open>
  Re-embedding a tenant ends: one round per two hundred rows is enough, whatever fails. It
  changes nothing but the vectors and update times of the rows of this tenant, and when it reports
  a result, every row of the tenant is counted, as updated or as failed.
\<close>

theorem re_embed_ends:
  assumes "length (filter (\<lambda>m. mm_tenant m = t) (db_tables db)) div 200 < fuel"
  shows "\<exists>r db'. re_embed_tenant env t fuel db = Some (r, db') \<and> same_but_vectors t (db_tables db) (db_tables db') \<and>
    (\<forall>res. r = Inr res \<longrightarrow> rr_total res = length (filter (\<lambda>m. mm_tenant m = t) (db_tables db)) \<and>
       rr_updated res + rr_failed res = rr_total res)"
proof (cases "vector_enabled env")
  case True
  have "length (page_rows t (db_tables db)) < 0 + 200 * fuel"
    using assms by (simp add: length_page_rows)
  from re_embed_pages_end [OF this, of "\<lparr>rr_total = 0, rr_updated = 0, rr_failed = 0\<rparr>" env] show ?thesis
    using True by (fastforce simp: re_embed_tenant_def length_page_rows)
qed (simp add: re_embed_tenant_def)

text \<open>Without failures, each row gets the vector of its content.\<close>

definition names_row :: "dbid \<Rightarrow> memory list \<Rightarrow> dbid \<times> dbid \<times> string \<Rightarrow> bool" where
  "names_row t rows = (\<lambda>(mid, ow, c). (mid, t, ow, c) \<in> row_key ` set rows \<and>
     (\<forall>k \<in> row_key ` set rows. fst k = mid \<longrightarrow> k = (mid, t, ow, c)))"

definition embedded :: "dbid \<Rightarrow> (string \<Rightarrow> vec) \<Rightarrow> dbid set \<Rightarrow> memory list \<Rightarrow> bool" where
  "embedded t f S rows \<longleftrightarrow>
     (\<forall>m \<in> set rows. mm_tenant m = t \<and> mm_id m \<in> S \<longrightarrow> mm_embedding m = Some (f (mm_content m)))"

lemma names_row_keys:
  assumes "map row_key rows' = map row_key rows"
  shows "names_row t rows' = names_row t rows"
proof -
  have "row_key ` set rows' = row_key ` set rows"
    using assms by (metis set_map)
  then show ?thesis
    by (simp add: names_row_def)
qed

lemma page_rows_named:
  assumes "distinct (map mm_id rows)" "x \<in> set (page_rows t rows)"
  shows "names_row t rows x"
proof -
  obtain m where m: "m \<in> set rows" "mm_tenant m = t" "x = (mm_id m, mm_owner m, mm_content m)"
    using assms(2) by (auto simp: page_rows_def)
  have "m' = m" if "m' \<in> set rows" "mm_id m' = mm_id m" for m'
    using assms(1) that m(1) by (auto simp: distinct_map dest: inj_onD)
  then show ?thesis
    using m by (auto simp: names_row_def row_key_def)
qed

lemma update_embedding_named:
  assumes "calm (db_env.truncate env)" "names_row t (db_tables db) (mid, ow, c)" "v = f c" "v \<noteq> []" "embedded t f S (db_tables db)"
  shows "\<exists>db'. update_embedding env t ow mid v db = (Inr (), db') \<and> embedded t f (insert mid S) (db_tables db')"
proof -
  let ?hit = "\<lambda>m. mm_id m = mid \<and> own_memory t ow m"
  have hit: "list_ex ?hit (db_tables db)"
    using assms(2) by (auto simp: names_row_def row_key_def own_memory_def list_ex_iff)
  have only: "mm_content m = c \<and> ?hit m" if "m \<in> set (db_tables db)" "mm_id m = mid" for m
    using assms(2) that by (auto simp: names_row_def row_key_def own_memory_def)
  have "embedded t f (insert mid S) (update_rows ?hit (\<lambda>m. m\<lparr>mm_embedding := Some v, mm_updated := n\<rparr>) (db_tables db))" for n
    using assms(3,5) only by (auto simp: embedded_def update_rows_def)
  then show ?thesis
    using assms(1,4) hit by (simp add: update_embedding_def mem_exec_def exec_calm)
qed

lemma re_embed_rows_named:
  assumes "calm (db_env.truncate env)" "\<And>c. int (length (f c)) = mz_dim env" "0 < mz_dim env"
  shows "list_all (names_row t (db_tables db)) todo \<Longrightarrow> embedded t f S (db_tables db) \<Longrightarrow>
    re_embed_rows env t (map (\<lambda>x. (x, f (snd (snd x)))) todo) res db = (res', db') \<Longrightarrow>
    rr_failed res' = rr_failed res \<and> embedded t f (S \<union> fst ` set todo) (db_tables db')"
proof (induction todo arbitrary: res db S)
  case (Cons x todo)
  obtain mid ow c where x: "x = (mid, ow, c)"
    by (cases x)
  have "f c \<noteq> []"
    using assms(2) [of c] assms(3) by auto
  then obtain db1 where up: "update_embedding env t ow mid (f c) db = (Inr (), db1)"
      and db1: "embedded t f (insert mid S) (db_tables db1)"
    using update_embedding_named [OF assms(1) _ refl, of t db mid ow c f S] Cons.prems(1,2) by (auto simp: x)
  have "map row_key (db_tables db1) = map row_key (db_tables db)"
    using same_but_vectors_keys [OF update_embedding_same [of t db env ow mid "f c"]] by (simp add: up)
  from names_row_keys [OF this] have "list_all (names_row t (db_tables db1)) todo"
    using Cons.prems(1) by simp
  moreover have "re_embed_rows env t (map (\<lambda>x. (x, f (snd (snd x)))) todo)
      (res\<lparr>rr_total := rr_total res + 1, rr_updated := rr_updated res + 1\<rparr>) db1 = (res', db')"
    using Cons.prems(3) assms(2) by (simp add: x up)
  ultimately show ?case
    using Cons.IH [OF _ db1] by (simp add: x)
qed simp

text \<open>An embedder that answers each text by itself, with a vector of the configured width.\<close>

definition embeds_by :: "mem_env \<Rightarrow> (string \<Rightarrow> vec) \<Rightarrow> bool" where
  "embeds_by env f \<longleftrightarrow> mz_on_write env \<and> 0 < mz_dim env \<and> (\<forall>c. int (length (f c)) = mz_dim env) \<and>
     (\<exists>e. mz_embed env = Some e \<and> (\<forall>n texts. e n texts = Inr (map f texts)))"

lemma embeds_byD:
  assumes "embeds_by env f"
  shows "embed env texts db = (Inr (map f texts), db)" "vector_enabled env" "0 < mz_dim env"
    "int (length (f c)) = mz_dim env"
  using assms by (auto simp: embeds_by_def embed_def vector_enabled_def)

lemma re_embed_page_named:
  assumes "calm (db_env.truncate env)" "embeds_by env f"
  shows "list_all (names_row t (db_tables db)) rows \<Longrightarrow> embedded t f S (db_tables db) \<Longrightarrow>
    \<exists>res' db'. re_embed_page env t rows res db = (Inr res', db') \<and> rr_failed res' = rr_failed res \<and>
      embedded t f (S \<union> fst ` set rows) (db_tables db')"
proof (induction "length rows" arbitrary: rows res db S rule: less_induct)
  case less
  show ?case
  proof (cases "rows = []")
    case False
    let ?batch = "take re_embed_batch rows"
    have em: "embed env (map (\<lambda>(mid, owner, content). content) ?batch) db = (Inr (map (\<lambda>x. f (snd (snd x))) ?batch), db)"
      using embeds_byD(1) [OF assms(2)] by (simp add: case_prod_unfold comp_def)
    have zip: "zip ?batch (map (\<lambda>x. f (snd (snd x))) ?batch) = map (\<lambda>x. (x, f (snd (snd x)))) ?batch"
      by (simp add: zip_map2 zip_same_conv_map)
    obtain res1 db1 where step: "re_embed_rows env t (map (\<lambda>x. (x, f (snd (snd x)))) ?batch) res db = (res1, db1)"
      by (metis surj_pair)
    have "list_all (names_row t (db_tables db)) ?batch"
      using less.prems(1) by (auto simp: list_all_iff dest: in_set_takeD)
    note one = re_embed_rows_named [OF assms(1) embeds_byD(4) [OF assms(2)] embeds_byD(3) [OF assms(2)] this less.prems(2) step]
    have "map row_key (db_tables db1) = map row_key (db_tables db)"
      using re_embed_rows_same [OF step] same_but_vectors_keys by blast
    from names_row_keys [OF this] have "list_all (names_row t (db_tables db1)) (drop re_embed_batch rows)"
      using less.prems(1) by (auto simp: list_all_iff dest: in_set_dropD)
    moreover have "length (drop re_embed_batch rows) < length rows"
      using False by (simp add: re_embed_batch_def)
    ultimately obtain res' db' where rest: "re_embed_page env t (drop re_embed_batch rows) res1 db1 = (Inr res', db')"
        "rr_failed res' = rr_failed res1"
        "embedded t f ((S \<union> fst ` set ?batch) \<union> fst ` set (drop re_embed_batch rows)) (db_tables db')"
      using less.hyps one by blast
    moreover have "re_embed_page env t rows res db = (Inr res', db')"
      using rest(1) False by (simp add: re_embed_page.simps [of env t rows res db] em zip step)
    moreover have "fst ` set ?batch \<union> fst ` set (drop re_embed_batch rows) = fst ` set rows"
      by (metis append_take_drop_id image_Un set_append)
    ultimately show ?thesis
      using one by (metis Un_assoc)
  qed (use less.prems in \<open>simp add: re_embed_page.simps\<close>)
qed

lemma re_embed_pages_named:
  assumes "calm (db_env.truncate env)" "embeds_by env f" "page_rows t (db_tables db0) = P" "list_all (names_row t (db_tables db0)) P"
  shows "map row_key (db_tables db) = map row_key (db_tables db0) \<Longrightarrow> embedded t f (fst ` set (take off P)) (db_tables db) \<Longrightarrow>
    rr_failed res = 0 \<Longrightarrow> re_embed_pages env t fuel off res db = Some (r, db') \<Longrightarrow>
    \<exists>res'. r = Inr res' \<and> rr_failed res' = 0 \<and> embedded t f (fst ` set P) (db_tables db')"
proof (induction fuel arbitrary: off res db)
  case (Suc fuel)
  define rows where "rows = take 200 (drop off P)"
  have pages: "page_rows t (db_tables db) = P" "list_all (names_row t (db_tables db)) P"
    using page_rows_cong [OF Suc.prems(1), of t] names_row_keys [OF Suc.prems(1), of t] assms(3,4) by simp_all
  obtain rows0 db1 where "list_by_tenant env t 200 off db = (Inr rows0, db1)"
    using assms(1) by (simp add: list_by_tenant_def mem_query_def query_calm)
  then have ask: "list_by_tenant env t 200 off db = (Inr rows, db1)" "db_tables db1 = db_tables db"
    using list_by_tenant_page pages(1) unfolding rows_def by metis+
  have "list_all (names_row t (db_tables db1)) rows"
    using pages(2) by (auto simp: rows_def ask(2) list_all_iff dest: in_set_takeD in_set_dropD)
  from re_embed_page_named [OF assms(1,2) this, of "fst ` set (take off P)" res] Suc.prems(2)
  obtain res2 db2 where page: "re_embed_page env t rows res db1 = (Inr res2, db2)" "rr_failed res2 = rr_failed res"
      "embedded t f (fst ` set (take off P) \<union> fst ` set rows) (db_tables db2)"
    by (auto simp: ask(2))
  have upto: "fst ` set (take off P) \<union> fst ` set rows = fst ` set (take (off + length rows) P)"
  proof -
    have "take (off + length rows) P = take off P @ rows"
      by (cases "length P - off \<le> 200") (auto simp: rows_def take_add min_def)
    then show ?thesis
      by (metis image_Un set_append)
  qed
  have keys: "map row_key (db_tables db2) = map row_key (db_tables db0)"
    using re_embed_page_same [OF page(1)] same_but_vectors_keys Suc.prems(1) ask(2) by metis
  show ?case
  proof (cases "length rows < 200")
    case True
    then have "take (off + length rows) P = P"
      by (auto simp: rows_def)
    moreover have "r = Inr (if rows = [] then res else res2) \<and> db_tables db' = (if rows = [] then db_tables db else db_tables db2)"
      using Suc.prems(4) True ask(2) by (auto simp: ask(1) page(1) split: if_splits)
    ultimately show ?thesis
      using page(2,3) Suc.prems(2,3) unfolding upto by (cases "rows = []") auto
  next
    case False
    then have "length rows = 200"
      by (simp add: rows_def)
    then have "re_embed_pages env t fuel (off + length rows) res2 db2 = Some (r, db')"
      using Suc.prems(4) by (auto simp: ask(1) page(1) split: if_splits)
    then show ?thesis
      using Suc.IH [OF keys page(3) [unfolded upto]] page(2) Suc.prems(3) by simp
  qed
qed simp

text \<open>
  Re-embedding reaches every memory: with a database that answers and an embedder that gives each
  text its vector, the loop returns, reports every row of the tenant as updated and none as failed,
  and afterwards each of them carries the vector of its content, however many pages and batches
  that takes; other columns and other tenants are as before.
\<close>

theorem re_embed_complete:
  assumes "calm (db_env.truncate env)" "embeds_by env f" "distinct (map mm_id (db_tables db))"
    and "length (filter (\<lambda>m. mm_tenant m = t) (db_tables db)) div 200 < fuel"
  shows "\<exists>res db'. re_embed_tenant env t fuel db = Some (Inr res, db') \<and>
    rr_updated res = length (filter (\<lambda>m. mm_tenant m = t) (db_tables db)) \<and> rr_failed res = 0 \<and>
    same_but_vectors t (db_tables db) (db_tables db') \<and>
    (\<forall>m \<in> set (db_tables db'). mm_tenant m = t \<longrightarrow> mm_embedding m = Some (f (mm_content m)))"
proof -
  let ?P = "page_rows t (db_tables db)" and ?zero = "\<lparr>rr_total = 0, rr_updated = 0, rr_failed = 0\<rparr>"
  have on: "vector_enabled env"
    using embeds_byD(2) [OF assms(2)] .
  have "length ?P < 0 + 200 * fuel"
    using assms(4) by (simp add: length_page_rows)
  from re_embed_pages_end [OF this, of ?zero env] obtain r db' where run:
      "re_embed_pages env t fuel 0 ?zero db = Some (r, db')" "same_but_vectors t (db_tables db) (db_tables db')"
      "\<forall>res'. r = Inr res' \<longrightarrow> rr_total res' = length ?P \<and> rr_updated res' + rr_failed res' = length ?P"
    by auto
  have "list_all (names_row t (db_tables db)) ?P"
    using page_rows_named [OF assms(3)] by (simp add: list_all_iff)
  from re_embed_pages_named [OF assms(1,2) refl this refl _ _ run(1)] obtain res where res: "r = Inr res" "rr_failed res = 0"
      "embedded t f (fst ` set ?P) (db_tables db')"
    by (auto simp: embedded_def)
  have "mm_id m \<in> fst ` set ?P" if "m \<in> set (db_tables db')" "mm_tenant m = t" for m
  proof -
    have "row_key m \<in> set (map row_key (db_tables db'))"
      using that(1) by simp
    also have "map row_key (db_tables db') = map row_key (db_tables db)"
      using same_but_vectors_keys [OF run(2)] .
    finally obtain m0 where "m0 \<in> set (db_tables db)" "row_key m = row_key m0"
      by auto
    then show ?thesis
      using that(2) by (force simp: page_rows_def row_key_def)
  qed
  then show ?thesis
    using res run on by (auto simp: re_embed_tenant_def embedded_def length_page_rows)
qed

section \<open>Keywords\<close>

text \<open>A query without pattern characters is found where it occurs; the other characters are patterns.\<close>

definition pattern_rune :: "string \<Rightarrow> bool" where
  "pattern_rune r \<longleftrightarrow> r = ''%'' \<or> r = ''_'' \<or> r = [char_of (92 :: nat)]"

lemma some_suffix_Cons: "(\<exists>a b. c # t = a @ b \<and> P b) \<longleftrightarrow> P (c # t) \<or> (\<exists>a b. t = a @ b \<and> P b)"
  by (auto simp: Cons_eq_append_conv)

lemma like_any: "like (''%'' # ps) t \<longleftrightarrow> (\<exists>a b. t = a @ b \<and> like ps b)"
proof (induction t)
  case (Cons c t)
  have "like (''%'' # ps) (c # t) \<longleftrightarrow> like ps (c # t) \<or> like (''%'' # ps) t"
    by (subst like.simps(2)) simp
  then show ?case
    unfolding some_suffix_Cons Cons.IH .
qed simp

lemma like_literal:
  assumes "\<forall>r \<in> set q. \<not> pattern_rune r"
  shows "like (q @ ps) t \<longleftrightarrow> (\<exists>b. t = q @ b \<and> like ps b)"
  using assms
proof (induction q arbitrary: t)
  case (Cons r q)
  then show ?case
    by (cases t) (auto simp: pattern_rune_def)
qed simp

lemma like_anywhere_literal:
  assumes "\<forall>r \<in> set (runes (mz_lower env q)). \<not> pattern_rune r"
  shows "like_anywhere env q content \<longleftrightarrow> sublist (runes (mz_lower env q)) (runes (mz_lower env content))"
proof -
  have "like [''%''] t" for t
    using like_any [of "[]" t] by (simp del: like.simps(2))
  then have "like (''%'' # runes (mz_lower env q) @ [''%'']) t \<longleftrightarrow> (\<exists>a b. t = a @ runes (mz_lower env q) @ b)" for t
    unfolding like_any like_literal [OF assms] by blast
  then show ?thesis
    by (simp add: like_anywhere_def sublist_def)
qed

section \<open>A database\<close>

definition demo_mem_env :: mem_env where
  "demo_mem_env =
     \<lparr>de_fault = (\<lambda>n. None), de_uuid = show_nat, de_now = int,
      mz_embed = Some (\<lambda>n texts. Inr (map (\<lambda>c. [f64_of_int (int (length c))]) texts)), mz_dim = 1, mz_model = [],
      mz_threshold = FFin False 0 0, mz_on_write = True,
      mz_dist = (\<lambda>a b. if a = b then FFin False 0 0 else FFin False 1 0),
      mz_visits = (\<lambda>q m. True), mz_lower = (\<lambda>s. s)\<rparr>"

definition demo_memory :: "dbid \<Rightarrow> dbid \<Rightarrow> string \<Rightarrow> memory" where
  "demo_memory mid owner content =
     \<lparr>mm_id = mid, mm_tenant = ''t'', mm_owner = owner, mm_type = ''profile'', mm_content = content, mm_tags = [],
      mm_source = ''user'', mm_source_msg = None, mm_last_used = 0, mm_created = 0, mm_updated = 0,
      mm_embedding = Some [f64_of_int (int (length content))]\<rparr>"

definition demo_mem_db :: mem_db where
  "demo_mem_db = \<lparr>db_tables = [demo_memory ''a'' ''u'' ''tabs'', demo_memory ''b'' ''v'' ''vim''], db_clock = 0\<rparr>"

lemma demo_calm: "calm (db_env.truncate demo_mem_env)"
  by (simp add: calm_def demo_mem_env_def db_env.truncate_def)

lemma demo_embeds: "embeds_by demo_mem_env (\<lambda>c. [f64_of_int (int (length c))])"
  by (simp add: embeds_by_def demo_mem_env_def)

theorem re_embed_complete_witness:
  "\<exists>res db'. re_embed_tenant demo_mem_env ''t'' 1 demo_mem_db = Some (Inr res, db') \<and> rr_updated res = 2"
proof -
  have "distinct (map mm_id (db_tables demo_mem_db))" "length (filter (\<lambda>m. mm_tenant m = ''t'') (db_tables demo_mem_db)) = 2"
    by (simp_all add: demo_mem_db_def demo_memory_def)
  then show ?thesis
    using re_embed_complete [OF demo_calm demo_embeds, of demo_mem_db "''t''" 1] by auto
qed

definition demo_search :: search_request where
  "demo_search = \<lparr>sq_query = ''tabs'', sq_type = [], sq_tags = [], sq_limit = 1, sq_mode = ''vector''\<rparr>"

lemma demo_query: "trim_space ''tabs'' = ''tabs''"
  by code_simp

text \<open>An action that always succeeds.\<close>

definition answers :: "'a mem_act \<Rightarrow> bool" where
  "answers m \<longleftrightarrow> (\<forall>db. \<exists>x db'. m db = (Inr x, db'))"

lemma answersD: "answers m \<Longrightarrow> \<exists>x db'. m db = (Inr x, db')"
  by (simp add: answers_def)

lemma answers_then:
  assumes "answers m" "\<And>x. answers (f x)"
  shows "answers (and_then m f)"
  unfolding answers_def
proof
  fix db
  obtain x db1 where one: "m db = (Inr x, db1)"
    using answersD [OF assms(1)] by metis
  then show "\<exists>y db'. and_then m f db = (Inr y, db')"
    using answersD [OF assms(2), of x db1] by (simp add: and_then_apply)
qed

lemma answers_statements:
  assumes "calm (db_env.truncate env)"
  shows "answers (give (Inr x))" "answers (mem_query env what (\<lambda>rows. Inr (g rows)))" "answers (touch_ids env t u ids)"
  using assms by (simp_all add: answers_def mem_query_def query_calm touch_ids_def mem_exec_def exec_calm)

lemma search_vector_answers: "calm (db_env.truncate env) \<Longrightarrow> answers (search_vector env t u (x # v) req)"
  unfolding search_vector_def by (simp, intro answers_then answers_statements)

lemma demo_hits: "\<exists>hits db'. search_memories demo_mem_env ''t'' ''u'' demo_search demo_mem_db = (Inr hits, db')"
proof -
  have embed: "embed_one demo_mem_env ''tabs'' demo_mem_db = (Inr [f64_of_int 4], demo_mem_db)"
    by (simp add: embed_one_def and_then_apply embeds_byD(1) [OF demo_embeds]) (simp add: demo_mem_env_def)
  show ?thesis
    using answersD [OF search_vector_answers [OF demo_calm]] embeds_byD(2) [OF demo_embeds]
    by (simp add: search_memories_def demo_search_def demo_query run_vector_def and_then_apply embed Let_def)
qed


text \<open>A database in which another user has stored more.\<close>

definition demo_mem_db2 :: mem_db where
  "demo_mem_db2 = \<lparr>db_tables = [demo_memory ''c'' ''v'' ''emacs'', demo_memory ''a'' ''u'' ''tabs''], db_clock = 0\<rparr>"

lemma show_nat_not_letter: "show_nat n \<noteq> ''b''" "show_nat n \<noteq> ''c''"
proof -
  have "\<forall>x \<in> set (show_nat n). is_digit x"
    using show_nat_digits [of n] by (simp add: list_all_iff)
  then show "show_nat n \<noteq> ''b''" "show_nat n \<noteq> ''c''"
    by (auto simp: is_digit_def)
qed

theorem memories_private_witness:
  "\<exists>r db1 db2. serve_memory demo_mem_env ''t'' ''u'' (MqSearch demo_search) demo_mem_db = (r, db1) \<and>
     serve_memory demo_mem_env ''t'' ''u'' (MqSearch demo_search) demo_mem_db2 = (r, db2)"
proof -
  obtain r1 db1 r2 db2 where runs: "serve_memory demo_mem_env ''t'' ''u'' (MqSearch demo_search) demo_mem_db = (r1, db1)"
      "serve_memory demo_mem_env ''t'' ''u'' (MqSearch demo_search) demo_mem_db2 = (r2, db2)"
    by (metis surj_pair)
  have same: "mine ''t'' ''u'' (db_tables demo_mem_db) = mine ''t'' ''u'' (db_tables demo_mem_db2)" "db_clock demo_mem_db = db_clock demo_mem_db2"
    by (simp_all add: mine_def own_memory_def demo_mem_db_def demo_mem_db2_def demo_memory_def)
  have fresh: "mm_id m \<noteq> de_uuid demo_mem_env n"
    if "m \<in> set (others ''t'' ''u'' (db_tables demo_mem_db)) \<union> set (others ''t'' ''u'' (db_tables demo_mem_db2))" for n m
    using that show_nat_not_letter [of n]
    by (auto simp: others_def own_memory_def demo_mem_db_def demo_mem_db2_def demo_memory_def demo_mem_env_def)
  show ?thesis
    using runs memories_private [OF runs same fresh] by blast
qed

definition demo_loader :: loader_config where
  "demo_loader = \<lparr>lc_top_k = 0, lc_max_chars = 0\<rparr>"

theorem memory_block_bounded_witness:
  "\<exists>r db'. load_for_session demo_mem_env (new_loader demo_loader) ''t'' ''u'' ''tabs'' demo_mem_db = (Inr r, db') \<and> lr_chars r \<le> 4000"
proof -
  have embed: "embed_one demo_mem_env ''tabs'' demo_mem_db = (Inr [f64_of_int 4], demo_mem_db)"
    by (simp add: embed_one_def and_then_apply embeds_byD(1) [OF demo_embeds]) (simp add: demo_mem_env_def)
  have "\<exists>hits db'. search_memories demo_mem_env ''t'' ''u''
      \<lparr>sq_query = ''tabs'', sq_type = [], sq_tags = [], sq_limit = 5, sq_mode = []\<rparr> demo_mem_db = (Inr hits, db')"
    using answersD [OF search_vector_answers [OF demo_calm]] embeds_byD(2) [OF demo_embeds]
    by (simp add: search_memories_def demo_query run_vector_def and_then_apply embed Let_def)
  then obtain r db' where run: "load_for_session demo_mem_env (new_loader demo_loader) ''t'' ''u'' ''tabs'' demo_mem_db = (Inr r, db')"
    by (auto simp: load_for_session_def demo_query new_loader_def demo_loader_def and_then_apply)
  then show ?thesis
    using memory_block_bounded [OF run] by (auto simp: new_loader_def demo_loader_def)
qed

section \<open>Two surprises\<close>

text \<open>The percent sign of a query is a pattern: the search for 5% finds a text without one.\<close>

lemma keyword_wildcard: "like_anywhere demo_mem_env ''5%'' ''50 tabs'' \<and> \<not> contains ''50 tabs'' ''5%''"
  by code_simp

text \<open>
  The distance to a zero vector is no number, which compares as below no threshold: with such an
  embedding a new memory is answered by an unrelated one and is not stored.
\<close>

definition zero_env :: mem_env where
  "zero_env = demo_mem_env\<lparr>mz_embed := Some (\<lambda>n texts. Inr (map (\<lambda>c. [FFin False 0 0]) texts)),
     mz_threshold := FFin False 8286523370241327 (- 53), mz_dist := (\<lambda>a b. FNaN)\<rparr>"

lemma not_a_number_dedups:
  "\<exists>db'. create_memory zero_env ''t'' ''u''
       \<lparr>cy_type = ''lesson'', cy_content = ''emacs'', cy_tags = [], cy_source = [], cy_source_msg = None\<rparr> demo_mem_db =
     (Inr (demo_memory ''a'' ''u'' ''tabs'', False), db') \<and> map mm_content (db_tables db') = [''tabs'', ''vim'']"
proof -
  have calm: "calm (db_env.truncate zero_env)"
    by (simp add: calm_def zero_env_def demo_mem_env_def db_env.truncate_def)
  have trim: "trim_space ''emacs'' = ''emacs''"
    by code_simp
  have embed: "embed_one zero_env ''emacs'' demo_mem_db = (Inr [FFin False 0 0], demo_mem_db)"
    by (simp add: embed_one_def and_then_apply embed_def zero_env_def demo_mem_env_def)
  have near: "nearest_first zero_env q [m] = [m]" "comparable zero_env q m = (mm_embedding m \<noteq> None)"
      "one_minus (distance zero_env q m) = FNaN" for q m
    by (simp_all add: nearest_first_def comparable_def zero_env_def demo_mem_env_def distance_def one_minus_def split: option.split)
  have similar: "find_similar zero_env ''t'' ''u'' [FFin False 0 0] th demo_mem_db =
      (Inr (demo_memory ''a'' ''u'' ''tabs'', FNaN), demo_mem_db\<lparr>db_clock := 1\<rparr>)" for th
    using calm by (simp add: find_similar_def mem_query_def query_calm demo_mem_db_def own_memory_def near)
      (simp add: demo_memory_def near)
  obtain db' where touch: "touch_last_used zero_env ''t'' ''u'' ''a'' (demo_mem_db\<lparr>db_clock := 1\<rparr>) = (Inr (), db')"
      "map mm_content (db_tables db') = [''tabs'', ''vim'']"
    using calm by (simp add: touch_last_used_def touch_ids_def mem_exec_def exec_calm demo_mem_db_def update_rows_def demo_memory_def)
  have "dedup zero_env ''t'' ''u'' [FFin False 0 0] otherwise demo_mem_db = (Inr (demo_memory ''a'' ''u'' ''tabs'', False), db')" for otherwise
    using touch(1) by (simp add: dedup_def branch_def similar and_then_apply demo_memory_def)
  moreover have "vector_enabled zero_env" "f64_less (FFin False 0 0) (mz_threshold zero_env)"
    by (simp_all add: vector_enabled_def zero_env_def demo_mem_env_def scaled_def)
  ultimately show ?thesis
    using touch(2) by (simp add: create_memory_def trim valid_type_def memory_types_def and_then_apply embed)
qed

end
