(* ===== verification/SessStore.thy ===== *)
theory SessStore
  imports GoDb Chat "HOL-Library.Sublist"
begin

text \<open>
  Sessions and their messages, \<open>src/internal/session/types.go\<close> and \<open>repo.go\<close>: the two tables with the
  constraints of migration 0008 and the statements on them. The log of a session only grows and is
  numbered without gaps, even when statements of several requests interleave.
\<close>

section \<open>Rows and errors\<close>

definition status_active :: string where "status_active = ''active''"
definition status_archived :: string where "status_archived = ''archived''"

record chat_session =
  cs_id :: dbid
  cs_tenant :: dbid
  cs_owner :: dbid
  cs_title :: string
  cs_model :: string
  cs_profile :: string
  cs_status :: string
  cs_sandbox :: "dbid option"
  cs_skills :: "string list"
  cs_created :: int

text \<open>The column of tool calls holds JSON; it is kept as the calls that reading it gives.\<close>

record chat_row =
  cr_id :: dbid
  cr_session :: dbid
  cr_tenant :: dbid
  cr_seq :: int
  cr_role :: string
  cr_content :: string
  cr_call_id :: string
  cr_calls :: "tool_call list"
  cr_meta :: "json option"
  cr_created :: int

record sess_tables =
  st_sessions :: "chat_session list"
  st_messages :: "chat_row list"

datatype sess_err =
    SeNotFound | SeArchived | SeEmptyContent | SeModelRequired | SeSandboxCreate string | SeNoSandbox
  | SeQuota | SeDb string

fun sess_err_text :: "sess_err \<Rightarrow> string" where
  "sess_err_text SeNotFound = ''session not found''"
| "sess_err_text SeArchived = ''session is archived''"
| "sess_err_text SeEmptyContent = ''message content is empty''"
| "sess_err_text SeModelRequired = ''model required''"
| "sess_err_text (SeSandboxCreate e) = ''sandbox create failed: '' @ e"
| "sess_err_text SeNoSandbox = ''sandbox runtime not configured''"
| "sess_err_text SeQuota = ''quota exceeded''"
| "sess_err_text (SeDb e) = e"

type_synonym sess_db = "sess_tables db"
type_synonym 'a sess_act = "(sess_err, 'a, sess_db) act"

definition sess_exec :: "db_env \<Rightarrow> string \<Rightarrow> (nat \<Rightarrow> (sess_err, 'a, sess_tables) act) \<Rightarrow> 'a sess_act" where
  "sess_exec env what = exec env (\<lambda>e. SeDb (what @ '': '' @ e))"

definition sess_query :: "db_env \<Rightarrow> string \<Rightarrow> (sess_tables \<Rightarrow> sess_err + 'a) \<Rightarrow> 'a sess_act" where
  "sess_query env what = query env (\<lambda>e. SeDb (what @ '': '' @ e))"

section \<open>Sessions\<close>

definition owned_by :: "dbid \<Rightarrow> dbid \<Rightarrow> dbid \<Rightarrow> chat_session \<Rightarrow> bool" where
  "owned_by tenant owner sid s \<longleftrightarrow> cs_id s = sid \<and> cs_tenant s = tenant \<and> cs_owner s = owner"

definition session_create :: "db_env \<Rightarrow> chat_session \<Rightarrow> unit sess_act" where
  "session_create env s =
     sess_exec env ''insert session'' (\<lambda>n tb.
       if cs_id s \<in> cs_id ` set (st_sessions tb)
       then (Inl (SeDb ''insert session: duplicate key value violates unique constraint''), tb)
       else (Inr (), tb\<lparr>st_sessions := st_sessions tb @ [s\<lparr>cs_created := de_now env n\<rparr>]\<rparr>))"

definition session_get :: "db_env \<Rightarrow> dbid \<Rightarrow> dbid \<Rightarrow> dbid \<Rightarrow> chat_session sess_act" where
  "session_get env tenant owner sid =
     sess_query env ''scan session'' (\<lambda>tb.
       case find (owned_by tenant owner sid) (st_sessions tb) of None \<Rightarrow> Inl SeNotFound | Some s \<Rightarrow> Inr s)"

definition session_list :: "db_env \<Rightarrow> dbid \<Rightarrow> dbid \<Rightarrow> chat_session list sess_act" where
  "session_list env tenant owner =
     sess_query env ''query sessions'' (\<lambda>tb.
       Inr (sort_key (\<lambda>s. - cs_created s)
         (filter (\<lambda>s. cs_tenant s = tenant \<and> cs_owner s = owner \<and> cs_status s = status_active) (st_sessions tb))))"

text \<open>\<open>UPDATE sessions SET ... WHERE id, tenant and owner\<close>.\<close>

definition session_update ::
  "db_env \<Rightarrow> string \<Rightarrow> dbid \<Rightarrow> dbid \<Rightarrow> dbid \<Rightarrow> (chat_session \<Rightarrow> chat_session) \<Rightarrow> unit sess_act" where
  "session_update env what tenant owner sid f =
     sess_exec env what (\<lambda>n tb.
       (if list_ex (owned_by tenant owner sid) (st_sessions tb) then Inr () else Inl SeNotFound,
        tb\<lparr>st_sessions := map (\<lambda>s. if owned_by tenant owner sid s then f s else s) (st_sessions tb)\<rparr>))"

definition session_update_title :: "db_env \<Rightarrow> dbid \<Rightarrow> dbid \<Rightarrow> dbid \<Rightarrow> string \<Rightarrow> unit sess_act" where
  "session_update_title env tenant owner sid title =
     session_update env ''update title'' tenant owner sid (\<lambda>s. s\<lparr>cs_title := title\<rparr>)"

definition session_archive :: "db_env \<Rightarrow> dbid \<Rightarrow> dbid \<Rightarrow> dbid \<Rightarrow> unit sess_act" where
  "session_archive env tenant owner sid =
     session_update env ''archive session'' tenant owner sid (\<lambda>s. s\<lparr>cs_status := status_archived\<rparr>)"

section \<open>Messages\<close>

text \<open>A \<open>TEXT\<close> value is valid UTF-8 without a zero byte; a \<open>JSONB\<close> string has no zero either.\<close>

definition no_zero :: "string \<Rightarrow> bool" where
  "no_zero s \<longleftrightarrow> char_of (0 :: nat) \<notin> set s"

definition pg_text :: "string \<Rightarrow> bool" where
  "pg_text s \<longleftrightarrow> clean_utf8 s = s \<and> no_zero s"

fun json_no_zero :: "json \<Rightarrow> bool" where
  "json_no_zero (JStr s) = no_zero s"
| "json_no_zero (JObj m) = list_all (\<lambda>(k, j). no_zero k \<and> json_no_zero j) m"
| "json_no_zero (JArr js) = list_all json_no_zero js"
| "json_no_zero _ = True"

definition call_no_zero :: "tool_call \<Rightarrow> bool" where
  "call_no_zero c \<longleftrightarrow> no_zero (tc_id c @ tc_type c @ tc_name c @ tc_args c)"

definition storable :: "chat_row \<Rightarrow> bool" where
  "storable r \<longleftrightarrow> pg_text (cr_content r) \<and> pg_text (cr_call_id r) \<and> list_all call_no_zero (cr_calls r) \<and>
     pred_option json_no_zero (cr_meta r)"

definition append_row :: "db_env \<Rightarrow> chat_row \<Rightarrow> nat \<Rightarrow> (sess_err, unit, sess_tables) act" where
  "append_row env r n tb =
     (if \<not> storable r then (Inl (SeDb ''append message: invalid byte sequence for encoding''), tb)
      else if cr_id r \<in> cr_id ` set (st_messages tb) \<or>
        list_ex (\<lambda>m. cr_session m = cr_session r \<and> cr_seq m = cr_seq r) (st_messages tb)
      then (Inl (SeDb ''append message: duplicate key value violates unique constraint''), tb)
      else if cr_session r \<notin> cs_id ` set (st_sessions tb)
      then (Inl (SeDb ''append message: insert violates foreign key constraint''), tb)
      else (Inr (), tb\<lparr>st_messages := st_messages tb @ [r\<lparr>cr_created := de_now env n\<rparr>]\<rparr>))"

definition message_append :: "db_env \<Rightarrow> chat_row \<Rightarrow> unit sess_act" where
  "message_append env r = sess_exec env ''append message'' (append_row env r)"

definition message_list :: "db_env \<Rightarrow> dbid \<Rightarrow> dbid \<Rightarrow> chat_row list sess_act" where
  "message_list env tenant sid =
     sess_query env ''query messages'' (\<lambda>tb.
       Inr (sort_key cr_seq (filter (\<lambda>m. cr_session m = sid \<and> cr_tenant m = tenant) (st_messages tb))))"

definition next_seq_of :: "dbid \<Rightarrow> sess_tables \<Rightarrow> int" where
  "next_seq_of sid tb =
     (case map cr_seq (filter (\<lambda>m. cr_session m = sid) (st_messages tb)) of [] \<Rightarrow> 0 | n # ns \<Rightarrow> fold max ns n) + 1"

definition next_seq :: "db_env \<Rightarrow> dbid \<Rightarrow> int sess_act" where
  "next_seq env sid = sess_query env ''next seq'' (\<lambda>tb. Inr (next_seq_of sid tb))"

section \<open>The log of a session\<close>

definition log_of :: "dbid \<Rightarrow> sess_tables \<Rightarrow> chat_row list" where
  "log_of sid tb = filter (\<lambda>m. cr_session m = sid) (st_messages tb)"

text \<open>Rows are numbered from 1 in the order of their insertion, and belong to the tenant of their session.\<close>

definition numbered :: "sess_tables \<Rightarrow> bool" where
  "numbered tb \<longleftrightarrow> (\<forall>sid. map cr_seq (log_of sid tb) = map int [1..<Suc (length (log_of sid tb))])"

lemma fold_max_upt: "fold max (map int [2..<k]) 1 = (if k \<le> 2 then 1 else int k - 1)"
  by (induction k) auto

lemma numbered_next:
  assumes "numbered tb"
  shows "next_seq_of sid tb = int (length (log_of sid tb)) + 1"
proof (cases "log_of sid tb")
  case Nil
  then show ?thesis
    by (simp add: next_seq_of_def log_of_def)
next
  case (Cons m ms)
  then have "map cr_seq (log_of sid tb) = 1 # map int [2..<Suc (Suc (length ms))]"
    using assms upt_conv_Cons [of 1 "Suc (Suc (length ms))"] unfolding numbered_def
    by (metis One_nat_def Suc_1 Suc_less_eq length_Cons list.simps(9) of_nat_1 zero_less_Suc)
  then show ?thesis
    using fold_max_upt [of "Suc (Suc (length ms))"] by (simp add: next_seq_of_def log_of_def Cons [unfolded log_of_def])
qed

lemma numbered_max:
  assumes "numbered tb" "m \<in> set (log_of sid tb)"
  shows "1 \<le> cr_seq m \<and> cr_seq m \<le> int (length (log_of sid tb))"
proof -
  have "cr_seq m \<in> set (map cr_seq (log_of sid tb))"
    using assms(2) by simp
  then show ?thesis
    using assms(1) unfolding numbered_def by auto
qed

lemma numbered_taken:
  assumes "numbered tb" "1 \<le> n" "n \<le> int (length (log_of sid tb))"
  shows "\<exists>m \<in> set (st_messages tb). cr_session m = sid \<and> cr_seq m = n"
proof -
  have "n \<in> int ` set [1..<Suc (length (log_of sid tb))]"
    using assms(2,3) by (auto intro!: image_eqI [of _ _ "nat n"])
  then have "n \<in> set (map cr_seq (log_of sid tb))"
    using assms(1) unfolding numbered_def by simp
  then show ?thesis
    by (auto simp: log_of_def)
qed

text \<open>
  The heart of it: a number read earlier, from a state since grown, is either still the next one or
  taken, and then the constraint refuses it.
\<close>

lemma append_row_numbered:
  assumes "numbered tb" "1 \<le> cr_seq r" "cr_seq r \<le> int (length (log_of (cr_session r) tb)) + 1"
    and "append_row env r k tb = (res, tb')"
  shows "numbered tb' \<and> (res = Inr () \<longrightarrow> cr_seq r = int (length (log_of (cr_session r) tb)) + 1)"
proof (cases "res = Inr ()")
  case True
  then have ok: "tb' = tb\<lparr>st_messages := st_messages tb @ [r\<lparr>cr_created := de_now env k\<rparr>]\<rparr>"
      "\<not> list_ex (\<lambda>m. cr_session m = cr_session r \<and> cr_seq m = cr_seq r) (st_messages tb)"
    using assms(4) by (auto simp: append_row_def split: if_splits)
  then have seq: "cr_seq r = int (length (log_of (cr_session r) tb)) + 1"
    using numbered_taken [OF assms(1,2)] assms(3) by (force simp: list_ex_iff)
  have "map cr_seq (log_of sid tb') = map int [1..<Suc (length (log_of sid tb'))]" for sid
    using assms(1) seq unfolding numbered_def by (auto simp: ok(1) log_of_def)
  then show ?thesis
    using seq by (simp add: numbered_def)
next
  case False
  then have "tb' = tb"
    using assms(4) by (auto simp: append_row_def split: if_splits)
  then show ?thesis
    using assms(1) False by simp
qed

section \<open>Interleaved requests\<close>

text \<open>
  Any number of requests at work on the tables: each may read a next number, or append a row under a
  number it has read, at any later time; sessions may be created and changed in between.
\<close>

type_synonym sess_world = "sess_tables \<times> (nat \<Rightarrow> (dbid \<times> int) option)"

inductive sess_step :: "db_env \<Rightarrow> sess_world \<Rightarrow> sess_world \<Rightarrow> bool" for env where
  reads: "sess_step env (tb, p) (tb, p(c \<mapsto> (sid, next_seq_of sid tb)))"
| appends: "sess_step env (tb, p) (tb', p)"
  if "p c = Some (cr_session r, cr_seq r)" "append_row env r k tb = (res, tb')"
| sessions: "sess_step env (tb, p) (tb\<lparr>st_sessions := ss\<rparr>, p)"
  if "cs_id ` set (st_sessions tb) \<subseteq> cs_id ` set ss"

inductive_cases sess_step_cases: "sess_step env (tb, p) w"

definition sess_inv :: "sess_world \<Rightarrow> bool" where
  "sess_inv w \<longleftrightarrow> numbered (fst w) \<and>
     (\<forall>c sid n. snd w c = Some (sid, n) \<longrightarrow> 1 \<le> n \<and> n \<le> int (length (log_of sid (fst w))) + 1)"

lemma append_row_messages:
  "append_row env r k tb = (res, tb') \<Longrightarrow>
     st_messages tb' = st_messages tb @ (if res = Inr () then [r\<lparr>cr_created := de_now env k\<rparr>] else [])"
  by (auto simp: append_row_def split: if_splits)

lemma sess_step_inv:
  assumes "sess_step env w w'" "sess_inv w"
  shows "sess_inv w' \<and> prefix (st_messages (fst w)) (st_messages (fst w'))"
  using assms(1)
proof cases
  case (reads tb p c sid)
  then show ?thesis
    using assms(2) numbered_next by (auto simp: sess_inv_def)
next
  case (appends p c r k tb res tb')
  have n: "numbered tb" "1 \<le> cr_seq r" "cr_seq r \<le> int (length (log_of (cr_session r) tb)) + 1"
    using assms(2) appends by (auto simp: sess_inv_def)
  note msgs = append_row_messages [OF appends(4)]
  have "length (log_of sid tb) \<le> length (log_of sid tb')" for sid
    by (simp add: log_of_def msgs)
  then have "n \<le> int (length (log_of sid tb')) + 1" if "p c = Some (sid, n)" for c sid n
    using assms(2) that unfolding appends(1) sess_inv_def by (smt (verit) fst_conv of_nat_mono snd_conv)
  then show ?thesis
    using append_row_numbered [OF n appends(4)] assms(2) msgs unfolding appends(1,2) sess_inv_def by auto
next
  case (sessions ss tb p)
  then show ?thesis
    using assms(2) by (simp add: sess_inv_def numbered_def log_of_def)
qed

text \<open>
  The log of a session under concurrency: however the statements of requests interleave, messages
  are only ever appended, and the log of every session stays numbered from 1 without a gap or a
  repetition, in the order in which the rows were written.
\<close>

theorem interleaved_log:
  assumes "(sess_step env)\<^sup>*\<^sup>* (tb, \<lambda>_. None) (tb', p)" "numbered tb"
  shows "numbered tb' \<and> prefix (st_messages tb) (st_messages tb')"
proof -
  have "sess_inv w \<and> prefix (st_messages tb) (st_messages (fst w))" if "(sess_step env)\<^sup>*\<^sup>* (tb, \<lambda>_. None) w" for w
    using that
  proof (induction rule: rtranclp_induct)
    case base
    then show ?case
      using assms(2) by (simp add: sess_inv_def)
  next
    case (step w w')
    then show ?case
      using sess_step_inv [OF step.hyps(2)] by (auto intro: prefix_order.trans)
  qed
  then show ?thesis
    using assms(1) by (fastforce simp: sess_inv_def)
qed

section \<open>Two writers\<close>

definition demo_session :: chat_session where
  "demo_session = \<lparr>cs_id = ''s'', cs_tenant = ''t'', cs_owner = ''u'', cs_title = [], cs_model = ''m'', cs_profile = ''coding'',
     cs_status = status_active, cs_sandbox = None, cs_skills = [], cs_created = 0\<rparr>"

definition demo_row :: "dbid \<Rightarrow> string \<Rightarrow> chat_row" where
  "demo_row rid content = \<lparr>cr_id = rid, cr_session = ''s'', cr_tenant = ''t'', cr_seq = 1, cr_role = role_user,
     cr_content = content, cr_call_id = [], cr_calls = [], cr_meta = None, cr_created = 0\<rparr>"

definition demo_db_env :: db_env where
  "demo_db_env = \<lparr>de_fault = (\<lambda>n. None), de_uuid = show_nat, de_now = int\<rparr>"

definition demo_tables :: sess_tables where
  "demo_tables = \<lparr>st_sessions = [demo_session], st_messages = []\<rparr>"

lemma demo_numbered: "numbered demo_tables"
  by (simp add: numbered_def log_of_def demo_tables_def)

lemma demo_texts: "pg_text ''hi'' \<and> pg_text ''ho'' \<and> pg_text []"
  by code_simp

lemma demo_storable: "storable (demo_row rid ''hi'')" "storable (demo_row rid ''ho'')"
  using demo_texts by (simp_all add: storable_def demo_row_def)

text \<open>Two requests that have read the same number: the second append is refused.\<close>

lemma second_writer_refused:
  "next_seq_of ''s'' demo_tables = 1 \<and>
   (case append_row demo_db_env (demo_row ''r1'' ''hi'') 0 demo_tables of
      (res1, tb1) \<Rightarrow> res1 = Inr () \<and>
        (case append_row demo_db_env (demo_row ''r2'' ''ho'') 1 tb1 of
           (res2, tb2) \<Rightarrow> res2 \<noteq> Inr () \<and> tb2 = tb1))"
  by (simp add: append_row_def demo_storable)
    (simp add: next_seq_of_def demo_tables_def demo_row_def demo_session_def)

theorem interleaved_log_witness:
  "\<exists>tb' p. (sess_step demo_db_env)\<^sup>*\<^sup>* (demo_tables, \<lambda>_. None) (tb', p) \<and> map cr_content (st_messages tb') = [''hi''] \<and> numbered tb'"
proof -
  obtain tb' where app: "append_row demo_db_env (demo_row ''r1'' ''hi'') 0 demo_tables = (Inr (), tb')"
      "map cr_content (st_messages tb') = [''hi'']"
    by (simp add: append_row_def demo_storable) (simp add: demo_tables_def demo_row_def demo_session_def)
  have "next_seq_of ''s'' demo_tables = 1"
    by (simp add: next_seq_of_def demo_tables_def)
  then have first: "sess_step demo_db_env (demo_tables, \<lambda>_. None) (demo_tables, (\<lambda>_. None)(0 \<mapsto> (''s'', 1)))"
    using sess_step.reads [of demo_db_env demo_tables "\<lambda>_. None" 0 "''s''"] by simp
  have second: "sess_step demo_db_env (demo_tables, (\<lambda>_. None)(0 \<mapsto> (''s'', 1))) (tb', (\<lambda>_. None)(0 \<mapsto> (''s'', 1)))"
    by (rule sess_step.appends [OF _ app(1), of _ 0]) (simp add: demo_row_def)
  have run: "(sess_step demo_db_env)\<^sup>*\<^sup>* (demo_tables, \<lambda>_. None) (tb', (\<lambda>_. None)(0 \<mapsto> (''s'', 1)))"
    using first second by (meson r_into_rtranclp rtranclp_trans)
  have "numbered tb'"
    using interleaved_log [OF run demo_numbered] by simp
  then show ?thesis
    using app(2) by (intro exI conjI) (rule run)
qed

end
