(* ===== verification/Session.thy ===== *)
theory Session
  imports SessStore Memory AgentBus
begin

text \<open>
  The session service, \<open>src/internal/session/sandbox_bind.go\<close>, \<open>service.go\<close> and the handling of a user
  message in \<open>wshandler.go\<close>. The state is the database beside the rest of the world, which the
  sandboxes, the memory loader, the audit sink, the model, the tools and the client work on.
\<close>

section \<open>Environment and state\<close>

record 'w sess_state =
  ss_db :: sess_db
  ss_rest :: 'w

record 'w sandbox_runtime =
  sb_create :: "dbid \<Rightarrow> dbid \<Rightarrow> 'w \<Rightarrow> dbid result \<times> 'w"
  sb_destroy :: "dbid \<Rightarrow> dbid \<Rightarrow> 'w \<Rightarrow> string option \<times> 'w"

text \<open>The service as \<open>NewService\<close> and its \<open>With\<close> setters leave it; \<open>sx_quota\<close>: the cap and the counter.\<close>

record 'w sess_env = db_env +
  sx_sandbox :: "'w sandbox_runtime option"
  sx_quota :: "(int \<times> (dbid \<Rightarrow> 'w \<Rightarrow> int result)) option"
  sx_memory :: "(dbid \<Rightarrow> dbid \<Rightarrow> string \<Rightarrow> 'w \<Rightarrow> load_result result \<times> 'w) option"
  sx_audit :: "(dbid \<Rightarrow> dbid \<Rightarrow> dbid \<Rightarrow> string \<Rightarrow> (string, val) gomap \<Rightarrow> 'w \<Rightarrow> 'w) option"
  sx_hook :: "(dbid \<Rightarrow> dbid \<Rightarrow> dbid \<Rightarrow> 'w \<Rightarrow> 'w) option"

abbreviation "sdb env \<equiv> db_env.truncate env"

type_synonym ('a, 'w) serv_act = "(sess_err, 'a, 'w sess_state) act"

definition on_db :: "('e, 'a, sess_db) act \<Rightarrow> ('e, 'a, 'w sess_state) act" where
  "on_db m st = (let (r, db) = m (ss_db st) in (r, st\<lparr>ss_db := db\<rparr>))"

definition on_rest :: "('w \<Rightarrow> 'a \<times> 'w) \<Rightarrow> ('e, 'a, 'w sess_state) act" where
  "on_rest m st = (let (x, w) = m (ss_rest st) in (Inr x, st\<lparr>ss_rest := w\<rparr>))"

section \<open>Sandbox binding (sandbox_bind.go)\<close>

definition check_sandbox_quota :: "'w sess_env \<Rightarrow> dbid \<Rightarrow> (unit, 'w) serv_act" where
  "check_sandbox_quota env tenant st =
     (case sx_quota env of
        None \<Rightarrow> (Inr (), st)
      | Some (cap, counter) \<Rightarrow>
          if cap \<le> 0 then (Inr (), st)
          else case counter tenant (ss_rest st) of
              Inl e \<Rightarrow> (Inl (SeDb (''quota check: '' @ e)), st)
            | Inr n \<Rightarrow> (if n \<ge> cap then Inl SeQuota else Inr (), st))"

definition provision_sandbox :: "'w sess_env \<Rightarrow> dbid \<Rightarrow> dbid \<Rightarrow> (dbid, 'w) serv_act" where
  "provision_sandbox env tenant user =
     (case sx_sandbox env of
        None \<Rightarrow> give (Inl SeNoSandbox)
      | Some rt \<Rightarrow>
          and_then (check_sandbox_quota env tenant) (\<lambda>_.
          and_then (on_rest (sb_create rt tenant user)) (\<lambda>r.
          give (case r of Inl e \<Rightarrow> Inl (SeSandboxCreate e) | Inr sid \<Rightarrow> Inr sid))))"

text \<open>An error of the destruction is only logged.\<close>

definition release_sandbox :: "'w sess_env \<Rightarrow> dbid \<Rightarrow> dbid option \<Rightarrow> 'w sess_state \<Rightarrow> 'w sess_state" where
  "release_sandbox env tenant sandbox st =
     (case (sx_sandbox env, sandbox) of
        (Some rt, Some sb) \<Rightarrow> st\<lparr>ss_rest := snd (sb_destroy rt tenant sb (ss_rest st))\<rparr>
      | _ \<Rightarrow> st)"

section \<open>Session lifecycle (service.go)\<close>

definition audit_session_event ::
  "'w sess_env \<Rightarrow> dbid \<Rightarrow> dbid \<Rightarrow> dbid \<Rightarrow> string \<Rightarrow> (string, val) gomap \<Rightarrow> 'w sess_state \<Rightarrow> 'w sess_state" where
  "audit_session_event env tenant user sid action meta st =
     (case sx_audit env of None \<Rightarrow> st | Some f \<Rightarrow> st\<lparr>ss_rest := f tenant user sid action meta (ss_rest st)\<rparr>)"

record create_session_req =
  cq_req_model :: string
  cq_req_profile :: string
  cq_req_title :: string
  cq_req_skills :: "string list"

definition new_session :: "dbid \<Rightarrow> dbid \<Rightarrow> dbid \<Rightarrow> create_session_req \<Rightarrow> dbid \<Rightarrow> chat_session" where
  "new_session sid tenant user req sandbox =
     \<lparr>cs_id = sid, cs_tenant = tenant, cs_owner = user, cs_title = cq_req_title req, cs_model = cq_req_model req,
      cs_profile = (if cq_req_profile req = [] then ''coding'' else cq_req_profile req), cs_status = status_active,
      cs_sandbox = Some sandbox, cs_skills = cq_req_skills req, cs_created = 0\<rparr>"

definition sandbox_meta :: "dbid option \<Rightarrow> (string, val) gomap" where
  "sandbox_meta sandbox = (case sandbox of None \<Rightarrow> [] | Some sb \<Rightarrow> [(''sandbox_id'', VStr sb)])"

definition create_session :: "'w sess_env \<Rightarrow> dbid \<Rightarrow> dbid \<Rightarrow> create_session_req \<Rightarrow> (chat_session, 'w) serv_act" where
  "create_session env tenant user req =
     (if cq_req_model req = [] then give (Inl SeModelRequired)
      else and_then (provision_sandbox env tenant user) (\<lambda>sb st.
        let s = new_session (de_uuid env (db_clock (ss_db st))) tenant user req sb
        in branch (on_db (session_create (sdb env) s))
             (\<lambda>e st1. (Inl e, release_sandbox env tenant (Some sb) st1))
             (\<lambda>_. and_then (on_db (session_get (sdb env) tenant user (cs_id s))) (\<lambda>out st1.
                (Inr out, audit_session_event env tenant user (cs_id s) ''session.create''
                   ([(''model'', VStr (cs_model s)), (''profile'', VStr (cs_profile s))] @ sandbox_meta (cs_sandbox s)) st1)))
             st))"

definition list_sessions :: "'w sess_env \<Rightarrow> dbid \<Rightarrow> dbid \<Rightarrow> (chat_session list, 'w) serv_act" where
  "list_sessions env tenant user = on_db (session_list (sdb env) tenant user)"

definition get_session :: "'w sess_env \<Rightarrow> dbid \<Rightarrow> dbid \<Rightarrow> dbid \<Rightarrow> (chat_session, 'w) serv_act" where
  "get_session env tenant user sid = on_db (session_get (sdb env) tenant user sid)"

definition call_hook :: "'w sess_env \<Rightarrow> dbid \<Rightarrow> dbid \<Rightarrow> dbid \<Rightarrow> 'w sess_state \<Rightarrow> 'w sess_state" where
  "call_hook env tenant user sid st =
     (case sx_hook env of None \<Rightarrow> st | Some h \<Rightarrow> st\<lparr>ss_rest := h tenant user sid (ss_rest st)\<rparr>)"

definition archive_session :: "'w sess_env \<Rightarrow> dbid \<Rightarrow> dbid \<Rightarrow> dbid \<Rightarrow> (unit, 'w) serv_act" where
  "archive_session env tenant user sid =
     and_then (get_session env tenant user sid) (\<lambda>s.
     and_then (on_db (session_archive (sdb env) tenant user sid)) (\<lambda>_ st.
       (Inr (), call_hook env tenant user sid
          (audit_session_event env tenant user sid ''session.archive'' (sandbox_meta (cs_sandbox s))
             (release_sandbox env tenant (cs_sandbox s) st)))))"

definition list_messages :: "'w sess_env \<Rightarrow> dbid \<Rightarrow> dbid \<Rightarrow> dbid \<Rightarrow> (chat_row list, 'w) serv_act" where
  "list_messages env tenant user sid =
     and_then (get_session env tenant user sid) (\<lambda>_. on_db (message_list (sdb env) tenant sid))"

section \<open>Titles and history\<close>

definition has_prior_user_message :: "chat_row list \<Rightarrow> bool" where
  "has_prior_user_message history = list_ex (\<lambda>m. cr_role m = role_user) history"

fun collapse_space :: "bool \<Rightarrow> string list \<Rightarrow> string" where
  "collapse_space prev [] = []"
| "collapse_space prev (r # rs) =
     (if rune_space r then (if prev then collapse_space True rs else CHR '' '' # collapse_space True rs)
      else r @ collapse_space False rs)"

definition title_max_runes :: nat where "title_max_runes = 60"

definition derive_title :: "string \<Rightarrow> string" where
  "derive_title content =
     (let cleaned = trim_space (collapse_space True (runes content)); rs = runes cleaned
      in if length rs \<le> title_max_runes then cleaned else concat (take title_max_runes rs) @ ''...'')"

definition chat_of_row :: "chat_row \<Rightarrow> chat_message" where
  "chat_of_row m =
     \<lparr>cm_role = cr_role m, cm_content = cr_content m, cm_name = [],
      cm_call_id = (if cr_role m = role_tool then cr_call_id m else []),
      cm_calls = (if cr_role m = role_assistant then cr_calls m else [])\<rparr>"

definition history_to_chat :: "chat_row list \<Rightarrow> chat_message list" where
  "history_to_chat = map chat_of_row"

text \<open>\<open>json.Marshal\<close> writes U+FFFD for what is no UTF-8.\<close>

definition stored_call :: "tool_call \<Rightarrow> tool_call" where
  "stored_call c =
     \<lparr>tc_index = tc_index c, tc_id = clean_utf8 (tc_id c), tc_type = clean_utf8 (tc_type c),
      tc_name = clean_utf8 (tc_name c), tc_args = clean_utf8 (tc_args c)\<rparr>"

definition event_kind_text :: "event_kind \<Rightarrow> string" where
  "event_kind_text k = (case k of
       EventAssistantDelta \<Rightarrow> ''assistant_delta'' | EventAssistantMessage \<Rightarrow> ''assistant_message''
     | EventToolCall \<Rightarrow> ''tool_call'' | EventToolResult \<Rightarrow> ''tool_result''
     | EventFinal \<Rightarrow> ''final'' | EventError \<Rightarrow> ''error'')"

definition meta_of :: "(string, val) gomap \<Rightarrow> json option" where
  "meta_of m = (case marshal (VMap m) of Inl _ \<Rightarrow> None | Inr j \<Rightarrow> Some j)"

definition event_to_message :: "dbid \<Rightarrow> dbid \<Rightarrow> dbid \<Rightarrow> agent_event \<Rightarrow> chat_row option" where
  "event_to_message fresh sid tenant ev =
     (let row = \<lparr>cr_id = fresh, cr_session = sid, cr_tenant = tenant, cr_seq = 0, cr_role = [], cr_content = ag_text ev,
                 cr_call_id = [], cr_calls = [], cr_meta = None, cr_created = 0\<rparr>;
          kind = (''kind'', VStr (event_kind_text (ag_kind ev))); step = (''step'', VInt (ag_step ev));
          finish = (''finish_reason'', VStr (ag_finish ev))
      in case ag_kind ev of
          EventAssistantMessage \<Rightarrow>
            Some (row\<lparr>cr_role := role_assistant, cr_calls := map stored_call (ag_calls ev),
                      cr_meta := meta_of [kind, step, finish]\<rparr>)
        | EventToolResult \<Rightarrow>
            Some (row\<lparr>cr_role := role_tool, cr_call_id := ag_call_id ev,
                      cr_content := (if ag_error ev \<noteq> [] then ag_error ev else ag_output ev),
                      cr_meta := meta_of [kind, step, (''tool_name'', VStr (ag_tool ev)), (''truncated'', VBool (ag_truncated ev)),
                        (''original_size'', VInt (ag_size ev)), (''tool_error'', VStr (ag_error ev))]\<rparr>)
        | EventError \<Rightarrow> Some (row\<lparr>cr_role := role_system, cr_meta := meta_of [kind, step, finish]\<rparr>)
        | _ \<Rightarrow> None)"

section \<open>Sending a message\<close>

datatype send_err = SndSess sess_err | SndAgent agent_err

fun send_err_text :: "send_err \<Rightarrow> string" where
  "send_err_text (SndSess e) = sess_err_text e"
| "send_err_text (SndAgent e) = agent_err_text e"

text \<open>The callback of the engine: the row of the event first, then the receiver of the caller.\<close>

definition persist_event ::
  "'w sess_env \<Rightarrow> dbid \<Rightarrow> dbid \<Rightarrow> (agent_event \<Rightarrow> 'w \<Rightarrow> string option \<times> 'w) \<Rightarrow> agent_event \<Rightarrow> 'w sess_state \<Rightarrow>
   string option \<times> 'w sess_state" where
  "persist_event env sid tenant on_event ev st =
     (let stored = (case event_to_message (de_uuid env (db_clock (ss_db st))) sid tenant ev of
            None \<Rightarrow> (None, st)
          | Some row \<Rightarrow>
              (case on_db (next_seq (sdb env) sid) st of
                 (Inl e, st1) \<Rightarrow> (Some (''next seq: '' @ sess_err_text e), st1)
               | (Inr n, st1) \<Rightarrow>
                   (case on_db (message_append (sdb env) (row\<lparr>cr_seq := n\<rparr>)) st1 of
                      (Inl e, st2) \<Rightarrow> (Some (''append message: '' @ sess_err_text e), st2)
                    | (Inr _, st2) \<Rightarrow> (None, st2))))
      in case stored of
          (Some e, st') \<Rightarrow> (Some e, st')
        | (None, st') \<Rightarrow> (let (e, w) = on_event ev (ss_rest st') in (e, st'\<lparr>ss_rest := w\<rparr>)))"

text \<open>The world of the run: that of the caller beside the database.\<close>

definition session_world :: "'w sess_env \<Rightarrow> dbid \<Rightarrow> dbid \<Rightarrow> 'w agent_world \<Rightarrow> 'w sess_state agent_world" where
  "session_world env sid tenant wd =
     \<lparr>aw_tools = (\<lambda>st. aw_tools wd (ss_rest st)),
      aw_stream = (\<lambda>rc req st. let (r, w) = aw_stream wd rc req (ss_rest st) in (r, st\<lparr>ss_rest := w\<rparr>)),
      aw_invoke = (\<lambda>rc name args st. let (r, w) = aw_invoke wd rc name args (ss_rest st) in (r, st\<lparr>ss_rest := w\<rparr>)),
      aw_yield = persist_event env sid tenant (aw_yield wd)\<rparr>"

definition auto_title ::
  "'w sess_env \<Rightarrow> dbid \<Rightarrow> dbid \<Rightarrow> chat_session \<Rightarrow> chat_row list \<Rightarrow> string \<Rightarrow> 'w sess_state \<Rightarrow> 'w sess_state" where
  "auto_title env tenant user s history content st =
     (if cs_title s = [] \<and> \<not> has_prior_user_message history \<and> derive_title content \<noteq> []
      then snd (on_db (session_update_title (sdb env) tenant user (cs_id s) (derive_title content)) st)
      else st)"

definition load_memories ::
  "'w sess_env \<Rightarrow> dbid \<Rightarrow> dbid \<Rightarrow> chat_row list \<Rightarrow> string \<Rightarrow> 'w sess_state \<Rightarrow> load_result \<times> 'w sess_state" where
  "load_memories env tenant user history content st =
     (case sx_memory env of
        None \<Rightarrow> (no_memories, st)
      | Some load \<Rightarrow>
          if has_prior_user_message history then (no_memories, st)
          else let (r, w) = load tenant user content (ss_rest st)
               in (case r of Inl e \<Rightarrow> no_memories | Inr m \<Rightarrow> if lr_section m \<noteq> [] then m else no_memories,
                   st\<lparr>ss_rest := w\<rparr>))"

definition session_input :: "dbid \<Rightarrow> dbid \<Rightarrow> chat_session \<Rightarrow> chat_message list \<Rightarrow> load_result \<Rightarrow> run_input" where
  "session_input tenant user s msgs mem =
     \<lparr>rq_tenant = tenant, rq_user = user, rq_model = cs_model s, rq_messages = msgs, rq_profile = cs_profile s,
      rq_max_steps = 0, rq_skills = [], rq_session_skills = cs_skills s,
      rq_sandbox = (case cs_sandbox s of None \<Rightarrow> nil_uuid | Some sb \<Rightarrow> sb),
      rq_memory_section = lr_section mem, rq_memory_ids = lr_ids mem, rq_memory_chars = int (lr_chars mem),
      rq_memory_truncated = lr_truncated mem\<rparr>"

definition user_row :: "dbid \<Rightarrow> dbid \<Rightarrow> dbid \<Rightarrow> int \<Rightarrow> string \<Rightarrow> chat_row" where
  "user_row fresh sid tenant n content =
     \<lparr>cr_id = fresh, cr_session = sid, cr_tenant = tenant, cr_seq = n, cr_role = role_user, cr_content = content,
      cr_call_id = [], cr_calls = [], cr_meta = None, cr_created = 0\<rparr>"

text \<open>
  The run after the user message is stored; the observations of the run are returned too, for the
  statements about it.
\<close>

definition run_session ::
  "'w sess_env \<Rightarrow> 're agent_engine \<Rightarrow> 'w agent_world \<Rightarrow> dbid \<Rightarrow> dbid \<Rightarrow> chat_session \<Rightarrow> chat_row list \<Rightarrow> string \<Rightarrow>
   'w sess_state \<Rightarrow> send_err option \<times> agent_obs list \<times> 'w sess_state" where
  "run_session env en wd tenant user s history content st =
     (let msgs = history_to_chat history @ [plain_message role_user content];
          (mem, st1) = load_memories env tenant user history content st;
          (res, run) = agent_run en (session_world env (cs_id s) tenant wd) root_ctx (session_input tenant user s msgs mem)
                         \<lparr>as_world = st1, as_log = []\<rparr>
      in (map_option SndAgent res, rev (as_log run), as_world run))"

definition send_message ::
  "'w sess_env \<Rightarrow> 're agent_engine \<Rightarrow> 'w agent_world \<Rightarrow> dbid \<Rightarrow> dbid \<Rightarrow> dbid \<Rightarrow> string \<Rightarrow> 'w sess_state \<Rightarrow>
   send_err option \<times> agent_obs list \<times> 'w sess_state" where
  "send_message env en wd tenant user sid content st =
     (if content = [] then (Some (SndSess SeEmptyContent), [], st)
      else case get_session env tenant user sid st of
          (Inl e, st1) \<Rightarrow> (Some (SndSess e), [], st1)
        | (Inr s, st1) \<Rightarrow>
            if cs_status s = status_archived then (Some (SndSess SeArchived), [], st1)
            else case on_db (message_list (sdb env) tenant sid) st1 of
                (Inl e, st2) \<Rightarrow> (Some (SndSess (SeDb (''load history: '' @ sess_err_text e))), [], st2)
              | (Inr history, st2) \<Rightarrow>
                  (case on_db (next_seq (sdb env) sid) (auto_title env tenant user s history content st2) of
                     (Inl e, st3) \<Rightarrow> (Some (SndSess e), [], st3)
                   | (Inr n, st3) \<Rightarrow>
                       (case on_db (message_append (sdb env) (user_row (de_uuid env (db_clock (ss_db st3))) sid tenant n content)) st3 of
                          (Inl e, st4) \<Rightarrow> (Some (SndSess (SeDb (''append user message: '' @ sess_err_text e))), [], st4)
                        | (Inr _, st4) \<Rightarrow> run_session env en wd tenant user s history content st4)))"

section \<open>A user message on the websocket (wshandler.go)\<close>

datatype ws_frame = FrameEvent agent_event | FrameDone | FrameError string string | FramePong | FrameBusy

text \<open>The connection beside the rest of the world; \<open>wc_err\<close>: the first failure of a write.\<close>

record 'w ws_conn =
  wc_rest :: 'w
  wc_err :: "string option"

definition ws_on_event ::
  "(ws_frame \<Rightarrow> 'w \<Rightarrow> string option \<times> 'w) \<Rightarrow> agent_event \<Rightarrow> 'w ws_conn \<Rightarrow> string option \<times> 'w ws_conn" where
  "ws_on_event write ev c =
     (case wc_err c of
        Some e \<Rightarrow> (Some e, c)
      | None \<Rightarrow> (let (e, w) = write (FrameEvent ev) (wc_rest c) in (e, \<lparr>wc_rest = w, wc_err = e\<rparr>)))"

definition ws_world :: "(ws_frame \<Rightarrow> 'w \<Rightarrow> string option \<times> 'w) \<Rightarrow> 'w agent_world \<Rightarrow> 'w ws_conn agent_world" where
  "ws_world write wd =
     \<lparr>aw_tools = (\<lambda>c. aw_tools wd (wc_rest c)),
      aw_stream = (\<lambda>rc req c. let (r, w) = aw_stream wd rc req (wc_rest c) in (r, c\<lparr>wc_rest := w\<rparr>)),
      aw_invoke = (\<lambda>rc name args c. let (r, w) = aw_invoke wd rc name args (wc_rest c) in (r, c\<lparr>wc_rest := w\<rparr>)),
      aw_yield = ws_on_event write\<rparr>"

definition ws_error_code :: "send_err \<Rightarrow> string" where
  "ws_error_code e =
     (if e = SndSess SeArchived then ''archived'' else if e = SndSess SeEmptyContent then ''empty_content''
      else if e = SndSess SeNotFound then ''not_found'' else ''internal'')"

definition handle_user_message ::
  "'w ws_conn sess_env \<Rightarrow> 're agent_engine \<Rightarrow> 'w agent_world \<Rightarrow> (ws_frame \<Rightarrow> 'w \<Rightarrow> string option \<times> 'w) \<Rightarrow>
   dbid \<Rightarrow> dbid \<Rightarrow> dbid \<Rightarrow> string \<Rightarrow> 'w sess_state \<Rightarrow> 'w sess_state" where
  "handle_user_message env en wd write tenant user sid content st =
     (let (err, obs, st1) = send_message env en (ws_world write wd) tenant user sid content
            \<lparr>ss_db = ss_db st, ss_rest = \<lparr>wc_rest = ss_rest st, wc_err = None\<rparr>\<rparr>;
          c = ss_rest st1
      in \<lparr>ss_db = ss_db st1,
          ss_rest = (if wc_err c \<noteq> None then wc_rest c
                     else snd (write (case err of None \<Rightarrow> FrameDone | Some e \<Rightarrow> FrameError (ws_error_code e) (send_err_text e))
                                 (wc_rest c)))\<rparr>)"

text \<open>One inbound frame of the read loop: what is answered, and whether a message starts.\<close>

datatype ws_action = WsReply ws_frame | WsStart string | WsClose string

definition read_frame :: "bool \<Rightarrow> (string \<times> string) result \<Rightarrow> ws_action \<times> bool" where
  "read_frame busy f =
     (case f of
        Inl e \<Rightarrow> (WsClose ''invalid_json'', busy)
      | Inr (kind, content) \<Rightarrow>
          if kind = ''ping'' then (WsReply FramePong, busy)
          else if kind = ''user_message'' then (if busy then (WsReply FrameBusy, True) else (WsStart content, True))
          else (WsClose ''unknown_frame_type'', busy))"

end
