(* ===== verification/SessionRuns.thy ===== *)
theory SessionRuns
  imports Session
begin

text \<open>
  What the session service keeps and what it writes: the log of a session changes only by a message
  of its owner while it is active, and a run that ends well extends the conversation by the user
  message, complete turns and the final answer.
\<close>

section \<open>Who writes to a log\<close>

definition tables_of :: "'w sess_state \<Rightarrow> sess_tables" where
  "tables_of st = db_tables (ss_db st)"

text \<open>A request on one session: rows are appended to its log, under the next numbers.\<close>

definition log_kept :: "dbid \<Rightarrow> sess_tables \<Rightarrow> sess_tables \<Rightarrow> bool" where
  "log_kept sid a b \<longleftrightarrow> (numbered a \<longrightarrow> numbered b) \<and> prefix (st_messages a) (st_messages b) \<and>
     (\<forall>sid'. sid' \<noteq> sid \<longrightarrow> log_of sid' b = log_of sid' a)"

lemma log_kept_refl: "reflp (log_kept sid)"
  by (simp add: log_kept_def reflp_def)

lemma log_kept_trans: "transp (log_kept sid)"
  unfolding transp_def log_kept_def by (auto intro: prefix_order.trans)

lemma log_kept_same: "st_messages b = st_messages a \<Longrightarrow> log_kept sid a b"
  by (simp add: log_kept_def numbered_def log_of_def)

lemma exec_tables:
  "db_tables (snd (exec env err run db)) \<in> {db_tables db, snd (run (db_clock db) (db_tables db))}"
  by (auto simp: exec_def Let_def case_prod_unfold split: option.split)

lemma on_db_rest [simp]: "ss_rest (snd (on_db m st)) = ss_rest st"
  by (simp add: on_db_def case_prod_unfold Let_def)

lemma on_db_db: "ss_db (snd (on_db m st)) = snd (m (ss_db st))"
  by (simp add: on_db_def case_prod_unfold Let_def)

lemma on_db_read [simp]:
  "tables_of (snd (on_db (sess_query env what ask) st)) = tables_of st"
  by (simp add: tables_of_def on_db_db sess_query_def)

lemma next_seq_tables [simp]: "tables_of (snd (on_db (next_seq env sid) st)) = tables_of st"
  by (simp add: next_seq_def)

lemma next_seq_value: "on_db (next_seq env sid) st = (Inr n, st') \<Longrightarrow> n = next_seq_of sid (tables_of st) \<and> tables_of st' = tables_of st"
  by (auto simp: on_db_def next_seq_def sess_query_def tables_of_def query_def exec_def Let_def split: option.splits prod.splits)

text \<open>The next number, and a row under it.\<close>

lemma append_kept:
  assumes "cr_session r = sid" "cr_seq r = next_seq_of sid (tables_of st)"
  shows "log_kept sid (tables_of st) (tables_of (snd (on_db (message_append env r) st)))"
proof -
  let ?tb = "tables_of st" and ?k = "db_clock (ss_db st)"
  obtain res tb' where app: "append_row env r ?k ?tb = (res, tb')"
    by (metis surj_pair)
  have "tables_of (snd (on_db (message_append env r) st)) \<in> {?tb, tb'}"
    using exec_tables [of env _ "append_row env r" "ss_db st"] app
    by (auto simp: tables_of_def on_db_db message_append_def sess_exec_def)
  moreover have "log_kept sid ?tb tb'"
  proof -
    have "numbered tb'" if "numbered ?tb"
      using append_row_numbered [OF that _ _ app] numbered_next [OF that] assms by simp
    then show ?thesis
      using append_row_messages [OF app] assms(1) by (auto simp: log_kept_def log_of_def)
  qed
  ultimately show ?thesis
    using reflpD [OF log_kept_refl] by auto
qed

lemma event_to_message_parts:
  assumes "event_to_message fresh sid tenant ev = Some row"
  shows "cr_session row = sid" "cr_tenant row = tenant" "cr_id row = fresh"
  using assms by (auto simp: event_to_message_def Let_def split: event_kind.splits)

lemma persist_event_kept:
  "log_kept sid (tables_of st) (tables_of (snd (persist_event env sid tenant f ev st)))"
proof (cases "event_to_message (de_uuid env (db_clock (ss_db st))) sid tenant ev")
  case None
  then show ?thesis
    using reflpD [OF log_kept_refl] by (simp add: persist_event_def tables_of_def case_prod_unfold Let_def)
next
  case (Some row)
  obtain n st1 where seq: "on_db (next_seq (sdb env) sid) st = (n, st1)"
    by (metis surj_pair)
  have st1: "tables_of st1 = tables_of st"
    using next_seq_tables [of "sdb env" sid st] by (simp add: seq)
  show ?thesis
  proof (cases n)
    case (Inl e)
    then show ?thesis
      using reflpD [OF log_kept_refl] by (simp add: persist_event_def Some seq st1)
  next
    case (Inr k)
    obtain res st2 where app: "on_db (message_append (sdb env) (row\<lparr>cr_seq := k\<rparr>)) st1 = (res, st2)"
      by (metis surj_pair)
    have "cr_seq (row\<lparr>cr_seq := k\<rparr>) = next_seq_of sid (tables_of st1)"
      using next_seq_value [OF seq [unfolded Inr]] by (simp add: st1)
    from append_kept [OF _ this, of "sdb env"] have "log_kept sid (tables_of st) (tables_of st2)"
      using event_to_message_parts(1) [OF Some] by (simp add: app st1)
    then show ?thesis
      by (cases res) (simp_all add: persist_event_def Some seq Inr app tables_of_def case_prod_unfold Let_def)
  qed
qed

text \<open>The agent run on the session keeps this relation.\<close>

interpretation session_run: agent_frame "session_world env sid tenant wd" "\<lambda>st log. log_kept sid tb (tables_of st)" UNIV
  for env sid tenant wd tb
proof unfold_locales
  fix w log ev e w'
  assume kept: "log_kept sid tb (tables_of w)" and "aw_yield (session_world env sid tenant wd) ev w = (e, w')"
  then have "w' = snd (persist_event env sid tenant (aw_yield wd) ev w)"
    by (simp add: session_world_def)
  then show "log_kept sid tb (tables_of w')"
    using transpD [OF log_kept_trans kept] persist_event_kept by metis
qed (auto simp: session_world_def tables_of_def split: prod.splits)

text \<open>The operations that write no message: sessions are at most added, and the clock goes on.\<close>

definition quiet :: "'w sess_state \<Rightarrow> 'w sess_state \<Rightarrow> bool" where
  "quiet a b \<longleftrightarrow> st_messages (tables_of b) = st_messages (tables_of a) \<and>
     cs_id ` set (st_sessions (tables_of a)) \<subseteq> cs_id ` set (st_sessions (tables_of b)) \<and>
     db_clock (ss_db a) \<le> db_clock (ss_db b)"

lemma quiet_refl: "reflp quiet"
  by (simp add: quiet_def reflp_def)

lemma quiet_trans: "transp quiet"
  unfolding transp_def quiet_def by fastforce

lemma quiet_same: "ss_db b = ss_db a \<Longrightarrow> quiet a b"
  by (simp add: quiet_def tables_of_def)

abbreviation "no_message m \<equiv> steps_in quiet m"

lemmas no_message_then = steps_in_then [OF quiet_refl quiet_trans]
lemmas no_message_branch = steps_in_branch [OF quiet_trans]
lemmas no_message_give = steps_in_give [OF quiet_refl]

lemma exec_clock: "db_clock (snd (exec env err run db)) = Suc (db_clock db)"
  by (auto simp: exec_def Let_def case_prod_unfold split: option.split)

lemma no_message_write:
  assumes "\<And>tb n. st_messages (snd (run n tb)) = st_messages tb"
    and "\<And>tb n. cs_id ` set (st_sessions tb) \<subseteq> cs_id ` set (st_sessions (snd (run n tb)))"
  shows "no_message (on_db (sess_exec env what run))"
  unfolding steps_in_def
proof
  fix st :: "'w sess_state"
  have "db_clock (ss_db st) \<le> db_clock (ss_db (snd (on_db (sess_exec env what run) st)))"
    by (simp add: on_db_db sess_exec_def exec_clock)
  moreover have "tables_of (snd (on_db (sess_exec env what run) st)) = tables_of st \<or>
      tables_of (snd (on_db (sess_exec env what run) st)) = snd (run (db_clock (ss_db st)) (tables_of st))"
    using exec_tables [of env "\<lambda>e. SeDb (what @ '': '' @ e)" run "ss_db st"] unfolding tables_of_def on_db_db sess_exec_def by simp
  ultimately show "quiet st (snd (on_db (sess_exec env what run) st))"
    using assms(1) [of "db_clock (ss_db st)" "tables_of st"] assms(2) [of "tables_of st" "db_clock (ss_db st)"]
    unfolding quiet_def by (elim disjE) (simp_all only: order_refl simp_thms)
qed

lemma no_message_read: "no_message (on_db (sess_query env what ask))"
proof -
  have "sess_query env what ask = sess_exec env what (\<lambda>n tb. (ask tb, tb))"
    by (simp add: sess_query_def sess_exec_def query_def)
  then show ?thesis
    using no_message_write [of "\<lambda>n tb. (ask tb, tb)"] by simp
qed

lemma no_message_update:
  assumes "\<And>s. cs_id (f s) = cs_id s"
  shows "no_message (on_db (session_update env what t u sid f))"
  unfolding session_update_def
proof (rule no_message_write)
  fix tb n
  define new where "new = map (\<lambda>s. if owned_by t u sid s then f s else s) (st_sessions tb)"
  have "map cs_id new = map cs_id (st_sessions tb)"
    by (simp add: new_def assms)
  then have "cs_id ` set new = cs_id ` set (st_sessions tb)"
    by (metis set_map)
  then show "cs_id ` set (st_sessions tb) \<subseteq> cs_id ` set (st_sessions (snd
      (if list_ex (owned_by t u sid) (st_sessions tb) then Inr () else Inl SeNotFound,
       tb\<lparr>st_sessions := map (\<lambda>s. if owned_by t u sid s then f s else s) (st_sessions tb)\<rparr>)))"
    unfolding new_def [symmetric] by simp
qed simp

lemma no_message_sessions:
  "no_message (on_db (session_create env s))" "no_message (on_db (session_get env t u sid))"
  "no_message (on_db (session_list env t u))" "no_message (on_db (session_archive env t u sid))"
  "no_message (on_db (session_update_title env t u sid title))" "no_message (on_db (message_list env t sid))"
  "no_message (on_db (next_seq env sid))"
  by (auto simp: session_create_def session_get_def session_list_def session_archive_def session_update_title_def
      message_list_def next_seq_def intro!: no_message_read no_message_write no_message_update)

text \<open>What only touches the rest of the world.\<close>

lemma rest_db [simp]:
  "ss_db (release_sandbox env t sb st) = ss_db st" "ss_db (audit_session_event env t u sid a m st) = ss_db st"
  "ss_db (call_hook env t u sid st) = ss_db st" "ss_db (snd (on_rest g st)) = ss_db st"
  by (auto simp: release_sandbox_def audit_session_event_def call_hook_def on_rest_def Let_def case_prod_unfold split: option.split)

lemma no_message_final: "(\<And>st. ss_db (snd (m st)) = ss_db st) \<Longrightarrow> no_message m"
  by (simp add: steps_in_def quiet_same)

lemma no_message_provision: "no_message (provision_sandbox env t u)"
proof -
  have "no_message (check_sandbox_quota env t)"
    by (rule no_message_final) (simp add: check_sandbox_quota_def split: option.split prod.split sum.split)
  then show ?thesis
    unfolding provision_sandbox_def
    by (cases "sx_sandbox env") (auto intro!: no_message_then no_message_give intro: no_message_final [where m = "on_rest _"])
qed

lemma no_message_create: "no_message (create_session env t u req)"
proof -
  have "no_message (branch (on_db (session_create (sdb env) s)) (\<lambda>e st1. (Inl e, release_sandbox env t (Some sb) st1))
      (\<lambda>_. and_then (on_db (session_get (sdb env) t u i)) (\<lambda>out st1. (Inr out, audit_session_event env t u i a m st1))))" for s i m sb a
    by (intro no_message_branch no_message_then no_message_sessions no_message_final) simp_all
  then have "no_message (\<lambda>st. branch (on_db (session_create (sdb env) (s st))) (\<lambda>e st1. (Inl e, release_sandbox env t (Some sb) st1))
      (\<lambda>_. and_then (on_db (session_get (sdb env) t u (i st))) (\<lambda>out st1. (Inr out, audit_session_event env t u (i st) a (f st) st1))) st)"
    for s i f sb a
    by (simp add: steps_in_def)
  then show ?thesis
    unfolding create_session_def Let_def
    by (auto intro!: no_message_then no_message_give no_message_provision)
qed

lemma no_message_messages: "no_message m \<Longrightarrow> st_messages (tables_of (snd (m st))) = st_messages (tables_of st)"
  by (simp add: steps_in_def quiet_def)

lemma get_session_owned:
  assumes "get_session env t u sid st = (Inr s, st1)"
  shows "s \<in> set (st_sessions (tables_of st)) \<and> owned_by t u sid s"
  using assms
  by (auto simp: get_session_def on_db_def session_get_def sess_query_def query_def exec_def Let_def tables_of_def find_Some_iff
      split: prod.splits option.splits) 

lemma run_session_kept:
  assumes "run_session env en wd t u s history content st = (err, obs, st')"
  shows "log_kept (cs_id s) (tables_of st) (tables_of st')"
proof -
  obtain mem st1 where mem: "load_memories env t u history content st = (mem, st1)"
    by (metis surj_pair)
  have "tables_of st1 = tables_of st"
    using mem by (auto simp: load_memories_def tables_of_def split: option.splits if_splits prod.splits)
  moreover obtain res run where run: "agent_run en (session_world env (cs_id s) t wd) root_ctx
      (session_input t u s (history_to_chat history @ [plain_message role_user content]) mem) \<lparr>as_world = st1, as_log = []\<rparr> = (res, run)"
    by (metis surj_pair)
  moreover have "session_run.keeps (cs_id s) (tables_of st1) run"
    by (rule session_run.agent_run_keeps [OF _ run])
      (auto simp: session_run.keeps_def reflpD [OF log_kept_refl])
  ultimately show ?thesis
    using assms mem by (simp add: run_session_def session_run.keeps_def)
qed

lemma send_message_cases [consumes 1]:
  fixes st :: "'w sess_state"
  assumes "send_message env en wd t u sid content st = (err, obs, st')"
  obtains (refused) "quiet st st'" "err \<noteq> None" "obs = []"
  | (stored) s history n st1 st2 st3 r st4 where "content \<noteq> []" "s \<in> set (st_sessions (tables_of st))" "owned_by t u sid s"
      "cs_status s \<noteq> status_archived" "quiet st st3" "n = next_seq_of sid (tables_of st3)"
      "quiet st st1" "on_db (message_list (sdb env) t sid) st1 = (Inr history, st2)"
      "on_db (message_append (sdb env) (user_row (de_uuid env (db_clock (ss_db st3))) sid t n content)) st3 = (r, st4)"
      "r = Inr () \<and> run_session env en wd t u s history content st4 = (err, obs, st') \<or> r \<noteq> Inr () \<and> st' = st4 \<and> err \<noteq> None \<and> obs = []"
proof (cases "content = []")
  case True
  then show thesis
    using assms by (intro refused) (auto simp: send_message_def quiet_same)
next
  case content: False
  obtain g st1 h st2 where get: "get_session env t u sid st = (g, st1)"
      and hist: "on_db (message_list (sdb env) t sid) st1 = (h, st2)"
    by (metis surj_pair)
  have q1: "quiet st st1"
    using steps_inD [OF no_message_sessions(2)] get by (metis get_session_def)
  have q2: "quiet st st2"
    using transpD [OF quiet_trans q1 steps_inD [OF no_message_sessions(6) hist]] .
  show thesis
  proof (cases "\<exists>s history. g = Inr s \<and> cs_status s \<noteq> status_archived \<and> h = Inr history")
    case False
    then show thesis
      using assms q1 q2 content by (intro refused) (auto simp: send_message_def get hist split: sum.splits if_splits)
  next
    case True
    then obtain s history where s: "g = Inr s" "cs_status s \<noteq> status_archived" "h = Inr history"
      by blast
    let ?st2 = "auto_title env t u s history content st2"
    have "quiet st2 ?st2"
      by (simp add: auto_title_def no_message_sessions(5) [unfolded steps_in_def] quiet_same)
    then have q2': "quiet st ?st2"
      using transpD [OF quiet_trans q2] by blast
    obtain k st3 where seq: "on_db (next_seq (sdb env) sid) ?st2 = (k, st3)"
      by (metis surj_pair)
    have q3: "quiet st st3"
      using transpD [OF quiet_trans q2' steps_inD [OF no_message_sessions(7) seq]] .
    show thesis
    proof (cases k)
      case (Inl e)
      then show thesis
        using assms q3 content by (intro refused) (auto simp: send_message_def get hist s seq)
    next
      case (Inr n)
      obtain r st4 where app: "on_db (message_append (sdb env) (user_row (de_uuid env (db_clock (ss_db st3))) sid t n content)) st3 = (r, st4)"
        by (metis surj_pair)
      have "r = Inr () \<and> run_session env en wd t u s history content st4 = (err, obs, st') \<or> r \<noteq> Inr () \<and> st' = st4 \<and> err \<noteq> None \<and> obs = []"
        using assms content by (cases r) (auto simp: send_message_def get hist s seq Inr app)
      moreover have "n = next_seq_of sid (tables_of st3)"
        using next_seq_value [OF seq [unfolded Inr]] by simp
      moreover have "s \<in> set (st_sessions (tables_of st)) \<and> owned_by t u sid s"
        using get_session_owned get s(1) by blast
      ultimately show thesis
        using stored [OF content _ _ s(2) q3 _ q1 hist [unfolded s(3)] app] by blast
    qed
  qed
qed

text \<open>The requests of a user.\<close>

datatype sess_req =
    SqCreate create_session_req | SqList | SqGet dbid | SqArchive dbid | SqMessages dbid | SqSend dbid string

fun after_request ::
  "'w sess_env \<Rightarrow> 're agent_engine \<Rightarrow> 'w agent_world \<Rightarrow> dbid \<Rightarrow> dbid \<Rightarrow> sess_req \<Rightarrow> 'w sess_state \<Rightarrow> 'w sess_state" where
  "after_request env en wd t u (SqCreate req) st = snd (create_session env t u req st)"
| "after_request env en wd t u SqList st = snd (list_sessions env t u st)"
| "after_request env en wd t u (SqGet sid) st = snd (get_session env t u sid st)"
| "after_request env en wd t u (SqArchive sid) st = snd (archive_session env t u sid st)"
| "after_request env en wd t u (SqMessages sid) st = snd (list_messages env t u sid st)"
| "after_request env en wd t u (SqSend sid content) st = snd (snd (send_message env en wd t u sid content st))"

lemma send_message_kept:
  assumes "send_message env en wd t u sid content st = (err, obs, st')"
  shows "log_kept sid (tables_of st) (tables_of st') \<and>
    (st_messages (tables_of st') \<noteq> st_messages (tables_of st) \<longrightarrow>
      content \<noteq> [] \<and> (\<exists>s \<in> set (st_sessions (tables_of st)). owned_by t u sid s \<and> cs_status s \<noteq> status_archived))"
  using assms
proof (cases rule: send_message_cases)
  case refused
  then show ?thesis
    using log_kept_same by (metis quiet_def)
next
  case (stored s history n st1 st2 st3 r st4)
  have seq: "cr_seq (user_row i sid t n content) = next_seq_of sid (tables_of st3)"
    and ses: "cr_session (user_row i sid t n content) = sid" for i
    using stored(6) by (simp_all add: user_row_def)
  have "log_kept sid (tables_of st3) (tables_of st4)"
    using append_kept [OF ses seq] stored(9) by (metis snd_conv)
  then have kept4: "log_kept sid (tables_of st) (tables_of st4)"
    using transpD [OF log_kept_trans log_kept_same] stored(5) unfolding quiet_def by blast
  have "cs_id s = sid"
    using stored(3) by (simp add: owned_by_def)
  then have "log_kept sid (tables_of st) (tables_of st')"
    using stored(10) kept4 run_session_kept transpD [OF log_kept_trans kept4] by blast
  then show ?thesis
    using stored(1-4) by blast
qed

text \<open>
  C9. Who writes to a session, and how: after any request, whatever the database, the model, the tools
  and the client do, the logs are numbered as before and rows have only been added; and the log of
  a session has changed only if the request was a message to it, by its owner, while it was active.
\<close>

theorem session_logs_guarded:
  fixes st :: "'w sess_state"
  assumes "numbered (tables_of st)" "after_request env en wd t u rq st = st'"
  shows "numbered (tables_of st') \<and> prefix (st_messages (tables_of st)) (st_messages (tables_of st')) \<and>
    (\<forall>sid. log_of sid (tables_of st') \<noteq> log_of sid (tables_of st) \<longrightarrow>
       (\<exists>content. rq = SqSend sid content \<and> content \<noteq> []) \<and>
       (\<exists>s \<in> set (st_sessions (tables_of st)). owned_by t u sid s \<and> cs_status s \<noteq> status_archived))"
proof -
  have unchanged: ?thesis if "no_message m" "st' = snd (m st)" for m :: "('c, 'w) serv_act"
  proof -
    have "st_messages (tables_of st') = st_messages (tables_of st)"
      using no_message_messages [OF that(1)] that(2) by simp
    then have "log_of sid (tables_of st') = log_of sid (tables_of st)" for sid
      by (simp add: log_of_def)
    then show ?thesis
      using assms(1) \<open>st_messages (tables_of st') = _\<close> by (simp add: numbered_def)
  qed
  show ?thesis
  proof (cases rq)
    case (SqSend sid content)
    obtain err obs st1 where send: "send_message env en wd t u sid content st = (err, obs, st1)"
      by (metis surj_pair)
    moreover have "st1 = st'"
      using assms(2) by (simp add: SqSend send)
    ultimately show ?thesis
      using send_message_kept [OF send] assms(1) unfolding SqSend log_kept_def log_of_def by metis
  next
    case (SqArchive sid)
    have "no_message (archive_session env t u sid)"
      unfolding archive_session_def get_session_def
      by (intro no_message_then no_message_sessions no_message_final) simp_all
    from unchanged [OF this] show ?thesis
      using assms(2) SqArchive by simp
  next
    case (SqMessages sid)
    have "no_message (list_messages env t u sid)"
      unfolding list_messages_def get_session_def by (intro no_message_then no_message_sessions)
    from unchanged [OF this] show ?thesis
      using assms(2) SqMessages by simp
  next
    case (SqCreate req)
    then show ?thesis
      using assms(2) by (intro unchanged [OF no_message_create, of env t u req]) simp
  next
    case SqList
    then show ?thesis
      using assms(2) by (intro unchanged [OF no_message_sessions(3), of "sdb env" t u]) (simp add: list_sessions_def)
  next
    case (SqGet sid)
    then show ?thesis
      using assms(2) by (intro unchanged [OF no_message_sessions(2), of "sdb env" t u sid]) (simp add: get_session_def)
  qed
qed

section \<open>The conversation a run leaves\<close>

definition persisted_event :: "agent_event \<Rightarrow> chat_row option" where
  "persisted_event ev = event_to_message [] [] [] ev"

definition persisted :: "agent_event list \<Rightarrow> chat_message list" where
  "persisted evs = map chat_of_row (List.map_filter persisted_event evs)"

definition storable_event :: "agent_event \<Rightarrow> bool" where
  "storable_event ev = pred_option storable (persisted_event ev)"

definition chat_log :: "dbid \<Rightarrow> sess_tables \<Rightarrow> chat_message list" where
  "chat_log sid tb = map chat_of_row (log_of sid tb)"

lemma persisted_append [simp]: "persisted (a @ b) = persisted a @ persisted b"
  by (simp add: persisted_def map_filter_def)

lemma persisted_Nil [simp]: "persisted [] = []"
  by (simp add: persisted_def map_filter_def)

lemma persisted_Cons: "persisted (ev # evs) =
    (case persisted_event ev of None \<Rightarrow> [] | Some r \<Rightarrow> [chat_of_row r]) @ persisted evs"
  by (simp add: persisted_def map_filter_def split: option.split)

lemma persisted_kinds:
  "ag_kind ev = EventAssistantDelta \<Longrightarrow> persisted_event ev = None"
  "ag_kind ev = EventToolCall \<Longrightarrow> persisted_event ev = None"
  "ag_kind ev = EventFinal \<Longrightarrow> persisted_event ev = None"
  by (simp_all add: persisted_event_def event_to_message_def Let_def)

lemma persisted_assistant:
  assumes "ag_kind ev = EventAssistantMessage"
  shows "\<exists>r. persisted_event ev = Some r \<and> cm_role (chat_of_row r) = role_assistant \<and>
    cm_calls (chat_of_row r) = map stored_call (ag_calls ev) \<and> cm_content (chat_of_row r) = ag_text ev"
  using assms by (simp add: persisted_event_def event_to_message_def Let_def chat_of_row_def)

lemma persisted_result:
  assumes "ag_kind ev = EventToolResult"
  shows "\<exists>r. persisted_event ev = Some r \<and> cm_role (chat_of_row r) = role_tool \<and> cm_calls (chat_of_row r) = [] \<and>
    cm_call_id (chat_of_row r) = ag_call_id ev \<and> (storable r \<longrightarrow> clean_utf8 (ag_call_id ev) = ag_call_id ev)"
  using assms by (simp add: persisted_event_def event_to_message_def Let_def chat_of_row_def storable_def pg_text_def)

lemma persisted_deltas: "list_all (event_of EventAssistantDelta k) ds \<Longrightarrow> persisted (events_of ds) = []"
  by (induction ds) (auto simp: event_of_def persisted_Cons persisted_kinds)

lemma persisted_answers:
  assumes "answered allow step cs ms t" "list_all storable_event (events_of t)"
  shows "map cm_call_id (persisted (events_of t)) = map (tc_id \<circ> stored_call) cs \<and>
    list_all (\<lambda>x. cm_role x = role_tool \<and> cm_calls x = []) (persisted (events_of t))"
  using assms
proof (induction rule: answered.induct)
  case (call cs ms t ivk c r m)
  obtain row where row: "persisted_event r = Some row" "cm_role (chat_of_row row) = role_tool" "cm_calls (chat_of_row row) = []"
      "cm_call_id (chat_of_row row) = tc_id c" "storable row \<longrightarrow> clean_utf8 (tc_id c) = tc_id c"
    using persisted_result [OF call.hyps(3)] call.hyps(4) by auto
  have ivk: "events_of ivk = []"
    using call.hyps(2) by auto
  have evs: "events_of (AoEvent (call_event step c) # ivk @ AoEvent r # t) = call_event step c # r # events_of t"
    by (simp add: ivk)
  have "storable row"
    using call.prems unfolding evs by (simp add: storable_event_def row(1))
  then show ?case
    using row call.IH call.prems unfolding evs
    by (simp add: persisted_Cons persisted_kinds(2) stored_call_def)
qed simp

lemma react_persisted:
  "react allow req mx n msgs t res \<Longrightarrow> res = None \<Longrightarrow> list_all storable_event (events_of t) \<Longrightarrow>
     \<exists>turns fin. persisted (events_of t) = turns @ [fin] \<and> turns_ok turns \<and> cm_role fin = role_assistant"
proof (induction rule: react.induct)
  case (final n ds ob fin res msgs)
  obtain e1 e2 where ev: "ob = AoEvent e1" "ag_kind e1 = EventAssistantMessage" "fin = AoEvent e2" "ag_kind e2 = EventFinal"
    using event_of_events [OF final.hyps(2)] event_of_events [OF final.hyps(3)] by blast
  obtain row where row: "persisted_event e1 = Some row" "cm_role (chat_of_row row) = role_assistant"
    using persisted_assistant [OF ev(2)] by blast
  have "persisted (events_of (ds @ [ob, fin])) = [] @ [chat_of_row row]"
    using persisted_deltas [OF final.hyps(1)] by (simp add: ev(1,3) persisted_Cons row(1) persisted_kinds(3) [OF ev(4)])
  then show ?case
    using row(2) by (intro exI [of _ "[]"] exI [of _ "chat_of_row row"]) simp
next
  case (turn n ds ob asst results t msgs t' res)
  obtain e1 where ev: "ob = AoEvent e1" "ag_kind e1 = EventAssistantMessage"
    using event_of_events [OF turn.hyps(2)] by blast
  obtain row where row: "persisted_event e1 = Some row" "cm_role (chat_of_row row) = role_assistant"
      "cm_calls (chat_of_row row) = map stored_call (cm_calls asst)"
    using persisted_assistant [OF ev(2)] turn.hyps(5) by (auto simp: ev(1))
  have evs: "events_of (AoRequest (req msgs) # ds @ ob # t @ t') = events_of ds @ e1 # events_of t @ events_of t'"
    by (simp add: ev(1))
  obtain turns fin where rest: "persisted (events_of t') = turns @ [fin]" "turns_ok turns" "cm_role fin = role_assistant"
    using turn.IH turn.prems unfolding evs by auto
  have ans: "map cm_call_id (persisted (events_of t)) = map (tc_id \<circ> stored_call) (cm_calls asst)"
      "list_all (\<lambda>x. cm_role x = role_tool \<and> cm_calls x = []) (persisted (events_of t))"
    using persisted_answers [OF turn.hyps(6)] turn.prems(2) unfolding evs by simp_all
  have len: "length (persisted (events_of t)) = length (cm_calls asst)"
    using ans(1) by (metis length_map)
  have "turns_ok (chat_of_row row # persisted (events_of t))"
    using row ans turn.hyps(4) by (simp add: Let_def len)
  then have "turns_ok ((chat_of_row row # persisted (events_of t)) @ turns)"
    using rest(2) by (rule turns_ok_append)
  moreover have "persisted (events_of ds @ e1 # events_of t @ events_of t') = ((chat_of_row row # persisted (events_of t)) @ turns) @ [fin]"
    using rest(1) persisted_deltas [OF turn.hyps(1)] by (simp add: persisted_Cons row(1))
  ultimately show ?case
    unfolding evs using rest(3) by blast
qed simp_all

text \<open>
  A database without failures, whose ids are never drawn twice: then the log of the session is the
  log before, followed by the rows of the events.
\<close>

definition settled :: "db_env \<Rightarrow> dbid \<Rightarrow> dbid \<Rightarrow> sess_db \<Rightarrow> bool" where
  "settled env sid tenant db \<longleftrightarrow> numbered (db_tables db) \<and> sid \<in> cs_id ` set (st_sessions (db_tables db)) \<and>
     (\<forall>m \<in> set (log_of sid (db_tables db)). cr_tenant m = tenant) \<and>
     (\<forall>m \<in> set (st_messages (db_tables db)). \<exists>k < db_clock db. cr_id m = de_uuid env k)"

lemma chat_of_row_irrelevant [simp]:
  "chat_of_row (r\<lparr>cr_created := c\<rparr>) = chat_of_row r" "chat_of_row (r\<lparr>cr_seq := n\<rparr>) = chat_of_row r"
  by (simp_all add: chat_of_row_def)

lemma settled_read:
  "settled env sid t db \<Longrightarrow> settled env sid t (db\<lparr>db_clock := Suc (db_clock db)\<rparr>)"
  by (auto simp: settled_def less_Suc_eq)

lemma append_settled:
  assumes "calm env" "settled env sid t db" "inj (de_uuid env)" "storable r"
    and "cr_session r = sid" "cr_tenant r = t" "cr_seq r = next_seq_of sid (db_tables db)"
    and "cr_id r = de_uuid env k" "\<forall>m \<in> set (st_messages (db_tables db)). cr_id m \<noteq> de_uuid env k" "k \<le> db_clock db"
  shows "\<exists>db'. message_append env r db = (Inr (), db') \<and> settled env sid t db' \<and>
    chat_log sid (db_tables db') = chat_log sid (db_tables db) @ [chat_of_row r] \<and>
    st_sessions (db_tables db') = st_sessions (db_tables db) \<and> db_clock db' = Suc (db_clock db)"
proof -
  let ?tb = "db_tables db" and ?n = "db_clock db"
  have num: "numbered ?tb" "sid \<in> cs_id ` set (st_sessions ?tb)"
    using assms(2) by (simp_all add: settled_def)
  note nxt = numbered_next [OF num(1), of sid]
  have "\<not> list_ex (\<lambda>m. cr_session m = sid \<and> cr_seq m = cr_seq r) (st_messages ?tb)"
    using numbered_max [OF num(1)] assms(7) nxt by (force simp: list_ex_iff log_of_def)
  moreover have "cr_id r \<notin> cr_id ` set (st_messages ?tb)"
    using assms(8,9) by auto
  ultimately have app: "append_row env r ?n ?tb = (Inr (), ?tb\<lparr>st_messages := st_messages ?tb @ [r\<lparr>cr_created := de_now env ?n\<rparr>]\<rparr>)"
    using assms(4,5) num(2) by (simp add: append_row_def)
  moreover have "numbered (?tb\<lparr>st_messages := st_messages ?tb @ [r\<lparr>cr_created := de_now env ?n\<rparr>]\<rparr>)"
    using append_row_numbered [OF num(1) _ _ app] assms(5,7) nxt by simp
  moreover have "\<exists>j \<le> ?n. cr_id m = de_uuid env j" if "m \<in> set (st_messages ?tb)" for m
    using assms(2) that unfolding settled_def by (meson less_imp_le)
  ultimately show ?thesis
    using assms(1,2,5,6,8,10)
    by (auto simp: message_append_def sess_exec_def exec_calm settled_def chat_log_def log_of_def less_Suc_eq_le)
qed

lemma persist_event_settled:
  assumes "calm (sdb env)" "inj (de_uuid env)" "settled (sdb env) sid t (ss_db st)" "storable_event ev"
    and "persist_event env sid t f ev st = (e, st')"
  shows "settled (sdb env) sid t (ss_db st') \<and>
    chat_log sid (tables_of st') = chat_log sid (tables_of st) @ persisted [ev] \<and> (e, ss_rest st') = f ev (ss_rest st)"
proof (cases "event_to_message (de_uuid env (db_clock (ss_db st))) sid t ev")
  case None
  then have "persisted_event ev = None"
    by (auto simp: persisted_event_def event_to_message_def Let_def split: event_kind.splits)
  then show ?thesis
    using assms(3,5) None by (auto simp: persist_event_def persisted_Cons tables_of_def split: prod.splits)
next
  case (Some row)
  let ?db = "ss_db st" and ?k = "db_clock (ss_db st)" and ?n = "next_seq_of sid (tables_of st)"
  obtain r0 where r0: "persisted_event ev = Some r0" "row = r0\<lparr>cr_id := de_uuid env ?k, cr_session := sid, cr_tenant := t\<rparr>"
    using Some by (auto simp: persisted_event_def event_to_message_def Let_def split: event_kind.splits)
  have same: "chat_of_row row = chat_of_row r0" "storable (row\<lparr>cr_seq := ?n\<rparr>)"
    using assms(4) by (simp_all add: r0(2) chat_of_row_def storable_event_def r0(1) storable_def)
  let ?db1 = "?db\<lparr>db_clock := Suc ?k\<rparr>"
  have seq: "on_db (next_seq (sdb env) sid) st = (Inr ?n, st\<lparr>ss_db := ?db1\<rparr>)"
    using assms(1) by (simp add: on_db_def next_seq_def sess_query_def query_calm tables_of_def)
  have uuid: "de_uuid (sdb env) = de_uuid env"
    by (simp add: db_env.truncate_def)
  have fresh: "\<forall>m \<in> set (st_messages (db_tables ?db1)). cr_id m \<noteq> de_uuid (sdb env) ?k"
  proof
    fix m assume "m \<in> set (st_messages (db_tables ?db1))"
    then obtain j where "j < ?k" "cr_id m = de_uuid env j"
      using assms(3) uuid by (auto simp: settled_def)
    then show "cr_id m \<noteq> de_uuid (sdb env) ?k"
      using injD [OF assms(2), of j ?k] uuid by auto
  qed
  obtain db2 where app: "message_append (sdb env) (row\<lparr>cr_seq := ?n\<rparr>) ?db1 = (Inr (), db2)" "settled (sdb env) sid t db2"
      "chat_log sid (db_tables db2) = chat_log sid (db_tables ?db1) @ [chat_of_row (row\<lparr>cr_seq := ?n\<rparr>)]"
    using append_settled [OF assms(1) settled_read [OF assms(3)] _ same(2) _ _ _ _ fresh] assms(2)
    by (auto simp: uuid r0(2) tables_of_def)
  have "persist_event env sid t f ev st = (let (e, w) = f ev (ss_rest st) in (e, st\<lparr>ss_db := db2, ss_rest := w\<rparr>))"
    by (simp add: persist_event_def Some seq) (simp add: on_db_def app(1) case_prod_unfold Let_def)
  then have "ss_db st' = db2" "(e, ss_rest st') = f ev (ss_rest st)"
    using assms(5) by (auto split: prod.splits)
  then show ?thesis
    using app(2,3) same(1) by (simp add: tables_of_def persisted_Cons r0(1))
qed

text \<open>The frame of a run: what its events make of the log.\<close>

definition logged :: "'w sess_env \<Rightarrow> dbid \<Rightarrow> dbid \<Rightarrow> chat_message list \<Rightarrow> 'w sess_state \<Rightarrow> agent_obs list \<Rightarrow> bool" where
  "logged env sid t base st obs \<longleftrightarrow>
     (calm (sdb env) \<longrightarrow> inj (de_uuid env) \<longrightarrow> list_all storable_event (events_of obs) \<longrightarrow>
        settled (sdb env) sid t (ss_db st) \<and> chat_log sid (tables_of st) = base @ persisted (events_of (rev obs)))"

interpretation session_log: agent_frame "session_world env sid t wd" "logged env sid t base" UNIV for env sid t wd base
proof unfold_locales
  fix w log ev e w'
  assume before: "logged env sid t base w log" and "aw_yield (session_world env sid t wd) ev w = (e, w')"
  then have "persist_event env sid t (aw_yield wd) ev w = (e, w')"
    by (simp add: session_world_def)
  from persist_event_settled [OF _ _ _ _ this] show "logged env sid t base w' (AoEvent ev # log)"
    using before by (simp add: logged_def)
qed (auto simp: session_world_def logged_def tables_of_def split: prod.splits)

lemma settled_quiet:
  assumes "settled (sdb env) sid t (ss_db a)" "quiet a b"
  shows "settled (sdb env) sid t (ss_db b)" "log_of sid (tables_of b) = log_of sid (tables_of a)"
proof -
  have eq: "st_messages (db_tables (ss_db b)) = st_messages (db_tables (ss_db a))"
      "cs_id ` set (st_sessions (db_tables (ss_db a))) \<subseteq> cs_id ` set (st_sessions (db_tables (ss_db b)))"
      "db_clock (ss_db a) \<le> db_clock (ss_db b)"
    using assms(2) by (simp_all add: quiet_def tables_of_def)
  then have logs: "log_of sid' (db_tables (ss_db b)) = log_of sid' (db_tables (ss_db a))" for sid'
    by (simp add: log_of_def)
  then show "log_of sid (tables_of b) = log_of sid (tables_of a)"
    by (simp add: tables_of_def)
  have "\<exists>k < db_clock (ss_db b). cr_id m = de_uuid (sdb env) k" if "m \<in> set (st_messages (db_tables (ss_db b)))" for m
    using assms(1) that eq(1,3) unfolding settled_def by (metis order_less_le_trans)
  then show "settled (sdb env) sid t (ss_db b)"
    using assms(1) eq(2) logs unfolding settled_def numbered_def by auto
qed

lemma message_list_settled:
  assumes "settled (sdb env) sid t (ss_db st)" "on_db (message_list (sdb env) t sid) st = (Inr history, st')"
  shows "history = log_of sid (tables_of st)"
proof -
  have tenant: "filter (\<lambda>m. cr_session m = sid \<and> cr_tenant m = t) (st_messages (tables_of st)) = log_of sid (tables_of st)"
    using assms(1) by (auto simp: settled_def log_of_def tables_of_def intro!: filter_cong)
  have "sorted (map cr_seq (log_of sid (tables_of st)))"
    using assms(1) by (simp add: settled_def numbered_def tables_of_def sorted_map del: upt_Suc)
  then have "sort_key cr_seq (log_of sid (tables_of st)) = log_of sid (tables_of st)"
    by (simp add: sort_key_id_if_sorted)
  then show ?thesis
    using assms(2) tenant
    by (auto simp: on_db_def message_list_def sess_query_def tables_of_def dest!: query_Inr split: prod.splits)
qed

lemma user_append_settled:
  assumes "calm (sdb env)" "inj (de_uuid env)" "settled (sdb env) sid t (ss_db st)"
    and "on_db (message_append (sdb env) (user_row (de_uuid env (db_clock (ss_db st))) sid t n content)) st = (Inr (), st')"
    and "n = next_seq_of sid (tables_of st)"
  shows "settled (sdb env) sid t (ss_db st') \<and>
    chat_log sid (tables_of st') = chat_log sid (tables_of st) @ [chat_of_row (user_row (de_uuid env (db_clock (ss_db st))) sid t n content)]"
proof -
  let ?row = "user_row (de_uuid env (db_clock (ss_db st))) sid t n content"
  have uuid: "de_uuid (sdb env) = de_uuid env"
    by (simp add: db_env.truncate_def)
  have fresh: "\<forall>m \<in> set (st_messages (db_tables (ss_db st))). cr_id m \<noteq> de_uuid (sdb env) (db_clock (ss_db st))"
  proof
    fix m assume "m \<in> set (st_messages (db_tables (ss_db st)))"
    then obtain j where "j < db_clock (ss_db st)" "cr_id m = de_uuid env j"
      using assms(3) uuid by (auto simp: settled_def)
    then show "cr_id m \<noteq> de_uuid (sdb env) (db_clock (ss_db st))"
      using injD [OF assms(2), of j "db_clock (ss_db st)"] uuid by auto
  qed
  have "storable ?row"
    using assms(1,4) by (auto simp: on_db_def message_append_def sess_exec_def exec_calm append_row_def split: prod.splits if_splits)
  from append_settled [OF assms(1,3) _ this _ _ _ _ fresh] obtain db' where
      "message_append (sdb env) ?row (ss_db st) = (Inr (), db')" "settled (sdb env) sid t db'"
      "chat_log sid (db_tables db') = chat_log sid (db_tables (ss_db st)) @ [chat_of_row ?row]"
    using assms(2,5) uuid by (auto simp: user_row_def tables_of_def)
  then show ?thesis
    using assms(4) by (auto simp: on_db_def tables_of_def)
qed

lemma events_of_rev: "events_of (rev obs) = rev (events_of obs)"
  by (induction obs rule: events_of.induct) simp_all


section \<open>A session\<close>

definition demo_sess_env :: "nat sess_env" where
  "demo_sess_env = \<lparr>de_fault = (\<lambda>n. None), de_uuid = show_nat, de_now = int, sx_sandbox = None, sx_quota = None,
     sx_memory = None, sx_audit = None, sx_hook = None\<rparr>"

definition demo_sess_db :: sess_db where
  "demo_sess_db = \<lparr>db_tables = demo_tables, db_clock = 0\<rparr>"

lemma demo_sdb: "sdb demo_sess_env = demo_db_env"
  by (simp add: demo_sess_env_def demo_db_env_def db_env.truncate_def)

lemma demo_uuid: "de_uuid demo_sess_env = show_nat"
  by (simp add: demo_sess_env_def)

lemma demo_sess_calm: "calm demo_db_env" "inj (de_uuid demo_sess_env)"
proof -
  have "inj show_nat"
    by (rule inj_on_inverseI [of _ "digits_val 0"]) simp
  then show "calm demo_db_env" "inj (de_uuid demo_sess_env)"
    by (simp_all add: calm_def demo_sess_env_def demo_db_env_def)
qed

lemma demo_settled: "settled demo_db_env ''s'' ''t'' demo_sess_db"
  using demo_numbered by (simp add: settled_def demo_sess_db_def log_of_def) (simp add: demo_tables_def demo_session_def)

text \<open>What a row of the run takes, event by event.\<close>

lemma storable_silent:
  "ag_kind ev = EventAssistantDelta \<Longrightarrow> storable_event ev" "ag_kind ev = EventToolCall \<Longrightarrow> storable_event ev"
  "ag_kind ev = EventFinal \<Longrightarrow> storable_event ev"
  by (simp_all add: storable_event_def persisted_kinds)

lemma meta_no_zero:
  assumes "list_all (\<lambda>(k, v). no_zero k \<and> (\<forall>j. marshal v = Inr j \<longrightarrow> json_no_zero j)) m"
  shows "pred_option json_no_zero (meta_of m)"
proof -
  have "\<forall>js. marshal_map m = Inr js \<longrightarrow> list_all (\<lambda>(k, j). no_zero k \<and> json_no_zero j) js"
    using assms by (induction m) (auto simp: on_ok_Inr_iff)
  moreover have "list_all P (sort_key fst js) = list_all P js" for P and js :: "(string \<times> json) list"
    by (simp add: list_all_iff)
  ultimately show ?thesis
    by (auto simp: meta_of_def on_ok_Inr_iff split: sum.splits)
qed

lemma demo_no_zero [simp]:
  "no_zero []" "no_zero ''kind''" "no_zero ''step''" "no_zero ''finish_reason''" "no_zero ''assistant_message''" "no_zero ''tool_name''"
  "no_zero ''truncated''" "no_zero ''original_size''" "no_zero ''tool_error''" "no_zero ''tool_result''"
  by code_simp+

lemma storable_assistant:
  assumes "ag_kind ev = EventAssistantMessage" "pg_text (ag_text ev)" "list_all (call_no_zero \<circ> stored_call) (ag_calls ev)"
    and "no_zero (ag_finish ev)"
  shows "storable_event ev"
proof -
  have "pg_text []"
    by code_simp
  moreover have "pred_option json_no_zero (meta_of [(''kind'', VStr ''assistant_message''), (''step'', VInt (ag_step ev)),
      (''finish_reason'', VStr (ag_finish ev))])"
    using assms(4) by (intro meta_no_zero) simp
  ultimately show ?thesis
    using assms(1-3) by (simp add: storable_event_def persisted_event_def event_to_message_def Let_def storable_def event_kind_text_def
        list.pred_map)
qed

lemma storable_result:
  assumes "ag_kind ev = EventToolResult" "pg_text (ag_call_id ev)" "pg_text (ag_output ev)" "ag_error ev = []"
    and "no_zero (ag_tool ev)"
  shows "storable_event ev"
proof -
  have "pred_option json_no_zero (meta_of [(''kind'', VStr ''tool_result''), (''step'', VInt (ag_step ev)), (''tool_name'', VStr (ag_tool ev)),
      (''truncated'', VBool (ag_truncated ev)), (''original_size'', VInt (ag_size ev)), (''tool_error'', VStr [])])"
    using assms(5) by (intro meta_no_zero) simp
  then show ?thesis
    using assms(1-4) by (simp add: storable_event_def persisted_event_def event_to_message_def Let_def storable_def event_kind_text_def)
qed

text \<open>On the quiet database, the rest of the world sees the run as if there were none.\<close>

definition in_order :: "nat sess_state \<Rightarrow> bool" where
  "in_order st \<longleftrightarrow> settled demo_db_env ''s'' ''t'' (ss_db st)"

definition stored_next :: "(agent_event \<Rightarrow> nat \<Rightarrow> string option \<times> nat) \<Rightarrow> agent_event \<Rightarrow> nat sess_state \<Rightarrow> nat sess_state" where
  "stored_next f ev st = snd (persist_event demo_sess_env ''s'' ''t'' f ev st)"

lemma persist_in_order:
  assumes "in_order st" "storable_event ev"
  shows "persist_event demo_sess_env ''s'' ''t'' f ev st = (fst (f ev (ss_rest st)), stored_next f ev st)"
    and "in_order (stored_next f ev st)" "ss_rest (stored_next f ev st) = snd (f ev (ss_rest st))"
proof -
  obtain e st' where run: "persist_event demo_sess_env ''s'' ''t'' f ev st = (e, st')"
    by (metis surj_pair)
  have "settled demo_db_env ''s'' ''t'' (ss_db st') \<and> (e, ss_rest st') = f ev (ss_rest st)"
    using persist_event_settled [OF _ demo_sess_calm(2) _ assms(2) run, unfolded demo_sdb] demo_sess_calm(1) assms(1) by (simp add: in_order_def)
  then show "persist_event demo_sess_env ''s'' ''t'' f ev st = (fst (f ev (ss_rest st)), stored_next f ev st)"
    and "in_order (stored_next f ev st)" "ss_rest (stored_next f ev st) = snd (f ev (ss_rest st))"
    using run by (simp_all add: stored_next_def in_order_def flip: prod.inject) (metis fst_conv snd_conv)+
qed

lemma in_order_rest [simp]: "in_order (st\<lparr>ss_rest := w\<rparr>) = in_order st"
  by (simp add: in_order_def)

lemma result_event_error [simp]: "ag_error (result_event k c) = []"
  by (simp add: result_event_def new_event_def)

lemma demo_storables:
  "pg_text []" "pg_text ''done''" "pg_text ''c1''" "pg_text ''{}''" "no_zero ''tool_calls''" "no_zero ''stop''" "no_zero ''fs.read''"
  "call_no_zero (stored_call \<lparr>tc_index = 0, tc_id = ''c1'', tc_type = ''function'', tc_name = ''fs.read'', tc_args = ''{}''\<rparr>)"
  by code_simp+

lemma demo_session_run:
  assumes "in_order st" "ss_rest st = 0" "msgs \<noteq> []"
  shows "\<exists>ag. agent_run demo_engine (session_world demo_sess_env ''s'' ''t'' demo_world) root_ctx
      (session_input ''t'' ''u'' (demo_session\<lparr>cs_title := ttl\<rparr>) msgs no_memories) \<lparr>as_world = st, as_log = []\<rparr> = (None, ag) \<and>
    list_all storable_event (events_of (as_log ag)) \<and> length (filter is_request (as_log ag)) = 2"
  using assms
  by (simp add: agent_run_def agent_step_def session_input_def demo_session_def no_memories_def noop_composer_def compose_input_of_def
      demo_engine_def new_agent_engine_def demo_profile_def run_profile_name_def run_max_steps_def
      record_route_def record_skill_inject_def record_memory_inject_def audit_if_def no_meta_def session_world_def
      call_stream_def demo_world_def demo_chunk_def accum_apply_def apply_call_def new_accum_def merge_call_def fresh_call_def
      do_yield_def yield_ignored_def log_ao_def after_message_def accum_message_def run_tool_call_def demo_json
      truncate_tool_output_def default_max_output_def eval_nat_numeral Let_def
      persist_in_order storable_silent storable_assistant storable_result demo_storables)

lemma demo_title: "derive_title ''hi'' = ''hi''"
  by code_simp

definition demo_start_state :: "nat \<Rightarrow> nat sess_state" where
  "demo_start_state w = \<lparr>ss_db = demo_sess_db, ss_rest = w\<rparr>"

lemma demo_session_sel:
  "cs_title demo_session = []" "cs_id demo_session = ''s''" "owned_by ''t'' ''u'' ''s'' demo_session"
  "cs_status demo_session \<noteq> status_archived" "demo_session\<lparr>cs_title := []\<rparr> = demo_session"
  by (simp_all add: demo_session_def owned_by_def status_active_def status_archived_def)

text \<open>The first message, up to the run of the agent.\<close>

lemma demo_send_begins:
  "\<exists>db. send_message demo_sess_env en wd ''t'' ''u'' ''s'' ''hi'' (demo_start_state w) =
       run_session demo_sess_env en wd ''t'' ''u'' demo_session [] ''hi'' \<lparr>ss_db = db, ss_rest = w\<rparr> \<and>
     settled demo_db_env ''s'' ''t'' db \<and> chat_log ''s'' (db_tables db) = [plain_message role_user ''hi'']"
proof -
  let ?on = "\<lambda>tb n. \<lparr>ss_db = \<lparr>db_tables = tb, db_clock = n\<rparr>, ss_rest = w\<rparr>"
  note calm = demo_sess_calm(1)
  have get: "get_session demo_sess_env ''t'' ''u'' ''s'' (demo_start_state w) = (Inr demo_session, ?on demo_tables (Suc 0))"
    using calm demo_session_sel(3)
    by (simp add: get_session_def on_db_def session_get_def sess_query_def query_calm demo_sdb demo_start_state_def demo_sess_db_def
        demo_tables_def)
  have hist: "on_db (message_list (sdb demo_sess_env) ''t'' ''s'') (?on demo_tables (Suc 0)) = (Inr [], ?on demo_tables 2)"
    using calm by (simp add: on_db_def message_list_def sess_query_def query_calm demo_sdb demo_tables_def)
  obtain tb where title: "auto_title demo_sess_env ''t'' ''u'' demo_session [] ''hi'' (?on demo_tables 2) = ?on tb 3"
      "st_messages tb = []" "cs_id ` set (st_sessions tb) = {''s''}"
    using calm by (simp add: auto_title_def demo_title has_prior_user_message_def on_db_def session_update_title_def session_update_def
        sess_exec_def exec_calm demo_sdb demo_tables_def demo_session_sel)
  have seq: "on_db (next_seq (sdb demo_sess_env) ''s'') (?on tb 3) = (Inr 1, ?on tb 4)"
    using calm title(2) by (simp add: on_db_def next_seq_def sess_query_def query_calm demo_sdb next_seq_of_def)
  let ?row = "user_row (show_nat 4) ''s'' ''t'' 1 ''hi''"
  have settled: "settled demo_db_env ''s'' ''t'' \<lparr>db_tables = tb, db_clock = 4\<rparr>" and nxt: "next_seq_of ''s'' tb = 1"
    using title(2,3) by (simp_all add: settled_def numbered_def log_of_def next_seq_of_def)
  have "storable ?row"
    using demo_texts by (simp add: storable_def user_row_def)
  from append_settled [OF calm settled _ this, of 4] obtain db where
      app: "message_append demo_db_env ?row \<lparr>db_tables = tb, db_clock = 4\<rparr> = (Inr (), db)" "settled demo_db_env ''s'' ''t'' db"
        "chat_log ''s'' (db_tables db) = chat_log ''s'' tb @ [chat_of_row ?row]"
    using demo_sess_calm(2) title(2) nxt by (auto simp: user_row_def demo_sess_env_def demo_db_env_def)
  have "on_db (message_append (sdb demo_sess_env) ?row) (?on tb 4) = (Inr (), \<lparr>ss_db = db, ss_rest = w\<rparr>)"
    using app(1) by (simp add: on_db_def demo_sdb)
  then have "send_message demo_sess_env en wd ''t'' ''u'' ''s'' ''hi'' (demo_start_state w) =
      run_session demo_sess_env en wd ''t'' ''u'' demo_session [] ''hi'' \<lparr>ss_db = db, ss_rest = w\<rparr>"
    by (simp add: send_message_def get hist title(1) seq demo_uuid demo_session_sel)
  moreover have "chat_log ''s'' (db_tables db) = [plain_message role_user ''hi'']"
    using app(3) title(2) by (simp add: chat_log_def log_of_def chat_of_row_def user_row_def plain_message_def)
  ultimately show ?thesis
    using app(2) by blast
qed

lemma demo_run_session:
  "run_session demo_sess_env en wd ''t'' ''u'' demo_session [] ''hi'' st =
     (let (res, run) = agent_run en (session_world demo_sess_env ''s'' ''t'' wd) root_ctx
            (session_input ''t'' ''u'' demo_session [plain_message role_user ''hi''] no_memories) \<lparr>as_world = st, as_log = []\<rparr>
      in (map_option SndAgent res, rev (as_log run), as_world run))"
  by (simp add: run_session_def history_to_chat_def load_memories_def demo_session_sel) (simp add: demo_sess_env_def)

lemma demo_send:
  "\<exists>obs st'. send_message demo_sess_env demo_engine demo_world ''t'' ''u'' ''s'' ''hi'' (demo_start_state 0) = (None, obs, st') \<and>
     list_all storable_event (events_of obs) \<and> length (filter is_request obs) = 2"
proof -
  obtain db where begins: "send_message demo_sess_env demo_engine demo_world ''t'' ''u'' ''s'' ''hi'' (demo_start_state 0) =
      run_session demo_sess_env demo_engine demo_world ''t'' ''u'' demo_session [] ''hi'' \<lparr>ss_db = db, ss_rest = 0\<rparr>"
      "settled demo_db_env ''s'' ''t'' db"
    using demo_send_begins by blast
  obtain ag where "agent_run demo_engine (session_world demo_sess_env ''s'' ''t'' demo_world) root_ctx
      (session_input ''t'' ''u'' demo_session [plain_message role_user ''hi''] no_memories)
      \<lparr>as_world = \<lparr>ss_db = db, ss_rest = 0\<rparr>, as_log = []\<rparr> = (None, ag)"
      "list_all storable_event (events_of (as_log ag))" "length (filter is_request (as_log ag)) = 2"
    using demo_session_run [of "\<lparr>ss_db = db, ss_rest = 0\<rparr>" "[plain_message role_user ''hi'']" "[]"] begins(2)
    by (auto simp: in_order_def demo_session_sel)
  then show ?thesis
    by (simp add: begins(1) demo_run_session events_of_rev list_all_iff flip: rev_filter)
qed


theorem session_logs_guarded_witness:
  "\<exists>st'. after_request demo_sess_env demo_engine demo_world ''t'' ''u'' (SqSend ''s'' ''hi'') (demo_start_state 0) = st' \<and> numbered (tables_of st')"
proof -
  have "numbered (tables_of (demo_start_state 0))"
    using demo_numbered by (simp add: tables_of_def demo_start_state_def demo_sess_db_def)
  then show ?thesis
    using session_logs_guarded [OF _ refl] by blast
qed

text \<open>
  A client that goes away: the row of an event is written before the frame, and a frame that fails
  ends the run, so calls that were stored are never answered, and the next message is sent with them.
\<close>

definition cut_world :: "nat agent_world" where
  "cut_world = demo_world\<lparr>aw_yield := (\<lambda>ev n. (if ag_kind ev = EventAssistantMessage then Some ''broken pipe'' else None, n))\<rparr>"

lemma cut_session_run:
  assumes "in_order st" "ss_rest st = 0" "msgs \<noteq> []"
  shows "\<exists>ag ev. agent_run demo_engine (session_world demo_sess_env ''s'' ''t'' cut_world) root_ctx
      (session_input ''t'' ''u'' (demo_session\<lparr>cs_title := ttl\<rparr>) msgs no_memories) \<lparr>as_world = st, as_log = []\<rparr> = (Some (AgYield ''broken pipe''), ag) \<and>
    list_all storable_event (events_of (as_log ag)) \<and>
    map cm_calls (persisted (events_of (rev (as_log ag)))) =
      [[\<lparr>tc_index = 0, tc_id = ''c1'', tc_type = ''function'', tc_name = ''fs.read'', tc_args = ''{}''\<rparr>]]"
  using assms
  by (simp add: agent_run_def agent_step_def session_input_def demo_session_def no_memories_def noop_composer_def compose_input_of_def
      demo_engine_def new_agent_engine_def demo_profile_def run_profile_name_def run_max_steps_def
      record_route_def record_skill_inject_def record_memory_inject_def audit_if_def no_meta_def session_world_def
      call_stream_def cut_world_def demo_world_def demo_chunk_def accum_apply_def apply_call_def new_accum_def merge_call_def fresh_call_def
      do_yield_def yield_ignored_def log_ao_def after_message_def accum_message_def
      persist_in_order storable_silent storable_assistant demo_storables
      persisted_Cons persisted_event_def event_to_message_def chat_of_row_def eval_nat_numeral Let_def)
    (simp add: stored_call_def)

lemma cut_client_leaves_calls:
  "\<exists>obs st' m. send_message demo_sess_env demo_engine cut_world ''t'' ''u'' ''s'' ''hi'' (demo_start_state 0) =
       (Some (SndAgent (AgYield ''broken pipe'')), obs, st') \<and>
     chat_log ''s'' (tables_of st') = [plain_message role_user ''hi'', m] \<and> cm_calls m \<noteq> []"
proof -
  obtain db where begins: "send_message demo_sess_env demo_engine cut_world ''t'' ''u'' ''s'' ''hi'' (demo_start_state 0) =
      run_session demo_sess_env demo_engine cut_world ''t'' ''u'' demo_session [] ''hi'' \<lparr>ss_db = db, ss_rest = 0\<rparr>"
      "settled demo_db_env ''s'' ''t'' db" "chat_log ''s'' (db_tables db) = [plain_message role_user ''hi'']"
    using demo_send_begins by blast
  let ?st = "\<lparr>as_world = \<lparr>ss_db = db, ss_rest = 0\<rparr>, as_log = []\<rparr> :: nat sess_state agent_st"
  obtain ag where ran: "agent_run demo_engine (session_world demo_sess_env ''s'' ''t'' cut_world) root_ctx
      (session_input ''t'' ''u'' demo_session [plain_message role_user ''hi''] no_memories) ?st = (Some (AgYield ''broken pipe''), ag)"
      and ok: "list_all storable_event (events_of (as_log ag))"
      and calls: "map cm_calls (persisted (events_of (rev (as_log ag)))) =
        [[\<lparr>tc_index = 0, tc_id = ''c1'', tc_type = ''function'', tc_name = ''fs.read'', tc_args = ''{}''\<rparr>]]"
    using cut_session_run [of "\<lparr>ss_db = db, ss_rest = 0\<rparr>" "[plain_message role_user ''hi'']" "[]"] begins(2)
    by (auto simp: in_order_def demo_session_sel)
  have "session_log.keeps demo_sess_env ''s'' ''t'' [plain_message role_user ''hi''] ?st"
    using begins(2,3) by (simp add: session_log.keeps_def logged_def tables_of_def demo_sdb)
  from session_log.agent_run_keeps [OF this ran]
  have "chat_log ''s'' (tables_of (as_world ag)) = [plain_message role_user ''hi''] @ persisted (events_of (rev (as_log ag)))"
    using demo_sess_calm ok by (simp add: session_log.keeps_def logged_def demo_sdb)
  moreover obtain m where "persisted (events_of (rev (as_log ag))) = [m]" "cm_calls m \<noteq> []"
    using calls by (auto simp: map_eq_Cons_conv)
  ultimately show ?thesis
    by (simp add: begins(1) demo_run_session ran)
qed

end
