(* ===== verification/RefJobs.thy ===== *)
theory RefJobs
  imports SessStore Skills
begin

text \<open>
  The durable queue of reflection jobs, \<open>src/internal/reflection/job_repo.go\<close> and \<open>worker.go\<close>: the
  table with its statements, one worker, and several workers on one table whose statements
  interleave and which may be killed at any point.
\<close>

section \<open>The table of jobs\<close>

definition job_pending :: string where "job_pending = ''pending''"
definition job_processing :: string where "job_processing = ''processing''"
definition job_completed :: string where "job_completed = ''completed''"
definition job_failed :: string where "job_failed = ''failed''"

lemmas job_status_defs = job_pending_def job_processing_def job_completed_def job_failed_def

lemma job_status_distinct [simp]:
  "job_pending \<noteq> job_processing" "job_pending \<noteq> job_completed" "job_pending \<noteq> job_failed"
  "job_processing \<noteq> job_pending" "job_processing \<noteq> job_completed" "job_processing \<noteq> job_failed"
  "job_completed \<noteq> job_pending" "job_completed \<noteq> job_processing" "job_completed \<noteq> job_failed"
  "job_failed \<noteq> job_pending" "job_failed \<noteq> job_processing" "job_failed \<noteq> job_completed"
  by (simp_all add: job_status_defs)

record job_row =
  jr_id :: dbid
  jr_tenant :: dbid
  jr_user :: dbid
  jr_session :: dbid
  jr_status :: string
  jr_attempts :: int
  jr_max :: int
  jr_next :: int
  jr_error :: "string option"

datatype job_err = JeNotFound | JeDb string

fun job_err_text :: "job_err \<Rightarrow> string" where
  "job_err_text JeNotFound = ''reflection: job not found''"
| "job_err_text (JeDb e) = e"

type_synonym job_db = "job_row list db"
type_synonym 'a job_act = "(job_err, 'a, job_db) act"

definition job_exec :: "db_env \<Rightarrow> string \<Rightarrow> (nat \<Rightarrow> (job_err, 'a, job_row list) act) \<Rightarrow> 'a job_act" where
  "job_exec env what = exec env (\<lambda>e. JeDb (what @ '': '' @ e))"

text \<open>\<open>UPDATE ... WHERE id=$1\<close> and a condition, counting the rows.\<close>

definition set_job :: "dbid \<Rightarrow> (job_row \<Rightarrow> bool) \<Rightarrow> (job_row \<Rightarrow> job_row) \<Rightarrow> (job_err, unit, job_row list) act" where
  "set_job i P f rows =
     (if list_ex (\<lambda>r. jr_id r = i \<and> P r) rows then Inr () else Inl JeNotFound,
      map (\<lambda>r. if jr_id r = i \<and> P r then f r else r) rows)"

definition job_enqueue :: "db_env \<Rightarrow> dbid \<Rightarrow> dbid \<Rightarrow> dbid \<Rightarrow> int \<Rightarrow> (dbid \<times> bool) job_act" where
  "job_enqueue env tenant user sid cap =
     job_exec env ''enqueue reflection job'' (\<lambda>n rows.
       if sid \<in> jr_session ` set rows then (Inr (nil_uuid, False), rows)
       else if de_uuid env n \<in> jr_id ` set rows
       then (Inl (JeDb ''enqueue reflection job: duplicate key value violates unique constraint''), rows)
       else (Inr (de_uuid env n, True),
         rows @ [\<lparr>jr_id = de_uuid env n, jr_tenant = tenant, jr_user = user, jr_session = sid, jr_status = job_pending,
           jr_attempts = 0, jr_max = (if cap \<le> 0 then 3 else cap), jr_next = de_now env n, jr_error = None\<rparr>]))"

definition job_due :: "int \<Rightarrow> job_row \<Rightarrow> bool" where
  "job_due now r \<longleftrightarrow> jr_status r = job_pending \<and> jr_next r \<le> now \<and> jr_attempts r < jr_max r"

definition list_due :: "db_env \<Rightarrow> int \<Rightarrow> job_row list job_act" where
  "list_due env limit =
     job_exec env ''list due reflection jobs'' (\<lambda>n rows.
       (Inr (take (nat (if limit \<le> 0 \<or> limit > 64 then 32 else limit)) (sort_key jr_next (filter (job_due (de_now env n)) rows))), rows))"

definition mark_processing :: "db_env \<Rightarrow> dbid \<Rightarrow> unit job_act" where
  "mark_processing env i =
     job_exec env ''mark processing'' (\<lambda>_. set_job i (\<lambda>r. jr_status r = job_pending) (\<lambda>r. r\<lparr>jr_status := job_processing\<rparr>))"

definition to_completed :: "job_row \<Rightarrow> job_row" where
  "to_completed r = r\<lparr>jr_status := job_completed, jr_error := None\<rparr>"

definition mark_completed :: "db_env \<Rightarrow> dbid \<Rightarrow> unit job_act" where
  "mark_completed env i =
     job_exec env ''mark completed'' (\<lambda>_. set_job i (\<lambda>_. True) to_completed)"

text \<open>\<open>time.Duration(float64(base) * 2^shift)\<close> on amd64, where what does not fit becomes the least integer.\<close>

definition float_nanos :: "int \<Rightarrow> nat \<Rightarrow> int" where
  "float_nanos base shift =
     (case f64_of_int base of
        FFin neg m e \<Rightarrow>
          (let k = e + int shift; v = (if k \<ge> 0 then m * 2 ^ nat k else m div 2 ^ nat (- k)); s = (if neg then - int v else int v)
           in if - (2 ^ 63) \<le> s \<and> s < 2 ^ 63 then s else - (2 ^ 63))
      | _ \<Rightarrow> - (2 ^ 63))"

definition one_minute :: int where "one_minute = 60 * 10 ^ 9"
definition one_hour :: int where "one_hour = 3600 * 10 ^ 9"

definition retry_delay :: "int \<Rightarrow> int \<Rightarrow> int" where
  "retry_delay base attempts = min one_hour (float_nanos base (nat (if attempts - 1 > 10 then 10 else attempts - 1)))"

definition load_attempts :: "db_env \<Rightarrow> dbid \<Rightarrow> (int \<times> int) job_act" where
  "load_attempts env i =
     job_exec env ''load job for failure'' (\<lambda>_ rows.
       (case find (\<lambda>r. jr_id r = i) rows of None \<Rightarrow> Inl JeNotFound | Some r \<Rightarrow> Inr (jr_attempts r, jr_max r), rows))"

text \<open>The row after a failure, at the given statement.\<close>

definition failed_with :: "db_env \<Rightarrow> nat \<Rightarrow> string \<Rightarrow> int \<Rightarrow> int \<times> int \<Rightarrow> job_row \<Rightarrow> job_row" where
  "failed_with env n e base am r =
     (let attempts = fst am + 1; over = snd am \<le> attempts; now = de_now env n
      in r\<lparr>jr_status := (if over then job_failed else job_pending), jr_attempts := attempts,
           jr_next := (if over then now else now + retry_delay (if base \<le> 0 then one_minute else base) attempts),
           jr_error := Some (take 2000 e)\<rparr>)"

definition store_failure :: "db_env \<Rightarrow> dbid \<Rightarrow> string \<Rightarrow> int \<Rightarrow> int \<times> int \<Rightarrow> unit job_act" where
  "store_failure env i e base am =
     job_exec env ''mark failed'' (\<lambda>n rows.
       if \<not> pg_text (take 2000 e) then (Inl (JeDb ''mark failed: invalid byte sequence for encoding''), rows)
       else (Inr (), snd (set_job i (\<lambda>_. True) (failed_with env n e base am) rows)))"

definition mark_failed :: "db_env \<Rightarrow> dbid \<Rightarrow> string \<Rightarrow> int \<Rightarrow> unit job_act" where
  "mark_failed env i e base = and_then (load_attempts env i) (store_failure env i e base)"

section \<open>One worker\<close>

record ref_job =
  rj_id :: dbid
  rj_tenant :: dbid
  rj_user :: dbid
  rj_session :: dbid

record worker_opts =
  wo_store :: bool
  wo_buffer :: nat
  wo_max_attempts :: int
  wo_retry_base :: int
  wo_ttl_days :: int

definition new_worker :: "bool \<Rightarrow> int \<Rightarrow> int \<Rightarrow> int \<Rightarrow> int \<Rightarrow> worker_opts" where
  "new_worker store buffer cap base ttl =
     \<lparr>wo_store = store, wo_buffer = nat (if buffer \<le> 0 then 256 else buffer), wo_max_attempts = (if cap \<le> 0 then 3 else cap),
      wo_retry_base = (if base \<le> 0 then one_minute else base), wo_ttl_days = ttl\<rparr>"

text \<open>The channel of a worker: \<open>tryPush\<close> never blocks.\<close>

definition try_push :: "worker_opts \<Rightarrow> bool \<Rightarrow> ref_job \<Rightarrow> ref_job list \<Rightarrow> bool \<times> ref_job list" where
  "try_push opts closed j q = (if closed \<or> wo_buffer opts \<le> length q then (False, q) else (True, q @ [j]))"

record 'w worker_state =
  ws_db :: job_db
  ws_queue :: "ref_job list"
  ws_closed :: bool
  ws_rest :: 'w

definition worker_enqueue :: "db_env \<Rightarrow> worker_opts \<Rightarrow> dbid \<Rightarrow> dbid \<Rightarrow> dbid \<Rightarrow> 'w worker_state \<Rightarrow> bool \<times> 'w worker_state" where
  "worker_enqueue env opts tenant user sid st =
     (let push = (\<lambda>i st1. let (ok, q) = try_push opts (ws_closed st1) \<lparr>rj_id = i, rj_tenant = tenant, rj_user = user, rj_session = sid\<rparr> (ws_queue st1)
                  in (ok \<or> wo_store opts, st1\<lparr>ws_queue := q\<rparr>))
      in if wo_store opts then
           (case job_enqueue env tenant user sid (wo_max_attempts opts) (ws_db st) of
              (Inl e, db) \<Rightarrow> (False, st\<lparr>ws_db := db\<rparr>)
            | (Inr (i, created), db) \<Rightarrow> if created then push i (st\<lparr>ws_db := db\<rparr>) else (True, st\<lparr>ws_db := db\<rparr>))
         else push nil_uuid st)"

definition job_of_row :: "job_row \<Rightarrow> ref_job" where
  "job_of_row r = \<lparr>rj_id = jr_id r, rj_tenant = jr_tenant r, rj_user = jr_user r, rj_session = jr_session r\<rparr>"

fun push_all :: "worker_opts \<Rightarrow> bool \<Rightarrow> ref_job list \<Rightarrow> ref_job list \<Rightarrow> ref_job list" where
  "push_all opts closed [] q = q"
| "push_all opts closed (j # js) q = (case try_push opts closed j q of (True, q') \<Rightarrow> push_all opts closed js q' | (False, q') \<Rightarrow> q')"

definition poll_due :: "db_env \<Rightarrow> worker_opts \<Rightarrow> 'w worker_state \<Rightarrow> 'w worker_state" where
  "poll_due env opts st =
     (if \<not> wo_store opts then st
      else case list_due env 32 (ws_db st) of
          (Inl e, db) \<Rightarrow> st\<lparr>ws_db := db\<rparr>
        | (Inr rows, db) \<Rightarrow> st\<lparr>ws_db := db, ws_queue := push_all opts (ws_closed st) (map job_of_row rows) (ws_queue st)\<rparr>)"

text \<open>One job; the processor answers with an error or none and changes the rest of the world.\<close>

type_synonym 'w processor = "ref_job \<Rightarrow> 'w \<Rightarrow> string option \<times> 'w"

definition worker_handle :: "db_env \<Rightarrow> worker_opts \<Rightarrow> 'w processor \<Rightarrow> ref_job \<Rightarrow> 'w worker_state \<Rightarrow> 'w worker_state" where
  "worker_handle env opts proc j st =
     (let durable = (wo_store opts \<and> rj_id j \<noteq> nil_uuid);
          (claimed, st1) = (if durable then (case mark_processing env (rj_id j) (ws_db st) of (r, db) \<Rightarrow> (r, st\<lparr>ws_db := db\<rparr>)) else (Inr (), st))
      in case claimed of
           Inl e \<Rightarrow> st1
         | Inr _ \<Rightarrow>
             (case proc j (ws_rest st1) of
                (Some err, w) \<Rightarrow>
                  (let st2 = st1\<lparr>ws_rest := w\<rparr>
                   in if durable then st2\<lparr>ws_db := snd (mark_failed env (rj_id j) err (wo_retry_base opts) (ws_db st2))\<rparr> else st2)
              | (None, w) \<Rightarrow>
                  (let st2 = st1\<lparr>ws_rest := w\<rparr>
                   in if durable then st2\<lparr>ws_db := snd (mark_completed env (rj_id j) (ws_db st2))\<rparr> else st2)))"

text \<open>\<open>shutdown\<close>: what is queued is still handled.\<close>

definition worker_shutdown :: "db_env \<Rightarrow> worker_opts \<Rightarrow> 'w processor \<Rightarrow> 'w worker_state \<Rightarrow> 'w worker_state" where
  "worker_shutdown env opts proc st = (fold (worker_handle env opts proc) (ws_queue st) st)\<lparr>ws_queue := []\<rparr>"

end
