(* ===== verification/RefQueue.thy ===== *)
theory RefQueue
  imports RefJobs
begin

text \<open>
  Several workers on one table of jobs: each statement, each send on a channel and each step of a
  worker's loop is one step, in any order; a worker may be stopped or killed at any point.
\<close>

section \<open>The machine\<close>

datatype phase =
    PhIdle
  | PhPush "ref_job list"
  | PhStart ref_job
  | PhRun ref_job
  | PhFail ref_job string
  | PhRetry ref_job string "int \<times> int"
  | PhDone ref_job
  | PhStopped

record worker =
  wk_queue :: "ref_job list"
  wk_phase :: phase
  wk_closed :: bool
  wk_draining :: bool

definition fresh_worker :: worker where
  "fresh_worker = \<lparr>wk_queue = [], wk_phase = PhIdle, wk_closed = False, wk_draining = False\<rparr>"

text \<open>What a step shows: the start of a run of a job, its outcome, a kill, or nothing.\<close>

datatype label = LQuiet | LStart dbid | LRan "string option" | LCrash

inductive worker_step ::
  "db_env \<Rightarrow> worker_opts \<Rightarrow> job_db \<times> worker \<Rightarrow> label \<Rightarrow> job_db \<times> worker \<Rightarrow> bool" for env opts where
  poll: "wk_phase w = PhIdle \<Longrightarrow> \<not> wk_draining w \<Longrightarrow> list_due env 32 db = (r, db') \<Longrightarrow>
    worker_step env opts (db, w) LQuiet
      (db', w\<lparr>wk_phase := (case r of Inl e \<Rightarrow> PhIdle | Inr rows \<Rightarrow> PhPush (map job_of_row rows))\<rparr>)"
| offer: "wk_phase w = PhPush (j # js) \<Longrightarrow> try_push opts (wk_closed w) j (wk_queue w) = (ok, q) \<Longrightarrow>
    worker_step env opts (db, w) LQuiet (db, w\<lparr>wk_queue := q, wk_phase := (if ok then PhPush js else PhIdle)\<rparr>)"
| offered: "wk_phase w = PhPush [] \<Longrightarrow> worker_step env opts (db, w) LQuiet (db, w\<lparr>wk_phase := PhIdle\<rparr>)"
| take_job: "wk_phase w = PhIdle \<Longrightarrow> wk_queue w = j # q \<Longrightarrow>
    worker_step env opts (db, w) LQuiet (db, w\<lparr>wk_queue := q, wk_phase := PhStart j\<rparr>)"
| start_volatile: "wk_phase w = PhStart j \<Longrightarrow> rj_id j = nil_uuid \<Longrightarrow>
    worker_step env opts (db, w) (LStart nil_uuid) (db, w\<lparr>wk_phase := PhRun j\<rparr>)"
| start: "wk_phase w = PhStart j \<Longrightarrow> rj_id j \<noteq> nil_uuid \<Longrightarrow> mark_processing env (rj_id j) db = (Inr (), db') \<Longrightarrow>
    worker_step env opts (db, w) (LStart (rj_id j)) (db', w\<lparr>wk_phase := PhRun j\<rparr>)"
| start_refused: "wk_phase w = PhStart j \<Longrightarrow> rj_id j \<noteq> nil_uuid \<Longrightarrow> mark_processing env (rj_id j) db = (Inl e, db') \<Longrightarrow>
    worker_step env opts (db, w) LQuiet (db', w\<lparr>wk_phase := PhIdle\<rparr>)"
| run: "wk_phase w = PhRun j \<Longrightarrow>
    worker_step env opts (db, w) (LRan r)
      (db, w\<lparr>wk_phase := (if rj_id j = nil_uuid then PhIdle else case r of None \<Rightarrow> PhDone j | Some e \<Rightarrow> PhFail j e)\<rparr>)"
| load: "wk_phase w = PhFail j e \<Longrightarrow> load_attempts env (rj_id j) db = (r, db') \<Longrightarrow>
    worker_step env opts (db, w) LQuiet (db', w\<lparr>wk_phase := (case r of Inl _ \<Rightarrow> PhIdle | Inr am \<Rightarrow> PhRetry j e am)\<rparr>)"
| store: "wk_phase w = PhRetry j e am \<Longrightarrow> store_failure env (rj_id j) e (wo_retry_base opts) am db = (r, db') \<Longrightarrow>
    worker_step env opts (db, w) LQuiet (db', w\<lparr>wk_phase := PhIdle\<rparr>)"
| complete: "wk_phase w = PhDone j \<Longrightarrow> mark_completed env (rj_id j) db = (r, db') \<Longrightarrow>
    worker_step env opts (db, w) LQuiet (db', w\<lparr>wk_phase := PhIdle\<rparr>)"
| stop: "worker_step env opts (db, w) LQuiet (db, w\<lparr>wk_closed := True\<rparr>)"
| drain: "wk_phase w = PhIdle \<Longrightarrow> worker_step env opts (db, w) LQuiet (db, w\<lparr>wk_draining := True\<rparr>)"
| finish: "wk_phase w = PhIdle \<Longrightarrow> wk_draining w \<Longrightarrow> wk_queue w = [] \<Longrightarrow>
    worker_step env opts (db, w) LQuiet (db, w\<lparr>wk_phase := PhStopped\<rparr>)"

inductive_cases worker_stepE: "worker_step env opts (db, w) l (db', w')"

lemmas worker_step_rule = worker_stepE [consumes 1, case_names poll offer offered take_job start_volatile start start_refused
  run load store complete stop drain finish]

text \<open>The cluster: the workers, the jobs between the insert and the send of \<open>Enqueue\<close>, and the runs so far.\<close>

record cluster =
  cl_db :: job_db
  cl_workers :: "worker list"
  cl_hand :: "(nat \<times> ref_job) list"
  cl_runs :: "dbid list"

abbreviation rows_of :: "cluster \<Rightarrow> job_row list" where
  "rows_of c \<equiv> db_tables (cl_db c)"

definition note_start :: "label \<Rightarrow> dbid list \<Rightarrow> dbid list" where
  "note_start l rs = (case l of LStart i \<Rightarrow> i # rs | _ \<Rightarrow> rs)"

lemma note_start_simps [simp]:
  "note_start (LStart i) = Cons i" "note_start LQuiet = (\<lambda>rs. rs)" "note_start (LRan r) = (\<lambda>rs. rs)" "note_start LCrash = (\<lambda>rs. rs)"
  by (simp_all add: note_start_def fun_eq_iff)

inductive cluster_step :: "db_env \<Rightarrow> worker_opts \<Rightarrow> cluster \<Rightarrow> label \<Rightarrow> cluster \<Rightarrow> bool" for env opts where
  work: "k < length (cl_workers c) \<Longrightarrow> worker_step env opts (cl_db c, cl_workers c ! k) l (db', w') \<Longrightarrow>
    cluster_step env opts c l
      (c\<lparr>cl_db := db', cl_workers := (cl_workers c)[k := w'], cl_runs := note_start l (cl_runs c)\<rparr>)"
| archive: "k < length (cl_workers c) \<Longrightarrow> job_enqueue env t u sid (wo_max_attempts opts) (cl_db c) = (r, db') \<Longrightarrow>
    cluster_step env opts c LQuiet
      (c\<lparr>cl_db := db',
         cl_hand := (case r of Inr (i, True) \<Rightarrow> (k, \<lparr>rj_id = i, rj_tenant = t, rj_user = u, rj_session = sid\<rparr>) # cl_hand c
                     | _ \<Rightarrow> cl_hand c)\<rparr>)"
| push: "cl_hand c = as @ (k, j) # bs \<Longrightarrow> k < length (cl_workers c) \<Longrightarrow> w = cl_workers c ! k \<Longrightarrow>
    try_push opts (wk_closed w) j (wk_queue w) = (ok, q) \<Longrightarrow>
    cluster_step env opts c LQuiet (c\<lparr>cl_workers := (cl_workers c)[k := w\<lparr>wk_queue := q\<rparr>], cl_hand := as @ bs\<rparr>)"
| crash: "k < length (cl_workers c) \<Longrightarrow>
    cluster_step env opts c LCrash
      (c\<lparr>cl_workers := (cl_workers c)[k := fresh_worker], cl_hand := filter (\<lambda>h. fst h \<noteq> k) (cl_hand c)\<rparr>)"

text \<open>What is reached by steps with labels of a kind.\<close>

definition cluster_runs :: "db_env \<Rightarrow> worker_opts \<Rightarrow> (label \<Rightarrow> bool) \<Rightarrow> cluster \<Rightarrow> cluster \<Rightarrow> bool" where
  "cluster_runs env opts P = (\<lambda>c c'. \<exists>l. P l \<and> cluster_step env opts c l c')\<^sup>*\<^sup>*"

definition first_cluster :: "nat \<Rightarrow> cluster" where
  "first_cluster n = \<lparr>cl_db = \<lparr>db_tables = [], db_clock = 0\<rparr>, cl_workers = replicate n fresh_worker, cl_hand = [], cl_runs = []\<rparr>"

section \<open>What the statements do\<close>

lemma job_exec_result:
  assumes "job_exec env what run db = (r, db')"
  shows "r = fst (run (db_clock db) (db_tables db)) \<and> db_tables db' = snd (run (db_clock db) (db_tables db)) \<or>
    \<not> calm env \<and> (\<exists>e. r = Inl e) \<and>
      (db_tables db' = snd (run (db_clock db) (db_tables db)) \<or> db_tables db' = db_tables db)"
  using assms unfolding job_exec_def
  by (cases rule: exec_cases [of run db env "\<lambda>e. JeDb (what @ '': '' @ e)"]) (auto simp: calm_def)

definition the_job :: "job_row list \<Rightarrow> dbid \<Rightarrow> job_row \<Rightarrow> bool" where
  "the_job rows i r \<longleftrightarrow> r \<in> set rows \<and> jr_id r = i"

text \<open>The rows of a job rewritten, the others as they were.\<close>

definition rewritten :: "dbid \<Rightarrow> (job_row \<Rightarrow> job_row) \<Rightarrow> job_row list \<Rightarrow> job_row list \<Rightarrow> bool" where
  "rewritten i f rows rows' \<longleftrightarrow> rows' = map (\<lambda>r. if jr_id r = i then f r else r) rows \<and> (\<forall>r. jr_id (f r) = jr_id r)"

lemma rewritten_ids: "rewritten i f rows rows' \<Longrightarrow> map jr_id rows' = map jr_id rows"
  by (simp add: rewritten_def)

lemma rewritten_in:
  assumes "rewritten i f rows rows'" "r' \<in> set rows'"
  obtains r where "r \<in> set rows" "jr_id r' = jr_id r" "r' = (if jr_id r = i then f r else r)"
  using assms by (auto simp: rewritten_def)

lemma rewritten_job:
  assumes "rewritten i f rows rows'" "the_job rows k r"
  shows "the_job rows' k (if k = i then f r else r)"
  using assms by (auto simp: rewritten_def the_job_def)

lemma the_job_unique: "distinct (map jr_id rows) \<Longrightarrow> the_job rows i r \<Longrightarrow> the_job rows i r' \<Longrightarrow> r' = r"
  by (auto simp: the_job_def distinct_map dest: inj_onD)

lemma the_job_find: "distinct (map jr_id rows) \<Longrightarrow> the_job rows i r \<Longrightarrow> find (\<lambda>r. jr_id r = i) rows = Some r"
  by (induction rows) (auto simp: the_job_def)

lemma the_job_iff_id: "i \<in> jr_id ` set rows \<longleftrightarrow> (\<exists>r. the_job rows i r)"
  by (auto simp: the_job_def)

definition to_processing :: "job_row \<Rightarrow> job_row" where
  "to_processing r = (if jr_status r = job_pending then r\<lparr>jr_status := job_processing\<rparr> else r)"

lemma set_job_rewritten:
  "(\<And>r. jr_id (f r) = jr_id r) \<Longrightarrow> rewritten i f rows (snd (set_job i (\<lambda>_. True) f rows))"
  by (simp add: rewritten_def set_job_def)

lemma same_job_id [simp]: "jr_id (failed_with env n e base am r) = jr_id r" "jr_id (to_completed r) = jr_id r"
  by (simp_all add: failed_with_def Let_def to_completed_def)

lemma mark_processing_cases:
  assumes "mark_processing env i db = (r, db')"
  obtains (claimed) s where "r = Inr ()" "the_job (db_tables db) i s" "jr_status s = job_pending"
      "rewritten i to_processing (db_tables db) (db_tables db')"
  | (written) e s where "r = Inl e" "the_job (db_tables db) i s" "jr_status s = job_pending"
      "rewritten i to_processing (db_tables db) (db_tables db')" "\<not> calm env"
  | (kept) e where "r = Inl e" "db_tables db' = db_tables db"
proof -
  let ?hit = "\<lambda>r. jr_id r = i \<and> jr_status r = job_pending"
  let ?rows = "map (\<lambda>r. if ?hit r then r\<lparr>jr_status := job_processing\<rparr> else r) (db_tables db)"
  have eq: "rewritten i to_processing (db_tables db) ?rows"
    by (auto simp: rewritten_def to_processing_def)
  have none: "?rows = db_tables db" if "\<not> list_ex ?hit (db_tables db)"
    using that by (auto simp: list_ex_iff intro!: map_idI)
  from job_exec_result [OF assms [unfolded mark_processing_def], unfolded set_job_def]
  consider "list_ex ?hit (db_tables db)" "r = Inr ()" "db_tables db' = ?rows"
    | "\<not> list_ex ?hit (db_tables db)" "r = Inl JeNotFound" "db_tables db' = ?rows"
    | e where "\<not> calm env" "r = Inl e" "db_tables db' = ?rows" | e where "r = Inl e" "db_tables db' = db_tables db"
    by (auto split: if_splits)
  then show thesis
  proof cases
    case 1
    then show thesis
      using claimed eq by (auto simp: list_ex_iff the_job_def)
  next
    case 2
    then show thesis
      using kept none by simp
  next
    case 3
    then show thesis
      using written eq kept none by (cases "list_ex ?hit (db_tables db)") (auto simp: list_ex_iff the_job_def)
  next
    case 4
    then show thesis
      using kept by simp
  qed
qed

lemma store_failure_cases:
  assumes "store_failure env i e base am db = (r, db')"
  obtains (stored) "rewritten i (failed_with env (db_clock db) e base am) (db_tables db) (db_tables db')" "pg_text (take 2000 e)"
  | (kept) "db_tables db' = db_tables db" "\<not> calm env \<or> \<not> pg_text (take 2000 e)"
  using job_exec_result [OF assms [unfolded store_failure_def]] set_job_rewritten [of "failed_with env (db_clock db) e base am"] stored kept
  by (auto split: if_splits)

lemma mark_completed_cases:
  assumes "mark_completed env i db = (r, db')"
  obtains (stored) "rewritten i to_completed (db_tables db) (db_tables db')"
  | (kept) "db_tables db' = db_tables db" "\<not> calm env"
  using job_exec_result [OF assms [unfolded mark_completed_def]] set_job_rewritten [of to_completed] stored kept by auto

lemma load_attempts_cases:
  assumes "load_attempts env i db = (r, db')"
  obtains (loaded) s where "r = Inr (jr_attempts s, jr_max s)" "the_job (db_tables db) i s" "db_tables db' = db_tables db"
  | (failed) e where "r = Inl e" "db_tables db' = db_tables db" "\<not> calm env \<or> i \<notin> jr_id ` set (db_tables db)"
proof -
  from job_exec_result [OF assms [unfolded load_attempts_def]]
  have tables: "db_tables db' = db_tables db"
      "r = (case find (\<lambda>r. jr_id r = i) (db_tables db) of None \<Rightarrow> Inl JeNotFound | Some r \<Rightarrow> Inr (jr_attempts r, jr_max r)) \<or>
       \<not> calm env \<and> (\<exists>e. r = Inl e)"
    by auto
  show thesis
  proof (cases "find (\<lambda>r. jr_id r = i) (db_tables db)")
    case None
    then have "i \<notin> jr_id ` set (db_tables db)"
      by (auto simp: find_None_iff)
    then show thesis
      using tables None failed by auto
  next
    case (Some s)
    then have "the_job (db_tables db) i s"
      by (auto simp: find_Some_iff the_job_def)
    then show thesis
      using tables Some loaded failed by auto
  qed
qed

lemma list_due_rows:
  assumes "list_due env limit db = (r, db')"
  shows "db_tables db' = db_tables db" "r = Inr rows \<Longrightarrow> set rows \<subseteq> set (db_tables db)"
proof -
  from job_exec_result [OF assms [unfolded list_due_def]]
  show "db_tables db' = db_tables db" "r = Inr rows \<Longrightarrow> set rows \<subseteq> set (db_tables db)"
    by (auto dest!: in_set_takeD)
qed

lemma job_enqueue_cases:
  assumes "job_enqueue env t u sid cap db = (r, db')"
  obtains (added) row where "db_tables db' = db_tables db @ [row]" "jr_id row \<notin> jr_id ` set (db_tables db)"
      "jr_id row = de_uuid env (db_clock db)" "jr_status row = job_pending" "jr_attempts row = 0" "0 < jr_max row"
      "r = Inr (jr_id row, True) \<or> (\<exists>e. r = Inl e)" "jr_session row = sid" "sid \<notin> jr_session ` set (db_tables db)"
      "jr_max row = (if cap \<le> 0 then 3 else cap)"
  | (kept) "db_tables db' = db_tables db" "\<And>i. r \<noteq> Inr (i, True)"
proof -
  from job_exec_result [OF assms [unfolded job_enqueue_def]] show thesis
    using added kept by (auto simp: Let_def split: if_splits)
qed

section \<open>The steps of a worker\<close>

text \<open>The job a worker is at work on, with what it has read of the attempts; the jobs it knows; its error.\<close>

definition held :: "worker \<Rightarrow> (dbid \<times> (int \<times> int) option) option" where
  "held w = (case wk_phase w of
       PhRun j \<Rightarrow> Some (rj_id j, None) | PhFail j e \<Rightarrow> Some (rj_id j, None) | PhDone j \<Rightarrow> Some (rj_id j, None)
     | PhRetry j e am \<Rightarrow> Some (rj_id j, Some am) | _ \<Rightarrow> None)"

definition owner_of :: "worker \<Rightarrow> dbid option" where
  "owner_of w = map_option fst (held w)"

definition jobs_in :: "worker \<Rightarrow> ref_job set" where
  "jobs_in w = set (wk_queue w) \<union> (case wk_phase w of
       PhPush js \<Rightarrow> set js | PhStart j \<Rightarrow> {j} | PhRun j \<Rightarrow> {j} | PhFail j e \<Rightarrow> {j} | PhRetry j e am \<Rightarrow> {j} | PhDone j \<Rightarrow> {j}
     | _ \<Rightarrow> {})"

definition bad_error :: "worker \<Rightarrow> bool" where
  "bad_error w = (case wk_phase w of
       PhFail j e \<Rightarrow> \<not> pg_text (take 2000 e) | PhRetry j e am \<Rightarrow> \<not> pg_text (take 2000 e) | _ \<Rightarrow> False)"

lemmas worker_views = held_def owner_of_def jobs_in_def bad_error_def

lemma fresh_worker_views [simp]:
  "held fresh_worker = None" "owner_of fresh_worker = None" "jobs_in fresh_worker = {}" "\<not> bad_error fresh_worker"
  by (simp_all add: worker_views fresh_worker_def)

lemma queue_views [simp]:
  "held (w\<lparr>wk_queue := q\<rparr>) = held w" "owner_of (w\<lparr>wk_queue := q\<rparr>) = owner_of w" "bad_error (w\<lparr>wk_queue := q\<rparr>) = bad_error w"
  by (simp_all add: worker_views)

lemma try_push_set: "try_push opts closed j q = (ok, q') \<Longrightarrow> set q' \<subseteq> insert j (set q)"
  by (auto simp: try_push_def split: if_splits)

lemma worker_step_cases [consumes 2]:
  assumes "worker_step env opts (db, w) l (db', w')" "\<forall>j \<in> jobs_in w. rj_id j \<noteq> nil_uuid"
  obtains (aside) "db_tables db' = db_tables db" "note_start l = (\<lambda>rs. rs)"
      "\<And>i am. held w' = Some (i, Some am) \<Longrightarrow>
         held w = Some (i, Some am) \<or> (\<exists>s. the_job (db_tables db) i s \<and> am = (jr_attempts s, jr_max s))"
      "owner_of w' = owner_of w \<or> owner_of w' = None \<and> (\<not> calm env \<or> bad_error w \<or> (\<exists>i. owner_of w = Some i \<and> i \<notin> jr_id ` set (db_tables db)))"
  | (claim) i s where "l = LStart i" "owner_of w = None" "held w' = Some (i, None)" "the_job (db_tables db) i s"
      "jr_status s = job_pending" "rewritten i to_processing (db_tables db) (db_tables db')"
  | (half) i s where "note_start l = (\<lambda>rs. rs)" "owner_of w = None" "held w' = None" "owner_of w' = None" "\<not> calm env"
      "the_job (db_tables db) i s" "jr_status s = job_pending"
      "rewritten i to_processing (db_tables db) (db_tables db')"
  | (settle) i f where "note_start l = (\<lambda>rs. rs)" "owner_of w = Some i" "held w' = None" "owner_of w' = None"
      "rewritten i f (db_tables db) (db_tables db')"
      "f = to_completed \<or> (\<exists>n e base am. f = failed_with env n e base am \<and> held w = Some (i, Some am))"
  using assms(1)
proof (cases rule: worker_step_rule)
  case (poll r)
  then show thesis
    using list_due_rows(1) [OF poll(5)] by (intro aside) (auto simp: worker_views split: sum.splits)
next
  case (start j)
  show thesis
    using start(5)
  proof (cases rule: mark_processing_cases)
    case (claimed s)
    then show thesis
      using start claim by (simp add: worker_views)
  qed simp_all
next
  case (start_refused j e)
  show thesis
    using start_refused(5)
  proof (cases rule: mark_processing_cases)
    case (written e' s)
    then show thesis
      using start_refused by (intro half [where s = s]) (simp_all add: worker_views)
  qed (use start_refused aside in \<open>simp_all add: worker_views\<close>)
next
  case (load j e r)
  show thesis
    using load(4)
  proof (cases rule: load_attempts_cases)
    case (loaded s)
    then show thesis
      using load by (intro aside) (auto simp: worker_views)
  next
    case (failed e')
    then show thesis
      using load by (intro aside) (auto simp: worker_views)
  qed
next
  case (store j e am r)
  show thesis
    using store(4)
  proof (cases rule: store_failure_cases)
    case stored
    then have "\<exists>n e' base am'. failed_with env (db_clock db) e (wo_retry_base opts) am = failed_with env n e' base am' \<and>
        held w = Some (rj_id j, Some am')"
      using store by (auto simp: held_def simp del: split_paired_Ex)
    then show thesis
      using store by (intro settle [OF _ _ _ _ stored(1)]) (simp_all add: worker_views)
  next
    case kept
    then show thesis
      using store by (intro aside) (auto simp: worker_views)
  qed
next
  case (complete j r)
  show thesis
    using complete(4)
  proof (cases rule: mark_completed_cases)
    case stored
    then show thesis
      using complete by (intro settle [OF _ _ _ _ stored]) (auto simp: worker_views)
  next
    case kept
    then show thesis
      using complete by (intro aside) (auto simp: worker_views)
  qed
next
  case (run j r)
  then show thesis
    using assms(2) by (intro aside) (auto simp: worker_views split: option.splits)
next
  case (start_volatile j)
  then show thesis
    using assms(2) by (auto simp: worker_views)
next
  case (offer j js ok q)
  then show thesis
    by (cases ok) (auto intro!: aside simp: worker_views)
qed (auto intro!: aside simp: worker_views)

lemma worker_step_jobs:
  assumes "worker_step env opts (db, w) l (db', w')"
  shows "rj_id ` jobs_in w' \<subseteq> rj_id ` jobs_in w \<union> jr_id ` set (db_tables db)"
  using assms
proof (cases rule: worker_step_rule)
  case (poll r)
  then show ?thesis
    using list_due_rows(2) [OF poll(5)] by (cases r) (auto simp: jobs_in_def job_of_row_def image_iff)
next
  case (offer j js ok q)
  then show ?thesis
    by (auto simp: jobs_in_def dest!: try_push_set split: if_splits)
next
  case (run j r)
  then show ?thesis
    by (auto simp: jobs_in_def split: option.splits if_splits)
next
  case (load j e r)
  then show ?thesis
    by (auto simp: jobs_in_def split: sum.splits)
qed (auto simp: jobs_in_def)

section \<open>The invariant\<close>

text \<open>Each run of a job is paid for by an attempt, or by the one under way or the last one.\<close>

definition job_ok :: "dbid list \<Rightarrow> job_row \<Rightarrow> bool" where
  "job_ok runs r \<longleftrightarrow> jr_id r \<noteq> nil_uuid \<and> 0 \<le> jr_attempts r \<and>
     jr_status r \<in> {job_pending, job_processing, job_completed, job_failed} \<and> (jr_status r = job_failed \<longrightarrow> jr_max r \<le> jr_attempts r) \<and>
     jr_attempts r + (if jr_status r = job_failed then 0 else 1) \<le> jr_max r \<and>
     int (count_list runs (jr_id r)) \<le> jr_attempts r + (if jr_status r = job_pending \<or> jr_status r = job_failed then 0 else 1)"

lemma job_ok_bound: "job_ok runs r \<Longrightarrow> int (count_list runs (jr_id r)) \<le> jr_max r"
  by (auto simp: job_ok_def split: if_splits)

lemma job_ok_claimed:
  assumes "job_ok runs r"
  shows "job_ok runs (to_processing r)" "jr_status r = job_pending \<Longrightarrow> job_ok (jr_id r # runs) (to_processing r)"
    "i \<noteq> jr_id r \<Longrightarrow> job_ok (i # runs) r"
  using assms by (auto simp: job_ok_def to_processing_def)

lemma job_ok_settled:
  assumes "job_ok runs r" "jr_status r = job_processing"
  shows "job_ok runs (to_completed r)" "job_ok runs (failed_with env n e base (jr_attempts r, jr_max r) r)"
  using assms by (auto simp: job_ok_def to_completed_def failed_with_def Let_def split: if_splits)

definition rows_inv :: "dbid list \<Rightarrow> job_row list \<Rightarrow> bool" where
  "rows_inv runs rows \<longleftrightarrow> distinct (map jr_id rows) \<and> list_all (job_ok runs) rows \<and> set runs \<subseteq> jr_id ` set rows"

definition worker_inv :: "job_row list \<Rightarrow> worker \<Rightarrow> bool" where
  "worker_inv rows w \<longleftrightarrow> rj_id ` jobs_in w \<subseteq> jr_id ` set rows \<and>
     (\<forall>i am. held w = Some (i, am) \<longrightarrow>
        (\<exists>r. the_job rows i r \<and> jr_status r = job_processing \<and> (am = None \<or> am = Some (jr_attempts r, jr_max r))))"

text \<open>No two workers are at work on one job.\<close>

definition alone :: "worker list \<Rightarrow> bool" where
  "alone ws \<longleftrightarrow> (\<forall>k m i. k < length ws \<longrightarrow> m < length ws \<longrightarrow> owner_of (ws ! k) = Some i \<longrightarrow> owner_of (ws ! m) = Some i \<longrightarrow> k = m)"

definition cluster_inv :: "cluster \<Rightarrow> bool" where
  "cluster_inv c \<longleftrightarrow> rows_inv (cl_runs c) (rows_of c) \<and> list_all (worker_inv (rows_of c)) (cl_workers c) \<and>
     rj_id ` snd ` set (cl_hand c) \<subseteq> jr_id ` set (rows_of c) \<and> alone (cl_workers c)"

lemma first_cluster_inv: "cluster_inv (first_cluster n)"
  by (auto simp: cluster_inv_def first_cluster_def rows_inv_def worker_inv_def alone_def list_all_iff)

lemma owner_job:
  assumes "worker_inv rows w" "owner_of w = Some i"
  obtains r where "the_job rows i r" "jr_status r = job_processing"
  using assms by (auto simp: worker_inv_def owner_of_def)

lemma worker_inv_rewritten:
  assumes "worker_inv rows w" "rewritten i f rows rows'" "owner_of w \<noteq> Some i"
  shows "worker_inv rows' w"
proof -
  have ids: "jr_id ` set rows' = jr_id ` set rows"
    using rewritten_ids [OF assms(2)] by (metis set_map)
  have "\<exists>r. the_job rows' k r \<and> jr_status r = job_processing \<and> (am = None \<or> am = Some (jr_attempts r, jr_max r))"
    if held: "held w = Some (k, am)" for k am
  proof -
    have "k \<noteq> i"
      using held assms(3) by (auto simp: owner_of_def)
    then show ?thesis
      using assms(1) held rewritten_job [OF assms(2)] unfolding worker_inv_def by metis
  qed
  then show ?thesis
    using assms(1) ids by (simp add: worker_inv_def)
qed

lemma worker_inv_append:
  assumes "worker_inv rows w"
  shows "worker_inv (rows @ [r]) w"
  unfolding worker_inv_def
proof (intro conjI allI impI)
  show "rj_id ` jobs_in w \<subseteq> jr_id ` set (rows @ [r])"
    using assms by (auto simp: worker_inv_def)
next
  fix i am assume "held w = Some (i, am)"
  then obtain s where "the_job rows i s" "jr_status s = job_processing" "am = None \<or> am = Some (jr_attempts s, jr_max s)"
    using assms unfolding worker_inv_def by blast
  moreover from this have "the_job (rows @ [r]) i s"
    by (simp add: the_job_def)
  ultimately show "\<exists>s. the_job (rows @ [r]) i s \<and> jr_status s = job_processing \<and> (am = None \<or> am = Some (jr_attempts s, jr_max s))"
    by blast
qed

lemma alone_update:
  assumes "alone ws" "\<And>i m. owner_of w' = Some i \<Longrightarrow> m < length ws \<Longrightarrow> owner_of (ws ! m) = Some i \<Longrightarrow> m = k"
  shows "alone (ws[k := w'])"
  using assms unfolding alone_def by (metis length_list_update nth_list_update_eq nth_list_update_neq)

lemma rows_inv_rewritten:
  assumes "rows_inv runs rows" "rewritten i f rows rows'"
    and "\<And>r. the_job rows i r \<Longrightarrow> job_ok runs' (f r)" "\<And>r. job_ok runs r \<Longrightarrow> jr_id r \<noteq> i \<Longrightarrow> job_ok runs' r"
    and "set runs' \<subseteq> jr_id ` set rows"
  shows "rows_inv runs' rows'"
proof -
  have "jr_id ` set rows' = jr_id ` set rows"
    using rewritten_ids [OF assms(2)] by (metis set_map)
  moreover have "job_ok runs' r'" if "r' \<in> set rows'" for r'
    using assms(1,3,4) by (rule_tac rewritten_in [OF assms(2) that]) (auto simp: rows_inv_def list_all_iff the_job_def)
  ultimately show ?thesis
    using assms(1,5) rewritten_ids [OF assms(2)] by (simp add: rows_inv_def list_all_iff)
qed

end
