(* ===== verification/RefRuns.thy ===== *)
theory RefRuns
  imports RefQueue
begin

text \<open>
  What the workers of the reflection queue keep on every schedule: the invariant of the cluster, who
  works on a job, how often it runs, which jobs are lost and which are not.
\<close>

section \<open>The steps keep the invariant\<close>

lemma worker_inv_nil: "cluster_inv c \<Longrightarrow> w \<in> set (cl_workers c) \<Longrightarrow> \<forall>j \<in> jobs_in w. rj_id j \<noteq> nil_uuid"
proof
  fix j assume "cluster_inv c" "w \<in> set (cl_workers c)" "j \<in> jobs_in w"
  then have "worker_inv (rows_of c) w" "list_all (job_ok (cl_runs c)) (rows_of c)"
    by (simp_all add: cluster_inv_def rows_inv_def list_all_iff [of "worker_inv _"])
  then have "rj_id j \<in> jr_id ` set (rows_of c)" "list_all (job_ok (cl_runs c)) (rows_of c)"
    using \<open>j \<in> jobs_in w\<close> unfolding worker_inv_def by blast+
  then show "rj_id j \<noteq> nil_uuid"
    by (auto simp: list_all_iff job_ok_def)
qed

lemma unowned_pending:
  assumes "cluster_inv c" "the_job (rows_of c) i s" "jr_status s = job_pending" "w \<in> set (cl_workers c)"
  shows "owner_of w \<noteq> Some i"
proof
  assume own: "owner_of w = Some i"
  have inv: "worker_inv (rows_of c) w"
    using assms(1,4) by (simp add: cluster_inv_def list_all_iff)
  obtain r where "the_job (rows_of c) i r" "jr_status r = job_processing"
    using owner_job [OF inv own] .
  then show False
    using assms(1-3) the_job_unique [of "rows_of c" i s r] by (simp add: cluster_inv_def rows_inv_def)
qed

text \<open>Rows as they were, or one job rewritten: what has to hold of the worker that did it.\<close>

lemma cluster_inv_work:
  assumes inv: "cluster_inv c" and k: "k < length (cl_workers c)"
    and rows: "rows_inv runs rows'" and ids: "jr_id ` set rows' = jr_id ` set (rows_of c)"
    and jobs: "rj_id ` jobs_in w' \<subseteq> jr_id ` set (rows_of c)"
    and held: "\<And>i am. held w' = Some (i, am) \<Longrightarrow>
        \<exists>r. the_job rows' i r \<and> jr_status r = job_processing \<and> (am = None \<or> am = Some (jr_attempts r, jr_max r))"
    and others: "\<And>m. m < length (cl_workers c) \<Longrightarrow> m \<noteq> k \<Longrightarrow> worker_inv rows' (cl_workers c ! m)"
    and alone: "\<And>i m. owner_of w' = Some i \<Longrightarrow> m < length (cl_workers c) \<Longrightarrow> owner_of (cl_workers c ! m) = Some i \<Longrightarrow> m = k"
    and db: "db_tables db' = rows'"
  shows "cluster_inv (c\<lparr>cl_db := db', cl_workers := (cl_workers c)[k := w'], cl_runs := runs\<rparr>)"
proof -
  have w': "worker_inv rows' w'"
    using jobs held ids by (simp add: worker_inv_def)
  then have "worker_inv rows' ((cl_workers c)[k := w'] ! m)" if "m < length (cl_workers c)" for m
    using others [OF that] that by (cases "m = k") simp_all
  then have "list_all (worker_inv rows') ((cl_workers c)[k := w'])"
    by (simp add: list_all_length)
  moreover have "alone ((cl_workers c)[k := w'])"
    using alone_update inv alone by (simp add: cluster_inv_def)
  ultimately show ?thesis
    using inv rows ids db by (simp add: cluster_inv_def)
qed

lemma cluster_inv_worker_step:
  assumes inv: "cluster_inv c" and k: "k < length (cl_workers c)"
    and step: "worker_step env opts (cl_db c, cl_workers c ! k) l (db', w')"
  shows "cluster_inv (c\<lparr>cl_db := db', cl_workers := (cl_workers c)[k := w'], cl_runs := note_start l (cl_runs c)\<rparr>)"
proof -
  let ?w = "cl_workers c ! k" and ?rows = "rows_of c"
  have w: "worker_inv ?rows ?w" and rows: "rows_inv (cl_runs c) ?rows"
    and others: "m < length (cl_workers c) \<Longrightarrow> worker_inv ?rows (cl_workers c ! m)" for m
    using inv k by (simp_all add: cluster_inv_def list_all_length)
  have jobs: "rj_id ` jobs_in w' \<subseteq> jr_id ` set ?rows"
    using worker_step_jobs [OF step] w by (auto simp: worker_inv_def)
  have alone: "owner_of ?w = Some i \<Longrightarrow> m < length (cl_workers c) \<Longrightarrow> owner_of (cl_workers c ! m) = Some i \<Longrightarrow> m = k" for i m
    using inv k by (auto simp: cluster_inv_def alone_def)
  have ids: "jr_id ` set (db_tables db') = jr_id ` set ?rows" if "rewritten i f ?rows (db_tables db')" for i f
    using rewritten_ids [OF that] by (metis set_map)
  have unique: "the_job ?rows i r \<Longrightarrow> the_job ?rows i s \<Longrightarrow> s = r" for i r s
    using rows the_job_unique unfolding rows_inv_def by blast
  have ok: "the_job ?rows i r \<Longrightarrow> job_ok (cl_runs c) r" for i r
    using rows by (simp add: rows_inv_def list_all_iff the_job_def)
  have runs: "set (cl_runs c) \<subseteq> jr_id ` set ?rows"
    using rows by (simp add: rows_inv_def)
  have nil: "\<forall>j \<in> jobs_in ?w. rj_id j \<noteq> nil_uuid"
    using worker_inv_nil [OF inv nth_mem] k .
  from step nil show ?thesis
  proof (cases rule: worker_step_cases)
    case aside
    have held': "\<exists>r. the_job ?rows i r \<and> jr_status r = job_processing \<and> (am = None \<or> am = Some (jr_attempts r, jr_max r))"
      if held: "held w' = Some (i, am)" for i am
    proof -
      have own: "owner_of ?w = Some i"
        using aside(4) held by (auto simp: owner_of_def)
      from own obtain am0 where am0: "held ?w = Some (i, am0)"
        by (auto simp: owner_of_def)
      then obtain r where r: "the_job ?rows i r" "jr_status r = job_processing" "am0 = None \<or> am0 = Some (jr_attempts r, jr_max r)"
        using w unfolding worker_inv_def by blast
      moreover have "am = None \<or> am = Some (jr_attempts r, jr_max r)"
      proof (cases am)
        case (Some p)
        have "p = (jr_attempts r, jr_max r)"
          using aside(3) [OF held [unfolded Some]]
        proof
          assume "held ?w = Some (i, Some p)"
          then show ?thesis
            using r(3) am0 by simp
        next
          assume "\<exists>s. the_job ?rows i s \<and> p = (jr_attempts s, jr_max s)"
          then obtain s where "the_job ?rows i s" "p = (jr_attempts s, jr_max s)"
            by blast
          then show ?thesis
            using unique [OF r(1)] by simp
        qed
        then show ?thesis
          using Some by simp
      qed simp
      ultimately show ?thesis
        by blast
    qed
    have alone': "m = k" if "owner_of w' = Some i" "m < length (cl_workers c)" "owner_of (cl_workers c ! m) = Some i" for i m
    proof -
      have "owner_of ?w = Some i"
        using aside(4) that(1) by auto
      from alone [OF this that(2,3)] show ?thesis .
    qed
    show ?thesis
      using cluster_inv_work [OF inv k rows refl jobs held' others alone' aside(1)] by (simp add: aside(2))
  next
    case (claim i s)
    have no: "owner_of (cl_workers c ! m) \<noteq> Some i" if "m < length (cl_workers c)" for m
      using unowned_pending [OF inv claim(4,5)] that by simp
    have "job_ok (i # cl_runs c) (to_processing r)" if "the_job ?rows i r" for r
      using job_ok_claimed(2) [OF ok [OF that]] unique [OF claim(4) that] claim(5) that by (simp add: the_job_def)
    then have rows': "rows_inv (i # cl_runs c) (db_tables db')"
      using runs claim(4) by (intro rows_inv_rewritten [OF rows claim(6)]) (auto simp: job_ok_claimed(3) the_job_def)
    have "the_job (db_tables db') i (to_processing s)" "jr_status (to_processing s) = job_processing"
      using rewritten_job [OF claim(6,4)] claim(5) by (simp_all add: to_processing_def)
    then have held': "\<exists>r. the_job (db_tables db') k r \<and> jr_status r = job_processing \<and> (am = None \<or> am = Some (jr_attempts r, jr_max r))"
      if "held w' = Some (k, am)" for k am
      using that claim(3) by auto
    have others': "worker_inv (db_tables db') (cl_workers c ! m)" if "m < length (cl_workers c)" "m \<noteq> k" for m
      using worker_inv_rewritten [OF others claim(6) no] that by blast
    have alone': "owner_of w' = Some n \<Longrightarrow> m < length (cl_workers c) \<Longrightarrow> owner_of (cl_workers c ! m) = Some n \<Longrightarrow> m = k" for n m
      using no [of m] claim(3) by (simp add: owner_of_def)
    show ?thesis
      using cluster_inv_work [OF inv k rows' ids [OF claim(6)] jobs held' others' alone' refl] by (simp add: claim(1))
  next
    case (half i s)
    have no: "owner_of (cl_workers c ! m) \<noteq> Some i" if "m < length (cl_workers c)" for m
      using unowned_pending [OF inv half(6,7)] that by simp
    have rows': "rows_inv (cl_runs c) (db_tables db')"
      using ok job_ok_claimed(1) runs by (intro rows_inv_rewritten [OF rows half(8)]) auto
    have others': "worker_inv (db_tables db') (cl_workers c ! m)" if "m < length (cl_workers c)" "m \<noteq> k" for m
      using worker_inv_rewritten [OF others half(8) no] that by blast
    show ?thesis
      using cluster_inv_work [OF inv k rows' ids [OF half(8)] jobs _ others' _ refl] half(3,4) by (simp add: half(1))
  next
    case (settle i f)
    obtain r where r: "the_job ?rows i r" "jr_status r = job_processing"
        "\<And>am. held ?w = Some (i, Some am) \<Longrightarrow> am = (jr_attempts r, jr_max r)"
    proof -
      obtain am0 where held: "held ?w = Some (i, am0)"
        using settle(2) by (auto simp: owner_of_def)
      then obtain r where "the_job ?rows i r" "jr_status r = job_processing" "am0 = None \<or> am0 = Some (jr_attempts r, jr_max r)"
        using w unfolding worker_inv_def by blast
      then show thesis
        using that [of r] held by auto
    qed
    have no: "owner_of (cl_workers c ! m) \<noteq> Some i" if "m < length (cl_workers c)" "m \<noteq> k" for m
      using alone [OF settle(2)] that by blast
    have "job_ok (cl_runs c) (f r)"
      using settle(6)
    proof
      assume "\<exists>n e base am. f = failed_with env n e base am \<and> held ?w = Some (i, Some am)"
      then show ?thesis
        using job_ok_settled(2) [OF ok [OF r(1)] r(2)] r(3) by auto
    qed (simp add: job_ok_settled(1) ok [OF r(1)] r(2))
    then have "job_ok (cl_runs c) (f s)" if "the_job ?rows i s" for s
      using unique [OF r(1) that] by simp
    then have rows': "rows_inv (cl_runs c) (db_tables db')"
      using runs by (intro rows_inv_rewritten [OF rows settle(5)]) auto
    have others': "worker_inv (db_tables db') (cl_workers c ! m)" if "m < length (cl_workers c)" "m \<noteq> k" for m
      using worker_inv_rewritten [OF others settle(5) no] that by blast
    show ?thesis
      using cluster_inv_work [OF inv k rows' ids [OF settle(5)] jobs _ others' _ refl] settle(3,4) by (simp add: settle(1))
  qed
qed


lemma count_new: "set runs \<subseteq> S \<Longrightarrow> i \<notin> S \<Longrightarrow> count_list runs i = 0"
  by (induction runs) auto

lemma cluster_inv_queue:
  assumes "cluster_inv c" "k < length (cl_workers c)" "rj_id ` set q \<subseteq> rj_id ` set (wk_queue (cl_workers c ! k)) \<union> jr_id ` set (rows_of c)"
    and "set hand \<subseteq> set (cl_hand c)"
  shows "cluster_inv (c\<lparr>cl_workers := (cl_workers c)[k := (cl_workers c ! k)\<lparr>wk_queue := q\<rparr>], cl_hand := hand\<rparr>)"
proof -
  let ?w = "cl_workers c ! k"
  have w: "worker_inv (rows_of c) ?w"
    using assms(1,2) by (simp add: cluster_inv_def list_all_length)
  then have known: "rj_id ` jobs_in ?w \<subseteq> jr_id ` set (rows_of c)"
    by (simp add: worker_inv_def)
  have jobs: "jobs_in (?w\<lparr>wk_queue := q\<rparr>) \<subseteq> set q \<union> jobs_in ?w" "set (wk_queue ?w) \<subseteq> jobs_in ?w"
    by (auto simp: jobs_in_def)
  have "rj_id ` jobs_in (?w\<lparr>wk_queue := q\<rparr>) \<subseteq> rj_id ` set q \<union> rj_id ` jobs_in ?w"
    using image_mono [OF jobs(1), of rj_id] by (simp add: image_Un)
  also have "\<dots> \<subseteq> jr_id ` set (rows_of c)"
    using order_trans [OF assms(3) Un_least [OF order_trans [OF image_mono [OF jobs(2)] known] order_refl]] known
    by (rule Un_least)
  finally have "rj_id ` jobs_in (?w\<lparr>wk_queue := q\<rparr>) \<subseteq> jr_id ` set (rows_of c)" .
  then have "worker_inv (rows_of c) (?w\<lparr>wk_queue := q\<rparr>)"
    using w by (simp add: worker_inv_def)
  then have "list_all (worker_inv (rows_of c)) ((cl_workers c)[k := ?w\<lparr>wk_queue := q\<rparr>])"
    using assms(1,2) by (simp add: cluster_inv_def list_all_length nth_list_update)
  moreover have "alone ((cl_workers c)[k := ?w\<lparr>wk_queue := q\<rparr>])"
  proof (rule alone_update)
    show "m = k" if "owner_of (?w\<lparr>wk_queue := q\<rparr>) = Some i" "m < length (cl_workers c)" "owner_of (cl_workers c ! m) = Some i" for i m
      using that assms(1,2) unfolding cluster_inv_def alone_def by auto
  qed (use assms(1) in \<open>simp add: cluster_inv_def\<close>)
  moreover have "rj_id ` snd ` set hand \<subseteq> rj_id ` snd ` set (cl_hand c)"
    using assms(4) by (intro image_mono)
  ultimately show ?thesis
    using assms(1) by (simp add: cluster_inv_def order_trans)
qed

lemma cluster_inv_step:
  assumes "cluster_inv c" "cluster_step env opts c l c'" "\<forall>n. de_uuid env n \<noteq> nil_uuid"
  shows "cluster_inv c'"
  using assms(2)
proof cases
  case (work k db' w')
  then show ?thesis
    using cluster_inv_worker_step [OF assms(1) work(2,3)] by simp
next
  case (archive k t u sid r db')
  show ?thesis
    using archive(4)
  proof (cases rule: job_enqueue_cases)
    case (added row)
    have rows: "rows_inv (cl_runs c) (rows_of c)"
      using assms(1) by (simp add: cluster_inv_def)
    have "jr_id row \<noteq> nil_uuid" "count_list (cl_runs c) (jr_id row) = 0"
      using added(2,3) assms(3) rows count_new by (auto simp: rows_inv_def)
    then have "rows_inv (cl_runs c) (rows_of c @ [row])"
      using rows added(2,4-6) by (auto simp: rows_inv_def job_ok_def)
    moreover have "list_all (worker_inv (rows_of c @ [row])) (cl_workers c)"
      using assms(1) worker_inv_append by (auto simp: cluster_inv_def list_all_iff)
    moreover have "rj_id ` snd ` set (cl_hand c') \<subseteq> insert (jr_id row) (rj_id ` snd ` set (cl_hand c))"
      using added(7) unfolding archive(2) by (elim disjE exE) (simp_all add: subset_insertI)
    then have "rj_id ` snd ` set (cl_hand c') \<subseteq> insert (jr_id row) (jr_id ` set (rows_of c))"
      using assms(1) unfolding cluster_inv_def by (meson insert_mono order_trans)
    ultimately show ?thesis
      using assms(1) added(1) unfolding archive(2) by (simp add: cluster_inv_def)
  next
    case kept
    then show ?thesis
      using assms(1) unfolding archive(2) by (auto simp: cluster_inv_def split: sum.splits bool.splits)
  qed
next
  case (push as k j bs w ok q)
  have "rj_id j \<in> jr_id ` set (rows_of c)"
    using assms(1) push(3) by (auto simp: cluster_inv_def)
  then show ?thesis
    using try_push_set [OF push(6)] push(3) unfolding push(2,5)
    by (intro cluster_inv_queue [OF assms(1) push(4)]) auto
next
  case (crash k)
  have "alone ((cl_workers c)[k := fresh_worker])"
    using assms(1) by (intro alone_update) (auto simp: cluster_inv_def)
  moreover have "list_all (worker_inv (rows_of c)) ((cl_workers c)[k := fresh_worker])"
    using assms(1) crash(3) by (auto simp: cluster_inv_def list_all_length nth_list_update worker_inv_def)
  ultimately show ?thesis
    using assms(1) unfolding crash(1,2) by (auto simp: cluster_inv_def)
qed

lemma cluster_inv_reached:
  assumes "cluster_runs env opts P c c'" "cluster_inv c" "\<forall>n. de_uuid env n \<noteq> nil_uuid"
  shows "cluster_inv c'"
  using assms(1) unfolding cluster_runs_def
  by (induction rule: rtranclp_induct) (use assms(2,3) cluster_inv_step in blast)+

section \<open>What holds on every schedule\<close>

text \<open>
  C26. However many workers share the table, whatever statements fail and whoever is killed, no two
  workers are ever at work on the same job, the row of a job that is at work says so, and a job
  is run at most as often as its row allows attempts.
\<close>

theorem jobs_run_alone:
  assumes "cluster_runs env opts P (first_cluster n) c" "\<forall>k. de_uuid env k \<noteq> nil_uuid"
  shows "(\<forall>k m i. k < length (cl_workers c) \<longrightarrow> m < length (cl_workers c) \<longrightarrow>
       owner_of (cl_workers c ! k) = Some i \<longrightarrow> owner_of (cl_workers c ! m) = Some i \<longrightarrow>
       k = m \<and> (\<exists>r. the_job (rows_of c) i r \<and> jr_status r = job_processing)) \<and>
    (\<forall>r \<in> set (rows_of c). int (count_list (cl_runs c) (jr_id r)) \<le> jr_max r)"
proof -
  have inv: "cluster_inv c"
    using cluster_inv_reached [OF assms(1) first_cluster_inv assms(2)] .
  then have "\<exists>r. the_job (rows_of c) i r \<and> jr_status r = job_processing"
    if "k < length (cl_workers c)" "owner_of (cl_workers c ! k) = Some i" for k i
  proof -
    have "worker_inv (rows_of c) (cl_workers c ! k)"
      using inv that(1) by (simp add: cluster_inv_def list_all_length)
    from owner_job [OF this that(2)] show ?thesis
      by blast
  qed
  then show ?thesis
    using inv job_ok_bound by (auto simp: cluster_inv_def alone_def rows_inv_def list_all_iff)
qed

text \<open>A job that nobody works on, though its row says so.\<close>

definition abandoned :: "job_row \<Rightarrow> nat \<Rightarrow> cluster \<Rightarrow> bool" where
  "abandoned r n c \<longleftrightarrow> r \<in> set (rows_of c) \<and> jr_status r = job_processing \<and>
     (\<forall>w \<in> set (cl_workers c). owner_of w \<noteq> Some (jr_id r)) \<and> count_list (cl_runs c) (jr_id r) = n"

lemma abandoned_worker_step:
  assumes inv: "cluster_inv c" and k: "k < length (cl_workers c)" and ab: "abandoned r n c"
    and step: "worker_step env opts (cl_db c, cl_workers c ! k) l (db', w')"
  shows "abandoned r n (c\<lparr>cl_db := db', cl_workers := (cl_workers c)[k := w'], cl_runs := note_start l (cl_runs c)\<rparr>)"
proof -
  have own: "owner_of w \<noteq> Some (jr_id r)" if "w \<in> set (cl_workers c)" for w
    using ab that by (simp add: abandoned_def)
  have stays: "r \<in> set (db_tables db')" if "rewritten i f (rows_of c) (db_tables db')" "i \<noteq> jr_id r" for i f
    using ab rewritten_job [OF that(1), of "jr_id r" r] that(2) by (simp add: abandoned_def the_job_def)
  have unique: "the_job (rows_of c) (jr_id r) s \<Longrightarrow> s = r" for s
    using inv ab the_job_unique [of "rows_of c" "jr_id r" r s] by (simp add: cluster_inv_def rows_inv_def abandoned_def the_job_def)
  have other: "i \<noteq> jr_id r" if "the_job (rows_of c) i s" "jr_status s = job_pending" for i s
  proof
    assume "i = jr_id r"
    then have "s = r"
      using that(1) unique by blast
    then show False
      using that(2) ab by (simp add: abandoned_def)
  qed
  have members: "w \<in> set ((cl_workers c)[k := w']) \<Longrightarrow> w = w' \<or> w \<in> set (cl_workers c)" for w
    using set_update_subset_insert by fast
  have conclude: ?thesis
    if "r \<in> set (db_tables db')" "owner_of w' \<noteq> Some (jr_id r)" "count_list (note_start l (cl_runs c)) (jr_id r) = n"
    using ab own that members unfolding abandoned_def by (auto dest: members)
  from step worker_inv_nil [OF inv nth_mem [OF k]] show ?thesis
  proof (cases rule: worker_step_cases)
    case aside
    then show ?thesis
      using ab own [OF nth_mem [OF k]] by (intro conclude) (auto simp: abandoned_def)
  next
    case (claim i s)
    note other [OF claim(4,5)]
    then show ?thesis
      using claim(1,3) stays [OF claim(6)] ab by (intro conclude) (auto simp: abandoned_def owner_of_def)
  next
    case (half i s)
    note other [OF half(6,7)]
    then show ?thesis
      using half(1,4) stays [OF half(8)] ab by (intro conclude) (auto simp: abandoned_def)
  next
    case (settle i f)
    have "i \<noteq> jr_id r"
      using settle(2) own [OF nth_mem [OF k]] by auto
    then show ?thesis
      using settle(1,4) stays [OF settle(5)] ab by (intro conclude) (auto simp: abandoned_def)
  qed
qed

lemma abandoned_step:
  assumes "cluster_step env opts c l c'" "cluster_inv c" "abandoned r n c"
  shows "abandoned r n c'"
  using assms(1)
proof cases
  case (work k db' w')
  then show ?thesis
    using abandoned_worker_step [OF assms(2) work(2) assms(3) work(3)] by simp
next
  case (archive k t u sid x db')
  have "set (rows_of c) \<subseteq> set (db_tables db')"
    using archive(4) by (cases rule: job_enqueue_cases) auto
  then show ?thesis
    using assms(3) unfolding archive(2) by (auto simp: abandoned_def)
next
  case (push as k j bs w ok q)
  have "owner_of v \<noteq> Some (jr_id r)" if "v \<in> set ((cl_workers c)[k := w\<lparr>wk_queue := q\<rparr>])" for v
    using that assms(3) push(4,5) set_update_subset_insert [of "cl_workers c" k "w\<lparr>wk_queue := q\<rparr>"]
    by (auto simp: abandoned_def)
  then show ?thesis
    using assms(3) unfolding push(2) by (simp add: abandoned_def)
next
  case (crash k)
  have "owner_of v \<noteq> Some (jr_id r)" if "v \<in> set ((cl_workers c)[k := fresh_worker])" for v
    using that assms(3) set_update_subset_insert [of "cl_workers c" k fresh_worker] by (auto simp: abandoned_def)
  then show ?thesis
    using assms(3) unfolding crash(2) by (simp add: abandoned_def)
qed

text \<open>
  A job whose worker is killed while at work is lost: its row stays as it is whatever happens
  later, no worker takes the job again, and it is never run again.
\<close>

theorem killed_job_lost:
  assumes "cluster_runs env opts P (first_cluster n) c" "\<forall>k. de_uuid env k \<noteq> nil_uuid"
    and "r \<in> set (rows_of c)" "jr_status r = job_processing" "\<forall>w \<in> set (cl_workers c). owner_of w \<noteq> Some (jr_id r)"
    and "cluster_runs env opts Q c c'"
  shows "r \<in> set (rows_of c') \<and> (\<forall>w \<in> set (cl_workers c'). owner_of w \<noteq> Some (jr_id r)) \<and>
    count_list (cl_runs c') (jr_id r) = count_list (cl_runs c) (jr_id r)"
proof -
  let ?n = "count_list (cl_runs c) (jr_id r)"
  have inv: "cluster_inv c"
    using cluster_inv_reached [OF assms(1) first_cluster_inv assms(2)] .
  have "cluster_inv c' \<and> abandoned r ?n c'"
    using assms(6) unfolding cluster_runs_def
  proof (induction rule: rtranclp_induct)
    case base
    then show ?case
      using inv assms(3-5) by (simp add: abandoned_def)
  next
    case (step c1 c2)
    then show ?case
      using cluster_inv_step abandoned_step assms(2) by blast
  qed
  then show ?thesis
    by (simp add: abandoned_def)
qed

text \<open>Without kills and faults, and with errors the database can store.\<close>

definition orderly :: "label \<Rightarrow> bool" where
  "orderly l \<longleftrightarrow> l \<noteq> LCrash \<and> (\<forall>e. l = LRan (Some e) \<longrightarrow> pg_text (take 2000 e))"

definition kept_jobs :: "cluster \<Rightarrow> bool" where
  "kept_jobs c \<longleftrightarrow> (\<forall>w \<in> set (cl_workers c). \<not> bad_error w) \<and>
     (\<forall>r \<in> set (rows_of c). jr_status r = job_processing \<longrightarrow> (\<exists>k < length (cl_workers c). owner_of (cl_workers c ! k) = Some (jr_id r)))"

lemma worker_step_errors:
  assumes "worker_step env opts (db, w) l (db', w')" "\<not> bad_error w" "orderly l"
  shows "\<not> bad_error w'"
  using assms(1)
proof (cases rule: worker_step_rule)
  case (run j r)
  then show ?thesis
    using assms(3) by (auto simp: bad_error_def orderly_def split: option.splits)
qed (use assms(2) in \<open>auto simp: bad_error_def split: sum.splits if_splits\<close>)


lemma kept_jobs_worker_step:
  assumes inv: "cluster_inv c" and k: "k < length (cl_workers c)" and kept: "kept_jobs c"
    and step: "worker_step env opts (cl_db c, cl_workers c ! k) l (db', w')" and calm: "calm env" "orderly l"
  shows "kept_jobs (c\<lparr>cl_db := db', cl_workers := (cl_workers c)[k := w'], cl_runs := runs\<rparr>)"
proof -
  let ?w = "cl_workers c ! k" and ?ws = "(cl_workers c)[k := w']"
  have good: "\<not> bad_error ?w"
    using kept nth_mem [OF k] by (simp add: kept_jobs_def)
  have w: "worker_inv (rows_of c) ?w"
    using inv k by (simp add: cluster_inv_def list_all_length)
  have errors: "\<not> bad_error v" if "v \<in> set ?ws" for v
    using kept that worker_step_errors [OF step good calm(2)] set_update_subset_insert [of "cl_workers c" k w']
    by (auto simp: kept_jobs_def)
  have owned: "\<exists>m < length ?ws. owner_of (?ws ! m) = Some i"
    if "r \<in> set (rows_of c)" "jr_status r = job_processing" "jr_id r = i" "owner_of ?w = Some i \<Longrightarrow> owner_of w' = Some i" for r i
  proof -
    note r = that
    obtain m where m: "m < length (cl_workers c)" "owner_of (cl_workers c ! m) = Some i"
      using kept r(1-3) by (auto simp: kept_jobs_def)
    then show ?thesis
      using r(4) by (cases "m = k") (auto intro!: exI [of _ m])
  qed
  have new: "\<exists>m < length ?ws. owner_of (?ws ! m) = Some i" if "owner_of w' = Some i" for i
    using that k by (intro exI [of _ k]) simp
  have finish: ?thesis
    if "\<And>r. r \<in> set (db_tables db') \<Longrightarrow> jr_status r = job_processing \<Longrightarrow> \<exists>m < length ?ws. owner_of (?ws ! m) = Some (jr_id r)"
    using that errors by (simp add: kept_jobs_def)
  from step worker_inv_nil [OF inv nth_mem [OF k]] show ?thesis
  proof (cases rule: worker_step_cases)
    case aside
    have "owner_of w' = owner_of ?w"
      using aside(4) calm(1) good owner_job [OF w] the_job_iff_id by (metis option.distinct(1))
    then show ?thesis
      using owned aside(1) by (intro finish) simp
  next
    case (claim i s)
    have "owner_of w' = Some i"
      using claim(3) by (simp add: owner_of_def)
    show ?thesis
    proof (rule finish)
      fix r' assume r': "r' \<in> set (db_tables db')" "jr_status r' = job_processing"
      obtain r where r: "r \<in> set (rows_of c)" "jr_id r' = jr_id r" "r' = (if jr_id r = i then to_processing r else r)"
        using rewritten_in [OF claim(6) r'(1)] .
      show "\<exists>m < length ?ws. owner_of (?ws ! m) = Some (jr_id r')"
      proof (cases "jr_id r = i")
        case True
        then show ?thesis
          using new \<open>owner_of w' = Some i\<close> r(2) by simp
      next
        case False
        then show ?thesis
          using owned [OF r(1) _ r(2) [symmetric]] r(3) r'(2) claim(2) by simp
      qed
    qed
  next
    case (half i s)
    then show ?thesis
      using calm(1) by simp
  next
    case (settle i f)
    have settled: "jr_status (f r) \<noteq> job_processing" for r
      using settle(6) by (auto simp: to_completed_def failed_with_def Let_def split: if_splits)
    show ?thesis
    proof (rule finish)
      fix r' assume r': "r' \<in> set (db_tables db')" "jr_status r' = job_processing"
      obtain r where r: "r \<in> set (rows_of c)" "jr_id r' = jr_id r" "r' = (if jr_id r = i then f r else r)"
        using rewritten_in [OF settle(5) r'(1)] .
      then have "jr_id r \<noteq> i" "r' = r"
        using settled r'(2) by auto
      then show "\<exists>m < length ?ws. owner_of (?ws ! m) = Some (jr_id r')"
        using owned [OF r(1) _ r(2) [symmetric]] r'(2) settle(2) by simp
    qed
  qed
qed

lemma kept_jobs_step:
  assumes "cluster_step env opts c l c'" "cluster_inv c" "kept_jobs c" "calm env" "orderly l"
  shows "kept_jobs c'"
  using assms(1)
proof cases
  case (work k db' w')
  then show ?thesis
    using kept_jobs_worker_step [OF assms(2) work(2) assms(3) work(3) assms(4,5)] by simp
next
  case (archive k t u sid x db')
  show ?thesis
    using archive(4)
  proof (cases rule: job_enqueue_cases)
    case (added row)
    then show ?thesis
      using assms(3) unfolding archive(2) by (auto simp: kept_jobs_def)
  next
    case kept
    then show ?thesis
      using assms(3) unfolding archive(2) by (simp add: kept_jobs_def)
  qed
next
  case (push as k j bs w ok q)
  have "owner_of ((cl_workers c)[k := w\<lparr>wk_queue := q\<rparr>] ! m) = owner_of (cl_workers c ! m)" if "m < length (cl_workers c)" for m
    using push(5) that by (cases "m = k") simp_all
  moreover have "\<not> bad_error v" if "v \<in> set ((cl_workers c)[k := w\<lparr>wk_queue := q\<rparr>])" for v
    using that assms(3) push(4,5) set_update_subset_insert [of "cl_workers c" k "w\<lparr>wk_queue := q\<rparr>"]
    by (auto simp: kept_jobs_def)
  moreover have "\<exists>m < length (cl_workers c). owner_of ((cl_workers c)[k := w\<lparr>wk_queue := q\<rparr>] ! m) = Some (jr_id r)"
    if "r \<in> set (rows_of c)" "jr_status r = job_processing" for r
    using assms(3) that calculation(1) unfolding kept_jobs_def by metis
  ultimately show ?thesis
    unfolding push(2) by (simp add: kept_jobs_def)
next
  case (crash k)
  then show ?thesis
    using assms(5) by (simp add: orderly_def)
qed


lemma cluster_runs_start: "cluster_runs env opts P c c"
  by (simp add: cluster_runs_def)

lemma cluster_runs_step:
  "cluster_runs env opts P a b \<Longrightarrow> cluster_step env opts b l c \<Longrightarrow> P l \<Longrightarrow> cluster_runs env opts P a c"
  unfolding cluster_runs_def by (rule rtranclp.rtrancl_into_rtrancl) blast+

lemma cluster_runs_mono:
  assumes "cluster_runs env opts P a b" "\<And>l. P l \<Longrightarrow> Q l"
  shows "cluster_runs env opts Q a b"
proof -
  have "(\<lambda>c c'. \<exists>l. P l \<and> cluster_step env opts c l c') \<le> (\<lambda>c c'. \<exists>l. Q l \<and> cluster_step env opts c l c')"
    using assms(2) by blast
  from rtranclp_mono [OF this] assms(1) show ?thesis
    unfolding cluster_runs_def by blast
qed

section \<open>A run\<close>

definition demo_job_env :: db_env where
  "demo_job_env = \<lparr>de_fault = (\<lambda>n. None), de_uuid = (\<lambda>n. ''job'' @ show_nat n), de_now = int\<rparr>"

definition demo_worker_opts :: worker_opts where
  "demo_worker_opts = new_worker True 0 0 0 0"

definition demo_job :: ref_job where
  "demo_job = \<lparr>rj_id = ''job0'', rj_tenant = ''t'', rj_user = ''u'', rj_session = ''s''\<rparr>"

definition demo_job_row :: "string \<Rightarrow> job_row" where
  "demo_job_row status = \<lparr>jr_id = ''job0'', jr_tenant = ''t'', jr_user = ''u'', jr_session = ''s'', jr_status = status, jr_attempts = 0,
     jr_max = 3, jr_next = 0, jr_error = None\<rparr>"

definition demo_cluster :: "string \<Rightarrow> nat \<Rightarrow> ref_job list \<Rightarrow> phase \<Rightarrow> (nat \<times> ref_job) list \<Rightarrow> dbid list \<Rightarrow> cluster" where
  "demo_cluster status n q ph hand runs =
     \<lparr>cl_db = \<lparr>db_tables = [demo_job_row status], db_clock = n\<rparr>, cl_workers = [fresh_worker\<lparr>wk_queue := q, wk_phase := ph\<rparr>],
      cl_hand = hand, cl_runs = runs\<rparr>"

lemma demo_job_env: "\<forall>k. de_uuid demo_job_env k \<noteq> nil_uuid" "calm demo_job_env"
proof -
  have "hd (de_uuid demo_job_env k) \<noteq> hd nil_uuid" for k
    by (simp add: demo_job_env_def nil_uuid_def)
  then show "\<forall>k. de_uuid demo_job_env k \<noteq> nil_uuid"
    by metis
qed (simp add: calm_def demo_job_env_def)

lemma demo_job_id: "show_nat 0 = ''0''" "''job0'' \<noteq> nil_uuid" "rj_id demo_job = ''job0''"
  by code_simp+

lemmas demo_cluster_defs = demo_cluster_def demo_job_row_def demo_job_def demo_worker_opts_def new_worker_def first_cluster_def
  fresh_worker_def job_exec_def exec_def

lemma demo_archive:
  "cluster_step demo_job_env demo_worker_opts (first_cluster 1) LQuiet (demo_cluster job_pending 1 [] PhIdle [(0, demo_job)] [])"
proof -
  have "job_enqueue demo_job_env ''t'' ''u'' ''s'' 3 \<lparr>db_tables = [], db_clock = 0\<rparr> =
      (Inr (''job0'', True), \<lparr>db_tables = [demo_job_row job_pending], db_clock = 1\<rparr>)"
    by (simp add: job_enqueue_def demo_cluster_defs demo_job_env_def demo_job_id(1))
  then show ?thesis
    using cluster_step.archive [of 0 "first_cluster 1" demo_job_env "''t''" "''u''" "''s''" demo_worker_opts
        "Inr (''job0'', True)" "\<lparr>db_tables = [demo_job_row job_pending], db_clock = 1\<rparr>"]
    by (simp add: demo_cluster_def demo_job_def demo_worker_opts_def new_worker_def first_cluster_def) (simp add: fresh_worker_def)
qed

lemma demo_push:
  "cluster_step demo_job_env demo_worker_opts (demo_cluster job_pending 1 [] PhIdle [(0, demo_job)] []) LQuiet
     (demo_cluster job_pending 1 [demo_job] PhIdle [] [])"
  using cluster_step.push [of "demo_cluster job_pending 1 [] PhIdle [(0, demo_job)] []" "[]" 0 demo_job "[]" _ demo_worker_opts _ _ demo_job_env]
  by (simp add: demo_cluster_defs try_push_def)

lemma demo_take:
  "cluster_step demo_job_env demo_worker_opts (demo_cluster job_pending 1 [demo_job] PhIdle [] []) LQuiet
     (demo_cluster job_pending 1 [] (PhStart demo_job) [] [])"
  using cluster_step.work [of 0 "demo_cluster job_pending 1 [demo_job] PhIdle [] []" demo_job_env demo_worker_opts LQuiet,
      OF _ worker_step.take_job]
  by (simp add: demo_cluster_defs)

lemma demo_start:
  "cluster_step demo_job_env demo_worker_opts (demo_cluster job_pending 1 [] (PhStart demo_job) [] []) (LStart ''job0'')
     (demo_cluster job_processing 2 [] (PhRun demo_job) [] [''job0''])"
proof -
  have "mark_processing demo_job_env ''job0'' \<lparr>db_tables = [demo_job_row job_pending], db_clock = 1\<rparr> =
      (Inr (), \<lparr>db_tables = [demo_job_row job_processing], db_clock = 2\<rparr>)"
    by (simp add: mark_processing_def set_job_def demo_cluster_defs) (simp add: demo_job_env_def)
  then have "worker_step demo_job_env demo_worker_opts
      (\<lparr>db_tables = [demo_job_row job_pending], db_clock = 1\<rparr>, fresh_worker\<lparr>wk_queue := [], wk_phase := PhStart demo_job\<rparr>)
      (LStart (rj_id demo_job))
      (\<lparr>db_tables = [demo_job_row job_processing], db_clock = 2\<rparr>,
       fresh_worker\<lparr>wk_queue := [], wk_phase := PhStart demo_job\<rparr>\<lparr>wk_phase := PhRun demo_job\<rparr>)"
    using demo_job_id(2,3) by (intro worker_step.start) simp_all
  then show ?thesis
    using cluster_step.work [of 0 "demo_cluster job_pending 1 [] (PhStart demo_job) [] []" demo_job_env demo_worker_opts "LStart ''job0''"]
    by (simp add: demo_cluster_def demo_job_id(3))
qed

lemma demo_busy:
  "cluster_runs demo_job_env demo_worker_opts orderly (first_cluster 1) (demo_cluster job_processing 2 [] (PhRun demo_job) [] [''job0''])"
proof -
  have "orderly LQuiet" "orderly (LStart i)" for i
    by (simp_all add: orderly_def)
  then show ?thesis
    using cluster_runs_step [OF cluster_runs_step [OF cluster_runs_step [OF cluster_runs_step [OF cluster_runs_start
      demo_archive] demo_push] demo_take] demo_start] by blast
qed

lemma demo_kill:
  "cluster_step demo_job_env demo_worker_opts (demo_cluster job_processing 2 [] (PhRun demo_job) [] [''job0'']) LCrash
     (demo_cluster job_processing 2 [] PhIdle [] [''job0''])"
  using cluster_step.crash [of 0 "demo_cluster job_processing 2 [] (PhRun demo_job) [] [''job0'']"]
  by (simp add: demo_cluster_defs)

lemma demo_killed:
  "cluster_runs demo_job_env demo_worker_opts (\<lambda>_. True) (first_cluster 1) (demo_cluster job_processing 2 [] PhIdle [] [''job0''])"
  by (rule cluster_runs_step [OF cluster_runs_mono [OF demo_busy] demo_kill]) simp_all

text \<open>The session is archived again after the kill: the insert finds its row, and nothing comes of it.\<close>

lemma demo_archive_again:
  "cluster_step demo_job_env demo_worker_opts (demo_cluster job_processing 2 [] PhIdle [] [''job0'']) LQuiet
     (demo_cluster job_processing 3 [] PhIdle [] [''job0''])"
proof -
  have "job_enqueue demo_job_env ''t'' ''u'' ''s'' 3 \<lparr>db_tables = [demo_job_row job_processing], db_clock = 2\<rparr> =
      (Inr (nil_uuid, False), \<lparr>db_tables = [demo_job_row job_processing], db_clock = 3\<rparr>)"
    by (simp add: job_enqueue_def demo_cluster_defs demo_job_env_def)
  then show ?thesis
    using cluster_step.archive [of 0 "demo_cluster job_processing 2 [] PhIdle [] [''job0'']" demo_job_env "''t''" "''u''" "''s''" demo_worker_opts
        "Inr (nil_uuid, False)" "\<lparr>db_tables = [demo_job_row job_processing], db_clock = 3\<rparr>"]
    by (simp add: demo_cluster_def demo_worker_opts_def new_worker_def)
qed

theorem jobs_run_alone_witness:
  "cl_runs (demo_cluster job_processing 2 [] (PhRun demo_job) [] [''job0'']) = [''job0''] \<and>
   int (count_list [''job0''] ''job0'') \<le> jr_max (demo_job_row job_processing)"
  using jobs_run_alone [OF demo_busy demo_job_env(1)] by (simp add: demo_cluster_def) (simp add: demo_job_row_def)


theorem killed_job_lost_witness:
  "demo_job_row job_processing \<in> set (rows_of (demo_cluster job_processing 3 [] PhIdle [] [''job0''])) \<and>
   count_list (cl_runs (demo_cluster job_processing 3 [] PhIdle [] [''job0''])) ''job0'' = 1"
proof -
  have idle: "owner_of (fresh_worker\<lparr>wk_queue := [], wk_phase := PhIdle\<rparr>) = None"
    by (simp add: owner_of_def held_def)
  have again: "cluster_runs demo_job_env demo_worker_opts (\<lambda>_. True) (demo_cluster job_processing 2 [] PhIdle [] [''job0''])
      (demo_cluster job_processing 3 [] PhIdle [] [''job0''])"
    by (rule cluster_runs_step [OF cluster_runs_start demo_archive_again]) simp
  show ?thesis
    using killed_job_lost [OF demo_killed demo_job_env(1) _ _ _ again, of "demo_job_row job_processing"] idle
  using jobs_run_alone [OF demo_busy demo_job_env(1)] by (simp add: demo_cluster_def demo_job_row_def)
qed

end
