(* ===== verification/Reflect.thy ===== *)
theory Reflect
  imports RefJobs Memory ModelGateway
begin

text \<open>
  Reflection on an archived session: the proposals of memories (\<open>types.go\<close>, \<open>repo.go\<close> of
  \<open>src/internal/reflection\<close>), the pipeline that asks a model for them (\<open>reflector.go\<close>) and the decisions
  of an administrator (\<open>admin_handler.go\<close>).
\<close>

section \<open>Proposals\<close>

definition prop_pending :: string where "prop_pending = ''pending''"
definition prop_approved :: string where "prop_approved = ''approved''"
definition prop_auto_approved :: string where "prop_auto_approved = ''auto_approved''"
definition prop_rejected :: string where "prop_rejected = ''rejected''"

lemmas prop_status_defs = prop_pending_def prop_approved_def prop_auto_approved_def prop_rejected_def

lemma prop_status_distinct [simp]:
  "prop_pending \<noteq> prop_approved" "prop_pending \<noteq> prop_auto_approved" "prop_pending \<noteq> prop_rejected"
  "prop_approved \<noteq> prop_pending" "prop_auto_approved \<noteq> prop_pending" "prop_rejected \<noteq> prop_pending" "prop_pending \<noteq> []"
  "prop_auto_approved \<noteq> []"
  by (simp_all add: prop_status_defs)

record proposal =
  pp_id :: dbid
  pp_tenant :: dbid
  pp_owner :: dbid
  pp_session :: "dbid option"
  pp_type :: string
  pp_content :: string
  pp_tags :: "string list"
  pp_confidence :: f64
  pp_status :: string
  pp_memory :: "dbid option"
  pp_decided_at :: "int option"
  pp_decided_by :: "dbid option"
  pp_created :: int

record prop_filter =
  pl_status :: string
  pl_owner :: "dbid option"
  pl_limit :: int
  pl_offset :: int

definition valid_prop_type :: "string \<Rightarrow> bool" where
  "valid_prop_type t \<longleftrightarrow> t \<in> {''profile'', ''preference'', ''knowledge'', ''lesson''}"

definition valid_prop_status :: "string \<Rightarrow> bool" where
  "valid_prop_status s \<longleftrightarrow> s \<in> {prop_pending, prop_approved, prop_auto_approved, prop_rejected}"

datatype prop_err = PeNotFound | PeInvalidStatus | PeNotPending | PeTarget string | PeDb string

fun prop_err_text :: "prop_err \<Rightarrow> string" where
  "prop_err_text PeNotFound = ''proposal not found''"
| "prop_err_text PeInvalidStatus = ''invalid status''"
| "prop_err_text PeNotPending = ''proposal not pending''"
| "prop_err_text (PeTarget t) = ''invalid target status '' @ quote t"
| "prop_err_text (PeDb e) = e"

type_synonym prop_db = "proposal list db"
type_synonym 'a prop_act = "(prop_err, 'a, prop_db) act"

definition prop_exec :: "db_env \<Rightarrow> string \<Rightarrow> (nat \<Rightarrow> (prop_err, 'a, proposal list) act) \<Rightarrow> 'a prop_act" where
  "prop_exec env what = exec env (\<lambda>e. PeDb (what @ '': '' @ e))"

definition prop_query :: "db_env \<Rightarrow> string \<Rightarrow> (proposal list \<Rightarrow> prop_err + 'a) \<Rightarrow> 'a prop_act" where
  "prop_query env what = query env (\<lambda>e. PeDb (what @ '': '' @ e))"

text \<open>What the constraints of the table and the encoding of the database accept.\<close>

definition prop_storable :: "proposal \<Rightarrow> bool" where
  "prop_storable p \<longleftrightarrow> valid_prop_type (pp_type p) \<and> valid_prop_status (pp_status p) \<and> pg_text (pp_content p) \<and>
     list_all pg_text (pp_tags p) \<and> f64_le (FFin False 0 0) (pp_confidence p) \<and> f64_le (pp_confidence p) (FFin False 1 0)"

definition prop_get :: "db_env \<Rightarrow> dbid \<Rightarrow> dbid \<Rightarrow> proposal prop_act" where
  "prop_get env tenant i =
     prop_query env ''scan proposal'' (\<lambda>rows.
       case find (\<lambda>p. pp_id p = i \<and> pp_tenant p = tenant) rows of None \<Rightarrow> Inl PeNotFound | Some p \<Rightarrow> Inr p)"

definition prop_defaults :: "db_env \<Rightarrow> nat \<Rightarrow> proposal \<Rightarrow> proposal" where
  "prop_defaults env n p0 =
     (let p = (if pp_id p0 = nil_uuid then p0\<lparr>pp_id := de_uuid env n\<rparr> else p0)
      in if pp_status p = [] then p\<lparr>pp_status := prop_pending\<rparr> else p)"

definition insert_row :: "db_env \<Rightarrow> proposal \<Rightarrow> nat \<Rightarrow> (prop_err, unit, proposal list) act" where
  "insert_row env p n rows =
     (if \<not> prop_storable p then (Inl (PeDb ''insert proposal: refused by the table''), rows)
      else if pp_id p \<in> pp_id ` set rows
      then (Inl (PeDb ''insert proposal: duplicate key value violates unique constraint''), rows)
      else (Inr (), rows @ [p\<lparr>pp_created := de_now env n\<rparr>]))"

definition prop_insert :: "db_env \<Rightarrow> proposal \<Rightarrow> proposal prop_act" where
  "prop_insert env p0 db =
     (let p = prop_defaults env (db_clock db) p0
      in and_then (prop_exec env ''insert proposal'' (insert_row env p)) (\<lambda>_. prop_get env (pp_tenant p) (pp_id p)) db)"

definition prop_list :: "db_env \<Rightarrow> dbid \<Rightarrow> prop_filter \<Rightarrow> proposal list prop_act" where
  "prop_list env tenant f =
     (if pl_status f \<noteq> [] \<and> \<not> valid_prop_status (pl_status f) then give (Inl PeInvalidStatus)
      else prop_query env ''list proposals'' (\<lambda>rows.
        Inr (take (row_limit (pl_limit f)) (drop (nat (pl_offset f))
          (sort_key (\<lambda>p. - pp_created p)
            (filter (\<lambda>p. (pl_status f \<noteq> [] \<longrightarrow> pp_status p = pl_status f) \<and> (\<forall>u. pl_owner f = Some u \<longrightarrow> pp_owner p = u))
              (filter (\<lambda>p. pp_tenant p = tenant) rows)))))))"

text \<open>\<open>MarkDecided\<close>: only a pending row changes.\<close>

definition decide_row :: "dbid \<Rightarrow> dbid \<Rightarrow> (proposal \<Rightarrow> proposal) \<Rightarrow> proposal list \<Rightarrow> proposal list" where
  "decide_row tenant i f =
     map (\<lambda>p. if pp_id p = i \<and> pp_tenant p = tenant \<and> pp_status p = prop_pending then f p else p)"

definition decided_row :: "string \<Rightarrow> dbid option \<Rightarrow> int \<Rightarrow> dbid option \<Rightarrow> proposal \<Rightarrow> proposal" where
  "decided_row target mem now who p =
     p\<lparr>pp_status := target, pp_memory := mem, pp_decided_at := Some now, pp_decided_by := who\<rparr>"

definition report_decision :: "db_env \<Rightarrow> dbid \<Rightarrow> dbid \<Rightarrow> bool \<Rightarrow> proposal prop_act" where
  "report_decision env tenant i hit =
     (if hit then prop_get env tenant i
      else branch (prop_get env tenant i)
             (\<lambda>e. give (Inl (if e = PeNotFound then PeNotFound else PeNotPending)))
             (\<lambda>_. give (Inl PeNotPending)))"

definition decide_rows ::
  "db_env \<Rightarrow> dbid \<Rightarrow> dbid \<Rightarrow> string \<Rightarrow> dbid option \<Rightarrow> dbid option \<Rightarrow> nat \<Rightarrow> (prop_err, bool, proposal list) act" where
  "decide_rows env tenant i target mem who n rows =
     (Inr (list_ex (\<lambda>p. pp_id p = i \<and> pp_tenant p = tenant \<and> pp_status p = prop_pending) rows),
      decide_row tenant i (decided_row target mem (de_now env n) who) rows)"

definition mark_decided :: "db_env \<Rightarrow> dbid \<Rightarrow> dbid \<Rightarrow> string \<Rightarrow> dbid option \<Rightarrow> dbid option \<Rightarrow> proposal prop_act" where
  "mark_decided env tenant i target mem who =
     (if target \<notin> {prop_approved, prop_auto_approved, prop_rejected} then give (Inl (PeTarget target))
      else and_then (prop_exec env ''mark decided'' (decide_rows env tenant i target mem who)) (report_decision env tenant i))"

section \<open>What the model answers\<close>

record raw_proposal =
  rw_type :: string
  rw_content :: string
  rw_tags :: "string list"
  rw_confidence :: f64

text \<open>\<open>float32(x)\<close>: 24 bits, ties to even.\<close>

definition to_f32 :: "f64 \<Rightarrow> f64" where
  "to_f32 x = (case x of
       FFin neg m e \<Rightarrow>
         (if m = 0 then x
          else let e' = max (e + int (bitlen m) - 24) (-149);
                   m' = (if e' \<le> e then m * 2 ^ nat (e - e') else round_div m (2 ^ nat (e' - e)))
               in if m' = 0 then FFin neg 0 0 else if m' * 2 ^ nat (e' + 149) \<ge> 2 ^ 277 then FInf neg else FFin neg m' e')
     | _ \<Rightarrow> x)"

definition clamp_confidence :: "f64 \<Rightarrow> f64" where
  "clamp_confidence f =
     (if f64_less f (FFin False 0 0) then FFin False 0 0 else if f64_less (FFin False 1 0) f then FFin False 1 0 else to_f32 f)"

text \<open>\<open>truncate\<close> counts bytes.\<close>

definition cut_bytes :: "string \<Rightarrow> int \<Rightarrow> string" where
  "cut_bytes s n = (if n \<le> 0 \<or> int (length s) \<le> n then s else take (nat n) s)"

definition trim_prefix :: "string \<Rightarrow> string \<Rightarrow> string" where
  "trim_prefix p s = (if has_prefix p s then drop (length p) s else s)"

definition trim_suffix :: "string \<Rightarrow> string \<Rightarrow> string" where
  "trim_suffix p s = (if has_suffix p s then take (length s - length p) s else s)"

definition last_index_byte :: "char \<Rightarrow> string \<Rightarrow> nat option" where
  "last_index_byte c s = map_option (\<lambda>i. length s - 1 - i) (index_byte c (rev s))"

definition backquotes :: string where
  "backquotes = replicate 3 (char_of (96 :: nat))"

definition parse_proposals_json :: "(string \<Rightarrow> raw_proposal list result) \<Rightarrow> string \<Rightarrow> raw_proposal list result" where
  "parse_proposals_json decode raw =
     (let s = trim_space raw
      in if s = [] then Inl ''empty response''
         else let t = trim_space (trim_suffix backquotes (trim_prefix backquotes (trim_prefix (backquotes @ ''json'') s)))
              in case (index_byte (CHR ''['') t, last_index_byte (CHR '']'') t) of
                   (Some i, Some j) \<Rightarrow>
                     if j \<le> i then Inl ''no JSON array found''
                     else (case decode (take (j + 1 - i) (drop i t)) of Inl e \<Rightarrow> Inl (''decode: '' @ e) | Inr ps \<Rightarrow> Inr ps)
                 | _ \<Rightarrow> Inl ''no JSON array found'')"

section \<open>The pipeline\<close>

datatype ref_audit =
    RaComplete ref_job nat
  | RaFailed ref_job string string
  | RaAutoApproved ref_job dbid dbid bool
  | RaCreated ref_job dbid f64 string string
  | RaApproved dbid dbid dbid dbid bool "bool \<times> bool \<times> bool"
  | RaRejected dbid dbid dbid string

record 'w reflect_state =
  rs_db :: prop_db
  rs_rest :: 'w
  rs_audit :: "ref_audit list"

text \<open>The configuration, and the interfaces to the sessions, the model gateway and the memories.\<close>

record 'w reflect_env = db_env +
  re_threshold :: f64
  re_model :: string
  re_prompt :: string
  re_max_messages :: int
  re_max_chars :: int
  re_messages :: "dbid \<Rightarrow> dbid \<Rightarrow> 'w \<Rightarrow> chat_row list result \<times> 'w"
  re_chat :: "dbid \<Rightarrow> dbid \<Rightarrow> chat_request \<Rightarrow> 'w \<Rightarrow> chat_response result \<times> 'w"
  re_create :: "dbid \<Rightarrow> dbid \<Rightarrow> string \<Rightarrow> string \<Rightarrow> string list \<Rightarrow> 'w \<Rightarrow> (dbid \<times> bool) result \<times> 'w"
  re_decode :: "string \<Rightarrow> raw_proposal list result"

abbreviation "pdb env \<equiv> db_env.truncate env"

definition new_reflector :: "'w reflect_env \<Rightarrow> 'w reflect_env" where
  "new_reflector env =
     env\<lparr>re_max_messages := (if re_max_messages env \<le> 0 then 20 else re_max_messages env),
         re_max_chars := (if re_max_chars env \<le> 0 then 500 else re_max_chars env)\<rparr>"

definition map_role :: "string \<Rightarrow> string" where
  "map_role r = (if r = ''user'' then role_user else if r = ''assistant'' then role_assistant else [])"

definition reflect_messages :: "'w reflect_env \<Rightarrow> chat_row list \<Rightarrow> chat_message list" where
  "reflect_messages env msgs =
     (let recent = (if int (length msgs) > re_max_messages env then drop (length msgs - nat (re_max_messages env)) msgs else msgs)
      in plain_message role_system (re_prompt env) #
         map (\<lambda>m. plain_message (map_role (cr_role m)) (cut_bytes (cr_content m) (re_max_chars env)))
           (filter (\<lambda>m. map_role (cr_role m) \<noteq> []) recent))"

definition audit_ref :: "ref_audit \<Rightarrow> 'w reflect_state \<Rightarrow> 'w reflect_state" where
  "audit_ref a st = st\<lparr>rs_audit := rs_audit st @ [a]\<rparr>"

definition reflect_failed :: "ref_job \<Rightarrow> string \<Rightarrow> string \<Rightarrow> 'w reflect_state \<Rightarrow> string option \<times> 'w reflect_state" where
  "reflect_failed job cls e st = (Some e, audit_ref (RaFailed job cls e) st)"

text \<open>One proposal: the memory where it is approved at once, then the row.\<close>

definition approves :: "'w reflect_env \<Rightarrow> f64 \<Rightarrow> bool" where
  "approves env conf \<longleftrightarrow> f64_less (FFin False 0 0) (re_threshold env) \<and> f64_le (re_threshold env) conf"

definition new_proposal :: "'w reflect_env \<Rightarrow> ref_job \<Rightarrow> raw_proposal \<Rightarrow> (dbid \<times> bool) option \<Rightarrow> nat \<Rightarrow> proposal" where
  "new_proposal env job rp mem n =
     \<lparr>pp_id = nil_uuid, pp_tenant = rj_tenant job, pp_owner = rj_user job, pp_session = Some (rj_session job), pp_type = rw_type rp,
      pp_content = cut_bytes (rw_content rp) 500, pp_tags = rw_tags rp, pp_confidence = clamp_confidence (rw_confidence rp),
      pp_status = (if mem = None then prop_pending else prop_auto_approved), pp_memory = map_option fst mem,
      pp_decided_at = (if mem = None then None else Some (de_now env n)), pp_decided_by = None, pp_created = 0\<rparr>"

definition approve_now :: "'w reflect_env \<Rightarrow> ref_job \<Rightarrow> raw_proposal \<Rightarrow> 'w reflect_state \<Rightarrow> (dbid \<times> bool) option \<times> 'w reflect_state" where
  "approve_now env job rp st =
     (if approves env (clamp_confidence (rw_confidence rp))
      then (case re_create env (rj_tenant job) (rj_user job) (rw_type rp) (rw_content rp) (rw_tags rp) (rs_rest st) of
              (Inl e, w) \<Rightarrow> (None, st\<lparr>rs_rest := w\<rparr>)
            | (Inr m, w) \<Rightarrow> (Some m, st\<lparr>rs_rest := w\<rparr>))
      else (None, st))"

definition acceptable :: "raw_proposal \<Rightarrow> bool" where
  "acceptable rp \<longleftrightarrow> valid_prop_type (rw_type rp) \<and> trim_space (rw_content rp) \<noteq> []"

fun persist_proposals ::
  "'w reflect_env \<Rightarrow> ref_job \<Rightarrow> raw_proposal list \<Rightarrow> nat \<Rightarrow> 'w reflect_state \<Rightarrow> (string + nat) \<times> 'w reflect_state" where
  "persist_proposals env job [] n st = (Inr n, st)"
| "persist_proposals env job (rp # rps) n st =
     (if \<not> acceptable rp then persist_proposals env job rps n st
      else let (mem, st1) = approve_now env job rp st;
               (r, db) = prop_insert (pdb env) (new_proposal env job rp mem (db_clock (rs_db st1))) (rs_db st1);
               st2 = st1\<lparr>rs_db := db\<rparr>
           in case r of
                Inl e \<Rightarrow> (Inl (prop_err_text e), st2)
              | Inr p \<Rightarrow>
                  persist_proposals env job rps (n + 1)
                    (audit_ref (RaCreated job (pp_id p) (pp_confidence p) (pp_type p) (pp_status p))
                      (case mem of None \<Rightarrow> st2 | Some (m, hit) \<Rightarrow> audit_ref (RaAutoApproved job (pp_id p) m hit) st2)))"

definition reflect :: "'w reflect_env \<Rightarrow> ref_job \<Rightarrow> 'w reflect_state \<Rightarrow> string option \<times> 'w reflect_state" where
  "reflect env job st =
     (let (msgs, w) = re_messages env (rj_tenant job) (rj_session job) (rs_rest st); st1 = st\<lparr>rs_rest := w\<rparr>
      in case msgs of
           Inl e \<Rightarrow> reflect_failed job ''list_messages'' e st1
         | Inr [] \<Rightarrow> (None, audit_ref (RaComplete job 0) st1)
         | Inr ms \<Rightarrow>
             (let (resp, w) = re_chat env (rj_tenant job) (rj_user job) (chat_request_of (re_model env) (reflect_messages env ms) []) (rs_rest st1);
                  st2 = st1\<lparr>rs_rest := w\<rparr>
              in case resp of
                   Inl e \<Rightarrow> reflect_failed job ''llm_call'' e st2
                 | Inr res \<Rightarrow>
                     (case rp_choices res of
                        [] \<Rightarrow> reflect_failed job ''empty_choices'' ''empty choices'' st2
                      | ch # _ \<Rightarrow>
                          (case parse_proposals_json (re_decode env) (cm_content (cc_message ch)) of
                             Inl e \<Rightarrow> reflect_failed job ''parse_json'' e st2
                           | Inr rps \<Rightarrow>
                               (case persist_proposals env job rps 0 st2 of
                                  (Inl e, st3) \<Rightarrow> reflect_failed job ''persist'' e st3
                                | (Inr n, st3) \<Rightarrow> (None, audit_ref (RaComplete job n) st3))))))"

section \<open>Decisions\<close>

record approve_req =
  aq_type :: "string option"
  aq_content :: "string option"
  aq_tags :: "string list option"

text \<open>What the handler answers: a proposal, or a status code with an error.\<close>

datatype admin_reply = ArProposal proposal | ArProposals "proposal list" | ArError nat string

fun decision_error :: "prop_err \<Rightarrow> admin_reply" where
  "decision_error PeNotFound = ArError 404 ''not_found''"
| "decision_error PeNotPending = ArError 409 ''already_decided''"
| "decision_error e = ArError 500 ''internal''"

definition on_props :: "'a prop_act \<Rightarrow> (prop_err, 'a, 'w reflect_state) act" where
  "on_props m st = (let (r, db) = m (rs_db st) in (r, st\<lparr>rs_db := db\<rparr>))"

definition admin_list :: "'w reflect_env \<Rightarrow> dbid \<Rightarrow> prop_filter \<Rightarrow> 'w reflect_state \<Rightarrow> admin_reply \<times> 'w reflect_state" where
  "admin_list env tenant f st =
     (if pl_status f \<noteq> [] \<and> \<not> valid_prop_status (pl_status f) then (ArError 400 ''invalid_status'', st)
      else if pl_limit f < 0 then (ArError 400 ''invalid_limit'', st)
      else if pl_offset f < 0 then (ArError 400 ''invalid_offset'', st)
      else case on_props (prop_list (pdb env) tenant f) st of
          (Inl e, st1) \<Rightarrow> (if e = PeInvalidStatus then ArError 400 ''invalid_status'' else ArError 500 ''internal'', st1)
        | (Inr ps, st1) \<Rightarrow> (ArProposals ps, st1))"

definition admin_get :: "'w reflect_env \<Rightarrow> dbid \<Rightarrow> dbid \<Rightarrow> 'w reflect_state \<Rightarrow> admin_reply \<times> 'w reflect_state" where
  "admin_get env tenant i st =
     (case on_props (prop_get (pdb env) tenant i) st of
        (Inl e, st1) \<Rightarrow> (decision_error e, st1)
      | (Inr p, st1) \<Rightarrow> (ArProposal p, st1))"

text \<open>The memory first, then the decision.\<close>

definition finish_approval ::
  "'w reflect_env \<Rightarrow> dbid \<Rightarrow> dbid \<Rightarrow> dbid \<Rightarrow> approve_req \<Rightarrow> proposal \<Rightarrow> 'w reflect_state \<Rightarrow> admin_reply \<times> 'w reflect_state" where
  "finish_approval env tenant who i req p st =
     (case re_create env tenant (pp_owner p) (case_option (pp_type p) id (aq_type req)) (case_option (pp_content p) id (aq_content req))
             (case_option (pp_tags p) id (aq_tags req)) (rs_rest st) of
        (Inl e, w) \<Rightarrow> (ArError 500 ''memory_create_failed'', st\<lparr>rs_rest := w\<rparr>)
      | (Inr (m, hit), w) \<Rightarrow>
          (case on_props (mark_decided (pdb env) tenant i prop_approved (Some m) (Some who)) (st\<lparr>rs_rest := w\<rparr>) of
             (Inl e, st1) \<Rightarrow> (decision_error e, st1)
           | (Inr q, st1) \<Rightarrow>
               (ArProposal q, audit_ref (RaApproved tenant who (pp_id q) m hit
                  (aq_type req \<noteq> None, aq_content req \<noteq> None, aq_tags req \<noteq> None)) st1)))"

definition admin_approve :: "'w reflect_env \<Rightarrow> dbid \<Rightarrow> dbid \<Rightarrow> dbid \<Rightarrow> approve_req \<Rightarrow> 'w reflect_state \<Rightarrow> admin_reply \<times> 'w reflect_state" where
  "admin_approve env tenant who i req st =
     (case on_props (prop_get (pdb env) tenant i) st of
        (Inl e, st1) \<Rightarrow> (decision_error e, st1)
      | (Inr p, st1) \<Rightarrow>
          if pp_status p \<noteq> prop_pending then (ArError 409 ''already_decided'', st1)
          else if \<not> pred_option valid_prop_type (aq_type req) then (ArError 400 ''invalid_type'', st1)
          else if aq_content req = Some [] then (ArError 400 ''empty_content'', st1)
          else finish_approval env tenant who i req p st1)"

definition admin_reject :: "'w reflect_env \<Rightarrow> dbid \<Rightarrow> dbid \<Rightarrow> dbid \<Rightarrow> string \<Rightarrow> 'w reflect_state \<Rightarrow> admin_reply \<times> 'w reflect_state" where
  "admin_reject env tenant who i reason st =
     (case on_props (mark_decided (pdb env) tenant i prop_rejected None (Some who)) st of
        (Inl e, st1) \<Rightarrow> (decision_error e, st1)
      | (Inr q, st1) \<Rightarrow> (ArProposal q, audit_ref (RaRejected tenant who (pp_id q) reason) st1))"

text \<open>\<open>ExpireStalePendingProposals\<close>, over the proposals of all tenants.\<close>

definition one_day :: int where "one_day = 86400 * 10 ^ 9"

definition expire_stale :: "db_env \<Rightarrow> int \<Rightarrow> nat prop_act" where
  "expire_stale env ttl =
     (if ttl \<le> 0 then give (Inr 0)
      else prop_exec env ''expire stale proposals'' (\<lambda>n rows.
        let old = (\<lambda>p. pp_status p = prop_pending \<and> pp_created p < de_now env n - ttl * one_day)
        in (Inr (length (filter old rows)),
            map (\<lambda>p. if old p then p\<lparr>pp_status := prop_rejected, pp_decided_at := Some (de_now env n)\<rparr> else p) rows)))"

text \<open>The memory service behind the interface (\<open>reflectionMemoryAdapter\<close>).\<close>

definition create_for_reflection :: "mem_env \<Rightarrow> dbid \<Rightarrow> dbid \<Rightarrow> string \<Rightarrow> string \<Rightarrow> string list \<Rightarrow> (dbid \<times> bool) mem_act" where
  "create_for_reflection env tenant user typ content tags =
     and_then (Memory.create_memory env tenant user
         \<lparr>cy_type = typ, cy_content = content, cy_tags = tags, cy_source = ''reflection'', cy_source_msg = None\<rparr>)
       (\<lambda>(m, created). give (Inr (mm_id m, \<not> created)))"

end
