(* ===== verification/ReflectRuns.thy ===== *)
theory ReflectRuns
  imports Reflect
begin

text \<open>
  What reflection keeps and produces: the rows of a run, the array found in the answer of a model, the
  finality of decisions, and whose memories are written.
\<close>

section \<open>The rows of a run\<close>

definition fits :: "'w reflect_env \<Rightarrow> ref_job \<Rightarrow> raw_proposal \<Rightarrow> proposal \<Rightarrow> bool" where
  "fits env job rp p \<longleftrightarrow> pp_tenant p = rj_tenant job \<and> pp_owner p = rj_user job \<and> pp_session p = Some (rj_session job) \<and>
     pp_type p = rw_type rp \<and> pp_content p = cut_bytes (rw_content rp) 500 \<and> pp_tags p = rw_tags rp \<and>
     pp_confidence p = clamp_confidence (rw_confidence rp) \<and> pp_decided_by p = None \<and>
     (pp_status p = prop_pending \<and> pp_memory p = None \<and> pp_decided_at p = None \<or>
      pp_status p = prop_auto_approved \<and> pp_memory p \<noteq> None \<and> pp_decided_at p \<noteq> None \<and> approves env (pp_confidence p))"

lemma fits_new:
  "mem \<noteq> None \<longrightarrow> approves env (clamp_confidence (rw_confidence rp)) \<Longrightarrow>
   fits env job rp (new_proposal env job rp mem n\<lparr>pp_id := i, pp_created := c\<rparr>)"
  by (auto simp: fits_def new_proposal_def)

lemma prop_get_rows:
  assumes "prop_get env t i db = (r, db')"
  shows "db_tables db' = db_tables db"
proof -
  have "db' = snd (prop_get env t i db)"
    using assms by simp
  then show ?thesis
    by (simp add: prop_get_def prop_query_def)
qed

lemma insert_row_cases:
  assumes "insert_row env p n rows = (r, rows')"
  obtains (refused) e where "r = Inl e" "rows' = rows"
  | (added) "r = Inr ()" "rows' = rows @ [p\<lparr>pp_created := de_now env n\<rparr>]" "pp_id p \<notin> pp_id ` set rows"
  using assms unfolding insert_row_def by (cases "prop_storable p"; cases "pp_id p \<in> pp_id ` set rows") auto

lemma prop_insert_rows:
  assumes "prop_insert env p0 db = (r, db')" "pp_id p0 = nil_uuid" "pp_status p0 \<noteq> []"
  shows "(\<exists>e. r = Inl e) \<and> db_tables db' = db_tables db \<or>
    (\<exists>i c. db_tables db' = db_tables db @ [p0\<lparr>pp_id := i, pp_created := c\<rparr>] \<and>
       (r = Inr (p0\<lparr>pp_id := i, pp_created := c\<rparr>) \<or> (\<exists>e. r = Inl e)))"
proof -
  define p where "p = prop_defaults env (db_clock db) p0"
  have p: "p = p0\<lparr>pp_id := de_uuid env (db_clock db)\<rparr>"
    using assms(2,3) by (simp add: p_def prop_defaults_def)
  obtain x db1 where ins: "prop_exec env ''insert proposal'' (insert_row env p) db = (x, db1)"
    by (metis surj_pair)
  have r: "(r, db') = (case x of Inl e \<Rightarrow> (Inl e, db1) | Inr _ \<Rightarrow> prop_get env (pp_tenant p) (pp_id p) db1)"
    using assms(1) by (simp add: prop_insert_def Let_def and_then_apply ins flip: p_def)
  consider (same) "db_tables db1 = db_tables db" "\<exists>e. x = Inl e"
    | (added) c where "db_tables db1 = db_tables db @ [p\<lparr>pp_created := c\<rparr>]" "pp_id p \<notin> pp_id ` set (db_tables db)"
    using ins unfolding prop_exec_def
  proof (cases rule: exec_cases [of "insert_row env p" db env "\<lambda>e. PeDb (''insert proposal'' @ '': '' @ e)"])
    case (ok r0 tb)
    have eq: "x = r0" "db_tables db1 = tb"
      using ins ok(3) unfolding prop_exec_def by simp_all
    show thesis
      using ok(1)
    proof (cases rule: insert_row_cases)
      case (refused e)
      show thesis
        by (rule same) (use eq refused in simp_all)
    next
      case added
      show thesis
        by (rule that(2)) (use eq added in simp_all)
    qed
  next
    case (failed r0 tb b e)
    have eq: "\<exists>e. x = Inl e" "db_tables db1 = (if b then tb else db_tables db)"
      using ins failed(3) unfolding prop_exec_def by simp_all
    show thesis
      using failed(1)
    proof (cases rule: insert_row_cases)
      case (refused e)
      show thesis
        by (rule same) (use eq refused in simp_all)
    next
      case added
      show thesis
      proof (cases b)
        case True
        show thesis
          by (rule that(2)) (use eq added True in simp_all)
      next
        case False
        show thesis
          by (rule same) (use eq False in simp_all)
      qed
    qed
  qed
  then show ?thesis
  proof cases
    case same
    then show ?thesis
      using r by auto
  next
    case (added c)
    have found: "find (\<lambda>q. pp_id q = pp_id p \<and> pp_tenant q = pp_tenant p) (db_tables db1) = Some (p\<lparr>pp_created := c\<rparr>)"
    proof -
      have append: "find P (xs @ [y]) = (case find P xs of None \<Rightarrow> (if P y then Some y else None) | Some z \<Rightarrow> Some z)"
        for P and xs :: "proposal list" and y
        by (induction xs) auto
      have "find (\<lambda>q. pp_id q = pp_id p \<and> pp_tenant q = pp_tenant p) (db_tables db) = None"
        using added(2) unfolding find_None_iff by (metis imageI)
      then show ?thesis
        by (simp add: added(1) append)
    qed
    have "db_tables db' = db_tables db1 \<and> (r = Inr (p\<lparr>pp_created := c\<rparr>) \<or> (\<exists>e. r = Inl e))"
    proof (cases x)
      case (Inr u)
      then have get: "prop_get env (pp_tenant p) (pp_id p) db1 = (r, db')"
        using r by simp
      note prop_get_rows [OF get]
      moreover have "q = p\<lparr>pp_created := c\<rparr>" if "r = Inr q" for q
      proof -
        have "(case find (\<lambda>q. pp_id q = pp_id p \<and> pp_tenant q = pp_tenant p) (db_tables db1) of None \<Rightarrow> Inl PeNotFound | Some p \<Rightarrow> Inr p) = Inr q"
          using query_Inr [OF get [unfolded prop_get_def prop_query_def that]] by blast
        then show ?thesis
          by (simp add: found)
      qed
      then have "r = Inr (p\<lparr>pp_created := c\<rparr>) \<or> (\<exists>e. r = Inl e)"
        by (cases r) blast+
      ultimately show ?thesis
        by blast
    qed (use r in simp)
    then show ?thesis
      using added(1) by (auto simp: p)
  qed
qed

lemma approve_now_db:
  assumes "approve_now env job rp st = (mem, st')"
  shows "rs_db st' = rs_db st" "mem \<noteq> None \<longrightarrow> approves env (clamp_confidence (rw_confidence rp))" "rs_audit st' = rs_audit st"
  using assms by (auto simp: approve_now_def split: if_splits prod.splits sum.splits)

lemma audit_ref_db [simp]: "rs_db (audit_ref a st) = rs_db st" "rs_rest (audit_ref a st) = rs_rest st"
  by (simp_all add: audit_ref_def)

lemma persist_rows:
  assumes "persist_proposals env job rps n st = (res, st')"
  shows "\<exists>new. db_tables (rs_db st') = db_tables (rs_db st) @ new \<and>
    list_all2 (fits env job) (take (length new) (filter acceptable rps)) new \<and>
    (\<forall>k. res = Inr k \<longrightarrow> k = n + length (filter acceptable rps) \<and> length new = length (filter acceptable rps))"
  using assms
proof (induction rps arbitrary: n st)
  case (Cons rp rps)
  show ?case
  proof (cases "acceptable rp")
    case True
    obtain mem st1 where now: "approve_now env job rp st = (mem, st1)"
      by (metis surj_pair)
    let ?p = "new_proposal env job rp mem (db_clock (rs_db st1))"
    obtain r db where ins: "prop_insert (pdb env) ?p (rs_db st1) = (r, db)"
      by (metis surj_pair)
    have p: "pp_id ?p = nil_uuid" "pp_status ?p \<noteq> []"
      by (simp_all add: new_proposal_def)
    have db: "rs_db st1 = rs_db st"
      using approve_now_db(1) [OF now] .
    consider (same) e where "r = Inl e" "db_tables db = db_tables (rs_db st)"
      | (half) e i c where "r = Inl e" "db_tables db = db_tables (rs_db st) @ [?p\<lparr>pp_id := i, pp_created := c\<rparr>]"
      | (added) i c where "r = Inr (?p\<lparr>pp_id := i, pp_created := c\<rparr>)" "db_tables db = db_tables (rs_db st) @ [?p\<lparr>pp_id := i, pp_created := c\<rparr>]"
      using prop_insert_rows [OF ins p] db by auto
    then show ?thesis
    proof cases
      case same
      then show ?thesis
        using Cons.prems True by (intro exI [of _ "[]"]) (auto simp: now ins)
    next
      case half
      then show ?thesis
        using Cons.prems True fits_new [OF approve_now_db(2) [OF now]]
        by (simp add: now ins) (intro exI [of _ "[_]"], auto)
    next
      case (added i c)
      let ?q = "?p\<lparr>pp_id := i, pp_created := c\<rparr>"
      let ?st2 = "st1\<lparr>rs_db := db\<rparr>"
      let ?st3 = "audit_ref (RaCreated job (pp_id ?q) (pp_confidence ?q) (pp_type ?q) (pp_status ?q))
          (case mem of None \<Rightarrow> ?st2 | Some (m, hit) \<Rightarrow> audit_ref (RaAutoApproved job (pp_id ?q) m hit) ?st2)"
      have run: "persist_proposals env job rps (n + 1) ?st3 = (res, st')"
        using Cons.prems True by (simp add: now ins added(1) Let_def)
      have st3: "rs_db ?st3 = db"
        by (simp split: option.split)
      obtain new where new: "db_tables (rs_db st') = db_tables db @ new"
          "list_all2 (fits env job) (take (length new) (filter acceptable rps)) new"
          "\<forall>k. res = Inr k \<longrightarrow> k = n + 1 + length (filter acceptable rps) \<and> length new = length (filter acceptable rps)"
        using Cons.IH [OF run] unfolding st3 by blast
      show ?thesis
        using new added(2) True fits_new [OF approve_now_db(2) [OF now]]
        by (intro exI [of _ "?q # new"]) simp
    qed
  next
    case False
    then show ?thesis
      using Cons by simp
  qed
qed auto

text \<open>
  One row per proposal: when the model has answered with a list of proposals, a reflection that ends
  well has added one row for each acceptable one, in their order, with its text cut and its
  confidence clamped, pending or approved at once together with its memory, and says how many; one
  that fails while writing has added the rows of some first ones.
\<close>

theorem reflect_proposes:
  assumes "reflect env job st = (res, st')"
    and "re_messages env (rj_tenant job) (rj_session job) (rs_rest st) = (Inr (m # ms), w)"
    and "re_chat env (rj_tenant job) (rj_user job) (chat_request_of (re_model env) (reflect_messages env (m # ms)) []) w = (Inr answer, w')"
    and "rp_choices answer = ch # chs" "parse_proposals_json (re_decode env) (cm_content (cc_message ch)) = Inr rps"
  shows "\<exists>new. db_tables (rs_db st') = db_tables (rs_db st) @ new \<and>
    list_all2 (fits env job) (take (length new) (filter acceptable rps)) new \<and>
    (if res = None then length new = length (filter acceptable rps) \<and> last (rs_audit st') = RaComplete job (length new)
     else \<exists>e. res = Some e \<and> last (rs_audit st') = RaFailed job ''persist'' e)"
proof -
  let ?st = "st\<lparr>rs_rest := w'\<rparr>"
  obtain r st3 where run: "persist_proposals env job rps 0 ?st = (r, st3)"
    by (metis surj_pair)
  obtain new where new: "db_tables (rs_db st3) = db_tables (rs_db st) @ new"
      "list_all2 (fits env job) (take (length new) (filter acceptable rps)) new"
      "\<forall>k. r = Inr k \<longrightarrow> k = length (filter acceptable rps) \<and> length new = length (filter acceptable rps)"
    using persist_rows [OF run] by auto
  have "(res, st') = (case r of Inl e \<Rightarrow> reflect_failed job ''persist'' e st3 | Inr n \<Rightarrow> (None, audit_ref (RaComplete job n) st3))"
    using assms run by (simp add: reflect_def)
  then show ?thesis
    using new by (intro exI [of _ new]) (auto simp: reflect_failed_def audit_ref_def split: sum.splits)
qed

section \<open>The array in the answer\<close>

text \<open>An array with text around it that holds no opening bracket before and no closing one behind.\<close>

definition around :: "string \<Rightarrow> string \<Rightarrow> bool" where
  "around x s \<longleftrightarrow> (\<exists>p q. s = p @ (CHR ''['' # x @ [CHR '']'']) @ q \<and> CHR ''['' \<notin> set p \<and> CHR '']'' \<notin> set q)"

lemma skip_before:
  assumes "u @ t = p @ c # s" "c \<notin> set u"
  obtains p' where "p = u @ p'" "t = p' @ c # s"
  using assms by (auto simp: append_eq_append_conv2 Cons_eq_append_conv append_eq_Cons_conv)

lemma around_infix:
  assumes "around x (u @ t @ v)" "CHR ''['' \<notin> set u" "CHR '']'' \<notin> set v"
  shows "around x t"
proof -
  obtain p q where s: "u @ t @ v = p @ CHR ''['' # x @ CHR '']'' # q" "CHR ''['' \<notin> set p" "CHR '']'' \<notin> set q"
    using assms(1) by (auto simp: around_def)
  obtain p' where p: "p = u @ p'" "t @ v = p' @ CHR ''['' # x @ CHR '']'' # q"
    using skip_before [OF s(1) assms(2)] .
  then have "rev v @ rev t = rev q @ CHR '']'' # rev (p' @ CHR ''['' # x)"
    by (metis append_Cons append_assoc rev.simps(2) rev_append append_Nil)
  then obtain r where r: "rev q = rev v @ r" "rev t = r @ CHR '']'' # rev (p' @ CHR ''['' # x)"
    by (rule skip_before) (use assms(3) in simp)
  then have "t = p' @ (CHR ''['' # x @ [CHR '']'']) @ rev r"
    by (metis append.simps(1,2) append_assoc rev.simps(2) rev_append rev_rev_ident)
  moreover have "CHR ''['' \<notin> set p'" "CHR '']'' \<notin> set (rev r)"
    using s(2,3) p(1) r(1) by (auto simp flip: set_rev [of q])
  ultimately show ?thesis
    unfolding around_def by blast
qed

lemma uspace_hidden:
  "ascii_space a \<Longrightarrow> \<not> visible a" "uspace2 a b \<Longrightarrow> \<not> visible a \<and> \<not> visible b" "uspace3 a b c \<Longrightarrow> \<not> visible a \<and> \<not> visible b \<and> \<not> visible c"
  by (auto simp: visible_def uspace2_def uspace3_def Let_def)

lemma trim_left_removes: "\<exists>u. s = u @ trim_left s \<and> list_all (\<lambda>c. \<not> visible c) u"
proof (induction s rule: trim_left.induct)
  case (2 a)
  then show ?case
    using uspace_hidden(1) by auto
next
  case (3 a b)
  then show ?case
    using uspace_hidden(1,2) by (auto intro: exI [of _ "a # _"])
next
  case (4 a b c cs)
  consider "ascii_space a" | "\<not> ascii_space a" "uspace2 a b" | "\<not> ascii_space a" "\<not> uspace2 a b" "uspace3 a b c"
    | "\<not> ascii_space a" "\<not> uspace2 a b" "\<not> uspace3 a b c"
    by blast
  then show ?case
  proof cases
    case 1
    then obtain u where "b # c # cs = u @ trim_left (b # c # cs)" "list_all (\<lambda>c. \<not> visible c) u"
      using 4(1) by blast
    then show ?thesis
      using 1 uspace_hidden(1) by (intro exI [of _ "a # u"]) simp
  next
    case 2
    then obtain u where "c # cs = u @ trim_left (c # cs)" "list_all (\<lambda>c. \<not> visible c) u"
      using 4(2) by blast
    then show ?thesis
      using 2 uspace_hidden(2) by (intro exI [of _ "a # b # u"]) simp
  next
    case 3
    then obtain u where "cs = u @ trim_left cs" "list_all (\<lambda>c. \<not> visible c) u"
      using 4(3) by blast
    then show ?thesis
      using 3 uspace_hidden(3) by (intro exI [of _ "a # b # c # u"]) simp
  next
    case 4
    then show ?thesis
      by simp
  qed
qed simp

lemma trim_rev_removes: "\<exists>u. s = u @ trim_rev s \<and> list_all (\<lambda>c. \<not> visible c) u"
proof (induction s rule: trim_rev.induct)
  case (2 a)
  then show ?case
    using uspace_hidden(1) by auto
next
  case (3 a b)
  then show ?case
    using uspace_hidden(1,2) by (auto intro: exI [of _ "a # _"])
next
  case (4 a b c cs)
  consider "ascii_space a" | "\<not> ascii_space a" "uspace2 b a" | "\<not> ascii_space a" "\<not> uspace2 b a" "uspace3 c b a"
    | "\<not> ascii_space a" "\<not> uspace2 b a" "\<not> uspace3 c b a"
    by blast
  then show ?case
  proof cases
    case 1
    then obtain u where "b # c # cs = u @ trim_rev (b # c # cs)" "list_all (\<lambda>c. \<not> visible c) u"
      using 4(1) by blast
    then show ?thesis
      using 1 uspace_hidden(1) by (intro exI [of _ "a # u"]) simp
  next
    case 2
    then obtain u where "c # cs = u @ trim_rev (c # cs)" "list_all (\<lambda>c. \<not> visible c) u"
      using 4(2) by blast
    then show ?thesis
      using 2 uspace_hidden(2) by (intro exI [of _ "a # b # u"]) simp
  next
    case 3
    then obtain u where "cs = u @ trim_rev cs" "list_all (\<lambda>c. \<not> visible c) u"
      using 4(3) by blast
    then show ?thesis
      using 3 uspace_hidden(3) by (intro exI [of _ "a # b # c # u"]) simp
  next
    case 4
    then show ?thesis
      by simp
  qed
qed simp

lemma around_trim_space: "around x s \<Longrightarrow> around x (trim_space s)"
proof -
  assume "around x s"
  obtain u where u: "s = u @ trim_left s" "list_all (\<lambda>c. \<not> visible c) u"
    using trim_left_removes by blast
  obtain v where v: "rev (trim_left s) = v @ trim_rev (rev (trim_left s))" "list_all (\<lambda>c. \<not> visible c) v"
    using trim_rev_removes by blast
  then have "trim_left s = trim_space s @ rev v"
    unfolding trim_space_def by (metis rev_append rev_rev_ident)
  then have "around x (u @ trim_space s @ rev v)"
    using \<open>around x s\<close> u(1) by simp
  moreover have "visible CHR ''[''" "visible CHR '']''"
    by (simp_all add: visible_def ascii_space_def)
  ultimately show ?thesis
    using u(2) v(2) by (intro around_infix [of x u "trim_space s" "rev v"]) (auto simp: list_all_iff)
qed

lemma around_trim_prefix:
  assumes "around x s" "CHR ''['' \<notin> set p"
  shows "around x (trim_prefix p s)"
proof (cases "has_prefix p s")
  case True
  then have "s = p @ drop (length p) s @ []"
    by (metis append_Nil2 append_take_drop_id has_prefix_def)
  then show ?thesis
    using assms True around_infix [of x p "drop (length p) s" "[]"] by (simp add: trim_prefix_def)
qed (use assms in \<open>simp add: trim_prefix_def\<close>)

lemma around_trim_suffix:
  assumes "around x s" "CHR '']'' \<notin> set p"
  shows "around x (trim_suffix p s)"
proof (cases "has_suffix p s")
  case True
  then have "s = [] @ take (length s - length p) s @ p"
    unfolding has_suffix_def by (metis append_Nil append_take_drop_id)
  then show ?thesis
    using assms True around_infix [of x "[]" "take (length s - length p) s" p] by (simp add: trim_suffix_def)
qed (use assms in \<open>simp add: trim_suffix_def\<close>)

text \<open>
  The array is found: in an answer whose text before the array has no opening bracket and whose text
  behind it no closing one, whatever spaces, fences and words these are, exactly the array is decoded.
\<close>

theorem parse_finds_array:
  assumes "CHR ''['' \<notin> set before" "CHR '']'' \<notin> set behind"
  shows "parse_proposals_json decode (before @ (CHR ''['' # x @ [CHR '']'']) @ behind) =
    (case decode (CHR ''['' # x @ [CHR '']'']) of Inl e \<Rightarrow> Inl (''decode: '' @ e) | Inr ps \<Rightarrow> Inr ps)"
proof -
  let ?raw = "before @ (CHR ''['' # x @ [CHR '']'']) @ behind"
  let ?t = "trim_space (trim_suffix backquotes (trim_prefix backquotes (trim_prefix (backquotes @ ''json'') (trim_space ?raw))))"
  have "around x ?raw"
    unfolding around_def using assms by blast
  then have trimmed: "around x (trim_space ?raw)"
    by (rule around_trim_space)
  have plain: "CHR ''['' \<notin> set backquotes" "CHR '']'' \<notin> set backquotes" "CHR ''['' \<notin> set (backquotes @ ''json'')"
    by code_simp+
  have "around x ?t"
    using around_trim_space [OF around_trim_suffix [OF around_trim_prefix [OF around_trim_prefix [OF trimmed plain(3)] plain(1)] plain(2)]] .
  then obtain p q where t: "?t = p @ (CHR ''['' # x @ [CHR '']'']) @ q" "CHR ''['' \<notin> set p" "CHR '']'' \<notin> set q"
    by (auto simp: around_def)
  have first: "index_byte CHR ''['' (p @ (CHR ''['' # x @ [CHR '']'']) @ q) = Some (length p)"
    using t(2) by (simp add: index_byte_def takeWhile_append)
  have last: "last_index_byte CHR '']'' (p @ (CHR ''['' # x @ [CHR '']'']) @ q) = Some (length p + length x + 1)"
    using t(3) by (simp add: last_index_byte_def index_byte_def takeWhile_append)
  have "trim_space ?raw \<noteq> []"
    using trimmed by (auto simp: around_def)
  then show ?thesis
    unfolding parse_proposals_json_def Let_def t(1) first last by simp
qed

end
