(* ===== verification/Decisions.thy ===== *)
theory Decisions
  imports ReflectRuns
begin

text \<open>
  What administrators decide about proposals (admin_handler.go of \<open>src/internal/reflection\<close>), and
  whose memories the component writes: the requests as steps on one state, the rows that are
  decided stay decided, and the memory service stands behind the locale \<open>memory_writer\<close>.
\<close>

section \<open>Decisions\<close>

datatype reflect_req =
    RfReflect ref_job | RfList dbid prop_filter | RfGet dbid dbid | RfApprove dbid dbid dbid approve_req
  | RfReject dbid dbid dbid string | RfExpire int

fun after_reflection :: "'w reflect_env \<Rightarrow> reflect_req \<Rightarrow> 'w reflect_state \<Rightarrow> 'w reflect_state" where
  "after_reflection env (RfReflect job) st = snd (reflect env job st)"
| "after_reflection env (RfList tenant f) st = snd (admin_list env tenant f st)"
| "after_reflection env (RfGet tenant i) st = snd (admin_get env tenant i st)"
| "after_reflection env (RfApprove tenant who i req) st = snd (admin_approve env tenant who i req st)"
| "after_reflection env (RfReject tenant who i reason) st = snd (admin_reject env tenant who i reason st)"
| "after_reflection env (RfExpire ttl) st = st\<lparr>rs_db := snd (expire_stale (pdb env) ttl (rs_db st))\<rparr>"

text \<open>What a request may make of a row.\<close>

definition decides :: "reflect_req \<Rightarrow> proposal \<Rightarrow> proposal \<Rightarrow> bool" where
  "decides rq p p' \<longleftrightarrow> p' = p \<or> pp_status p = prop_pending \<and>
     ((\<exists>who req m now. rq = RfApprove (pp_tenant p) who (pp_id p) req \<and> p' = decided_row prop_approved (Some m) now (Some who) p) \<or>
      (\<exists>who reason now. rq = RfReject (pp_tenant p) who (pp_id p) reason \<and> p' = decided_row prop_rejected None now (Some who) p) \<or>
      (\<exists>ttl now. rq = RfExpire ttl \<and> p' = p\<lparr>pp_status := prop_rejected, pp_decided_at := Some now\<rparr>))"

lemma decides_same: "list_all2 (decides rq) rows rows"
  by (simp add: decides_def list_all2_refl)

lemma prop_exec_rows:
  "prop_exec env what run db = (r, db') \<Longrightarrow>
   db_tables db' = db_tables db \<or> db_tables db' = snd (run (db_clock db) (db_tables db))"
  unfolding prop_exec_def by (cases rule: exec_cases [of run db env "\<lambda>e. PeDb (what @ '': '' @ e)"]) auto

lemma prop_query_rows: "prop_query env what ask db = (r, db') \<Longrightarrow> db_tables db' = db_tables db"
  using query_tables [of env "\<lambda>e. PeDb (what @ '': '' @ e)" ask db] by (simp add: prop_query_def)

lemma mark_decided_rows:
  assumes "mark_decided env t i target mem who db = (r, db')"
  shows "db_tables db' = db_tables db \<or> (\<exists>now. db_tables db' = decide_row t i (decided_row target mem now who) (db_tables db))"
proof (cases "target \<in> {prop_approved, prop_auto_approved, prop_rejected}")
  case True
  obtain x db1 where upd: "prop_exec env ''mark decided'' (decide_rows env t i target mem who) db = (x, db1)"
    by (metis surj_pair)
  have rows: "db_tables db1 = db_tables db \<or> db_tables db1 = decide_row t i (decided_row target mem (de_now env (db_clock db)) who) (db_tables db)"
    using prop_exec_rows [OF upd] by (simp add: decide_rows_def)
  have after: "(r, db') = (case x of Inl e \<Rightarrow> (Inl e, db1) | Inr hit \<Rightarrow> report_decision env t i hit db1)"
  proof -
    have "mark_decided env t i target mem who = and_then (prop_exec env ''mark decided'' (decide_rows env t i target mem who)) (report_decision env t i)"
      unfolding mark_decided_def using True by simp
    then show ?thesis
      using assms by (simp add: and_then_apply upd split: sum.split)
  qed
  have "db_tables db' = db_tables db1"
  proof (cases x)
    case (Inr hit)
    obtain y db2 where get: "prop_get env t i db1 = (y, db2)"
      by (metis surj_pair)
    have "db' = db2"
      using after by (cases hit; cases y) (simp_all add: Inr report_decision_def branch_def get)
    then show ?thesis
      using prop_get_rows [OF get] by simp
  qed (use after in simp)
  then show ?thesis
    using rows by auto
qed (use assms in \<open>auto simp: mark_decided_def\<close>)

lemma decides_map: "(\<And>p. decides rq p (f p)) \<Longrightarrow> list_all2 (decides rq) rows (map f rows)"
  by (simp add: list_all2_map2 list_all2_refl)

lemma decide_row_decides:
  assumes "\<And>p. pp_id p = i \<Longrightarrow> pp_tenant p = t \<Longrightarrow> pp_status p = prop_pending \<Longrightarrow> decides rq p (f p)"
  shows "list_all2 (decides rq) rows (decide_row t i f rows)"
proof -
  have "decides rq p (if pp_id p = i \<and> pp_tenant p = t \<and> pp_status p = prop_pending then f p else p)" for p
    using assms by (simp add: decides_def)
  then show ?thesis
    unfolding decide_row_def by (rule decides_map)
qed

lemma on_props_rows: "on_props m st = (r, st') \<Longrightarrow> \<exists>db'. m (rs_db st) = (r, db') \<and> rs_db st' = db' \<and> rs_rest st' = rs_rest st"
  by (auto simp: on_props_def split: prod.splits)

lemma finish_approval_rows:
  assumes "finish_approval env t who i req p st = (reply, st')"
  shows "rs_db st' = rs_db st \<or> (\<exists>m w x st3. rs_db st' = rs_db st3 \<and>
    on_props (mark_decided (pdb env) t i prop_approved (Some m) (Some who)) (st\<lparr>rs_rest := w\<rparr>) = (x, st3))"
  using assms by (fastforce simp: finish_approval_def split: prod.splits sum.splits)

lemma admin_approve_cases:
  assumes "admin_approve env t who i req st = (reply, st')" "on_props (prop_get (pdb env) t i) st = (r, st1)"
  obtains "st' = st1" | p where "r = Inr p" "finish_approval env t who i req p st1 = (reply, st')"
  using assms by (auto simp: admin_approve_def split: sum.splits if_splits)

lemma admin_approve_rows:
  assumes "admin_approve env t who i req st = (reply, st')" "on_props (prop_get (pdb env) t i) st = (r, st1)"
  shows "rs_db st' = rs_db st1 \<or> (\<exists>m w x st3. rs_db st' = rs_db st3 \<and>
    on_props (mark_decided (pdb env) t i prop_approved (Some m) (Some who)) (st1\<lparr>rs_rest := w\<rparr>) = (x, st3))"
  using admin_approve_cases [OF assms] finish_approval_rows by metis

lemma on_props_rest: "on_props m st = (r, st') \<Longrightarrow> rs_rest st' = rs_rest st"
  using on_props_rows by blast

lemma approve_decides:
  "list_all2 (decides (RfApprove t who i req)) (db_tables (rs_db st)) (db_tables (rs_db (snd (admin_approve env t who i req st))))"
proof -
  let ?rq = "RfApprove t who i req"
  obtain r st1 where get: "on_props (prop_get (pdb env) t i) st = (r, st1)"
    by (metis surj_pair)
  have st1: "db_tables (rs_db st1) = db_tables (rs_db st)"
    using on_props_rows [OF get] prop_get_rows by metis
  have mark: "list_all2 (decides ?rq) (db_tables (rs_db st2)) (db_tables (rs_db st3))"
    if "on_props (mark_decided (pdb env) t i prop_approved (Some m) (Some who)) st2 = (x, st3)" for st2 m x st3
  proof -
    have "decides ?rq p (decided_row prop_approved (Some m) now (Some who) p)"
      if "pp_id p = i" "pp_tenant p = t" "pp_status p = prop_pending" for p now
      using that by (auto simp: decides_def)
    then show ?thesis
      using on_props_rows [OF that] mark_decided_rows decide_row_decides decides_same by metis
  qed
  obtain reply st' where run: "admin_approve env t who i req st = (reply, st')"
    by (metis surj_pair)
  from admin_approve_rows [OF run get] show ?thesis
  proof (elim disjE exE conjE)
    assume "rs_db st' = rs_db st1"
    then show ?thesis
      using st1 decides_same by (simp add: run)
  next
    fix m w x st3
    assume "rs_db st' = rs_db st3"
      and "on_props (mark_decided (pdb env) t i prop_approved (Some m) (Some who)) (st1\<lparr>rs_rest := w\<rparr>) = (x, st3)"
    then show ?thesis
      using mark [of m "st1\<lparr>rs_rest := w\<rparr>" x st3] st1 by (simp add: run)
  qed
qed

lemma reject_decides:
  "list_all2 (decides (RfReject t who i reason)) (db_tables (rs_db st)) (db_tables (rs_db (snd (admin_reject env t who i reason st))))"
proof -
  let ?rq = "RfReject t who i reason"
  obtain x st1 where mark: "on_props (mark_decided (pdb env) t i prop_rejected None (Some who)) st = (x, st1)"
    by (metis surj_pair)
  have "decides ?rq p (decided_row prop_rejected None now (Some who) p)"
    if "pp_id p = i" "pp_tenant p = t" "pp_status p = prop_pending" for p now
    using that by (auto simp: decides_def)
  then have "list_all2 (decides ?rq) (db_tables (rs_db st)) (db_tables (rs_db st1))"
    using on_props_rows [OF mark] mark_decided_rows decide_row_decides decides_same by metis
  then show ?thesis
    by (simp add: admin_reject_def mark split: sum.split)
qed

lemma expire_decides:
  "list_all2 (decides (RfExpire ttl)) (db_tables db) (db_tables (snd (expire_stale env ttl db)))"
proof -
  obtain r db' where run: "expire_stale env ttl db = (r, db')"
    by (metis surj_pair)
  let ?f = "\<lambda>p. if pp_status p = prop_pending \<and> pp_created p < de_now env (db_clock db) - ttl * one_day
      then p\<lparr>pp_status := prop_rejected, pp_decided_at := Some (de_now env (db_clock db))\<rparr> else p"
  have "list_all2 (decides (RfExpire ttl)) (db_tables db) (map ?f (db_tables db))"
    by (rule decides_map) (auto simp: decides_def)
  moreover have "db_tables db' = db_tables db \<or> db_tables db' = map ?f (db_tables db)"
    using run by (auto simp: expire_stale_def Let_def split: if_splits dest!: prop_exec_rows)
  ultimately show ?thesis
    using run decides_same by auto
qed

lemma reflect_adds:
  "\<exists>new. db_tables (rs_db (snd (reflect env job st))) = db_tables (rs_db st) @ new \<and> (\<forall>p \<in> set new. \<exists>rp. fits env job rp p)"
proof -
  have none: ?thesis if "rs_db (snd (reflect env job st)) = rs_db st"
    using that by simp
  obtain msgs w where msgs: "re_messages env (rj_tenant job) (rj_session job) (rs_rest st) = (msgs, w)"
    by (metis surj_pair)
  show ?thesis
  proof (cases "\<exists>m ms. msgs = Inr (m # ms)")
    case False
    then have "msgs = Inr [] \<or> (\<exists>e. msgs = Inl e)"
      by (metis neq_Nil_conv sum.exhaust_sel)
    then show ?thesis
      by (intro none) (auto simp: reflect_def msgs reflect_failed_def)
  next
    case True
    then obtain m ms where mm: "msgs = Inr (m # ms)"
      by blast
    obtain answer w' where chat: "re_chat env (rj_tenant job) (rj_user job)
        (chat_request_of (re_model env) (reflect_messages env (m # ms)) []) w = (answer, w')"
      by (metis surj_pair)
    show ?thesis
    proof (cases "\<exists>a ch chs rps. answer = Inr a \<and> rp_choices a = ch # chs \<and>
        parse_proposals_json (re_decode env) (cm_content (cc_message ch)) = Inr rps")
      case True
      then obtain a ch chs rps where ok: "answer = Inr a" "rp_choices a = ch # chs"
          "parse_proposals_json (re_decode env) (cm_content (cc_message ch)) = Inr rps"
        by blast
      obtain r st3 where run: "persist_proposals env job rps 0 (st\<lparr>rs_rest := w'\<rparr>) = (r, st3)"
        by (metis surj_pair)
      obtain new where new: "db_tables (rs_db st3) = db_tables (rs_db st) @ new"
          "list_all2 (fits env job) (take (length new) (filter acceptable rps)) new"
        using persist_rows [OF run] by auto
      moreover have "rs_db (snd (reflect env job st)) = rs_db st3"
        using run by (cases r) (simp_all add: reflect_def msgs mm chat ok reflect_failed_def)
      moreover have "list_all2 Q xs ys \<Longrightarrow> \<forall>y \<in> set ys. \<exists>x. Q x y" for Q :: "raw_proposal \<Rightarrow> proposal \<Rightarrow> bool" and xs ys
        by (induction rule: list_all2_induct) auto
      ultimately show ?thesis
        by metis
    next
      case False
      then show ?thesis
        by (intro none) (auto simp: reflect_def msgs mm chat reflect_failed_def Let_def split: sum.splits list.splits)
    qed
  qed
qed

text \<open>
  C27. Decisions are final: a request changes a proposal only while it is pending, and then only its
  decision: an administrator of its own tenant approves it, with a memory, or rejects it, or it
  expires; whatever statements fail, no proposal is removed, and only a reflection adds some, for
  the user and session of its job.
\<close>

theorem decisions_final:
  "\<exists>rows' new. db_tables (rs_db (after_reflection env rq st)) = rows' @ new \<and> list_all2 (decides rq) (db_tables (rs_db st)) rows' \<and>
    (\<forall>p \<in> set new. \<exists>job. rq = RfReflect job \<and> pp_tenant p = rj_tenant job \<and> pp_owner p = rj_user job \<and>
       pp_session p = Some (rj_session job))"
proof -
  have same: ?thesis if "list_all2 (decides rq) (db_tables (rs_db st)) (db_tables (rs_db (after_reflection env rq st)))"
    using that by (intro exI [of _ "db_tables (rs_db (after_reflection env rq st))"] exI [of _ "[]"]) simp
  show ?thesis
  proof (cases rq)
    case (RfReflect job)
    obtain new where "db_tables (rs_db (snd (reflect env job st))) = db_tables (rs_db st) @ new" "\<forall>p \<in> set new. \<exists>rp. fits env job rp p"
      using reflect_adds by blast
    then show ?thesis
      using RfReflect decides_same [of rq "db_tables (rs_db st)"]
      by (intro exI [of _ "db_tables (rs_db st)"] exI [of _ new]) (auto simp: fits_def)
  next
    case (RfList t f)
    obtain r st1 where run: "on_props (prop_list (pdb env) t f) st = (r, st1)"
      by (metis surj_pair)
    then have "db_tables (rs_db st1) = db_tables (rs_db st)"
      using on_props_rows [OF run] by (auto simp: prop_list_def dest: prop_query_rows split: if_splits)
    then have "db_tables (rs_db (snd (admin_list env t f st))) = db_tables (rs_db st)"
      by (simp add: admin_list_def run split: sum.split)
    then show ?thesis
      using RfList decides_same by (intro same) simp
  next
    case (RfGet t i)
    obtain r st1 where run: "on_props (prop_get (pdb env) t i) st = (r, st1)"
      by (metis surj_pair)
    then have "db_tables (rs_db st1) = db_tables (rs_db st)"
      using on_props_rows [OF run] prop_get_rows by metis
    then have "db_tables (rs_db (snd (admin_get env t i st))) = db_tables (rs_db st)"
      by (simp add: admin_get_def run split: sum.split)
    then show ?thesis
      using RfGet decides_same by (intro same) simp
  qed (auto intro!: same approve_decides reject_decides expire_decides)
qed

section \<open>Whose memories are written\<close>

text \<open>
  The interface to the memories: creating one for a user keeps a relation between the worlds before
  and after that depends on the user.
\<close>

locale memory_writer =
  fixes create :: "dbid \<Rightarrow> dbid \<Rightarrow> string \<Rightarrow> string \<Rightarrow> string list \<Rightarrow> 'w \<Rightarrow> (dbid \<times> bool) result \<times> 'w"
    and keeps :: "dbid \<Rightarrow> dbid \<Rightarrow> 'w \<Rightarrow> 'w \<Rightarrow> bool"
  assumes keeps_refl: "keeps t u w w"
    and keeps_trans: "keeps t u a b \<Longrightarrow> keeps t u b c \<Longrightarrow> keeps t u a c"
    and create_keeps: "create t u ty content tags w = (r, w') \<Longrightarrow> keeps t u w w'"
begin

lemma approve_now_keeps:
  assumes "re_create env = create" "approve_now env job rp st = (mem, st')"
  shows "keeps (rj_tenant job) (rj_user job) (rs_rest st) (rs_rest st')"
  using assms create_keeps keeps_refl by (fastforce simp: approve_now_def split: if_splits prod.splits sum.splits)

lemma persist_keeps:
  assumes "re_create env = create" "persist_proposals env job rps n st = (r, st')"
  shows "keeps (rj_tenant job) (rj_user job) (rs_rest st) (rs_rest st')"
  using assms(2)
proof (induction rps arbitrary: n st)
  case Nil
  then show ?case
    by (simp add: keeps_refl)
next
  case (Cons rp rps)
  show ?case
  proof (cases "acceptable rp")
    case True
    obtain mem st1 where now: "approve_now env job rp st = (mem, st1)"
      by (metis surj_pair)
    obtain x db where ins: "prop_insert (pdb env) (new_proposal env job rp mem (db_clock (rs_db st1))) (rs_db st1) = (x, db)"
      by (metis surj_pair)
    note first = approve_now_keeps [OF assms(1) now]
    show ?thesis
    proof (cases x)
      case (Inl e)
      then have "rs_rest st' = rs_rest st1"
        using Cons.prems True by (auto simp: now ins Let_def)
      then show ?thesis
        using first by simp
    next
      case (Inr p)
      let ?st2 = "audit_ref (RaCreated job (pp_id p) (pp_confidence p) (pp_type p) (pp_status p))
          (case mem of None \<Rightarrow> st1\<lparr>rs_db := db\<rparr> | Some (m, hit) \<Rightarrow> audit_ref (RaAutoApproved job (pp_id p) m hit) (st1\<lparr>rs_db := db\<rparr>))"
      have "persist_proposals env job rps (n + 1) ?st2 = (r, st')"
        using Cons.prems True Inr by (simp add: now ins Let_def)
      from Cons.IH [OF this] have "keeps (rj_tenant job) (rj_user job) (rs_rest st1) (rs_rest st')"
        by (cases mem) (simp_all add: case_prod_beta)
      then show ?thesis
        using first keeps_trans by blast
    qed
  qed (use Cons in simp)
qed

lemma reflect_keeps:
  assumes "re_create env = create" "\<And>t s w. snd (re_messages env t s w) = w" "\<And>t u q w. snd (re_chat env t u q w) = w"
  shows "keeps (rj_tenant job) (rj_user job) (rs_rest st) (rs_rest (snd (reflect env job st)))"
proof -
  obtain msgs where msgs: "re_messages env (rj_tenant job) (rj_session job) (rs_rest st) = (msgs, rs_rest st)"
    using assms(2) by (metis prod.collapse)
  define answer where "answer = (\<lambda>q. fst (re_chat env (rj_tenant job) (rj_user job) q (rs_rest st)))"
  have chat: "re_chat env (rj_tenant job) (rj_user job) q (rs_rest st) = (answer q, rs_rest st)" for q
    using assms(3) unfolding answer_def by (metis prod.collapse)
  have persist: "keeps (rj_tenant job) (rj_user job) (rs_rest st) (rs_rest (snd (persist_proposals env job rps 0 st)))" for rps
    using persist_keeps [OF assms(1)] by (metis prod.collapse)
  have failed: "rs_rest (snd (reflect_failed job c e s)) = rs_rest s" for c e and s :: "'w reflect_state"
    by (simp add: reflect_failed_def)
  show ?thesis
    using persist
    by (auto simp: reflect_def msgs chat failed Let_def keeps_refl case_prod_beta split: sum.split list.split)
qed

lemma approve_keeps:
  assumes "re_create env = create"
  shows "\<exists>u. keeps t u (rs_rest st) (rs_rest (snd (admin_approve env t who i req st)))"
proof -
  obtain reply st' r st1 where run: "admin_approve env t who i req st = (reply, st')"
      and get: "on_props (prop_get (pdb env) t i) st = (r, st1)"
    by (metis surj_pair)
  have rest: "rs_rest st1 = rs_rest st"
    using on_props_rows [OF get] by blast
  from run get show ?thesis
  proof (cases rule: admin_approve_cases)
    case 1
    then show ?thesis
      using run rest keeps_refl by auto
  next
    case (2 p)
    obtain mem w where made: "re_create env t (pp_owner p) (case_option (pp_type p) id (aq_type req)) (case_option (pp_content p) id (aq_content req))
             (case_option (pp_tags p) id (aq_tags req)) (rs_rest st1) = (mem, w)"
      by (metis surj_pair)
    have "rs_rest st' = w"
      using 2(2) made
      by (auto simp: finish_approval_def split: sum.splits prod.splits dest: on_props_rows)
    moreover have "keeps t (pp_owner p) (rs_rest st1) w"
      using made unfolding assms(1) by (rule create_keeps)
    ultimately show ?thesis
      using rest run by auto
  qed
qed

end

text \<open>The memories of the program behind this interface.\<close>

definition memory_creator ::
  "mem_env \<Rightarrow> (mem_err \<Rightarrow> string) \<Rightarrow> dbid \<Rightarrow> dbid \<Rightarrow> string \<Rightarrow> string \<Rightarrow> string list \<Rightarrow> mem_db \<Rightarrow> (dbid \<times> bool) result \<times> mem_db" where
  "memory_creator menv tx t u typ content tags w =
     (case create_for_reflection menv t u typ content tags w of (Inl e, w') \<Rightarrow> (Inl (tx e), w') | (Inr x, w') \<Rightarrow> (Inr x, w'))"

interpretation reflection_memory: memory_writer "memory_creator menv tx"
  "\<lambda>t u a b. others t u (db_tables b) = others t u (db_tables a)" for menv tx
proof unfold_locales
  fix t u ty content tags w r w'
  assume run: "memory_creator menv tx t u ty content tags w = (r, w')"
  have "confined menv t u (create_for_reflection menv t u ty content tags)"
    unfolding create_for_reflection_def
    by (intro confined_then memory_confined_create) (auto simp: confined_give split: prod.split)
  then have "others t u (db_tables (snd (create_for_reflection menv t u ty content tags w))) = others t u (db_tables w)"
    by (simp add: confined_def)
  then show "others t u (db_tables w') = others t u (db_tables w)"
    using run by (auto simp: memory_creator_def split: prod.splits sum.splits)
qed simp_all

lemma mine_of_others: "(t, u) \<noteq> (t', u') \<Longrightarrow> mine t u rows = mine t u (others t' u' rows)"
  by (auto simp: mine_def others_def own_memory_def intro!: filter_cong)

lemma mine_unchanged:
  "others t' u' rows' = others t' u' rows \<Longrightarrow> t \<noteq> t' \<or> u \<noteq> u' \<Longrightarrow> mine t u rows' = mine t u rows"
  using mine_of_others [of t u t' u'] by (metis prod.inject)

text \<open>
  C28. Reflection writes only where it may: with the memory service of the program behind it, a
  reflection leaves the memories of everybody but the user of its job as they are, and whatever an
  administrator decides leaves the memories of other tenants as they are.
\<close>

theorem reflection_writes_own:
  assumes "re_create env = memory_creator menv tx"
    and "\<And>t s w. snd (re_messages env t s w) = w" "\<And>t u q w. snd (re_chat env t u q w) = w"
    and "mine t u (db_tables (rs_rest (after_reflection env rq st))) \<noteq> mine t u (db_tables (rs_rest st))"
  shows "(\<exists>job. rq = RfReflect job \<and> rj_tenant job = t \<and> rj_user job = u) \<or> (\<exists>who i req. rq = RfApprove t who i req)"
proof (cases rq)
  case (RfReflect job)
  then show ?thesis
    using assms(4) mine_unchanged [OF reflection_memory.reflect_keeps [OF assms(1-3), where job = job and st = st], of t u] by auto
next
  case (RfApprove t' who i req)
  obtain u' where "others t' u' (db_tables (rs_rest (snd (admin_approve env t' who i req st)))) = others t' u' (db_tables (rs_rest st))"
    using reflection_memory.approve_keeps [OF assms(1), where t = t' and st = st and who = who and i = i and req = req] by blast
  from mine_unchanged [OF this, of t u] show ?thesis
    using assms(4) RfApprove by auto
next
  case (RfList t' f)
  then show ?thesis
    using assms(4) by (auto simp: admin_list_def split: sum.splits prod.splits if_splits dest!: on_props_rest)
next
  case (RfGet t' i)
  then show ?thesis
    using assms(4) by (auto simp: admin_get_def split: sum.splits prod.splits dest!: on_props_rest)
next
  case (RfReject t' who i reason)
  then show ?thesis
    using assms(4) by (auto simp: admin_reject_def split: sum.splits prod.splits dest!: on_props_rest)
qed (use assms(4) in simp)

section \<open>Limits of the implementation\<close>

text \<open>A confidence of 0.9 does not reach a threshold of 0.9: it is rounded to 24 bits before the comparison.\<close>

lemma equal_confidence_not_approved:
  assumes "f64_of_ratio False 9 10 = Some x" "re_threshold env = x"
  shows "\<not> approves env (clamp_confidence x)"
proof -
  have len: "bitlen 9 = 4" "bitlen 10 = 4" "bitlen 8106479329266893 = 53"
    by (simp_all add: bitlen.simps)
  have x: "x = FFin False 8106479329266893 (- 53)"
    using assms(1) by (simp add: f64_of_ratio_def len round_div_def)
  have "clamp_confidence x = FFin False 15099494 (- 24)"
    by (simp add: x clamp_confidence_def to_f32_def len round_div_def scaled_def)
  then show ?thesis
    using assms(2) by (simp add: approves_def x f64_le_def scaled_def)
qed

text \<open>An approval that comes too late is refused, but the memory it has created stays.\<close>

lemma late_approval_keeps_memory:
  assumes "calm (pdb env)" "\<And>q. q \<in> set (db_tables (rs_db st)) \<Longrightarrow> pp_id q = i \<Longrightarrow> pp_tenant q = t \<Longrightarrow> pp_status q \<noteq> prop_pending"
    and "\<exists>q \<in> set (db_tables (rs_db st)). pp_id q = i \<and> pp_tenant q = t"
    and "re_create env t (pp_owner p) (case_option (pp_type p) id (aq_type req)) (case_option (pp_content p) id (aq_content req))
             (case_option (pp_tags p) id (aq_tags req)) (rs_rest st) = (Inr (m, hit), w)"
  shows "\<exists>st'. finish_approval env t who i req p st = (ArError 409 ''already_decided'', st') \<and> rs_rest st' = w"
proof -
  let ?rows = "db_tables (rs_db st)"
  have none: "\<not> list_ex (\<lambda>p. pp_id p = i \<and> pp_tenant p = t \<and> pp_status p = prop_pending) ?rows"
    using assms(2) by (auto simp: list_ex_iff)
  obtain q where q: "find (\<lambda>p. pp_id p = i \<and> pp_tenant p = t) ?rows = Some q"
    using assms(3) by (metis (mono_tags, lifting) find_None_iff option.exhaust)
  have same: "decide_row t i f ?rows = ?rows" for f
    using none by (auto simp: decide_row_def list_ex_iff intro!: map_idI)
  have "mark_decided (pdb env) t i prop_approved (Some m) (Some who) (rs_db st) = (Inl PeNotPending, (rs_db st)\<lparr>db_clock := Suc (Suc (db_clock (rs_db st)))\<rparr>)"
    using assms(1) none q
    by (simp add: mark_decided_def and_then_apply prop_exec_def exec_calm decide_rows_def same report_decision_def branch_def
        prop_get_def prop_query_def query_calm)
  then show ?thesis
    using assms(4) by (simp add: finish_approval_def on_props_def)
qed

section \<open>A reflection\<close>

definition demo_raw :: raw_proposal where
  "demo_raw = \<lparr>rw_type = ''lesson'', rw_content = ''tabs'', rw_tags = [], rw_confidence = FFin False 1 0\<rparr>"

definition demo_store :: mem_env where
  "demo_store =
     \<lparr>de_fault = (\<lambda>n. None), de_uuid = show_nat, de_now = int, mz_embed = None, mz_dim = 0, mz_model = [],
      mz_threshold = FFin False 0 0, mz_on_write = False, mz_dist = (\<lambda>a b. FNaN), mz_visits = (\<lambda>q m. True), mz_lower = (\<lambda>s. s)\<rparr>"

definition demo_answer :: chat_response where
  "demo_answer = \<lparr>rp_id = [], rp_object = [], rp_created = 0, rp_model = [],
     rp_choices = [\<lparr>cc_index = 0, cc_message = plain_message role_assistant ''[]'', cc_finish = ''stop''\<rparr>],
     rp_usage = \<lparr>us_prompt = 0, us_completion = 0, us_total = 0\<rparr>\<rparr>"

definition demo_chat_row :: chat_row where
  "demo_chat_row = \<lparr>cr_id = ''1'', cr_session = ''s'', cr_tenant = ''t'', cr_seq = 1, cr_role = ''user'', cr_content = ''tabs'',
     cr_call_id = [], cr_calls = [], cr_meta = None, cr_created = 0\<rparr>"

definition demo_reflect_env :: "mem_db reflect_env" where
  "demo_reflect_env =
     \<lparr>de_fault = (\<lambda>n. None), de_uuid = (\<lambda>n. ''p'' @ show_nat n), de_now = int, re_threshold = FFin False 1 (- 1), re_model = ''m'',
      re_prompt = [], re_max_messages = 20, re_max_chars = 500, re_messages = (\<lambda>t s w. (Inr [demo_chat_row], w)),
      re_chat = (\<lambda>t u q w. (Inr demo_answer, w)), re_create = memory_creator demo_store (\<lambda>e. []), re_decode = (\<lambda>s. Inr [demo_raw])\<rparr>"

definition demo_reflect_job :: ref_job where
  "demo_reflect_job = \<lparr>rj_id = ''j'', rj_tenant = ''t'', rj_user = ''u'', rj_session = ''s''\<rparr>"

definition demo_reflect_state :: "mem_db reflect_state" where
  "demo_reflect_state = \<lparr>rs_db = \<lparr>db_tables = [], db_clock = 0\<rparr>, rs_rest = \<lparr>db_tables = [], db_clock = 0\<rparr>, rs_audit = []\<rparr>"

lemma demo_reflect_parse: "parse_proposals_json d ''[]'' = (case d ''[]'' of Inl e \<Rightarrow> Inl (''decode: '' @ e) | Inr ps \<Rightarrow> Inr ps)"
proof -
  have "trim_space ''[]'' = ''[]''" "trim_space (trim_suffix backquotes (trim_prefix backquotes (trim_prefix (backquotes @ ''json'') ''[]''))) = ''[]''"
      "index_byte CHR ''['' ''[]'' = Some 0" "last_index_byte CHR '']'' ''[]'' = Some 1"
    by code_simp+
  then show ?thesis
    by (simp add: parse_proposals_json_def Let_def)
qed

lemma demo_acceptable: "acceptable demo_raw" "trim_space ''tabs'' = ''tabs''" "show_nat 0 = ''0''"
  by code_simp+

lemma demo_approved: "approves demo_reflect_env (clamp_confidence (rw_confidence demo_raw))"
  by (simp add: approves_def demo_reflect_env_def demo_raw_def clamp_confidence_def to_f32_def f64_le_def scaled_def bitlen.simps round_div_def)

lemma demo_created:
  "\<exists>m w. memory_creator demo_store (\<lambda>e. []) ''t'' ''u'' ''lesson'' ''tabs'' [] \<lparr>db_tables = [], db_clock = 0\<rparr> = (Inr (m, False), w) \<and>
     mine ''t'' ''u'' (db_tables w) \<noteq> []"
  by (simp add: memory_creator_def create_for_reflection_def Memory.create_memory_def demo_acceptable valid_type_def memory_types_def
      vector_enabled_def demo_store_def insert_new_def fresh_memory_def mem_insert_def mem_get_def mem_exec_def mem_query_def exec_def query_def
      and_then_apply mine_def own_memory_def db_env.truncate_def)

theorem reflect_proposes_witness:
  "\<exists>new. db_tables (rs_db (snd (reflect demo_reflect_env demo_reflect_job demo_reflect_state))) = new \<and>
     list_all2 (fits demo_reflect_env demo_reflect_job) (take (length new) [demo_raw]) new"
proof -
  have messages: "re_messages demo_reflect_env (rj_tenant demo_reflect_job) (rj_session demo_reflect_job) (rs_rest demo_reflect_state) =
      (Inr [demo_chat_row], rs_rest demo_reflect_state)"
    and chat: "re_chat demo_reflect_env (rj_tenant demo_reflect_job) (rj_user demo_reflect_job) q w = (Inr demo_answer, w)"
    and decoded: "parse_proposals_json (re_decode demo_reflect_env) (cm_content (cc_message (hd (rp_choices demo_answer)))) = Inr [demo_raw]"
    and choices: "rp_choices demo_answer = hd (rp_choices demo_answer) # []" for q w
    by (simp_all add: demo_reflect_env_def demo_answer_def demo_reflect_parse)
  show ?thesis
    using reflect_proposes [OF surjective_pairing messages chat choices decoded] demo_acceptable(1)
    by (auto simp: demo_reflect_state_def)
qed

theorem parse_finds_array_witness:
  "parse_proposals_json (\<lambda>s. if s = ''[1]'' then Inr [demo_raw] else Inl ''bad'') (''Here: '' @ (CHR ''['' # ''1'' @ [CHR '']'']) @ '' as asked'') =
   Inr [demo_raw]"
  by (subst parse_finds_array) simp_all

lemma demo_writes:
  "mine ''t'' ''u'' (db_tables (rs_rest (after_reflection demo_reflect_env (RfReflect demo_reflect_job) demo_reflect_state))) \<noteq> []"
proof -
  obtain m w where made: "memory_creator demo_store (\<lambda>e. []) ''t'' ''u'' ''lesson'' ''tabs'' [] \<lparr>db_tables = [], db_clock = 0\<rparr> = (Inr (m, False), w)"
    and row: "mine ''t'' ''u'' (db_tables w) \<noteq> []"
    using demo_created by blast
  have job: "rj_tenant demo_reflect_job = ''t''" "rj_user demo_reflect_job = ''u''"
    by (simp_all add: demo_reflect_job_def)
  have raw: "rw_type demo_raw = ''lesson''" "rw_content demo_raw = ''tabs''" "rw_tags demo_raw = []"
    by (simp_all add: demo_raw_def)
  have env: "re_messages demo_reflect_env t s v = (Inr [demo_chat_row], v)" "re_chat demo_reflect_env t u q v = (Inr demo_answer, v)"
    "re_create demo_reflect_env = memory_creator demo_store (\<lambda>e. [])" for t s u q v
    by (simp_all add: demo_reflect_env_def)
  have parsed: "parse_proposals_json (re_decode demo_reflect_env) ''[]'' = Inr [demo_raw]"
    by (simp add: demo_reflect_parse demo_reflect_env_def)
  have choices: "rp_choices demo_answer = [\<lparr>cc_index = 0, cc_message = plain_message role_assistant ''[]'', cc_finish = ''stop''\<rparr>]"
    "cm_content (plain_message role_assistant ''[]'') = ''[]''"
    by (simp_all add: demo_answer_def plain_message_def)
  have rest: "rs_rest demo_reflect_state = \<lparr>db_tables = [], db_clock = 0\<rparr>"
    by (simp add: demo_reflect_state_def)
  have "rs_rest (after_reflection demo_reflect_env (RfReflect demo_reflect_job) demo_reflect_state) = w"
    by (auto simp: reflect_def env parsed choices rest job raw demo_acceptable demo_approved approve_now_def made audit_ref_def
        reflect_failed_def Let_def split: sum.split prod.split)
  then show ?thesis
    using row by simp
qed

theorem reflection_writes_own_witness:
  "\<exists>job. RfReflect demo_reflect_job = RfReflect job \<and> rj_tenant job = ''t'' \<and> rj_user job = ''u''"
proof -
  have "(\<exists>job. RfReflect demo_reflect_job = RfReflect job \<and> rj_tenant job = ''t'' \<and> rj_user job = ''u'') \<or>
        (\<exists>who i req. RfReflect demo_reflect_job = RfApprove ''t'' who i req)"
  proof (rule reflection_writes_own)
    show "re_create demo_reflect_env = memory_creator demo_store (\<lambda>e. [])"
      by (simp add: demo_reflect_env_def)
    show "snd (re_messages demo_reflect_env t s w) = w" "snd (re_chat demo_reflect_env t u q w) = w" for t s u q w
      by (simp_all add: demo_reflect_env_def)
    show "mine ''t'' ''u'' (db_tables (rs_rest (after_reflection demo_reflect_env (RfReflect demo_reflect_job) demo_reflect_state))) \<noteq>
          mine ''t'' ''u'' (db_tables (rs_rest demo_reflect_state))"
      using demo_writes by (simp add: demo_reflect_state_def mine_def)
  qed
  then show ?thesis
    by blast
qed

definition demo_proposal :: proposal where
  "demo_proposal = \<lparr>pp_id = ''p'', pp_tenant = ''t'', pp_owner = ''u'', pp_session = Some ''s'', pp_type = ''lesson'', pp_content = ''tabs'',
     pp_tags = [], pp_confidence = FFin False 1 (- 1), pp_status = prop_pending, pp_memory = None, pp_decided_at = None, pp_decided_by = None,
     pp_created = 0\<rparr>"

theorem decisions_final_witness:
  "list_all2 (decides (RfReject ''t'' ''admin'' ''p'' [])) [demo_proposal]
     (db_tables (rs_db (after_reflection demo_reflect_env (RfReject ''t'' ''admin'' ''p'' [])
        (demo_reflect_state\<lparr>rs_db := \<lparr>db_tables = [demo_proposal], db_clock = 0\<rparr>\<rparr>))))"
  (is "list_all2 _ _ (db_tables (rs_db (after_reflection _ ?rq ?st)))")
proof -
  obtain rows' new where "db_tables (rs_db (after_reflection demo_reflect_env ?rq ?st)) = rows' @ new"
      "list_all2 (decides ?rq) [demo_proposal] rows'" "new = []"
    using decisions_final [of demo_reflect_env ?rq ?st] by (auto simp: demo_reflect_state_def simp del: after_reflection.simps)
  then show ?thesis
    by simp
qed

end
