(* ===== verification/Triggers.thy ===== *)
theory Triggers
  imports WfService Skills
begin

text \<open>
  Workflow triggers at run time: the claims, look-ups and token rotation of \<open>trigger_repo.go\<close>, the
  scheduler (\<open>trigger_scheduler.go\<close>), the public webhook (\<open>trigger_webhook_handler.go\<close>) and the trigger
  requests of \<open>service.go\<close> in \<open>src/internal/workflow\<close>. An instant is a number of nanoseconds. The
  time stamp \<open>last_run_at\<close>, which only the listing shows, is left out.
\<close>

section \<open>Rows\<close>

definition get_by_workflow_trigger :: "faults \<Rightarrow> uuid \<Rightarrow> uuid \<Rightarrow> string \<Rightarrow> tables \<Rightarrow> trig_row svc_result" where
  "get_by_workflow_trigger fault tenant workflow tid tb =
     (case fault ''get trigger'' of
        Some e \<Rightarrow> Inl (SvcErr (''scan trigger: '' @ e))
      | None \<Rightarrow>
          (case find (\<lambda>t. tg_tenant t = tenant \<and> tg_workflow t = workflow \<and> tg_trigger t = tid) (tb_triggers tb) of
             None \<Rightarrow> Inl ErrNotFound
           | Some t \<Rightarrow> Inr t))"

text \<open>An empty token stands for the value \<open>NULL\<close> of the column, which equals nothing.\<close>

definition has_token :: "string \<Rightarrow> trig_row \<Rightarrow> bool" where
  "has_token token t \<longleftrightarrow> tg_token t = token \<and> token \<noteq> []"

definition get_by_webhook_token :: "faults \<Rightarrow> string \<Rightarrow> tables \<Rightarrow> trig_row svc_result" where
  "get_by_webhook_token fault token tb =
     (case fault ''get by token'' of
        Some e \<Rightarrow> Inl (SvcErr (''scan trigger: '' @ e))
      | None \<Rightarrow> (case find (has_token token) (tb_triggers tb) of None \<Rightarrow> Inl ErrNotFound | Some t \<Rightarrow> Inr t))"

definition workflow_of :: "trig_row \<Rightarrow> tables \<Rightarrow> wf_row option" where
  "workflow_of t tb = find (\<lambda>w. wr_id w = tg_workflow t) (tb_workflows tb)"

definition get_webhook_trigger :: "faults \<Rightarrow> string \<Rightarrow> tables \<Rightarrow> (trig_row \<times> string \<times> bool) svc_result" where
  "get_webhook_trigger fault token tb =
     (case fault ''get webhook trigger'' of
        Some e \<Rightarrow> Inl (SvcErr (''scan webhook trigger: '' @ e))
      | None \<Rightarrow>
          (case find (\<lambda>t. has_token token t \<and> tg_kind t = TriggerWebhook \<and> workflow_of t tb \<noteq> None) (tb_triggers tb) of
             None \<Rightarrow> Inl ErrNotFound
           | Some t \<Rightarrow>
               (case workflow_of t tb of
                  None \<Rightarrow> Inl ErrNotFound
                | Some w \<Rightarrow> Inr (t, wr_slug w, wr_published w))))"

definition rotate_webhook_token ::
  "trig_env \<Rightarrow> faults \<Rightarrow> uuid \<Rightarrow> uuid \<Rightarrow> string \<Rightarrow> tables \<Rightarrow> string svc_result \<times> tables" where
  "rotate_webhook_token env fault tenant workflow tid tb =
     (case te_token env tid of
        Inl e \<Rightarrow> (Inl (SvcErr e), tb)
      | Inr token \<Rightarrow>
          let mine = (\<lambda>t. tg_tenant t = tenant \<and> tg_workflow t = workflow \<and> tg_trigger t = tid \<and> tg_kind t = TriggerWebhook)
          in case fault ''rotate webhook token'' of
               Some e \<Rightarrow> (Inl (SvcErr (''rotate webhook token: '' @ e)), tb)
             | None \<Rightarrow>
                 if list_ex mine (tb_triggers tb) then (Inr token, map_triggers mine (\<lambda>t. t\<lparr>tg_token := token\<rparr>) tb)
                 else (Inl ErrNotFound, tb))"

section \<open>Claims\<close>

record cron_claim =
  ck_id :: uuid
  ck_tenant :: uuid
  ck_workflow :: uuid
  ck_slug :: string
  ck_trigger :: string
  ck_cron :: string
  ck_timezone :: string
  ck_inputs :: json

definition due_cron :: "int \<Rightarrow> tables \<Rightarrow> trig_row \<Rightarrow> bool" where
  "due_cron now tb t \<longleftrightarrow> tg_kind t = TriggerCron \<and> tg_enabled t \<and>
     (case workflow_of t tb of None \<Rightarrow> False | Some w \<Rightarrow> wr_published w) \<and>
     (case tg_next_run t of None \<Rightarrow> False | Some n \<Rightarrow> n \<le> now)"

definition claim_of :: "tables \<Rightarrow> trig_row \<Rightarrow> cron_claim" where
  "claim_of tb t =
     \<lparr>ck_id = tg_id t, ck_tenant = tg_tenant t, ck_workflow = tg_workflow t,
      ck_slug = (case workflow_of t tb of None \<Rightarrow> [] | Some w \<Rightarrow> wr_slug w), ck_trigger = tg_trigger t,
      ck_cron = tg_cron t, ck_timezone = tg_timezone t, ck_inputs = tg_inputs t\<rparr>"

text \<open>\<open>FOR UPDATE OF t SKIP LOCKED\<close>: \<open>locked\<close> are the rows that other transactions hold.\<close>

definition due_rows :: "int \<Rightarrow> uuid set \<Rightarrow> int \<Rightarrow> tables \<Rightarrow> trig_row list" where
  "due_rows limit locked now tb =
     take (nat (if limit \<le> 0 \<or> limit > 64 then 32 else limit))
       (sort_key (\<lambda>t. case tg_next_run t of None \<Rightarrow> now | Some n \<Rightarrow> n)
         (filter (\<lambda>t. due_cron now tb t \<and> tg_id t \<notin> locked) (tb_triggers tb)))"

text \<open>
  The loop over the claims: \<open>cron expr zone\<close> is the next run after the time the loop has read, the
  error of an expression is stored, and the claim dropped.
\<close>

definition set_trigger :: "uuid \<Rightarrow> (trig_row \<Rightarrow> trig_row) \<Rightarrow> tables \<Rightarrow> tables" where
  "set_trigger i = map_triggers (\<lambda>t. tg_id t = i)"

fun advance_claims ::
  "(string \<Rightarrow> string \<Rightarrow> int result) \<Rightarrow> faults \<Rightarrow> cron_claim list \<Rightarrow> tables \<Rightarrow> cron_claim list svc_result \<times> tables" where
  "advance_claims cron fault [] tb = (Inr [], tb)"
| "advance_claims cron fault (c # cs) tb =
     (case cron (ck_cron c) (ck_timezone c) of
        Inl e \<Rightarrow>
          (case fault (''store error of '' @ ck_id c) of
             Some u \<Rightarrow> (Inl (SvcErr u), tb)
           | None \<Rightarrow> advance_claims cron fault cs
                       (set_trigger (ck_id c) (\<lambda>t. t\<lparr>tg_last_error := take 2000 e, tg_last_status := ''failed''\<rparr>) tb))
      | Inr n \<Rightarrow>
          (case fault (''advance '' @ ck_id c) of
             Some u \<Rightarrow> (Inl (SvcErr (''advance next_run_at: '' @ u)), tb)
           | None \<Rightarrow>
               (case advance_claims cron fault cs (set_trigger (ck_id c) (\<lambda>t. t\<lparr>tg_next_run := Some n\<rparr>) tb) of
                  (Inl e, tb') \<Rightarrow> (Inl e, tb')
                | (Inr valid, tb') \<Rightarrow> (Inr (c # valid), tb'))))"

text \<open>One transaction: an error rolls it back. \<open>now\<close> is the time of the database.\<close>

definition claim_due_cron ::
  "(string \<Rightarrow> string \<Rightarrow> int result) \<Rightarrow> faults \<Rightarrow> int \<Rightarrow> uuid set \<Rightarrow> int \<Rightarrow> tables \<Rightarrow> cron_claim list svc_result \<times> tables" where
  "claim_due_cron cron fault limit locked now tb =
     (case fault ''begin claim tx'' of
        Some e \<Rightarrow> (Inl (SvcErr (''begin claim tx: '' @ e)), tb)
      | None \<Rightarrow>
          (case fault ''select due cron'' of
             Some e \<Rightarrow> (Inl (SvcErr (''select due cron: '' @ e)), tb)
           | None \<Rightarrow>
               (case advance_claims cron fault (map (claim_of tb) (due_rows limit locked now tb)) tb of
                  (Inl e, _) \<Rightarrow> (Inl e, tb)
                | (Inr valid, tb') \<Rightarrow>
                    (case fault ''commit claim tx'' of
                       Some e \<Rightarrow> (Inl (SvcErr (''commit claim tx: '' @ e)), tb)
                     | None \<Rightarrow> (Inr valid, tb')))))"

definition record_cron_run :: "faults \<Rightarrow> uuid \<Rightarrow> string \<Rightarrow> string \<Rightarrow> tables \<Rightarrow> svc_err option \<times> tables" where
  "record_cron_run fault i status err tb =
     (case fault (''record cron run '' @ i) of
        Some e \<Rightarrow> (Some (SvcErr (''record cron run: '' @ e)), tb)
      | None \<Rightarrow> (None, set_trigger i (\<lambda>t. t\<lparr>tg_last_status := status, tg_last_error := err\<rparr>) tb))"

section \<open>Firing\<close>

text \<open>An \<open>Invoke\<close> under way: \<open>svc_invoke\<close> with its schedule, \<open>None\<close> while it has not returned.\<close>

type_synonym 's invoker =
  "uuid \<Rightarrow> uuid \<Rightarrow> string \<Rightarrow> (string, val) gomap \<Rightarrow> bool \<Rightarrow> 's svc \<Rightarrow> (invoke_result svc_result \<times> 's svc) option"

text \<open>The administrator a trigger acts for, from the cache or the user table (\<open>None\<close>: not wired).\<close>

definition resolve_trigger_actor :: "(uuid \<Rightarrow> uuid svc_result) option \<Rightarrow> uuid \<Rightarrow> 's svc \<Rightarrow> uuid svc_result \<times> 's svc" where
  "resolve_trigger_actor admins tenant sv =
     (let look = (case admins of
                    None \<Rightarrow> (Inl ErrNotFound, sv)
                  | Some first_admin \<Rightarrow>
                      (case first_admin tenant of
                         Inl e \<Rightarrow> (Inl e, sv)
                       | Inr i \<Rightarrow> (Inr i, sv\<lparr>sv_admins := AList.update tenant i (sv_admins sv)\<rparr>)))
      in case map_of (sv_admins sv) tenant of
           Some i \<Rightarrow> if i \<noteq> nil_uuid then (Inr i, sv) else look
         | None \<Rightarrow> look)"

definition parse_default_inputs :: "json \<Rightarrow> (string, val) gomap result" where
  "parse_default_inputs j =
     (case j of
        JObj m \<Rightarrow> Inr (map (\<lambda>(k, x). (k, unmarshal x)) m)
      | JNull \<Rightarrow> Inr []
      | _ \<Rightarrow> Inl ''json: cannot unmarshal into Go value of type map[string]interface {}'')"

definition merge_trigger_inputs :: "(string, val) gomap \<Rightarrow> (string, val) gomap \<Rightarrow> (string, val) gomap" where
  "merge_trigger_inputs defaults body = fold (\<lambda>(k, v). AList.update k v) body (fold (\<lambda>(k, v). AList.update k v) defaults [])"

definition note_cron_run :: "faults \<Rightarrow> uuid \<Rightarrow> string \<Rightarrow> string \<Rightarrow> 's svc \<Rightarrow> 's svc" where
  "note_cron_run fault i status err sv = sv\<lparr>sv_tables := snd (record_cron_run fault i status err (sv_tables sv))\<rparr>"

definition fire ::
  "(uuid \<Rightarrow> uuid svc_result) option \<Rightarrow> 's invoker \<Rightarrow> faults \<Rightarrow> cron_claim \<Rightarrow> 's svc \<Rightarrow> 's svc option" where
  "fire admins invoke fault c sv =
     (case resolve_trigger_actor admins (ck_tenant c) sv of
        (Inl e, sv1) \<Rightarrow> Some (note_cron_run fault (ck_id c) ''skipped'' ''no admin user'' sv1)
      | (Inr user, sv1) \<Rightarrow>
          (case parse_default_inputs (ck_inputs c) of
             Inl e \<Rightarrow> Some (note_cron_run fault (ck_id c) ''failed'' e sv1)
           | Inr inputs \<Rightarrow>
               (case invoke (ck_tenant c) user (ck_slug c) inputs False sv1 of
                  None \<Rightarrow> None
                | Some (r, sv2) \<Rightarrow>
                    (let (status, err) = (case r of
                            Inl e \<Rightarrow> (status_text StatusFailed, svc_err_text e)
                          | Inr res \<Rightarrow> (status_text (ir_status res), ir_error res))
                     in Some (audit_admin (ck_tenant c) (ck_slug c) ''workflow.trigger.cron''
                                (note_cron_run fault (ck_id c) status err sv2))))))"

text \<open>The invocations of a tick, numbered.\<close>

fun fire_all ::
  "(uuid \<Rightarrow> uuid svc_result) option \<Rightarrow> (nat \<Rightarrow> 's invoker) \<Rightarrow> faults \<Rightarrow> nat \<Rightarrow> cron_claim list \<Rightarrow> 's svc \<Rightarrow> 's svc option" where
  "fire_all admins invokes fault n [] sv = Some sv"
| "fire_all admins invokes fault n (c # cs) sv =
     (case fire admins (invokes n) fault c sv of
        None \<Rightarrow> None
      | Some sv1 \<Rightarrow> fire_all admins invokes fault (Suc n) cs sv1)"

definition scheduler_limit :: "int \<Rightarrow> int" where
  "scheduler_limit cfg = (if cfg \<le> 0 then 32 else cfg)"

definition tick ::
  "(string \<Rightarrow> string \<Rightarrow> int result) \<Rightarrow> (uuid \<Rightarrow> uuid svc_result) option \<Rightarrow> (nat \<Rightarrow> 's invoker) \<Rightarrow> faults \<Rightarrow> int \<Rightarrow>
   uuid set \<Rightarrow> int \<Rightarrow> 's svc \<Rightarrow> 's svc option" where
  "tick cron admins invokes fault cfg locked now sv =
     (case claim_due_cron cron fault (scheduler_limit cfg) locked now (sv_tables sv) of
        (Inl e, tb) \<Rightarrow> Some (sv\<lparr>sv_tables := tb\<rparr>)
      | (Inr claims, tb) \<Rightarrow> fire_all admins invokes fault 0 claims (sv\<lparr>sv_tables := tb\<rparr>))"

section \<open>Requests on triggers (service.go)\<close>

definition svc_get :: "faults \<Rightarrow> uuid \<Rightarrow> string \<Rightarrow> 's svc \<Rightarrow> wf_row svc_result" where
  "svc_get fault tenant slug sv = repo_get fault tenant slug (sv_tables sv)"

text \<open>\<open>InvokeWithEvents\<close>: the body of \<open>Invoke\<close>, with a channel the engine sends step events to, if not nil.\<close>

definition svc_invoke_with_events ::
  "('s, 'z) svc_env_scheme \<Rightarrow> faults \<Rightarrow> uuid \<Rightarrow> int \<Rightarrow> int \<Rightarrow> schedule \<Rightarrow> ctx_err option \<Rightarrow> ('s svc \<Rightarrow> 's svc) \<Rightarrow>
   uuid \<Rightarrow> uuid \<Rightarrow> string \<Rightarrow> (string, val) gomap \<Rightarrow> bool \<Rightarrow> unit option \<Rightarrow> 's svc \<Rightarrow> (invoke_result svc_result \<times> 's svc) option" where
  "svc_invoke_with_events env fault run_id started duration sched parent tools tenant user slug inputs dry channel sv =
     svc_invoke env fault run_id started duration (channel \<noteq> None) sched parent tools tenant user slug inputs dry sv"

definition svc_list_runs :: "faults \<Rightarrow> uuid \<Rightarrow> string \<Rightarrow> int \<Rightarrow> 's svc \<Rightarrow> run_row list svc_result" where
  "svc_list_runs fault tenant slug limit sv =
     on_ok (repo_get fault tenant slug (sv_tables sv)) (\<lambda>w.
       case fault ''list runs'' of
         Some e \<Rightarrow> Inl (SvcErr (''list runs: '' @ e))
       | None \<Rightarrow> Inr (repo_list_runs tenant (wr_id w) limit (sv_tables sv)))"

definition svc_list_triggers :: "faults \<Rightarrow> uuid \<Rightarrow> string \<Rightarrow> 's svc \<Rightarrow> trig_row list svc_result" where
  "svc_list_triggers fault tenant slug sv =
     on_ok (repo_get fault tenant slug (sv_tables sv)) (\<lambda>w.
       case fault ''list triggers'' of
         Some e \<Rightarrow> Inl (SvcErr (''list triggers: '' @ e))
       | None \<Rightarrow> Inr (list_by_workflow tenant (wr_id w) (sv_tables sv)))"

definition enabled_trigger :: "faults \<Rightarrow> uuid \<Rightarrow> string \<Rightarrow> string \<Rightarrow> tables \<Rightarrow> (trig_row \<times> (string, val) gomap) svc_result" where
  "enabled_trigger fault tenant slug tid tb =
     on_ok (repo_get fault tenant slug tb) (\<lambda>w.
     on_ok (get_by_workflow_trigger fault tenant (wr_id w) tid tb) (\<lambda>t.
       if \<not> tg_enabled t then Inl (SvcErr (''trigger '' @ quote tid @ '' is disabled''))
       else (case parse_default_inputs (tg_inputs t) of Inl e \<Rightarrow> Inl (SvcErr e) | Inr inputs \<Rightarrow> Inr (t, inputs))))"

definition run_trigger_manual ::
  "'s invoker \<Rightarrow> faults \<Rightarrow> uuid \<Rightarrow> uuid \<Rightarrow> string \<Rightarrow> string \<Rightarrow> 's svc \<Rightarrow> (invoke_result svc_result \<times> 's svc) option" where
  "run_trigger_manual invoke fault tenant user slug tid sv =
     (case enabled_trigger fault tenant slug tid (sv_tables sv) of
        Inl e \<Rightarrow> Some (Inl e, sv)
      | Inr (t, inputs) \<Rightarrow>
          (case invoke tenant user slug inputs False sv of
             None \<Rightarrow> None
           | Some (Inl e, sv1) \<Rightarrow> Some (Inl e, sv1)
           | Some (Inr res, sv1) \<Rightarrow>
               Some (Inr res, audit_admin tenant slug
                 (if tg_kind t = TriggerCron then ''workflow.trigger.cron'' else ''workflow.trigger.webhook'') sv1)))"

definition svc_rotate_token ::
  "trig_env \<Rightarrow> faults \<Rightarrow> uuid \<Rightarrow> string \<Rightarrow> string \<Rightarrow> 's svc \<Rightarrow> string svc_result \<times> 's svc" where
  "svc_rotate_token env fault tenant slug tid sv =
     (case repo_get fault tenant slug (sv_tables sv) of
        Inl e \<Rightarrow> (Inl e, sv)
      | Inr w \<Rightarrow>
          (case rotate_webhook_token env fault tenant (wr_id w) tid (sv_tables sv) of
             (Inl e, tb) \<Rightarrow> (Inl e, sv\<lparr>sv_tables := tb\<rparr>)
           | (Inr token, tb) \<Rightarrow> (Inr token, audit_admin tenant slug ''workflow.trigger.rotate_token'' (sv\<lparr>sv_tables := tb\<rparr>))))"

section \<open>The public webhook\<close>

text \<open>The limiter: one window of a minute per token.\<close>

record rate_window =
  rw_count :: int
  rw_reset :: int

definition rate_minute :: int where "rate_minute = 60 * 10 ^ 9"

type_synonym limiter = "(string, rate_window) gomap"

definition rate_allow :: "int \<Rightarrow> int \<Rightarrow> string \<Rightarrow> limiter \<Rightarrow> bool \<times> limiter" where
  "rate_allow limit now token ws =
     (let fresh = (True, AList.update token \<lparr>rw_count = 1, rw_reset = now + rate_minute\<rparr> ws)
      in case map_of ws token of
           None \<Rightarrow> fresh
         | Some w \<Rightarrow>
             if rw_reset w < now then fresh
             else if limit \<le> rw_count w then (False, ws)
             else (True, AList.update token (w\<lparr>rw_count := rw_count w + 1\<rparr>) ws))"

text \<open>The answers remembered for an \<open>Idempotency-Key\<close>.\<close>

record hook_resp =
  hk_run :: uuid
  hk_status :: run_status
  hk_outputs :: "(string, val) gomap option"
  hk_error :: string

type_synonym idempotency = "(string, hook_resp \<times> int) gomap"

definition idem_ttl :: int where "idem_ttl = 5 * 60 * 10 ^ 9"

definition idem_key :: "string \<Rightarrow> string \<Rightarrow> string" where
  "idem_key token idem = token @ char_of (0 :: nat) # idem"

definition idem_get :: "int \<Rightarrow> string \<Rightarrow> string \<Rightarrow> idempotency \<Rightarrow> hook_resp option \<times> idempotency" where
  "idem_get now token idem m =
     (case map_of m (idem_key token idem) of
        Some (resp, expires) \<Rightarrow> if expires < now then (None, AList.delete (idem_key token idem) m) else (Some resp, m)
      | None \<Rightarrow> (None, AList.delete (idem_key token idem) m))"

definition idem_put :: "int \<Rightarrow> string \<Rightarrow> string \<Rightarrow> hook_resp \<Rightarrow> idempotency \<Rightarrow> idempotency" where
  "idem_put now token idem resp m = AList.update (idem_key token idem) (resp, now + idem_ttl) m"

record 's hook_state =
  hs_svc :: "'s svc"
  hs_idem :: idempotency
  hs_windows :: limiter

text \<open>
  A request: its token, the header, the length the client has announced (negative where it has
  not) and the object in its body; the times at which the handler looks at the clock.
\<close>

record hook_req =
  hq_token :: string
  hq_idem :: string
  hq_length :: int
  hq_body :: "(string, val) gomap result"
  hq_now :: "int \<times> int \<times> int"

datatype hook_reply = HookCreated hook_resp | HookRefused nat string

definition hook_rate :: "int \<Rightarrow> int" where
  "hook_rate per_min = (if per_min \<le> 0 then 60 else per_min)"

text \<open>The trigger of the token, and what is merged for its run.\<close>

definition hook_trigger :: "faults \<Rightarrow> hook_req \<Rightarrow> tables \<Rightarrow> hook_reply + trig_row \<times> string" where
  "hook_trigger fault rq tb =
     (case get_webhook_trigger fault (hq_token rq) tb of
        Inl e \<Rightarrow> Inl (HookRefused 404 [])
      | Inr (t, slug, live) \<Rightarrow>
          if \<not> tg_enabled t \<or> \<not> live then Inl (HookRefused 409 ''workflow not published'') else Inr (t, slug))"

definition hook_inputs :: "hook_req \<Rightarrow> trig_row \<Rightarrow> hook_reply + (string, val) gomap" where
  "hook_inputs rq t =
     (case (if 0 < hq_length rq then hq_body rq else Inr []) of
        Inl e \<Rightarrow> Inl (HookRefused 400 ''invalid JSON body'')
      | Inr body \<Rightarrow>
          (case parse_default_inputs (tg_inputs t) of
             Inl e \<Rightarrow> Inl (HookRefused 500 ''invalid trigger inputs'')
           | Inr defaults \<Rightarrow> Inr (merge_trigger_inputs defaults body)))"

definition hook_run ::
  "(uuid \<Rightarrow> uuid svc_result) option \<Rightarrow> 's invoker \<Rightarrow> hook_req \<Rightarrow> trig_row \<Rightarrow> string \<Rightarrow> (string, val) gomap \<Rightarrow>
   's hook_state \<Rightarrow> (hook_reply \<times> 's hook_state) option" where
  "hook_run admins invoke rq t slug inputs st =
     (case resolve_trigger_actor admins (tg_tenant t) (hs_svc st) of
        (Inl e, sv1) \<Rightarrow> Some (HookRefused 503 ''no admin user for tenant'', st\<lparr>hs_svc := sv1\<rparr>)
      | (Inr user, sv1) \<Rightarrow>
          (case invoke (tg_tenant t) user slug inputs False sv1 of
             None \<Rightarrow> None
           | Some (Inl e, sv2) \<Rightarrow> Some (HookRefused 500 (svc_err_text e), st\<lparr>hs_svc := sv2\<rparr>)
           | Some (Inr res, sv2) \<Rightarrow>
               (let resp = \<lparr>hk_run = ir_run res, hk_status = ir_status res, hk_outputs = ir_outputs res, hk_error = ir_error res\<rparr>;
                    st2 = st\<lparr>hs_svc := audit_admin (tg_tenant t) slug ''workflow.trigger.webhook'' sv2\<rparr>
                in Some (HookCreated resp,
                     if hq_idem rq = [] then st2
                     else st2\<lparr>hs_idem := idem_put (snd (snd (hq_now rq))) (hq_token rq) (hq_idem rq) resp (hs_idem st2)\<rparr>))))"

definition hook_accepted ::
  "(uuid \<Rightarrow> uuid svc_result) option \<Rightarrow> 's invoker \<Rightarrow> hook_req \<Rightarrow> trig_row \<Rightarrow> string \<Rightarrow>
   's hook_state \<Rightarrow> (hook_reply \<times> 's hook_state) option" where
  "hook_accepted admins invoke rq t slug st =
     (let (cached, idem) = (if hq_idem rq = [] then (None, hs_idem st)
                            else idem_get (fst (snd (hq_now rq))) (hq_token rq) (hq_idem rq) (hs_idem st));
          st1 = st\<lparr>hs_idem := idem\<rparr>
      in case cached of
           Some resp \<Rightarrow> Some (HookCreated resp, st1)
         | None \<Rightarrow>
             (case hook_inputs rq t of
                Inl reply \<Rightarrow> Some (reply, st1)
              | Inr inputs \<Rightarrow> hook_run admins invoke rq t slug inputs st1))"

definition webhook ::
  "int \<Rightarrow> (uuid \<Rightarrow> uuid svc_result) option \<Rightarrow> 's invoker \<Rightarrow> faults \<Rightarrow> hook_req \<Rightarrow> 's hook_state \<Rightarrow> (hook_reply \<times> 's hook_state) option" where
  "webhook per_min admins invoke fault rq st =
     (if hq_token rq = [] then Some (HookRefused 404 [], st)
      else
        let (ok, ws) = rate_allow (hook_rate per_min) (fst (hq_now rq)) (hq_token rq) (hs_windows st); st1 = st\<lparr>hs_windows := ws\<rparr>
        in if \<not> ok then Some (HookRefused 429 ''rate limit exceeded'', st1)
           else case hook_trigger fault rq (sv_tables (hs_svc st1)) of
                  Inl reply \<Rightarrow> Some (reply, st1)
                | Inr (t, slug) \<Rightarrow> hook_accepted admins invoke rq t slug st1)"

end
