(* ===== verification/TriggerRuns.thy ===== *)
theory TriggerRuns
  imports Triggers WfPublish
begin

text \<open>
  Properties of triggers: what a webhook may run, how many requests its limiter admits, and a machine
  of servers whose schedulers claim cron triggers from one table while other statements change it.
\<close>

section \<open>Webhooks\<close>

lemma map_of_fold_update:
  "map_of (fold (\<lambda>(k, v). AList.update k v) new m) k = (case map_of (rev new) k of Some v \<Rightarrow> Some v | None \<Rightarrow> map_of m k)"
proof (induction new arbitrary: m)
  case (Cons p new)
  obtain a b where p: "p = (a, b)"
    by (cases p)
  show ?case
    by (simp add: p Cons.IH map_of_append map_add_def update_conv' split: option.splits)
qed simp

text \<open>What a request asks to run: the body counts only where the client has announced its length.\<close>

definition asks :: "hook_req \<Rightarrow> trig_row \<Rightarrow> (string, val) gomap \<Rightarrow> bool" where
  "asks rq t inputs \<longleftrightarrow>
     (\<exists>defaults body. parse_default_inputs (tg_inputs t) = Inr defaults \<and> (if 0 < hq_length rq then hq_body rq = Inr body else body = []) \<and>
        (\<forall>k. map_of inputs k = (case map_of (rev body) k of Some v \<Rightarrow> Some v | None \<Rightarrow> map_of (rev defaults) k)))"

lemma hook_inputs_asks: "hook_inputs rq t = Inr inputs \<Longrightarrow> asks rq t inputs"
  by (auto simp: hook_inputs_def asks_def merge_trigger_inputs_def map_of_fold_update split: sum.splits if_splits option.splits)

definition hooked :: "string \<Rightarrow> tables \<Rightarrow> trig_row \<Rightarrow> wf_row \<Rightarrow> bool" where
  "hooked token tb t w \<longleftrightarrow> t \<in> set (tb_triggers tb) \<and> tg_token t = token \<and> tg_kind t = TriggerWebhook \<and> tg_enabled t \<and>
     w \<in> set (tb_workflows tb) \<and> wr_id w = tg_workflow t \<and> wr_published w"

lemma hook_trigger_hooked:
  assumes "hook_trigger fault rq tb = Inr (t, slug)"
  obtains w where "hooked (hq_token rq) tb t w" "slug = wr_slug w"
proof -
  from assms obtain live where got: "get_webhook_trigger fault (hq_token rq) tb = Inr (t, slug, live)" and on: "tg_enabled t" "live"
    by (auto simp: hook_trigger_def split: sum.splits if_splits)
  from got obtain w where t: "find (\<lambda>t. has_token (hq_token rq) t \<and> tg_kind t = TriggerWebhook \<and> workflow_of t tb \<noteq> None) (tb_triggers tb) = Some t"
      and w: "workflow_of t tb = Some w" "slug = wr_slug w" "live = wr_published w"
    by (auto simp: get_webhook_trigger_def split: option.splits)
  have "t \<in> set (tb_triggers tb)" "has_token (hq_token rq) t" "tg_kind t = TriggerWebhook"
    using t by (auto simp: find_Some_iff)
  moreover have "w \<in> set (tb_workflows tb)" "wr_id w = tg_workflow t"
    using w(1) by (auto simp: workflow_of_def find_Some_iff)
  ultimately show thesis
    using that w on by (simp add: hooked_def has_token_def)
qed

lemma actor_tables:
  assumes "resolve_trigger_actor admins tenant sv = (r, sv1)"
  shows "sv_tables sv1 = sv_tables sv \<and> sv_bus sv1 = sv_bus sv \<and> sv_audit sv1 = sv_audit sv"
  using assms by (auto simp: resolve_trigger_actor_def Let_def split: option.splits sum.splits if_splits)

text \<open>
  C15. A webhook runs nothing but its workflow: a request calls \<open>Invoke\<close> at most once, for the tenant
  and slug of an enabled webhook trigger of a published workflow that has the token, with the stored
  inputs overridden by the body; a request that does not call it changes no table, tool or audit
  entry, and answers with a run only where it repeats an answer that is remembered for its key and has
  not expired.
\<close>

theorem webhook_runs_published:
  assumes "webhook per_min admins invoke fault rq st = Some (reply, st')"
  shows "(\<exists>t w user inputs sv1 r sv2. hooked (hq_token rq) (sv_tables (hs_svc st)) t w \<and> asks rq t inputs \<and>
            sv_tables sv1 = sv_tables (hs_svc st) \<and> invoke (tg_tenant t) user (wr_slug w) inputs False sv1 = Some (r, sv2) \<and>
            sv_tables (hs_svc st') = sv_tables sv2 \<and>
            (case r of Inl e \<Rightarrow> reply = HookRefused 500 (svc_err_text e)
             | Inr res \<Rightarrow> reply = HookCreated \<lparr>hk_run = ir_run res, hk_status = ir_status res, hk_outputs = ir_outputs res, hk_error = ir_error res\<rparr>)) \<or>
    (sv_tables (hs_svc st') = sv_tables (hs_svc st) \<and> sv_bus (hs_svc st') = sv_bus (hs_svc st) \<and> sv_audit (hs_svc st') = sv_audit (hs_svc st) \<and>
       (\<forall>resp. reply = HookCreated resp \<longrightarrow>
          hq_idem rq \<noteq> [] \<and> (\<exists>until. map_of (hs_idem st) (idem_key (hq_token rq) (hq_idem rq)) = Some (resp, until) \<and> fst (snd (hq_now rq)) \<le> until)))"
    (is "?run \<or> ?still")
proof (cases "hq_token rq = []")
  case True
  then show ?thesis
    using assms by (auto simp: webhook_def)
next
  case token: False
  obtain ok ws where allow: "rate_allow (hook_rate per_min) (fst (hq_now rq)) (hq_token rq) (hs_windows st) = (ok, ws)"
    by (metis surj_pair)
  define st1 where "st1 = st\<lparr>hs_windows := ws\<rparr>"
  have st1: "hs_svc st1 = hs_svc st" "hs_idem st1 = hs_idem st"
    by (simp_all add: st1_def)
  show ?thesis
  proof (cases "ok \<and> (\<exists>t slug. hook_trigger fault rq (sv_tables (hs_svc st)) = Inr (t, slug))")
    case False
    then have "hs_svc st' = hs_svc st" "\<forall>resp. reply \<noteq> HookCreated resp"
      using assms token st1 allow
      by (auto simp: webhook_def hook_trigger_def Let_def st1_def [symmetric] split: if_splits sum.splits)
    then show ?thesis
      by auto
  next
    case True
    then obtain t slug where found: "hook_trigger fault rq (sv_tables (hs_svc st)) = Inr (t, slug)" and ok: ok
      by blast
    obtain w where w: "hooked (hq_token rq) (sv_tables (hs_svc st)) t w" "slug = wr_slug w"
      using hook_trigger_hooked [OF found] .
    have accepted: "hook_accepted admins invoke rq t slug st1 = Some (reply, st')"
      using assms token allow ok found st1 by (simp add: webhook_def st1_def [symmetric])
    obtain cached idem where idem: "(if hq_idem rq = [] then (None, hs_idem st1)
        else idem_get (fst (snd (hq_now rq))) (hq_token rq) (hq_idem rq) (hs_idem st1)) = (cached, idem)"
      by (metis surj_pair)
    define st2 where "st2 = st1\<lparr>hs_idem := idem\<rparr>"
    have st2: "hs_svc st2 = hs_svc st"
      by (simp add: st2_def st1)
    show ?thesis
    proof (cases cached)
      case (Some resp)
      then have "reply = HookCreated resp" "st' = st2"
        using accepted idem by (simp_all add: hook_accepted_def st2_def)
      moreover have "hq_idem rq \<noteq> [] \<and> (\<exists>until. map_of (hs_idem st) (idem_key (hq_token rq) (hq_idem rq)) = Some (resp, until) \<and> fst (snd (hq_now rq)) \<le> until)"
        using idem Some st1 by (auto simp: idem_get_def split: if_splits option.splits prod.splits)
      ultimately show ?thesis
        using st2 by auto
    next
      case None
      show ?thesis
      proof (cases "hook_inputs rq t")
        case (Inl r)
        then have "reply = r" "st' = st2"
          using accepted idem None by (simp_all add: hook_accepted_def st2_def)
        moreover have "r \<noteq> HookCreated resp" for resp
          using Inl by (auto simp: hook_inputs_def split: sum.splits if_splits)
        ultimately show ?thesis
          using st2 by auto
      next
        case (Inr inputs)
        have run: "hook_run admins invoke rq t slug inputs st2 = Some (reply, st')"
          using accepted idem None Inr by (simp add: hook_accepted_def st2_def)
        obtain a sv1 where actor: "resolve_trigger_actor admins (tg_tenant t) (hs_svc st2) = (a, sv1)"
          by (metis surj_pair)
        note same = actor_tables [OF actor, unfolded st2]
        show ?thesis
        proof (cases a)
          case refused: (Inl e)
          then have "hs_svc st' = sv1" "reply = HookRefused 503 ''no admin user for tenant''"
            using run actor by (auto simp: hook_run_def)
          then show ?thesis
            using same by auto
        next
          case user: (Inr user)
          obtain r sv2 where invoked: "invoke (tg_tenant t) user slug inputs False sv1 = Some (r, sv2)"
            using run actor user by (cases "invoke (tg_tenant t) user slug inputs False sv1") (auto simp: hook_run_def)
          have "sv_tables (hs_svc st') = sv_tables sv2"
            "case r of Inl e \<Rightarrow> reply = HookRefused 500 (svc_err_text e)
             | Inr res \<Rightarrow> reply = HookCreated \<lparr>hk_run = ir_run res, hk_status = ir_status res, hk_outputs = ir_outputs res, hk_error = ir_error res\<rparr>"
            using run actor user invoked
            by (auto simp: hook_run_def Let_def audit_admin_def split: sum.splits if_splits)
          then show ?thesis
            using invoked w hook_inputs_asks [OF Inr] same by blast
        qed
      qed
    qed
  qed
qed

section \<open>The limiter\<close>

text \<open>The requests admitted, of a sequence of tokens with their times.\<close>

fun rate_run :: "int \<Rightarrow> (string \<times> int) list \<Rightarrow> limiter \<Rightarrow> (string \<times> int) list" where
  "rate_run limit [] ws = []"
| "rate_run limit ((token, now) # rs) ws =
     (let (ok, ws') = rate_allow limit now token ws in (if ok then Cons (token, now) else id) (rate_run limit rs ws'))"

text \<open>The requests of one token in a minute from \<open>a\<close>, and how many a window still admits of them.\<close>

definition in_minute :: "string \<Rightarrow> int \<Rightarrow> string \<times> int \<Rightarrow> bool" where
  "in_minute token a r \<longleftrightarrow> fst r = token \<and> a \<le> snd r \<and> snd r \<le> a + rate_minute"

definition still :: "int \<Rightarrow> int \<Rightarrow> rate_window option \<Rightarrow> int" where
  "still limit a w = (case w of None \<Rightarrow> 2 * limit
     | Some w \<Rightarrow> if rw_reset w < a then 2 * limit
                 else max 0 (limit - rw_count w) + (if rw_reset w \<le> a + rate_minute then limit else 0))"

lemma in_minute_pair [simp]: "in_minute token a (other, now) \<longleftrightarrow> other = token \<and> a \<le> now \<and> now \<le> a + rate_minute"
  by (simp add: in_minute_def)

lemma late_requests:
  "\<forall>r \<in> set rs. a + rate_minute < snd r \<Longrightarrow> filter (in_minute token a) (rate_run limit rs ws) = []"
  by (induction limit rs ws rule: rate_run.induct) (auto simp: in_minute_def split: prod.splits)

lemma rate_allow_other:
  "rate_allow limit now other ws = (ok, ws') \<Longrightarrow> token \<noteq> other \<Longrightarrow> map_of ws' token = map_of ws token"
  by (auto simp: rate_allow_def Let_def update_conv' split: option.splits if_splits)

lemma rate_admits:
  assumes "sorted (map snd rs)" "0 < limit"
  shows "int (length (filter (in_minute token a) (rate_run limit rs ws))) \<le> still limit a (map_of ws token)"
  using assms
proof (induction limit rs ws rule: rate_run.induct)
  case (1 limit ws)
  then show ?case
    by (auto simp: still_def split: option.splits)
next
  case (2 limit other now rs ws)
  obtain ok ws' where allow: "rate_allow limit now other ws = (ok, ws')"
    by (metis surj_pair)
  let ?n = "int (length (filter (in_minute token a) (rate_run limit rs ws')))"
  have IH: "?n \<le> still limit a (map_of ws' token)"
    using 2 allow by simp
  have later: "?n = 0" if "a + rate_minute < now"
    using late_requests [of rs a token limit ws'] that 2(2) by fastforce
  have rate_minute: "0 < rate_minute"
    by (simp add: rate_minute_def)
  show ?case
  proof (cases "other = token")
    case False
    then show ?thesis
      using IH allow rate_allow_other [OF allow] by simp
  next
    case token: True
    let ?in = "in_minute token a (token, now)"
    have fresh: ?thesis if "ok" "map_of ws' token = Some \<lparr>rw_count = 1, rw_reset = now + rate_minute\<rparr>"
        "map_of ws token = None \<or> (\<exists>w. map_of ws token = Some w \<and> rw_reset w < now)"
      using that IH later allow token 2(3) rate_minute
      by (cases "a + rate_minute < now"; cases "now + rate_minute < a"; cases "now = a") (auto simp: still_def max_def)
    show ?thesis
    proof (cases "map_of ws token")
      case None
      then show ?thesis
        using allow token by (intro fresh) (auto simp: rate_allow_def)
    next
      case (Some w)
      consider "rw_reset w < now" | "now \<le> rw_reset w" "limit \<le> rw_count w" | "now \<le> rw_reset w" "rw_count w < limit"
        by linarith
      then show ?thesis
      proof cases
        case 1
        then show ?thesis
          using allow token Some by (intro fresh) (auto simp: rate_allow_def)
      next
        case 2
        then show ?thesis
          using allow token Some IH by (auto simp: rate_allow_def)
      next
        case 3
        then have "ok" "map_of ws' token = Some (w\<lparr>rw_count := rw_count w + 1\<rparr>)"
          using allow token Some by (auto simp: rate_allow_def)
        then show ?thesis
          using allow token Some IH 3 by (auto simp: still_def split: if_splits)
      qed
    qed
  qed
qed

text \<open>
  The limiter admits, of the requests with one token, at most twice the limit in any minute
  (the window of a token is counted from its first request), whatever other tokens are asked for.
\<close>

theorem rate_limited:
  assumes "sorted (map snd rs)" "0 < limit"
  shows "int (length (filter (in_minute token a) (rate_run limit rs []))) \<le> 2 * limit"
  using rate_admits [OF assms, of token a "[]"] by (simp add: still_def)

section \<open>Claims of cron triggers\<close>

text \<open>
  Servers with one table. A transaction of a scheduler selects and locks its rows, reads the clock, and
  commits or is rolled back later; other statements run between, except on rows that are locked,
  for which they wait. \<open>cron\<close> at a time is the cron package. The clocks of servers and database agree.
\<close>

record cron_world =
  cw_now :: int
  cw_tables :: tables
  cw_open :: "nat \<Rightarrow> ((cron_claim \<times> int) list \<times> int) option"
  cw_fired :: "(uuid \<times> int) list"

definition claimed_ids :: "((cron_claim \<times> int) list \<times> int) option \<Rightarrow> uuid set" where
  "claimed_ids cl = (case cl of None \<Rightarrow> {} | Some (cs, at) \<Rightarrow> (\<lambda>c. ck_id (fst c)) ` set cs)"

definition locked_ids :: "cron_world \<Rightarrow> uuid set" where
  "locked_ids w = (\<Union>k. claimed_ids (cw_open w k))"

definition with_instant :: "tables \<Rightarrow> trig_row \<Rightarrow> cron_claim \<times> int" where
  "with_instant tb t = (claim_of tb t, case tg_next_run t of None \<Rightarrow> 0 | Some n \<Rightarrow> n)"

definition trigger_ids :: "tables \<Rightarrow> uuid list" where
  "trigger_ids tb = map tg_id (tb_triggers tb)"

type_synonym cron_package = "int \<Rightarrow> string \<Rightarrow> string \<Rightarrow> int result"

text \<open>The statements on workflows and triggers, each a transaction of its own.\<close>

inductive trigger_stmt :: "(string \<Rightarrow> string \<Rightarrow> int result) \<Rightarrow> tables \<Rightarrow> tables \<Rightarrow> bool" for cron where
  upsert: "te_next env = cron \<Longrightarrow> te_id env (tr_id spec) \<notin> set (trigger_ids tb) \<Longrightarrow>
    upsert_trigger env fault te wid spec ex tb = (e, tb') \<Longrightarrow> trigger_stmt cron tb tb'"
| drop_removed: "disable_removed fault te wid want [prev] tb = (e, tb') \<Longrightarrow> trigger_stmt cron tb tb'"
| disable: "disable_all_for_workflow fault te wid tb = (e, tb') \<Longrightarrow> trigger_stmt cron tb tb'"
| rotate: "rotate_webhook_token env fault te wid tid tb = (r, tb') \<Longrightarrow> trigger_stmt cron tb tb'"
| stamp: "record_cron_run fault i status err tb = (e, tb') \<Longrightarrow> trigger_stmt cron tb tb'"
| create: "repo_create fault new te slug name descr dsl tb = (r, tb') \<Longrightarrow> trigger_stmt cron tb tb'"
| update: "repo_update fault te slug name descr dsl tb = (r, tb') \<Longrightarrow> trigger_stmt cron tb tb'"
| publish: "repo_set_published fault te slug p tb = (e, tb') \<Longrightarrow> trigger_stmt cron tb tb'"
| delete: "repo_delete fault te slug tb = (e, tb') \<Longrightarrow> trigger_stmt cron tb tb'"

inductive cron_step :: "cron_package \<Rightarrow> cron_world \<Rightarrow> cron_world \<Rightarrow> bool" for cron where
  pass: "cw_now w \<le> n \<Longrightarrow> cron_step cron w (w\<lparr>cw_now := n\<rparr>)"
| select: "cw_open w k = None \<Longrightarrow> rows = due_rows limit (locked_ids w) (cw_now w) (cw_tables w) \<Longrightarrow>
    cron_step cron w (w\<lparr>cw_open := (cw_open w)(k := Some (map (with_instant (cw_tables w)) rows, cw_now w))\<rparr>)"
| commit: "cw_open w k = Some (cs, at) \<Longrightarrow>
    advance_claims (cron at) fault (map fst cs) (cw_tables w) = (Inr valid, tb') \<Longrightarrow>
    cron_step cron w (w\<lparr>cw_tables := tb', cw_open := (cw_open w)(k := None),
      cw_fired := map (\<lambda>c. (ck_id (fst c), snd c)) (filter (\<lambda>c. fst c \<in> set valid) cs) @ cw_fired w\<rparr>)"
| rollback: "cron_step cron w (w\<lparr>cw_open := (cw_open w)(k := None)\<rparr>)"
| statement: "trigger_stmt (cron (cw_now w)) (cw_tables w) tb' \<Longrightarrow>
    \<forall>t \<in> set (tb_triggers (cw_tables w)). tg_id t \<in> locked_ids w \<longrightarrow> t \<in> set (tb_triggers tb') \<Longrightarrow>
    cron_step cron w (w\<lparr>cw_tables := tb'\<rparr>)"

definition cron_runs :: "cron_package \<Rightarrow> cron_world \<Rightarrow> cron_world \<Rightarrow> bool" where
  "cron_runs cron = (cron_step cron)\<^sup>*\<^sup>*"

definition cron_start :: "int \<Rightarrow> tables \<Rightarrow> cron_world" where
  "cron_start now tb = \<lparr>cw_now = now, cw_tables = tb, cw_open = (\<lambda>_. None), cw_fired = []\<rparr>"

text \<open>The cron package finds an activation after the given time.\<close>

definition later :: "cron_package \<Rightarrow> bool" where
  "later cron \<longleftrightarrow> (\<forall>now e z n. cron now e z = Inr n \<longrightarrow> now < n)"

section \<open>What statements do to instants\<close>

text \<open>Rows go, or keep their id and instant; an upsert may set an instant after the present one.\<close>

definition moves :: "int \<Rightarrow> tables \<Rightarrow> tables \<Rightarrow> bool" where
  "moves now tb tb' \<longleftrightarrow> (distinct (trigger_ids tb) \<longrightarrow> distinct (trigger_ids tb')) \<and>
     (\<forall>t' \<in> set (tb_triggers tb'). \<forall>n. tg_next_run t' = Some n \<longrightarrow>
        now < n \<or> (\<exists>t \<in> set (tb_triggers tb). tg_id t = tg_id t' \<and> tg_next_run t = Some n))"

lemma moves_same: "tb_triggers tb' = tb_triggers tb \<Longrightarrow> moves now tb tb'"
  by (auto simp: moves_def trigger_ids_def)

lemma moves_map:
  assumes "\<And>t. tg_id (f t) = tg_id t" "\<And>t. tg_next_run (f t) = tg_next_run t"
  shows "moves now tb (map_triggers P f tb)"
  using assms by (auto simp: moves_def map_triggers_def trigger_ids_def comp_def if_distrib [of tg_id] cong: if_cong)

lemma moves_filter: "tb_triggers tb' = filter P (tb_triggers tb) \<Longrightarrow> moves now tb tb'"
  by (auto simp: moves_def trigger_ids_def distinct_map_filter)

lemma moves_upsert:
  assumes "upsert_trigger env fault te wid spec ex tb = (e, tb')" "te_id env (tr_id spec) \<notin> set (trigger_ids tb)"
    and "\<And>x z n. te_next env x z = Inr n \<Longrightarrow> now < n"
  shows "moves now tb tb'"
proof (cases "trigger_row env te wid spec ex")
  case (Inl x)
  then show ?thesis
    using assms(1) by (auto simp: upsert_trigger_def intro: moves_same)
next
  case (Inr r)
  have r: "tg_id r = te_id env (tr_id spec)" "\<And>n. tg_next_run r = Some n \<Longrightarrow> now < n"
    using Inr assms(3) by (auto simp: trigger_row_def on_ok_Inr_iff Let_def split: if_splits sum.splits)
  have "tb' = tb \<or> tb' = upsert_row r tb"
    using assms(1) Inr by (auto simp: upsert_trigger_def split: option.splits)
  moreover have "moves now tb (upsert_row r tb)"
  proof (cases "list_ex (\<lambda>t. tg_workflow t = tg_workflow r \<and> tg_trigger t = tg_trigger r) (tb_triggers tb)")
    case True
    then show ?thesis
      using r(2) by (auto simp: moves_def upsert_row_def map_triggers_def trigger_ids_def comp_def if_distrib [of tg_id] cong: if_cong)
  next
    case False
    then show ?thesis
      using r assms(2) by (auto simp: moves_def upsert_row_def trigger_ids_def)
  qed
  ultimately show ?thesis
    using moves_same by metis
qed

lemma stmt_moves:
  assumes "trigger_stmt next tb tb'" "\<And>x z n. next x z = Inr n \<Longrightarrow> now < n"
  shows "moves now tb tb'"
  using assms(1)
proof cases
  case (upsert env spec fault te wid ex e)
  then show ?thesis
    using moves_upsert [OF upsert(3,2)] assms(2) by blast
qed (auto simp: disable_all_for_workflow_def rotate_webhook_token_def record_cron_run_def repo_create_def repo_update_def
    repo_set_published_def repo_delete_def map_slug_def set_trigger_def Let_def
    split: if_splits option.splits sum.splits intro: moves_same moves_map moves_filter)

section \<open>What a transaction does to instants\<close>

lemma set_trigger_ids: "(\<And>t. tg_id (f t) = tg_id t) \<Longrightarrow> trigger_ids (set_trigger i f tb) = trigger_ids tb"
  by (simp add: set_trigger_def map_triggers_def trigger_ids_def comp_def if_distrib [of tg_id] cong: if_cong)

lemma advance_ids: "advance_claims cron fault cs tb = (r, tb') \<Longrightarrow> trigger_ids tb' = trigger_ids tb"
  by (induction cron fault cs tb arbitrary: r rule: advance_claims.induct)
    (auto simp: set_trigger_ids split: sum.splits option.splits prod.splits)

text \<open>The instants of rows that no claim names stay; a claim that is valid has got a new one.\<close>

definition instant_in :: "tables \<Rightarrow> uuid \<Rightarrow> int \<Rightarrow> bool" where
  "instant_in tb i n \<longleftrightarrow> (\<exists>t \<in> set (tb_triggers tb). tg_id t = i \<and> tg_next_run t = Some n)"

lemma instant_image: "instant_in tb i n \<longleftrightarrow> (i, Some n) \<in> (\<lambda>t. (tg_id t, tg_next_run t)) ` set (tb_triggers tb)"
  by (auto simp: instant_in_def)

lemma instant_set_next:
  "instant_in (set_trigger i (\<lambda>t. t\<lparr>tg_next_run := Some m\<rparr>) tb) j n \<Longrightarrow> if j = i then n = m else instant_in tb j n"
  by (auto simp: instant_in_def set_trigger_def map_triggers_def split: if_splits)

lemma instant_set_other:
  "(\<And>t. tg_id (f t) = tg_id t \<and> tg_next_run (f t) = tg_next_run t) \<Longrightarrow> instant_in (set_trigger i f tb) j n = instant_in tb j n"
  by (simp add: instant_image set_trigger_def map_triggers_def image_map_if del: set_map)

lemma instant_set_keep: "j \<noteq> i \<Longrightarrow> instant_in tb j n \<Longrightarrow> (\<And>t. tg_id (f t) = tg_id t) \<Longrightarrow> instant_in (set_trigger i f tb) j n"
  by (auto simp: instant_in_def set_trigger_def map_triggers_def intro!: bexI)

lemma advance_keeps:
  assumes "advance_claims cron fault cs tb = (r, tb')" "j \<notin> ck_id ` set cs"
  shows "instant_in tb' j n = instant_in tb j n"
  using assms
proof (induction cron fault cs tb arbitrary: r rule: advance_claims.induct)
  case (2 cron fault c cs tb)
  have same: "instant_in (set_trigger (ck_id c) f tb) j n = instant_in tb j n" if "\<And>t. tg_id (f t) = tg_id t" for f
    using 2(4) that by (auto simp: instant_in_def set_trigger_def map_triggers_def intro!: bexI)
  show ?case
    using 2 same by (auto split: sum.splits option.splits prod.splits)
qed simp

lemma advance_instants:
  assumes "advance_claims cron fault cs tb = (Inr valid, tb')" "distinct (map ck_id cs)"
    and "\<forall>e z n. cron e z = Inr n \<longrightarrow> now < n"
  shows "set valid \<subseteq> set cs"
    and "instant_in tb' j n \<Longrightarrow> (\<exists>c \<in> set valid. ck_id c = j) \<and> now < n \<or> (\<forall>c \<in> set valid. ck_id c \<noteq> j) \<and> instant_in tb j n"
proof -
  have "set valid \<subseteq> set cs \<and>
    (instant_in tb' j n \<longrightarrow> (\<exists>c \<in> set valid. ck_id c = j) \<and> now < n \<or> (\<forall>c \<in> set valid. ck_id c \<noteq> j) \<and> instant_in tb j n)"
    using assms
  proof (induction cron fault cs tb arbitrary: valid rule: advance_claims.induct)
    case (2 cron fault c cs tb)
    show ?case
    proof (cases "cron (ck_cron c) (ck_timezone c)")
      case (Inl e)
      let ?tb = "set_trigger (ck_id c) (\<lambda>t. t\<lparr>tg_last_error := take 2000 e, tg_last_status := ''failed''\<rparr>) tb"
      have run: "fault (''store error of '' @ ck_id c) = None" "advance_claims cron fault cs ?tb = (Inr valid, tb')"
        using 2(3) Inl by (auto split: option.splits)
      have dist: "distinct (map ck_id cs)"
        using 2(4) by simp
      show ?thesis
        using 2(1) [OF Inl run dist 2(5)] by (auto simp: instant_set_other)
    next
      case (Inr m)
      let ?tb = "set_trigger (ck_id c) (\<lambda>t. t\<lparr>tg_next_run := Some m\<rparr>) tb"
      obtain vs where run: "fault (''advance '' @ ck_id c) = None" "advance_claims cron fault cs ?tb = (Inr vs, tb')" "valid = c # vs"
        using 2(3) Inr by (auto split: option.splits sum.splits prod.splits)
      have dist: "distinct (map ck_id cs)"
        using 2(4) by simp
      have "now < m"
        using 2(5) Inr by blast
      then show ?thesis
        using 2(2) [OF Inr run(1,2) dist 2(5)] run(3) instant_set_next [of "ck_id c" m tb j n] by (auto split: if_splits)
    qed
  qed simp
  then show "set valid \<subseteq> set cs"
    and "instant_in tb' j n \<Longrightarrow> (\<exists>c \<in> set valid. ck_id c = j) \<and> now < n \<or> (\<forall>c \<in> set valid. ck_id c \<noteq> j) \<and> instant_in tb j n"
    by auto
qed

section \<open>The invariant\<close>

text \<open>The instants that have fired are over, in order for each trigger, and before those to come.\<close>

definition fired_ok :: "int \<Rightarrow> tables \<Rightarrow> (uuid \<times> int) list \<Rightarrow> bool" where
  "fired_ok now tb fired \<longleftrightarrow> sorted_wrt (\<lambda>x y. fst x = fst y \<longrightarrow> snd y < snd x) fired \<and> (\<forall>x \<in> set fired. snd x \<le> now) \<and>
     (\<forall>x \<in> set fired. \<forall>n. instant_in tb (fst x) n \<longrightarrow> snd x < n)"

definition open_ok :: "int \<Rightarrow> tables \<Rightarrow> ((cron_claim \<times> int) list \<times> int) option \<Rightarrow> bool" where
  "open_ok now tb cl \<longleftrightarrow> (\<forall>cs at. cl = Some (cs, at) \<longrightarrow> at \<le> now \<and> distinct (map (ck_id \<circ> fst) cs) \<and>
     (\<forall>c \<in> set cs. snd c \<le> at \<and> instant_in tb (ck_id (fst c)) (snd c)))"

definition cron_inv :: "cron_world \<Rightarrow> bool" where
  "cron_inv w \<longleftrightarrow> distinct (trigger_ids (cw_tables w)) \<and> fired_ok (cw_now w) (cw_tables w) (cw_fired w) \<and>
     (\<forall>k. open_ok (cw_now w) (cw_tables w) (cw_open w k)) \<and>
     (\<forall>k m. k \<noteq> m \<longrightarrow> claimed_ids (cw_open w k) \<inter> claimed_ids (cw_open w m) = {})"

lemma fired_ok_later: "fired_ok now tb fired \<Longrightarrow> now \<le> n \<Longrightarrow> fired_ok n tb fired"
  unfolding fired_ok_def by fastforce

lemma open_ok_later: "open_ok now tb cl \<Longrightarrow> now \<le> n \<Longrightarrow> open_ok n tb cl"
  unfolding open_ok_def by fastforce

lemma fired_ok_moves:
  assumes "fired_ok now tb fired" "moves now tb tb'"
  shows "fired_ok now tb' fired"
proof -
  have "snd x < n" if "x \<in> set fired" "instant_in tb' (fst x) n" for x n
  proof -
    note x = that
    obtain t' where t': "t' \<in> set (tb_triggers tb')" "tg_id t' = fst x" "tg_next_run t' = Some n"
      using x(2) by (auto simp: instant_in_def)
    have "now < n \<or> (\<exists>t \<in> set (tb_triggers tb). tg_id t = tg_id t' \<and> tg_next_run t = Some n)"
      using assms(2) t'(1,3) by (simp add: moves_def)
    then consider "now < n" | t where "t \<in> set (tb_triggers tb)" "tg_id t = tg_id t'" "tg_next_run t = Some n"
      by blast
    then show ?thesis
    proof cases
      case 1
      then show ?thesis
        using assms(1) x(1) by (fastforce simp: fired_ok_def)
    next
      case 2
      then have "instant_in tb (fst x) n"
        using t'(2) by (auto simp: instant_in_def)
      then show ?thesis
        using assms(1) x(1) by (auto simp: fired_ok_def)
    qed
  qed
  then show ?thesis
    using assms(1) by (simp add: fired_ok_def)
qed

lemma open_ok_locked:
  assumes "open_ok now tb (cw_open w k)" "\<forall>t \<in> set (tb_triggers tb). tg_id t \<in> locked_ids w \<longrightarrow> t \<in> set (tb_triggers tb')"
  shows "open_ok now tb' (cw_open w k)"
proof -
  have "ck_id (fst c) \<in> locked_ids w" if "cw_open w k = Some (cs, at)" "c \<in> set cs" for cs at c
  proof -
    have "ck_id (fst c) \<in> claimed_ids (cw_open w k)"
      using that by (simp add: claimed_ids_def)
    then show ?thesis
      unfolding locked_ids_def by blast
  qed
  then show ?thesis
    using assms unfolding open_ok_def instant_in_def by fastforce
qed

lemma fired_ok_commit:
  assumes fired: "fired_ok now tb fired" and ids: "distinct (trigger_ids tb)"
    and cl: "at \<le> now" "distinct (map (ck_id \<circ> fst) cs)" "\<forall>c \<in> set cs. snd c \<le> at \<and> instant_in tb (ck_id (fst c)) (snd c)"
    and adv: "advance_claims (cron at) fault (map fst cs) tb = (Inr valid, tb')" and later: "later cron"
  shows "fired_ok now tb' (map (\<lambda>c. (ck_id (fst c), snd c)) (filter (\<lambda>c. fst c \<in> set valid) cs) @ fired)"
    (is "fired_ok now tb' (?new @ fired)")
proof -
  have ord: "\<forall>e z n. cron at e z = Inr n \<longrightarrow> at < n"
    using later by (simp add: later_def)
  have dist: "distinct (map ck_id (map fst cs))"
    using cl(2) by simp
  note adv' = advance_instants [OF adv dist ord]
  have new: "\<exists>c \<in> set cs. x = (ck_id (fst c), snd c) \<and> fst c \<in> set valid" if "x \<in> set ?new" for x
    using that by auto
  have "distinct (map (ck_id \<circ> fst) (filter (\<lambda>c. fst c \<in> set valid) cs))"
    using cl(2) by (simp add: distinct_map_filter)
  then have "distinct (map fst ?new)"
    by (simp add: comp_def)
  then have "sorted_wrt (\<lambda>x y. fst x \<noteq> fst y) ?new"
    by (simp add: distinct_map sorted_wrt_map [symmetric] strict_sorted_iff distinct_conv_nth sorted_wrt_iff_nth_less)
  then have sorted: "sorted_wrt (\<lambda>x y. fst x = fst y \<longrightarrow> snd y < snd x) ?new"
    by (rule sorted_wrt_mono_rel [rotated]) blast
  have over: "snd y < snd x" if "x \<in> set ?new" "y \<in> set fired" "fst x = fst y" for x y
    using new [OF that(1)] cl(3) fired that(2,3) by (auto simp: fired_ok_def)
  have past: "snd x \<le> now" if "x \<in> set (?new @ fired)" for x
    using that fired cl(1,3) by (fastforce simp: fired_ok_def)
  have ahead: "snd x < n" if "x \<in> set (?new @ fired)" "instant_in tb' (fst x) n" for x n
  proof -
    note x = that
    from adv'(2) [OF x(2)] show ?thesis
    proof
      assume "(\<exists>c \<in> set valid. ck_id c = fst x) \<and> at < n"
      then obtain v where v: "v \<in> set valid" "ck_id v = fst x" "at < n"
        by blast
      then obtain c where c: "c \<in> set cs" "fst c = v"
        using adv'(1) by auto
      have "snd x \<le> snd c"
      proof (cases "x \<in> set ?new")
        case True
        then obtain d where d: "d \<in> set cs" "x = (ck_id (fst d), snd d)"
          using new by blast
        then have "d = c"
          using c v(2) cl(2) by (auto simp: distinct_map inj_on_def)
        then show ?thesis
          using d by simp
      next
        case False
        then have "x \<in> set fired" "instant_in tb (fst x) (snd c)"
          using x(1) cl(3) c v(2) by auto
        then show ?thesis
          using fired by (fastforce simp: fired_ok_def)
      qed
      then show ?thesis
        using cl(3) c(1) v(3) by fastforce
    next
      assume old: "(\<forall>c \<in> set valid. ck_id c \<noteq> fst x) \<and> instant_in tb (fst x) n"
      then have "x \<notin> set ?new"
        using new by fastforce
      then show ?thesis
        using x(1) old fired by (auto simp: fired_ok_def)
    qed
  qed
  show ?thesis
    using sorted over past ahead fired by (simp add: fired_ok_def sorted_wrt_append)
qed

lemma due_rows_due: "t \<in> set (due_rows limit locked now tb) \<Longrightarrow> t \<in> set (tb_triggers tb) \<and> due_cron now tb t \<and> tg_id t \<notin> locked"
  by (auto simp: due_rows_def dest: in_set_takeD)

lemma due_rows_distinct:
  assumes "distinct (trigger_ids tb)"
  shows "distinct (map tg_id (due_rows limit locked now tb))"
proof -
  let ?due = "filter (\<lambda>t. due_cron now tb t \<and> tg_id t \<notin> locked) (tb_triggers tb)"
  have "distinct (map tg_id ?due)"
    using assms by (simp add: trigger_ids_def distinct_map_filter)
  then have "distinct (map tg_id (sort_key k ?due))" for k :: "trig_row \<Rightarrow> int"
    by (simp add: distinct_map)
  then show ?thesis
    unfolding due_rows_def take_map [symmetric] by (intro distinct_take)
qed

lemma open_ok_select:
  assumes "distinct (trigger_ids tb)"
  shows "open_ok now tb (Some (map (with_instant tb) (due_rows limit locked now tb), now))"
proof -
  have ids: "ck_id \<circ> fst \<circ> with_instant tb = tg_id"
    by (auto simp: with_instant_def claim_of_def)
  have "snd (with_instant tb t) \<le> now \<and> instant_in tb (ck_id (fst (with_instant tb t))) (snd (with_instant tb t))"
    if "t \<in> set (due_rows limit locked now tb)" for t
    using due_rows_due [OF that]
    by (auto simp: with_instant_def claim_of_def due_cron_def instant_in_def split: option.splits)
  then show ?thesis
    using due_rows_distinct [OF assms, of limit locked now] by (simp add: open_ok_def ids)
qed

lemma cron_inv_step:
  assumes "cron_step cron w w'" "cron_inv w" "later cron"
  shows "cron_inv w'"
  using assms(1)
proof cases
  case (pass n)
  then show ?thesis
    using assms(2) by (auto simp: cron_inv_def intro: fired_ok_later open_ok_later)
next
  case (select k rows limit)
  have "claimed_ids (Some (map (with_instant (cw_tables w)) rows, cw_now w)) \<inter> claimed_ids (cw_open w m) = {}" for m
  proof -
    have "tg_id t \<notin> claimed_ids (cw_open w m)" if "t \<in> set rows" for t
      using due_rows_due that unfolding select(3) locked_ids_def by blast
    then show ?thesis
      by (auto simp: claimed_ids_def with_instant_def claim_of_def)
  qed
  then show ?thesis
    using assms(2) open_ok_select unfolding select(1,3) by (auto simp: cron_inv_def)
next
  case (commit k cs at fault valid tb')
  have cl: "at \<le> cw_now w" "distinct (map (ck_id \<circ> fst) cs)" "\<forall>c \<in> set cs. snd c \<le> at \<and> instant_in (cw_tables w) (ck_id (fst c)) (snd c)"
    using assms(2) commit(2) unfolding cron_inv_def open_ok_def by blast+
  have "open_ok (cw_now w) tb' (cw_open w m)" if "m \<noteq> k" for m
  proof -
    have apart: "claimed_ids (cw_open w m) \<inter> claimed_ids (cw_open w k) = {}" and was: "open_ok (cw_now w) (cw_tables w) (cw_open w m)"
      using assms(2) that by (auto simp: cron_inv_def)
    have "instant_in tb' (ck_id (fst c)) (snd c) = instant_in (cw_tables w) (ck_id (fst c)) (snd c)"
      if "cw_open w m = Some (ds, a)" "c \<in> set ds" for ds a c
    proof (rule advance_keeps [OF commit(3)])
      have "ck_id (fst c) \<in> claimed_ids (cw_open w m)"
        using that by (simp add: claimed_ids_def)
      then have "ck_id (fst c) \<notin> claimed_ids (cw_open w k)"
        using apart by blast
      then show "ck_id (fst c) \<notin> ck_id ` set (map fst cs)"
        using commit(2) by (auto simp: claimed_ids_def)
    qed
    then show ?thesis
      using was unfolding open_ok_def by fastforce
  qed
  moreover have "open_ok (cw_now w) tb' None"
    by (simp add: open_ok_def)
  ultimately show ?thesis
    using assms(2) fired_ok_commit [OF _ _ cl commit(3) assms(3)] advance_ids [OF commit(3)] unfolding commit(1)
    by (auto simp: cron_inv_def claimed_ids_def [of None])
next
  case (rollback k)
  have "open_ok (cw_now w) (cw_tables w) None"
    by (simp add: open_ok_def)
  then show ?thesis
    using assms(2) unfolding rollback by (auto simp: cron_inv_def claimed_ids_def [of None])
next
  case (statement tb')
  have moves: "moves (cw_now w) (cw_tables w) tb'"
    using stmt_moves [OF statement(2)] assms(3) by (auto simp: later_def)
  then have "distinct (trigger_ids tb')"
    using assms(2) by (simp add: moves_def cron_inv_def)
  then show ?thesis
    using assms(2) fired_ok_moves [OF _ moves] open_ok_locked [OF _ statement(3)] unfolding statement(1)
    by (simp add: cron_inv_def)
qed

lemma cron_inv_reached:
  assumes "cron_runs cron (cron_start now tb) w" "later cron" "distinct (trigger_ids tb)"
  shows "cron_inv w"
  using assms(1) unfolding cron_runs_def
proof (induction rule: rtranclp_induct)
  case base
  then show ?case
    using assms(3) by (simp add: cron_inv_def cron_start_def fired_ok_def open_ok_def claimed_ids_def)
next
  case (step y z)
  then show ?case
    using cron_inv_step assms(2) by blast
qed

lemma descending_distinct:
  fixes xs :: "('a \<times> int) list"
  assumes "sorted_wrt (\<lambda>x y. fst x = fst y \<longrightarrow> snd y < snd x) xs"
  shows "distinct xs"
  using assms by (induction xs) auto


section \<open>Where an instant fires again and again\<close>

text \<open>
  The cron package answers with the zero time where an expression has no activation (the thirtieth of
  February), and a server whose clock is behind the database finds the instant it has just claimed:
  a trigger whose new instant is not after the time of the database is due again at once.
\<close>

lemma stale_instant_due_again:
  assumes "cron (tg_cron t) (tg_timezone t) = Inr n" "n \<le> later_now" "due_cron now tb t" "t \<in> set (tb_triggers tb)"
  shows "advance_claims cron (\<lambda>_. None) [claim_of tb t] tb = (Inr [claim_of tb t], set_trigger (tg_id t) (\<lambda>t. t\<lparr>tg_next_run := Some n\<rparr>) tb)"
    and "due_cron later_now (set_trigger (tg_id t) (\<lambda>t. t\<lparr>tg_next_run := Some n\<rparr>) tb) (t\<lparr>tg_next_run := Some n\<rparr>)"
proof -
  show "advance_claims cron (\<lambda>_. None) [claim_of tb t] tb = (Inr [claim_of tb t], set_trigger (tg_id t) (\<lambda>t. t\<lparr>tg_next_run := Some n\<rparr>) tb)"
    using assms(1) by (simp add: claim_of_def)
  show "due_cron later_now (set_trigger (tg_id t) (\<lambda>t. t\<lparr>tg_next_run := Some n\<rparr>) tb) (t\<lparr>tg_next_run := Some n\<rparr>)"
    using assms(2,3) by (simp add: due_cron_def workflow_of_def set_trigger_def map_triggers_def)
qed

text \<open>A trigger whose expression is refused keeps its instant: it is due, and selected, at every tick.\<close>

lemma refused_expression_due_again:
  assumes "cron (tg_cron t) (tg_timezone t) = Inl e" "now \<le> later_now" "due_cron now tb t"
  shows "\<exists>tb'. advance_claims cron (\<lambda>_. None) [claim_of tb t] tb = (Inr [], tb') \<and>
    due_cron later_now tb' (t\<lparr>tg_last_error := take 2000 e, tg_last_status := ''failed''\<rparr>)"
  using assms by (auto simp: claim_of_def due_cron_def workflow_of_def set_trigger_def map_triggers_def split: option.splits)

section \<open>Runs\<close>

definition demo_trigger :: "trigger_kind \<Rightarrow> trig_row" where
  "demo_trigger k = \<lparr>tg_id = ''tr'', tg_tenant = ''a'', tg_workflow = ''1'', tg_trigger = ''nightly'', tg_kind = k, tg_cron = ''0 3 * * *'',
     tg_timezone = ''UTC'', tg_token = ''tok'', tg_inputs = JObj [], tg_enabled = True, tg_next_run = Some 5, tg_last_status = [], tg_last_error = []\<rparr>"

definition demo_tables :: "trigger_kind \<Rightarrow> tables" where
  "demo_tables k = \<lparr>tb_workflows = [demo_row ''1'' ''a'' True], tb_runs = [], tb_triggers = [demo_trigger k]\<rparr>"

definition every_minute :: cron_package where
  "every_minute now e z = Inr (now + 60)"

lemma demo_due: "due_rows 0 {} 7 (demo_tables TriggerCron) = [demo_trigger TriggerCron]"
  by (simp add: due_rows_def due_cron_def workflow_of_def demo_tables_def demo_trigger_def demo_row_def)

lemma demo_selected:
  "cron_step every_minute (cron_start 7 (demo_tables TriggerCron))
     ((cron_start 7 (demo_tables TriggerCron))\<lparr>cw_open := (\<lambda>_. None)(0 := Some ([(claim_of (demo_tables TriggerCron) (demo_trigger TriggerCron), 5)], 7))\<rparr>)"
proof -
  have "with_instant (demo_tables TriggerCron) (demo_trigger TriggerCron) = (claim_of (demo_tables TriggerCron) (demo_trigger TriggerCron), 5)"
    by (simp add: with_instant_def demo_trigger_def)
  moreover have "locked_ids (cron_start 7 tb) = {}" for tb
    by (simp add: locked_ids_def claimed_ids_def cron_start_def)
  ultimately show ?thesis
    using select [of "cron_start 7 (demo_tables TriggerCron)" 0 "[demo_trigger TriggerCron]" 0 every_minute] demo_due
    by (simp add: cron_start_def)
qed

lemma demo_committed:
  "\<exists>w. cron_step every_minute
     ((cron_start 7 (demo_tables TriggerCron))\<lparr>cw_open := (\<lambda>_. None)(0 := Some ([(claim_of (demo_tables TriggerCron) (demo_trigger TriggerCron), 5)], 7))\<rparr>) w
     \<and> cw_fired w = [(''tr'', 5)]"
proof -
  let ?c = "claim_of (demo_tables TriggerCron) (demo_trigger TriggerCron)"
  let ?w = "(cron_start 7 (demo_tables TriggerCron))\<lparr>cw_open := (\<lambda>_. None)(0 := Some ([(?c, 5)], 7))\<rparr>"
  have "ck_id ?c = ''tr''"
    by (simp add: claim_of_def demo_trigger_def)
  moreover obtain tb' where adv: "advance_claims (every_minute 7) (\<lambda>_. None) (map fst [(?c, 5)]) (cw_tables ?w) = (Inr [?c], tb')"
    by (simp add: every_minute_def)
  moreover have "cw_open ?w 0 = Some ([(?c, 5)], 7)" "cw_fired ?w = []"
    by (simp_all add: cron_start_def)
  ultimately show ?thesis
    using commit [of ?w 0 "[(?c, 5)]" 7 every_minute "\<lambda>_. None" "[?c]" tb']
    by (intro exI conjI) (assumption | simp)+
qed


definition demo_result :: invoke_result where
  "demo_result = \<lparr>ir_run = ''run'', ir_status = StatusOK, ir_outputs = None, ir_error = [], ir_steps = 1, ir_dry_run = False, ir_started = 0, ir_duration = 0\<rparr>"

definition demo_hook :: hook_req where
  "demo_hook = \<lparr>hq_token = ''tok'', hq_idem = [], hq_length = 0, hq_body = Inr [], hq_now = (0, 0, 0)\<rparr>"

definition demo_hook_state :: "unit hook_state" where
  "demo_hook_state = \<lparr>hs_svc = (demo_svc [])\<lparr>sv_tables := demo_tables TriggerWebhook\<rparr>, hs_idem = [], hs_windows = []\<rparr>"

definition demo_invoke :: "unit invoker" where
  "demo_invoke te user slug inputs dry sv = (if slug = ''demo'' then Some (Inr demo_result, sv) else None)"

lemma demo_hooked:
  "\<exists>resp st'. webhook 0 (Some (\<lambda>_. Inr ''admin'')) demo_invoke (\<lambda>_. None) demo_hook demo_hook_state = Some (HookCreated resp, st')"
  by (simp add: webhook_def demo_hook_def demo_hook_state_def rate_allow_def hook_trigger_def get_webhook_trigger_def has_token_def workflow_of_def
      demo_tables_def demo_trigger_def demo_row_def hook_accepted_def hook_inputs_def parse_default_inputs_def hook_run_def resolve_trigger_actor_def
      demo_svc_def demo_invoke_def Let_def)

theorem webhook_runs_published_witness:
  "\<exists>t w. hooked ''tok'' (demo_tables TriggerWebhook) t w"
proof -
  obtain resp st' where run: "webhook 0 (Some (\<lambda>_. Inr ''admin'')) demo_invoke (\<lambda>_. None) demo_hook demo_hook_state = Some (HookCreated resp, st')"
    using demo_hooked by blast
  have "hq_token demo_hook = ''tok''" "hq_idem demo_hook = []" "sv_tables (hs_svc demo_hook_state) = demo_tables TriggerWebhook"
    by (simp_all add: demo_hook_def demo_hook_state_def)
  with webhook_runs_published [OF run] show ?thesis
    by metis
qed

theorem rate_limited_witness:
  "rate_run 1 [(''a'', 0), (''b'', 1), (''a'', 2)] [] = [(''a'', 0), (''b'', 1)] \<and>
   int (length (filter (in_minute ''a'' 0) (rate_run 1 [(''a'', 0), (''b'', 1), (''a'', 2)] []))) \<le> 2 * 1"
  using rate_limited [of "[(''a'', 0), (''b'', 1), (''a'', 2)]" 1 "''a''" 0]
  by (simp add: rate_allow_def rate_minute_def)

end
