(* ===== verification/Templates.thy ===== *)
theory Templates
  imports Design
begin

text \<open>
  The catalogue of workflow templates, \<open>src/internal/workflow/template\<close>: slots and their check, the
  renderers, and the classifier that picks a template and fills its slots from a user's message. A
  rendered document is the struct the YAML encoder is given. Labels of the catalogue that only a
  page shows are left out. Then: when the DSL that is rendered is accepted by the workflow service.
\<close>

section \<open>Catalogue (catalog.go)\<close>

record slot_spec =
  sp_name :: string
  sp_type :: string
  sp_required :: bool
  sp_default :: val

record template_def =
  td_id :: string
  td_slots :: "slot_spec list"

definition slot_of :: "string \<Rightarrow> string \<Rightarrow> bool \<Rightarrow> val \<Rightarrow> slot_spec" where
  "slot_of name typ req d = \<lparr>sp_name = name, sp_type = typ, sp_required = req, sp_default = d\<rparr>"

definition template_catalog :: "template_def list" where
  "template_catalog =
     [\<lparr>td_id = ''cron-notify'', td_slots =
        [slot_of ''schedule_cron'' ''string'' True VNull, slot_of ''message'' ''string'' True VNull,
         slot_of ''notify_tool'' ''string'' True (VStr ''llm.chat''), slot_of ''notify_args'' ''object'' True VNull]\<rparr>,
      \<lparr>td_id = ''webhook-forward'', td_slots =
        [slot_of ''webhook_path'' ''string'' True VNull, slot_of ''forward_tool'' ''string'' True VNull,
         slot_of ''forward_args'' ''object'' True VNull]\<rparr>,
      \<lparr>td_id = ''http-fetch-notify'', td_slots =
        [slot_of ''url'' ''string'' True VNull, slot_of ''method'' ''string'' False (VStr ''GET''),
         slot_of ''notify_tool'' ''string'' True (VStr ''llm.chat''), slot_of ''notify_args'' ''object'' True VNull]\<rparr>,
      \<lparr>td_id = ''llm-summarize-notify'', td_slots =
        [slot_of ''prompt'' ''string'' True VNull, slot_of ''model'' ''string'' False (VStr ''default-mock:text''),
         slot_of ''notify_tool'' ''string'' True (VStr ''llm.chat''), slot_of ''notify_args'' ''object'' True VNull]\<rparr>,
      \<lparr>td_id = ''tool-chain'', td_slots = [slot_of ''steps'' ''array'' True VNull]\<rparr>,
      \<lparr>td_id = ''mock-inspect'', td_slots =
        [slot_of ''scenario'' ''string'' False (VStr ''degraded''),
         slot_of ''alert_text'' ''string'' False (VStr ''ALERT: system degraded''),
         slot_of ''ok_text'' ''string'' False (VStr ''OK: system healthy'')]\<rparr>]"

definition template_get :: "string \<Rightarrow> template_def result" where
  "template_get tid =
     (case find (\<lambda>d. td_id d = tid) template_catalog of
        None \<Rightarrow> Inl (''template: unknown id '' @ quote tid)
      | Some d \<Rightarrow> Inr d)"

definition template_ids :: "string list" where
  "template_ids = map td_id template_catalog"

section \<open>Slots (slots.go)\<close>

definition check_slot_type :: "string \<Rightarrow> string \<Rightarrow> val \<Rightarrow> string option" where
  "check_slot_type name typ v =
     (if typ = ''string'' then (case v of VStr _ \<Rightarrow> None | _ \<Rightarrow> Some (''slot '' @ quote name @ '': expected string''))
      else if typ = ''object'' then (case v of VMap _ \<Rightarrow> None | _ \<Rightarrow> Some (''slot '' @ quote name @ '': expected object''))
      else if typ = ''array'' then (case v of VList _ \<Rightarrow> None | _ \<Rightarrow> Some (''slot '' @ quote name @ '': expected array''))
      else None)"

fun validate_slots :: "slot_spec list \<Rightarrow> (string, val) gomap \<Rightarrow> string option" where
  "validate_slots [] slots = None"
| "validate_slots (sp # sps) slots =
     (case (case map_of slots (sp_name sp) of None \<Rightarrow> VNull | Some v \<Rightarrow> v) of
        VNull \<Rightarrow>
          if sp_default sp = VNull \<and> sp_required sp then Some (''slot '' @ quote (sp_name sp) @ '' is required'')
          else validate_slots sps slots
      | v \<Rightarrow>
          (case check_slot_type (sp_name sp) (sp_type sp) v of
             Some e \<Rightarrow> Some e
           | None \<Rightarrow> validate_slots sps slots))"

definition merge_defaults :: "slot_spec list \<Rightarrow> (string, val) gomap \<Rightarrow> (string, val) gomap" where
  "merge_defaults sps slots =
     fold (\<lambda>sp out. if map_of out (sp_name sp) = None \<and> sp_default sp \<noteq> VNull then AList.update (sp_name sp) (sp_default sp) out else out)
       sps slots"

definition slot_string :: "(string, val) gomap \<Rightarrow> string \<Rightarrow> string" where
  "slot_string slots k = (case map_of slots k of Some (VStr s) \<Rightarrow> trim_space s | _ \<Rightarrow> [])"

definition slot_object :: "(string, val) gomap \<Rightarrow> string \<Rightarrow> (string, val) gomap" where
  "slot_object slots k = (case map_of slots k of Some (VMap m) \<Rightarrow> m | _ \<Rightarrow> [])"

section \<open>Rendering (render.go)\<close>

datatype tpl_step = TStep
  (tp_id: string) (tp_use: string) (tp_args: "(string, val) gomap") (tp_assign: "(string, string) gomap")
  (tp_if: string) (tp_then: "tpl_step list") (tp_else: "tpl_step list") (tp_on_error: string)

record tpl_doc =
  tq_id :: string
  tq_name :: string
  tq_description :: string
  tq_inputs :: "(string, string \<times> val) gomap"
  tq_triggers :: "trigger_spec list"
  tq_steps :: "tpl_step list"
  tq_outputs :: "(string, string) gomap"

record render_input =
  ri_slug :: string
  ri_name :: string
  ri_description :: string
  ri_slots :: "(string, val) gomap"

definition tpl_tool :: "string \<Rightarrow> string \<Rightarrow> (string, val) gomap \<Rightarrow> string \<Rightarrow> tpl_step" where
  "tpl_tool i use args on_err = TStep i use args [] [] [] [] on_err"

definition tpl_assign :: "string \<Rightarrow> (string, string) gomap \<Rightarrow> tpl_step" where
  "tpl_assign i asg = TStep i [] [] asg [] [] [] []"

definition tpl_gate :: "string \<Rightarrow> string \<Rightarrow> tpl_step list \<Rightarrow> tpl_step list \<Rightarrow> tpl_step" where
  "tpl_gate i e th el = TStep i [] [] [] e th el []"

definition tpl_document :: "render_input \<Rightarrow> trigger_spec list \<Rightarrow> tpl_step list \<Rightarrow> (string, string) gomap \<Rightarrow> tpl_doc" where
  "tpl_document inp trs ss outs =
     \<lparr>tq_id = ri_slug inp, tq_name = ri_name inp, tq_description = ri_description inp, tq_inputs = [], tq_triggers = trs,
      tq_steps = ss, tq_outputs = outs\<rparr>"

definition user_messages :: "string \<Rightarrow> val" where
  "user_messages content = VList [VMap [(''role'', VStr ''user''), (''content'', VStr content)]]"

definition chat_step :: "string \<Rightarrow> string \<Rightarrow> string \<Rightarrow> tpl_step" where
  "chat_step i model content = tpl_tool i ''llm.chat'' [(''model'', VStr model), (''messages'', user_messages content)] []"

definition render_cron_notify :: "render_input \<Rightarrow> (string, val) gomap \<Rightarrow> tpl_doc" where
  "render_cron_notify inp slots =
     (let tool = slot_string slots ''notify_tool''
      in tpl_document inp
           [\<lparr>tr_id = ''schedule'', tr_cron = slot_string slots ''schedule_cron'', tr_timezone = ''UTC'', tr_webhook = None, tr_inputs = []\<rparr>]
           [tpl_assign ''plan'' [(''body'', slot_string slots ''message'')],
            tpl_tool ''notify'' tool (slot_object slots ''notify_args'') ''fail'']
           [(''message'', ''${vars.body}''), (''sent_via'', tool)])"

definition render_webhook_forward :: "render_input \<Rightarrow> (string, val) gomap \<Rightarrow> tpl_doc" where
  "render_webhook_forward inp slots =
     (tpl_document inp
        [\<lparr>tr_id = ''inbound'', tr_cron = [], tr_timezone = [], tr_webhook = Some [(''enabled'', VBool True)],
          tr_inputs = [(''payload'', VMap [])]\<rparr>]
        [tpl_tool ''forward'' (slot_string slots ''forward_tool'') (slot_object slots ''forward_args'') ''fail'']
        [(''forwarded'', ''true'')])
     \<lparr>tq_inputs := [(''payload'', ''object'', VMap [])]\<rparr>"

definition render_http_fetch_notify :: "render_input \<Rightarrow> (string, val) gomap \<Rightarrow> tpl_doc" where
  "render_http_fetch_notify inp slots =
     (let m = slot_string slots ''method''; verb = (if m = [] then ''GET'' else m)
      in tpl_document inp []
           [chat_step ''fetch_plan'' ''default-mock:text''
              (''Summarize an HTTP '' @ verb @ '' response from '' @ slot_string slots ''url'' @ '' for notification.''),
            tpl_assign ''pick'' [(''summary'', ''${steps.fetch_plan.output}'')],
            tpl_tool ''notify'' (slot_string slots ''notify_tool'') (slot_object slots ''notify_args'') ''fail'']
           [(''summary'', ''${vars.summary}'')])"

definition render_llm_summarize_notify :: "render_input \<Rightarrow> (string, val) gomap \<Rightarrow> tpl_doc" where
  "render_llm_summarize_notify inp slots =
     (let m = slot_string slots ''model''; model = (if m = [] then ''default-mock:text'' else m)
      in tpl_document inp []
           [chat_step ''summarize'' model (slot_string slots ''prompt''),
            tpl_assign ''pick'' [(''summary'', ''${steps.summarize.output}'')],
            tpl_tool ''notify'' (slot_string slots ''notify_tool'') (slot_object slots ''notify_args'') ''fail'']
           [(''summary'', ''${vars.summary}'')])"

definition or_text :: "string \<Rightarrow> string \<Rightarrow> string" where
  "or_text s d = (if s = [] then d else s)"

definition health_gate :: string where
  "health_gate = ''${vars.health == '' @ CHR 0x22 # ''degraded'' @ CHR 0x22 # ''}''"

definition render_mock_inspect :: "render_input \<Rightarrow> (string, val) gomap \<Rightarrow> tpl_doc" where
  "render_mock_inspect inp slots =
     (tpl_document inp []
        [tpl_tool ''status'' ''mcp.e2e-mock.fetch_status'' [(''scenario'', VStr ''${inputs.scenario}'')] [],
         tpl_assign ''pick'' [(''health'', ''${steps.status.output.content.0.text}'')],
         tpl_gate ''gate'' health_gate
           [tpl_tool ''record'' ''mcp.e2e-mock.record_event'' [(''kind'', VStr ''inspect''), (''detail'', VStr ''${vars.health}'')] [],
            tpl_tool ''alert'' ''mcp.e2e-mock.echo'' [(''text'', VStr (or_text (slot_string slots ''alert_text'') ''ALERT: system degraded''))] []]
           [tpl_tool ''ok_msg'' ''mcp.e2e-mock.echo'' [(''text'', VStr (or_text (slot_string slots ''ok_text'') ''OK: system healthy''))] []]]
        [(''health'', ''${vars.health}''), (''branch'', ''${vars.health}'')])
     \<lparr>tq_inputs := [(''scenario'', ''string'', VStr (or_text (slot_string slots ''scenario'') ''degraded''))]\<rparr>"

record chain_item =
  ch_id :: string
  ch_use :: string
  ch_args :: "(string, val) gomap"

fun parse_chain_items :: "nat \<Rightarrow> val list \<Rightarrow> chain_item list result" where
  "parse_chain_items i [] = Inr []"
| "parse_chain_items i (VMap m # vs) =
     (let sid = slot_string m ''id''; use = slot_string m ''use''
      in if sid = [] \<or> use = [] then Inl (''steps['' @ show_nat i @ '']: id and use required'')
         else on_ok (parse_chain_items (Suc i) vs) (\<lambda>items.
           Inr (\<lparr>ch_id = sid, ch_use = use, ch_args = slot_object m ''args''\<rparr> # items)))"
| "parse_chain_items i (v # vs) = Inl (''steps['' @ show_nat i @ '']: expected object'')"

definition parse_step_chain :: "val \<Rightarrow> chain_item list result" where
  "parse_step_chain v = (case v of VList vs \<Rightarrow> parse_chain_items 0 vs | _ \<Rightarrow> Inl ''slot steps: expected array'')"

definition render_tool_chain :: "render_input \<Rightarrow> (string, val) gomap \<Rightarrow> tpl_doc result" where
  "render_tool_chain inp slots =
     (case map_of slots ''steps'' of
        None \<Rightarrow> Inl ''slot steps is required''
      | Some v \<Rightarrow>
          on_ok (parse_step_chain v) (\<lambda>items.
            if items = [] \<or> 3 < length items
            then Inl (''tool-chain requires 1-3 steps, got '' @ show_nat (length items))
            else Inr (tpl_document inp []
                   (map (\<lambda>it. tpl_tool (ch_id it) (ch_use it) (ch_args it) ''fail'') items)
                   [(''last'', ''${steps.'' @ ch_id (last items) @ ''.output}'')])))"

definition render_doc :: "string \<Rightarrow> render_input \<Rightarrow> (string, val) gomap \<Rightarrow> tpl_doc result" where
  "render_doc tid inp slots =
     (if tid = ''cron-notify'' then Inr (render_cron_notify inp slots)
      else if tid = ''webhook-forward'' then Inr (render_webhook_forward inp slots)
      else if tid = ''http-fetch-notify'' then Inr (render_http_fetch_notify inp slots)
      else if tid = ''llm-summarize-notify'' then Inr (render_llm_summarize_notify inp slots)
      else if tid = ''tool-chain'' then render_tool_chain inp slots
      else if tid = ''mock-inspect'' then Inr (render_mock_inspect inp slots)
      else Inl (''template: no renderer for '' @ quote tid))"

text \<open>\<open>Render\<close>; \<open>enc\<close> is \<open>yaml.Marshal\<close>.\<close>

definition render_template :: "(tpl_doc \<Rightarrow> string result) \<Rightarrow> string \<Rightarrow> render_input \<Rightarrow> string result" where
  "render_template enc tid inp =
     on_ok (template_get tid) (\<lambda>d.
       if ri_slug inp = [] \<or> ri_name inp = [] then Inl ''slug and name are required''
       else let slots = merge_defaults (td_slots d) (ri_slots inp)
            in case validate_slots (td_slots d) slots of
                 Some e \<Rightarrow> Inl e
               | None \<Rightarrow>
                   on_ok (render_doc tid inp slots) (\<lambda>doc.
                     case enc (if tq_id doc \<noteq> ri_slug inp then doc\<lparr>tq_id := ri_slug inp\<rparr> else doc) of
                       Inl e \<Rightarrow> Inl (''marshal dsl: '' @ e)
                     | Inr txt \<Rightarrow> Inr txt))"

section \<open>From a message (extract.go)\<close>

definition zh_callback :: string where "zh_callback = map char_of [0xE5, 0x9B, 0x9E, 0xE8, 0xB0, 0x83 :: nat]"
definition zh_weekly :: string where "zh_weekly = map char_of [0xE6, 0xAF, 0x8F, 0xE5, 0x91, 0xA8 :: nat]"
definition zh_timed :: string where "zh_timed = map char_of [0xE5, 0xAE, 0x9A, 0xE6, 0x97, 0xB6 :: nat]"
definition zh_fetch :: string where "zh_fetch = map char_of [0xE6, 0x8B, 0x89, 0xE5, 0x8F, 0x96 :: nat]"
definition zh_abstract :: string where "zh_abstract = map char_of [0xE6, 0x91, 0x98, 0xE8, 0xA6, 0x81 :: nat]"
definition zh_summary :: string where "zh_summary = map char_of [0xE6, 0x80, 0xBB, 0xE7, 0xBB, 0x93 :: nat]"
definition zh_chain :: string where "zh_chain = map char_of [0xE5, 0xB7, 0xA5, 0xE5, 0x85, 0xB7, 0xE9, 0x93, 0xBE :: nat]"
definition zh_sequence :: string where "zh_sequence = map char_of [0xE9, 0xA1, 0xBA, 0xE5, 0xBA, 0x8F :: nat]"

definition classify_message :: "string \<Rightarrow> string" where
  "classify_message message =
     (let msg = ascii_lower (trim_space message)
      in if contains msg ''webhook'' \<or> contains msg zh_callback then ''webhook-forward''
         else if contains msg zh_weekly \<or> contains msg zh_timed \<or> contains msg ''cron'' then ''cron-notify''
         else if contains msg ''http'' \<or> contains msg zh_fetch \<or> contains msg ''fetch'' then ''http-fetch-notify''
         else if contains msg zh_abstract \<or> contains msg ''summarize'' \<or> contains msg zh_summary then ''llm-summarize-notify''
         else if contains msg zh_chain \<or> contains msg zh_sequence \<or> contains msg ''chain'' then ''tool-chain''
         else [])"

text \<open>
  \<open>cronRe\<close>, leftmost match: two numbers, two stars and a range or a star. Neighbouring parts have no
  character in common, so that each takes all it can.
\<close>

definition re_space :: "char \<Rightarrow> bool" where
  "re_space c \<longleftrightarrow> c \<in> {CHR '' '', CHR 0x09, CHR 0x0A, CHR 0x0C, CHR 0x0D}"

definition take_some :: "(char \<Rightarrow> bool) \<Rightarrow> string \<Rightarrow> (string \<times> string) option" where
  "take_some P s = (if takeWhile P s = [] then None else Some (takeWhile P s, dropWhile P s))"

definition one_star :: "string \<Rightarrow> (string \<times> string) option" where
  "one_star s = (case s of CHR ''*'' # rest \<Rightarrow> Some (''*'', rest) | _ \<Rightarrow> None)"

definition match_cron :: "string \<Rightarrow> string option" where
  "match_cron s =
     (case take_some is_digit s of None \<Rightarrow> None | Some (a, s) \<Rightarrow>
      (case take_some re_space s of None \<Rightarrow> None | Some (b, s) \<Rightarrow>
      (case take_some is_digit s of None \<Rightarrow> None | Some (c, s) \<Rightarrow>
      (case take_some re_space s of None \<Rightarrow> None | Some (d, s) \<Rightarrow>
      (case one_star s of None \<Rightarrow> None | Some (e, s) \<Rightarrow>
      (case take_some re_space s of None \<Rightarrow> None | Some (f, s) \<Rightarrow>
      (case one_star s of None \<Rightarrow> None | Some (g, s) \<Rightarrow>
      (case take_some re_space s of None \<Rightarrow> None | Some (h, s) \<Rightarrow>
      (case take_some (\<lambda>x. is_digit x \<or> x = CHR ''-'') s of
         Some (i, s) \<Rightarrow> Some (a @ b @ c @ d @ e @ f @ g @ h @ i)
       | None \<Rightarrow>
           (case one_star s of None \<Rightarrow> None | Some (i, s) \<Rightarrow> Some (a @ b @ c @ d @ e @ f @ g @ h @ i)))))))))))"

fun find_cron :: "string \<Rightarrow> string option" where
  "find_cron [] = None"
| "find_cron (c # cs) = (case match_cron (c # cs) of None \<Rightarrow> find_cron cs | Some m \<Rightarrow> Some m)"

text \<open>\<open>strings.Fields\<close>, \<open>strings.Trim\<close>.\<close>

fun field_rest :: "string \<Rightarrow> string \<times> string" where
  "field_rest [] = ([], [])"
| "field_rest (c # cs) =
     (if trim_left (c # cs) \<noteq> c # cs then ([], c # cs) else let (a, b) = field_rest cs in (c # a, b))"

lemma field_rest_length: "length (snd (field_rest s)) \<le> length s"
  by (induction s) (auto simp: Let_def split: prod.splits)

function fields :: "string \<Rightarrow> string list" where
  "fields s =
     (case trim_left s of
        [] \<Rightarrow> []
      | c # cs \<Rightarrow> (c # fst (field_rest cs)) # fields (snd (field_rest cs)))"
  by pat_completeness auto

termination
proof (relation "measure length")
  fix s c cs
  assume "trim_left s = c # cs"
  then have "Suc (length cs) \<le> length s"
    using length_trim_left [of s] by simp
  then show "(snd (field_rest cs), s) \<in> measure length"
    using field_rest_length [of cs] by simp
qed simp

declare fields.simps [simp del]

definition trim_set :: "string \<Rightarrow> string \<Rightarrow> string" where
  "trim_set cs s = rev (dropWhile (\<lambda>c. c \<in> set cs) (rev (dropWhile (\<lambda>c. c \<in> set cs) s)))"

definition mock_args :: "string \<Rightarrow> val" where
  "mock_args content = VMap [(''model'', VStr ''default-mock:text''), (''messages'', user_messages content)]"

definition message_url :: "string \<Rightarrow> string" where
  "message_url msg =
     (case (if contains msg ''http'' then find (has_prefix ''http'') (fields msg) else None) of
        None \<Rightarrow> ''https://example.com''
      | Some tok \<Rightarrow> trim_set ''.,;'' tok)"

text \<open>The path of a webhook; \<open>None\<close>: the index expression panics, nothing follows the slash.\<close>

definition message_path :: "string \<Rightarrow> string option" where
  "message_path msg =
     (case index_byte (CHR ''/'') msg of
        None \<Rightarrow> Some ''incoming''
      | Some i \<Rightarrow> (case fields (drop (i + 1) msg) of [] \<Rightarrow> None | p # _ \<Rightarrow> Some p))"

definition extract_slots :: "string \<Rightarrow> string \<Rightarrow> (string, val) gomap option" where
  "extract_slots tid message =
     (let msg = trim_space message
      in if tid = ''cron-notify'' then
           Some [(''schedule_cron'', VStr (case find_cron msg of None \<Rightarrow> ''0 9 * * 1-5'' | Some m \<Rightarrow> m)), (''message'', VStr msg),
                 (''notify_tool'', VStr ''llm.chat''), (''notify_args'', mock_args msg)]
         else if tid = ''webhook-forward'' then
           (case message_path msg of
              None \<Rightarrow> None
            | Some path \<Rightarrow> Some [(''webhook_path'', VStr path), (''forward_tool'', VStr ''llm.chat''),
                                  (''forward_args'', mock_args ''forward webhook payload'')])
         else if tid = ''http-fetch-notify'' then
           Some [(''url'', VStr (message_url msg)), (''method'', VStr ''GET''), (''notify_tool'', VStr ''llm.chat''),
                 (''notify_args'', mock_args ''notify fetch result'')]
         else if tid = ''llm-summarize-notify'' then
           Some [(''prompt'', VStr msg), (''model'', VStr ''default-mock:text''), (''notify_tool'', VStr ''llm.chat''),
                 (''notify_args'', mock_args (''notification: '' @ msg))]
         else if tid = ''tool-chain'' then
           Some [(''steps'', VList [VMap [(''id'', VStr ''step1''), (''use'', VStr ''llm.chat''), (''args'', mock_args msg)]])]
         else Some [])"

text \<open>\<open>ClassifyAndExtract\<close>: no template, a panic, or a template with its slots.\<close>

datatype classified_message = NoTemplate | ExtractPanic | Matched string "(string, val) gomap"

definition classify_and_extract :: "string \<Rightarrow> classified_message" where
  "classify_and_extract message =
     (let tid = classify_message message
      in if tid = [] then NoTemplate
         else (case extract_slots tid message of None \<Rightarrow> ExtractPanic | Some slots \<Rightarrow> Matched tid slots))"

section \<open>Examples (examples.go)\<close>

definition example_slots :: "string \<Rightarrow> (string, val) gomap result" where
  "example_slots tid =
     (if tid = ''cron-notify'' then
        Inr [(''schedule_cron'', VStr ''0 9 * * 1-5''), (''message'', VStr ''weekly report''), (''notify_tool'', VStr ''llm.chat''),
             (''notify_args'', mock_args ''hi'')]
      else if tid = ''webhook-forward'' then
        Inr [(''webhook_path'', VStr ''github''), (''forward_tool'', VStr ''llm.chat''), (''forward_args'', mock_args ''fwd'')]
      else if tid = ''http-fetch-notify'' then
        Inr [(''url'', VStr ''https://example.com''), (''method'', VStr ''GET''), (''notify_tool'', VStr ''llm.chat''),
             (''notify_args'', mock_args ''notify'')]
      else if tid = ''llm-summarize-notify'' then
        Inr [(''prompt'', VStr ''summarize tasks''), (''notify_tool'', VStr ''llm.chat''), (''notify_args'', mock_args ''notify'')]
      else if tid = ''tool-chain'' then
        Inr [(''steps'', VList [VMap [(''id'', VStr ''a''), (''use'', VStr ''llm.chat''), (''args'', mock_args ''x'')]])]
      else if tid = ''mock-inspect'' then
        Inr [(''scenario'', VStr ''degraded''), (''alert_text'', VStr ''ALERT: system degraded''), (''ok_text'', VStr ''OK: system healthy'')]
      else Inl (''template: unknown id '' @ quote tid))"

section \<open>What is accepted\<close>

text \<open>The document the decoder gives for a rendered one; \<open>re\<close> is what a value reads back as.\<close>

primrec tpl_step_of :: "(val \<Rightarrow> val) \<Rightarrow> tpl_step \<Rightarrow> step" where
  "tpl_step_of re (TStep i use args asg e th el on_err) =
     Step i NodeNone use (if args = [] then None else Some (map (\<lambda>(k, v). (k, re v)) args)) 0 [] on_err asg e
       (map (tpl_step_of re) th) (map (tpl_step_of re) el) [] [] [] [] [] 0"

definition tpl_workflow :: "(val \<Rightarrow> val) \<Rightarrow> tpl_doc \<Rightarrow> workflow_doc" where
  "tpl_workflow re d = \<lparr>doc_id = tq_id d, doc_name = tq_name d, doc_version = 0, doc_description = tq_description d,
     doc_inputs = map (\<lambda>(n, t, v). (n, \<lparr>in_type = t, in_default = re v, in_schema = []\<rparr>)) (tq_inputs d),
     doc_triggers = tq_triggers d, doc_steps = map (tpl_step_of re) (tq_steps d), doc_outputs = tq_outputs d\<rparr>"

definition accepted ::
  "(string \<Rightarrow> string option) \<Rightarrow> (string \<Rightarrow> string option) \<Rightarrow> wf_config \<Rightarrow> workflow_doc \<Rightarrow> bool" where
  "accepted cron_err zone_err cfg doc \<longleftrightarrow>
     (\<exists>ss. classify_steps 0 (doc_steps doc) = Inr ss \<and> doc_ok cron_err zone_err cfg (doc\<lparr>doc_steps := ss\<rparr>))"

text \<open>What a template asks of its slots beyond \<open>ValidateSlots\<close>.\<close>

definition slots_fit :: "(string \<Rightarrow> string option) \<Rightarrow> (string \<Rightarrow> string option) \<Rightarrow> string \<Rightarrow> (string, val) gomap \<Rightarrow> bool" where
  "slots_fit cron_err zone_err tid slots \<longleftrightarrow>
     (if tid = ''cron-notify'' then
        slot_string slots ''message'' \<noteq> [] \<and> slot_string slots ''notify_tool'' \<noteq> [] \<and> slot_string slots ''schedule_cron'' \<noteq> [] \<and>
        cron_err (slot_string slots ''schedule_cron'') = None \<and> zone_err ''UTC'' = None
      else if tid = ''webhook-forward'' then slot_string slots ''forward_tool'' \<noteq> []
      else if tid = ''http-fetch-notify'' \<or> tid = ''llm-summarize-notify'' then slot_string slots ''notify_tool'' \<noteq> []
      else if tid = ''tool-chain'' then
        (\<exists>items. parse_step_chain (case map_of slots ''steps'' of None \<Rightarrow> VNull | Some v \<Rightarrow> v) = Inr items \<and>
           distinct (map ch_id items) \<and> (\<forall>it \<in> set items. step_id_match (ch_id it)))
      else True)"

lemma classify_tool:
  "classify_step (tpl_step_of re (tpl_tool i use args oe)) =
     (if use = [] then Inl ''must populate one of: use|assign|if|foreach|parallel|wait''
      else if oe \<in> {[], ''fail'', ''continue''}
      then Inr (with_class NodeTool 0 0 (if oe = [] then ''fail'' else oe) (tpl_step_of re (tpl_tool i use args oe)))
      else Inl (''on_error '' @ quote oe @ '': expected fail|continue''))"
  by (simp add: tpl_tool_def classify_step_def hits_def on_error_fail_def on_error_continue_def Let_def)

lemma classify_assign:
  "asg \<noteq> [] \<Longrightarrow> classify_step (tpl_step_of re (tpl_assign i asg)) =
     Inr (with_class NodeAssign 0 0 [] (tpl_step_of re (tpl_assign i asg)))"
  by (simp add: tpl_assign_def classify_step_def hits_def Let_def)

lemma classify_gate:
  "e \<noteq> [] \<Longrightarrow> classify_step (tpl_step_of re (tpl_gate i e th el)) =
     Inr (with_class NodeIf 0 0 [] (tpl_step_of re (tpl_gate i e th el)))"
  by (simp add: tpl_gate_def classify_step_def hits_def Let_def)

lemma tpl_step_sel [simp]:
  "st_id (tpl_step_of re s) = tp_id s" "st_use (tpl_step_of re s) = tp_use s" "st_assign (tpl_step_of re s) = tp_assign s"
  "st_if (tpl_step_of re s) = tp_if s" "st_then (tpl_step_of re s) = map (tpl_step_of re) (tp_then s)"
  "st_else (tpl_step_of re s) = map (tpl_step_of re) (tp_else s)"
  by (cases s; simp)+

lemma tpl_parts [simp]:
  "tp_id (tpl_tool i use args oe) = i" "tp_use (tpl_tool i use args oe) = use" "tp_id (tpl_assign i asg) = i" "tp_assign (tpl_assign i asg) = asg"
  "tp_id (tpl_gate i e th el) = i" "tp_if (tpl_gate i e th el) = e" "tp_then (tpl_gate i e th el) = th" "tp_else (tpl_gate i e th el) = el"
  by (simp_all add: tpl_tool_def tpl_assign_def tpl_gate_def)

lemmas tpl_classify = classify_tool classify_assign classify_gate classify_children.simps chat_step_def on_ok_Inr_iff
lemmas tpl_check = accepted_def doc_ok_def step_ids_eq visited_kids.simps step_ok_def tpl_workflow_def tpl_document_def

lemma step_ids_plain:
  "step_id_match ''plan''" "step_id_match ''notify''" "step_id_match ''forward''" "step_id_match ''fetch_plan''" "step_id_match ''pick''"
  "step_id_match ''summarize''" "step_id_match ''status''" "step_id_match ''gate''" "step_id_match ''record''" "step_id_match ''alert''"
  "step_id_match ''ok_msg''" "trigger_id_match ''schedule''" "trigger_id_match ''inbound''"
  by code_simp+

lemma cron_notify_accepted:
  "0 \<le> max_nesting_depth cfg \<Longrightarrow> accepted ce ze cfg (tpl_workflow re (render_cron_notify inp slots)) \<longleftrightarrow>
     slug_match (ri_slug inp) \<and> ri_name inp \<noteq> [] \<and> slots_fit ce ze ''cron-notify'' slots"
  by (auto simp: render_cron_notify_def Let_def tpl_classify tpl_check slots_fit_def step_ids_plain trigger_ok_def)

lemma webhook_forward_accepted:
  "0 \<le> max_nesting_depth cfg \<Longrightarrow> accepted ce ze cfg (tpl_workflow re (render_webhook_forward inp slots)) \<longleftrightarrow>
     slug_match (ri_slug inp) \<and> ri_name inp \<noteq> [] \<and> slots_fit ce ze ''webhook-forward'' slots"
  by (auto simp: render_webhook_forward_def Let_def tpl_classify tpl_check slots_fit_def step_ids_plain trigger_ok_def)

lemma http_fetch_accepted:
  "0 \<le> max_nesting_depth cfg \<Longrightarrow> accepted ce ze cfg (tpl_workflow re (render_http_fetch_notify inp slots)) \<longleftrightarrow>
     slug_match (ri_slug inp) \<and> ri_name inp \<noteq> [] \<and> slots_fit ce ze ''http-fetch-notify'' slots"
  by (auto simp: render_http_fetch_notify_def Let_def tpl_classify tpl_check slots_fit_def step_ids_plain)

lemma llm_summarize_accepted:
  "0 \<le> max_nesting_depth cfg \<Longrightarrow> accepted ce ze cfg (tpl_workflow re (render_llm_summarize_notify inp slots)) \<longleftrightarrow>
     slug_match (ri_slug inp) \<and> ri_name inp \<noteq> [] \<and> slots_fit ce ze ''llm-summarize-notify'' slots"
  by (auto simp: render_llm_summarize_notify_def Let_def tpl_classify tpl_check slots_fit_def step_ids_plain)

lemma mock_inspect_accepted:
  "1 \<le> max_nesting_depth cfg \<Longrightarrow> accepted ce ze cfg (tpl_workflow re (render_mock_inspect inp slots)) \<longleftrightarrow>
     slug_match (ri_slug inp) \<and> ri_name inp \<noteq> [] \<and> slots_fit ce ze ''mock-inspect'' slots"
  by (auto simp: render_mock_inspect_def health_gate_def Let_def tpl_classify tpl_check slots_fit_def step_ids_plain)

lemma chain_items_used: "parse_chain_items i vs = Inr items \<Longrightarrow> \<forall>it \<in> set items. ch_id it \<noteq> [] \<and> ch_use it \<noteq> []"
proof (induction vs arbitrary: i items)
  case (Cons v vs)
  show ?case
  proof (cases "\<exists>m. v = VMap m")
    case True
    then obtain m where v: "v = VMap m"
      by blast
    obtain rest where rest: "parse_chain_items (Suc i) vs = Inr rest" "slot_string m ''id'' \<noteq> []" "slot_string m ''use'' \<noteq> []"
        "items = \<lparr>ch_id = slot_string m ''id'', ch_use = slot_string m ''use'', ch_args = slot_object m ''args''\<rparr> # rest"
      using Cons.prems unfolding v by (auto simp only: parse_chain_items.simps Let_def on_ok_Inr_iff split: if_splits)
    show ?thesis
      using Cons.IH [OF rest(1)] rest(2-4) by simp
  next
    case False
    then show ?thesis
      using Cons.prems by (cases v) simp_all
  qed
qed simp

lemma classify_chain:
  assumes "\<forall>it \<in> set items. ch_use it \<noteq> []"
  shows "\<exists>ss. classify_steps i (map (tpl_step_of re) (map (\<lambda>it. tpl_tool (ch_id it) (ch_use it) (ch_args it) ''fail'') items)) = Inr ss \<and>
     map st_id ss = map ch_id items \<and> list_all2 (\<lambda>s it. st_kind s = NodeTool \<and> st_use s = ch_use it) ss items"
  using assms
proof (induction items arbitrary: i)
  case (Cons it items)
  have used: "\<forall>it \<in> set items. ch_use it \<noteq> []"
    using Cons.prems by simp
  obtain ss where ss: "classify_steps (Suc i) (map (tpl_step_of re) (map (\<lambda>it. tpl_tool (ch_id it) (ch_use it) (ch_args it) ''fail'') items)) = Inr ss"
      "map st_id ss = map ch_id items" "list_all2 (\<lambda>s it. st_kind s = NodeTool \<and> st_use s = ch_use it) ss items"
    using Cons.IH [OF used, of "Suc i"] by blast
  then show ?case
    using Cons.prems by (simp add: classify_tool classify_children.simps on_ok_Inr_iff)
qed simp

lemma visited_tools: "\<forall>s \<in> set ss. st_kind s = NodeTool \<Longrightarrow> visited d ss = map (\<lambda>s. (d, s)) ss"
  by (induction ss) (auto simp: visited_kids.simps)

lemma tool_chain_accepted:
  assumes "render_tool_chain inp slots = Inr doc" "0 \<le> max_nesting_depth cfg"
  shows "accepted ce ze cfg (tpl_workflow re doc) \<longleftrightarrow>
     slug_match (ri_slug inp) \<and> ri_name inp \<noteq> [] \<and> slots_fit ce ze ''tool-chain'' slots"
proof -
  obtain v items where v: "map_of slots ''steps'' = Some v" "parse_step_chain v = Inr items" "items \<noteq> []"
    and doc: "doc = tpl_document inp [] (map (\<lambda>it. tpl_tool (ch_id it) (ch_use it) (ch_args it) ''fail'') items)
               [(''last'', ''${steps.'' @ ch_id (last items) @ ''.output}'')]"
    using assms(1) by (auto simp: render_tool_chain_def on_ok_Inr_iff split: option.splits if_splits)
  have used: "\<forall>it \<in> set items. ch_use it \<noteq> []"
    using v(2) chain_items_used by (auto simp: parse_step_chain_def split: val.splits)
  obtain ss where ss: "classify_steps 0 (doc_steps (tpl_workflow re doc)) = Inr ss" "map st_id ss = map ch_id items"
      "list_all2 (\<lambda>s it. st_kind s = NodeTool \<and> st_use s = ch_use it) ss items"
    using classify_chain [OF used, of 0 re] by (auto simp: doc tpl_workflow_def tpl_document_def)
  have kinds: "\<forall>s \<in> set ss. st_kind s = NodeTool \<and> st_use s \<noteq> []"
    using ss(3) used by (auto simp: list_all2_conv_all_nth in_set_conv_nth) (metis nth_mem)
  have "ss \<noteq> []"
    using ss(2) v(3) by auto
  moreover have "(\<forall>s \<in> set ss. step_id_match (st_id s)) \<longleftrightarrow> (\<forall>it \<in> set items. step_id_match (ch_id it))"
    using ss(2) by (metis (mono_tags, lifting) image_iff list.set_map)
  moreover have "tree_ok cfg (visited 0 ss) \<longleftrightarrow> (\<forall>s \<in> set ss. step_id_match (st_id s))" "ids_of (visited 0 ss) = map st_id ss"
    using kinds assms(2) visited_tools [of ss 0] by (auto simp: tree_ok_def step_ok_def ids_of_def comp_def)
  ultimately show ?thesis
    using ss(1,2) v by (auto simp: accepted_def doc_ok_def step_ids_eq slots_fit_def doc tpl_workflow_def tpl_document_def)
qed

lemma rendered_id: "render_doc tid inp slots = Inr doc \<Longrightarrow> tq_id doc = ri_slug inp"
  by (auto simp: render_doc_def render_cron_notify_def render_webhook_forward_def render_http_fetch_notify_def
      render_llm_summarize_notify_def render_mock_inspect_def render_tool_chain_def tpl_document_def on_ok_Inr_iff Let_def
      split: if_splits option.splits)

lemma render_doc_accepted:
  assumes "render_doc tid inp slots = Inr doc" "1 \<le> max_nesting_depth cfg"
  shows "accepted ce ze cfg (tpl_workflow re doc) \<longleftrightarrow> slug_match (ri_slug inp) \<and> ri_name inp \<noteq> [] \<and> slots_fit ce ze tid slots"
  using assms cron_notify_accepted [of cfg ce ze re inp slots] webhook_forward_accepted [of cfg ce ze re inp slots]
    http_fetch_accepted [of cfg ce ze re inp slots] llm_summarize_accepted [of cfg ce ze re inp slots]
    mock_inspect_accepted [of cfg ce ze re inp slots] tool_chain_accepted [of inp slots doc cfg ce ze re]
  by (auto simp: render_doc_def split: if_splits)

text \<open>
  C16. What a template renders is accepted exactly when its slots make sense: the DSL of a rendered
  template, written and read back, passes \<open>Parse\<close> and \<open>Validate\<close> if and only if the slug is one, the
  texts that become tools and expressions are not blank, the cron expression is one, and the ids of a
  tool chain are step ids and distinct.
\<close>

theorem template_accepted:
  assumes "render_template enc tid inp = Inr txt"
    and "\<And>d t. enc d = Inr t \<Longrightarrow> dec t = Inr (tpl_workflow re d)" "1 \<le> max_nesting_depth cfg"
  shows "(\<exists>doc doc'. parse_doc dec txt = Inr doc \<and> validate_doc cron_err zone_err (Some doc) cfg = Inr doc') \<longleftrightarrow>
    slug_match (ri_slug inp) \<and>
    (\<exists>d. template_get tid = Inr d \<and> slots_fit cron_err zone_err tid (merge_defaults (td_slots d) (ri_slots inp)))"
proof -
  obtain d doc where d: "template_get tid = Inr d" "ri_name inp \<noteq> []" and doc: "render_doc tid inp (merge_defaults (td_slots d) (ri_slots inp)) = Inr doc"
    and enc: "(case enc (if tq_id doc \<noteq> ri_slug inp then doc\<lparr>tq_id := ri_slug inp\<rparr> else doc) of Inl e \<Rightarrow> Inl (''marshal dsl: '' @ e) | Inr txt \<Rightarrow> Inr txt) = Inr txt"
    using assms(1) by (auto simp: render_template_def on_ok_Inr_iff Let_def split: if_splits option.splits)
  then have enc: "enc doc = Inr txt"
    using rendered_id [OF doc] by (simp split: sum.splits)
  have "dec txt = Inr (tpl_workflow re doc)"
    using assms(2) enc by blast
  then have "(\<exists>doc doc'. parse_doc dec txt = Inr doc \<and> validate_doc cron_err zone_err (Some doc) cfg = Inr doc') \<longleftrightarrow>
      accepted cron_err zone_err cfg (tpl_workflow re doc)"
    by (auto simp: parse_doc_def accepted_def on_ok_Inr_iff simp flip: validate_doc_ok_iff)
  then show ?thesis
    using render_doc_accepted [OF doc assms(3)] d by simp
qed

section \<open>Messages\<close>

lemma contains_empty [simp]: "contains [] p \<longleftrightarrow> p = []"
  by (simp add: contains_def)

lemma classify_blank: "trim_space message = [] \<Longrightarrow> classify_message message = []"
  by (simp add: classify_message_def zh_callback_def zh_weekly_def zh_timed_def zh_fetch_def zh_abstract_def zh_summary_def zh_chain_def
      zh_sequence_def)

lemma classify_known:
  "classify_message message = [] \<or> classify_message message = ''webhook-forward'' \<or> classify_message message = ''cron-notify'' \<or>
   classify_message message = ''http-fetch-notify'' \<or> classify_message message = ''llm-summarize-notify'' \<or> classify_message message = ''tool-chain''"
  by (simp only: classify_message_def Let_def split: if_split) simp

definition message_cron :: "string \<Rightarrow> string" where
  "message_cron message = trim_space (case find_cron (trim_space message) of None \<Rightarrow> ''0 9 * * 1-5'' | Some m \<Rightarrow> m)"

lemma plain_trims: "trim_space ''llm.chat'' = ''llm.chat''" "trim_space ''step1'' = ''step1''" "step_id_match ''step1''"
  by code_simp+

lemma slot_string_cons [simp]:
  "slot_string ((k, v) # m) k' = (if k = k' then (case v of VStr s \<Rightarrow> trim_space s | _ \<Rightarrow> []) else slot_string m k')"
  by (simp add: slot_string_def split: val.split)

text \<open>The slots found in a message are complete, and fit but for the cron expression.\<close>

definition extracted_well :: "(string \<Rightarrow> string option) \<Rightarrow> (string \<Rightarrow> string option) \<Rightarrow> render_input \<Rightarrow> string \<Rightarrow> string \<Rightarrow> (string, val) gomap \<Rightarrow> bool" where
  "extracted_well ce ze inp tid message slots \<longleftrightarrow>
     (\<exists>d. template_get tid = Inr d \<and> merge_defaults (td_slots d) slots = slots \<and> validate_slots (td_slots d) slots = None) \<and>
     (\<exists>doc. render_doc tid inp slots = Inr doc) \<and>
     (slots_fit ce ze tid slots \<longleftrightarrow> (tid = ''cron-notify'' \<longrightarrow> message_cron message \<noteq> [] \<and> ce (message_cron message) = None \<and> ze ''UTC'' = None))"

lemmas template_rows = template_get_def template_catalog_def slot_of_def merge_defaults_def check_slot_type_def mock_args_def
lemmas template_fits = render_doc_def slots_fit_def plain_trims

lemma extracted_webhook:
  assumes "extract_slots ''webhook-forward'' message = Some slots"
  shows "extracted_well ce ze inp ''webhook-forward'' message slots"
proof -
  obtain path where slots: "slots = [(''webhook_path'', VStr path), (''forward_tool'', VStr ''llm.chat''), (''forward_args'', mock_args ''forward webhook payload'')]"
    using assms by (auto simp: extract_slots_def Let_def split: option.splits)
  show ?thesis
    unfolding extracted_well_def slots by (intro conjI) (simp_all add: template_rows template_fits)
qed

lemma extracted_cron:
  assumes "extract_slots ''cron-notify'' message = Some slots" "trim_space message \<noteq> []"
  shows "extracted_well ce ze inp ''cron-notify'' message slots"
proof -
  have slots: "slots = [(''schedule_cron'', VStr (case find_cron (trim_space message) of None \<Rightarrow> ''0 9 * * 1-5'' | Some m \<Rightarrow> m)),
      (''message'', VStr (trim_space message)), (''notify_tool'', VStr ''llm.chat''), (''notify_args'', mock_args (trim_space message))]"
    using assms(1) by (simp add: extract_slots_def Let_def)
  show ?thesis
    unfolding extracted_well_def slots using assms(2)
    by (intro conjI) (simp_all add: template_rows template_fits message_cron_def conj_commute)
qed

lemma extracted_http:
  assumes "extract_slots ''http-fetch-notify'' message = Some slots"
  shows "extracted_well ce ze inp ''http-fetch-notify'' message slots"
proof -
  have slots: "slots = [(''url'', VStr (message_url (trim_space message))), (''method'', VStr ''GET''), (''notify_tool'', VStr ''llm.chat''),
      (''notify_args'', mock_args ''notify fetch result'')]"
    using assms by (simp add: extract_slots_def Let_def)
  show ?thesis
    unfolding extracted_well_def slots by (intro conjI) (simp_all add: template_rows template_fits)
qed

lemma extracted_llm:
  assumes "extract_slots ''llm-summarize-notify'' message = Some slots"
  shows "extracted_well ce ze inp ''llm-summarize-notify'' message slots"
proof -
  have slots: "slots = [(''prompt'', VStr (trim_space message)), (''model'', VStr ''default-mock:text''), (''notify_tool'', VStr ''llm.chat''),
      (''notify_args'', mock_args (''notification: '' @ trim_space message))]"
    using assms by (simp add: extract_slots_def Let_def)
  show ?thesis
    unfolding extracted_well_def slots by (intro conjI) (simp_all add: template_rows template_fits)
qed

lemma extracted_chain:
  assumes "extract_slots ''tool-chain'' message = Some slots"
  shows "extracted_well ce ze inp ''tool-chain'' message slots"
proof -
  have slots: "slots = [(''steps'', VList [VMap [(''id'', VStr ''step1''), (''use'', VStr ''llm.chat''), (''args'', mock_args (trim_space message))]])]"
    using assms by (simp add: extract_slots_def Let_def)
  have chain: "parse_step_chain (VList [VMap [(''id'', VStr ''step1''), (''use'', VStr ''llm.chat''), (''args'', x)]]) =
      Inr [\<lparr>ch_id = ''step1'', ch_use = ''llm.chat'', ch_args = slot_object [(''id'', VStr ''step1''), (''use'', VStr ''llm.chat''), (''args'', x)] ''args''\<rparr>]" for x
    by (simp add: parse_step_chain_def plain_trims on_ok_Inr_iff Let_def)
  show ?thesis
    unfolding extracted_well_def slots
    by (intro conjI) (simp_all add: template_rows template_fits render_tool_chain_def chain [unfolded mock_args_def] on_ok_Inr_iff Let_def)
qed

text \<open>
  A message that is classified becomes a workflow: its slots pass the check of the template, the
  template renders, and the document is accepted, where the slug is one and, for a timed
  notification, the cron expression found in the message, or the default, is one.
\<close>

theorem message_accepted:
  assumes "classify_and_extract message = Matched tid slots" "ri_slots inp = slots" "ri_slug inp \<noteq> []" "ri_name inp \<noteq> []"
    and "1 \<le> max_nesting_depth cfg"
  shows "\<exists>doc. render_template enc tid inp = (case enc doc of Inl e \<Rightarrow> Inl (''marshal dsl: '' @ e) | Inr txt \<Rightarrow> Inr txt) \<and>
    (accepted cron_err zone_err cfg (tpl_workflow re doc) \<longleftrightarrow> slug_match (ri_slug inp) \<and>
       (tid = ''cron-notify'' \<longrightarrow> message_cron message \<noteq> [] \<and> cron_err (message_cron message) = None \<and> zone_err ''UTC'' = None))"
proof -
  have tid: "tid = classify_message message" "tid \<noteq> []" and slots: "extract_slots tid message = Some slots"
    using assms(1) by (auto simp: classify_and_extract_def Let_def split: if_splits option.splits)
  have msg: "trim_space message \<noteq> []"
    using tid classify_blank by blast
  have well: "extracted_well cron_err zone_err inp tid message slots"
    using classify_known [of message] unfolding tid(1) [symmetric]
    by (elim disjE) (use tid(2) slots msg extracted_webhook extracted_cron extracted_http extracted_llm extracted_chain in \<open>simp_all only: \<close>)
  then obtain d doc where d: "template_get tid = Inr d" "merge_defaults (td_slots d) slots = slots" "validate_slots (td_slots d) slots = None"
    and doc: "render_doc tid inp slots = Inr doc"
    and fit: "slots_fit cron_err zone_err tid slots \<longleftrightarrow>
        (tid = ''cron-notify'' \<longrightarrow> message_cron message \<noteq> [] \<and> cron_err (message_cron message) = None \<and> zone_err ''UTC'' = None)"
    unfolding extracted_well_def by blast
  have "render_template enc tid inp = (case enc doc of Inl e \<Rightarrow> Inl (''marshal dsl: '' @ e) | Inr txt \<Rightarrow> Inr txt)"
    using d doc assms(2-4) rendered_id [OF doc] by (simp add: render_template_def)
  moreover have "accepted cron_err zone_err cfg (tpl_workflow re doc) \<longleftrightarrow> slug_match (ri_slug inp) \<and> ri_name inp \<noteq> [] \<and> slots_fit cron_err zone_err tid slots"
    using render_doc_accepted [OF doc assms(5)] .
  ultimately show ?thesis
    using fit assms(4) by blast
qed

text \<open>A message that asks for a webhook and ends in a slash: the index expression panics.\<close>

lemma webhook_message_panics: "classify_and_extract ''webhook to /'' = ExtractPanic"
  by code_simp

theorem message_accepted_witness:
  "\<exists>doc. render_template (\<lambda>d. Inr (tq_id d)) ''webhook-forward'' \<lparr>ri_slug = ''hook'', ri_name = ''Hook'', ri_description = [],
       ri_slots = [(''webhook_path'', VStr ''in''), (''forward_tool'', VStr ''llm.chat''), (''forward_args'', mock_args ''forward webhook payload'')]\<rparr> =
     Inr (tq_id doc) \<and> accepted (\<lambda>_. None) (\<lambda>_. None) default_config (tpl_workflow id doc)"
proof -
  have matched: "classify_and_extract ''webhook /in'' =
      Matched ''webhook-forward'' [(''webhook_path'', VStr ''in''), (''forward_tool'', VStr ''llm.chat''), (''forward_args'', mock_args ''forward webhook payload'')]"
    and slug: "slug_match ''hook''"
    by code_simp+
  have depth: "1 \<le> max_nesting_depth default_config"
    by (simp add: default_config_def)
  let ?inp = "\<lparr>ri_slug = ''hook'', ri_name = ''Hook'', ri_description = [],
      ri_slots = [(''webhook_path'', VStr ''in''), (''forward_tool'', VStr ''llm.chat''), (''forward_args'', mock_args ''forward webhook payload'')]\<rparr>"
  show ?thesis
    using message_accepted [OF matched, of ?inp default_config "\<lambda>d. Inr (tq_id d)" "\<lambda>_. None" "\<lambda>_. None" id] depth slug by auto
qed

definition demo_render :: render_input where
  "demo_render = \<lparr>ri_slug = ''inspect'', ri_name = ''Inspect'', ri_description = [], ri_slots = []\<rparr>"

definition demo_slots :: "(string, val) gomap" where
  "demo_slots = [(''scenario'', VStr ''degraded''), (''alert_text'', VStr ''ALERT: system degraded''), (''ok_text'', VStr ''OK: system healthy'')]"

definition demo_encode :: "tpl_doc \<Rightarrow> string result" where
  "demo_encode d = (if tq_id d = ''inspect'' \<and> d = render_mock_inspect demo_render demo_slots then Inr ''yaml'' else Inl ''other'')"

theorem template_accepted_witness:
  "\<exists>doc doc'. parse_doc (\<lambda>t. Inr (tpl_workflow id (render_mock_inspect demo_render demo_slots))) ''yaml'' = Inr doc \<and>
     validate_doc (\<lambda>_. None) (\<lambda>_. None) (Some doc) default_config = Inr doc'"
proof -
  have slug: "slug_match ''inspect''"
    by code_simp
  let ?doc = "render_mock_inspect demo_render demo_slots"
  have doc: "render_doc ''mock-inspect'' demo_render demo_slots = Inr ?doc"
    by (simp add: render_doc_def)
  have id: "tq_id ?doc = ''inspect''"
    using rendered_id [OF doc] by (simp add: demo_render_def)
  have "\<exists>d. template_get ''mock-inspect'' = Inr d \<and> validate_slots (td_slots d) (merge_defaults (td_slots d) []) = None \<and>
      merge_defaults (td_slots d) [] = demo_slots"
    by (simp add: template_rows demo_slots_def)
  then obtain d where d: "template_get ''mock-inspect'' = Inr d" "validate_slots (td_slots d) (merge_defaults (td_slots d) []) = None"
      "merge_defaults (td_slots d) [] = demo_slots"
    by blast
  have enc: "demo_encode ?doc = Inr ''yaml''"
    using id by (simp add: demo_encode_def)
  have rendered: "render_template demo_encode ''mock-inspect'' demo_render = Inr ''yaml''"
    using d doc id enc by (simp add: render_template_def demo_render_def)
  have dec: "demo_encode x = Inr t \<Longrightarrow> (\<lambda>_. Inr (tpl_workflow id ?doc)) t = Inr (tpl_workflow id x)" for x t
    by (auto simp: demo_encode_def split: if_splits)
  have depth: "1 \<le> max_nesting_depth default_config"
    by (simp add: default_config_def)
  have fits: "slots_fit (\<lambda>_. None) (\<lambda>_. None) ''mock-inspect'' m" for m
    by (simp add: slots_fit_def)
  show ?thesis
    using template_accepted [where dec = "\<lambda>_. Inr (tpl_workflow id ?doc)" and re = id and cron_err = "\<lambda>_. None" and zone_err = "\<lambda>_. None",
      OF rendered dec depth] slug d(1) fits by (simp add: demo_render_def)
qed

end
