(* ===== verification/Base64.thy ===== *)
theory Base64
  imports Sha256 GoStd
begin

text \<open>
  \<open>base64.RawURLEncoding\<close> and \<open>hmac.New(sha256.New, key)\<close> of the Go library, on byte strings. The
  decoder skips line breaks and does not look at the unused bits of the last character, as the
  library does unless it is asked to be strict.
\<close>

definition b64_alphabet :: string where
  "b64_alphabet = ''ABCDEFGHIJKLMNOPQRSTUVWXYZabcdefghijklmnopqrstuvwxyz0123456789-_''"

definition b64_char :: "nat \<Rightarrow> char" where
  "b64_char n = b64_alphabet ! n"

definition b64_val :: "char \<Rightarrow> nat option" where
  "b64_val c =
     (let n = of_char c :: nat
      in if 65 \<le> n \<and> n \<le> 90 then Some (n - 65)
         else if 97 \<le> n \<and> n \<le> 122 then Some (n - 71)
         else if 48 \<le> n \<and> n \<le> 57 then Some (n + 4)
         else if n = 45 then Some 62
         else if n = 95 then Some 63
         else None)"

fun b64_digits :: "nat list \<Rightarrow> nat list" where
  "b64_digits [] = []"
| "b64_digits [a] = [a div 4, a mod 4 * 16]"
| "b64_digits [a, b] = [a div 4, a mod 4 * 16 + b div 16, b mod 16 * 4]"
| "b64_digits (a # b # c # bs) = [a div 4, a mod 4 * 16 + b div 16, b mod 16 * 4 + c div 64, c mod 64] @ b64_digits bs"

fun b64_bytes :: "nat list \<Rightarrow> nat list option" where
  "b64_bytes [] = Some []"
| "b64_bytes [a] = None"
| "b64_bytes [a, b] = Some [a * 4 + b div 16]"
| "b64_bytes [a, b, c] = Some [a * 4 + b div 16, b mod 16 * 16 + c div 4]"
| "b64_bytes (a # b # c # d # ds) =
     map_option (\<lambda>bs. [a * 4 + b div 16, b mod 16 * 16 + c div 4, c mod 4 * 64 + d] @ bs) (b64_bytes ds)"

definition b64_encode :: "string \<Rightarrow> string" where
  "b64_encode s = map b64_char (b64_digits (map of_char s))"

definition b64_decode :: "string \<Rightarrow> string option" where
  "b64_decode s =
     (let vs = map b64_val (filter (\<lambda>c. c \<noteq> CHR 0x0A \<and> c \<noteq> CHR 0x0D) s)
      in if None \<in> set vs then None else map_option (map char_of) (b64_bytes (map the vs)))"

definition xor_pad :: "nat \<Rightarrow> nat list \<Rightarrow> string" where
  "xor_pad p ks = map (\<lambda>k. char_of (k XOR p)) ks"

definition hmac_sha256 :: "string \<Rightarrow> string \<Rightarrow> string" where
  "hmac_sha256 key msg =
     (let k = (if 64 < length key then sha256 key else key);
          ks = map of_char k @ replicate (64 - length k) (0 :: nat)
      in sha256 (xor_pad 0x5C ks @ sha256 (xor_pad 0x36 ks @ msg)))"

section \<open>Decoding what was encoded\<close>

lemma b64_alphabet_values: "map b64_val b64_alphabet = map Some [0..<64]"
  by (simp add: b64_alphabet_def b64_val_def upt_rec)

lemma length_b64_alphabet: "length b64_alphabet = 64"
  by (simp add: b64_alphabet_def)

lemma b64_char_code:
  assumes "n < 64"
  shows "b64_val (b64_char n) = Some n" "b64_char n \<in> set b64_alphabet"
proof -
  have "b64_val (b64_char n) = map b64_val b64_alphabet ! n"
    using assms by (simp add: b64_char_def length_b64_alphabet)
  also have "\<dots> = Some n"
    using assms by (simp only: b64_alphabet_values) simp
  finally show "b64_val (b64_char n) = Some n" .
  show "b64_char n \<in> set b64_alphabet"
    using assms by (simp add: b64_char_def length_b64_alphabet)
qed

lemma b64_not_special: "CHR 0x0A \<notin> set b64_alphabet" "CHR 0x0D \<notin> set b64_alphabet" "CHR ''.'' \<notin> set b64_alphabet"
  by (simp_all add: b64_alphabet_def)

lemma b64_digits_small: "\<forall>b \<in> set bs. b < 256 \<Longrightarrow> \<forall>d \<in> set (b64_digits bs). d < 64"
  by (induction bs rule: b64_digits.induct) auto

lemma b64_split: "a div 4 * 4 + (a mod 4 * 16 + b div 16) div 16 = a" if "b < 256" for a b :: nat
  using that by simp

lemma b64_bytes_digits: "\<forall>b \<in> set bs. b < 256 \<Longrightarrow> b64_bytes (b64_digits bs) = Some bs"
proof (induction bs rule: b64_digits.induct)
  case (2 a)
  then show ?case by simp
next
  case (3 a b)
  then have "(a mod 4 * 16 + b div 16) mod 16 = b div 16" "b div 16 < 16" by auto
  then show ?case using 3 by simp
next
  case (4 a b c bs)
  then have "b div 16 < 16" "c div 64 < 4" by (simp_all add: less_mult_imp_div_less)
  then show ?case using 4 by simp
qed simp

lemma b64_decode_encode: "b64_decode (b64_encode s) = Some s"
proof -
  let ?ds = "b64_digits (map of_char s :: nat list)"
  have bytes: "\<forall>b \<in> set (map of_char s :: nat list). b < 256"
    by auto
  have ok: "\<forall>d \<in> set ?ds. d < 64"
    by (rule b64_digits_small [OF bytes])
  have "filter (\<lambda>c. c \<noteq> CHR 0x0A \<and> c \<noteq> CHR 0x0D) (map b64_char ?ds) = map b64_char ?ds"
    using ok b64_char_code(2) b64_not_special by (auto simp: filter_id_conv) metis+
  moreover have "map (b64_val \<circ> b64_char) ?ds = map Some ?ds"
    using ok b64_char_code by simp
  moreover have "map (\<lambda>d. the (b64_val (b64_char d))) ?ds = ?ds"
    using ok b64_char_code(1) by (simp add: map_idI)
  ultimately show ?thesis
    using b64_bytes_digits [OF bytes] by (simp add: b64_decode_def b64_encode_def Let_def comp_def image_iff)
qed

lemma b64_encode_dotless: "CHR ''.'' \<notin> set (b64_encode s)"
proof -
  have "\<forall>d \<in> set (b64_digits (map of_char s :: nat list)). d < 64"
    by (rule b64_digits_small) auto
  then show ?thesis
    using b64_char_code(2) b64_not_special(3) by (auto simp: b64_encode_def)
qed

end
