(* ===== verification/Auth.thy ===== *)
theory Auth
  imports GoDb Base64 Quota
begin

text \<open>
  Who a request speaks for: \<open>src/internal/auth\<close> (tokens, revocation, the middleware, login, logout
  and the OpenID Connect flow), \<open>src/internal/user\<close> and \<open>src/internal/tenant\<close> (the tables behind it)
  and \<open>src/internal/httpx/ratelimit.go\<close>. The JWT, UUID, bcrypt, OAuth2 and Redis packages are
  parameters. Times are nanoseconds since 1970; random values are drawn from outside.
\<close>

section \<open>Tokens (jwt.go, config.go)\<close>

record claims =
  cl_user :: dbid
  cl_tenant :: dbid
  cl_role :: string
  cl_jti :: string
  cl_expires :: int

text \<open>The claims set of a token as text; the expiry is a whole second.\<close>

record token_claims =
  tk_uid :: string
  tk_tid :: string
  tk_role :: string
  tk_id :: string
  tk_exp :: "int option"

record jwt_config =
  jc_secret :: string
  jc_ttl :: int

record jwt_lib =
  jl_sign :: "string \<Rightarrow> token_claims \<Rightarrow> string result"
  jl_parse :: "string \<Rightarrow> int \<Rightarrow> string \<Rightarrow> token_claims result"
  jl_uuid :: "string \<Rightarrow> dbid result"

definition role_admin :: string where "role_admin = ''admin''"
definition role_member :: string where "role_member = ''member''"

definition default_secret_placeholder :: string where
  "default_secret_placeholder = ''change-me-in-production''"

definition validate_jwt_config :: "jwt_config \<Rightarrow> string option" where
  "validate_jwt_config cfg =
     (if jc_secret cfg = [] then Some ''jwt: secret is empty''
      else if jc_secret cfg = default_secret_placeholder
      then Some (''jwt: secret is the default placeholder '' @ quote default_secret_placeholder @ '', set a real secret via PCA_AUTH_JWT_SECRET'')
      else if length (jc_secret cfg) < 32
      then Some (''jwt: secret too short ('' @ show_nat (length (jc_secret cfg)) @ '' < 32 chars)'')
      else if jc_ttl cfg \<le> 0 then Some ''jwt: ttl must be positive''
      else None)"

definition second :: int where "second = 1000000000"

text \<open>\<open>jwt.NewNumericDate\<close> cuts the expiry to the second; a claims set without one reads as the zero time.\<close>

definition whole_second :: "int \<Rightarrow> int" where
  "whole_second t = t div second * second"

definition zero_time :: int where
  "zero_time = - 62135596800 * second"

definition jwt_issue :: "jwt_lib \<Rightarrow> jwt_config \<Rightarrow> string \<Rightarrow> int \<Rightarrow> dbid \<Rightarrow> dbid \<Rightarrow> string \<Rightarrow> string result" where
  "jwt_issue lib cfg jti now user tenant role =
     jl_sign lib (jc_secret cfg)
       \<lparr>tk_uid = user, tk_tid = tenant, tk_role = role, tk_id = jti, tk_exp = Some (whole_second (now + jc_ttl cfg))\<rparr>"

definition jwt_parse :: "jwt_lib \<Rightarrow> jwt_config \<Rightarrow> int \<Rightarrow> string \<Rightarrow> claims result" where
  "jwt_parse lib cfg now tok =
     on_ok (jl_parse lib (jc_secret cfg) now tok) (\<lambda>c.
       case jl_uuid lib (tk_uid c) of
         Inl e \<Rightarrow> Inl (''uid: '' @ e)
       | Inr uid \<Rightarrow>
           (case jl_uuid lib (tk_tid c) of
              Inl e \<Rightarrow> Inl (''tid: '' @ e)
            | Inr tid \<Rightarrow> Inr \<lparr>cl_user = uid, cl_tenant = tid, cl_role = tk_role c, cl_jti = tk_id c,
                cl_expires = (case tk_exp c of None \<Rightarrow> zero_time | Some e \<Rightarrow> e)\<rparr>))"

section \<open>Revocation (revoker.go)\<close>

text \<open>\<open>SET key 1\<close> with a time to live, and \<open>EXISTS\<close>, at a time.\<close>

record 'r key_store =
  ks_set :: "string \<Rightarrow> int \<Rightarrow> int \<Rightarrow> 'r \<Rightarrow> string option \<times> 'r"
  ks_exists :: "string \<Rightarrow> int \<Rightarrow> 'r \<Rightarrow> bool result"

definition revoked_key :: "string \<Rightarrow> string" where
  "revoked_key jti = ''auth:rev:'' @ jti"

definition is_revoked :: "'r key_store \<Rightarrow> string \<Rightarrow> int \<Rightarrow> 'r \<Rightarrow> bool result" where
  "is_revoked ks jti now r =
     (if jti = [] then Inr False
      else case ks_exists ks (revoked_key jti) now r of
             Inl e \<Rightarrow> Inl (''auth revoker: '' @ e)
           | Inr b \<Rightarrow> Inr b)"

definition revoke :: "'r key_store \<Rightarrow> string \<Rightarrow> int \<Rightarrow> int \<Rightarrow> 'r \<Rightarrow> string option \<times> 'r" where
  "revoke ks jti ttl now r =
     (if jti = [] \<or> ttl \<le> 0 then (None, r)
      else case ks_set ks (revoked_key jti) ttl now r of
             (Some e, r') \<Rightarrow> (Some (''auth revoker: '' @ e), r')
           | (None, r') \<Rightarrow> (None, r'))"

section \<open>Middleware (middleware.go, require\_admin.go, ws\_token.go)\<close>

datatype http_error = HttpError nat string

definition bearer :: "string \<Rightarrow> string option" where
  "bearer h = (if has_prefix ''Bearer '' h then Some (drop 7 h) else None)"

definition auth_middleware ::
  "jwt_lib \<Rightarrow> jwt_config \<Rightarrow> 'r key_store option \<Rightarrow> int \<Rightarrow> string \<Rightarrow> 'r \<Rightarrow> http_error + claims" where
  "auth_middleware lib cfg revoker now header r =
     (case bearer header of
        None \<Rightarrow> Inl (HttpError 401 ''missing_token'')
      | Some tok \<Rightarrow>
          (case jwt_parse lib cfg now tok of
             Inl e \<Rightarrow> Inl (HttpError 401 ''invalid_token'')
           | Inr cl \<Rightarrow>
               (case revoker of
                  None \<Rightarrow> Inr cl
                | Some ks \<Rightarrow>
                    if cl_jti cl = [] then Inr cl
                    else case is_revoked ks (cl_jti cl) now r of
                           Inl e \<Rightarrow> Inl (HttpError 401 ''revocation_check_failed'')
                         | Inr b \<Rightarrow> if b then Inl (HttpError 401 ''token_revoked'') else Inr cl)))"

definition require_admin :: "claims option \<Rightarrow> http_error option" where
  "require_admin cl =
     (case cl of
        None \<Rightarrow> Some (HttpError 403 ''forbidden'')
      | Some c \<Rightarrow> if cl_role c \<noteq> role_admin then Some (HttpError 403 ''forbidden'') else None)"

definition ws_token_from_query :: "string \<Rightarrow> string \<Rightarrow> string" where
  "ws_token_from_query header tok = (if header = [] \<and> tok \<noteq> [] then ''Bearer '' @ tok else header)"

text \<open>The gate of the metrics page (\<open>metrics/auth.go\<close>): a fixed token, or a token of an administrator.\<close>

definition metrics_auth :: "(jwt_lib \<times> jwt_config) option \<Rightarrow> string \<Rightarrow> int \<Rightarrow> string \<Rightarrow> http_error option" where
  "metrics_auth jwt static now header =
     (case bearer header of
        None \<Rightarrow> Some (HttpError 401 ''missing_token'')
      | Some tok \<Rightarrow>
          if static \<noteq> [] \<and> tok = static then None
          else (case jwt of
                  None \<Rightarrow> Some (HttpError 401 ''invalid_token'')
                | Some (lib, cfg) \<Rightarrow>
                    (case jwt_parse lib cfg now tok of
                       Inl e \<Rightarrow> Some (HttpError 401 ''invalid_token'')
                     | Inr cl \<Rightarrow> if cl_role cl \<noteq> role_admin then Some (HttpError 403 ''admin_required'') else None)))"

section \<open>Requests per minute (httpx/ratelimit.go)\<close>

definition rate_limit_key :: "dbid \<Rightarrow> dbid \<Rightarrow> utc \<Rightarrow> string" where
  "rate_limit_key tenant user now = ''rl:'' @ tenant @ '':'' @ user @ '':'' @ format_minute now"

text \<open>The refusal carries the seconds to wait. An error of Redis admits the request.\<close>

definition rate_limit :: "'c redis option \<Rightarrow> int \<Rightarrow> utc \<Rightarrow> claims option \<Rightarrow> 'c \<Rightarrow> nat option \<times> 'c" where
  "rate_limit rd per_minute now cl c =
     (case (rd, cl) of
        (Some rd, Some cl) \<Rightarrow>
          if per_minute \<le> 0 then (None, c)
          else
            (case rd_incr_expire rd (rate_limit_key (cl_tenant cl) (cl_user cl) now) 1 (2 * 60 * second) c of
               (Inl e, c') \<Rightarrow> (None, c')
             | (Inr n, c') \<Rightarrow> (if per_minute < n then Some (max 1 (60 - u_sec now)) else None, c'))
      | _ \<Rightarrow> (None, c))"

section \<open>Tenants and users (tenant/repo.go, user/repo.go)\<close>

record user_row =
  us_id :: dbid
  us_tenant :: dbid
  us_email :: string
  us_hash :: string
  us_name :: string
  us_role :: string
  us_iss :: string
  us_sub :: string
  us_created :: int

record auth_tables =
  ut_tenants :: "(string \<times> dbid) list"
  ut_users :: "user_row list"

datatype user_err = UserNotFound | BadCredentials | UserErr string

type_synonym 'a user_act = "(user_err, 'a, auth_tables db) act"

definition user_exec :: "db_env \<Rightarrow> (nat \<Rightarrow> (user_err, 'a, auth_tables) act) \<Rightarrow> 'a user_act" where
  "user_exec env = exec env (\<lambda>e. UserErr (''scan: '' @ e))"

definition tenant_by_slug :: "db_env \<Rightarrow> string \<Rightarrow> dbid user_act" where
  "tenant_by_slug env slug =
     user_exec env (\<lambda>n tb. (case map_of (ut_tenants tb) slug of None \<Rightarrow> Inl UserNotFound | Some i \<Rightarrow> Inr i, tb))"

definition find_user :: "(user_row \<Rightarrow> bool) \<Rightarrow> auth_tables \<Rightarrow> user_err + user_row" where
  "find_user P tb = (case find P (ut_users tb) of None \<Rightarrow> Inl UserNotFound | Some u \<Rightarrow> Inr u)"

definition user_by_email :: "db_env \<Rightarrow> dbid \<Rightarrow> string \<Rightarrow> user_row user_act" where
  "user_by_email env tenant email = user_exec env (\<lambda>n tb. (find_user (\<lambda>u. us_tenant u = tenant \<and> us_email u = email) tb, tb))"

text \<open>\<open>NULL\<close> in a column of the identity reads as the empty text and equals nothing.\<close>

definition same_identity :: "dbid \<Rightarrow> string \<Rightarrow> string \<Rightarrow> user_row \<Rightarrow> bool" where
  "same_identity tenant iss sub u \<longleftrightarrow> us_tenant u = tenant \<and> us_iss u \<noteq> [] \<and> us_iss u = iss \<and> us_sub u = sub"

definition user_by_oidc :: "db_env \<Rightarrow> dbid \<Rightarrow> string \<Rightarrow> string \<Rightarrow> user_row user_act" where
  "user_by_oidc env tenant iss sub = user_exec env (\<lambda>n tb. (find_user (same_identity tenant iss sub) tb, tb))"

definition user_by_id :: "db_env \<Rightarrow> dbid \<Rightarrow> user_row user_act" where
  "user_by_id env i = user_exec env (\<lambda>n tb. (find_user (\<lambda>u. us_id u = i) tb, tb))"

text \<open>The statement of both \<open>Create\<close> and \<open>CreateOIDC\<close>, with the unique indexes of the table.\<close>

definition insert_user :: "db_env \<Rightarrow> user_row \<Rightarrow> user_row user_act" where
  "insert_user env u =
     user_exec env (\<lambda>n tb.
       let new = u\<lparr>us_id := de_uuid env n, us_created := de_now env n\<rparr>
       in if list_ex (\<lambda>v. us_tenant v = us_tenant u \<and> us_email v = us_email u) (ut_users tb)
             \<or> list_ex (same_identity (us_tenant u) (us_iss u) (us_sub u)) (ut_users tb)
          then (Inl (UserErr ''scan: duplicate key value violates unique constraint''), tb)
          else (Inr new, tb\<lparr>ut_users := ut_users tb @ [new]\<rparr>))"

definition or_member :: "string \<Rightarrow> string" where
  "or_member role = (if role = [] then role_member else role)"

definition user_create :: "db_env \<Rightarrow> dbid \<Rightarrow> string \<Rightarrow> string \<Rightarrow> string \<Rightarrow> string \<Rightarrow> user_row user_act" where
  "user_create env tenant email hash name role =
     insert_user env \<lparr>us_id = [], us_tenant = tenant, us_email = email, us_hash = hash, us_name = name,
       us_role = or_member role, us_iss = [], us_sub = [], us_created = 0\<rparr>"

definition user_create_oidc :: "db_env \<Rightarrow> dbid \<Rightarrow> string \<Rightarrow> string \<Rightarrow> string \<Rightarrow> string \<Rightarrow> string \<Rightarrow> string \<Rightarrow> user_row user_act" where
  "user_create_oidc env tenant email hash name role iss sub =
     insert_user env \<lparr>us_id = [], us_tenant = tenant, us_email = email, us_hash = hash, us_name = name,
       us_role = or_member role, us_iss = iss, us_sub = sub, us_created = 0\<rparr>"

definition first_admin_id :: "db_env \<Rightarrow> dbid \<Rightarrow> dbid user_act" where
  "first_admin_id env tenant =
     exec env (\<lambda>e. UserErr (''first admin: '' @ e)) (\<lambda>n tb.
       (case sort_key us_created (filter (\<lambda>u. us_tenant u = tenant \<and> us_role u = role_admin) (ut_users tb)) of
          [] \<Rightarrow> Inl UserNotFound
        | u # _ \<Rightarrow> Inr (us_id u), tb))"

section \<open>Passwords and identities (user/service.go, user/oidc.go)\<close>

text \<open>bcrypt with its random salts; \<open>bc_random\<close> is a password read from the random source.\<close>

record bcrypt =
  bc_generate :: "nat \<Rightarrow> string \<Rightarrow> string result"
  bc_matches :: "string \<Rightarrow> string \<Rightarrow> bool"
  bc_random :: "nat \<Rightarrow> string result"

definition user_register :: "db_env \<Rightarrow> bcrypt \<Rightarrow> dbid \<Rightarrow> string \<Rightarrow> string \<Rightarrow> string \<Rightarrow> user_row user_act" where
  "user_register env bc tenant email password name db =
     (case bc_generate bc (db_clock db) password of
        Inl e \<Rightarrow> (Inl (UserErr e), db)
      | Inr hash \<Rightarrow> user_create env tenant email hash name role_member db)"

definition authenticate :: "db_env \<Rightarrow> bcrypt \<Rightarrow> dbid \<Rightarrow> string \<Rightarrow> string \<Rightarrow> user_row user_act" where
  "authenticate env bc tenant email password =
     branch (user_by_email env tenant email)
       (\<lambda>e. give (Inl (if e = UserNotFound then BadCredentials else e)))
       (\<lambda>u. give (if bc_matches bc (us_hash u) password then Inr u else Inl BadCredentials))"

definition random_password_hash :: "bcrypt \<Rightarrow> nat \<Rightarrow> string result" where
  "random_password_hash bc n = on_ok (bc_random bc n) (\<lambda>b. bc_generate bc n (b64_encode b))"

definition find_or_create_oidc ::
  "db_env \<Rightarrow> bcrypt \<Rightarrow> dbid \<Rightarrow> string \<Rightarrow> string \<Rightarrow> string \<Rightarrow> string \<Rightarrow> user_row user_act" where
  "find_or_create_oidc env bc tenant iss sub email name =
     (if iss = [] \<or> sub = [] then give (Inl (UserErr ''oidc: iss and sub required''))
      else
        branch (user_by_oidc env tenant iss sub)
          (\<lambda>e. if e \<noteq> UserNotFound then give (Inl e)
               else (\<lambda>db.
                 case random_password_hash bc (db_clock db) of
                   Inl m \<Rightarrow> (Inl (UserErr m), db)
                 | Inr hash \<Rightarrow>
                     user_create_oidc env tenant (if email = [] then ''oidc:'' @ sub @ ''@oidc.local'' else email)
                       hash name role_member iss sub db))
          (\<lambda>u. give (Inr u)))"

end
