(* ===== verification/AuthFlow.thy ===== *)
theory AuthFlow
  imports Auth
begin

text \<open>
  The requests under \<open>/auth\<close>: \<open>src/internal/auth/handler.go\<close>, \<open>oidc_handler.go\<close>, \<open>oidc_session.go\<close>,
  \<open>oidc_client.go\<close> and \<open>oidc_config.go\<close>. What a request draws from the clock and the random source
  comes with it. Status, method, path and duration of an audit entry are left out, and the cookie
  that a callback clears.
\<close>

section \<open>The signed cookie (oidc\_session.go)\<close>

record oidc_flow =
  fl_state :: string
  fl_nonce :: string
  fl_verifier :: string
  fl_tenant :: string
  fl_expires :: int

definition flow_json :: "oidc_flow \<Rightarrow> json" where
  "flow_json f = JObj [(''state'', JStr (fl_state f)), (''nonce'', JStr (fl_nonce f)), (''code_verifier'', JStr (fl_verifier f)),
     (''tenant_slug'', JStr (fl_tenant f)), (''exp'', JInt (fl_expires f))]"

definition cookie_signature :: "string \<Rightarrow> string \<Rightarrow> string" where
  "cookie_signature secret payload = b64_encode (hmac_sha256 secret payload)"

definition sign_oidc_data :: "string \<Rightarrow> oidc_flow \<Rightarrow> string" where
  "sign_oidc_data secret f =
     (let payload = b64_encode (json_text (flow_json f)) in payload @ ''.'' @ cookie_signature secret payload)"

text \<open>\<open>dec\<close> is \<open>json.Unmarshal\<close> into the struct.\<close>

definition verify_oidc_data :: "(string \<Rightarrow> oidc_flow result) \<Rightarrow> string \<Rightarrow> int \<Rightarrow> string \<Rightarrow> oidc_flow result" where
  "verify_oidc_data dec secret now cookie =
     (case split_on (CHR ''.'') cookie of
        [payload, sig] \<Rightarrow>
          if sig \<noteq> cookie_signature secret payload then Inl ''oidc cookie: bad signature''
          else (case b64_decode payload of
                  None \<Rightarrow> Inl ''illegal base64 data''
                | Some raw \<Rightarrow>
                    on_ok (dec raw) (\<lambda>f. if fl_expires f < now div second then Inl ''oidc cookie: expired'' else Inr f))
      | _ \<Rightarrow> Inl ''oidc cookie: bad format'')"

definition new_oidc_flow :: "string \<Rightarrow> string \<Rightarrow> string \<Rightarrow> string \<Rightarrow> int \<Rightarrow> int \<Rightarrow> oidc_flow result" where
  "new_oidc_flow tenant state nonce verifier ttl now =
     (if state = [] \<or> nonce = [] \<or> verifier = [] then Inl ''oidc flow: missing state/nonce/verifier''
      else Inr \<lparr>fl_state = state, fl_nonce = nonce, fl_verifier = verifier, fl_tenant = tenant,
                fl_expires = (now + ttl) div second\<rparr>)"

section \<open>The identity provider (oidc\_config.go, oidc\_client.go)\<close>

record oidc_config =
  oc_enabled :: bool
  oc_issuer :: string
  oc_client :: string
  oc_secret_env :: string
  oc_redirect :: string
  oc_tenant :: string

definition client_secret :: "(string \<Rightarrow> string) \<Rightarrow> oidc_config \<Rightarrow> string result" where
  "client_secret getenv c =
     (if oc_secret_env c = [] then Inl ''oidc: client_secret_env not configured''
      else if getenv (oc_secret_env c) = [] then Inl (''oidc: env '' @ oc_secret_env c @ '' is empty'')
      else Inr (getenv (oc_secret_env c)))"

definition oidc_valid :: "(string \<Rightarrow> string) \<Rightarrow> oidc_config \<Rightarrow> string option" where
  "oidc_valid getenv c =
     (if \<not> oc_enabled c then None
      else if oc_issuer c = [] \<or> oc_client c = [] \<or> oc_redirect c = []
      then Some ''oidc: issuer, client_id, redirect_url required when enabled''
      else (case client_secret getenv c of
              Inl e \<Rightarrow> Some e
            | Inr s \<Rightarrow> if oc_tenant c = [] then Some ''oidc: tenant_slug required when enabled'' else None))"

record oidc_claims =
  oi_sub :: string
  oi_iss :: string
  oi_email :: string
  oi_name :: string
  oi_nonce :: string

text \<open>
  The OAuth2 and OpenID packages: the URL for a state, nonce and verifier; the token endpoint, which
  may answer without an \<open>id_token\<close>; the check of that token.
\<close>

record oidc_client =
  od_url :: "string \<Rightarrow> string \<Rightarrow> string \<Rightarrow> string"
  od_exchange :: "string \<Rightarrow> string \<Rightarrow> string option result"
  od_verify :: "string \<Rightarrow> oidc_claims result"

definition exchange_code :: "oidc_client \<Rightarrow> string \<Rightarrow> string \<Rightarrow> oidc_claims result" where
  "exchange_code client code verifier =
     (case od_exchange client code verifier of
        Inl e \<Rightarrow> Inl (''token exchange: '' @ e)
      | Inr None \<Rightarrow> Inl ''token response missing id_token''
      | Inr (Some raw) \<Rightarrow>
          if raw = [] then Inl ''token response missing id_token''
          else (case od_verify client raw of Inl e \<Rightarrow> Inl (''verify id_token: '' @ e) | Inr c \<Rightarrow> Inr c))"

section \<open>Requests (handler.go, oidc\_handler.go)\<close>

record oidc_runtime =
  or_config :: oidc_config
  or_client :: "oidc_client option"
  or_cookie_secret :: string

record 'r auth_env =
  ae_db :: db_env
  ae_jwt :: jwt_lib
  ae_cfg :: jwt_config
  ae_bcrypt :: bcrypt
  ae_revoker :: "'r key_store option"
  ae_local :: bool
  ae_audited :: bool
  ae_oidc :: "oidc_runtime option"
  ae_oidc_users :: bool
  ae_flow :: "string \<Rightarrow> oidc_flow result"

record auth_note =
  nt_action :: string
  nt_tenant :: "dbid option"
  nt_user :: "dbid option"
  nt_target :: string
  nt_reason :: string

record 'r auth_state =
  as_db :: "auth_tables db"
  as_keys :: 'r
  as_audit :: "auth_note list"

text \<open>What a request draws: the time, a token id, and for OpenID the state, nonce and verifier.\<close>

record auth_draws =
  dr_now :: int
  dr_jti :: string
  dr_state :: "string result"
  dr_nonce :: "string result"
  dr_verifier :: string

datatype auth_reply =
    AuthRefused nat string
  | AuthToken string
  | AuthLoggedOut
  | AuthRedirect string string
  | AuthClaims claims

record login_req =
  lq_tenant :: string
  lq_email :: string
  lq_password :: string

record callback_req =
  cb_error :: string
  cb_cookie :: "string option"
  cb_state :: string
  cb_code :: string

definition note_auth :: "'r auth_env \<Rightarrow> string \<Rightarrow> dbid option \<Rightarrow> dbid option \<Rightarrow> string \<Rightarrow> string \<Rightarrow> 'r auth_state \<Rightarrow> 'r auth_state" where
  "note_auth env action tenant user target reason st =
     (if \<not> ae_audited env then st
      else st\<lparr>as_audit := \<lparr>nt_action = action, nt_tenant = tenant, nt_user = user, nt_target = target, nt_reason = reason\<rparr> # as_audit st\<rparr>)"

definition issue_reply ::
  "'r auth_env \<Rightarrow> auth_draws \<Rightarrow> string \<Rightarrow> string \<Rightarrow> user_row \<Rightarrow> 'r auth_state \<Rightarrow> auth_reply \<times> 'r auth_state" where
  "issue_reply env dr action target u st =
     (case jwt_issue (ae_jwt env) (ae_cfg env) (dr_jti dr) (dr_now dr) (us_id u) (us_tenant u) (us_role u) of
        Inl e \<Rightarrow> (AuthRefused 500 ''internal'', st)
      | Inr tok \<Rightarrow> (AuthToken tok, note_auth env action (Some (us_tenant u)) (Some (us_id u)) target [] st))"

definition login :: "'r auth_env \<Rightarrow> auth_draws \<Rightarrow> login_req option \<Rightarrow> 'r auth_state \<Rightarrow> auth_reply \<times> 'r auth_state" where
  "login env dr req st =
     (if \<not> ae_local env then (AuthRefused 403 ''local_login_disabled'', st)
      else case req of
        None \<Rightarrow> (AuthRefused 400 ''bad_request'', st)
      | Some rq \<Rightarrow>
          if lq_tenant rq = [] \<or> lq_email rq = [] \<or> lq_password rq = [] then (AuthRefused 400 ''bad_request'', st)
          else
            (case tenant_by_slug (ae_db env) (lq_tenant rq) (as_db st) of
               (Inl e, db1) \<Rightarrow>
                 if e = UserNotFound
                 then (AuthRefused 401 ''bad_credentials'',
                       note_auth env ''auth.login.failure'' None None (lq_email rq) ''wrong_tenant'' (st\<lparr>as_db := db1\<rparr>))
                 else (AuthRefused 500 ''internal'', st\<lparr>as_db := db1\<rparr>)
             | (Inr tid, db1) \<Rightarrow>
                 (case authenticate (ae_db env) (ae_bcrypt env) tid (lq_email rq) (lq_password rq) db1 of
                    (Inl e, db2) \<Rightarrow>
                      if e = BadCredentials
                      then (AuthRefused 401 ''bad_credentials'',
                            note_auth env ''auth.login.failure'' (Some tid) None (lq_email rq) ''bad_credentials'' (st\<lparr>as_db := db2\<rparr>))
                      else (AuthRefused 500 ''internal'', st\<lparr>as_db := db2\<rparr>)
                  | (Inr u, db2) \<Rightarrow> issue_reply env dr ''auth.login.success'' (lq_email rq) u (st\<lparr>as_db := db2\<rparr>))))"

definition logout :: "'r auth_env \<Rightarrow> auth_draws \<Rightarrow> string \<Rightarrow> 'r auth_state \<Rightarrow> auth_reply \<times> 'r auth_state" where
  "logout env dr header st =
     (case ae_revoker env of
        None \<Rightarrow> (AuthRefused 501 ''revocation_disabled'', st)
      | Some ks \<Rightarrow>
          (case bearer header of
             None \<Rightarrow> (AuthRefused 400 ''missing_token'', st)
           | Some tok \<Rightarrow>
               (case jwt_parse (ae_jwt env) (ae_cfg env) (dr_now dr) tok of
                  Inl e \<Rightarrow> (AuthLoggedOut, st)
                | Inr cl \<Rightarrow>
                    (case revoke ks (cl_jti cl) (cl_expires cl - dr_now dr) (dr_now dr) (as_keys st) of
                       (Some e, keys) \<Rightarrow> (AuthRefused 500 ''revocation_failed'', st\<lparr>as_keys := keys\<rparr>)
                     | (None, keys) \<Rightarrow>
                         (AuthLoggedOut, note_auth env ''auth.logout'' (Some (cl_tenant cl)) (Some (cl_user cl)) (cl_jti cl) []
                            (st\<lparr>as_keys := keys\<rparr>))))))"

definition oidc_ready :: "'r auth_env \<Rightarrow> (oidc_runtime \<times> oidc_client) option" where
  "oidc_ready env =
     (case ae_oidc env of
        None \<Rightarrow> None
      | Some rt \<Rightarrow> if oc_enabled (or_config rt) then map_option (Pair rt) (or_client rt) else None)"

definition oidc_login :: "'r auth_env \<Rightarrow> auth_draws \<Rightarrow> string \<Rightarrow> 'r auth_state \<Rightarrow> auth_reply \<times> 'r auth_state" where
  "oidc_login env dr tenant st =
     (case oidc_ready env of
        None \<Rightarrow> (AuthRefused 404 ''oidc_disabled'', st)
      | Some (rt, client) \<Rightarrow>
          (let slug = (if tenant = [] then oc_tenant (or_config rt) else tenant)
           in case on_ok (dr_state dr) (\<lambda>state. on_ok (dr_nonce dr) (\<lambda>nonce.
                     on_ok (new_oidc_flow slug state nonce (dr_verifier dr) (10 * 60 * second) (dr_now dr)) (\<lambda>f.
                       Inr (od_url client state nonce (dr_verifier dr), f)))) of
                Inl e \<Rightarrow> (AuthRefused 500 ''internal'', st)
              | Inr (url, f) \<Rightarrow> (AuthRedirect url (sign_oidc_data (or_cookie_secret rt) f), st)))"

definition refuse_oidc :: "'r auth_env \<Rightarrow> dbid option \<Rightarrow> string \<Rightarrow> string \<Rightarrow> nat \<Rightarrow> string \<Rightarrow> 'r auth_state \<Rightarrow> auth_reply \<times> 'r auth_state" where
  "refuse_oidc env tenant target reason code err st =
     (AuthRefused code err, note_auth env ''auth.oidc.login.failure'' tenant None target reason st)"

text \<open>The callback up to the claims of the identity provider, and from there.\<close>

definition oidc_identity :: "'r auth_env \<Rightarrow> oidc_runtime \<Rightarrow> oidc_client \<Rightarrow> auth_draws \<Rightarrow> callback_req \<Rightarrow> (string \<times> nat \<times> string) + oidc_flow \<times> oidc_claims" where
  "oidc_identity env rt client dr cb =
     (if cb_error cb \<noteq> [] then Inl (''idp_error:'' @ cb_error cb, 401, ''oidc_denied'')
      else case cb_cookie cb of
        None \<Rightarrow> Inl (''missing_cookie'', 400, ''oidc_state_missing'')
      | Some cookie \<Rightarrow>
          (case verify_oidc_data (ae_flow env) (or_cookie_secret rt) (dr_now dr) cookie of
             Inl e \<Rightarrow> Inl (''bad_cookie'', 400, ''oidc_state_invalid'')
           | Inr f \<Rightarrow>
               if cb_state cb \<noteq> fl_state f then Inl (''state_mismatch'', 400, ''oidc_state_mismatch'')
               else (case exchange_code client (cb_code cb) (fl_verifier f) of
                       Inl e \<Rightarrow> Inl (''token_exchange'', 401, ''oidc_exchange_failed'')
                     | Inr c \<Rightarrow>
                         if oi_nonce c \<noteq> fl_nonce f then Inl (''nonce_mismatch'', 401, ''oidc_nonce_mismatch'')
                         else Inr (f, c))))"

definition oidc_admit ::
  "'r auth_env \<Rightarrow> auth_draws \<Rightarrow> callback_req \<Rightarrow> oidc_flow \<Rightarrow> oidc_claims \<Rightarrow> 'r auth_state \<Rightarrow> auth_reply \<times> 'r auth_state" where
  "oidc_admit env dr cb f c st =
     (case tenant_by_slug (ae_db env) (fl_tenant f) (as_db st) of
        (Inl e, db1) \<Rightarrow>
          if e = UserNotFound
          then refuse_oidc env None (cb_state cb) ''wrong_tenant'' 401 ''oidc_tenant_invalid'' (st\<lparr>as_db := db1\<rparr>)
          else (AuthRefused 500 ''internal'', st\<lparr>as_db := db1\<rparr>)
      | (Inr tid, db1) \<Rightarrow>
          if \<not> ae_oidc_users env then (AuthRefused 500 ''internal'', st\<lparr>as_db := db1\<rparr>)
          else
            (case find_or_create_oidc (ae_db env) (ae_bcrypt env) tid (oi_iss c) (oi_sub c) (oi_email c) (oi_name c) db1 of
               (Inl e, db2) \<Rightarrow> refuse_oidc env (Some tid) (cb_state cb) ''jit_failed'' 500 ''internal'' (st\<lparr>as_db := db2\<rparr>)
             | (Inr u, db2) \<Rightarrow> issue_reply env dr ''auth.oidc.login.success'' (us_email u) u (st\<lparr>as_db := db2\<rparr>)))"

definition oidc_callback :: "'r auth_env \<Rightarrow> auth_draws \<Rightarrow> callback_req \<Rightarrow> 'r auth_state \<Rightarrow> auth_reply \<times> 'r auth_state" where
  "oidc_callback env dr cb st =
     (case oidc_ready env of
        None \<Rightarrow> (AuthRefused 404 ''oidc_disabled'', st)
      | Some (rt, client) \<Rightarrow>
          (case oidc_identity env rt client dr cb of
             Inl (reason, code, err) \<Rightarrow> refuse_oidc env None (cb_state cb) reason code err st
           | Inr (f, c) \<Rightarrow> oidc_admit env dr cb f c st))"

text \<open>A request that goes through the middleware: whom it speaks for.\<close>

definition protected_request :: "'r auth_env \<Rightarrow> auth_draws \<Rightarrow> string \<Rightarrow> 'r auth_state \<Rightarrow> auth_reply" where
  "protected_request env dr header st =
     (case auth_middleware (ae_jwt env) (ae_cfg env) (ae_revoker env) (dr_now dr) header (as_keys st) of
        Inl (HttpError code err) \<Rightarrow> AuthRefused code err
      | Inr cl \<Rightarrow> AuthClaims cl)"

section \<open>Sequences of requests\<close>

datatype auth_req =
    ReqLogin "login_req option"
  | ReqLogout string
  | ReqOidcLogin string
  | ReqOidcCallback callback_req
  | ReqProtected string

fun auth_handle :: "'r auth_env \<Rightarrow> auth_draws \<Rightarrow> auth_req \<Rightarrow> 'r auth_state \<Rightarrow> auth_reply \<times> 'r auth_state" where
  "auth_handle env dr (ReqLogin rq) st = login env dr rq st"
| "auth_handle env dr (ReqLogout h) st = logout env dr h st"
| "auth_handle env dr (ReqOidcLogin te) st = oidc_login env dr te st"
| "auth_handle env dr (ReqOidcCallback cb) st = oidc_callback env dr cb st"
| "auth_handle env dr (ReqProtected h) st = (protected_request env dr h st, st)"

fun auth_serve :: "'r auth_env \<Rightarrow> (auth_draws \<times> auth_req) list \<Rightarrow> 'r auth_state \<Rightarrow> auth_reply list \<times> 'r auth_state" where
  "auth_serve env [] st = ([], st)"
| "auth_serve env ((dr, rq) # rqs) st =
     (let (a, st1) = auth_handle env dr rq st; (as, st2) = auth_serve env rqs st1 in (a # as, st2))"

end
