(* ===== verification/AuthRuns.thy ===== *)
theory AuthRuns
  imports AuthFlow
begin

text \<open>
  What the requests under \<open>/auth\<close> grant: whom a token speaks for, that logout ends it, who is added to
  the users, how the two halves of the OpenID flow fit together, and the limit on requests.
\<close>

section \<open>What is relied on\<close>

text \<open>
  A signed token reads back as it was signed until it expires and not from then on, and always the same way.
\<close>

definition jwt_laws :: "jwt_lib \<Rightarrow> bool" where
  "jwt_laws lib \<longleftrightarrow>
     (\<forall>s c t now e. jl_sign lib s c = Inr t \<longrightarrow> tk_exp c = Some e \<longrightarrow> now < e \<longrightarrow> jl_parse lib s now t = Inr c) \<and>
     (\<forall>s t now c e. jl_parse lib s now t = Inr c \<longrightarrow> tk_exp c = Some e \<longrightarrow> now < e) \<and>
     (\<forall>s t m n c d. jl_parse lib s m t = Inr c \<longrightarrow> jl_parse lib s n t = Inr d \<longrightarrow> c = d)"

text \<open>
  A key that was set lives for its time, which Redis counts in milliseconds; setting another key does
  not touch it, and an error leaves it as it was or sets it.
\<close>

definition millis :: "int \<Rightarrow> int" where
  "millis ttl = ttl div 1000000 * 1000000"

definition key_laws :: "'r key_store \<Rightarrow> ('r \<Rightarrow> string \<Rightarrow> int \<Rightarrow> bool) \<Rightarrow> bool" where
  "key_laws ks live \<longleftrightarrow>
     (\<forall>k ttl now r e r'. ks_set ks k ttl now r = (e, r') \<longrightarrow> 0 < ttl \<longrightarrow>
        (\<forall>k' t. k' \<noteq> k \<longrightarrow> live r' k' t = live r k' t) \<and>
        (\<forall>t. now \<le> t \<longrightarrow> t < now + millis ttl \<longrightarrow> (e = None \<or> live r k t) \<longrightarrow> live r' k t)) \<and>
     (\<forall>k t r b. ks_exists ks k t r = Inr b \<longrightarrow> b = live r k t)"

lemma millis_bound: "t < E - 1000000 \<Longrightarrow> t < now + millis (E - now)"
  by (simp add: millis_def)

section \<open>Logout\<close>

text \<open>The key of a token id is live from a time on, up to a millisecond before its expiry.\<close>

definition struck :: "('r \<Rightarrow> string \<Rightarrow> int \<Rightarrow> bool) \<Rightarrow> string \<Rightarrow> int \<Rightarrow> int \<Rightarrow> 'r \<Rightarrow> bool" where
  "struck live jti E now r \<longleftrightarrow> (\<forall>t. now \<le> t \<longrightarrow> t < E - 1000000 \<longrightarrow> live r (revoked_key jti) t)"

text \<open>Every token with this id expires at this time: ids are not used twice.\<close>

definition one_expiry :: "jwt_lib \<Rightarrow> jwt_config \<Rightarrow> string \<Rightarrow> int \<Rightarrow> bool" where
  "one_expiry lib cfg jti E \<longleftrightarrow> (\<forall>now tok cl. jwt_parse lib cfg now tok = Inr cl \<longrightarrow> cl_jti cl = jti \<longrightarrow> cl_expires cl = E)"

lemma revoked_key_inj [simp]: "revoked_key a = revoked_key b \<longleftrightarrow> a = b"
  by (simp add: revoked_key_def)

lemma struck_later: "struck live j E m r \<Longrightarrow> m \<le> n \<Longrightarrow> struck live j E n r"
  by (auto simp: struck_def)

lemma revoke_keeps:
  assumes "key_laws ks live" "revoke ks i ttl now r = (e, r')" "struck live j E m r" "m \<le> now" "i = j \<Longrightarrow> ttl = E - now"
  shows "struck live j E now r'"
proof (cases "i = [] \<or> ttl \<le> 0")
  case True
  then show ?thesis
    using assms(2,3,4) by (auto simp: revoke_def struck_def)
next
  case False
  then obtain e1 where set: "ks_set ks (revoked_key i) ttl now r = (e1, r')"
    using assms(2) by (auto simp: revoke_def split: prod.splits option.splits)
  note law = assms(1) [unfolded key_laws_def, THEN conjunct1, rule_format, OF set]
  show ?thesis
  proof (cases "i = j")
    case True
    then have "ttl = E - now"
      by (rule assms(5))
    then show ?thesis
      using law False True assms(3,4) millis_bound [of _ E now] by (auto simp: struck_def)
  next
    case False
    then show ?thesis
      using law \<open>\<not> (i = [] \<or> ttl \<le> 0)\<close> assms(3,4) by (auto simp: struck_def)
  qed
qed

lemma keys_note [simp]: "as_keys (note_auth env a te u tg r st) = as_keys st"
  by (simp add: note_auth_def)

lemma keys_issue: "issue_reply env dr a tg u st = (rep, st') \<Longrightarrow> as_keys st' = as_keys st"
  by (auto simp: issue_reply_def split: sum.splits)

lemma keys_login: "login env dr rq st = (rep, st') \<Longrightarrow> as_keys st' = as_keys st"
  by (auto simp: login_def split: if_splits option.splits prod.splits sum.splits dest!: keys_issue)

lemma keys_callback: "oidc_callback env dr cb st = (rep, st') \<Longrightarrow> as_keys st' = as_keys st"
  by (auto simp: oidc_callback_def oidc_admit_def refuse_oidc_def split: if_splits option.splits prod.splits sum.splits dest!: keys_issue)

lemma keys_oidc_login: "oidc_login env dr te st = (rep, st') \<Longrightarrow> st' = st"
  by (auto simp: oidc_login_def Let_def split: option.splits prod.splits sum.splits)

lemma logout_keeps:
  assumes "key_laws ks live" "ae_revoker env = Some ks" "one_expiry (ae_jwt env) (ae_cfg env) j E"
    and "logout env dr h st = (rep, st')" "struck live j E m (as_keys st)" "m \<le> dr_now dr"
  shows "struck live j E (dr_now dr) (as_keys st')"
proof (cases "as_keys st' = as_keys st")
  case True
  then show ?thesis
    using struck_later [OF assms(5,6)] by simp
next
  case False
  then obtain tok cl e where cl: "jwt_parse (ae_jwt env) (ae_cfg env) (dr_now dr) tok = Inr cl"
    and rev: "revoke ks (cl_jti cl) (cl_expires cl - dr_now dr) (dr_now dr) (as_keys st) = (e, as_keys st')"
    using assms(2,4) by (auto simp: logout_def split: option.splits sum.splits prod.splits)
  have "cl_jti cl = j \<Longrightarrow> cl_expires cl - dr_now dr = E - dr_now dr"
    using assms(3) cl by (simp add: one_expiry_def)
  from revoke_keeps [OF assms(1) rev assms(5,6) this] show ?thesis .
qed

lemma handle_keeps:
  assumes "key_laws ks live" "ae_revoker env = Some ks" "one_expiry (ae_jwt env) (ae_cfg env) j E"
    and "auth_handle env dr rq st = (rep, st')" "struck live j E m (as_keys st)" "m \<le> dr_now dr"
  shows "struck live j E (dr_now dr) (as_keys st')"
proof (cases rq)
  case (ReqLogout h)
  then show ?thesis
    using logout_keeps [OF assms(1-3)] assms(4-6) by simp
next
  case (ReqOidcLogin te)
  then show ?thesis
    using assms(4) keys_oidc_login [of env dr te st rep st'] struck_later [OF assms(5,6)] by simp
qed (use assms(4) keys_login keys_callback struck_later [OF assms(5,6)] in force)+

lemma serve_keeps:
  assumes "key_laws ks live" "ae_revoker env = Some ks" "one_expiry (ae_jwt env) (ae_cfg env) j E"
  shows "auth_serve env rqs st = (as, st') \<Longrightarrow> sorted (m # map (dr_now \<circ> fst) rqs) \<Longrightarrow>
    struck live j E m (as_keys st) \<Longrightarrow> struck live j E (last (m # map (dr_now \<circ> fst) rqs)) (as_keys st')"
proof (induction rqs arbitrary: st as m)
  case (Cons x rqs)
  obtain dr rq where x: "x = (dr, rq)"
    by (cases x)
  obtain rep st1 as' where one: "auth_handle env dr rq st = (rep, st1)" and rest: "auth_serve env rqs st1 = (as', st')"
    using Cons.prems(1) by (auto simp: x split: prod.splits)
  have "struck live j E (dr_now dr) (as_keys st1)"
    using handle_keeps [OF assms one Cons.prems(3)] Cons.prems(2) by (simp add: x)
  from Cons.IH [OF rest _ this] Cons.prems(2) show ?case
    by (simp add: x)
qed simp

lemma bearer_token: "bearer (''Bearer '' @ tok) = Some tok"
  by (simp add: bearer_def has_prefix_def)

lemma protected_token:
  "protected_request env dr (''Bearer '' @ tok) st =
     (case jwt_parse (ae_jwt env) (ae_cfg env) (dr_now dr) tok of
        Inl e \<Rightarrow> AuthRefused 401 ''invalid_token''
      | Inr cl \<Rightarrow>
          (case ae_revoker env of
             None \<Rightarrow> AuthClaims cl
           | Some ks \<Rightarrow>
               if cl_jti cl = [] then AuthClaims cl
               else case is_revoked ks (cl_jti cl) (dr_now dr) (as_keys st) of
                      Inl e \<Rightarrow> AuthRefused 401 ''revocation_check_failed''
                    | Inr b \<Rightarrow> if b then AuthRefused 401 ''token_revoked'' else AuthClaims cl))"
  unfolding protected_request_def auth_middleware_def bearer_token by (simp split: sum.split option.split)

lemma jwt_parse_fields:
  "jwt_parse lib cfg now tok = Inr cl \<Longrightarrow> \<exists>c. jl_parse lib (jc_secret cfg) now tok = Inr c \<and>
     cl_expires cl = (case tk_exp c of None \<Rightarrow> zero_time | Some e \<Rightarrow> e)"
  by (cases "jl_parse lib (jc_secret cfg) now tok") (auto simp: jwt_parse_def split: sum.splits)

lemma parse_once:
  assumes "jwt_laws lib" "jwt_parse lib cfg m tok = Inr cl" "jwt_parse lib cfg n tok = Inr cl'"
  shows "cl' = cl"
proof -
  obtain c d where c: "jl_parse lib (jc_secret cfg) m tok = Inr c" "jl_parse lib (jc_secret cfg) n tok = Inr d"
    using jwt_parse_fields [OF assms(2)] jwt_parse_fields [OF assms(3)] by auto
  then have "c = d"
    using assms(1) by (auto simp: jwt_laws_def)
  then show ?thesis
    using assms(2,3) c by (simp add: jwt_parse_def split: sum.splits)
qed

lemma parsed_alive:
  assumes "jwt_laws lib" "jwt_parse lib cfg n tok = Inr cl" "0 \<le> m" "m < cl_expires cl"
  shows "n < cl_expires cl"
proof -
  obtain c where c: "jl_parse lib (jc_secret cfg) n tok = Inr c" "cl_expires cl = (case tk_exp c of None \<Rightarrow> zero_time | Some e \<Rightarrow> e)"
    using jwt_parse_fields [OF assms(2)] by auto
  then show ?thesis
    using assms by (auto simp: jwt_laws_def zero_time_def second_def split: option.splits)
qed


section \<open>Login\<close>

lemma jwt_signed: "jwt_laws lib \<Longrightarrow> jl_sign lib s c = Inr t \<Longrightarrow> tk_exp c = Some e \<Longrightarrow> now < e \<Longrightarrow> jl_parse lib s now t = Inr c"
  unfolding jwt_laws_def by blast

lemma issued_reads_back:
  assumes "jwt_laws lib" "jwt_issue lib cfg jti now user tenant role = Inr tok"
    and "jl_uuid lib user = Inr user" "jl_uuid lib tenant = Inr tenant" "t < whole_second (now + jc_ttl cfg)"
  shows "jwt_parse lib cfg t tok = Inr \<lparr>cl_user = user, cl_tenant = tenant, cl_role = role, cl_jti = jti,
    cl_expires = whole_second (now + jc_ttl cfg)\<rparr>"
proof -
  let ?c = "\<lparr>tk_uid = user, tk_tid = tenant, tk_role = role, tk_id = jti, tk_exp = Some (whole_second (now + jc_ttl cfg))\<rparr>"
  have "jl_parse lib (jc_secret cfg) t tok = Inr ?c"
    using jwt_signed [OF assms(1) assms(2) [unfolded jwt_issue_def]] assms(5) by simp
  then show ?thesis
    using assms(3,4) by (simp add: jwt_parse_def)
qed

lemma tenant_by_slug_ok: "tenant_by_slug env slug db = (Inr tid, db') \<Longrightarrow> map_of (ut_tenants (db_tables db)) slug = Some tid \<and> db_tables db' = db_tables db"
  by (auto simp: tenant_by_slug_def user_exec_def exec_def Let_def split: option.splits)

lemma find_user_ok: "find_user P tb = Inr u \<Longrightarrow> u \<in> set (ut_users tb) \<and> P u"
  by (auto simp: find_user_def find_Some_iff split: option.splits)

lemma authenticate_ok:
  assumes "authenticate env bc tid email pw db = (Inr u, db')"
  shows "u \<in> set (ut_users (db_tables db)) \<and> us_tenant u = tid \<and> us_email u = email \<and> bc_matches bc (us_hash u) pw \<and> db_tables db' = db_tables db"
  using assms
  by (auto simp: authenticate_def branch_def user_by_email_def user_exec_def exec_def Let_def dest!: find_user_ok split: prod.splits sum.splits if_splits option.splits)

lemma issue_reply_token:
  assumes "issue_reply env dr a tg u st = (AuthToken tok, st')"
  shows "jwt_issue (ae_jwt env) (ae_cfg env) (dr_jti dr) (dr_now dr) (us_id u) (us_tenant u) (us_role u) = Inr tok \<and>
    as_db st' = as_db st \<and> as_keys st' = as_keys st"
  using assms by (auto simp: issue_reply_def note_auth_def split: sum.splits if_splits)

definition ids_read :: "jwt_lib \<Rightarrow> auth_tables \<Rightarrow> bool" where
  "ids_read lib tb \<longleftrightarrow> (\<forall>u \<in> set (ut_users tb). jl_uuid lib (us_id u) = Inr (us_id u) \<and> jl_uuid lib (us_tenant u) = Inr (us_tenant u))"

definition login_success :: string where
  "login_success = ''auth.login.success''"

lemma login_token:
  assumes "login env dr (Some rq) st = (AuthToken tok, st')"
  shows "\<exists>tid u db1 db2. tenant_by_slug (ae_db env) (lq_tenant rq) (as_db st) = (Inr tid, db1) \<and>
    authenticate (ae_db env) (ae_bcrypt env) tid (lq_email rq) (lq_password rq) db1 = (Inr u, db2) \<and>
    issue_reply env dr login_success (lq_email rq) u (st\<lparr>as_db := db2\<rparr>) = (AuthToken tok, st')"
proof -
  obtain r1 db1 where tid: "tenant_by_slug (ae_db env) (lq_tenant rq) (as_db st) = (r1, db1)"
    by (metis surj_pair)
  obtain tid where r1: "r1 = Inr tid"
    using assms tid by (cases r1) (simp_all add: login_def split: if_splits)
  obtain r2 db2 where u: "authenticate (ae_db env) (ae_bcrypt env) tid (lq_email rq) (lq_password rq) db1 = (r2, db2)"
    by (metis surj_pair)
  obtain u where r2: "r2 = Inr u"
    using assms tid r1 u by (cases r2) (simp_all add: login_def split: if_splits)
  have "issue_reply env dr ''auth.login.success'' (lq_email rq) u (st\<lparr>as_db := db2\<rparr>) = (AuthToken tok, st')"
    using assms tid r1 u r2 by (simp add: login_def split: if_splits)
  then show ?thesis
    unfolding login_success_def using tid u r1 r2 by blast
qed

text \<open>
  C6. A login speaks for the user whose password it gave: a token is handed out only where the tenant
  exists, it has a user with this address and the password matches its hash; and a request with that
  token, as long as it is not expired and its id not revoked, speaks for exactly this user, with the
  tenant and the role the row has.
\<close>

theorem login_speaks_for_user:
  assumes "jwt_laws (ae_jwt env)" "ids_read (ae_jwt env) (db_tables (as_db st))" "login env dr (Some rq) st = (AuthToken tok, st')"
  shows "\<exists>tid u. map_of (ut_tenants (db_tables (as_db st))) (lq_tenant rq) = Some tid \<and> u \<in> set (ut_users (db_tables (as_db st))) \<and>
    us_tenant u = tid \<and> us_email u = lq_email rq \<and> bc_matches (ae_bcrypt env) (us_hash u) (lq_password rq) \<and>
    db_tables (as_db st') = db_tables (as_db st) \<and>
    (\<forall>dr2 st2. dr_now dr2 < whole_second (dr_now dr + jc_ttl (ae_cfg env)) \<longrightarrow>
       (\<forall>ks. ae_revoker env = Some ks \<longrightarrow> is_revoked ks (dr_jti dr) (dr_now dr2) (as_keys st2) = Inr False) \<longrightarrow>
       protected_request env dr2 (''Bearer '' @ tok) st2 =
         AuthClaims \<lparr>cl_user = us_id u, cl_tenant = tid, cl_role = us_role u, cl_jti = dr_jti dr,
           cl_expires = whole_second (dr_now dr + jc_ttl (ae_cfg env))\<rparr>)"
proof -
  obtain tid u db1 db2 where tid: "tenant_by_slug (ae_db env) (lq_tenant rq) (as_db st) = (Inr tid, db1)"
    and u: "authenticate (ae_db env) (ae_bcrypt env) tid (lq_email rq) (lq_password rq) db1 = (Inr u, db2)"
    and issue: "issue_reply env dr login_success (lq_email rq) u (st\<lparr>as_db := db2\<rparr>) = (AuthToken tok, st')"
    using login_token [OF assms(3)] by blast
  note row = authenticate_ok [OF u] and slug = tenant_by_slug_ok [OF tid] and tok = issue_reply_token [OF issue]
  have ids: "jl_uuid (ae_jwt env) (us_id u) = Inr (us_id u)" "jl_uuid (ae_jwt env) (us_tenant u) = Inr (us_tenant u)"
    using assms(2) row slug by (auto simp: ids_read_def)
  have speaks: "protected_request env dr2 (''Bearer '' @ tok) st2 =
      AuthClaims \<lparr>cl_user = us_id u, cl_tenant = tid, cl_role = us_role u, cl_jti = dr_jti dr,
        cl_expires = whole_second (dr_now dr + jc_ttl (ae_cfg env))\<rparr>"
    if "dr_now dr2 < whole_second (dr_now dr + jc_ttl (ae_cfg env))"
      "\<forall>ks. ae_revoker env = Some ks \<longrightarrow> is_revoked ks (dr_jti dr) (dr_now dr2) (as_keys st2) = Inr False" for dr2 st2
    unfolding protected_token using issued_reads_back [OF assms(1) tok [THEN conjunct1] ids that(1)] that(2) row
    by (simp split: option.split)
  show ?thesis
    using row slug tok speaks by (intro exI [of _ tid] exI [of _ u]) auto
qed

section \<open>Users\<close>

text \<open>Rows are only added, as members, and with an identity of the provider; the indexes of the table hold.\<close>

definition index_ok :: "user_row list \<Rightarrow> bool" where
  "index_ok us \<longleftrightarrow> distinct (map (\<lambda>u. (us_tenant u, us_email u)) us) \<and>
     distinct (map (\<lambda>u. (us_tenant u, us_iss u, us_sub u)) (filter (\<lambda>u. us_iss u \<noteq> []) us))"

definition new_member :: "user_row \<Rightarrow> bool" where
  "new_member u \<longleftrightarrow> us_role u = role_member \<and> us_iss u \<noteq> [] \<and> us_sub u \<noteq> []"

definition members_added :: "auth_tables \<Rightarrow> auth_tables \<Rightarrow> bool" where
  "members_added tb tb' \<longleftrightarrow> ut_tenants tb' = ut_tenants tb \<and>
     (\<exists>new. ut_users tb' = ut_users tb @ new \<and> (\<forall>u \<in> set new. new_member u)) \<and>
     (index_ok (ut_users tb) \<longrightarrow> index_ok (ut_users tb'))"

lemma members_added_refl: "reflp members_added"
  by (auto simp: members_added_def reflp_def)

lemma members_added_trans: "transp members_added"
proof (rule transpI)
  fix a b c
  assume ab: "members_added a b" and bc: "members_added b c"
  obtain n where n: "ut_users b = ut_users a @ n" "\<forall>u \<in> set n. new_member u"
    using ab by (auto simp: members_added_def)
  obtain m where m: "ut_users c = ut_users b @ m" "\<forall>u \<in> set m. new_member u"
    using bc by (auto simp: members_added_def)
  have "ut_users c = ut_users a @ (n @ m)" "\<forall>u \<in> set (n @ m). new_member u"
    using n m by auto
  moreover have "ut_tenants c = ut_tenants a" "index_ok (ut_users a) \<longrightarrow> index_ok (ut_users c)"
    using ab bc by (simp_all add: members_added_def)
  ultimately show "members_added a c"
    unfolding members_added_def by blast
qed

lemma insert_user_adds:
  assumes "us_role u = role_member" "us_iss u \<noteq> []" "us_sub u \<noteq> []"
  shows "steps_in (\<lambda>a b. members_added (db_tables a) (db_tables b)) (insert_user env u)"
  unfolding insert_user_def user_exec_def
proof (rule steps_in_exec [OF _ members_added_refl])
  fix n tb
  show "members_added tb (snd (let new = u\<lparr>us_id := de_uuid env n, us_created := de_now env n\<rparr>
       in if list_ex (\<lambda>v. us_tenant v = us_tenant u \<and> us_email v = us_email u) (ut_users tb)
             \<or> list_ex (same_identity (us_tenant u) (us_iss u) (us_sub u)) (ut_users tb)
          then (Inl (UserErr ''scan: duplicate key value violates unique constraint''), tb)
          else (Inr new, tb\<lparr>ut_users := ut_users tb @ [new]\<rparr>)))"
    using assms by (auto simp: Let_def members_added_def new_member_def index_ok_def list_ex_iff same_identity_def)
qed

lemma find_or_create_adds:
  "steps_in (\<lambda>a b. members_added (db_tables a) (db_tables b)) (find_or_create_oidc env bc tid iss sub email name)"
proof -
  let ?R = "\<lambda>a b. members_added (db_tables a) (db_tables b)"
  have R: "reflp ?R" "transp ?R"
    using members_added_refl members_added_trans by (auto simp: reflp_def transp_def)
  show ?thesis
  proof (cases "iss = [] \<or> sub = []")
    case False
    have create: "steps_in ?R (\<lambda>db. case random_password_hash bc (db_clock db) of
         Inl m \<Rightarrow> (Inl (UserErr m), db)
       | Inr hash \<Rightarrow> user_create_oidc env tid (if email = [] then ''oidc:'' @ sub @ ''@oidc.local'' else email) hash name role_member iss sub db)"
      unfolding steps_in_def
    proof
      fix db
      have "?R db (snd (user_create_oidc env tid em hash name role_member iss sub db))" for em hash
        using insert_user_adds [of "\<lparr>us_id = [], us_tenant = tid, us_email = em, us_hash = hash, us_name = name,
            us_role = or_member role_member, us_iss = iss, us_sub = sub, us_created = 0\<rparr>" env] False
        by (simp add: user_create_oidc_def steps_in_def or_member_def role_member_def)
      then show "?R db (snd (case random_password_hash bc (db_clock db) of
         Inl m \<Rightarrow> (Inl (UserErr m), db)
       | Inr hash \<Rightarrow> user_create_oidc env tid (if email = [] then ''oidc:'' @ sub @ ''@oidc.local'' else email) hash name role_member iss sub db))"
        using R(1) by (auto simp: reflp_def split: sum.split)
    qed
    have ask: "steps_in ?R (user_by_oidc env tid iss sub)"
      unfolding user_by_oidc_def user_exec_def by (rule steps_in_exec [OF _ members_added_refl]) (simp add: reflpD [OF members_added_refl])
    have choose: "steps_in ?R (if e \<noteq> UserNotFound then give (Inl e) else g)" if "steps_in ?R g" for e and g :: "user_row user_act"
      using that by (auto intro: steps_in_give [OF R(1)])
    show ?thesis
      unfolding find_or_create_oidc_def if_not_P [OF False] by (intro steps_in_branch R(2) ask steps_in_give [OF R(1)] choose create)
  next
    case True
    then show ?thesis
      using steps_in_give [OF R(1)] by (auto simp: find_or_create_oidc_def)
  qed
qed

lemma tables_note [simp]: "as_db (note_auth env a te u tg r st) = as_db st"
  by (simp add: note_auth_def)

lemma tables_issue: "issue_reply env dr a tg u st = (rep, st') \<Longrightarrow> as_db st' = as_db st"
  by (auto simp: issue_reply_def split: sum.splits)

lemma tenant_tables: "tenant_by_slug env slug db = (r, db') \<Longrightarrow> db_tables db' = db_tables db"
  by (auto simp: tenant_by_slug_def user_exec_def exec_def Let_def split: option.splits)

lemma authenticate_tables: "authenticate env bc tid email pw db = (r, db') \<Longrightarrow> db_tables db' = db_tables db"
  by (auto simp: authenticate_def branch_def user_by_email_def user_exec_def exec_def Let_def split: prod.splits sum.splits if_splits option.splits)

lemma login_tables: "login env dr rq st = (rep, st') \<Longrightarrow> db_tables (as_db st') = db_tables (as_db st)"
  by (auto simp: login_def split: if_splits option.splits prod.splits sum.splits dest!: tables_issue tenant_tables authenticate_tables)

lemma admit_adds:
  assumes "oidc_admit env dr cb f c st = (rep, st')"
  shows "members_added (db_tables (as_db st)) (db_tables (as_db st'))"
proof -
  obtain r1 db1 where tid: "tenant_by_slug (ae_db env) (fl_tenant f) (as_db st) = (r1, db1)"
    by (metis surj_pair)
  have t1: "db_tables db1 = db_tables (as_db st)"
    by (rule tenant_tables [OF tid])
  have refl: "members_added tb tb" for tb
    by (rule reflpD [OF members_added_refl])
  show ?thesis
  proof (cases r1)
    case (Inl e)
    then show ?thesis
      using assms tid t1 refl by (auto simp: oidc_admit_def refuse_oidc_def split: if_splits)
  next
    case (Inr i)
    obtain r2 db2 where u: "find_or_create_oidc (ae_db env) (ae_bcrypt env) i (oi_iss c) (oi_sub c) (oi_email c) (oi_name c) db1 = (r2, db2)"
      by (metis surj_pair)
    have "members_added (db_tables db1) (db_tables db2)"
      using steps_inD [OF find_or_create_adds u] .
    then show ?thesis
      using assms tid t1 refl Inr u by (auto simp: oidc_admit_def refuse_oidc_def split: if_splits sum.splits dest!: tables_issue)
  qed
qed

lemma logout_tables: "logout env dr h st = (rep, st') \<Longrightarrow> as_db st' = as_db st"
  by (auto simp: logout_def split: option.splits prod.splits sum.splits)

lemma handle_adds: "auth_handle env dr rq st = (rep, st') \<Longrightarrow> members_added (db_tables (as_db st)) (db_tables (as_db st'))"
proof (cases rq)
  case (ReqOidcCallback cb)
  assume "auth_handle env dr rq st = (rep, st')"
  then have "oidc_callback env dr cb st = (rep, st')"
    by (simp add: ReqOidcCallback)
  then show ?thesis
    using members_added_refl
    by (auto simp: oidc_callback_def refuse_oidc_def reflp_def split: option.splits prod.splits sum.splits dest!: admit_adds)
qed (use members_added_refl login_tables [of env dr _ st rep st'] logout_tables [of env dr _ st rep st'] keys_oidc_login [of env dr _ st rep st']
    in \<open>auto simp: reflp_def\<close>)

text \<open>
  C7. No request under \<open>/auth\<close> makes an administrator: whatever is asked for and whatever statements
  fail, tenants and the users there are stay as they are, and a user that is added is a member with an
  identity of the provider; in a tenant no two users share an address or an identity.
\<close>

theorem auth_adds_members:
  "auth_serve env rqs st = (as, st') \<Longrightarrow> members_added (db_tables (as_db st)) (db_tables (as_db st'))"
proof (induction rqs arbitrary: st as)
  case Nil
  then show ?case
    using members_added_refl by (simp add: reflp_def)
next
  case (Cons x rqs)
  obtain rep st1 as' where one: "auth_handle env (fst x) (snd x) st = (rep, st1)" and rest: "auth_serve env rqs st1 = (as', st')"
    using Cons.prems by (cases x) (auto split: prod.splits)
  show ?case
    using transpD [OF members_added_trans handle_adds [OF one] Cons.IH [OF rest]] .
qed

section \<open>OpenID Connect\<close>

text \<open>
  The two halves of a flow fit: the cookie a login sets is accepted by the callback for ten minutes, with
  the state, the nonce, the verifier and the tenant of the login.
\<close>

lemma verify_signed:
  assumes "dec (json_text (flow_json f)) = Inr f" "now div second \<le> fl_expires f"
  shows "verify_oidc_data dec secret now (sign_oidc_data secret f) = Inr f"
proof -
  let ?p = "b64_encode (json_text (flow_json f))"
  have "split_on (CHR ''.'') (?p @ CHR ''.'' # cookie_signature secret ?p) = [?p, cookie_signature secret ?p]"
    using b64_encode_dotless by (simp add: split_on_append split_on_no_sep cookie_signature_def)
  then show ?thesis
    using assms by (simp add: verify_oidc_data_def sign_oidc_data_def Let_def b64_decode_encode)
qed

definition flow_of :: "oidc_runtime \<Rightarrow> auth_draws \<Rightarrow> string \<Rightarrow> string \<Rightarrow> string \<Rightarrow> oidc_flow" where
  "flow_of rt dr te state nonce = \<lparr>fl_state = state, fl_nonce = nonce, fl_verifier = dr_verifier dr,
     fl_tenant = (if te = [] then oc_tenant (or_config rt) else te), fl_expires = (dr_now dr + 600 * second) div second\<rparr>"

lemma oidc_login_flow:
  assumes "oidc_login env dr te st = (AuthRedirect url cookie, st')" "oidc_ready env = Some (rt, client)"
  shows "\<exists>state nonce. dr_state dr = Inr state \<and> dr_nonce dr = Inr nonce \<and> url = od_url client state nonce (dr_verifier dr) \<and>
    cookie = sign_oidc_data (or_cookie_secret rt) (flow_of rt dr te state nonce)"
  using assms by (auto simp: flow_of_def oidc_login_def new_oidc_flow_def Let_def on_ok_Inr_iff split: sum.splits if_splits)

text \<open>
  C33. An OpenID flow comes back: within ten minutes, the callback with the cookie of a login and its state
  gets to the claims of the provider, for the verifier of that login, and goes on with the tenant the
  login named; later it is refused.
\<close>

theorem oidc_cookie_roundtrip:
  assumes "oidc_login env dr te st = (AuthRedirect url cookie, st')" "oidc_ready env = Some (rt, client)"
    and "dr_state dr = Inr state" "dr_nonce dr = Inr nonce"
    and "ae_flow env (json_text (flow_json (flow_of rt dr te state nonce))) = Inr (flow_of rt dr te state nonce)"
    and "exchange_code client code (dr_verifier dr) = Inr c" "oi_nonce c = nonce"
  shows "oidc_identity env rt client dr2 \<lparr>cb_error = [], cb_cookie = Some cookie, cb_state = state, cb_code = code\<rparr> =
      (if dr_now dr2 div second \<le> (dr_now dr + 600 * second) div second then Inr (flow_of rt dr te state nonce, c)
       else Inl (''bad_cookie'', 400, ''oidc_state_invalid''))"
proof -
  let ?f = "flow_of rt dr te state nonce"
  have cookie: "cookie = sign_oidc_data (or_cookie_secret rt) ?f"
    using oidc_login_flow [OF assms(1,2)] assms(3,4) by auto
  have f: "fl_state ?f = state" "fl_nonce ?f = nonce" "fl_verifier ?f = dr_verifier dr" "fl_expires ?f = (dr_now dr + 600 * second) div second"
    by (simp_all add: flow_of_def)
  show ?thesis
  proof (cases "dr_now dr2 div second \<le> (dr_now dr + 600 * second) div second")
    case True
    then have "verify_oidc_data (ae_flow env) (or_cookie_secret rt) (dr_now dr2) cookie = Inr ?f"
      using verify_signed [of "ae_flow env" ?f "dr_now dr2" "or_cookie_secret rt"] assms(5) cookie f by simp
    then show ?thesis
      using True assms(6,7) f by (simp add: oidc_identity_def)
  next
    case False
    let ?p = "b64_encode (json_text (flow_json ?f))"
    have "split_on (CHR ''.'') cookie = [?p, cookie_signature (or_cookie_secret rt) ?p]"
      using b64_encode_dotless cookie by (simp add: split_on_append split_on_no_sep cookie_signature_def sign_oidc_data_def Let_def)
    then have "verify_oidc_data (ae_flow env) (or_cookie_secret rt) (dr_now dr2) cookie = Inl ''oidc cookie: expired''"
      using False assms(5) f by (simp add: verify_oidc_data_def b64_decode_encode)
    then show ?thesis
      using False by (simp add: oidc_identity_def)
  qed
qed

section \<open>The limit on requests\<close>

fun rate_serve :: "'c redis \<Rightarrow> int \<Rightarrow> (utc \<times> claims) list \<Rightarrow> 'c \<Rightarrow> nat option list" where
  "rate_serve rd n [] c = []"
| "rate_serve rd n ((now, cl) # rqs) c =
     (let (wait, c') = rate_limit (Some rd) n now (Some cl) c in wait # rate_serve rd n rqs c')"

definition passed :: "string \<Rightarrow> (utc \<times> claims) list \<Rightarrow> nat option list \<Rightarrow> nat" where
  "passed key rqs as = length (filter (\<lambda>((now, cl), a). rate_limit_key (cl_tenant cl) (cl_user cl) now = key \<and> a = None) (zip rqs as))"

lemma passed_bound:
  assumes "counter_laws rd count key" "0 < n" "\<And>k d ttl c e. fst (rd_incr_expire rd k d ttl c) \<noteq> Inl e"
  shows "int (passed key rqs (rate_serve rd n rqs c)) \<le> max 0 (n - count c key)"
proof (induction rqs arbitrary: c)
  case Nil
  then show ?case by (simp add: passed_def)
next
  case (Cons x rqs)
  obtain now cl where x: "x = (now, cl)"
    by (cases x)
  let ?k = "rate_limit_key (cl_tenant cl) (cl_user cl) now"
  obtain v c' where incr: "rd_incr_expire rd ?k 1 (2 * 60 * second) c = (Inr v, c')"
    using assms(3) [of ?k 1 "2 * 60 * second" c] by (cases "rd_incr_expire rd ?k 1 (2 * 60 * second) c"; cases "fst (rd_incr_expire rd ?k 1 (2 * 60 * second) c)") auto
  have law: "if ?k = key then v = count c key + 1 \<and> count c' key = v else count c' key = count c key"
    using assms(1) [unfolded counter_laws_def, rule_format, OF incr] by (simp split: if_splits)
  have serve: "rate_serve rd n (x # rqs) c = (if n < v then Some (max 1 (60 - u_sec now)) else None) # rate_serve rd n rqs c'"
    using assms(2) incr by (simp add: x rate_limit_def)
  have "passed key (x # rqs) (rate_serve rd n (x # rqs) c) =
      (if ?k = key \<and> v \<le> n then 1 else 0) + passed key rqs (rate_serve rd n rqs c')"
    unfolding serve by (simp add: passed_def x)
  then show ?case
    using Cons.IH [of c'] law by (auto split: if_splits)
qed

text \<open>
  A user has so many requests in a minute: where Redis answers, the middleware lets at most the limit
  of the requests of a user pass in one minute, whatever other users do.
\<close>

theorem rate_limit_per_minute:
  assumes "counter_laws rd count (rate_limit_key tenant user now)" "0 < n" "count c (rate_limit_key tenant user now) = 0"
    and "\<And>k d ttl c e. fst (rd_incr_expire rd k d ttl c) \<noteq> Inl e"
  shows "int (passed (rate_limit_key tenant user now) rqs (rate_serve rd n rqs c)) \<le> n"
  using passed_bound [OF assms(1,2,4), of rqs c] assms(2,3) by simp

section \<open>A server to look at\<close>

definition demo_token :: token_claims where
  "demo_token = \<lparr>tk_uid = ''u'', tk_tid = ''te'', tk_role = ''member'', tk_id = ''id'', tk_exp = Some (10 * second)\<rparr>"

definition demo_jwt :: jwt_lib where
  "demo_jwt = \<lparr>jl_sign = (\<lambda>s c. if c = demo_token then Inr ''t'' else Inl ''no key''),
     jl_parse = (\<lambda>s now t. if t = ''t'' \<and> now < 10 * second then Inr demo_token else Inl ''invalid''), jl_uuid = Inr\<rparr>"

definition demo_keys :: "(string \<Rightarrow> int option) key_store" where
  "demo_keys = \<lparr>ks_set = (\<lambda>k ttl now r. (None, r(k \<mapsto> now + millis ttl))),
     ks_exists = (\<lambda>k now r. Inr (case r k of None \<Rightarrow> False | Some e \<Rightarrow> now < e))\<rparr>"

definition demo_live :: "(string \<Rightarrow> int option) \<Rightarrow> string \<Rightarrow> int \<Rightarrow> bool" where
  "demo_live r k t = (case r k of None \<Rightarrow> False | Some e \<Rightarrow> t < e)"

definition demo_provider :: oidc_client where
  "demo_provider = \<lparr>od_url = (\<lambda>s n v. s), od_exchange = (\<lambda>code v. Inr (Some ''raw'')),
     od_verify = (\<lambda>raw. Inr \<lparr>oi_sub = ''sub'', oi_iss = ''iss'', oi_email = [], oi_name = [], oi_nonce = ''n''\<rparr>)\<rparr>"

definition demo_runtime :: oidc_runtime where
  "demo_runtime = \<lparr>or_config = \<lparr>oc_enabled = True, oc_issuer = ''iss'', oc_client = ''c'', oc_secret_env = ''S'', oc_redirect = ''r'', oc_tenant = ''main''\<rparr>,
     or_client = Some demo_provider, or_cookie_secret = ''secret''\<rparr>"

definition demo_draws :: "int \<Rightarrow> auth_draws" where
  "demo_draws now = \<lparr>dr_now = now, dr_jti = ''id'', dr_state = Inr ''s'', dr_nonce = Inr ''n'', dr_verifier = ''v''\<rparr>"

definition demo_flow :: oidc_flow where
  "demo_flow = flow_of demo_runtime (demo_draws 0) [] ''s'' ''n''"

definition demo_auth :: "(string \<Rightarrow> int option) auth_env" where
  "demo_auth = \<lparr>ae_db = \<lparr>de_fault = (\<lambda>_. None), de_uuid = (\<lambda>_. ''x''), de_now = int\<rparr>, ae_jwt = demo_jwt,
     ae_cfg = \<lparr>jc_secret = replicate 32 (CHR ''k''), jc_ttl = 10 * second\<rparr>,
     ae_bcrypt = \<lparr>bc_generate = (\<lambda>n p. Inr p), bc_matches = (=), bc_random = (\<lambda>n. Inr ''r'')\<rparr>, ae_revoker = Some demo_keys,
     ae_local = True, ae_audited = True, ae_oidc = Some demo_runtime, ae_oidc_users = True,
     ae_flow = (\<lambda>t. if t = json_text (flow_json demo_flow) then Inr demo_flow else Inl ''json'')\<rparr>"

definition demo_user :: user_row where
  "demo_user = \<lparr>us_id = ''u'', us_tenant = ''te'', us_email = ''a@b'', us_hash = ''pw'', us_name = [], us_role = ''member'',
     us_iss = [], us_sub = [], us_created = 0\<rparr>"

definition demo_auth_state :: "(string \<Rightarrow> int option) auth_state" where
  "demo_auth_state = \<lparr>as_db = \<lparr>db_tables = \<lparr>ut_tenants = [(''main'', ''te'')], ut_users = [demo_user]\<rparr>, db_clock = 0\<rparr>,
     as_keys = (\<lambda>_. None), as_audit = []\<rparr>"

definition demo_login :: login_req where
  "demo_login = \<lparr>lq_tenant = ''main'', lq_email = ''a@b'', lq_password = ''pw''\<rparr>"

lemma demo_jwt_laws: "jwt_laws demo_jwt"
proof -
  have parse: "jl_parse demo_jwt s now t = (if t = ''t'' \<and> now < 10 * second then Inr demo_token else Inl ''invalid'')" for s now t
    by (simp add: demo_jwt_def)
  have sign: "jl_sign demo_jwt s c = Inr t \<Longrightarrow> c = demo_token \<and> t = ''t''" for s c t
    by (simp add: demo_jwt_def split: if_splits)
  have expiry: "tk_exp demo_token = Some (10 * second)"
    by (simp add: demo_token_def)
  show ?thesis
    unfolding jwt_laws_def
  proof (intro conjI allI impI)
    fix s c t now e
    assume "jl_sign demo_jwt s c = Inr t" "tk_exp c = Some e" "now < e"
    then show "jl_parse demo_jwt s now t = Inr c"
      using sign [of s c t] expiry by (simp add: parse)
  next
    fix s t now c e
    assume "jl_parse demo_jwt s now t = Inr c" "tk_exp c = Some e"
    then show "now < e"
      using expiry by (simp add: parse split: if_splits)
  next
    fix s t m n c d
    assume "jl_parse demo_jwt s m t = Inr c" "jl_parse demo_jwt s n t = Inr d"
    then show "c = d"
      by (simp add: parse split: if_splits)
  qed
qed

lemma demo_key_laws: "key_laws demo_keys demo_live"
  by (auto simp: key_laws_def demo_keys_def demo_live_def)

lemma demo_logs_in: "\<exists>st'. login demo_auth (demo_draws 0) (Some demo_login) demo_auth_state = (AuthToken ''t'', st')"
  by (simp add: login_def demo_login_def demo_auth_def demo_auth_state_def demo_draws_def tenant_by_slug_def user_exec_def exec_def
      authenticate_def branch_def user_by_email_def find_user_def demo_user_def issue_reply_def jwt_issue_def demo_jwt_def demo_token_def
      whole_second_def second_def)

lemma demo_fields [simp]:
  "ae_jwt demo_auth = demo_jwt" "ae_revoker demo_auth = Some demo_keys" "dr_now (demo_draws n) = n" "dr_jti (demo_draws n) = ''id''"
  "jc_ttl (ae_cfg demo_auth) = 10 * second" "ae_audited demo_auth"
  by (simp_all add: demo_auth_def demo_draws_def)

lemma demo_parse_token:
  "n < 10 * second \<Longrightarrow> jwt_parse demo_jwt cfg n ''t'' =
     Inr \<lparr>cl_user = ''u'', cl_tenant = ''te'', cl_role = ''member'', cl_jti = ''id'', cl_expires = 10 * second\<rparr>"
  by (simp add: jwt_parse_def demo_jwt_def demo_token_def)

lemma demo_one_expiry: "one_expiry demo_jwt cfg ''id'' (10 * second)"
  by (simp add: one_expiry_def jwt_parse_def demo_jwt_def demo_token_def)

lemma demo_logs_out:
  "\<exists>st'. logout demo_auth (demo_draws 0) (''Bearer '' @ ''t'') demo_auth_state = (AuthLoggedOut, st')"
proof -
  have "revoke demo_keys ''id'' (10 * second - 0) 0 r = (None, r(revoked_key ''id'' \<mapsto> millis (10 * second)))" for r
    by (simp add: revoke_def demo_keys_def second_def)
  then show ?thesis
    using demo_parse_token [of 0 "ae_cfg demo_auth"] bearer_token [of "''t''"]
    by (simp add: logout_def second_def)
qed


theorem login_speaks_for_user_witness:
  "\<exists>st'. login demo_auth (demo_draws 0) (Some demo_login) demo_auth_state = (AuthToken ''t'', st') \<and>
     protected_request demo_auth (demo_draws 5) (''Bearer '' @ ''t'') demo_auth_state =
       AuthClaims \<lparr>cl_user = ''u'', cl_tenant = ''te'', cl_role = ''member'', cl_jti = ''id'', cl_expires = 10 * second\<rparr>"
proof -
  obtain st' where in_: "login demo_auth (demo_draws 0) (Some demo_login) demo_auth_state = (AuthToken ''t'', st')"
    using demo_logs_in by blast
  have ids: "ids_read (ae_jwt demo_auth) (db_tables (as_db demo_auth_state))"
    by (simp add: ids_read_def demo_jwt_def)
  have users: "ut_users (db_tables (as_db demo_auth_state)) = [demo_user]"
    by (simp add: demo_auth_state_def)
  have live: "is_revoked demo_keys ''id'' 5 (as_keys demo_auth_state) = Inr False"
    by (simp add: is_revoked_def demo_keys_def demo_auth_state_def)
  have whole: "whole_second (0 + 10 * second) = 10 * second" "(5::int) < 10 * second"
    by (simp_all add: whole_second_def second_def)
  have "jwt_laws (ae_jwt demo_auth)"
    by (simp add: demo_jwt_laws)
  from login_speaks_for_user [OF this ids in_] obtain u where u: "u \<in> set (ut_users (db_tables (as_db demo_auth_state)))"
    and "\<forall>dr2 st2. dr_now dr2 < whole_second (0 + 10 * second) \<longrightarrow>
       (\<forall>ks. ae_revoker demo_auth = Some ks \<longrightarrow> is_revoked ks ''id'' (dr_now dr2) (as_keys st2) = Inr False) \<longrightarrow>
       protected_request demo_auth dr2 (''Bearer '' @ ''t'') st2 =
         AuthClaims \<lparr>cl_user = us_id u, cl_tenant = us_tenant u, cl_role = us_role u, cl_jti = ''id'',
           cl_expires = whole_second (0 + 10 * second)\<rparr>"
    unfolding demo_fields by blast
  then have "protected_request demo_auth (demo_draws 5) (''Bearer '' @ ''t'') demo_auth_state =
       AuthClaims \<lparr>cl_user = us_id u, cl_tenant = us_tenant u, cl_role = us_role u, cl_jti = ''id'', cl_expires = 10 * second\<rparr>"
    using whole live by simp
  moreover have "us_id u = ''u''" "us_tenant u = ''te''" "us_role u = ''member''"
    using u users by (simp_all add: demo_user_def)
  ultimately show ?thesis
    using in_ by (intro exI [of _ st']) (simp only: simp_thms)
qed

theorem auth_adds_members_witness:
  "\<exists>as st'. auth_serve demo_auth [(demo_draws 0, ReqLogin (Some demo_login)), (demo_draws 5, ReqOidcLogin [])] demo_auth_state = (as, st') \<and>
     members_added (db_tables (as_db demo_auth_state)) (db_tables (as_db st'))"
proof -
  obtain as st' where "auth_serve demo_auth [(demo_draws 0, ReqLogin (Some demo_login)), (demo_draws 5, ReqOidcLogin [])] demo_auth_state = (as, st')"
    by (metis surj_pair)
  with auth_adds_members [OF this] show ?thesis
    by blast
qed

theorem oidc_cookie_roundtrip_witness:
  "\<exists>c. oidc_identity demo_auth demo_runtime demo_provider (demo_draws 5)
     \<lparr>cb_error = [], cb_cookie = Some (sign_oidc_data ''secret'' demo_flow), cb_state = ''s'', cb_code = ''code''\<rparr> = Inr (demo_flow, c)"
proof -
  let ?c = "\<lparr>oi_sub = ''sub'', oi_iss = ''iss'', oi_email = [], oi_name = [], oi_nonce = ''n''\<rparr>"
  have ready: "oidc_ready demo_auth = Some (demo_runtime, demo_provider)"
    by (simp add: oidc_ready_def demo_auth_def demo_runtime_def)
  have start: "oidc_login demo_auth (demo_draws 0) [] demo_auth_state = (AuthRedirect ''s'' (sign_oidc_data ''secret'' demo_flow), demo_auth_state)"
    unfolding oidc_login_def ready
    by (simp add: demo_draws_def new_oidc_flow_def Let_def demo_flow_def flow_of_def demo_runtime_def demo_provider_def)
  have dec: "ae_flow demo_auth (json_text (flow_json (flow_of demo_runtime (demo_draws 0) [] ''s'' ''n''))) =
      Inr (flow_of demo_runtime (demo_draws 0) [] ''s'' ''n'')"
    by (simp add: demo_auth_def demo_flow_def)
  have answer: "exchange_code demo_provider ''code'' (dr_verifier (demo_draws 0)) = Inr ?c" "oi_nonce ?c = ''n''"
    by (simp_all add: exchange_code_def demo_provider_def)
  have draws: "dr_state (demo_draws 0) = Inr ''s''" "dr_nonce (demo_draws 0) = Inr ''n''"
    by (simp_all add: demo_draws_def)
  have time: "dr_now (demo_draws 5) div second \<le> (dr_now (demo_draws 0) + 600 * second) div second"
    by (simp add: second_def)
  show ?thesis
    using oidc_cookie_roundtrip [OF start ready draws dec answer, of "demo_draws 5"] time unfolding demo_flow_def by simp
qed

definition demo_speaker :: claims where
  "demo_speaker = \<lparr>cl_user = ''u'', cl_tenant = ''te'', cl_role = ''member'', cl_jti = ''id'', cl_expires = 0\<rparr>"

theorem rate_limit_per_minute_witness:
  "int (passed (rate_limit_key ''te'' ''u'' noon) (replicate 3 (noon, demo_speaker)) (rate_serve mem_redis 2 (replicate 3 (noon, demo_speaker)) (\<lambda>_. 0))) \<le> 2"
  by (rule rate_limit_per_minute [where count = "\<lambda>r. r"]) (simp_all add: counter_laws_def mem_redis_def)

end
