(* ===== verification/Proposals.thy ===== *)
theory Proposals
  imports Triggers Templates Auth
begin

text \<open>
  Workflows an agent or a member drafts and an administrator publishes:
  \<open>src/internal/workflow/proposal_types.go\<close>, \<open>proposal_repo.go\<close>, \<open>proposal_service.go\<close>, the requests of
  \<open>proposal_handler.go\<close> and the tools of \<open>tools_admin.go\<close> and \<open>tools_publish.go\<close>. A request is one
  function on the state; each of its calls may fail, by faults of its own. Bodies and ids are taken
  after they were decoded; descriptions and schemas of the tools, which are texts, are left out.
\<close>

section \<open>Types (proposal\_types.go)\<close>

definition proposal_draft :: string where "proposal_draft = ''draft''"
definition proposal_pending :: string where "proposal_pending = ''pending_approval''"
definition proposal_confirmed :: string where "proposal_confirmed = ''confirmed''"
definition proposal_published :: string where "proposal_published = ''published''"
definition proposal_rejected :: string where "proposal_rejected = ''rejected''"

lemmas proposal_statuses = proposal_draft_def proposal_pending_def proposal_confirmed_def proposal_published_def proposal_rejected_def

definition source_freeform :: string where "source_freeform = ''freeform''"
definition source_template_prefix :: string where "source_template_prefix = ''template:''"

record wf_proposal =
  wp_id :: uuid
  wp_tenant :: uuid
  wp_session :: "uuid option"
  wp_creator :: uuid
  wp_slug :: string
  wp_name :: string
  wp_descr :: string
  wp_dsl :: string
  wp_source :: string
  wp_template :: string
  wp_slots :: json
  wp_dry_ok :: bool
  wp_dry_output :: "json option"
  wp_dry_error :: string
  wp_status :: string
  wp_published_at :: "int option"
  wp_decided_by :: "uuid option"
  wp_created :: int

definition valid_proposal_status :: "string \<Rightarrow> bool" where
  "valid_proposal_status s \<longleftrightarrow>
     s = [] \<or> s = proposal_draft \<or> s = proposal_pending \<or> s = proposal_confirmed \<or> s = proposal_published \<or> s = proposal_rejected"

record create_input =
  pi_slug :: string
  pi_name :: string
  pi_descr :: string
  pi_dsl :: string
  pi_source :: string
  pi_template :: string
  pi_slots :: "(string, val) gomap"
  pi_session :: "uuid option"

section \<open>The table (proposal\_repo.go)\<close>

datatype wp_err = WpNotFound | WpInvalidState string | WpDryRunFailed | WpSlugPublished string | WpErr svc_err

fun wp_err_text :: "wp_err \<Rightarrow> string" where
  "wp_err_text WpNotFound = ''workflow: proposal not found''"
| "wp_err_text (WpInvalidState s) = ''workflow: proposal invalid state for operation: status='' @ s"
| "wp_err_text WpDryRunFailed = ''workflow: proposal dry-run not ok''"
| "wp_err_text (WpSlugPublished s) = ''workflow: slug already published: '' @ s"
| "wp_err_text (WpErr e) = svc_err_text e"

abbreviation wp_fail :: "string \<Rightarrow> wp_err" where
  "wp_fail e \<equiv> WpErr (SvcErr e)"

definition wp_insert :: "faults \<Rightarrow> wf_proposal \<Rightarrow> wf_proposal list \<Rightarrow> (wp_err + wf_proposal) \<times> wf_proposal list" where
  "wp_insert fault p rows =
     (case fault ''insert proposal'' of
        Some e \<Rightarrow> (Inl (wp_fail (''scan proposal: '' @ e)), rows)
      | None \<Rightarrow>
          if wp_id p \<in> wp_id ` set rows then (Inl (wp_fail ''scan proposal: duplicate key value violates unique constraint''), rows)
          else (Inr p, rows @ [p]))"

definition at_id :: "uuid \<Rightarrow> uuid \<Rightarrow> wf_proposal \<Rightarrow> bool" where
  "at_id tenant i p \<longleftrightarrow> wp_tenant p = tenant \<and> wp_id p = i"

definition wp_get :: "faults \<Rightarrow> uuid \<Rightarrow> uuid \<Rightarrow> wf_proposal list \<Rightarrow> wp_err + wf_proposal" where
  "wp_get fault tenant i rows =
     (case fault ''get proposal'' of
        Some e \<Rightarrow> Inl (wp_fail (''scan proposal: '' @ e))
      | None \<Rightarrow> (case find (at_id tenant i) rows of None \<Rightarrow> Inl WpNotFound | Some p \<Rightarrow> Inr p))"

definition map_rows :: "(wf_proposal \<Rightarrow> bool) \<Rightarrow> (wf_proposal \<Rightarrow> wf_proposal) \<Rightarrow> wf_proposal list \<Rightarrow> wf_proposal list" where
  "map_rows P f = map (\<lambda>p. if P p then f p else p)"

definition wp_update_dry_run ::
  "faults \<Rightarrow> uuid \<Rightarrow> uuid \<Rightarrow> bool \<Rightarrow> json option \<Rightarrow> string \<Rightarrow> wf_proposal list \<Rightarrow> wp_err option \<times> wf_proposal list" where
  "wp_update_dry_run fault tenant i ok out err rows =
     (let P = (\<lambda>p. at_id tenant i p \<and> (wp_status p = proposal_draft \<or> wp_status p = proposal_pending))
      in case fault ''update dry run'' of
           Some e \<Rightarrow> (Some (wp_fail (''update proposal dry_run: '' @ e)), rows)
         | None \<Rightarrow>
             if list_ex P rows
             then (None, map_rows P (\<lambda>p. p\<lparr>wp_dry_ok := ok, wp_dry_output := out, wp_dry_error := err\<rparr>) rows)
             else (Some WpNotFound, rows))"

definition wp_list :: "faults \<Rightarrow> uuid \<Rightarrow> string \<Rightarrow> int \<Rightarrow> int \<Rightarrow> wf_proposal list \<Rightarrow> wp_err + wf_proposal list" where
  "wp_list fault tenant status limit offset rows =
     (let limit = (if limit \<le> 0 then 100 else if limit > 500 then 500 else limit);
          offset = (if offset < 0 then 0 else offset)
      in if status \<noteq> [] \<and> \<not> valid_proposal_status status then Inl (wp_fail (''invalid status '' @ quote status))
         else case fault ''list proposals'' of
                Some e \<Rightarrow> Inl (wp_fail (''list proposals: '' @ e))
              | None \<Rightarrow>
                  Inr (take (nat limit) (drop (nat offset)
                    (sort_key (\<lambda>p. - wp_created p)
                      (filter (\<lambda>p. wp_tenant p = tenant \<and> (status = [] \<or> wp_status p = status)) rows)))))"

text \<open>The statement has no condition on the status the row has.\<close>

definition wp_set_status ::
  "faults \<Rightarrow> uuid \<Rightarrow> uuid \<Rightarrow> string \<Rightarrow> uuid option \<Rightarrow> int \<Rightarrow> wf_proposal list \<Rightarrow> wp_err option \<times> wf_proposal list" where
  "wp_set_status fault tenant i status decided now rows =
     (case fault ''set proposal status'' of
        Some e \<Rightarrow> (Some (wp_fail (''update proposal status: '' @ e)), rows)
      | None \<Rightarrow>
          if list_ex (at_id tenant i) rows
          then (None, map_rows (at_id tenant i)
                  (\<lambda>p. p\<lparr>wp_status := status, wp_decided_by := decided,
                        wp_published_at := (if status = proposal_published then Some now else None)\<rparr>) rows)
          else (Some WpNotFound, rows))"

section \<open>The service (proposal\_service.go)\<close>

record 's wp_state =
  ps_svc :: "'s svc"
  ps_rows :: "wf_proposal list"

text \<open>
  What a request meets: the workflow service, an \<open>Invoke\<close> under way, the faults of each of its calls,
  fresh ids, the time, the YAML encoder.
\<close>

record 's wp_env =
  we_svc :: "'s svc_env"
  we_invoke :: "'s invoker"
  we_faults :: "string \<Rightarrow> faults"
  we_workflow_id :: uuid
  we_id :: uuid
  we_now :: int
  we_yaml :: "tpl_doc \<Rightarrow> string result"

definition ensure_draft_workflow ::
  "'s wp_env \<Rightarrow> uuid \<Rightarrow> string \<Rightarrow> string \<Rightarrow> string \<Rightarrow> string \<Rightarrow> 's svc \<Rightarrow> wp_err option \<times> 's svc" where
  "ensure_draft_workflow env tenant slug name descr dsl sv =
     (case svc_create (we_svc env) (we_faults env ''create'') (we_workflow_id env) tenant slug name descr dsl sv of
        (Inr w, sv1) \<Rightarrow> (None, sv1)
      | (Inl e, sv1) \<Rightarrow>
          (case e of
             ErrSlugTaken _ \<Rightarrow>
               (case svc_get (we_faults env ''get'') tenant slug sv1 of
                  Inl g \<Rightarrow> (Some (WpErr g), sv1)
                | Inr w \<Rightarrow>
                    if wr_published w then (Some (WpSlugPublished slug), sv1)
                    else (case svc_update (we_svc env) (we_faults env ''update'') tenant slug name descr dsl sv1 of
                            (Inl u, sv2) \<Rightarrow> (Some (WpErr u), sv2)
                          | (Inr _, sv2) \<Rightarrow> (None, sv2)))
           | _ \<Rightarrow> (Some (WpErr e), sv1)))"

definition default_inputs :: "workflow_doc \<Rightarrow> (string, val) gomap" where
  "default_inputs doc = map (\<lambda>(k, sp). (k, in_default sp)) (filter (\<lambda>(k, sp). in_default sp \<noteq> VNull) (doc_inputs doc))"

text \<open>\<open>None\<close>: the run has not returned.\<close>

definition run_dry_run ::
  "'s wp_env \<Rightarrow> uuid \<Rightarrow> uuid \<Rightarrow> string \<Rightarrow> string \<Rightarrow> 's svc \<Rightarrow> ((bool \<times> json option \<times> string) \<times> 's svc) option" where
  "run_dry_run env tenant user slug dsl sv =
     (case parse_doc (se_unmarshal (we_svc env)) dsl of
        Inl e \<Rightarrow> Some ((False, None, e), sv)
      | Inr doc \<Rightarrow>
          (case we_invoke env tenant user slug (default_inputs doc) True sv of
             None \<Rightarrow> None
           | Some (Inl e, sv1) \<Rightarrow> Some ((False, None, svc_err_text e), sv1)
           | Some (Inr res, sv1) \<Rightarrow>
               (let ok = ir_status res = StatusOK;
                    out = (case ir_outputs res of
                             None \<Rightarrow> None
                           | Some outs \<Rightarrow> (case marshal (VMap outs) of Inl e \<Rightarrow> None | Inr j \<Rightarrow> Some j));
                    err = (if \<not> ok \<and> ir_error res = [] then status_text (ir_status res) else ir_error res)
                in Some ((ok, out, err), sv1))))"

definition new_draft :: "'s wp_env \<Rightarrow> uuid \<Rightarrow> uuid \<Rightarrow> create_input \<Rightarrow> json \<Rightarrow> bool \<times> json option \<times> string \<Rightarrow> wf_proposal" where
  "new_draft env tenant user inp slots dry =
     \<lparr>wp_id = we_id env, wp_tenant = tenant, wp_session = pi_session inp, wp_creator = user, wp_slug = pi_slug inp,
      wp_name = pi_name inp, wp_descr = pi_descr inp, wp_dsl = pi_dsl inp,
      wp_source = (if pi_source inp = [] then source_freeform else pi_source inp), wp_template = pi_template inp,
      wp_slots = slots, wp_dry_ok = fst dry, wp_dry_output = fst (snd dry), wp_dry_error = snd (snd dry),
      wp_status = proposal_draft, wp_published_at = None, wp_decided_by = None, wp_created = we_now env\<rparr>"

definition prop_create ::
  "'s wp_env \<Rightarrow> uuid \<Rightarrow> uuid \<Rightarrow> create_input \<Rightarrow> 's wp_state \<Rightarrow> ((wp_err + wf_proposal) \<times> 's wp_state) option" where
  "prop_create env tenant user inp st =
     (if pi_slug inp = [] \<or> pi_name inp = [] \<or> pi_dsl inp = []
      then Some (Inl (wp_fail ''slug, name, and dsl_yaml are required''), st)
      else case parse_validate (we_svc env) (pi_dsl inp) (pi_slug inp) of
        Inl e \<Rightarrow> Some (Inl (WpErr e), st)
      | Inr _ \<Rightarrow>
          (case marshal (VMap (pi_slots inp)) of
             Inl e \<Rightarrow> Some (Inl (wp_fail (''marshal slots: '' @ e)), st)
           | Inr slots \<Rightarrow>
               (case ensure_draft_workflow env tenant (pi_slug inp) (pi_name inp) (pi_descr inp) (pi_dsl inp) (ps_svc st) of
                  (Some e, sv1) \<Rightarrow> Some (Inl e, st\<lparr>ps_svc := sv1\<rparr>)
                | (None, sv1) \<Rightarrow>
                    (case run_dry_run env tenant user (pi_slug inp) (pi_dsl inp) sv1 of
                       None \<Rightarrow> None
                     | Some (dry, sv2) \<Rightarrow>
                         (case wp_insert (we_faults env ''insert'') (new_draft env tenant user inp slots dry) (ps_rows st) of
                            (Inl e, rows) \<Rightarrow> Some (Inl e, st\<lparr>ps_svc := sv2, ps_rows := rows\<rparr>)
                          | (Inr p, rows) \<Rightarrow>
                              Some (Inr p, st\<lparr>ps_svc := audit_admin tenant (wp_id p) ''workflow.proposal.create'' sv2, ps_rows := rows\<rparr>))))))"

definition prop_create_from_template ::
  "'s wp_env \<Rightarrow> uuid \<Rightarrow> uuid \<Rightarrow> string \<Rightarrow> string \<Rightarrow> string \<Rightarrow> string \<Rightarrow> (string, val) gomap \<Rightarrow> uuid option \<Rightarrow> 's wp_state \<Rightarrow>
   ((wp_err + wf_proposal) \<times> 's wp_state) option" where
  "prop_create_from_template env tenant user tid slug name descr slots session st =
     (case render_template (we_yaml env) tid \<lparr>ri_slug = slug, ri_name = name, ri_description = descr, ri_slots = slots\<rparr> of
        Inl e \<Rightarrow> Some (Inl (wp_fail e), st)
      | Inr dsl \<Rightarrow>
          prop_create env tenant user
            \<lparr>pi_slug = slug, pi_name = name, pi_descr = descr, pi_dsl = dsl, pi_source = source_template_prefix @ tid,
             pi_template = tid, pi_slots = slots, pi_session = session\<rparr> st)"

definition publish_proposal :: "'s wp_env \<Rightarrow> uuid \<Rightarrow> uuid \<Rightarrow> wf_proposal \<Rightarrow> 's wp_state \<Rightarrow> wp_err option \<times> 's wp_state" where
  "publish_proposal env tenant actor p st =
     (case ensure_draft_workflow env tenant (wp_slug p) (wp_name p) (wp_descr p) (wp_dsl p) (ps_svc st) of
        (Some e, sv1) \<Rightarrow> (Some e, st\<lparr>ps_svc := sv1\<rparr>)
      | (None, sv1) \<Rightarrow>
          (case svc_publish (we_svc env) (we_faults env ''publish'') tenant (wp_slug p) sv1 of
             (Some e, sv2) \<Rightarrow> (Some (WpErr e), st\<lparr>ps_svc := sv2\<rparr>)
           | (None, sv2) \<Rightarrow>
               (case wp_set_status (we_faults env ''status'') tenant (wp_id p) proposal_published (Some actor) (we_now env) (ps_rows st) of
                  (Some e, rows) \<Rightarrow> (Some e, st\<lparr>ps_svc := sv2, ps_rows := rows\<rparr>)
                | (None, rows) \<Rightarrow>
                    (None, st\<lparr>ps_svc := audit_admin tenant (wp_id p) ''workflow.proposal.confirm'' sv2, ps_rows := rows\<rparr>))))"

text \<open>What both ways to publish end in: the row is read again.\<close>

definition publish_and_read :: "'s wp_env \<Rightarrow> uuid \<Rightarrow> uuid \<Rightarrow> wf_proposal \<Rightarrow> uuid \<Rightarrow> 's wp_state \<Rightarrow> (wp_err + wf_proposal) \<times> 's wp_state" where
  "publish_and_read env tenant actor p i st =
     (case publish_proposal env tenant actor p st of
        (Some e, st1) \<Rightarrow> (Inl e, st1)
      | (None, st1) \<Rightarrow> (wp_get (we_faults env ''reread'') tenant i (ps_rows st1), st1))"

definition prop_confirm :: "'s wp_env \<Rightarrow> uuid \<Rightarrow> uuid \<Rightarrow> uuid \<Rightarrow> bool \<Rightarrow> 's wp_state \<Rightarrow> (wp_err + wf_proposal) \<times> 's wp_state" where
  "prop_confirm env tenant user i is_admin st =
     (case wp_get (we_faults env ''read'') tenant i (ps_rows st) of
        Inl e \<Rightarrow> (Inl e, st)
      | Inr p \<Rightarrow>
          if wp_status p \<noteq> proposal_draft \<and> wp_status p \<noteq> proposal_pending then (Inl (WpInvalidState (wp_status p)), st)
          else if \<not> wp_dry_ok p then (Inl WpDryRunFailed, st)
          else if is_admin then publish_and_read env tenant user p i st
          else
            (case wp_set_status (we_faults env ''status'') tenant i proposal_pending (Some user) (we_now env) (ps_rows st) of
               (Some e, rows) \<Rightarrow> (Inl e, st\<lparr>ps_rows := rows\<rparr>)
             | (None, rows) \<Rightarrow>
                 (wp_get (we_faults env ''reread'') tenant i rows,
                  st\<lparr>ps_svc := audit_admin tenant i ''workflow.proposal.confirm'' (ps_svc st), ps_rows := rows\<rparr>)))"

definition prop_approve :: "'s wp_env \<Rightarrow> uuid \<Rightarrow> uuid \<Rightarrow> uuid \<Rightarrow> 's wp_state \<Rightarrow> (wp_err + wf_proposal) \<times> 's wp_state" where
  "prop_approve env tenant admin i st =
     (case wp_get (we_faults env ''read'') tenant i (ps_rows st) of
        Inl e \<Rightarrow> (Inl e, st)
      | Inr p \<Rightarrow>
          if wp_status p \<noteq> proposal_pending then (Inl (WpInvalidState (wp_status p)), st)
          else if \<not> wp_dry_ok p then (Inl WpDryRunFailed, st)
          else publish_and_read env tenant admin p i st)"

definition prop_reject :: "'s wp_env \<Rightarrow> uuid \<Rightarrow> uuid \<Rightarrow> uuid \<Rightarrow> 's wp_state \<Rightarrow> wp_err option \<times> 's wp_state" where
  "prop_reject env tenant admin i st =
     (case wp_get (we_faults env ''read'') tenant i (ps_rows st) of
        Inl e \<Rightarrow> (Some e, st)
      | Inr p \<Rightarrow>
          if wp_status p \<noteq> proposal_pending \<and> wp_status p \<noteq> proposal_draft then (Some (WpInvalidState (wp_status p)), st)
          else
            (case wp_set_status (we_faults env ''status'') tenant i proposal_rejected (Some admin) (we_now env) (ps_rows st) of
               (Some e, rows) \<Rightarrow> (Some e, st\<lparr>ps_rows := rows\<rparr>)
             | (None, rows) \<Rightarrow>
                 (None, st\<lparr>ps_svc := audit_admin tenant i ''workflow.proposal.reject'' (ps_svc st), ps_rows := rows\<rparr>)))"

end
