(* ===== verification/ProposalTools.thy ===== *)
theory ProposalTools
  imports Proposals
begin

text \<open>
  The two faces of the proposals and of the workflow table: the tools an agent calls
  (\<open>src/internal/workflow/tools_admin.go\<close>, \<open>tools_publish.go\<close>) and the requests of
  \<open>proposal_handler.go\<close>. Inputs are taken after their decoding, \<open>None\<close> where it fails.
\<close>

section \<open>Gates (tools\_admin.go, tools\_publish.go)\<close>

text \<open>The detail of a \<open>permission_denied\<close>.\<close>

definition require_admin_ctx :: "claims option \<Rightarrow> uuid \<Rightarrow> string option" where
  "require_admin_ctx cl tenant =
     (case cl of
        None \<Rightarrow> Some (''missing auth context '' @ map char_of [0xE2, 0x80, 0x94 :: nat] @ '' workflow admin tools require an authenticated request'')
      | Some c \<Rightarrow>
          if cl_role c \<noteq> role_admin then Some ''workflow admin tools require role=admin; ask the platform owner to publish on your behalf''
          else if cl_tenant c \<noteq> tenant then Some ''tenant mismatch between claims and invocation''
          else None)"

definition require_auth_ctx :: "claims option \<Rightarrow> uuid \<Rightarrow> string option" where
  "require_auth_ctx cl tenant =
     (case cl of
        None \<Rightarrow> Some ''missing auth context''
      | Some c \<Rightarrow> if cl_tenant c \<noteq> tenant then Some ''tenant mismatch'' else None)"

section \<open>What a tool answers\<close>

datatype wf_reply =
    WfRefused string string
  | WfCreated wf_row
  | WfUpdated wf_row
  | WfListed "wf_row list"
  | WfGot wf_row
  | WfProposed wf_proposal string
  | WfPublished wf_proposal string

definition permission_denied :: "string \<Rightarrow> wf_reply" where
  "permission_denied = WfRefused ''permission_denied''"

fun map_service_err :: "svc_err \<Rightarrow> wf_reply" where
  "map_service_err ErrNotFound = WfRefused ''not_found'' (svc_err_text ErrNotFound)"
| "map_service_err (ErrSlugTaken s) = WfRefused ''slug_taken'' (svc_err_text (ErrSlugTaken s))"
| "map_service_err (SvcErr e) = WfRefused ''invalid_dsl'' e"

fun map_proposal_err :: "wp_err \<Rightarrow> wf_reply" where
  "map_proposal_err WpNotFound = WfRefused ''not_found'' (wp_err_text WpNotFound)"
| "map_proposal_err WpDryRunFailed = WfRefused ''dry_run_failed'' (wp_err_text WpDryRunFailed)"
| "map_proposal_err (WpInvalidState s) = WfRefused ''invalid_state'' (wp_err_text (WpInvalidState s))"
| "map_proposal_err (WpSlugPublished s) = WfRefused ''slug_published'' (wp_err_text (WpSlugPublished s))"
| "map_proposal_err (WpErr e) = map_service_err e"

text \<open>The Chinese words of the summary, as bytes.\<close>

definition zh_freeform :: string where
  "zh_freeform = map char_of [0xE8, 0x87, 0xAA, 0xE7, 0x94, 0xB1, 0xE7, 0x94, 0x9F, 0xE6, 0x88, 0x90 :: nat]"

definition zh_template :: string where
  "zh_template = map char_of [0xE6, 0xA8, 0xA1, 0xE6, 0x9D, 0xBF, 0x20, 0xC2, 0xB7, 0x20 :: nat]"

definition zh_dry_failed :: string where
  "zh_dry_failed = map char_of [0xE6, 0xA8, 0xA1, 0xE6, 0x8B, 0x9F, 0xE6, 0x9C, 0xAA, 0xE9, 0x80, 0x9A, 0xE8, 0xBF, 0x87 :: nat]"

definition zh_dry_ok :: string where
  "zh_dry_ok = map char_of [0xE6, 0xA8, 0xA1, 0xE6, 0x8B, 0x9F, 0xE9, 0x80, 0x9A, 0xE8, 0xBF, 0x87 :: nat]"

definition proposal_summary :: "wf_proposal \<Rightarrow> string" where
  "proposal_summary p =
     (let k = length source_template_prefix;
          src = (if wp_template p \<noteq> [] then zh_template @ wp_template p
                 else if k < length (wp_source p) \<and> take k (wp_source p) = source_template_prefix
                 then zh_template @ drop k (wp_source p)
                 else zh_freeform)
      in map char_of [0xE5, 0xB7, 0xA5, 0xE4, 0xBD, 0x9C, 0xE6, 0xB5, 0x81, 0xE3, 0x80, 0x8C :: nat] @ wp_name p @
         map char_of [0xE3, 0x80, 0x8D, 0x28 :: nat] @ src @ map char_of [0x29, 0xEF, 0xBC, 0x8C :: nat] @
         (if wp_dry_ok p then zh_dry_ok else zh_dry_failed) @
         map char_of [0xEF, 0xBC, 0x8C, 0xE7, 0x8A, 0xB6, 0xE6, 0x80, 0x81, 0x3D :: nat] @ wp_status p)"

section \<open>Tools on workflows (tools\_admin.go)\<close>

record wf_tool_input =
  ti_slug :: string
  ti_name :: string
  ti_descr :: string
  ti_dsl :: string

text \<open>\<open>Inl\<close>: the error of the dispatch; otherwise an answer the model can read.\<close>

definition create_tool ::
  "('s, 'z) svc_env_scheme \<Rightarrow> faults \<Rightarrow> uuid \<Rightarrow> claims option \<Rightarrow> uuid \<Rightarrow> wf_tool_input result \<Rightarrow> 's svc \<Rightarrow> (string + wf_reply) \<times> 's svc" where
  "create_tool env fault new_id cl tenant input sv =
     (case require_admin_ctx cl tenant of
        Some d \<Rightarrow> (Inr (permission_denied d), sv)
      | None \<Rightarrow>
          (case input of
             Inl e \<Rightarrow> (Inl (''unmarshal workflow.create input: '' @ e), sv)
           | Inr rq \<Rightarrow>
               (case svc_create env fault new_id tenant (ti_slug rq) (ti_name rq) (ti_descr rq) (ti_dsl rq) sv of
                  (Inl e, sv1) \<Rightarrow> (Inr (map_service_err e), sv1)
                | (Inr w, sv1) \<Rightarrow> (Inr (WfCreated w), sv1))))"

definition update_tool ::
  "('s, 'z) svc_env_scheme \<Rightarrow> faults \<Rightarrow> claims option \<Rightarrow> uuid \<Rightarrow> wf_tool_input result \<Rightarrow> 's svc \<Rightarrow> (string + wf_reply) \<times> 's svc" where
  "update_tool env fault cl tenant input sv =
     (case require_admin_ctx cl tenant of
        Some d \<Rightarrow> (Inr (permission_denied d), sv)
      | None \<Rightarrow>
          (case input of
             Inl e \<Rightarrow> (Inl (''unmarshal workflow.update input: '' @ e), sv)
           | Inr rq \<Rightarrow>
               (case svc_update env fault tenant (ti_slug rq) (ti_name rq) (ti_descr rq) (ti_dsl rq) sv of
                  (Inl e, sv1) \<Rightarrow> (Inr (map_service_err e), sv1)
                | (Inr w, sv1) \<Rightarrow> (Inr (WfUpdated w), sv1))))"

definition svc_list :: "faults \<Rightarrow> uuid \<Rightarrow> 's svc \<Rightarrow> wf_row list svc_result" where
  "svc_list fault tenant sv =
     (case fault ''list workflows'' of
        Some e \<Rightarrow> Inl (SvcErr (''list workflows: '' @ e))
      | None \<Rightarrow> Inr (repo_list tenant (sv_tables sv)))"

definition list_tool :: "faults \<Rightarrow> claims option \<Rightarrow> uuid \<Rightarrow> 's svc \<Rightarrow> wf_reply" where
  "list_tool fault cl tenant sv =
     (case require_admin_ctx cl tenant of
        Some d \<Rightarrow> permission_denied d
      | None \<Rightarrow> (case svc_list fault tenant sv of Inl e \<Rightarrow> map_service_err e | Inr ws \<Rightarrow> WfListed ws))"

definition get_tool :: "faults \<Rightarrow> claims option \<Rightarrow> uuid \<Rightarrow> string result \<Rightarrow> 's svc \<Rightarrow> string + wf_reply" where
  "get_tool fault cl tenant input sv =
     (case require_admin_ctx cl tenant of
        Some d \<Rightarrow> Inr (permission_denied d)
      | None \<Rightarrow>
          (case input of
             Inl e \<Rightarrow> Inl (''unmarshal workflow.get input: '' @ e)
           | Inr slug \<Rightarrow>
               (case svc_get fault tenant slug sv of Inl e \<Rightarrow> Inr (map_service_err e) | Inr w \<Rightarrow> Inr (WfGot w))))"

section \<open>Tools on proposals (tools\_publish.go)\<close>

record propose_input =
  po_slug :: string
  po_name :: string
  po_descr :: string
  po_template :: string
  po_slots :: "(string, val) gomap"
  po_dsl :: string
  po_message :: string

text \<open>
  What becomes of a draft: an answer or an error of the service, a refusal with its code, or a panic of
  the classifier. \<open>None\<close> around it: the dry run has not returned.
\<close>

datatype drafted = Drafted wf_proposal | DraftFailed wp_err | DraftRefused string | DraftPanic

fun drafted_of :: "wp_err + wf_proposal \<Rightarrow> drafted" where
  "drafted_of (Inl e) = DraftFailed e"
| "drafted_of (Inr p) = Drafted p"

definition as_drafted :: "((wp_err + wf_proposal) \<times> 's wp_state) option \<Rightarrow> (drafted \<times> 's wp_state) option" where
  "as_drafted = map_option (\<lambda>(r, st). (drafted_of r, st))"

definition propose ::
  "'s wp_env \<Rightarrow> uuid \<Rightarrow> uuid \<Rightarrow> propose_input \<Rightarrow> 's wp_state \<Rightarrow> (drafted \<times> 's wp_state) option" where
  "propose env tenant user inp st =
     (if po_template inp \<noteq> [] \<or> po_dsl inp = [] \<and> po_message inp \<noteq> [] then
        if po_template inp \<noteq> [] then
          as_drafted (prop_create_from_template env tenant user (po_template inp) (po_slug inp) (po_name inp) (po_descr inp) (po_slots inp) None st)
        else
          (case classify_and_extract (po_message inp) of
             ExtractPanic \<Rightarrow> Some (DraftPanic, st)
           | NoTemplate \<Rightarrow> Some (DraftRefused ''no_template_match'', st)
           | Matched tid slots \<Rightarrow>
               as_drafted (prop_create_from_template env tenant user tid (po_slug inp) (po_name inp)
                 (if po_descr inp = [] then po_message inp else po_descr inp) slots None st))
      else if po_dsl inp \<noteq> [] then
        as_drafted (prop_create env tenant user
          \<lparr>pi_slug = po_slug inp, pi_name = po_name inp, pi_descr = po_descr inp, pi_dsl = po_dsl inp, pi_source = [],
           pi_template = [], pi_slots = [], pi_session = None\<rparr> st)
      else Some (DraftRefused ''invalid_input'', st))"

definition propose_detail :: "string \<Rightarrow> string" where
  "propose_detail code =
     (if code = ''no_template_match'' then ''could not classify user_message to a template; pass template_id or dsl_yaml''
      else ''provide template_id, dsl_yaml, or user_message'')"

text \<open>A panic goes to whoever runs the tool: \<open>Some None\<close>.\<close>

definition propose_tool ::
  "'s wp_env \<Rightarrow> claims option \<Rightarrow> uuid \<Rightarrow> uuid \<Rightarrow> propose_input result \<Rightarrow> 's wp_state \<Rightarrow> ((string + wf_reply) option \<times> 's wp_state) option" where
  "propose_tool env cl tenant user input st =
     (case require_auth_ctx cl tenant of
        Some d \<Rightarrow> Some (Some (Inr (permission_denied d)), st)
      | None \<Rightarrow>
          (case input of
             Inl e \<Rightarrow> Some (Some (Inl (''unmarshal workflow.propose input: '' @ e)), st)
           | Inr inp \<Rightarrow>
               map_option (\<lambda>(d, st1).
                 (case d of
                    Drafted p \<Rightarrow> Some (Inr (WfProposed p (proposal_summary p)))
                  | DraftFailed e \<Rightarrow> Some (Inr (map_proposal_err e))
                  | DraftRefused code \<Rightarrow> Some (Inr (WfRefused code (propose_detail code)))
                  | DraftPanic \<Rightarrow> None, st1)) (propose env tenant user inp st)))"

definition publish_tool ::
  "'s wp_env \<Rightarrow> (string \<Rightarrow> uuid option) \<Rightarrow> claims option \<Rightarrow> uuid \<Rightarrow> uuid \<Rightarrow> string result \<Rightarrow> 's wp_state \<Rightarrow> (string + wf_reply) \<times> 's wp_state" where
  "publish_tool env uuid_of cl tenant user input st =
     (case require_admin_ctx cl tenant of
        Some d \<Rightarrow> (Inr (permission_denied d), st)
      | None \<Rightarrow>
          (case input of
             Inl e \<Rightarrow> (Inl (''unmarshal workflow.publish input: '' @ e), st)
           | Inr text \<Rightarrow>
               (case uuid_of text of
                  None \<Rightarrow> (Inr (WfRefused ''invalid_input'' ''proposal_id must be uuid''), st)
                | Some i \<Rightarrow>
                    (case prop_confirm env tenant user i True st of
                       (Inl e, st1) \<Rightarrow> (Inr (map_proposal_err e), st1)
                     | (Inr p, st1) \<Rightarrow> (Inr (WfPublished p (proposal_summary p)), st1)))))"

section \<open>Requests (proposal\_handler.go)\<close>

record create_req =
  cq_slug :: string
  cq_name :: string
  cq_descr :: string
  cq_template :: string
  cq_slots :: "(string, val) gomap"
  cq_dsl :: string
  cq_message :: string
  cq_session :: "uuid option"

definition create_drafted :: "'s wp_env \<Rightarrow> claims \<Rightarrow> create_req \<Rightarrow> 's wp_state \<Rightarrow> (drafted \<times> 's wp_state) option" where
  "create_drafted env cl rq st =
     (let template = (\<lambda>tid descr slots.
            as_drafted (prop_create_from_template env (cl_tenant cl) (cl_user cl) tid (cq_slug rq) (cq_name rq) descr slots (cq_session rq) st))
      in if cq_slug rq = [] \<or> cq_name rq = [] then Some (DraftRefused ''slug_and_name_required'', st)
         else if cq_template rq \<noteq> [] then template (cq_template rq) (cq_descr rq) (cq_slots rq)
         else if cq_dsl rq \<noteq> [] then
           as_drafted (prop_create env (cl_tenant cl) (cl_user cl)
             \<lparr>pi_slug = cq_slug rq, pi_name = cq_name rq, pi_descr = cq_descr rq, pi_dsl = cq_dsl rq, pi_source = [],
              pi_template = [], pi_slots = [], pi_session = cq_session rq\<rparr> st)
         else if cq_message rq \<noteq> [] then
           (case classify_and_extract (cq_message rq) of
              ExtractPanic \<Rightarrow> Some (DraftPanic, st)
            | NoTemplate \<Rightarrow> Some (DraftRefused ''no_template_match'', st)
            | Matched tid slots \<Rightarrow> template tid (if cq_descr rq = [] then cq_message rq else cq_descr rq) slots)
         else Some (DraftRefused ''template_id_dsl_or_user_message_required'', st))"

text \<open>The request and the tool draft alike, where the request has slug, name and something to draft from.\<close>

lemma create_as_propose:
  assumes "cq_slug rq \<noteq> []" "cq_name rq \<noteq> []" "cq_session rq = None" "cq_template rq \<noteq> [] \<or> cq_dsl rq \<noteq> [] \<or> cq_message rq \<noteq> []"
  shows "create_drafted env c rq st =
    propose env (cl_tenant c) (cl_user c)
      \<lparr>po_slug = cq_slug rq, po_name = cq_name rq, po_descr = cq_descr rq, po_template = cq_template rq, po_slots = cq_slots rq,
       po_dsl = cq_dsl rq, po_message = cq_message rq\<rparr> st"
  using assms by (auto simp: create_drafted_def propose_def Let_def split: classified_message.splits)

datatype prop_reply =
    PropError nat string
  | PropOne nat wf_proposal string
  | PropMany "wf_proposal list"
  | PropGraph graph
  | PropPreview string string string string
  | PropNoContent

definition write_proposal_err :: "wp_err \<Rightarrow> prop_reply" where
  "write_proposal_err e =
     (case e of
        WpNotFound \<Rightarrow> PropError 404 ''not_found''
      | WpSlugPublished s \<Rightarrow> PropError 409 ''slug_published''
      | WpDryRunFailed \<Rightarrow> PropError 400 ''dry_run_failed''
      | WpInvalidState s \<Rightarrow> PropError 409 ''invalid_state''
      | WpErr (ErrSlugTaken s) \<Rightarrow> PropError 409 ''slug_taken''
      | WpErr _ \<Rightarrow> PropError 400 ''validate'')"

definition proposal_response :: "nat \<Rightarrow> wp_err + wf_proposal \<Rightarrow> prop_reply" where
  "proposal_response code r = (case r of Inl e \<Rightarrow> write_proposal_err e | Inr p \<Rightarrow> PropOne code p (proposal_summary p))"

text \<open>The recovery of the server answers a panic with 500.\<close>

definition create_reply :: "drafted \<Rightarrow> prop_reply" where
  "create_reply d =
     (case d of
        Drafted p \<Rightarrow> PropOne 201 p (proposal_summary p)
      | DraftFailed e \<Rightarrow> write_proposal_err e
      | DraftRefused code \<Rightarrow> PropError 400 code
      | DraftPanic \<Rightarrow> PropError 500 [])"

definition preview_template :: "(tpl_doc \<Rightarrow> string result) \<Rightarrow> string \<Rightarrow> render_input option \<Rightarrow> prop_reply" where
  "preview_template yaml tid body =
     (case template_get tid of
        Inl e \<Rightarrow> PropError 404 ''unknown_template''
      | Inr _ \<Rightarrow>
          (case body of
             None \<Rightarrow> PropError 400 ''invalid_body''
           | Some rq \<Rightarrow>
               (let slug = (if ri_slug rq = [] then ''preview-'' @ tid else ri_slug rq);
                    name = (if ri_name rq = [] then slug else ri_name rq)
                in case (if ri_slots rq = [] then example_slots tid else Inr (ri_slots rq)) of
                     Inl e \<Rightarrow> PropError 404 ''unknown_template''
                   | Inr slots \<Rightarrow>
                       (case render_template yaml tid \<lparr>ri_slug = slug, ri_name = name, ri_description = ri_description rq, ri_slots = slots\<rparr> of
                          Inl e \<Rightarrow> PropError 400 ''render_failed''
                        | Inr dsl \<Rightarrow> PropPreview tid slug name dsl))))"

definition proposal_graph :: "'s wp_env \<Rightarrow> uuid \<Rightarrow> uuid \<Rightarrow> 's wp_state \<Rightarrow> prop_reply" where
  "proposal_graph env tenant i st =
     (case wp_get (we_faults env ''read'') tenant i (ps_rows st) of
        Inl e \<Rightarrow> write_proposal_err e
      | Inr p \<Rightarrow>
          (case graph_from_yaml (se_unmarshal (we_svc env)) (wp_dsl p) of
             Inl e \<Rightarrow> PropError 400 ''parse''
           | Inr g \<Rightarrow> PropGraph g))"

text \<open>The query of a list: a status, and two numbers that are absent, not numbers, or read.\<close>

datatype query_number = Absent | Malformed | Number int

fun query_value :: "query_number \<Rightarrow> int option" where
  "query_value Absent = Some 0"
| "query_value Malformed = None"
| "query_value (Number n) = (if n < 0 then None else Some n)"

definition list_proposals :: "'s wp_env \<Rightarrow> uuid \<Rightarrow> string \<Rightarrow> query_number \<Rightarrow> query_number \<Rightarrow> 's wp_state \<Rightarrow> prop_reply" where
  "list_proposals env tenant status limit offset st =
     (if status \<noteq> [] \<and> \<not> valid_proposal_status status then PropError 400 ''invalid_status''
      else case query_value limit of
        None \<Rightarrow> PropError 400 ''invalid_limit''
      | Some n \<Rightarrow>
          (case query_value offset of
             None \<Rightarrow> PropError 400 ''invalid_offset''
           | Some k \<Rightarrow>
               (case wp_list (we_faults env ''list'') tenant status n k (ps_rows st) of
                  Inl e \<Rightarrow> PropError 500 ''internal''
                | Inr ps \<Rightarrow> PropMany ps)))"

datatype prop_req =
    ReqPreview string "render_input option"
  | ReqCreate "create_req option"
  | ReqGet "uuid option"
  | ReqGraph "uuid option"
  | ReqConfirm "uuid option"
  | ReqList string query_number query_number
  | ReqApprove "uuid option"
  | ReqReject "uuid option"

text \<open>The routes under \<open>/admin\<close> stand behind \<open>RequireAdmin\<close>.\<close>

fun admin_route :: "prop_req \<Rightarrow> bool" where
  "admin_route (ReqList _ _ _) = True"
| "admin_route (ReqApprove _) = True"
| "admin_route (ReqReject _) = True"
| "admin_route _ = False"

definition with_id :: "uuid option \<Rightarrow> (uuid \<Rightarrow> prop_reply \<times> 's wp_state) \<Rightarrow> 's wp_state \<Rightarrow> (prop_reply \<times> 's wp_state) option" where
  "with_id i f st = Some (case i of None \<Rightarrow> (PropError 400 ''invalid_id'', st) | Some i \<Rightarrow> f i)"

fun prop_route :: "'s wp_env \<Rightarrow> claims \<Rightarrow> prop_req \<Rightarrow> 's wp_state \<Rightarrow> (prop_reply \<times> 's wp_state) option" where
  "prop_route env cl (ReqPreview tid body) st = Some (preview_template (we_yaml env) tid body, st)"
| "prop_route env cl (ReqCreate body) st =
     (case body of
        None \<Rightarrow> Some (PropError 400 ''invalid_body'', st)
      | Some rq \<Rightarrow> map_option (\<lambda>(d, st1). (create_reply d, st1)) (create_drafted env cl rq st))"
| "prop_route env cl (ReqGet i) st =
     with_id i (\<lambda>i. (proposal_response 200 (wp_get (we_faults env ''read'') (cl_tenant cl) i (ps_rows st)), st)) st"
| "prop_route env cl (ReqGraph i) st = with_id i (\<lambda>i. (proposal_graph env (cl_tenant cl) i st, st)) st"
| "prop_route env cl (ReqConfirm i) st =
     with_id i (\<lambda>i. let (r, st1) = prop_confirm env (cl_tenant cl) (cl_user cl) i (cl_role cl = role_admin) st
                in (proposal_response 200 r, st1)) st"
| "prop_route env cl (ReqList status limit offset) st = Some (list_proposals env (cl_tenant cl) status limit offset st, st)"
| "prop_route env cl (ReqApprove i) st =
     with_id i (\<lambda>i. let (r, st1) = prop_approve env (cl_tenant cl) (cl_user cl) i st in (proposal_response 200 r, st1)) st"
| "prop_route env cl (ReqReject i) st =
     with_id i (\<lambda>i. let (r, st1) = prop_reject env (cl_tenant cl) (cl_user cl) i st
                in (case r of None \<Rightarrow> PropNoContent | Some e \<Rightarrow> write_proposal_err e, st1)) st"

definition prop_request :: "'s wp_env \<Rightarrow> claims option \<Rightarrow> prop_req \<Rightarrow> 's wp_state \<Rightarrow> (prop_reply \<times> 's wp_state) option" where
  "prop_request env cl rq st =
     (case (if admin_route rq then require_admin cl else None) of
        Some (HttpError code err) \<Rightarrow> Some (PropError code err, st)
      | None \<Rightarrow> (case cl of None \<Rightarrow> Some (PropError 401 ''unauthorized'', st) | Some cl \<Rightarrow> prop_route env cl rq st))"

end
