(* ===== verification/ProposalRuns.thy ===== *)
theory ProposalRuns
  imports ProposalTools WfPublish
begin

text \<open>
  What proposals may publish: an abstract approval board, and the requests and tools of
  \<open>src/internal/workflow/proposal_service.go\<close> as its moves. Calls are the requests of
  \<open>proposal_handler.go\<close> and the tools of \<open>tools_publish.go\<close>, by anybody, in any order. A dry run is taken to
  leave workflows and registered tools alone, which \<open>Invoke\<close> does where the tools it may call do.
\<close>

section \<open>Published rows\<close>

definition live :: "'s svc \<Rightarrow> wf_row set" where
  "live sv = set (filter wr_published (tb_workflows (sv_tables sv)))"

text \<open>The unique index on tenant and slug.\<close>

definition keys_unique :: "'s svc \<Rightarrow> bool" where
  "keys_unique sv \<longleftrightarrow> distinct (map (\<lambda>w. (wr_tenant w, wr_slug w)) (tb_workflows (sv_tables sv)))"

definition row_at :: "uuid \<Rightarrow> string \<Rightarrow> 's svc \<Rightarrow> wf_row option" where
  "row_at tenant slug sv = find (at_slug tenant slug) (tb_workflows (sv_tables sv))"

lemma rows_cong:
  assumes "tb_workflows (sv_tables a) = tb_workflows (sv_tables b)"
  shows "live a = live b" "keys_unique a = keys_unique b" "row_at te sl a = row_at te sl b"
  using assms by (simp_all add: live_def keys_unique_def row_at_def)

lemma rows_audit [simp]:
  "live (audit_admin te tg a sv) = live sv" "keys_unique (audit_admin te tg a sv) = keys_unique sv"
  "row_at t s (audit_admin te tg a sv) = row_at t s sv"
  by (simp_all add: live_def keys_unique_def row_at_def)

lemma row_at_Some: "row_at te sl sv = Some w \<Longrightarrow> w \<in> set (tb_workflows (sv_tables sv)) \<and> wr_tenant w = te \<and> wr_slug w = sl"
  unfolding row_at_def by (rule find_slug)

lemma row_unique:
  assumes "keys_unique sv" "row_at te sl sv = Some w" "v \<in> set (tb_workflows (sv_tables sv))" "at_slug te sl v"
  shows "v = w"
  using assms row_at_Some [OF assms(2)] by (auto simp: keys_unique_def distinct_map at_slug_def dest: inj_onD)

text \<open>Only the row at the slug can be live there.\<close>

lemma live_at:
  assumes "keys_unique sv" "row_at te sl sv = Some w" "\<not> wr_published w" "v \<in> live sv"
  shows "\<not> at_slug te sl v"
  using row_unique [OF assms(1,2)] assms(3,4) by (auto simp: live_def)

text \<open>A statement that rewrites the rows at a slug, keeping tenant and slug.\<close>

lemma map_slug_rows:
  assumes "\<And>w. wr_tenant (f w) = wr_tenant w \<and> wr_slug (f w) = wr_slug w"
  shows "keys_unique (sv\<lparr>sv_tables := map_slug te sl f tb\<rparr>) = keys_unique (sv\<lparr>sv_tables := tb\<rparr>)"
    and "row_at te sl (sv\<lparr>sv_tables := map_slug te sl f tb\<rparr>) = map_option f (row_at te sl (sv\<lparr>sv_tables := tb\<rparr>))"
proof -
  let ?k = "\<lambda>w. (wr_tenant w, wr_slug w)"
  have "map ?k (map (\<lambda>w. if at_slug te sl w then f w else w) ws) = map ?k ws" for ws
    by (induction ws) (auto simp: assms)
  then have "map ?k (tb_workflows (map_slug te sl f tb)) = map ?k (tb_workflows tb)"
    by (simp only: map_slug_workflows)
  then show "keys_unique (sv\<lparr>sv_tables := map_slug te sl f tb\<rparr>) = keys_unique (sv\<lparr>sv_tables := tb\<rparr>)"
    by (simp add: keys_unique_def)
  have keep: "at_slug te sl (f w) = at_slug te sl w" for w
    using assms by (simp add: at_slug_def)
  have "find (at_slug te sl) (map (\<lambda>w. if at_slug te sl w then f w else w) ws) = map_option f (find (at_slug te sl) ws)" for ws
    by (induction ws) (auto simp: keep)
  then show "row_at te sl (sv\<lparr>sv_tables := map_slug te sl f tb\<rparr>) = map_option f (row_at te sl (sv\<lparr>sv_tables := tb\<rparr>))"
    by (simp add: row_at_def map_slug_workflows)
qed

text \<open>What it does to the live rows, where the row there was not one.\<close>

lemma map_slug_live:
  assumes "keys_unique sv" "row_at te sl sv = Some w" "\<not> wr_published w"
  shows "live (sv\<lparr>sv_tables := map_slug te sl f (sv_tables sv)\<rparr>) = live sv \<union> (if wr_published (f w) then {f w} else {})"
proof -
  let ?ws = "tb_workflows (sv_tables sv)"
  have at: "w \<in> set ?ws" "at_slug te sl w"
    using row_at_Some [OF assms(2)] by (auto simp: at_slug_def)
  have "at_slug te sl u \<longleftrightarrow> u = w" if "u \<in> set ?ws" for u
    using row_unique [OF assms(1,2) that] at(2) by blast
  then have "set (map (\<lambda>u. if at_slug te sl u then f u else u) ?ws) = (\<lambda>u. if u = w then f w else u) ` set ?ws"
    unfolding set_map by (intro image_cong refl) simp
  also have "\<dots> = (set ?ws - {w}) \<union> {f w}"
    using at(1) by (auto simp: image_iff)
  finally show ?thesis
    using assms(3) by (auto simp: live_def map_slug_workflows)
qed

section \<open>The statements of a draft\<close>

text \<open>Published rows, tools and the index stay.\<close>

definition kept :: "'s svc \<Rightarrow> 's svc \<Rightarrow> bool" where
  "kept sv sv' \<longleftrightarrow> live sv' = live sv \<and> bus_view sv' = bus_view sv \<and> (keys_unique sv \<longrightarrow> keys_unique sv')"

lemma kept_refl [simp]: "kept sv sv"
  by (simp add: kept_def)

lemma kept_trans: "kept a b \<Longrightarrow> kept b c \<Longrightarrow> kept a c"
  by (simp add: kept_def)

lemma kept_audit [simp]: "kept sv (audit_admin te tg a sv') = kept sv sv'"
  by (simp add: kept_def fun_eq_iff)

lemma kept_same: "tb_workflows (sv_tables sv') = tb_workflows (sv_tables sv) \<Longrightarrow> bus_view sv' = bus_view sv \<Longrightarrow> kept sv sv'"
  using rows_cong [of sv' sv] by (simp add: kept_def)

definition drafted_row :: "string \<Rightarrow> string \<Rightarrow> string \<Rightarrow> wf_row \<Rightarrow> bool" where
  "drafted_row name descr dsl w \<longleftrightarrow> wr_name w = name \<and> wr_descr w = descr \<and> wr_dsl w = dsl \<and> \<not> wr_published w"

lemma find_append_none: "find P xs = None \<Longrightarrow> find P (xs @ [x]) = (if P x then Some x else None)"
  by (induction xs) (auto split: if_splits)

lemma create_draft:
  assumes "svc_create env fault i te slug name descr dsl sv = (r, sv')"
  shows "kept sv sv'" and "r = Inr w \<Longrightarrow> \<exists>w. row_at te slug sv' = Some w \<and> drafted_row name descr dsl w"
    and "r = Inl e \<Longrightarrow> sv' = sv"
proof -
  have cases: "(\<exists>e. r = Inl e) \<and> sv' = sv \<or>
    (\<exists>w. r = Inr w \<and> \<not> list_ex (at_slug te slug) (tb_workflows (sv_tables sv)) \<and> wr_tenant w = te \<and> wr_slug w = slug \<and> drafted_row name descr dsl w \<and>
       sv' = audit_admin te slug ''workflow.admin.create'' (sv\<lparr>sv_tables := (sv_tables sv)\<lparr>tb_workflows := tb_workflows (sv_tables sv) @ [w]\<rparr>\<rparr>))"
    using assms by (auto simp: svc_create_def repo_create_def drafted_row_def Let_def split: sum.splits option.splits if_splits)
  have new: "find (at_slug te slug) (tb_workflows (sv_tables sv)) = None" if "\<not> list_ex (at_slug te slug) (tb_workflows (sv_tables sv))"
    using that by (auto simp: find_None_iff list_ex_iff)
  show "kept sv sv'"
    using cases by (auto simp: kept_def live_def keys_unique_def drafted_row_def list_ex_iff at_slug_def fun_eq_iff) blast
  show "\<exists>w. row_at te slug sv' = Some w \<and> drafted_row name descr dsl w" if "r = Inr w"
    using cases that by (auto simp: row_at_def find_append_none [OF new] at_slug_def)
  show "r = Inl e \<Longrightarrow> sv' = sv"
    using cases by auto
qed

lemma disable_all_svc:
  assumes "disable_all_for_workflow fault te wid tb = (e, tb')"
  shows "tb_workflows (sv_tables (sv\<lparr>sv_tables := tb'\<rparr>)) = tb_workflows (sv_tables (sv\<lparr>sv_tables := tb\<rparr>))"
  using disable_all_workflows [OF assms] by simp

lemma update_draft:
  assumes "svc_update env fault te slug name descr dsl sv = (r, sv')" "row_at te slug sv = Some w0" "\<not> wr_published w0" "keys_unique sv"
  shows "kept sv sv' \<and> (\<forall>w. r = Inr w \<longrightarrow> (\<exists>w. row_at te slug sv' = Some w \<and> drafted_row name descr dsl w))"
proof -
  let ?f = "\<lambda>w. w\<lparr>wr_name := name, wr_descr := descr, wr_dsl := dsl, wr_version := wr_version w + 1, wr_published := False\<rparr>"
  let ?sv = "sv\<lparr>sv_tables := map_slug te slug ?f (sv_tables sv)\<rparr>"
  have rows: "keys_unique ?sv" "row_at te slug ?sv = Some (?f w0)" "live ?sv = live sv" "bus_view ?sv = bus_view sv"
    using map_slug_rows [where f = ?f and sv = sv and te = te and sl = slug and tb = "sv_tables sv"] map_slug_live [OF assms(4,2,3), where f = ?f] assms(2,4)
    by (simp_all add: fun_eq_iff)
  have prev: "repo_get fault te slug (sv_tables sv) = Inr p \<Longrightarrow> p = w0" for p
    using assms(2) by (auto simp: repo_get_def row_at_def split: option.splits)
  have "sv' = sv \<and> (\<exists>e. r = Inl e) \<or> tb_workflows (sv_tables sv') = tb_workflows (sv_tables ?sv) \<and> bus_view sv' = bus_view sv"
    using assms(1) prev assms(3)
    by (auto simp: svc_update_def repo_update_def Let_def fun_eq_iff split: sum.splits option.splits prod.splits dest!: disable_all_workflows) metis
  then show ?thesis
    using rows rows_cong [of sv' ?sv] by (auto simp: kept_def drafted_row_def)
qed

text \<open>A draft touches nothing that is published, and where it succeeds its row is the one at the slug.\<close>

lemma ensure_draft:
  assumes "ensure_draft_workflow env te slug name descr dsl sv = (e, sv')" "keys_unique sv"
  shows "kept sv sv' \<and> (e = None \<longrightarrow> (\<exists>w. row_at te slug sv' = Some w \<and> drafted_row name descr dsl w))"
proof -
  obtain r sv1 where create: "svc_create (we_svc env) (we_faults env ''create'') (we_workflow_id env) te slug name descr dsl sv = (r, sv1)"
    by (metis surj_pair)
  note made = create_draft [OF create]
  show ?thesis
  proof (cases r)
    case (Inr w)
    then show ?thesis
      using assms(1) create made(1,2) by (auto simp: ensure_draft_workflow_def)
  next
    case (Inl c)
    then have sv1: "sv1 = sv"
      using made(3) by simp
    show ?thesis
    proof (cases "(\<exists>s. c = ErrSlugTaken s) \<and> (\<exists>w. svc_get (we_faults env ''get'') te slug sv = Inr w)")
      case True
      then obtain s w where c: "c = ErrSlugTaken s" "svc_get (we_faults env ''get'') te slug sv = Inr w"
        by blast
      then have at: "row_at te slug sv = Some w"
        by (auto simp: svc_get_def repo_get_def row_at_def split: option.splits)
      obtain q sv2 where upd: "svc_update (we_svc env) (we_faults env ''update'') te slug name descr dsl sv = (q, sv2)"
        by (metis surj_pair)
      show ?thesis
        using assms(1) create Inl c sv1 upd update_draft [OF upd at _ assms(2)]
        by (cases "wr_published w"; cases q) (auto simp: ensure_draft_workflow_def)
    next
      case False
      then show ?thesis
        using assms(1) create Inl sv1 by (cases c) (auto simp: ensure_draft_workflow_def split: sum.splits)
    qed
  qed
qed

text \<open>Once its slug is live, nothing is drafted over a row.\<close>

lemma ensure_draft_live:
  assumes "ensure_draft_workflow env te slug name descr dsl sv = (e, sv')" "row_at te slug sv = Some w" "wr_published w"
  shows "sv' = sv \<and> e \<noteq> None"
proof -
  have "list_ex (at_slug te slug) (tb_workflows (sv_tables sv))"
    using row_at_Some [OF assms(2)] by (auto simp: list_ex_iff at_slug_def)
  moreover have "svc_get fault te slug sv = Inr v \<Longrightarrow> v = w" for fault v
    using assms(2) by (auto simp: svc_get_def repo_get_def row_at_def split: option.splits)
  ultimately show ?thesis
    using assms(1,3)
    by (auto simp: ensure_draft_workflow_def svc_create_def repo_create_def split: sum.splits option.splits svc_err.splits if_splits prod.splits)
qed

section \<open>Publishing\<close>

lemma register_tool_shape:
  assumes "register_tool env te w doc sv = (e, sv')"
  shows "sv_tables sv' = sv_tables sv \<and> (\<forall>n. n \<noteq> tool_name (wr_slug w) \<longrightarrow> bus_view sv' n = bus_view sv n) \<and>
    (bus_view sv' = bus_view sv \<or> (\<exists>t. bus_view sv' (tool_name (wr_slug w)) = Some t \<and> tl_impl t = WorkflowTool te (wr_slug w)))"
proof (cases "sv_bus sv")
  case None
  then show ?thesis
    using assms by (simp add: register_tool_def)
next
  case (Some b)
  show ?thesis
  proof (cases "schema_from_inputs (doc_inputs doc)")
    case (Inl c)
    then show ?thesis
      using assms Some by (simp add: register_tool_def)
  next
    case (Inr schema)
    let ?t = "workflow_tool te w doc schema" and ?b = "snd (bus_unregister (tool_name (wr_slug w)) b)"
    have t: "tl_name ?t = tool_name (wr_slug w)" "tl_impl ?t = WorkflowTool te (wr_slug w)"
      by (simp_all add: workflow_tool_def)
    obtain err b' where reg: "bus_register (se_lib env) ?t ?b = (err, b')"
      by (metis surj_pair)
    have sv': "sv' = sv\<lparr>sv_bus := Some b'\<rparr>"
      using assms Some Inr reg by (simp add: register_tool_def)
    have gone: "reg_get (tl_name ?t) (bus_reg ?b) = None"
      using tool_bus.unregister_visible [where n = "tool_name (wr_slug w)" and b = b and m = "tl_name ?t"] t(1) by simp
    have "reg_get (tl_name ?t) (bus_reg b') = Some ?t"
      using reg gone by (auto simp: bus_register_def bus_simps Let_def split: option.splits sum.splits)
    moreover have "reg_get n (bus_reg b') = reg_get n (bus_reg b)" if "n \<noteq> tl_name ?t" for n
      using tool_bus.swap_in_frame [where n = n and t = ?t and lib = "se_lib env" and b = b] that reg by (simp add: tool_bus.swap_in_def t(1))
    ultimately show ?thesis
      using Some t by (simp add: bus_view_def sv')
  qed
qed

text \<open>The tools after somebody of the tenant was at the name of a workflow.\<close>

definition retooled :: "uuid \<Rightarrow> string \<Rightarrow> (string \<Rightarrow> tool_impl tool option) \<Rightarrow> (string \<Rightarrow> tool_impl tool option) \<Rightarrow> bool" where
  "retooled tenant slug tools tools' \<longleftrightarrow>
     tools' = tools \<or>
     (\<forall>n. n \<noteq> tool_name slug \<longrightarrow> tools' n = tools n) \<and> (\<exists>t. tools' (tool_name slug) = Some t \<and> tl_impl t = WorkflowTool tenant slug)"

lemma publish_row:
  assumes "svc_publish env fault te slug sv = (e, sv')" "row_at te slug sv = Some w" "\<not> wr_published w" "keys_unique sv"
  shows "keys_unique sv' \<and> retooled te slug (bus_view sv) (bus_view sv') \<and>
    (live sv' = insert (w\<lparr>wr_published := True\<rparr>) (live sv) \<or> live sv' = live sv \<and> e \<noteq> None)"
proof -
  let ?f = "\<lambda>w. w\<lparr>wr_published := True\<rparr>"
  have loaded: "load_parsed env fault te slug sv = Inr (v, doc) \<Longrightarrow> v = w \<and> wr_slug v = slug" for v doc
    using assms(2) row_at_Some [OF assms(2)] by (auto simp: load_parsed_def on_ok_Inr_iff repo_get_def row_at_def split: option.splits)
  show ?thesis
  proof (cases "load_parsed env fault te slug sv")
    case (Inl c)
    then show ?thesis
      using assms(1,4) by (auto simp: svc_publish_def retooled_def)
  next
    case (Inr found)
    then obtain doc where load: "load_parsed env fault te slug sv = Inr (w, doc)"
      using loaded by (cases found) auto
    obtain r sv1 where reg: "register_tool env te w doc sv = (r, sv1)"
      by (metis surj_pair)
    note shape = register_tool_shape [OF reg]
    have tools: "retooled te slug (bus_view sv) (bus_view sv1)"
      using shape loaded [OF load] by (auto simp: retooled_def)
    have same: "keys_unique sv1" "live sv1 = live sv" "row_at te slug sv1 = Some w"
      using shape rows_cong [of sv1 sv] assms(2,4) by simp_all
    let ?sv = "sv1\<lparr>sv_tables := map_slug te slug ?f (sv_tables sv1)\<rparr>"
    have rows: "keys_unique ?sv" "live ?sv = insert (?f w) (live sv)"
      using map_slug_rows(1) [where f = ?f and sv = sv1 and te = te and sl = slug and tb = "sv_tables sv1"]
        map_slug_live [OF same(1,3) assms(3), where f = ?f] same by simp_all
    have after: "tb_workflows (sv_tables sv') = tb_workflows (sv_tables sv1) \<and> e \<noteq> None \<or> tb_workflows (sv_tables sv') = tb_workflows (sv_tables ?sv)"
      using assms(1) load reg
      by (auto simp: svc_publish_def repo_set_published_def split: option.splits prod.splits if_splits dest!: tb_workflows_sync)
    have "bus_view sv' = bus_view sv1"
      using assms(1) load reg by (auto simp: svc_publish_def fun_eq_iff split: option.splits prod.splits)
    then show ?thesis
      using after rows same tools rows_cong [of sv' sv1] rows_cong [of sv' ?sv] by auto
  qed
qed

section \<open>Drafts\<close>

definition fresh_draft :: "uuid \<Rightarrow> wf_proposal list \<Rightarrow> wf_proposal \<Rightarrow> bool" where
  "fresh_draft tenant rows p \<longleftrightarrow> wp_tenant p = tenant \<and> wp_status p = proposal_draft \<and> wp_id p \<notin> wp_id ` set rows"

definition drafted_in :: "uuid \<Rightarrow> 's wp_state \<Rightarrow> 's wp_state \<Rightarrow> bool" where
  "drafted_in tenant st st' \<longleftrightarrow> kept (ps_svc st) (ps_svc st') \<and>
     (ps_rows st' = ps_rows st \<or> (\<exists>p. ps_rows st' = ps_rows st @ [p] \<and> fresh_draft tenant (ps_rows st) p))"

lemma insert_rows: "wp_insert fault p rows = (r, rows') \<Longrightarrow> rows' = rows \<or> rows' = rows @ [p] \<and> wp_id p \<notin> wp_id ` set rows"
  by (auto simp: wp_insert_def split: option.splits if_splits)

lemma new_draft_fields:
  "wp_tenant (new_draft env te us inp slots dry) = te" "wp_status (new_draft env te us inp slots dry) = proposal_draft"
  by (simp_all add: new_draft_def)

lemma drafted_in_refl [simp]: "drafted_in te st st"
  by (simp add: drafted_in_def)

text \<open>What \<open>runDryRun\<close> relies on: invoked dry, a workflow changes no workflow and no registered tool.\<close>

locale dry_runner =
  fixes invoke :: "'s invoker"
  assumes dry_keeps: "invoke te us slug ins True sv = Some (r, sv') \<Longrightarrow>
      tb_workflows (sv_tables sv') = tb_workflows (sv_tables sv) \<and> bus_view sv' = bus_view sv"
begin

lemma run_keeps:
  assumes "we_invoke env = invoke" "run_dry_run env te us slug dsl sv = Some (dry, sv')"
  shows "kept sv sv'"
proof (cases "parse_doc (se_unmarshal (we_svc env)) dsl")
  case (Inl e)
  then show ?thesis
    using assms(2) by (simp add: run_dry_run_def)
next
  case (Inr doc)
  then obtain r sv1 where run: "invoke te us slug (default_inputs doc) True sv = Some (r, sv1)" and sv': "sv' = sv1"
    using assms by (auto simp: run_dry_run_def Let_def split: option.splits sum.splits prod.splits)
  show ?thesis
    using dry_keeps [OF run] by (auto simp: sv' intro: kept_same)
qed

lemma create_drafts:
  assumes "we_invoke env = invoke" "keys_unique (ps_svc st)" "prop_create env te us inp st = Some (r, st')"
  shows "drafted_in te st st'"
proof -
  obtain e sv1 where ens: "ensure_draft_workflow env te (pi_slug inp) (pi_name inp) (pi_descr inp) (pi_dsl inp) (ps_svc st) = (e, sv1)"
    by (metis surj_pair)
  note kept1 = ensure_draft [OF ens assms(2), THEN conjunct1]
  have "st' = st \<or> st' = st\<lparr>ps_svc := sv1\<rparr> \<or>
    (\<exists>dry sv2 slots q rows. run_dry_run env te us (pi_slug inp) (pi_dsl inp) sv1 = Some (dry, sv2) \<and>
       wp_insert (we_faults env ''insert'') (new_draft env te us inp slots dry) (ps_rows st) = (q, rows) \<and> ps_rows st' = rows \<and>
       (ps_svc st' = sv2 \<or> (\<exists>t a. ps_svc st' = audit_admin te t a sv2)))"
    using assms(3) ens by (fastforce simp: prop_create_def split: if_splits sum.splits option.splits prod.splits)
  then consider "st' = st" | "st' = st\<lparr>ps_svc := sv1\<rparr>" | dry sv2 slots q rows where
      "run_dry_run env te us (pi_slug inp) (pi_dsl inp) sv1 = Some (dry, sv2)"
      "wp_insert (we_faults env ''insert'') (new_draft env te us inp slots dry) (ps_rows st) = (q, rows)" "ps_rows st' = rows"
      "ps_svc st' = sv2 \<or> (\<exists>t a. ps_svc st' = audit_admin te t a sv2)"
    by blast
  then show ?thesis
  proof cases
    case 3
    have "kept (ps_svc st) (ps_svc st')"
      using kept_trans [OF kept1 run_keeps [OF assms(1) 3(1)]] 3(4) by auto
    moreover have "ps_rows st' = ps_rows st \<or> (\<exists>p. ps_rows st' = ps_rows st @ [p] \<and> fresh_draft te (ps_rows st) p)"
      using insert_rows [OF 3(2)] 3(3) by (auto simp: fresh_draft_def new_draft_fields)
    ultimately show ?thesis
      by (simp add: drafted_in_def)
  qed (use kept1 in \<open>simp_all add: drafted_in_def\<close>)
qed

lemma template_drafts:
  assumes "we_invoke env = invoke" "keys_unique (ps_svc st)"
    "prop_create_from_template env te us tid slug name descr slots session st = Some (r, st')"
  shows "drafted_in te st st'"
  using assms(3) create_drafts [OF assms(1,2)] by (auto simp: prop_create_from_template_def split: sum.splits)

lemmas drafts = create_drafts template_drafts

lemma request_drafts:
  assumes "we_invoke env = invoke" "keys_unique (ps_svc st)" "create_drafted env c rq st = Some (d, st')"
  shows "drafted_in (cl_tenant c) st st'"
  using assms(3) drafts [OF assms(1,2)]
  by (auto simp: create_drafted_def as_drafted_def Let_def split: if_splits classified_message.splits)

lemma propose_drafts:
  assumes "we_invoke env = invoke" "keys_unique (ps_svc st)" "propose env te us inp st = Some (d, st')"
  shows "drafted_in te st st'"
  using assms(3) drafts [OF assms(1,2)]
  by (auto simp: propose_def as_drafted_def split: if_splits classified_message.splits)

end

text \<open>Tools that leave the workflow table and the registered tools alone, whatever else they do.\<close>

definition read_only :: "('s svc \<Rightarrow> 's svc) \<Rightarrow> 's svc \<Rightarrow> 's svc" where
  "read_only tools sv =
     (let sv' = tools sv
      in sv'\<lparr>sv_tables := (sv_tables sv')\<lparr>tb_workflows := tb_workflows (sv_tables sv)\<rparr>, sv_bus := sv_bus sv\<rparr>)"

lemma read_only_keeps:
  "tb_workflows (sv_tables (read_only tools sv)) = tb_workflows (sv_tables sv)" "bus_view (read_only tools sv) = bus_view sv"
  by (simp_all add: read_only_def Let_def bus_view_def fun_eq_iff)

lemma invoke_keeps:
  assumes "svc_invoke env fault i started dur events sched parent (read_only tools) te us slug ins dry sv = Some (r, sv')"
  shows "tb_workflows (sv_tables sv') = tb_workflows (sv_tables sv)" "bus_view sv' = bus_view sv"
proof -
  have "tb_workflows (sv_tables sv') = tb_workflows (sv_tables sv) \<and> bus_view sv' = bus_view sv"
    using assms
    by (auto simp: svc_invoke_def repo_create_run_def repo_finish_run_def Let_def read_only_keeps fun_eq_iff
        split: sum.splits option.splits prod.splits if_splits)
  then show "tb_workflows (sv_tables sv') = tb_workflows (sv_tables sv)" "bus_view sv' = bus_view sv"
    by simp_all
qed

interpretation service_run: dry_runner "svc_invoke env fault i started dur events sched parent (read_only tools)"
  for env fault i started dur events sched parent tools
  by unfold_locales (simp add: invoke_keeps)

section \<open>The approval board\<close>

text \<open>
  The contract: members file drafts and submit the ones that passed their dry run, administrators
  reject and publish. A publication that breaks off leaves its tool or its live row but not its mark.
\<close>

record board =
  bd_live :: "wf_row set"
  bd_rows :: "wf_proposal list"
  bd_tools :: "string \<Rightarrow> tool_impl tool option"

definition board_of :: "'s wp_state \<Rightarrow> board" where
  "board_of st = \<lparr>bd_live = live (ps_svc st), bd_rows = ps_rows st, bd_tools = bus_view (ps_svc st)\<rparr>"

definition open_proposal :: "wf_proposal \<Rightarrow> bool" where
  "open_proposal p \<longleftrightarrow> wp_status p = proposal_draft \<or> wp_status p = proposal_pending"

definition published_form :: "wf_proposal \<Rightarrow> wf_row \<Rightarrow> bool" where
  "published_form p w \<longleftrightarrow> wr_published w \<and> wr_tenant w = wp_tenant p \<and> wr_slug w = wp_slug p \<and> wr_name w = wp_name p \<and>
     wr_descr w = wp_descr p \<and> wr_dsl w = wp_dsl p"

definition decide_rows :: "wf_proposal \<Rightarrow> string \<Rightarrow> uuid option \<Rightarrow> int option \<Rightarrow> wf_proposal list \<Rightarrow> wf_proposal list" where
  "decide_rows p status who at_time =
     map_rows (at_id (wp_tenant p) (wp_id p)) (\<lambda>q. q\<lparr>wp_status := status, wp_decided_by := who, wp_published_at := at_time\<rparr>)"

text \<open>A caller may move on a proposal of its tenant that it names and that is open.\<close>

definition may_move :: "claims option \<Rightarrow> uuid option \<Rightarrow> bool \<Rightarrow> wf_proposal \<Rightarrow> wf_proposal list \<Rightarrow> bool" where
  "may_move cl target admin p rows \<longleftrightarrow>
     p \<in> set rows \<and> open_proposal p \<and> target = Some (wp_id p) \<and>
     (case cl of None \<Rightarrow> False | Some c \<Rightarrow> cl_tenant c = wp_tenant p \<and> (admin \<longrightarrow> cl_role c = role_admin))"

inductive board_step :: "claims option \<Rightarrow> uuid option \<Rightarrow> board \<Rightarrow> board \<Rightarrow> bool" for cl target where
  board_idle: "board_step cl target b b"
| board_draft: "cl = Some c \<Longrightarrow> fresh_draft (cl_tenant c) (bd_rows b) p \<Longrightarrow> board_step cl target b (b\<lparr>bd_rows := bd_rows b @ [p]\<rparr>)"
| board_submit: "may_move cl target False p (bd_rows b) \<Longrightarrow> wp_dry_ok p \<Longrightarrow>
    board_step cl target b (b\<lparr>bd_rows := decide_rows p proposal_pending who None (bd_rows b)\<rparr>)"
| board_reject: "may_move cl target True p (bd_rows b) \<Longrightarrow>
    board_step cl target b (b\<lparr>bd_rows := decide_rows p proposal_rejected who None (bd_rows b)\<rparr>)"
| board_publish: "may_move cl target True p (bd_rows b) \<Longrightarrow> wp_dry_ok p \<Longrightarrow>
    \<forall>v \<in> bd_live b. \<not> at_slug (wp_tenant p) (wp_slug p) v \<Longrightarrow> published_form p w \<Longrightarrow>
    retooled (wp_tenant p) (wp_slug p) (bd_tools b) tools \<Longrightarrow>
    board_step cl target b \<lparr>bd_live = insert w (bd_live b), bd_rows = decide_rows p proposal_published who now (bd_rows b), bd_tools = tools\<rparr>"
| board_break_off: "may_move cl target True p (bd_rows b) \<Longrightarrow> wp_dry_ok p \<Longrightarrow>
    \<forall>v \<in> bd_live b. \<not> at_slug (wp_tenant p) (wp_slug p) v \<Longrightarrow> published_form p w \<Longrightarrow>
    retooled (wp_tenant p) (wp_slug p) (bd_tools b) tools \<Longrightarrow> rows' = bd_live b \<or> rows' = insert w (bd_live b) \<Longrightarrow>
    board_step cl target b \<lparr>bd_live = rows', bd_rows = bd_rows b, bd_tools = tools\<rparr>"

section \<open>The service on the board\<close>

lemma set_status_rows:
  assumes "wp_set_status fault te i status who now rows = (e, rows')" "at_id te i p"
  shows "e \<noteq> None \<and> rows' = rows \<or>
    e = None \<and> rows' = decide_rows p status who (if status = proposal_published then Some now else None) rows"
  using assms by (auto simp: wp_set_status_def decide_rows_def at_id_def split: option.splits if_splits)

lemma get_row: "wp_get fault te i rows = Inr p \<Longrightarrow> p \<in> set rows \<and> at_id te i p"
  by (auto simp: wp_get_def find_Some_iff split: option.splits)

lemma board_kept: "kept (ps_svc st) (ps_svc st') \<Longrightarrow> ps_rows st' = ps_rows st \<Longrightarrow> board_of st' = board_of st"
  by (simp add: board_of_def kept_def)

text \<open>What a call leaves: a move of the board, and the index.\<close>

definition on_board :: "claims option \<Rightarrow> uuid option \<Rightarrow> 's wp_state \<Rightarrow> 's wp_state \<Rightarrow> bool" where
  "on_board cl target st st' \<longleftrightarrow> board_step cl target (board_of st) (board_of st') \<and> keys_unique (ps_svc st')"

lemma on_board_refl: "keys_unique (ps_svc st) \<Longrightarrow> on_board cl target st st"
  by (simp add: on_board_def board_idle)

lemma on_board_kept: "keys_unique (ps_svc st) \<Longrightarrow> kept (ps_svc st) (ps_svc st') \<Longrightarrow> ps_rows st' = ps_rows st \<Longrightarrow> on_board cl target st st'"
  by (simp add: on_board_def board_idle board_kept) (simp add: kept_def)

lemma on_board_drafted:
  assumes "keys_unique (ps_svc st)" "drafted_in (cl_tenant c) st st'"
  shows "on_board (Some c) target st st'"
proof (cases "ps_rows st' = ps_rows st")
  case True
  then show ?thesis
    using assms by (auto simp: drafted_in_def intro: on_board_kept)
next
  case False
  then obtain p where p: "ps_rows st' = ps_rows st @ [p]" "fresh_draft (cl_tenant c) (ps_rows st) p" "kept (ps_svc st) (ps_svc st')"
    using assms(2) by (auto simp: drafted_in_def)
  then have "board_of st' = (board_of st)\<lparr>bd_rows := bd_rows (board_of st) @ [p]\<rparr>"
    by (simp add: board_of_def kept_def)
  then show ?thesis
    using p assms(1) board_draft [of "Some c" c "board_of st" p target] by (simp add: on_board_def board_of_def kept_def)
qed

lemma on_board_publish:
  assumes "keys_unique (ps_svc st)" "may_move cl (Some i) True p (ps_rows st)" "wp_dry_ok p" "at_id te i p"
    "publish_proposal env te who p st = (e, st')"
  shows "on_board cl (Some i) st st'"
proof -
  have te: "wp_tenant p = te" "wp_id p = i"
    using assms(4) by (simp_all add: at_id_def)
  obtain e1 sv1 where ens: "ensure_draft_workflow env te (wp_slug p) (wp_name p) (wp_descr p) (wp_dsl p) (ps_svc st) = (e1, sv1)"
    by (metis surj_pair)
  note draft = ensure_draft [OF ens assms(1)]
  show ?thesis
  proof (cases e1)
    case (Some c)
    then have "st' = st\<lparr>ps_svc := sv1\<rparr>"
      using assms(5) ens by (simp add: publish_proposal_def)
    then show ?thesis
      using draft assms(1) by (auto intro: on_board_kept)
  next
    case None
    then obtain w where w: "row_at te (wp_slug p) sv1 = Some w" "drafted_row (wp_name p) (wp_descr p) (wp_dsl p) w" and kept: "kept (ps_svc st) sv1"
      using draft by blast
    have unpub: "\<not> wr_published w" and keys: "keys_unique sv1" and same: "live sv1 = live (ps_svc st)" "bus_view sv1 = bus_view (ps_svc st)"
      using w(2) kept assms(1) by (simp_all add: drafted_row_def kept_def)
    let ?w = "w\<lparr>wr_published := True\<rparr>"
    have form: "published_form p ?w"
      using w row_at_Some [OF w(1)] te by (auto simp: published_form_def drafted_row_def)
    have free: "\<forall>v \<in> live (ps_svc st). \<not> at_slug te (wp_slug p) v"
      using live_at [OF keys w(1) unpub] same by auto
    obtain e2 sv2 where pub: "svc_publish (we_svc env) (we_faults env ''publish'') te (wp_slug p) sv1 = (e2, sv2)"
      by (metis surj_pair)
    note made = publish_row [OF pub w(1) unpub keys]
    obtain e3 rows where set: "wp_set_status (we_faults env ''status'') te (wp_id p) proposal_published (Some who) (we_now env) (ps_rows st) = (e3, rows)"
      by (metis surj_pair)
    have st': "ps_rows st' = (if e2 = None \<and> e3 = None then rows else ps_rows st) \<and> live (ps_svc st') = live sv2 \<and>
        bus_view (ps_svc st') = bus_view sv2 \<and> keys_unique (ps_svc st') = keys_unique sv2"
      using assms(5) ens None pub set set_status_rows [OF set, of p] assms(4) te
      by (cases e2; cases e3) (auto simp: publish_proposal_def fun_eq_iff)
    have step: "retooled te (wp_slug p) (bd_tools (board_of st)) (bus_view (ps_svc st'))" "bd_rows (board_of st) = ps_rows st"
      "bd_live (board_of st) = live (ps_svc st)"
      using made st' same by (simp_all add: board_of_def)
    have "board_step cl (Some i) (board_of st) (board_of st')"
    proof (cases "e2 = None \<and> e3 = None")
      case True
      then have "board_of st' = \<lparr>bd_live = insert ?w (bd_live (board_of st)),
          bd_rows = decide_rows p proposal_published (Some who) (Some (we_now env)) (bd_rows (board_of st)), bd_tools = bus_view (ps_svc st')\<rparr>"
        using made st' same set_status_rows [OF set, of p] assms(4) te by (auto simp: board_of_def)
      then show ?thesis
        using board_publish [of cl "Some i" p "board_of st" ?w "bus_view (ps_svc st')"] assms(2,3) free form step te by simp
    next
      case False
      then have "board_of st' = \<lparr>bd_live = live sv2, bd_rows = bd_rows (board_of st), bd_tools = bus_view (ps_svc st')\<rparr>"
        using st' by (auto simp: board_of_def)
      moreover have "live sv2 = bd_live (board_of st) \<or> live sv2 = insert ?w (bd_live (board_of st))"
        using made same by (auto simp: board_of_def)
      ultimately show ?thesis
        using board_break_off [of cl "Some i" p "board_of st" ?w "bus_view (ps_svc st')" "live sv2"] assms(2,3) free form step te by simp
    qed
    then show ?thesis
      using made st' by (simp add: on_board_def)
  qed
qed

lemma on_board_decide:
  assumes "keys_unique (ps_svc st)" "ps_rows st' = decide_rows p status who None (ps_rows st)" "kept (ps_svc st) (ps_svc st')"
    "may_move cl target False p (ps_rows st) \<and> wp_dry_ok p \<and> status = proposal_pending \<or>
     may_move cl target True p (ps_rows st) \<and> status = proposal_rejected"
  shows "on_board cl target st st'"
proof -
  have "board_of st' = (board_of st)\<lparr>bd_rows := decide_rows p status who None (bd_rows (board_of st))\<rparr>" "bd_rows (board_of st) = ps_rows st"
    using assms(2,3) by (simp_all add: board_of_def kept_def)
  then show ?thesis
    using assms board_submit [of cl target p "board_of st" who] board_reject [of cl target p "board_of st" who]
    by (auto simp: on_board_def kept_def)
qed

lemma publish_and_read_state: "snd (publish_and_read env te who p i st) = snd (publish_proposal env te who p st)"
  by (simp add: publish_and_read_def split: prod.splits option.splits)

lemma on_board_confirm:
  assumes "keys_unique (ps_svc st)" "prop_confirm env te us i adm st = (r, st')" "cl_tenant c = te" "adm \<Longrightarrow> cl_role c = role_admin"
  shows "on_board (Some c) (Some i) st st'"
proof (cases "wp_get (we_faults env ''read'') te i (ps_rows st)")
  case (Inl e)
  then show ?thesis
    using assms(1,2) by (simp add: prop_confirm_def on_board_refl)
next
  case (Inr p)
  note p = get_row [OF Inr]
  show ?thesis
  proof (cases "open_proposal p \<and> wp_dry_ok p")
    case False
    then have "st' = st"
      using assms(2) Inr by (auto simp: prop_confirm_def open_proposal_def split: if_splits)
    then show ?thesis
      by (simp add: assms(1) on_board_refl)
  next
    case ready: True
    then have may: "may_move (Some c) (Some i) adm p (ps_rows st)"
      using p assms(3,4) by (auto simp: may_move_def at_id_def)
    show ?thesis
    proof (cases adm)
      case True
      then have "st' = snd (publish_proposal env te us p st)"
        using assms(2) Inr ready publish_and_read_state [of env te us p i st] by (auto simp: prop_confirm_def open_proposal_def)
      then show ?thesis
        using on_board_publish [OF assms(1) _ _ _ surjective_pairing] may True ready p by simp
    next
      case False
      obtain e rows where set: "wp_set_status (we_faults env ''status'') te i proposal_pending (Some us) (we_now env) (ps_rows st) = (e, rows)"
        by (metis surj_pair)
      have st': "ps_rows st' = rows \<and> kept (ps_svc st) (ps_svc st')"
        using assms(2) Inr ready False set by (cases e) (auto simp: prop_confirm_def open_proposal_def)
      have "rows = ps_rows st \<or> rows = decide_rows p proposal_pending (Some us) None (ps_rows st)"
        using set_status_rows [OF set, of p] p by (auto simp: proposal_statuses)
      then show ?thesis
        using st' may False ready on_board_kept [OF assms(1)] on_board_decide [OF assms(1), of st' p proposal_pending "Some us"] by auto
    qed
  qed
qed

lemma on_board_approve:
  assumes "keys_unique (ps_svc st)" "prop_approve env te us i st = (r, st')" "cl_tenant c = te" "cl_role c = role_admin"
  shows "on_board (Some c) (Some i) st st'"
proof (cases "\<exists>p. wp_get (we_faults env ''read'') te i (ps_rows st) = Inr p \<and> wp_status p = proposal_pending \<and> wp_dry_ok p")
  case True
  then obtain p where p: "wp_get (we_faults env ''read'') te i (ps_rows st) = Inr p" "wp_status p = proposal_pending" "wp_dry_ok p"
    by blast
  note found = get_row [OF p(1)]
  have "may_move (Some c) (Some i) True p (ps_rows st)"
    using found p(2) assms(3,4) by (auto simp: may_move_def open_proposal_def at_id_def)
  moreover have "st' = snd (publish_proposal env te us p st)"
    using assms(2) p publish_and_read_state [of env te us p i st] by (auto simp: prop_approve_def)
  ultimately show ?thesis
    using on_board_publish [OF assms(1) _ p(3) _ surjective_pairing] found by simp
next
  case False
  then have "st' = st"
    using assms(2) by (auto simp: prop_approve_def split: sum.splits if_splits)
  then show ?thesis
    by (simp add: assms(1) on_board_refl)
qed

lemma on_board_reject:
  assumes "keys_unique (ps_svc st)" "prop_reject env te us i st = (r, st')" "cl_tenant c = te" "cl_role c = role_admin"
  shows "on_board (Some c) (Some i) st st'"
proof (cases "\<exists>p. wp_get (we_faults env ''read'') te i (ps_rows st) = Inr p \<and> open_proposal p")
  case True
  then obtain p where p: "wp_get (we_faults env ''read'') te i (ps_rows st) = Inr p" "open_proposal p"
    by blast
  note found = get_row [OF p(1)]
  have may: "may_move (Some c) (Some i) True p (ps_rows st)"
    using found p(2) assms(3,4) by (auto simp: may_move_def at_id_def)
  obtain e rows where set: "wp_set_status (we_faults env ''status'') te i proposal_rejected (Some us) (we_now env) (ps_rows st) = (e, rows)"
    by (metis surj_pair)
  have st': "ps_rows st' = rows \<and> kept (ps_svc st) (ps_svc st')"
    using assms(2) p set by (cases e) (auto simp: prop_reject_def open_proposal_def)
  have "rows = ps_rows st \<or> rows = decide_rows p proposal_rejected (Some us) None (ps_rows st)"
    using set_status_rows [OF set, of p] found by (auto simp: proposal_statuses)
  then show ?thesis
    using st' may on_board_kept [OF assms(1)] on_board_decide [OF assms(1), of st' p proposal_rejected "Some us"] by auto
next
  case False
  then have "st' = st"
    using assms(2) by (auto simp: prop_reject_def open_proposal_def split: sum.splits if_splits)
  then show ?thesis
    by (simp add: assms(1) on_board_refl)
qed

section \<open>Calls\<close>

text \<open>A call of anybody; the reply is left aside. \<open>None\<close>: its dry run has not returned.\<close>

datatype prop_call =
    ByRequest "claims option" prop_req
  | ByPropose "claims option" uuid uuid "propose_input result"
  | ByPublish "claims option" uuid uuid "string result"

fun call_claims :: "prop_call \<Rightarrow> claims option" where
  "call_claims (ByRequest cl rq) = cl"
| "call_claims (ByPropose cl te us input) = cl"
| "call_claims (ByPublish cl te us input) = cl"

text \<open>The proposal a call is to move.\<close>

fun call_target :: "(string \<Rightarrow> uuid option) \<Rightarrow> prop_call \<Rightarrow> uuid option" where
  "call_target uuid_of (ByRequest cl (ReqConfirm i)) = i"
| "call_target uuid_of (ByRequest cl (ReqApprove i)) = i"
| "call_target uuid_of (ByRequest cl (ReqReject i)) = i"
| "call_target uuid_of (ByPublish cl te us (Inr text)) = uuid_of text"
| "call_target uuid_of _ = None"

fun call_state :: "(string \<Rightarrow> uuid option) \<Rightarrow> 's wp_env \<Rightarrow> prop_call \<Rightarrow> 's wp_state \<Rightarrow> 's wp_state option" where
  "call_state uuid_of env (ByRequest cl rq) st = map_option snd (prop_request env cl rq st)"
| "call_state uuid_of env (ByPropose cl te us input) st = map_option snd (propose_tool env cl te us input st)"
| "call_state uuid_of env (ByPublish cl te us input) st = Some (snd (publish_tool env uuid_of cl te us input st))"

text \<open>The \<open>Invoke\<close> of the model, with tools that only read.\<close>

record 's dry_params =
  dp_fault :: faults
  dp_run :: uuid
  dp_started :: int
  dp_duration :: int
  dp_sched :: schedule
  dp_parent :: "ctx_err option"
  dp_tools :: "'s svc \<Rightarrow> 's svc"

definition serving :: "'s wp_env \<Rightarrow> 's dry_params \<Rightarrow> 's wp_env" where
  "serving env d = env\<lparr>we_invoke :=
     svc_invoke (we_svc env) (dp_fault d) (dp_run d) (dp_started d) (dp_duration d) False (dp_sched d) (dp_parent d) (read_only (dp_tools d))\<rparr>"

lemma serving_invoke: "we_invoke (serving env d) =
    svc_invoke (we_svc env) (dp_fault d) (dp_run d) (dp_started d) (dp_duration d) False (dp_sched d) (dp_parent d) (read_only (dp_tools d))"
  by (simp add: serving_def)

lemmas served_drafts = service_run.request_drafts [OF serving_invoke] service_run.propose_drafts [OF serving_invoke]

lemma on_board_route:
  assumes "keys_unique (ps_svc st)" "prop_route (serving env d) c rq st = Some (r, st')" "admin_route rq \<Longrightarrow> cl_role c = role_admin"
  shows "on_board (Some c) (call_target uuid_of (ByRequest (Some c) rq)) st st'"
proof (cases rq)
  case (ReqCreate body)
  then have "st' = st \<or> drafted_in (cl_tenant c) st st'"
    using assms(2) served_drafts(1) [OF assms(1)] by (auto split: option.splits)
  then show ?thesis
    using assms(1) on_board_refl on_board_drafted by auto
next
  case (ReqConfirm i)
  then show ?thesis
    using assms(1,2) on_board_confirm [OF assms(1), of "serving env d" "cl_tenant c" "cl_user c" _ "cl_role c = role_admin" _ st' c]
    by (auto simp: with_id_def on_board_refl split: option.splits prod.splits)
next
  case (ReqApprove i)
  then show ?thesis
    using assms on_board_approve [OF assms(1), of "serving env d" "cl_tenant c" "cl_user c" _ _ st' c]
    by (auto simp: with_id_def on_board_refl split: option.splits prod.splits)
next
  case (ReqReject i)
  then show ?thesis
    using assms on_board_reject [OF assms(1), of "serving env d" "cl_tenant c" "cl_user c" _ _ st' c]
    by (auto simp: with_id_def on_board_refl split: option.splits prod.splits)
qed (use assms(1,2) in \<open>auto simp: with_id_def on_board_refl split: option.splits\<close>)

lemma call_on_board:
  assumes "keys_unique (ps_svc st)" "call_state uuid_of (serving env d) call st = Some st'"
  shows "on_board (call_claims call) (call_target uuid_of call) st st'"
proof (cases call)
  case (ByRequest cl rq)
  then obtain r where rq: "prop_request (serving env d) cl rq st = Some (r, st')"
    using assms(2) by auto
  show ?thesis
  proof (cases "\<exists>c. cl = Some c \<and> (admin_route rq \<longrightarrow> cl_role c = role_admin)")
    case True
    then obtain c where c: "cl = Some c" "admin_route rq \<Longrightarrow> cl_role c = role_admin"
      by blast
    then have "prop_route (serving env d) c rq st = Some (r, st')"
      using rq by (auto simp: prop_request_def require_admin_def split: if_splits)
    then show ?thesis
      using on_board_route [OF assms(1) _ c(2)] by (simp add: ByRequest c(1))
  next
    case False
    then have "st' = st"
      using rq by (auto simp: prop_request_def require_admin_def split: if_splits option.splits)
    then show ?thesis
      by (simp add: assms(1) on_board_refl)
  qed
next
  case (ByPropose cl te us input)
  then obtain r where tool: "propose_tool (serving env d) cl te us input st = Some (r, st')"
    using assms(2) by auto
  show ?thesis
  proof (cases "\<exists>c inp. cl = Some c \<and> cl_tenant c = te \<and> input = Inr inp")
    case True
    then have "\<exists>c. cl = Some c \<and> drafted_in (cl_tenant c) st st'"
      using tool served_drafts(2) [OF assms(1)] by (auto simp: propose_tool_def require_auth_ctx_def)
    then show ?thesis
      using on_board_drafted [OF assms(1)] by (auto simp: ByPropose)
  next
    case False
    then have "st' = st"
      using tool by (cases input) (auto simp: propose_tool_def require_auth_ctx_def split: option.splits if_splits)
    then show ?thesis
      by (simp add: assms(1) on_board_refl)
  qed
next
  case (ByPublish cl te us input)
  show ?thesis
  proof (cases "\<exists>c tx i. cl = Some c \<and> cl_tenant c = te \<and> cl_role c = role_admin \<and> input = Inr tx \<and> uuid_of tx = Some i")
    case True
    then obtain c tx i where c: "cl = Some c" "cl_tenant c = te" "cl_role c = role_admin" "input = Inr tx" "uuid_of tx = Some i"
      by blast
    have "st' = snd (prop_confirm (serving env d) te us i True st)"
      using assms(2) c by (auto simp: ByPublish publish_tool_def require_admin_ctx_def split: prod.splits sum.splits)
    then show ?thesis
      using on_board_confirm [OF assms(1), of "serving env d" te us i True "fst (prop_confirm (serving env d) te us i True st)" st' c] c
      by (simp add: ByPublish)
  next
    case False
    then have "st' = st"
      using assms(2) by (cases input) (auto simp: ByPublish publish_tool_def require_admin_ctx_def split: option.splits if_splits)
    then show ?thesis
      by (simp add: assms(1) on_board_refl)
  qed
qed

section \<open>Histories\<close>

fun prop_calls ::
  "(string \<Rightarrow> uuid option) \<Rightarrow> ('s wp_env \<times> 's dry_params \<times> prop_call) list \<Rightarrow> 's wp_state \<Rightarrow> 's wp_state option" where
  "prop_calls uuid_of [] st = Some st"
| "prop_calls uuid_of ((env, d, call) # hs) st =
     (case call_state uuid_of (serving env d) call st of
        None \<Rightarrow> None
      | Some st1 \<Rightarrow> prop_calls uuid_of hs st1)"

text \<open>An administrator of the tenant named the proposal.\<close>

definition names :: "(string \<Rightarrow> uuid option) \<Rightarrow> prop_call \<Rightarrow> uuid \<Rightarrow> uuid \<Rightarrow> bool" where
  "names uuid_of call tenant i \<longleftrightarrow>
     call_target uuid_of call = Some i \<and>
     (case call_claims call of None \<Rightarrow> False | Some c \<Rightarrow> cl_role c = role_admin \<and> cl_tenant c = tenant)"

definition asked :: "(string \<Rightarrow> uuid option) \<Rightarrow> ('s wp_env \<times> 's dry_params \<times> prop_call) list \<Rightarrow> uuid \<Rightarrow> uuid \<Rightarrow> bool" where
  "asked uuid_of hs tenant i \<longleftrightarrow> list_ex (\<lambda>(env, d, call). names uuid_of call tenant i) hs"

text \<open>What may become of a proposal: its decision, while it is open.\<close>

definition undecided :: "wf_proposal \<Rightarrow> wf_proposal" where
  "undecided p = p\<lparr>wp_status := [], wp_decided_by := None, wp_published_at := None\<rparr>"

definition follows :: "wf_proposal \<Rightarrow> wf_proposal \<Rightarrow> bool" where
  "follows p q \<longleftrightarrow> undecided q = undecided p \<and> (\<not> open_proposal p \<longrightarrow> q = p)"

lemma undecided_update [simp]:
  "undecided (p\<lparr>wp_status := s, wp_decided_by := d, wp_published_at := t\<rparr>) = undecided p"
  by (simp add: undecided_def)

lemma undecided_fields:
  assumes "undecided q = undecided p"
  shows "wp_id q = wp_id p" "wp_tenant q = wp_tenant p" "wp_dry_ok q = wp_dry_ok p" "wp_slug q = wp_slug p" "published_form q = published_form p"
  using assms by (cases p; cases q; simp add: undecided_def published_form_def fun_eq_iff)+

lemma follows_refl [simp]: "follows p p"
  by (simp add: follows_def)

lemma follows_trans: "follows p q \<Longrightarrow> follows q r \<Longrightarrow> follows p r"
  by (auto simp: follows_def)

lemma follows_fields:
  assumes "follows p q"
  shows "wp_id q = wp_id p" "wp_tenant q = wp_tenant p" "wp_dry_ok q = wp_dry_ok p" "wp_slug q = wp_slug p" "published_form q = published_form p"
  using undecided_fields assms unfolding follows_def by blast+

lemma find_id: "distinct (map wp_id rows) \<Longrightarrow> p \<in> set rows \<Longrightarrow> q \<in> set rows \<Longrightarrow> wp_id p = wp_id q \<Longrightarrow> p = q"
  by (auto simp: distinct_map dest: inj_onD)

lemma decide_follows:
  assumes "distinct (map wp_id rows)" "p \<in> set rows" "open_proposal p" "q \<in> set rows"
  shows "\<exists>r \<in> set (decide_rows p s who now rows). follows q r"
proof -
  let ?f = "\<lambda>q. if at_id (wp_tenant p) (wp_id p) q then q\<lparr>wp_status := s, wp_decided_by := who, wp_published_at := now\<rparr> else q"
  have "follows q (?f q)"
  proof (cases "at_id (wp_tenant p) (wp_id p) q")
    case True
    then have "open_proposal q"
      using find_id [OF assms(1,4,2)] assms(3) by (simp add: at_id_def)
    then show ?thesis
      using True by (simp add: follows_def)
  qed simp
  moreover have "?f q \<in> set (decide_rows p s who now rows)"
    unfolding decide_rows_def map_rows_def set_map using assms(4) by (rule imageI)
  ultimately show ?thesis
    by blast
qed

lemma decide_ids [simp]: "map wp_id (decide_rows p s who now rows) = map wp_id rows"
  by (induction rows) (auto simp: decide_rows_def map_rows_def)

text \<open>What any number of calls does to the board, where \<open>A\<close> tells which proposals administrators named.\<close>

definition lawful :: "(uuid \<Rightarrow> uuid \<Rightarrow> bool) \<Rightarrow> board \<Rightarrow> board \<Rightarrow> bool" where
  "lawful A b b' \<longleftrightarrow>
     distinct (map wp_id (bd_rows b')) \<and>
     (\<forall>p \<in> set (bd_rows b). \<exists>q \<in> set (bd_rows b'). follows p q) \<and>
     bd_live b \<subseteq> bd_live b' \<and>
     (\<forall>w \<in> bd_live b' - bd_live b. \<exists>p \<in> set (bd_rows b'). A (wp_tenant p) (wp_id p) \<and> wp_dry_ok p \<and> published_form p w) \<and>
     (\<forall>n. bd_tools b' n \<noteq> bd_tools b n \<longrightarrow>
        (\<exists>p \<in> set (bd_rows b'). A (wp_tenant p) (wp_id p) \<and> wp_dry_ok p \<and> n = tool_name (wp_slug p) \<and>
           (\<exists>t. bd_tools b' n = Some t \<and> tl_impl t = WorkflowTool (wp_tenant p) (wp_slug p))))"

lemma lawfulD:
  assumes "lawful A b b'"
  shows "p \<in> set (bd_rows b) \<Longrightarrow> \<exists>q \<in> set (bd_rows b'). follows p q"
    and "w \<in> bd_live b' \<Longrightarrow> w \<notin> bd_live b \<Longrightarrow>
      \<exists>p \<in> set (bd_rows b'). A (wp_tenant p) (wp_id p) \<and> wp_dry_ok p \<and> published_form p w"
    and "bd_tools b' n \<noteq> bd_tools b n \<Longrightarrow>
      \<exists>p \<in> set (bd_rows b'). A (wp_tenant p) (wp_id p) \<and> wp_dry_ok p \<and> n = tool_name (wp_slug p) \<and>
        (\<exists>t. bd_tools b' n = Some t \<and> tl_impl t = WorkflowTool (wp_tenant p) (wp_slug p))"
proof -
  note law = assms [unfolded lawful_def]
  show "p \<in> set (bd_rows b) \<Longrightarrow> \<exists>q \<in> set (bd_rows b'). follows p q"
    using law [THEN conjunct2, THEN conjunct1] by blast
  show "w \<in> bd_live b' \<Longrightarrow> w \<notin> bd_live b \<Longrightarrow>
      \<exists>p \<in> set (bd_rows b'). A (wp_tenant p) (wp_id p) \<and> wp_dry_ok p \<and> published_form p w"
    using law [THEN conjunct2, THEN conjunct2, THEN conjunct2, THEN conjunct1, THEN bspec, of w] by simp
  show "bd_tools b' n \<noteq> bd_tools b n \<Longrightarrow>
      \<exists>p \<in> set (bd_rows b'). A (wp_tenant p) (wp_id p) \<and> wp_dry_ok p \<and> n = tool_name (wp_slug p) \<and>
        (\<exists>t. bd_tools b' n = Some t \<and> tl_impl t = WorkflowTool (wp_tenant p) (wp_slug p))"
    by (rule law [THEN conjunct2, THEN conjunct2, THEN conjunct2, THEN conjunct2, THEN spec, THEN mp])
qed

lemma lawful_same: "distinct (map wp_id (bd_rows b)) \<Longrightarrow> lawful A b b"
  by (auto simp: lawful_def intro: follows_refl)

lemma lawful_mono: "lawful A b b' \<Longrightarrow> (\<And>t i. A t i \<Longrightarrow> B t i) \<Longrightarrow> lawful B b b'"
  unfolding lawful_def by meson

lemma lawful_rows:
  assumes "distinct (map wp_id (bd_rows b))" "p \<in> set (bd_rows b)" "open_proposal p"
  shows "lawful A b (b\<lparr>bd_rows := decide_rows p s who now (bd_rows b)\<rparr>)"
  using decide_follows [OF assms] assms(1) by (auto simp: lawful_def)

lemma lawful_trans:
  assumes "lawful A b c" "lawful A c d"
  shows "lawful A b d"
proof -
  note first = lawfulD [OF assms(1)] and second = lawfulD [OF assms(2)]
  have rows: "\<exists>q \<in> set (bd_rows d). follows p q" if "p \<in> set (bd_rows b)" for p
    using first(1) [OF that] second(1) follows_trans by blast
  have live: "\<exists>p \<in> set (bd_rows d). A (wp_tenant p) (wp_id p) \<and> wp_dry_ok p \<and> published_form p w"
    if w: "w \<in> bd_live d" "w \<notin> bd_live b" for w
  proof (cases "w \<in> bd_live c")
    case True
    then obtain p where p: "p \<in> set (bd_rows c)" "A (wp_tenant p) (wp_id p)" "wp_dry_ok p" "published_form p w"
      using first(2) w(2) by blast
    obtain q where "q \<in> set (bd_rows d)" "follows p q"
      using second(1) [OF p(1)] by blast
    then show ?thesis
      using p(2-) follows_fields [of p q] by (intro bexI [of _ q]) auto
  qed (use second(2) w(1) in blast)
  have tools: "\<exists>p \<in> set (bd_rows d). A (wp_tenant p) (wp_id p) \<and> wp_dry_ok p \<and> n = tool_name (wp_slug p) \<and>
      (\<exists>t. bd_tools d n = Some t \<and> tl_impl t = WorkflowTool (wp_tenant p) (wp_slug p))"
    if n: "bd_tools d n \<noteq> bd_tools b n" for n
  proof (cases "bd_tools d n = bd_tools c n")
    case True
    then have "bd_tools c n \<noteq> bd_tools b n"
      using n by simp
    then obtain p t where p: "p \<in> set (bd_rows c)" "A (wp_tenant p) (wp_id p)" "wp_dry_ok p" "n = tool_name (wp_slug p)"
      "bd_tools c n = Some t" "tl_impl t = WorkflowTool (wp_tenant p) (wp_slug p)"
      using first(3) by blast
    obtain q where "q \<in> set (bd_rows d)" "follows p q"
      using second(1) [OF p(1)] by blast
    then show ?thesis
      using p(2-) True follows_fields [of p q] by (intro bexI [of _ q]) auto
  qed (use second(3) in blast)
  show ?thesis
    unfolding lawful_def using rows live tools assms by (auto simp: lawful_def)
qed

text \<open>A move of the board is lawful.\<close>

lemma lawful_publish:
  assumes "distinct (map wp_id (bd_rows b))" "p \<in> set (bd_rows b)" "open_proposal p" "A (wp_tenant p) (wp_id p)" "wp_dry_ok p"
    "published_form p w" "retooled (wp_tenant p) (wp_slug p) (bd_tools b) tools" "lv = bd_live b \<or> lv = insert w (bd_live b)"
    "rows = bd_rows b \<or> rows = decide_rows p s who now (bd_rows b)"
  shows "lawful A b \<lparr>bd_live = lv, bd_rows = rows, bd_tools = tools\<rparr>"
proof -
  have rows: "distinct (map wp_id rows)" "\<forall>p \<in> set (bd_rows b). \<exists>q \<in> set rows. follows p q"
    using assms(9) decide_follows [OF assms(1-3)] assms(1) by (auto intro: follows_refl)
  then obtain q where q: "q \<in> set rows" "follows p q"
    using assms(2) by blast
  note q' = follows_fields [OF q(2)]
  have "\<exists>p \<in> set rows. A (wp_tenant p) (wp_id p) \<and> wp_dry_ok p \<and> published_form p v" if "v \<in> lv - bd_live b" for v
    using that assms(4-6,8) q(1) q' by (intro bexI [of _ q]) auto
  moreover have "\<exists>p \<in> set rows. A (wp_tenant p) (wp_id p) \<and> wp_dry_ok p \<and> n = tool_name (wp_slug p) \<and>
      (\<exists>t. tools n = Some t \<and> tl_impl t = WorkflowTool (wp_tenant p) (wp_slug p))" if n: "tools n \<noteq> bd_tools b n" for n
  proof -
    have "n = tool_name (wp_slug p)"
      using assms(7) n by (auto simp: retooled_def)
    moreover from this have "\<exists>t. tools n = Some t \<and> tl_impl t = WorkflowTool (wp_tenant p) (wp_slug p)"
      using assms(7) n by (auto simp: retooled_def)
    ultimately show ?thesis
      using assms(4,5) q(1) q' by (intro bexI [of _ q]) auto
  qed
  ultimately show ?thesis
    using rows assms(8) by (auto simp: lawful_def)
qed

inductive_cases board_stepE: "board_step cl target b b'"

lemma step_lawful:
  assumes "board_step cl target b b'" "distinct (map wp_id (bd_rows b))"
  shows "lawful (\<lambda>te i. target = Some i \<and> (case cl of None \<Rightarrow> False | Some c \<Rightarrow> cl_role c = role_admin \<and> cl_tenant c = te)) b b'"
    (is "lawful ?A b b'")
proof -
  have may: "p \<in> set (bd_rows b) \<and> open_proposal p \<and> (admin \<longrightarrow> ?A (wp_tenant p) (wp_id p))" if "may_move cl target admin p (bd_rows b)" for p admin
    using that by (auto simp: may_move_def split: option.splits)
  show ?thesis
    using assms(1)
  proof cases
    case board_idle
    then show ?thesis
      using assms(2) by (simp add: lawful_same)
  next
    case (board_draft c p)
    then show ?thesis
      using assms(2) by (auto simp: lawful_def fresh_draft_def intro: follows_refl)
  next
    case (board_submit p who)
    then show ?thesis
      using lawful_rows [OF assms(2)] may [of False p] by simp
  next
    case (board_reject p who)
    then show ?thesis
      using lawful_rows [OF assms(2)] may [of True p] by simp
  next
    case (board_publish p w tools who now)
    show ?thesis
      unfolding board_publish(1)
      by (rule lawful_publish [OF assms(2), of p ?A w tools _ _ proposal_published who now]) (use board_publish may [of True p] in blast)+
  next
    case (board_break_off p w tools rows')
    show ?thesis
      unfolding board_break_off(1)
      by (rule lawful_publish [OF assms(2), of p ?A w tools]) (use board_break_off may [of True p] in blast)+
  qed
qed

lemma calls_lawful:
  assumes "keys_unique (ps_svc st)" "distinct (map wp_id (ps_rows st))" "prop_calls uuid_of hs st = Some st'"
  shows "lawful (asked uuid_of hs) (board_of st) (board_of st')"
  using assms
proof (induction hs arbitrary: st)
  case Nil
  then show ?case
    by (simp add: lawful_same board_of_def)
next
  case (Cons h hs)
  obtain env d call where h: "h = (env, d, call)"
    by (metis prod_cases3)
  obtain st1 where st1: "call_state uuid_of (serving env d) call st = Some st1" "prop_calls uuid_of hs st1 = Some st'"
    using Cons.prems(3) by (auto simp: h split: option.splits)
  have on: "on_board (call_claims call) (call_target uuid_of call) st st1"
    by (rule call_on_board [OF Cons.prems(1) st1(1)])
  have "lawful (names uuid_of call) (board_of st) (board_of st1)"
    using step_lawful [of "call_claims call" "call_target uuid_of call" "board_of st" "board_of st1"] on Cons.prems(2)
    by (auto simp: on_board_def board_of_def names_def cong: option.case_cong elim: lawful_mono)
  then have first: "lawful (asked uuid_of (h # hs)) (board_of st) (board_of st1)"
    by (rule lawful_mono) (simp add: asked_def h)
  have "distinct (map wp_id (ps_rows st1))" "keys_unique (ps_svc st1)"
    using first on by (simp_all add: lawful_def board_of_def on_board_def)
  then have "lawful (asked uuid_of (h # hs)) (board_of st1) (board_of st')"
    using Cons.IH [OF _ _ st1(2)] by (auto simp: asked_def elim: lawful_mono)
  then show ?case
    using first lawful_trans by blast
qed

section \<open>A draft that is approved\<close>

definition member_claims :: claims where
  "member_claims = \<lparr>cl_user = ''u'', cl_tenant = ''a'', cl_role = ''member'', cl_jti = ''j'', cl_expires = 0\<rparr>"

definition admin_claims :: claims where
  "admin_claims = member_claims\<lparr>cl_user := ''b'', cl_role := role_admin\<rparr>"

definition calm_env :: "unit wp_env" where
  "calm_env = \<lparr>we_svc = demo_env, we_invoke = (\<lambda>te us slug ins dry sv. None), we_faults = (\<lambda>_ _. None),
     we_workflow_id = ''w'', we_id = ''p'', we_now = 5, we_yaml = (\<lambda>_. Inl [])\<rparr>"

definition calm_run :: "unit dry_params" where
  "calm_run = \<lparr>dp_fault = (\<lambda>_. None), dp_run = ''r'', dp_started = 0, dp_duration = 1, dp_sched = replicate 5 ([], quiet),
     dp_parent = None, dp_tools = id\<rparr>"

definition empty_server :: "unit wp_state" where
  "empty_server = \<lparr>ps_svc = \<lparr>sv_tables = \<lparr>tb_workflows = [], tb_runs = [], tb_triggers = []\<rparr>,
      sv_bus = Some \<lparr>bus_reg = [], bus_schemas = [], bus_events = [], bus_audited = []\<rparr>, sv_audit = [], sv_admins = []\<rparr>, ps_rows = []\<rparr>"

definition demo_create :: create_req where
  "demo_create = \<lparr>cq_slug = ''demo'', cq_name = ''Demo'', cq_descr = [], cq_template = [], cq_slots = [], cq_dsl = ''x'',
     cq_message = [], cq_session = None\<rparr>"

abbreviation demo_call :: "claims \<Rightarrow> prop_req \<Rightarrow> unit wp_env \<times> unit dry_params \<times> prop_call" where
  "demo_call c rq \<equiv> (calm_env, calm_run, ByRequest (Some c) rq)"

definition demo_proposal :: "string \<Rightarrow> uuid option \<Rightarrow> int option \<Rightarrow> wf_proposal" where
  "demo_proposal status who at_time = \<lparr>wp_id = ''p'', wp_tenant = ''a'', wp_session = None, wp_creator = ''u'', wp_slug = ''demo'',
     wp_name = ''Demo'', wp_descr = [], wp_dsl = ''x'', wp_source = source_freeform, wp_template = [], wp_slots = JObj [],
     wp_dry_ok = True, wp_dry_output = None, wp_dry_error = [], wp_status = status, wp_published_at = at_time,
     wp_decided_by = who, wp_created = 5\<rparr>"

definition demo_draft :: wf_row where
  "demo_draft = \<lparr>wr_id = ''w'', wr_tenant = ''a'', wr_slug = ''demo'', wr_name = ''Demo'', wr_descr = [], wr_dsl = ''x'',
     wr_version = 1, wr_published = False\<rparr>"

lemma demo_parses: "parse_doc (se_unmarshal demo_env) dsl = Inr waited_doc"
proof -
  have "parse_doc (\<lambda>_. Inr wait_doc) dsl = parse_doc (\<lambda>_. Inr wait_doc) []"
    by (simp add: parse_doc_def)
  then show ?thesis
    using wait_doc_parsed by (simp add: demo_env_def flip: waited_doc_def)
qed

text \<open>A service with the draft of the workflow and nothing else.\<close>

definition demo_drafted :: "bool \<Rightarrow> unit svc \<Rightarrow> bool" where
  "demo_drafted pub sv \<longleftrightarrow> tb_workflows (sv_tables sv) = [demo_draft\<lparr>wr_published := pub\<rparr>] \<and> tb_triggers (sv_tables sv) = [] \<and>
     sv_bus sv = sv_bus (ps_svc empty_server)"

lemma demo_drafted_audit [simp]: "demo_drafted pub (audit_admin te tg a sv) = demo_drafted pub sv"
  by (simp add: demo_drafted_def audit_admin_def)

lemma demo_get:
  assumes "demo_drafted pub sv"
  shows "repo_get (\<lambda>_. None) ''a'' ''demo'' (sv_tables sv) = Inr (demo_draft\<lparr>wr_published := pub\<rparr>)"
  using assms by (simp add: demo_drafted_def repo_get_def at_slug_def demo_draft_def)

lemma demo_dry:
  assumes "demo_drafted False sv"
  shows "\<exists>sv'. run_dry_run (serving calm_env calm_run) ''a'' ''u'' ''demo'' ''x'' sv = Some ((True, None, []), sv') \<and> demo_drafted False sv'"
proof -
  have ins: "default_inputs waited_doc = []"
    by (simp add: default_inputs_def waited_doc_def wait_doc_def)
  have cfg: "se_cfg demo_env = default_config"
    by (simp add: demo_env_def)
  let ?res = "\<lparr>ir_run = ''r'', ir_status = StatusOK, ir_outputs = None, ir_error = [], ir_steps = 1, ir_dry_run = True, ir_started = 0, ir_duration = 1\<rparr>"
  have "\<exists>sv'. svc_invoke demo_env (\<lambda>_. None) ''r'' 0 1 False (replicate 5 ([], quiet)) None (read_only id) ''a'' ''u'' ''demo'' [] True sv =
      Some (Inr ?res, sv') \<and> demo_drafted False sv'"
    using assms
    by (simp add: svc_invoke_def load_parsed_def demo_get [OF assms] demo_parse repo_create_run_def cfg waited_run Let_def)
      (simp add: demo_drafted_def read_only_def repo_finish_run_def Let_def audit_admin_def)
  then show ?thesis
    by (auto simp: run_dry_run_def serving_def calm_env_def calm_run_def demo_parses ins Let_def)
qed

lemma demo_filed:
  "\<exists>sv. prop_create (serving calm_env calm_run) ''a'' ''u''
      \<lparr>pi_slug = ''demo'', pi_name = ''Demo'', pi_descr = [], pi_dsl = ''x'', pi_source = [], pi_template = [], pi_slots = [], pi_session = None\<rparr>
      empty_server = Some (Inr (demo_proposal proposal_draft None None), \<lparr>ps_svc = sv, ps_rows = [demo_proposal proposal_draft None None]\<rparr>) \<and>
      demo_drafted False sv"
proof -
  let ?env = "serving calm_env calm_run"
  have env: "we_svc ?env = demo_env" "we_faults ?env = (\<lambda>_ _. None)" "we_workflow_id ?env = ''w''" "we_id ?env = ''p''" "we_now ?env = 5"
    by (simp_all add: serving_def calm_env_def)
  have "\<exists>sv1. ensure_draft_workflow ?env ''a'' ''demo'' ''Demo'' [] ''x'' (ps_svc empty_server) = (None, sv1) \<and> demo_drafted False sv1"
    by (simp add: ensure_draft_workflow_def env svc_create_def demo_parse repo_create_def empty_server_def Let_def)
      (simp add: demo_drafted_def empty_server_def demo_draft_def)
  then obtain sv1 where ens: "ensure_draft_workflow ?env ''a'' ''demo'' ''Demo'' [] ''x'' (ps_svc empty_server) = (None, sv1)" "demo_drafted False sv1"
    by blast
  obtain sv2 where dry: "run_dry_run ?env ''a'' ''u'' ''demo'' ''x'' sv1 = Some ((True, None, []), sv2)" "demo_drafted False sv2"
    using demo_dry [OF ens(2)] by blast
  show ?thesis
    using ens dry
    by (simp add: prop_create_def env demo_parse wp_insert_def new_draft_def demo_proposal_def empty_server_def)
qed

lemma demo_publish:
  assumes "demo_drafted False sv"
  shows "\<exists>sv'. publish_proposal (serving calm_env calm_run) ''a'' ''b'' (demo_proposal proposal_pending (Some ''u'') None)
      \<lparr>ps_svc = sv, ps_rows = [demo_proposal proposal_pending (Some ''u'') None]\<rparr> =
    (None, \<lparr>ps_svc = sv', ps_rows = [demo_proposal proposal_published (Some ''b'') (Some 5)]\<rparr>) \<and>
    live sv' = {demo_draft\<lparr>wr_version := 2, wr_published := True\<rparr>}"
proof -
  let ?env = "serving calm_env calm_run"
  have env: "we_svc ?env = demo_env" "we_faults ?env = (\<lambda>_ _. None)" "we_workflow_id ?env = ''w''" "we_id ?env = ''p''" "we_now ?env = 5"
    by (simp_all add: serving_def calm_env_def)
  note rows = assms [unfolded demo_drafted_def]
  let ?w = "demo_draft\<lparr>wr_version := 2\<rparr>"
  have "\<exists>sv1. ensure_draft_workflow ?env ''a'' ''demo'' ''Demo'' [] ''x'' sv = (None, sv1) \<and> tb_workflows (sv_tables sv1) = [?w] \<and>
      tb_triggers (sv_tables sv1) = [] \<and> sv_bus sv1 = sv_bus (ps_svc empty_server)"
    using rows
    by (simp add: ensure_draft_workflow_def env svc_create_def demo_parse repo_create_def svc_get_def repo_get_def at_slug_def demo_draft_def
        svc_update_def repo_update_def map_slug_def Let_def disable_all_for_workflow_def map_triggers_def audit_admin_def)
  then obtain sv1 where sv1: "ensure_draft_workflow ?env ''a'' ''demo'' ''Demo'' [] ''x'' sv = (None, sv1)" "tb_workflows (sv_tables sv1) = [?w]"
      "tb_triggers (sv_tables sv1) = []" "sv_bus sv1 = sv_bus (ps_svc empty_server)"
    by blast
  have doc: "doc_inputs waited_doc = []" "doc_triggers waited_doc = []"
    by (simp_all add: waited_doc_def wait_doc_def)
  obtain schema where schema: "schema_from_inputs [] = Inr schema"
    by (simp add: schema_from_inputs_def Let_def)
  let ?t = "workflow_tool ''a'' ?w waited_doc schema"
  have name: "tl_name ?t = tool_name (wr_slug ?w)"
    by (simp add: workflow_tool_def)
  have "\<exists>c. compile_schema (se_lib demo_env) (tl_schema ?t) = Inr c"
    by (simp add: compile_schema_def demo_env_def any_lib_def)
  then have swap: "\<exists>b'. bus_register (se_lib demo_env) ?t (snd (bus_unregister (tool_name (wr_slug ?w)) b)) = (None, b')" for b
    using tool_bus.swap_in_good [of "se_lib demo_env" ?t b] by (auto simp: tool_bus.swap_in_def name)
  have "\<exists>sv2. register_tool demo_env ''a'' ?w waited_doc sv1 = (None, sv2)"
    using swap [of "the (sv_bus sv1)"] by (auto simp: register_tool_def doc schema sv1(4) empty_server_def)
  then obtain sv2 where reg: "register_tool demo_env ''a'' ?w waited_doc sv1 = (None, sv2)"
    by blast
  have tables: "sv_tables sv2 = sv_tables sv1"
    using register_tool_shape [OF reg] by simp
  have load: "load_parsed demo_env (\<lambda>_. None) ''a'' ''demo'' sv1 = Inr (?w, waited_doc)"
    by (simp add: load_parsed_def repo_get_def sv1 at_slug_def demo_draft_def demo_parse)
  have "\<exists>sv3. svc_publish demo_env (\<lambda>_. None) ''a'' ''demo'' sv1 = (None, sv3) \<and> live sv3 = {?w\<lparr>wr_published := True\<rparr>}"
    by (simp add: svc_publish_def load reg tables repo_set_published_def sv1 sync_triggers_def doc list_by_workflow_def map_slug_def)
      (simp add: live_def at_slug_def demo_draft_def)
  then obtain sv3 where pub: "svc_publish demo_env (\<lambda>_. None) ''a'' ''demo'' sv1 = (None, sv3)" "live sv3 = {?w\<lparr>wr_published := True\<rparr>}"
    by blast
  show ?thesis
    using sv1(1) pub
    by (simp add: publish_proposal_def env demo_proposal_def wp_set_status_def at_id_def map_rows_def)
qed

definition demo_history :: "(unit wp_env \<times> unit dry_params \<times> prop_call) list" where
  "demo_history =
     [demo_call member_claims (ReqCreate (Some demo_create)), demo_call member_claims (ReqConfirm (Some ''p'')),
      demo_call admin_claims (ReqApprove (Some ''p''))]"

lemma demo_went_live:
  "\<exists>st'. prop_calls Some demo_history empty_server = Some st' \<and> demo_draft\<lparr>wr_version := 2, wr_published := True\<rparr> \<in> live (ps_svc st') \<and>
     ps_rows st' = [demo_proposal proposal_published (Some ''b'') (Some 5)]"
proof -
  let ?env = "serving calm_env calm_run"
  have env: "we_faults ?env = (\<lambda>_ _. None)" "we_now ?env = 5"
    by (simp_all add: serving_def calm_env_def)
  obtain sv1 where sv1: "prop_create ?env ''a'' ''u''
      \<lparr>pi_slug = ''demo'', pi_name = ''Demo'', pi_descr = [], pi_dsl = ''x'', pi_source = [], pi_template = [], pi_slots = [], pi_session = None\<rparr>
      empty_server = Some (Inr (demo_proposal proposal_draft None None), \<lparr>ps_svc = sv1, ps_rows = [demo_proposal proposal_draft None None]\<rparr>)"
      "demo_drafted False sv1"
    using demo_filed by blast
  have create: "call_state Some ?env (ByRequest (Some member_claims) (ReqCreate (Some demo_create))) empty_server =
      Some \<lparr>ps_svc = sv1, ps_rows = [demo_proposal proposal_draft None None]\<rparr>"
    using sv1(1) by (simp add: prop_request_def create_drafted_def demo_create_def member_claims_def Let_def as_drafted_def)
  have "\<exists>sv2. call_state Some ?env (ByRequest (Some member_claims) (ReqConfirm (Some ''p''))) \<lparr>ps_svc = sv1, ps_rows = [demo_proposal proposal_draft None None]\<rparr> =
      Some \<lparr>ps_svc = sv2, ps_rows = [demo_proposal proposal_pending (Some ''u'') None]\<rparr> \<and> demo_drafted False sv2"
    using sv1(2)
    by (simp add: prop_request_def with_id_def member_claims_def prop_confirm_def env wp_get_def at_id_def demo_proposal_def
        proposal_draft_def proposal_pending_def proposal_published_def wp_set_status_def map_rows_def role_admin_def)
  then obtain sv2 where confirm: "call_state Some ?env (ByRequest (Some member_claims) (ReqConfirm (Some ''p''))) \<lparr>ps_svc = sv1, ps_rows = [demo_proposal proposal_draft None None]\<rparr> =
      Some \<lparr>ps_svc = sv2, ps_rows = [demo_proposal proposal_pending (Some ''u'') None]\<rparr>" "demo_drafted False sv2"
    by blast
  obtain sv3 where pub: "publish_proposal ?env ''a'' ''b'' (demo_proposal proposal_pending (Some ''u'') None)
      \<lparr>ps_svc = sv2, ps_rows = [demo_proposal proposal_pending (Some ''u'') None]\<rparr> =
    (None, \<lparr>ps_svc = sv3, ps_rows = [demo_proposal proposal_published (Some ''b'') (Some 5)]\<rparr>)"
    "live sv3 = {demo_draft\<lparr>wr_version := 2, wr_published := True\<rparr>}"
    using demo_publish [OF confirm(2)] by blast
  have found: "wp_get (\<lambda>_. None) ''a'' ''p'' [demo_proposal proposal_pending (Some ''u'') None] = Inr (demo_proposal proposal_pending (Some ''u'') None)"
    "wp_status (demo_proposal proposal_pending (Some ''u'') None) = proposal_pending" "wp_dry_ok (demo_proposal proposal_pending (Some ''u'') None)"
    by (simp_all add: wp_get_def at_id_def demo_proposal_def)
  have approve: "call_state Some ?env (ByRequest (Some admin_claims) (ReqApprove (Some ''p''))) \<lparr>ps_svc = sv2, ps_rows = [demo_proposal proposal_pending (Some ''u'') None]\<rparr> =
      Some \<lparr>ps_svc = sv3, ps_rows = [demo_proposal proposal_published (Some ''b'') (Some 5)]\<rparr>"
    using pub(1)
    by (simp add: prop_request_def require_admin_def with_id_def admin_claims_def member_claims_def prop_approve_def env found publish_and_read_def)
  show ?thesis
    using pub(2) by (simp add: demo_history_def create confirm(1) approve del: call_state.simps)
qed

section \<open>A slug that is live\<close>

lemma publish_live_refused:
  assumes "row_at te (wp_slug p) (ps_svc st) = Some w" "wr_published w" "publish_proposal env te who p st = (e, st')"
  shows "st' = st \<and> e \<noteq> None"
proof -
  obtain e1 sv1 where ens: "ensure_draft_workflow env te (wp_slug p) (wp_name p) (wp_descr p) (wp_dsl p) (ps_svc st) = (e1, sv1)"
    by (metis surj_pair)
  show ?thesis
    using ensure_draft_live [OF ens assms(1,2)] assms(3) ens by (cases e1) (auto simp: publish_proposal_def)
qed

text \<open>A publication that broke off after its row went live cannot be taken up again.\<close>

lemma live_slug_refuses:
  assumes "row_at te (wp_slug p) (ps_svc st) = Some w" "wr_published w" "find (at_id te i) (ps_rows st) = Some p"
  shows "\<exists>e. prop_approve env te us i st = (Inl e, st)" "\<exists>e. prop_confirm env te us i True st = (Inl e, st)"
proof -
  obtain e st' where pub: "publish_proposal env te us p st = (e, st')"
    by (metis surj_pair)
  then have "\<exists>e. publish_and_read env te us p i st = (Inl e, st)"
    using publish_live_refused [OF assms(1,2) pub] by (auto simp: publish_and_read_def)
  then show "\<exists>e. prop_approve env te us i st = (Inl e, st)" "\<exists>e. prop_confirm env te us i True st = (Inl e, st)"
    using assms(3) by (auto simp: prop_approve_def prop_confirm_def wp_get_def split: option.splits)
qed

section \<open>Properties\<close>

text \<open>
  C17. The proposals keep to the approval board: every request and every tool call on them, whoever makes
  it and whichever of its statements fail, is a move of the board that caller may make on the proposal
  it names, and the unique index of the workflows holds after it.
\<close>

theorem calls_follow_board:
  assumes "keys_unique (ps_svc st)" "call_state uuid_of (serving env d) call st = Some st'"
  shows "board_step (call_claims call) (call_target uuid_of call) (board_of st) (board_of st') \<and> keys_unique (ps_svc st')"
  using call_on_board [OF assms] by (simp add: on_board_def)

theorem calls_follow_board_witness:
  "\<exists>st'. call_state Some (serving calm_env calm_run) (ByRequest (Some member_claims) (ReqCreate (Some demo_create))) empty_server = Some st' \<and>
     board_step (Some member_claims) None (board_of empty_server) (board_of st') \<and> ps_rows st' \<noteq> []"
proof -
  obtain sv where create: "call_state Some (serving calm_env calm_run) (ByRequest (Some member_claims) (ReqCreate (Some demo_create))) empty_server =
      Some \<lparr>ps_svc = sv, ps_rows = [demo_proposal proposal_draft None None]\<rparr>"
    using demo_filed by (auto simp: prop_request_def create_drafted_def demo_create_def member_claims_def Let_def as_drafted_def)
  have "keys_unique (ps_svc empty_server)"
    by (simp add: keys_unique_def empty_server_def)
  from calls_follow_board [OF this create] create show ?thesis
    by auto
qed



end
