(* ===== verification/Spec2Isabelle.thy ===== *)
theory Spec2Isabelle
  imports Expr WfValidate WfTermination AuditLog ToolBus WfPublish Orchestrator Quota AgentRuns AgentStream Delegate ClaudeStream AgentBus Design MemoryRuns SessionRuns RefRuns Decisions TriggerRuns Templates AuthRuns ProposalRuns
begin

text \<open>
  Verification library for the private coding agent, a server in Go under \<open>src/\<close>.

  The program. A tenant's users talk to an agent (\<open>src/internal/agent\<close>) that asks a language model
  what to do and calls tools; the tools live on a bus (\<open>src/internal/toolbus\<close>) that validates,
  meters and records every call. Workflows (\<open>src/internal/workflow\<close>) are YAML documents that run
  tools without a model; a published workflow is a tool itself. Quotas (\<open>src/internal/quota\<close>) bound
  calls and tokens, an audit log (\<open>src/internal/audit\<close>) chains what administrators and runs do,
  skills (\<open>src/internal/skills\<close>) and routing rules (\<open>src/internal/orchestrator\<close>) shape the prompt.
  A session (\<open>src/internal/session\<close>) stores the conversation of a user with an agent; memories
  (\<open>src/internal/memory\<close>) are what is kept between sessions. The models are reached through a
  gateway (\<open>src/internal/modelgw\<close>) that picks a provider and meters tokens.

  \<^bold>\<open>Foundations.\<close> \<open>Prelude\<close>: results, association maps, shared lemmas. \<open>GoStd\<close>: the functions of
  Go's standard library the sources call on strings and maps. \<open>GoDb\<close>: runes, and statements on tables
  that may fail, one after the other. \<open>GoNum\<close>: integers and an abstract
  float64. \<open>GoTime\<close>: UTC instants and their RFC 3339 text. \<open>Json\<close>, \<open>JsonScan\<close>: values as
  \<open>encoding/json\<close> writes them, and the scanner of \<open>json.Valid\<close>. \<open>Sha256\<close>: the hash on 32-bit words.

  \<^bold>\<open>Workflows.\<close> \<open>Expr\<close> is \<open>expr/expr.go\<close>: templates, operators, path lookup. \<open>WfModel\<close> holds the
  document (\<open>types.go\<close>) and the classification of its steps (\<open>parse.go\<close>), \<open>WfValidate\<close> the validator
  (\<open>validate.go\<close>, \<open>trigger_validate.go\<close>) with its equivalence to a direct specification.
  \<open>WfEngine\<close> is \<open>engine.go\<close> as a machine whose goroutines take one action at a time: a frame stack
  per goroutine stands for the Go call stack, tools, timers and contexts answer through parameters.
  \<open>WfRuns\<close> proves what holds on every schedule (which tools are called, the step cap, absorption of
  errors) by invariants over reachable configurations, \<open>WfTermination\<close> that every schedule ends, by
  a multiset order on frames, and that no configuration is stuck. \<open>WfStore\<close> has the tables of
  workflows, runs and triggers with the statements of \<open>repo.go\<close>, \<open>trigger_repo.go\<close>, \<open>trigger_sync.go\<close>,
  each of which may fail; \<open>WfService\<close> the requests of \<open>service.go\<close> over store, bus and engine;
  \<open>WfPublish\<close> what they keep: isolation of tenants, agreement of bus and published rows.

  \<open>Triggers\<close> adds what starts a workflow by itself: the claim of due cron triggers and the look-up of
  tokens (\<open>trigger_repo.go\<close>), the scheduler (\<open>trigger_scheduler.go\<close>), the webhook request with its
  limiter and its cache of answers (\<open>trigger_webhook_handler.go\<close>) and the requests of \<open>service.go\<close> on
  triggers. \<open>TriggerRuns\<close> runs several schedulers on one table, statement by statement, and shows that
  an instant fires once, where the clocks agree and the cron package, a parameter, finds later
  activations; what a webhook may run; what the limiter admits. \<open>Templates\<close> is \<open>workflow/template\<close>:
  when the DSL rendered from slots, or from a message, is accepted. \<open>Proposals\<close> has the drafts an agent or
  a member makes (\<open>proposal_types.go\<close>, \<open>proposal_repo.go\<close>, \<open>proposal_service.go\<close>), \<open>ProposalTools\<close> their
  requests and tools (\<open>proposal_handler.go\<close>, \<open>tools_admin.go\<close>, \<open>tools_publish.go\<close>); \<open>ProposalRuns\<close> states
  the approval as an abstract board, shows that every call is a move of it, and derives what may be
  published; its locale \<open>dry_runner\<close> is what a dry run must leave alone, interpreted on \<open>Invoke\<close>.

  \<open>WfGraph\<close> is the flow chart of a document (\<open>graph.go\<close>). \<open>Design\<close> is the visual editor
  (\<open>design_model.go\<close>, \<open>design_validate.go\<close>, \<open>design_compile.go\<close>, \<open>design_decompile.go\<close>): what is
  compiled comes back, and compiled conditions mean what the editor shows.

  \<^bold>\<open>Tool bus and audit log.\<close> \<open>ToolBus\<close>: registry, schema cache and invocation (\<open>bus.go\<close>). \<open>AuditLog\<close>:
  the canonical encoding and hash chain (\<open>hash.go\<close>), append and verification.

  \<^bold>\<open>Agent.\<close> \<open>Chat\<close> has the messages exchanged with the model (\<open>modelgw/types.go\<close>). \<open>Agent\<close> is the loop
  of \<open>engine.go\<close> over a world of three interfaces (the model's stream, the bus, the receiver of
  events), each of which answers and changes a state of its own; requests, calls, events and audit
  entries are logged. \<open>AgentRuns\<close> describes the protocol of a run as an inductive relation between
  outcome and log that says nothing of the world, shows that the loop refines it, and derives what
  an agent may call, what conversation it shows the model, which events it emits and how long it
  runs. \<open>AgentStream\<close> shows how a streamed message is put together. \<open>Delegate\<close> is
  \<open>delegate_tool.go\<close>: the engine as a tool of itself, and the bound on this recursion.
  \<open>Orchestrator\<close>, \<open>Skills\<close> and \<open>Quota\<close> model the packages of these names. \<open>AgentBus\<close> puts the agent on the
  bus: its locale \<open>agent_frame\<close> says which properties of a world and a log a run keeps, and other
  theories interpret it on their worlds.

  \<^bold>\<open>Models.\<close> \<open>ModelGateway\<close> is \<open>gateway.go\<close>, \<open>registry.go\<close>, \<open>validate.go\<close> and \<open>repo.go\<close> of
  \<open>modelgw\<close>: provider resolution, reservation and reconciliation of tokens. \<open>Providers\<close> holds the OpenAI
  and Claude providers with their translations and stream readers; \<open>ClaudeStream\<close> what the agent
  makes of a Claude stream.

  \<^bold>\<open>Sessions and memory.\<close> \<open>SessStore\<close> has the two tables of sessions and the statements of their
  \<open>repo.go\<close>, with writers interleaving on one log; \<open>Session\<close> the service (\<open>service.go\<close>,
  \<open>sandbox_bind.go\<close>) and the websocket (\<open>wshandler.go\<close>); \<open>SessionRuns\<close> what requests and agent
  runs make of the stored conversation. \<open>MemStore\<close>, \<open>Memory\<close> and \<open>MemoryRuns\<close> do the same for
  \<open>types.go\<close>, \<open>repo.go\<close>, \<open>service.go\<close> and \<open>loader.go\<close> of \<open>memory\<close>: privacy, search, re-embedding.

  \<^bold>\<open>Reflection.\<close> \<open>RefJobs\<close> is the table of jobs (\<open>job_repo.go\<close>) and the operations of the worker
  (\<open>worker.go\<close>); \<open>RefQueue\<close> the worker one statement at a time and a cluster of servers on one table,
  with kills, and its invariant; \<open>RefRuns\<close> who works on what, and which jobs are lost. \<open>Reflect\<close> holds
  the proposals (\<open>repo.go\<close>), the pipeline (\<open>reflector.go\<close>), the handlers of administrators
  (\<open>admin_handler.go\<close>) and the adapter to the memory service (\<open>cmd/server/main.go\<close>); \<open>ReflectRuns\<close> what
  a reflection adds, \<open>Decisions\<close> what requests may change, with the memory service as the
  interpretation of the locale \<open>memory_writer\<close>.

  \<^bold>\<open>Authentication.\<close> \<open>Base64\<close> is the encoding and the HMAC of Go's library. \<open>Auth\<close> has tokens,
  revocation, the middleware and the limit on requests (\<open>src/internal/auth\<close>, \<open>httpx/ratelimit.go\<close>,
  \<open>metrics/auth.go\<close>) and the users and tenants (\<open>user\<close>, \<open>tenant\<close>); \<open>AuthFlow\<close> the requests under \<open>/auth\<close>
  with the OpenID flow; \<open>AuthRuns\<close> whom a token speaks for, that logout ends it, who is added to the
  users, and that the cookie of a flow comes back.

  \<^bold>\<open>Interfaces.\<close> What a component needs of another is a locale interpreted on the other's
  definitions; what it needs of code outside \<open>src/\<close> (JSON schema, YAML, regular expressions, Redis,
  PostgreSQL errors, the model provider) is a record of functions with named laws where a proof
  needs one.

  \<^bold>\<open>Bounds.\<close> Nothing runs on fuel that could run out: the machine of the workflow engine is a
  relation shown to be well-founded; the loop of the agent counts down from the step limit as the
  source counts up to it; delegation is unfolded a fixed number of times and shown not to depend on
  more.

  \<^bold>\<open>Not modelled.\<close> The HTTP handlers that only move JSON between a client and a service, configuration, metrics, tracing and logging; drivers of sandboxes,
  databases and object stores, which are calls of third-party clients; the user interface.
\<close>

end
